(* ===== verification/Prelude.thy ===== *)
theory Prelude
  imports Main "HOL-Library.Word"
begin

text \<open>
  Shared vocabulary of the development: the machine types of the Rust sources, the crate's error
  type, the outcome of a fallible call and the generic facts that the component theories use.

  \<^item> \<open>u8\<close> and \<open>u32\<close> are words of that width; arithmetic wraps as in a release build of the crate
    (debug builds panic where the model wraps). \<open>usize\<close> is \<open>nat\<close> (a 64-bit target: no buffer of
    the program reaches \<open>2 ^ 64\<close> bytes).
  \<^item> \<open>bytes\<close> is a byte buffer (\<open>[u8]\<close>, \<open>Vec<u8>\<close>, \<open>Bytes\<close>, \<open>CryptoVec\<close>; the theory
    \<open>CryptoVec\<close> justifies the last one). A Rust \<open>str\<close> is a HOL \<open>string\<close> whose characters are its
    bytes.
  \<^item> \<open>'a rs\<close> is what a call may do: return \<open>Ok\<close>, return \<open>Err\<close>, panic, or run forever.
\<close>

type_synonym u8 = "8 word"
type_synonym u16 = "16 word"
type_synonym u32 = "32 word"
type_synonym bytes = "u8 list"

section \<open>Errors\<close>

text \<open>\<open>AlgorithmKind\<close> and \<open>Error\<close> of \<open>lib_inner.rs\<close>. Constructors that wrap the error of another
  crate (\<open>IO\<close>, \<open>Utf8\<close>, \<open>Signature\<close>, \<open>SshKey\<close>, \<open>SshEncoding\<close>, ...) carry no payload, but for
  \<open>SshEncoding\<close>, of which the sources tell \<open>Length\<close> apart (\<open>True\<close>) from the rest (\<open>False\<close>).\<close>

datatype algorithm_kind = AK_Kex | AK_Key | AK_Cipher | AK_Compression | AK_Mac

datatype channel_open_failure =
    AdministrativelyProhibited | ConnectFailed | UnknownChannelType | ResourceShortage | UnknownFailure

text \<open>The errors that only \<open>keys::Error\<close> has; the others of it are written as those of \<open>error\<close> below.
  \<open>KeyFormat\<close> stands for the wrapped errors of the crates that read key formats.\<close>

datatype keys_error =
    UnsupportedKeyType string
  | KeyIsEncrypted
  | KeyIsCorrupt
  | UnknownKeyAlgorithm
  | InvalidParameters
  | AgentProtocolError
  | AgentFailure
  | Base64Decode
  | KeyFormat
  | EnvVar string
  | BadAuthSock

datatype error =
    CouldNotReadKey
  | KexInit
  | UnknownAlgo
  | NoCommonAlgo algorithm_kind "string list" "string list"
  | Version
  | KexError
  | PacketAuth
  | Inconsistent
  | NotAuthenticated
  | UnsupportedAuthMethod
  | IndexOutOfBounds
  | UnknownKey
  | WrongServerSig
  | PacketSize nat
  | WrongChannel
  | ChannelOpenFailure channel_open_failure
  | DisconnectError
  | NoHomeDir
  | KeyChanged nat
  | HUP
  | ConnectionTimeout
  | KeepaliveTimeout
  | InactivityTimeout
  | NoAuthMethod
  | SendError
  | PendingError
  | DecryptionError
  | RequestDenied
  | Keys keys_error
  | IO
  | Utf8
  | CompressError
  | DecompressError
  | JoinError
  | Elapsed
  | StrictKeyExchangeViolation u8 nat
  | SignatureError
  | SshKey
  | SshEncoding bool
  | InvalidConfig string
  | RecvError

section \<open>Outcomes\<close>

datatype 'a rs = Ok 'a | Err error | Panic | Diverges

text \<open>The \<open>?\<close> operator: continue on \<open>Ok\<close>, hand anything else to the caller.\<close>

fun and_then :: "'a rs \<Rightarrow> ('a \<Rightarrow> 'b rs) \<Rightarrow> 'b rs" where
  "and_then (Ok x) f = f x"
| "and_then (Err e) f = Err e"
| "and_then Panic f = Panic"
| "and_then Diverges f = Diverges"

fun is_ok :: "'a rs \<Rightarrow> bool" where
  "is_ok (Ok x) = True"
| "is_ok (Err e) = False"
| "is_ok Panic = False"
| "is_ok Diverges = False"

text \<open>\<open>opt.ok_or(e)?\<close>, and a loop that may not return (\<open>None\<close>).\<close>

fun ok_or :: "'a option \<Rightarrow> error \<Rightarrow> 'a rs" where
  "ok_or (Some x) e = Ok x"
| "ok_or None e = Err e"

fun or_diverge :: "'a option \<Rightarrow> 'a rs" where
  "or_diverge (Some x) = Ok x"
| "or_diverge None = Diverges"

named_theorems outcome_simps "equations that take an outcome apart"

lemma and_then_eq_Ok [outcome_simps]:
  "and_then m f = Ok y \<longleftrightarrow> (\<exists>x. m = Ok x \<and> f x = Ok y)"
  by (cases m) auto

lemma and_then_eq_Err [outcome_simps]:
  "and_then m f = Err e \<longleftrightarrow> m = Err e \<or> (\<exists>x. m = Ok x \<and> f x = Err e)"
  by (cases m) auto

lemma and_then_eq_Panic [outcome_simps]:
  "and_then m f = Panic \<longleftrightarrow> m = Panic \<or> (\<exists>x. m = Ok x \<and> f x = Panic)"
  by (cases m) auto

lemma and_then_eq_Diverges [outcome_simps]:
  "and_then m f = Diverges \<longleftrightarrow> m = Diverges \<or> (\<exists>x. m = Ok x \<and> f x = Diverges)"
  by (cases m) auto

lemma ok_or_eq_Ok [outcome_simps]: "ok_or o' e = Ok x \<longleftrightarrow> o' = Some x"
  by (cases o') auto

lemma or_diverge_eq_Ok [outcome_simps]: "or_diverge o' = Ok x \<longleftrightarrow> o' = Some x"
  by (cases o') auto

lemma is_ok_iff [outcome_simps]: "is_ok m \<longleftrightarrow> (\<exists>x. m = Ok x)"
  by (cases m) auto

lemma and_then_assoc: "and_then (and_then m f) g = and_then m (\<lambda>x. and_then (f x) g)"
  by (cases m) auto

lemma and_then_Ok_right [simp]: "and_then m Ok = m"
  by (cases m) auto

lemma and_then_cong [fundef_cong]:
  "m = m' \<Longrightarrow> (\<And>x. m' = Ok x \<Longrightarrow> f x = g x) \<Longrightarrow> and_then m f = and_then m' g"
  by (cases m) auto

section \<open>Slices and integers of the standard library\<close>

text \<open>\<open>&s[i..j]\<close> and \<open>&s[i..]\<close> panic out of range; \<open>s.get(i..)\<close> does not.\<close>

definition slice :: "nat \<Rightarrow> nat \<Rightarrow> 'a list \<Rightarrow> 'a list rs" where
  "slice i j s = (if i \<le> j \<and> j \<le> length s then Ok (take (j - i) (drop i s)) else Panic)"

definition slice_from :: "nat \<Rightarrow> 'a list \<Rightarrow> 'a list rs" where
  "slice_from i s = (if i \<le> length s then Ok (drop i s) else Panic)"

definition index :: "'a list \<Rightarrow> nat \<Rightarrow> 'a rs" where
  "index s i = (if i < length s then Ok (s ! i) else Panic)"

definition get_from :: "nat \<Rightarrow> 'a list \<Rightarrow> 'a list option" where
  "get_from i s = (if i \<le> length s then Some (drop i s) else None)"

definition first :: "'a list \<Rightarrow> 'a option" where
  "first s = (case s of [] \<Rightarrow> None | x # _ \<Rightarrow> Some x)"

lemma first_simps [simp]: "first [] = None" "first (x # xs) = Some x"
  by (simp_all add: first_def)

text \<open>\<open>n as u32\<close> (truncating), \<open>b as u8\<close> and \<open>u32::saturating_add\<close>.\<close>

abbreviation as_u32 :: "nat \<Rightarrow> u32" where "as_u32 n \<equiv> of_nat n"

definition bool_u8 :: "bool \<Rightarrow> u8" where
  "bool_u8 b = (if b then 1 else 0)"

definition saturating_add_u32 :: "u32 \<Rightarrow> u32 \<Rightarrow> u32" where
  "saturating_add_u32 a b = (if unat a + unat b < 2 ^ 32 then a + b else - 1)"

lemma unat_u32_lt: "unat (x :: u32) < 2 ^ 32"
  using unsigned_less [of x] by simp

lemma unat_max_u32 [simp]: "unat (- 1 :: u32) = 2 ^ 32 - 1"
  by (simp add: unsigned_minus_1_eq_mask mask_eq_exp_minus_1)

lemma unat_saturating_add_u32:
  "unat (saturating_add_u32 a b) = min (unat a + unat b) (2 ^ 32 - 1)"
  using unat_u32_lt [of a] unat_u32_lt [of b]
  by (auto simp: saturating_add_u32_def unat_word_ariths min_def)

lemma unat_as_u32_le: "unat (as_u32 n) \<le> n"
  by (simp add: unat_of_nat)

lemma unat_as_u32 [simp]: "n < 2 ^ 32 \<Longrightarrow> unat (as_u32 n) = n"
  by (simp add: unat_of_nat take_bit_nat_eq_self)

text \<open>\<open>str::as_bytes\<close>.\<close>

definition as_bytes :: "string \<Rightarrow> bytes" where
  "as_bytes s = map of_char s"

lemma length_as_bytes [simp]: "length (as_bytes s) = length s"
  by (simp add: as_bytes_def)

lemma as_bytes_append [simp]: "as_bytes (s @ t) = as_bytes s @ as_bytes t"
  by (simp add: as_bytes_def)

end
