(* ===== verification/Pty.thy ===== *)
theory Pty
  imports Prelude
begin

text \<open>
  \<open>pty.rs\<close>: the opcodes of encoded terminal modes, with the number of each and the reading of a
  number as an opcode.
\<close>

datatype pty =
    TTY_OP_END | VINTR | VQUIT | VERASE | VKILL | VEOF | VEOL | VEOL2 | VSTART | VSTOP | VSUSP |
    VDSUSP | VREPRINT | VWERASE | VLNEXT | VFLUSH | VSWTCH | VSTATUS | VDISCARD | IGNPAR |
    PARMRK | INPCK | ISTRIP | INLCR | IGNCR | ICRNL | IUCLC | IXON | IXANY | IXOFF | IMAXBEL |
    IUTF8 | ISIG | ICANON | XCASE | ECHO | ECHOE | ECHOK | ECHONL | NOFLSH | TOSTOP | IEXTEN |
    ECHOCTL | ECHOKE | PENDIN | OPOST | OLCUC | ONLCR | OCRNL | ONOCR | ONLRET | CS7 | CS8 |
    PARENB | PARODD | TTY_OP_ISPEED | TTY_OP_OSPEED

text \<open>The discriminants of the enum (\<open>code as u8\<close>).\<close>

fun pty_code :: "pty \<Rightarrow> u8" where
  "pty_code TTY_OP_END = 0"
| "pty_code VINTR = 1"
| "pty_code VQUIT = 2"
| "pty_code VERASE = 3"
| "pty_code VKILL = 4"
| "pty_code VEOF = 5"
| "pty_code VEOL = 6"
| "pty_code VEOL2 = 7"
| "pty_code VSTART = 8"
| "pty_code VSTOP = 9"
| "pty_code VSUSP = 10"
| "pty_code VDSUSP = 11"
| "pty_code VREPRINT = 12"
| "pty_code VWERASE = 13"
| "pty_code VLNEXT = 14"
| "pty_code VFLUSH = 15"
| "pty_code VSWTCH = 16"
| "pty_code VSTATUS = 17"
| "pty_code VDISCARD = 18"
| "pty_code IGNPAR = 30"
| "pty_code PARMRK = 31"
| "pty_code INPCK = 32"
| "pty_code ISTRIP = 33"
| "pty_code INLCR = 34"
| "pty_code IGNCR = 35"
| "pty_code ICRNL = 36"
| "pty_code IUCLC = 37"
| "pty_code IXON = 38"
| "pty_code IXANY = 39"
| "pty_code IXOFF = 40"
| "pty_code IMAXBEL = 41"
| "pty_code IUTF8 = 42"
| "pty_code ISIG = 50"
| "pty_code ICANON = 51"
| "pty_code XCASE = 52"
| "pty_code ECHO = 53"
| "pty_code ECHOE = 54"
| "pty_code ECHOK = 55"
| "pty_code ECHONL = 56"
| "pty_code NOFLSH = 57"
| "pty_code TOSTOP = 58"
| "pty_code IEXTEN = 59"
| "pty_code ECHOCTL = 60"
| "pty_code ECHOKE = 61"
| "pty_code PENDIN = 62"
| "pty_code OPOST = 70"
| "pty_code OLCUC = 71"
| "pty_code ONLCR = 72"
| "pty_code OCRNL = 73"
| "pty_code ONOCR = 74"
| "pty_code ONLRET = 75"
| "pty_code CS7 = 90"
| "pty_code CS8 = 91"
| "pty_code PARENB = 92"
| "pty_code PARODD = 93"
| "pty_code TTY_OP_ISPEED = 128"
| "pty_code TTY_OP_OSPEED = 129"

text \<open>\<open>Pty::from_u8\<close>.\<close>

definition pty_from_u8 :: "u8 \<Rightarrow> pty option" where
  "pty_from_u8 x =
    (if x = 0 then None
     else if x = 1 then Some VINTR
     else if x = 2 then Some VQUIT
     else if x = 3 then Some VERASE
     else if x = 4 then Some VKILL
     else if x = 5 then Some VEOF
     else if x = 6 then Some VEOL
     else if x = 7 then Some VEOL2
     else if x = 8 then Some VSTART
     else if x = 9 then Some VSTOP
     else if x = 10 then Some VSUSP
     else if x = 11 then Some VDSUSP
     else if x = 12 then Some VREPRINT
     else if x = 13 then Some VWERASE
     else if x = 14 then Some VLNEXT
     else if x = 15 then Some VFLUSH
     else if x = 16 then Some VSWTCH
     else if x = 17 then Some VSTATUS
     else if x = 18 then Some VDISCARD
     else if x = 30 then Some IGNPAR
     else if x = 31 then Some PARMRK
     else if x = 32 then Some INPCK
     else if x = 33 then Some ISTRIP
     else if x = 34 then Some INLCR
     else if x = 35 then Some IGNCR
     else if x = 36 then Some ICRNL
     else if x = 37 then Some IUCLC
     else if x = 38 then Some IXON
     else if x = 39 then Some IXANY
     else if x = 40 then Some IXOFF
     else if x = 41 then Some IMAXBEL
     else if x = 42 then Some IUTF8
     else if x = 50 then Some ISIG
     else if x = 51 then Some ICANON
     else if x = 52 then Some XCASE
     else if x = 53 then Some ECHO
     else if x = 54 then Some ECHOE
     else if x = 55 then Some ECHOK
     else if x = 56 then Some ECHONL
     else if x = 57 then Some NOFLSH
     else if x = 58 then Some TOSTOP
     else if x = 59 then Some IEXTEN
     else if x = 60 then Some ECHOCTL
     else if x = 61 then Some ECHOKE
     else if x = 62 then Some PENDIN
     else if x = 70 then Some OPOST
     else if x = 71 then Some OLCUC
     else if x = 72 then Some ONLCR
     else if x = 73 then Some OCRNL
     else if x = 74 then Some ONOCR
     else if x = 75 then Some ONLRET
     else if x = 90 then Some CS7
     else if x = 91 then Some CS8
     else if x = 92 then Some PARENB
     else if x = 93 then Some PARODD
     else if x = 128 then Some TTY_OP_ISPEED
     else if x = 129 then Some TTY_OP_OSPEED
     else None)"

lemma pty_from_u8_code: "p \<noteq> TTY_OP_END \<Longrightarrow> pty_from_u8 (pty_code p) = Some p"
  by (cases p) (simp_all add: pty_from_u8_def)

lemma pty_from_u8_Some: "pty_from_u8 x = Some p \<Longrightarrow> pty_code p = x \<and> p \<noteq> TTY_OP_END"
  by (simp add: pty_from_u8_def split: if_splits)

text \<open>\<open>from_u8\<close> reads a byte as an opcode exactly where the byte is the opcode's
  number, and never reads the end marker \<open>TTY_OP_END\<close>: the two tables agree in both directions.\<close>

theorem pty_tables_agree:
  "pty_from_u8 x = Some p \<longleftrightarrow> pty_code p = x \<and> p \<noteq> TTY_OP_END"
  using pty_from_u8_code pty_from_u8_Some by blast

end
