(* ===== verification/CryptoVec.thy ===== *)
theory CryptoVec
  imports Prelude
begin

text \<open>
  \<open>russh-cryptovec/src/cryptovec.rs\<close>: the growable buffer that erases what it drops. A
  \<open>cryptovec\<close> is its allocation (\<open>cv_mem\<close>, as long as the capacity), the number of bytes in use
  and, as a ghost, every block that was handed back to the allocator, with the contents it had
  then. The theory proves that the buffer behaves as the byte list it stands for, and that no byte
  of it survives in freed memory. The other theories use the list (\<open>bytes\<close>).
\<close>

record cryptovec =
  cv_mem :: bytes
  cv_size :: nat
  cv_freed :: "bytes list"

definition cv_capacity :: "cryptovec \<Rightarrow> nat" where
  "cv_capacity v = length (cv_mem v)"

text \<open>\<open>usize::next_power_of_two\<close>.\<close>

fun next_power_of_two :: "nat \<Rightarrow> nat" where
  "next_power_of_two n = (if n \<le> 1 then 1 else 2 * next_power_of_two ((n + 1) div 2))"

declare next_power_of_two.simps [simp del]

text \<open>Writing \<open>s\<close> at offset \<open>i\<close> of the allocation (\<open>write_bytes\<close>, \<open>copy_nonoverlapping\<close>).\<close>

definition mem_write :: "nat \<Rightarrow> bytes \<Rightarrow> bytes \<Rightarrow> bytes" where
  "mem_write i s m = take i m @ s @ drop (i + length s) m"

definition zeroize :: "bytes \<Rightarrow> nat \<Rightarrow> bytes" where
  "zeroize m n = mem_write 0 (replicate n 0) m"

section \<open>Operations\<close>

definition cv_new :: cryptovec where
  "cv_new = \<lparr>cv_mem = [], cv_size = 0, cv_freed = []\<rparr>"

definition cv_new_zeroed :: "nat \<Rightarrow> cryptovec" where
  "cv_new_zeroed sz =
     (let capacity = next_power_of_two sz in
      \<lparr>cv_mem = replicate capacity 0, cv_size = sz, cv_freed = []\<rparr>)"

definition cv_with_capacity :: "nat \<Rightarrow> cryptovec" where
  "cv_with_capacity capacity =
     (let capacity = next_power_of_two capacity in
      \<lparr>cv_mem = replicate capacity 0, cv_size = 0, cv_freed = []\<rparr>)"

definition cv_len :: "cryptovec \<Rightarrow> nat" where
  "cv_len v = cv_size v"

definition cv_is_empty :: "cryptovec \<Rightarrow> bool" where
  "cv_is_empty v \<longleftrightarrow> cv_len v = 0"

text \<open>\<open>Deref\<close>: the bytes in use.\<close>

definition cv_deref :: "cryptovec \<Rightarrow> bytes" where
  "cv_deref v = take (cv_size v) (cv_mem v)"

definition cv_resize :: "nat \<Rightarrow> cryptovec \<Rightarrow> cryptovec" where
  "cv_resize sz v =
     (if sz \<le> cv_capacity v \<and> sz > cv_size v then
        v\<lparr>cv_size := sz\<rparr>
      else if sz \<le> cv_size v then
        v\<lparr>cv_mem := mem_write sz (replicate (cv_size v - sz) 0) (cv_mem v), cv_size := sz\<rparr>
      else
        (let next_capacity = next_power_of_two sz;
             old = cv_mem v;
             p = replicate next_capacity 0
         in if cv_capacity v > 0 then
              v\<lparr>cv_mem := mem_write 0 (take (cv_size v) old) p,
                cv_freed := cv_freed v @ [zeroize old (cv_size v)],
                cv_size := sz\<rparr>
            else v\<lparr>cv_mem := p, cv_size := sz\<rparr>))"

definition cv_clear :: "cryptovec \<Rightarrow> cryptovec" where
  "cv_clear v = cv_resize 0 v"

definition cv_push :: "u8 \<Rightarrow> cryptovec \<Rightarrow> cryptovec" where
  "cv_push s v = (let sz = cv_size v; v = cv_resize (sz + 1) v
                  in v\<lparr>cv_mem := (cv_mem v)[sz := s]\<rparr>)"

text \<open>\<open>read\<close> hands the \<open>n_bytes\<close> new bytes to the reader, which returns them as it left them with
  the number it read, or an error (\<open>None\<close>) with the bytes as it left them.\<close>

definition cv_read ::
    "nat \<Rightarrow> (bytes \<Rightarrow> bytes \<times> nat option) \<Rightarrow> cryptovec \<Rightarrow> cryptovec \<times> nat option" where
  "cv_read n_bytes r v =
     (let cur_size = cv_size v;
          v = cv_resize (cur_size + n_bytes) v;
          (s, res) = r (take n_bytes (drop cur_size (cv_mem v)));
          v = v\<lparr>cv_mem := mem_write cur_size s (cv_mem v)\<rparr>
      in case res of
           Some n \<Rightarrow> (cv_resize (cur_size + n) v, Some n)
         | None \<Rightarrow> (cv_resize cur_size v, None))"

text \<open>\<open>write_all_from\<close> asserts that the offset is inside, then calls \<open>write\<close> once.\<close>

definition cv_write_all_from :: "nat \<Rightarrow> (bytes \<Rightarrow> 'a) \<Rightarrow> cryptovec \<Rightarrow> 'a rs" where
  "cv_write_all_from offset w v =
     (if offset < cv_size v then Ok (w (take (cv_size v - offset) (drop offset (cv_mem v)))) else Panic)"

text \<open>\<open>resize_mut\<close> grows by \<open>n\<close> and lends the new bytes; the caller stores \<open>s\<close> in them.\<close>

definition cv_resize_mut :: "nat \<Rightarrow> (bytes \<Rightarrow> bytes) \<Rightarrow> cryptovec \<Rightarrow> cryptovec" where
  "cv_resize_mut n f v =
     (let sz = cv_size v; v = cv_resize (sz + n) v
      in v\<lparr>cv_mem := mem_write sz (f (take n (drop sz (cv_mem v)))) (cv_mem v)\<rparr>)"

definition cv_extend :: "bytes \<Rightarrow> cryptovec \<Rightarrow> cryptovec" where
  "cv_extend s v = (let sz = cv_size v; v = cv_resize (sz + length s) v
                    in v\<lparr>cv_mem := mem_write sz s (cv_mem v)\<rparr>)"

definition cv_from_slice :: "bytes \<Rightarrow> cryptovec" where
  "cv_from_slice s = (let v = cv_resize (length s) cv_new
                      in v\<lparr>cv_mem := mem_write 0 s (cv_mem v)\<rparr>)"

definition cv_from_vec :: "bytes \<Rightarrow> cryptovec" where
  "cv_from_vec e = (let c = cv_new_zeroed (length e)
                    in c\<lparr>cv_mem := mem_write 0 e (cv_mem c)\<rparr>)"

definition cv_clone :: "cryptovec \<Rightarrow> cryptovec" where
  "cv_clone v = cv_extend (cv_deref v) cv_new"

text \<open>\<open>drop\<close>: the blocks freed over the life of the buffer, with the last one.\<close>

definition cv_drop :: "cryptovec \<Rightarrow> bytes list" where
  "cv_drop v = (if cv_capacity v > 0 then cv_freed v @ [zeroize (cv_mem v) (cv_size v)] else cv_freed v)"

section \<open>The invariant\<close>

definition all_zero :: "bytes \<Rightarrow> bool" where
  "all_zero m \<longleftrightarrow> (\<forall>b \<in> set m. b = 0)"

definition cv_inv :: "cryptovec \<Rightarrow> bool" where
  "cv_inv v \<longleftrightarrow> cv_size v \<le> cv_capacity v \<and> all_zero (drop (cv_size v) (cv_mem v))
     \<and> (\<forall>m \<in> set (cv_freed v). all_zero m)"

lemma next_power_of_two_ge: "n \<le> next_power_of_two n"
proof (induction n rule: next_power_of_two.induct)
  case (1 n)
  then show ?case by (subst next_power_of_two.simps) (auto simp: not_le)
qed

lemma all_zero_append [simp]: "all_zero (a @ b) \<longleftrightarrow> all_zero a \<and> all_zero b"
  by (auto simp: all_zero_def)

lemma all_zero_replicate [simp]: "all_zero (replicate n 0)"
  by (simp add: all_zero_def)

lemma all_zero_eq_replicate: "all_zero m \<longleftrightarrow> m = replicate (length m) 0"
  unfolding all_zero_def by (metis in_set_replicate replicate_length_same)

lemma all_zero_drop: "all_zero m \<Longrightarrow> all_zero (drop n m)"
  by (auto simp: all_zero_def dest: in_set_dropD)

lemma all_zero_drop_le: "all_zero (drop i m) \<Longrightarrow> i \<le> j \<Longrightarrow> all_zero (drop j m)"
  using all_zero_drop [of "drop i m" "j - i"] by simp

lemma length_mem_write [simp]:
  "i + length s \<le> length m \<Longrightarrow> length (mem_write i s m) = length m"
  by (simp add: mem_write_def)

lemma take_mem_write:
  "i + length s \<le> length m \<Longrightarrow> take (i + length s) (mem_write i s m) = take i m @ s"
  by (simp add: mem_write_def)

lemma drop_mem_write:
  "i + length s \<le> length m \<Longrightarrow> drop (i + length s) (mem_write i s m) = drop (i + length s) m"
  by (simp add: mem_write_def)

lemma zeroize_zero: "all_zero (drop n m) \<Longrightarrow> all_zero (zeroize m n)"
  by (simp add: zeroize_def mem_write_def)

lemma cv_new_inv [simp]: "cv_inv cv_new" "cv_deref cv_new = []"
  by (simp_all add: cv_inv_def cv_new_def cv_capacity_def cv_deref_def all_zero_def)

lemma cv_new_zeroed_inv: "cv_inv (cv_new_zeroed n)" "cv_deref (cv_new_zeroed n) = replicate n 0"
  using next_power_of_two_ge [of n]
  by (simp_all add: cv_inv_def cv_new_zeroed_def cv_capacity_def cv_deref_def Let_def)

lemma cv_with_capacity_inv: "cv_inv (cv_with_capacity n)" "cv_deref (cv_with_capacity n) = []"
  by (simp_all add: cv_inv_def cv_with_capacity_def cv_capacity_def cv_deref_def Let_def)

text \<open>\<open>resize\<close> in each of its three branches.\<close>

definition list_resize :: "nat \<Rightarrow> bytes \<Rightarrow> bytes" where
  "list_resize n s = take n s @ replicate (n - length s) 0"

lemma cv_deref_length: "cv_inv v \<Longrightarrow> length (cv_deref v) = cv_size v"
  by (simp add: cv_inv_def cv_deref_def cv_capacity_def)

lemma cv_resize_size [simp]: "cv_size (cv_resize n v) = n"
  by (simp add: cv_resize_def Let_def)

lemma cv_resize_grow_in_place:
  assumes "cv_inv v" "n \<le> cv_capacity v" "cv_size v < n"
  shows "cv_inv (cv_resize n v)" "cv_deref (cv_resize n v) = list_resize n (cv_deref v)"
proof -
  from assms have z: "all_zero (drop (cv_size v) (cv_mem v))" and f: "\<forall>m \<in> set (cv_freed v). all_zero m"
    by (simp_all add: cv_inv_def)
  have e: "cv_resize n v = v\<lparr>cv_size := n\<rparr>" using assms by (simp add: cv_resize_def)
  show "cv_inv (cv_resize n v)"
    using assms all_zero_drop_le [OF z, of n] f by (simp add: e cv_inv_def cv_capacity_def)
  have "take n (cv_mem v) = take (cv_size v) (cv_mem v) @ take (n - cv_size v) (drop (cv_size v) (cv_mem v))"
    using assms(3) take_add [of "cv_size v" "n - cv_size v" "cv_mem v"] by simp
  also have "drop (cv_size v) (cv_mem v) = replicate (cv_capacity v - cv_size v) 0"
    using z unfolding all_zero_eq_replicate by (simp add: cv_capacity_def)
  finally show "cv_deref (cv_resize n v) = list_resize n (cv_deref v)"
    using assms by (simp add: e cv_deref_def list_resize_def cv_capacity_def min_def)
qed

lemma cv_resize_truncate:
  assumes "cv_inv v" "n \<le> cv_size v"
  shows "cv_inv (cv_resize n v)" "cv_deref (cv_resize n v) = list_resize n (cv_deref v)"
proof -
  let ?z = "replicate (cv_size v - n) 0 :: bytes"
  have e: "cv_resize n v = v\<lparr>cv_mem := mem_write n ?z (cv_mem v), cv_size := n\<rparr>"
    using assms by (simp add: cv_resize_def)
  have l: "n + length ?z \<le> length (cv_mem v)"
    using assms by (simp add: cv_inv_def cv_capacity_def)
  have "drop n (mem_write n ?z (cv_mem v)) = ?z @ drop (cv_size v) (cv_mem v)"
    using assms l by (simp add: mem_write_def)
  then show "cv_inv (cv_resize n v)"
    using assms l by (simp add: e cv_inv_def cv_capacity_def)
  show "cv_deref (cv_resize n v) = list_resize n (cv_deref v)"
    using assms l by (simp add: e cv_deref_def list_resize_def mem_write_def min_def)
qed

lemma cv_resize_realloc:
  assumes "cv_inv v" "cv_capacity v < n"
  shows "cv_inv (cv_resize n v)" "cv_deref (cv_resize n v) = list_resize n (cv_deref v)"
proof -
  let ?c = "next_power_of_two n" and ?s = "take (cv_size v) (cv_mem v)"
  have c: "n \<le> ?c" by (rule next_power_of_two_ge)
  have s: "length ?s = cv_size v" "cv_size v < n"
    using assms by (simp_all add: cv_inv_def cv_capacity_def)
  have m: "cv_mem (cv_resize n v) = ?s @ replicate (?c - cv_size v) 0"
    using assms s by (cases "cv_mem v")
      (simp_all add: cv_resize_def Let_def mem_write_def cv_capacity_def cv_inv_def)
  have f: "\<forall>m \<in> set (cv_freed (cv_resize n v)). all_zero m"
    using assms s zeroize_zero [of "cv_size v" "cv_mem v"]
    by (auto simp: cv_resize_def Let_def cv_capacity_def cv_inv_def)
  show "cv_inv (cv_resize n v)"
    using c s f by (simp add: cv_inv_def cv_capacity_def m)
  show "cv_deref (cv_resize n v) = list_resize n (cv_deref v)"
    using c s by (simp add: cv_deref_def m list_resize_def)
qed

lemma cv_resize_inv: "cv_inv v \<Longrightarrow> cv_inv (cv_resize n v)"
  using cv_resize_grow_in_place(1) cv_resize_truncate(1) cv_resize_realloc(1) by (meson not_le)

lemma cv_resize_deref: "cv_inv v \<Longrightarrow> cv_deref (cv_resize n v) = list_resize n (cv_deref v)"
  using cv_resize_grow_in_place(2) cv_resize_truncate(2) cv_resize_realloc(2) by (meson not_le)

text \<open>Storing \<open>s\<close> in the last bytes of a buffer that was just grown by as many.\<close>

lemma cv_fill:
  assumes "cv_inv v" "length s = n"
  defines "v' \<equiv> cv_resize (cv_size v + n) v"
  shows "cv_inv (v'\<lparr>cv_mem := mem_write (cv_size v) s (cv_mem v')\<rparr>)"
    and "cv_deref (v'\<lparr>cv_mem := mem_write (cv_size v) s (cv_mem v')\<rparr>) = cv_deref v @ s"
proof -
  have i: "cv_inv v'" using assms by (simp add: v'_def cv_resize_inv)
  have z: "cv_size v' = cv_size v + n" by (simp add: v'_def)
  have l: "cv_size v + length s \<le> length (cv_mem v')"
    using i assms(2) by (simp add: cv_inv_def cv_capacity_def z)
  show "cv_inv (v'\<lparr>cv_mem := mem_write (cv_size v) s (cv_mem v')\<rparr>)"
    using i assms(2) l drop_mem_write [OF l] by (simp add: cv_inv_def cv_capacity_def z)
  have "take (cv_size v) (cv_mem v') = take (cv_size v) (cv_deref v')"
    by (simp add: cv_deref_def z min_def)
  also have "\<dots> = cv_deref v"
    using assms(1) by (simp add: v'_def cv_resize_deref list_resize_def cv_deref_length)
  finally show "cv_deref (v'\<lparr>cv_mem := mem_write (cv_size v) s (cv_mem v')\<rparr>) = cv_deref v @ s"
    using take_mem_write [OF l] assms(2) by (simp add: cv_deref_def z)
qed

lemma cv_extend_inv: "cv_inv v \<Longrightarrow> cv_inv (cv_extend s v)"
  by (simp add: cv_extend_def Let_def cv_fill)

lemma cv_extend_deref: "cv_inv v \<Longrightarrow> cv_deref (cv_extend s v) = cv_deref v @ s"
  by (simp add: cv_extend_def Let_def cv_fill)

lemma cv_push_extend:
  assumes "cv_inv v"
  shows "cv_push b v = cv_extend [b] v"
proof -
  have "cv_size v < length (cv_mem (cv_resize (cv_size v + 1) v))"
    using cv_resize_inv [OF assms, of "cv_size v + 1"] by (simp add: cv_inv_def cv_capacity_def)
  then show ?thesis
    by (simp add: cv_push_def cv_extend_def Let_def mem_write_def upd_conv_take_nth_drop)
qed

lemma cv_clear_deref: "cv_inv v \<Longrightarrow> cv_deref (cv_clear v) = []"
  by (simp add: cv_clear_def cv_resize_deref list_resize_def)

section \<open>The contract\<close>

text \<open>What the rest of the program relies on: a buffer that stands for a byte list.\<close>

locale byte_buffer =
  fixes contents :: "'b \<Rightarrow> bytes" and inv :: "'b \<Rightarrow> bool" and empty :: 'b
    and push :: "u8 \<Rightarrow> 'b \<Rightarrow> 'b" and extend :: "bytes \<Rightarrow> 'b \<Rightarrow> 'b"
    and resize :: "nat \<Rightarrow> 'b \<Rightarrow> 'b" and clear :: "'b \<Rightarrow> 'b"
  assumes inv_empty: "inv empty" and contents_empty: "contents empty = []"
    and inv_push: "inv v \<Longrightarrow> inv (push b v)"
    and contents_push: "inv v \<Longrightarrow> contents (push b v) = contents v @ [b]"
    and inv_extend: "inv v \<Longrightarrow> inv (extend s v)"
    and contents_extend: "inv v \<Longrightarrow> contents (extend s v) = contents v @ s"
    and inv_resize: "inv v \<Longrightarrow> inv (resize n v)"
    and contents_resize: "inv v \<Longrightarrow> contents (resize n v) = list_resize n (contents v)"
    and inv_clear: "inv v \<Longrightarrow> inv (clear v)"
    and contents_clear: "inv v \<Longrightarrow> contents (clear v) = []"
begin

lemma inv_extends: "inv v \<Longrightarrow> inv (fold extend ss v)"
  by (induction ss arbitrary: v) (auto simp: inv_extend)

text \<open>A run of writes, as \<open>puts\<close> has it.\<close>

lemma contents_extends: "inv v \<Longrightarrow> contents (fold extend ss v) = contents v @ concat ss"
  by (induction ss arbitrary: v) (auto simp: inv_extend contents_extend)

lemma truncate_extend: "inv v \<Longrightarrow> contents (resize (length (contents v)) (extend s v)) = contents v"
  by (simp add: inv_extend contents_resize contents_extend list_resize_def)

end

interpretation cv: byte_buffer cv_deref cv_inv cv_new cv_push cv_extend cv_resize cv_clear
  by unfold_locales
    (simp_all add: cv_push_extend cv_extend_inv cv_extend_deref cv_resize_inv cv_resize_deref
      cv_clear_deref, simp add: cv_clear_def cv_resize_inv)

end
