(* ===== verification/Wire.thy ===== *)
theory Wire
  imports Prelude
begin

text \<open>
  The SSH data representation. The crates \<open>ssh_encoding\<close> (the traits \<open>Encode\<close> and \<open>Decode\<close>) and
  \<open>byteorder\<close> are not part of the repository, so the functions of theirs that the sources call are
  the fields of a record \<open>wire\<close>, a parameter of every definition that uses them. The locale
  \<open>ssh_wire\<close> states what they document (RFC 4251, section 5; \<open>byteorder\<close>'s big-endian numbers), and
  \<open>rfc4251_wire\<close> is a concrete function that meets it. The theory also holds the macro
  \<open>push_packet!\<close> of \<open>lib_inner.rs\<close>, by which every message enters a write buffer, and the framing
  that it establishes.
\<close>

section \<open>The functions of the encoding crates\<close>

record wire =
  w_u8 :: "u8 \<Rightarrow> bytes rs" \<comment> \<open>\<open>u8::encode\<close>: the bytes written\<close>
  w_u32 :: "u32 \<Rightarrow> bytes rs" \<comment> \<open>\<open>u32::encode\<close>\<close>
  w_usize :: "nat \<Rightarrow> bytes rs" \<comment> \<open>\<open>usize::encode\<close>\<close>
  w_str :: "string \<Rightarrow> bytes rs" \<comment> \<open>\<open>str::encode\<close>, \<open>String::encode\<close>\<close>
  w_bytes :: "bytes \<Rightarrow> bytes rs" \<comment> \<open>\<open><[u8]>::encode\<close>, \<open>Vec<u8>::encode\<close>\<close>
  w_strs :: "string list \<Rightarrow> bytes rs" \<comment> \<open>\<open>Vec<String>::encode\<close>\<close>
  r_u8 :: "bytes \<Rightarrow> (u8 \<times> bytes) rs" \<comment> \<open>\<open>u8::decode\<close>: the value and the rest of the reader\<close>
  r_u32 :: "bytes \<Rightarrow> (u32 \<times> bytes) rs" \<comment> \<open>\<open>u32::decode\<close>\<close>
  r_str :: "bytes \<Rightarrow> (string \<times> bytes) rs" \<comment> \<open>\<open>String::decode\<close>\<close>
  r_bytes :: "bytes \<Rightarrow> (bytes \<times> bytes) rs" \<comment> \<open>\<open>Bytes::decode\<close>, \<open>Vec<u8>::decode\<close>\<close>
  be_put :: "u32 \<Rightarrow> bytes" \<comment> \<open>the four bytes \<open>BigEndian::write_u32\<close> stores\<close>
  be_get :: "bytes \<Rightarrow> u32" \<comment> \<open>\<open>BigEndian::read_u32\<close> of four bytes\<close>

text \<open>\<open>BigEndian::read_u32(&s)\<close> reads the first four bytes and panics where there are fewer.\<close>

definition be_read_u32 :: "wire \<Rightarrow> bytes \<Rightarrow> u32 rs" where
  "be_read_u32 W s = (if length s < 4 then Panic else Ok (be_get W (take 4 s)))"

text \<open>A run of \<open>x.encode(&mut buf)?\<close>, \<open>buf.push(b)\<close> and \<open>buf.extend(s)\<close>: each appends, the first
  error returns.\<close>

fun puts :: "bytes rs list \<Rightarrow> bytes \<Rightarrow> bytes rs" where
  "puts [] buf = Ok buf"
| "puts (e # es) buf = and_then e (\<lambda>bs. puts es (buf @ bs))"

abbreviation push :: "u8 \<Rightarrow> bytes rs" where "push b \<equiv> Ok [b]"
abbreviation put_raw :: "bytes \<Rightarrow> bytes rs" where "put_raw s \<equiv> Ok s"

text \<open>\<open>push_packet!(buffer, x)\<close>: four zero bytes, then what \<open>x\<close> writes, then the length of that
  written over the zeros.\<close>

definition push_packet :: "wire \<Rightarrow> bytes rs list \<Rightarrow> bytes \<Rightarrow> bytes rs" where
  "push_packet W es buffer =
     (let i0 = length buffer in
      and_then (puts es (buffer @ [0, 0, 0, 0])) (\<lambda>buf.
        let i1 = length buf in
        Ok (take i0 buf @ be_put W (as_u32 (i1 - i0 - 4)) @ drop (i0 + 4) buf)))"

section \<open>What the crates document\<close>

definition ascii :: "string \<Rightarrow> bool" where
  "ascii s \<longleftrightarrow> (\<forall>c \<in> set s. (of_char c :: nat) < 128)"

named_theorems wire_simps "the laws of the encoding, as rewrite rules"

locale ssh_wire =
  fixes W :: wire
  assumes put_u8: "w_u8 W b = Ok [b]"
    and put_u32: "w_u32 W x = Ok (be_put W x)"
    and put_usize: "n < 2 ^ 32 \<Longrightarrow> w_usize W n = Ok (be_put W (as_u32 n))"
    and put_bytes: "length s < 2 ^ 32 \<Longrightarrow> w_bytes W s = Ok (be_put W (as_u32 (length s)) @ s)"
    and put_str: "w_str W t = w_bytes W (as_bytes t)"
    and put_no_strs: "w_strs W [] = w_bytes W []"
    and be_put_length: "length (be_put W x) = 4"
    and be_get_put: "be_get W (be_put W x) = x"
    and get_u8: "r_u8 W (b # r) = Ok (b, r)"
    and get_u8_end: "r_u8 W [] = Err (SshEncoding True)"
    and get_u32: "r_u32 W (be_put W x @ r) = Ok (x, r)"
    and get_u32_short: "length s < 4 \<Longrightarrow> r_u32 W s = Err (SshEncoding True)"
    and get_bytes: "length s < 2 ^ 32 \<Longrightarrow> r_bytes W (be_put W (as_u32 (length s)) @ s @ r) = Ok (s, r)"
    and get_str: "\<lbrakk>ascii t; length t < 2 ^ 32\<rbrakk>
      \<Longrightarrow> r_str W (be_put W (as_u32 (length t)) @ as_bytes t @ r) = Ok (t, r)"
begin

lemmas laws [wire_simps] = put_u8 put_u32 put_usize put_bytes put_str put_no_strs be_put_length
  be_get_put get_u8 get_u8_end get_u32 get_bytes get_str

lemma be_read_put [wire_simps]: "be_read_u32 W (be_put W x @ r) = Ok x"
  by (simp add: be_read_u32_def be_put_length be_get_put)

end

section \<open>Framing\<close>

lemma puts_append_buffer: "puts es (a @ b) = and_then (puts es b) (\<lambda>p. Ok (a @ p))"
  by (induction es arbitrary: b) (auto simp: and_then_assoc)

lemma puts_append: "puts (es @ fs) b = and_then (puts es b) (puts fs)"
  by (induction es arbitrary: b) (auto simp: and_then_assoc)

lemma puts_from_empty: "puts es b = and_then (puts es []) (\<lambda>p. Ok (b @ p))"
  using puts_append_buffer [of es b "[]"] by simp

definition frame :: "wire \<Rightarrow> bytes \<Rightarrow> bytes" where
  "frame W p = be_put W (as_u32 (length p)) @ p"

definition frames :: "wire \<Rightarrow> bytes list \<Rightarrow> bytes" where
  "frames W ps = concat (map (frame W) ps)"

lemma frames_simps [simp]:
  "frames W [] = []" "frames W (p # ps) = frame W p @ frames W ps"
  "frames W (ps @ qs) = frames W ps @ frames W qs"
  by (simp_all add: frames_def)

context ssh_wire
begin

text \<open>\<open>push_packet!\<close> appends exactly one frame, and leaves what the buffer held as it was.\<close>

lemma push_packet_frame:
  assumes "puts es [] = Ok p"
  shows "push_packet W es buffer = Ok (buffer @ frame W p)"
proof -
  have "puts es (buffer @ [0, 0, 0, 0]) = Ok ((buffer @ [0, 0, 0, 0]) @ p)"
    using assms puts_from_empty [of es "buffer @ [0, 0, 0, 0]"] by simp
  then show ?thesis
    by (simp add: push_packet_def frame_def Let_def)
qed

lemma push_packet_Ok_iff:
  "push_packet W es buffer = Ok b \<longleftrightarrow> (\<exists>p. puts es [] = Ok p \<and> b = buffer @ frame W p)"
proof
  assume "push_packet W es buffer = Ok b"
  then obtain p where "puts es [] = Ok p"
    using puts_from_empty [of es "buffer @ [0, 0, 0, 0]"]
    by (auto simp: push_packet_def Let_def outcome_simps)
  then show "\<exists>p. puts es [] = Ok p \<and> b = buffer @ frame W p"
    using \<open>push_packet W es buffer = Ok b\<close> by (auto simp: push_packet_frame)
qed (auto simp: push_packet_frame)

lemma frame_length [simp]: "length (frame W p) = 4 + length p"
  by (simp add: frame_def be_put_length)

lemma be_read_frame:
  "length p < 2 ^ 32 \<Longrightarrow> be_read_u32 W (frame W p @ r) = Ok (as_u32 (length p))"
  by (simp add: frame_def be_read_put)

end

section \<open>A concrete encoding\<close>

definition rfc_put :: "u32 \<Rightarrow> bytes" where
  "rfc_put x = (let n = unat x in
     [of_nat (n div 2 ^ 24), of_nat (n div 2 ^ 16), of_nat (n div 2 ^ 8), of_nat n])"

fun rfc_get :: "bytes \<Rightarrow> u32" where
  "rfc_get (a # b # c # d # _) =
     of_nat (((unat a * 2 ^ 8 + unat b) * 2 ^ 8 + unat c) * 2 ^ 8 + unat d)"
| "rfc_get _ = 0"

definition rfc_read :: "bytes \<Rightarrow> (u32 \<times> bytes) rs" where
  "rfc_read s = (if length s < 4 then Err (SshEncoding True) else Ok (rfc_get (take 4 s), drop 4 s))"

definition rfc_read_bytes :: "bytes \<Rightarrow> (bytes \<times> bytes) rs" where
  "rfc_read_bytes s = and_then (rfc_read s) (\<lambda>(n, r).
     if length r < unat n then Err (SshEncoding True) else Ok (take (unat n) r, drop (unat n) r))"

definition rfc_write_bytes :: "bytes \<Rightarrow> bytes rs" where
  "rfc_write_bytes s =
     (if length s < 2 ^ 32 then Ok (rfc_put (as_u32 (length s)) @ s) else Err (SshEncoding True))"

definition rfc4251_wire :: wire where
  "rfc4251_wire = \<lparr>
     w_u8 = (\<lambda>b. Ok [b]), w_u32 = (\<lambda>x. Ok (rfc_put x)),
     w_usize = (\<lambda>n. if n < 2 ^ 32 then Ok (rfc_put (as_u32 n)) else Err (SshEncoding True)),
     w_str = (\<lambda>s. rfc_write_bytes (as_bytes s)), w_bytes = rfc_write_bytes,
     w_strs = (\<lambda>ss. rfc_write_bytes (concat (map (\<lambda>s. rfc_put (as_u32 (length s)) @ as_bytes s) ss))),
     r_u8 = (\<lambda>s. case s of [] \<Rightarrow> Err (SshEncoding True) | b # r \<Rightarrow> Ok (b, r)),
     r_u32 = rfc_read,
     r_str = (\<lambda>s. and_then (rfc_read_bytes s) (\<lambda>(t, r).
       if list_all (\<lambda>b. b < 128) t then Ok (map (\<lambda>b. char_of (unat b)) t, r) else Err (SshEncoding False))),
     r_bytes = rfc_read_bytes, be_put = rfc_put, be_get = rfc_get \<rparr>"

lemma rfc_digits:
  fixes n :: nat
  assumes "n < 2 ^ 32"
  shows "((n div 2 ^ 24 mod 2 ^ 8 * 2 ^ 8 + n div 2 ^ 16 mod 2 ^ 8) * 2 ^ 8 + n div 2 ^ 8 mod 2 ^ 8)
    * 2 ^ 8 + n mod 2 ^ 8 = n"
proof -
  have d: "n div 2 ^ 16 = n div 2 ^ 8 div 2 ^ 8" "n div 2 ^ 24 = n div 2 ^ 8 div 2 ^ 8 div 2 ^ 8"
    by (simp_all add: div_mult2_eq [symmetric])
  have "n div 2 ^ 24 < 2 ^ 8"
    using assms by (simp add: div_less_iff_less_mult)
  then have "n div 2 ^ 24 mod 2 ^ 8 = n div 2 ^ 24" by simp
  then show ?thesis
    by (simp only: d div_mult_mod_eq)
qed

lemma unat_as_u8: "unat (of_nat k :: u8) = k mod 2 ^ 8"
  by (simp add: unat_of_nat)

lemma rfc_get_put: "rfc_get (rfc_put x) = x"
proof -
  have "rfc_get (rfc_put x) = of_nat (((unat x div 2 ^ 24 mod 2 ^ 8 * 2 ^ 8
      + unat x div 2 ^ 16 mod 2 ^ 8) * 2 ^ 8 + unat x div 2 ^ 8 mod 2 ^ 8) * 2 ^ 8 + unat x mod 2 ^ 8)"
    by (simp only: rfc_put_def Let_def rfc_get.simps unat_as_u8)
  also have "\<dots> = of_nat (unat x)"
    by (simp only: rfc_digits [OF unat_u32_lt])
  finally show ?thesis by simp
qed

lemma rfc_put_length [simp]: "length (rfc_put x) = 4"
  by (simp add: rfc_put_def Let_def)

lemma rfc_read_put: "rfc_read (rfc_put x @ r) = Ok (x, r)"
  by (simp add: rfc_read_def rfc_get_put)

lemma rfc_read_bytes_put:
  "length s < 2 ^ 32 \<Longrightarrow> rfc_read_bytes (rfc_put (as_u32 (length s)) @ s @ r) = Ok (s, r)"
  by (simp add: rfc_read_bytes_def rfc_read_put)

lemma rfc_read_str_put:
  "length t < 2 ^ 32 \<Longrightarrow>
    rfc_read_bytes (rfc_put (as_u32 (length t)) @ as_bytes t @ r) = Ok (as_bytes t, r)"
  using rfc_read_bytes_put [of "as_bytes t" r] by simp

lemma ascii_bytes:
  assumes "ascii t"
  shows "list_all (\<lambda>b. b < 128) (as_bytes t)" "map (\<lambda>b. char_of (unat b)) (as_bytes t) = t"
proof -
  have u: "unat (of_char c :: u8) = of_char c" for c
  proof -
    have "(of_char c :: u8) = of_nat (of_char c)" by (simp only: of_nat_of_char)
    then show ?thesis using of_char_mod_256 [of c, where 'a = nat] by (simp add: unat_of_nat)
  qed
  show "list_all (\<lambda>b. b < 128) (as_bytes t)"
    using assms by (simp add: as_bytes_def ascii_def list_all_iff word_less_nat_alt u)
  show "map (\<lambda>b. char_of (unat b)) (as_bytes t) = t"
    by (simp add: as_bytes_def u comp_def)
qed

interpretation rfc: ssh_wire rfc4251_wire
  by unfold_locales
    (simp_all add: rfc4251_wire_def rfc_write_bytes_def rfc_get_put rfc_read_put
      rfc_read_bytes_put rfc_read_str_put rfc_read_def ascii_bytes)

end
