(* ===== verification/Cipher.thy ===== *)
theory Cipher
  imports Wire CryptoVec
begin

text \<open>
  The packet layer: \<open>mac/\<close>, \<open>cipher/mod.rs\<close> (reading and writing a packet) and the ciphers
  \<open>clear.rs\<close>, \<open>block.rs\<close>, \<open>cbc.rs\<close>, \<open>gcm.rs\<close>, \<open>chacha20poly1305.rs\<close>. The cryptographic primitives come
  from other crates and are a parameter, the record \<open>crypto\<close>, over one type \<open>'st\<close> for the state of
  any primitive. What is modelled is what the repository wraps around them: padding, what is
  encrypted and what is authenticated in which order, the length field, the sequence numbers.
\<close>

section \<open>The primitives\<close>

datatype mac_hash = Sha1 | Sha256 | Sha512

record 'st crypto =
  stream_apply :: "'st \<Rightarrow> bytes \<Rightarrow> bytes \<times> 'st" \<comment> \<open>\<open>StreamCipher::apply_keystream\<close>\<close>
  cbc_encrypt :: "'st \<Rightarrow> bytes \<Rightarrow> bytes \<times> 'st" \<comment> \<open>one block\<close>
  cbc_decrypt :: "'st \<Rightarrow> bytes \<Rightarrow> bytes \<times> 'st"
  hmac :: "mac_hash \<Rightarrow> bytes \<Rightarrow> bytes \<Rightarrow> bytes" \<comment> \<open>key, message\<close>
  aead_seal :: "'st \<Rightarrow> bytes \<Rightarrow> bytes \<Rightarrow> bytes \<Rightarrow> bytes \<times> bytes" \<comment> \<open>nonce, data, text: cipher text, tag\<close>
  aead_open :: "'st \<Rightarrow> bytes \<Rightarrow> bytes \<Rightarrow> bytes \<Rightarrow> bytes option" \<comment> \<open>nonce, data, cipher text and tag\<close>
  aead_tag_len :: "'st \<Rightarrow> nat"
  chacha_length :: "'st \<Rightarrow> u32 \<Rightarrow> bytes \<Rightarrow> bytes"
  chacha_seal :: "'st \<Rightarrow> u32 \<Rightarrow> bytes \<Rightarrow> bytes \<times> bytes"
  chacha_open :: "'st \<Rightarrow> u32 \<Rightarrow> bytes \<Rightarrow> bytes \<Rightarrow> bytes option" \<comment> \<open>the packet with its length in clear\<close>

section \<open>Message authentication\<close>

datatype mac = NoMac | CryptoMac mac_hash bytes | CryptoEtmMac mac_hash bytes

fun hash_len :: "mac_hash \<Rightarrow> nat" where
  "hash_len Sha1 = 20"
| "hash_len Sha256 = 32"
| "hash_len Sha512 = 64"

fun mac_len :: "mac \<Rightarrow> nat" where
  "mac_len NoMac = 0"
| "mac_len (CryptoMac h _) = hash_len h"
| "mac_len (CryptoEtmMac h _) = hash_len h"

fun is_etm :: "mac \<Rightarrow> bool" where
  "is_etm (CryptoEtmMac _ _) = True"
| "is_etm _ = False"

text \<open>\<open>CryptoMac::compute\<close> fills \<open>output\<close> (\<open>copy_from_slice\<close> panics where the lengths differ);
  \<open>CryptoMac::verify\<close> compares with \<open>ct_eq\<close>, which is false where the lengths differ. The
  encrypt-then-mac variant wraps the other and delegates both.\<close>

definition crypto_mac_compute ::
    "wire \<Rightarrow> 'st crypto \<Rightarrow> mac_hash \<Rightarrow> bytes \<Rightarrow> u32 \<Rightarrow> bytes \<Rightarrow> bytes \<Rightarrow> bytes rs" where
  "crypto_mac_compute W C h key seqn payload output =
     (let t = hmac C h key (be_put W seqn @ payload)
      in if length t = length output then Ok t else Panic)"

definition crypto_mac_verify ::
    "wire \<Rightarrow> 'st crypto \<Rightarrow> mac_hash \<Rightarrow> bytes \<Rightarrow> u32 \<Rightarrow> bytes \<Rightarrow> bytes \<Rightarrow> bool" where
  "crypto_mac_verify W C h key seqn payload m = (hmac C h key (be_put W seqn @ payload) = m)"

fun mac_compute :: "wire \<Rightarrow> 'st crypto \<Rightarrow> mac \<Rightarrow> u32 \<Rightarrow> bytes \<Rightarrow> bytes \<Rightarrow> bytes rs" where
  "mac_compute W C NoMac seqn payload output = Ok output"
| "mac_compute W C (CryptoMac h key) seqn payload output = crypto_mac_compute W C h key seqn payload output"
| "mac_compute W C (CryptoEtmMac h key) seqn payload output = crypto_mac_compute W C h key seqn payload output"

fun mac_verify :: "wire \<Rightarrow> 'st crypto \<Rightarrow> mac \<Rightarrow> u32 \<Rightarrow> bytes \<Rightarrow> bytes \<Rightarrow> bool" where
  "mac_verify W C NoMac seqn payload m = True"
| "mac_verify W C (CryptoMac h key) seqn payload m = crypto_mac_verify W C h key seqn payload m"
| "mac_verify W C (CryptoEtmMac h key) seqn payload m = crypto_mac_verify W C h key seqn payload m"

section \<open>Block and stream ciphers\<close>

datatype 'st block_cipher = StreamBC 'st | CbcBC nat 'st 'st \<comment> \<open>block size, encryptor, decryptor\<close>

text \<open>\<open>chunks_exact_mut(block_size)\<close>: the whole blocks in order, a shorter rest untouched.\<close>

function chunks_exact_mut ::
    "nat \<Rightarrow> ('st \<Rightarrow> bytes \<Rightarrow> bytes \<times> 'st) \<Rightarrow> 'st \<Rightarrow> bytes \<Rightarrow> bytes \<times> 'st" where
  "chunks_exact_mut n f s data =
     (if n = 0 \<or> length data < n then (data, s)
      else let (b, s') = f s (take n data); (rest, s'') = chunks_exact_mut n f s' (drop n data)
           in (b @ rest, s''))"
  by pat_completeness auto
termination
  by (relation "measure (\<lambda>(n, f, s, data). length data)") auto

declare chunks_exact_mut.simps [simp del]

fun encrypt_data :: "'st crypto \<Rightarrow> 'st block_cipher \<Rightarrow> bytes \<Rightarrow> bytes \<times> 'st block_cipher" where
  "encrypt_data C (StreamBC s) data = (let (out, s') = stream_apply C s data in (out, StreamBC s'))"
| "encrypt_data C (CbcBC n e d) data =
     (let (out, e') = chunks_exact_mut n (cbc_encrypt C) e data in (out, CbcBC n e' d))"

fun decrypt_data :: "'st crypto \<Rightarrow> 'st block_cipher \<Rightarrow> bytes \<Rightarrow> bytes \<times> 'st block_cipher" where
  "decrypt_data C (StreamBC s) data = (let (out, s') = stream_apply C s data in (out, StreamBC s'))"
| "decrypt_data C (CbcBC n e d) data =
     (let (out, d') = chunks_exact_mut n (cbc_decrypt C) d data in (out, CbcBC n e d'))"

section \<open>Keys\<close>

definition PACKET_LENGTH_LEN :: nat where [simp, code_unfold]: "PACKET_LENGTH_LEN = 4"
definition PADDING_LENGTH_LEN :: nat where [simp, code_unfold]: "PADDING_LENGTH_LEN = 1"
definition MINIMUM_PACKET_LEN :: nat where [simp, code_unfold]: "MINIMUM_PACKET_LEN = 16"
definition MAXIMUM_PACKET_LEN :: nat where [simp, code_unfold]: "MAXIMUM_PACKET_LEN = 256 * 1024"
definition CHACHA_TAG_LEN :: nat where [simp, code_unfold]: "CHACHA_TAG_LEN = 16"

text \<open>One type serves \<open>Box<dyn SealingKey>\<close> and \<open>Box<dyn OpeningKey>\<close>: both hold the same parts.\<close>

datatype 'st cipher_key =
    ClearKey
  | BlockKey "'st block_cipher" mac
  | GcmKey 'st bytes \<comment> \<open>key and nonce counter\<close>
  | ChachaKey 'st

text \<open>\<open>Nonce::advance\<close> of \<open>gcm.rs\<close>: the last byte is incremented, the carry runs to the left.\<close>

fun add_carry :: "u8 list \<Rightarrow> u16 \<Rightarrow> u8 list" where \<comment> \<open>least significant byte first\<close>
  "add_carry [] carry = []"
| "add_carry (b # bs) carry =
     (let n = ucast b + carry in ucast n # add_carry bs (drop_bit 8 n))"

definition nonce_advance :: "bytes \<Rightarrow> bytes \<times> bytes" where
  "nonce_advance n = (n, rev (add_carry (rev n) 1))" \<comment> \<open>the nonce to use, the counter after\<close>

fun tag_len :: "'st crypto \<Rightarrow> 'st cipher_key \<Rightarrow> nat" where
  "tag_len C ClearKey = 0"
| "tag_len C (BlockKey c m) = mac_len m"
| "tag_len C (GcmKey s _) = aead_tag_len C s"
| "tag_len C (ChachaKey s) = CHACHA_TAG_LEN"

fun packet_length_to_read :: "'st cipher_key \<Rightarrow> nat" where
  "packet_length_to_read (BlockKey c m) = 16"
| "packet_length_to_read _ = 4"

definition array4 :: "bytes \<Rightarrow> bytes rs" where \<comment> \<open>\<open>try_into().unwrap()\<close> to \<open>[u8; 4]\<close>\<close>
  "array4 s = (if length s = 4 then Ok s else Panic)"

fun decrypt_packet_length :: "'st crypto \<Rightarrow> 'st cipher_key \<Rightarrow> u32 \<Rightarrow> bytes \<Rightarrow> bytes rs" where
  "decrypt_packet_length C ClearKey seqn s = array4 s"
| "decrypt_packet_length C (BlockKey c m) seqn s =
     and_then (slice 0 16 s) (\<lambda>first_block.
       if is_etm m then slice 0 4 s
       else slice 0 4 (fst (decrypt_data C c first_block)))"
| "decrypt_packet_length C (GcmKey k n) seqn s = array4 s"
| "decrypt_packet_length C (ChachaKey k) seqn s =
     and_then (array4 s) (\<lambda>s. Ok (chacha_length C k seqn s))"

text \<open>\<open>open\<close>: the buffer after it (decrypted in place), how many bytes of it from offset 4 on are
  plain text, and the key after it. A buffer shorter than the tag panics in \<open>split_at_mut\<close>.\<close>

definition split_tag :: "nat \<Rightarrow> bytes \<Rightarrow> (bytes \<times> bytes) rs" where
  "split_tag n s = (if n \<le> length s then Ok (take (length s - n) s, drop (length s - n) s) else Panic)"

fun open_packet ::
    "wire \<Rightarrow> 'st crypto \<Rightarrow> 'st cipher_key \<Rightarrow> u32 \<Rightarrow> bytes \<Rightarrow> (bytes \<times> bytes \<times> 'st cipher_key) rs" where
  "open_packet W C ClearKey seqn s = and_then (slice_from 4 s) (\<lambda>p. Ok (s, p, ClearKey))"
| "open_packet W C (BlockKey c m) seqn s =
     and_then (split_tag (mac_len m) s) (\<lambda>(ct, tag).
       if is_etm m then
         if \<not> mac_verify W C m seqn ct tag then Err PacketAuth
         else and_then (slice_from PACKET_LENGTH_LEN ct) (\<lambda>body.
           let (pt, c') = decrypt_data C c body
           in Ok (take PACKET_LENGTH_LEN ct @ pt @ tag, pt, BlockKey c' m))
       else
         let (pt, c') = decrypt_data C c ct
         in if \<not> mac_verify W C m seqn pt tag then Err PacketAuth
            else and_then (slice_from PACKET_LENGTH_LEN pt) (\<lambda>p. Ok (pt @ tag, p, BlockKey c' m)))"
| "open_packet W C (GcmKey k n) seqn s =
     and_then (slice 0 PACKET_LENGTH_LEN s) (\<lambda>packet_length.
       and_then (slice_from PACKET_LENGTH_LEN s) (\<lambda>body.
         let (nonce, n') = nonce_advance n
         in case aead_open C k nonce packet_length body of
              None \<Rightarrow> Err DecryptionError
            | Some pt \<Rightarrow> Ok (packet_length @ pt @ drop (length pt) body, pt, GcmKey k n')))"
| "open_packet W C (ChachaKey k) seqn s =
     and_then (split_tag CHACHA_TAG_LEN s) (\<lambda>(ct, tag).
       case chacha_open C k seqn ct tag of
         None \<Rightarrow> Err DecryptionError
       | Some pkt \<Rightarrow> and_then (slice_from 4 pkt) (\<lambda>p. Ok (pkt @ tag, p, ChachaKey k)))"

text \<open>\<open>padding_length\<close> of the four ciphers.\<close>

fun padding_length :: "'st cipher_key \<Rightarrow> bytes \<Rightarrow> nat" where
  "padding_length ClearKey payload =
     (let block_size = 8; padding_len = block_size - ((5 + length payload) mod block_size)
      in if padding_len < 4 then padding_len + block_size else padding_len)"
| "padding_length (BlockKey c m) payload =
     (let block_size = 16;
          pll = (if is_etm m then 0 else PACKET_LENGTH_LEN);
          extra_len = PACKET_LENGTH_LEN + PADDING_LENGTH_LEN + mac_len m;
          padding_len =
            (if length payload + extra_len \<le> MINIMUM_PACKET_LEN
             then MINIMUM_PACKET_LEN - length payload - PADDING_LENGTH_LEN - pll
             else block_size - ((pll + PADDING_LENGTH_LEN + length payload) mod block_size))
      in if padding_len < PACKET_LENGTH_LEN then padding_len + block_size else padding_len)"
| "padding_length (GcmKey k n) payload =
     (let block_size = 16;
          extra_len = PACKET_LENGTH_LEN + PADDING_LENGTH_LEN;
          padding_len =
            (if length payload + extra_len \<le> MINIMUM_PACKET_LEN
             then MINIMUM_PACKET_LEN - length payload - PADDING_LENGTH_LEN
             else block_size - ((PADDING_LENGTH_LEN + length payload) mod block_size))
      in if padding_len < PACKET_LENGTH_LEN then padding_len + block_size else padding_len)"
| "padding_length (ChachaKey k) payload =
     (let block_size = 8;
          extra_len = PACKET_LENGTH_LEN + PADDING_LENGTH_LEN;
          padding_len =
            (if length payload + extra_len \<le> MINIMUM_PACKET_LEN
             then MINIMUM_PACKET_LEN - length payload - PADDING_LENGTH_LEN
             else block_size - ((PADDING_LENGTH_LEN + length payload) mod block_size))
      in if padding_len < PACKET_LENGTH_LEN then padding_len + block_size else padding_len)"

text \<open>\<open>fill_padding\<close>: zeros in the clear and under ChaCha20, else random bytes (\<open>rnd\<close>: what the
  generator puts into a buffer).\<close>

fun fill_padding :: "(bytes \<Rightarrow> bytes) \<Rightarrow> 'st cipher_key \<Rightarrow> bytes \<Rightarrow> bytes" where
  "fill_padding rnd ClearKey out = replicate (length out) 0"
| "fill_padding rnd (BlockKey c m) out = rnd out"
| "fill_padding rnd (GcmKey k n) out = rnd out"
| "fill_padding rnd (ChachaKey k) out = replicate (length out) 0"

text \<open>\<open>seal\<close>: the packet and the tag after it, and the key.\<close>

fun seal_packet ::
    "wire \<Rightarrow> 'st crypto \<Rightarrow> 'st cipher_key \<Rightarrow> u32 \<Rightarrow> bytes \<Rightarrow> bytes \<Rightarrow> (bytes \<times> bytes \<times> 'st cipher_key) rs"
where
  "seal_packet W C ClearKey seqn plain tag = Ok (plain, tag, ClearKey)"
| "seal_packet W C (BlockKey c m) seqn plain tag =
     (if is_etm m then
        and_then (slice_from PACKET_LENGTH_LEN plain) (\<lambda>body.
          let (ct, c') = encrypt_data C c body; out = take PACKET_LENGTH_LEN plain @ ct
          in and_then (mac_compute W C m seqn out tag) (\<lambda>tag. Ok (out, tag, BlockKey c' m)))
      else
        and_then (mac_compute W C m seqn plain tag) (\<lambda>tag.
          let (ct, c') = encrypt_data C c plain in Ok (ct, tag, BlockKey c' m)))"
| "seal_packet W C (GcmKey k n) seqn plain tag =
     and_then (slice 0 PACKET_LENGTH_LEN plain) (\<lambda>packet_length.
       and_then (slice_from PACKET_LENGTH_LEN plain) (\<lambda>body.
         let (nonce, n') = nonce_advance n; (ct, t) = aead_seal C k nonce packet_length body
         in if length t = length tag then Ok (packet_length @ ct, t, GcmKey k n') else Panic))"
| "seal_packet W C (ChachaKey k) seqn plain tag =
     (if length tag = CHACHA_TAG_LEN
      then let (ct, t) = chacha_seal C k seqn plain in Ok (ct, t, ChachaKey k)
      else Panic)"

section \<open>Reading and writing packets\<close>

text \<open>\<open>SSHBuffer\<close> of \<open>sshbuffer.rs\<close>.\<close>

record sshbuffer =
  buffer :: bytes
  next_len :: nat
  sent_bytes :: nat
  seqn :: u32

definition sshbuffer_new :: sshbuffer where
  "sshbuffer_new = \<lparr>buffer = [], next_len = 0, sent_bytes = 0, seqn = 0\<rparr>"

text \<open>\<open>SealingKey::write\<close>. The new bytes of the buffer are zero when the padding is filled in.\<close>

definition write_packet ::
    "wire \<Rightarrow> 'st crypto \<Rightarrow> (bytes \<Rightarrow> bytes) \<Rightarrow> 'st cipher_key \<Rightarrow> bytes \<Rightarrow> sshbuffer
      \<Rightarrow> (sshbuffer \<times> 'st cipher_key) rs" where
  "write_packet W C rnd k payload b =
     (let pad_len = padding_length k payload;
          packet_length = PADDING_LENGTH_LEN + length payload + pad_len;
          offset = length (buffer b)
      in if \<not> packet_length \<le> 2 ^ 32 - 1 then Panic
         else case w_u32 W (as_u32 packet_length) of
           Ok len_bytes \<Rightarrow>
             if \<not> pad_len \<le> 255 then Panic
             else
               let buf = buffer b @ len_bytes @ [of_nat pad_len] @ payload
                           @ fill_padding rnd k (replicate pad_len 0)
                           @ replicate (tag_len C k) 0
               in and_then (slice_from offset buf) (\<lambda>s.
                    if length s < PACKET_LENGTH_LEN + packet_length then Panic
                    else
                      let plaintext = take (PACKET_LENGTH_LEN + packet_length) s;
                          tag = drop (PACKET_LENGTH_LEN + packet_length) s
                      in and_then (seal_packet W C k (seqn b) plaintext tag) (\<lambda>(ct, t, k').
                           Ok (b\<lparr>buffer := take offset buf @ ct @ t,
                                 sent_bytes := sent_bytes b + length payload,
                                 seqn := seqn b + 1\<rparr>, k')))
         | _ \<Rightarrow> Panic)"

text \<open>\<open>stream.read_exact(&mut buf)\<close> on a stream that ends after the bytes given.\<close>

definition read_exact :: "nat \<Rightarrow> bytes \<Rightarrow> (bytes \<times> bytes) rs" where
  "read_exact n stream = (if n \<le> length stream then Ok (take n stream, drop n stream) else Err IO)"

text \<open>\<open>cipher::read\<close>, in its two halves: the length, unless an earlier call has read it, and the rest.\<close>

definition read_length ::
    "wire \<Rightarrow> 'st crypto \<Rightarrow> 'st cipher_key \<Rightarrow> bytes \<Rightarrow> sshbuffer \<Rightarrow> (bytes \<times> sshbuffer) rs" where
  "read_length W C k stream b =
     (if next_len b = 0 then
        and_then (read_exact (packet_length_to_read k) stream) (\<lambda>(len, stream).
          let b = b\<lparr>buffer := len\<rparr> in
          and_then (decrypt_packet_length C k (seqn b) len) (\<lambda>len.
            and_then (be_read_u32 W len) (\<lambda>len.
              if unat len > MAXIMUM_PACKET_LEN then Err (PacketSize (unat len))
              else Ok (stream, b\<lparr>next_len := unat len + tag_len C k\<rparr>))))
      else Ok (stream, b))"

definition read_body ::
    "wire \<Rightarrow> 'st crypto \<Rightarrow> 'st cipher_key \<Rightarrow> bytes \<Rightarrow> sshbuffer
      \<Rightarrow> (nat \<times> bytes \<times> sshbuffer \<times> 'st cipher_key) rs" where
  "read_body W C k stream b =
     (let buf = list_resize (next_len b + 4) (buffer b); l = packet_length_to_read k in
      and_then (slice_from l buf) (\<lambda>rest.
        and_then (read_exact (length rest) stream) (\<lambda>(s, stream).
          and_then (open_packet W C k (seqn b) (take l buf @ s)) (\<lambda>(buf, plaintext, k').
            let pad_len = (case first plaintext of None \<Rightarrow> 0 | Some x \<Rightarrow> unat x) in
            if length plaintext < pad_len then Err IndexOutOfBounds
            else
              let plaintext_end = length plaintext - pad_len in
              Ok (plaintext_end + 4, stream,
                  b\<lparr>seqn := seqn b + 1, next_len := 0,
                    buffer := list_resize (plaintext_end + 4) buf\<rparr>, k')))))"

definition read_packet ::
    "wire \<Rightarrow> 'st crypto \<Rightarrow> 'st cipher_key \<Rightarrow> bytes \<Rightarrow> sshbuffer
      \<Rightarrow> (nat \<times> bytes \<times> sshbuffer \<times> 'st cipher_key) rs" where
  "read_packet W C k stream b =
     and_then (read_length W C k stream b) (\<lambda>(stream, b). read_body W C k stream b)"

end
