(* ===== verification/PacketCipher.thy ===== *)
theory PacketCipher
  imports Cipher
begin

text \<open>
  Correctness of the packet layer. The locale \<open>packet_cipher\<close> is the contract between the code that
  reads and writes packets and a pair of keys (the traits \<open>SealingKey\<close> and \<open>OpeningKey\<close>); its
  client lemmas show that a stream of packets written with one key is read back with the other.
  It is interpreted on the four ciphers of the program, under what the cryptographic crates document.
\<close>

section \<open>Padding\<close>

text \<open>The unit that a cipher encrypts, and what of a packet it counts beside payload and padding: the
  length field is not part of it where it is sent apart.\<close>

fun padding_unit :: "'st cipher_key \<Rightarrow> nat" where
  "padding_unit ClearKey = 8"
| "padding_unit (BlockKey c m) = 16"
| "padding_unit (GcmKey k n) = 16"
| "padding_unit (ChachaKey k) = 8"

fun counted :: "'st cipher_key \<Rightarrow> nat" where
  "counted ClearKey = 5"
| "counted (BlockKey c m) = (if is_etm m then 1 else 5)"
| "counted (GcmKey k n) = 1"
| "counted (ChachaKey k) = 1"

text \<open>The least padding of at least four bytes that completes \<open>a\<close> to a multiple of \<open>n\<close>.\<close>

definition pad_to :: "nat \<Rightarrow> nat \<Rightarrow> nat" where
  "pad_to n a = (if n - a mod n < 4 then n - a mod n + n else n - a mod n)"

lemma pad_to_multiple: "0 < n \<Longrightarrow> (a + pad_to n a) mod n = 0"
proof -
  assume n: "0 < n"
  then have "a mod n < n" by simp
  then have "a + (n - a mod n) = (a - a mod n) + n"
    using mod_less_eq_dividend [of a n] by linarith
  then have e: "a + (n - a mod n) = n * (a div n) + n"
    by (simp add: minus_mod_eq_mult_div)
  show ?thesis
  proof (cases "n - a mod n < 4")
    case True
    then have "pad_to n a = (n - a mod n) + n" by (simp add: pad_to_def)
    then have "a + pad_to n a = n * (a div n) + n + n" using e by linarith
    then show ?thesis by (simp only: mod_add_self2 mod_mult_self1_is_0)
  next
    case False
    then have "a + pad_to n a = n * (a div n) + n" unfolding pad_to_def using e by simp
    then show ?thesis by (simp only: mod_add_self2 mod_mult_self1_is_0)
  qed
qed

lemma pad_to_bounds: "4 \<le> n \<Longrightarrow> 4 \<le> pad_to n a \<and> pad_to n a \<le> n + 3"
proof -
  assume n: "4 \<le> n"
  then have "a mod n < n" by simp
  then show ?thesis
    using n by (cases "n - a mod n < 4"; simp only: pad_to_def if_True if_False; linarith)
qed

lemma mac_len_etm: "is_etm m \<Longrightarrow> 20 \<le> mac_len m"
proof (cases m)
  case (CryptoEtmMac h key)
  then show ?thesis by (cases h) auto
qed auto

lemma mac_len_cases: "mac_len m = 0 \<or> 20 \<le> mac_len m"
proof (cases m)
  case (CryptoMac h key)
  then show ?thesis by (cases h) auto
next
  case (CryptoEtmMac h key)
  then show ?thesis by (cases h) auto
qed auto

lemma padding_clear: "padding_length ClearKey p = pad_to 8 (5 + length p)"
  by (simp add: pad_to_def Let_def)

lemma padding_block:
  "padding_length (BlockKey c m) p = pad_to 16 (counted (BlockKey c m) + length p)"
proof (cases "length p + (5 + mac_len m) \<le> 16")
  case True
  then have "mac_len m = 0" "\<not> is_etm m" using mac_len_cases [of m] mac_len_etm [of m] by auto
  moreover have "length p = 11 \<or> length p < 11" using True by linarith
  ultimately show ?thesis by (auto simp: pad_to_def Let_def)
next
  case False
  then show ?thesis by (simp add: pad_to_def Let_def)
qed

lemma padding_gcm: "padding_length (GcmKey k n) p = pad_to 16 (1 + length p)"
proof (cases "length p + 5 \<le> 16")
  case True
  then show ?thesis by (simp add: pad_to_def Let_def)
next
  case False
  then show ?thesis by (simp add: pad_to_def Let_def)
qed

lemma padding_chacha:
  "padding_length (ChachaKey k) p =
    (if length p \<le> 11 then 15 - length p else pad_to 8 (1 + length p))"
proof (cases "length p + 5 \<le> 16")
  case True
  then show ?thesis by (simp add: Let_def)
next
  case False
  then show ?thesis by (simp add: pad_to_def Let_def)
qed

lemmas padding_eqs = padding_clear padding_block padding_gcm padding_chacha

lemma padding_bounds: "4 \<le> padding_length k p \<and> padding_length k p \<le> 19"
proof (cases k)
  case (ChachaKey x)
  then show ?thesis
    using pad_to_bounds [of 8 "1 + length p"]
    unfolding ChachaKey padding_chacha by (cases "length p \<le> 11"; simp; linarith)
next
  case ClearKey
  then show ?thesis
    using pad_to_bounds [of 8 "5 + length p"] unfolding ClearKey padding_clear by simp
next
  case (BlockKey c m)
  show ?thesis
    using pad_to_bounds [of 16 "counted k + length p"] unfolding BlockKey padding_block by simp
next
  case (GcmKey x n)
  then show ?thesis
    using pad_to_bounds [of 16 "1 + length p"] unfolding GcmKey padding_gcm by simp
qed

lemma whole_units: "(counted k + length p + padding_length k p) mod padding_unit k = 0"
proof (cases k)
  case (ChachaKey x)
  show ?thesis
    using pad_to_multiple [of 8 "1 + length p"] unfolding ChachaKey padding_chacha by simp
next
  case ClearKey
  show ?thesis
    using pad_to_multiple [of 8 "5 + length p"] unfolding ClearKey padding_clear by simp
next
  case (BlockKey c m)
  show ?thesis
    using pad_to_multiple [of 16 "counted (BlockKey c m) + length p"] unfolding BlockKey padding_block
    by simp
next
  case (GcmKey x n)
  show ?thesis
    using pad_to_multiple [of 16 "1 + length p"] unfolding GcmKey padding_gcm by simp
qed

lemma multiple_ge: "t mod n = 0 \<Longrightarrow> 0 < t \<Longrightarrow> n \<le> (t :: nat)"
  by (simp add: dvd_imp_le mod_eq_0_iff_dvd)

lemma packet_at_least_16: "16 \<le> 5 + length p + padding_length k p"
proof -
  let ?t = "counted k + length p + padding_length k p"
  have c: "1 \<le> counted k" "counted k \<le> 5" by (cases k; simp)+
  have pos: "0 < ?t" using c by simp
  show ?thesis
  proof (cases "padding_unit k = 16")
    case True
    then show ?thesis using multiple_ge [of ?t 16] whole_units [of k p] pos c by simp
  next
    case False
    then consider "k = ClearKey" | x where "k = ChachaKey x" by (cases k) auto
    then show ?thesis
    proof cases
      case 1
      have "(5 + length p + padding_length k p) mod 8 = 0" using whole_units [of k p] 1 by simp
      moreover have "8 < 5 + length p + padding_length k p" using padding_bounds [of k p] by simp
      ultimately show ?thesis by presburger
    next
      case 2
      then show ?thesis using padding_bounds [of k p] by (auto simp: padding_chacha simp del: padding_length.simps)
    qed
  qed
qed


section \<open>The contract of a pair of keys\<close>

text \<open>\<open>in_step sk ok\<close>: the opening key \<open>ok\<close> of one side has the state that the sealing key \<open>sk\<close> of the
  other requires.\<close>

definition opens_sealed ::
    "wire \<Rightarrow> 'st crypto \<Rightarrow> u32 \<Rightarrow> bytes \<Rightarrow> 'st cipher_key \<Rightarrow> 'st cipher_key
      \<Rightarrow> ('st cipher_key \<Rightarrow> 'st cipher_key \<Rightarrow> bool) \<Rightarrow> bool" where
  "opens_sealed W C n plain sk ok in_step \<longleftrightarrow>
     (\<exists>ct t sk' ok'. seal_packet W C sk n plain (replicate (tag_len C sk) 0) = Ok (ct, t, sk')
        \<and> length ct = length plain \<and> length t = tag_len C sk
        \<and> decrypt_packet_length C ok n (take (packet_length_to_read ok) ct) = Ok (take 4 plain)
        \<and> open_packet W C ok n (ct @ t) = Ok (plain @ t, drop 4 plain, ok')
        \<and> in_step sk' ok')"

lemma opens_sealed_mono:
  "opens_sealed W C n plain sk ok R \<Longrightarrow> (\<And>sk ok. R sk ok \<Longrightarrow> R' sk ok) \<Longrightarrow> opens_sealed W C n plain sk ok R'"
  unfolding opens_sealed_def by blast

locale packet_cipher =
  fixes W :: wire and C :: "'st crypto" and in_step :: "'st cipher_key \<Rightarrow> 'st cipher_key \<Rightarrow> bool"
  assumes same_tag_len: "in_step sk ok \<Longrightarrow> tag_len C ok = tag_len C sk"
    and open_seal: "\<lbrakk>in_step sk ok; 16 \<le> length plain\<rbrakk> \<Longrightarrow> opens_sealed W C n plain sk ok in_step"

lemma to_read_cases: "packet_length_to_read k = 4 \<or> packet_length_to_read k = 16"
  by (cases k) auto

text \<open>What a packet is before it is sealed.\<close>

definition plain_packet :: "wire \<Rightarrow> (bytes \<Rightarrow> bytes) \<Rightarrow> 'st cipher_key \<Rightarrow> bytes \<Rightarrow> bytes" where
  "plain_packet W rnd k payload =
     be_put W (as_u32 (1 + length payload + padding_length k payload))
       @ of_nat (padding_length k payload) # payload
       @ fill_padding rnd k (replicate (padding_length k payload) 0)"

definition fills :: "(bytes \<Rightarrow> bytes) \<Rightarrow> bool" where
  "fills rnd \<longleftrightarrow> (\<forall>b. length (rnd b) = length b)"

lemma fill_padding_length: "fills rnd \<Longrightarrow> length (fill_padding rnd k out) = length out"
  by (cases k) (simp_all add: fills_def)

lemma plain_packet_length:
  assumes "ssh_wire W" "fills rnd"
  shows "length (plain_packet W rnd k p) = 5 + length p + padding_length k p"
  using assms fill_padding_length [OF assms(2), of k "replicate (padding_length k p) 0"]
  by (simp add: plain_packet_def ssh_wire.be_put_length del: padding_length.simps)

lemma write_packet_eq:
  assumes W: "ssh_wire W" and rnd: "fills rnd" and len: "length p + 20 \<le> 2 ^ 32 - 1"
    and seal: "seal_packet W C k (seqn b) (plain_packet W rnd k p) (replicate (tag_len C k) 0) = Ok (ct, t, k')"
  shows "write_packet W C rnd k p b = Ok (b\<lparr>buffer := buffer b @ ct @ t,
    sent_bytes := sent_bytes b + length p, seqn := seqn b + 1\<rparr>, k')"
proof -
  let ?pad = "padding_length k p"
  let ?plain = "plain_packet W rnd k p"
  have pad: "?pad \<le> 19" using padding_bounds [of k p] by simp
  have l: "length ?plain = 4 + (1 + length p + ?pad)" using plain_packet_length [OF W rnd, of k p] by simp
  have buf: "buffer b @ be_put W (as_u32 (1 + length p + ?pad)) @ [of_nat ?pad] @ p
      @ fill_padding rnd k (replicate ?pad 0) @ replicate (tag_len C k) 0
      = buffer b @ ?plain @ replicate (tag_len C k) 0"
    by (simp add: plain_packet_def)
  have pl: "1 + length p + ?pad \<le> 2 ^ 32 - 1" "?pad \<le> 255" using pad len by simp_all
  have sl: "slice_from (length (buffer b)) (buffer b @ ?plain @ replicate (tag_len C k) 0)
      = Ok (?plain @ replicate (tag_len C k) 0)"
    by (simp add: slice_from_def)
  have w: "w_u32 W (as_u32 (1 + length p + ?pad)) = Ok (be_put W (as_u32 (1 + length p + ?pad)))"
    by (rule ssh_wire.put_u32 [OF W])
  show ?thesis
    using pl l seal
    by (simp only: write_packet_def Let_def PADDING_LENGTH_LEN_def PACKET_LENGTH_LEN_def w buf sl
        rs.case and_then.simps not_True_eq_False if_False append_eq_conv_conj take_append drop_append
        length_append)
      simp
qed

lemma take_list_resize: "n \<le> length s \<Longrightarrow> n \<le> m \<Longrightarrow> take n (list_resize m s) = take n s"
  by (simp add: list_resize_def)

lemma list_resize_length [simp]: "length (list_resize n s) = n"
  by (simp add: list_resize_def)

context packet_cipher
begin

text \<open>One packet: the reader gets the payload after five bytes (length and padding length), and takes
  exactly the packet from the stream.\<close>

lemma read_write:
  assumes W: "ssh_wire W" and rnd: "fills rnd" and step: "in_step sk ok"
    and len: "length p + 20 \<le> MAXIMUM_PACKET_LEN"
    and seqn: "seqn r = seqn b" and fresh: "next_len r = 0"
  shows "\<exists>packet sk' ok' b' r'. write_packet W C rnd sk p b = Ok (b', sk')
    \<and> buffer b' = buffer b @ packet \<and> seqn b' = seqn b + 1
    \<and> (\<forall>rest. read_packet W C ok (packet @ rest) r = Ok (5 + length p, rest, r', ok'))
    \<and> length (buffer r') = 5 + length p \<and> drop 5 (buffer r') = p
    \<and> seqn r' = seqn b' \<and> next_len r' = 0 \<and> in_step sk' ok'"
proof -
  let ?pad = "padding_length sk p"
  let ?plain = "plain_packet W rnd sk p" and ?n = "1 + length p + padding_length sk p"
  let ?l = "packet_length_to_read ok"
  have pad: "4 \<le> ?pad" "?pad \<le> 19" using padding_bounds [of sk p] by simp_all
  have pl: "length ?plain = 4 + ?n" using plain_packet_length [OF W rnd, of sk p] by simp
  have ge: "16 \<le> length ?plain" using plain_packet_length [OF W rnd, of sk p] packet_at_least_16 [of p sk] by simp
  obtain ct t sk' ok' where
    seal: "seal_packet W C sk (seqn b) ?plain (replicate (tag_len C sk) 0) = Ok (ct, t, sk')"
    and ct: "length ct = length ?plain" and t: "length t = tag_len C sk"
    and declen: "decrypt_packet_length C ok (seqn b) (take ?l ct) = Ok (take 4 ?plain)"
    and opn: "open_packet W C ok (seqn b) (ct @ t) = Ok (?plain @ t, drop 4 ?plain, ok')"
    and step': "in_step sk' ok'"
    using open_seal [OF step ge] unfolding opens_sealed_def by blast
  have written: "write_packet W C rnd sk p b = Ok (b\<lparr>buffer := buffer b @ ct @ t,
      sent_bytes := sent_bytes b + length p, seqn := seqn b + 1\<rparr>, sk')"
    by (rule write_packet_eq [OF W rnd _ seal]) (use len in simp)
  have l: "?l \<le> 16" "4 \<le> ?l" using to_read_cases [of ok] by auto
  have lct: "?l \<le> length ct" using l ct ge by simp
  have len4: "take 4 ?plain = be_put W (as_u32 ?n)"
    by (simp add: plain_packet_def ssh_wire.be_put_length [OF W])
  have rest4: "drop 4 ?plain = of_nat ?pad # p @ fill_padding rnd sk (replicate ?pad 0)"
    by (simp add: plain_packet_def ssh_wire.be_put_length [OF W])
  have uns: "unat (as_u32 ?n) = ?n" by (rule unat_as_u32) (use pad len in simp)
  have small: "?n \<le> MAXIMUM_PACKET_LEN" using pad len by simp
  let ?r1 = "r\<lparr>buffer := take ?l ct, next_len := ?n + tag_len C ok\<rparr>"
  have first_half: "read_length W C ok ((ct @ t) @ rest) r = Ok (drop ?l ct @ t @ rest, ?r1)" for rest
    using lct small declen ssh_wire.be_read_put [OF W, of "as_u32 ?n" "[]"] uns
    by (simp add: read_length_def fresh read_exact_def seqn len4 Let_def
        del: unat_as_u32 of_nat_add of_nat_Suc)
  have tag: "tag_len C ok = length t" using same_tag_len [OF step] t by simp
  have resize: "take ?l (list_resize (?n + tag_len C ok + 4) (take ?l ct)) = take ?l ct"
    using lct ct pl by (subst take_list_resize) auto
  have exactly: "read_exact (?n + tag_len C ok + 4 - ?l) (drop ?l ct @ t @ rest) = Ok (drop ?l ct @ t, rest)" for rest
    using lct ct pl tag by (simp add: read_exact_def)
  have len_ok: "?l \<le> ?n + tag_len C ok + 4" using lct ct pl by simp
  let ?r2 = "?r1\<lparr>seqn := seqn b + 1, next_len := 0, buffer := list_resize (1 + length p + 4) (?plain @ t)\<rparr>"
  have padw: "unat (of_nat ?pad :: u8) = ?pad" using pad by (simp add: unat_of_nat)
  have lrest: "length (drop 4 ?plain) = ?n" using pl by simp
  have "read_body W C ok (drop ?l ct @ t @ rest) ?r1 = Ok (5 + length p, rest, ?r2, ok')" for rest
  proof -
    have e: "next_len ?r1 + 4 = ?n + tag_len C ok + 4" "buffer ?r1 = take ?l ct" "seqn ?r1 = seqn b"
      by (simp_all add: seqn)
    have sf: "slice_from ?l (list_resize (?n + tag_len C ok + 4) (take ?l ct))
        = Ok (drop ?l (list_resize (?n + tag_len C ok + 4) (take ?l ct)))"
      using len_ok by (simp add: slice_from_def)
    have lr: "length (drop ?l (list_resize (?n + tag_len C ok + 4) (take ?l ct))) = ?n + tag_len C ok + 4 - ?l"
      by simp
    have joined: "take ?l ct @ drop ?l ct @ t = ct @ t" by simp
    have fp: "first (drop 4 ?plain) = Some (of_nat ?pad)" by (simp add: rest4)
    have not_short: "\<not> ?n < ?pad" "?n - ?pad + 4 = 1 + length p + 4" by simp_all
    show ?thesis
      unfolding read_body_def Let_def e sf and_then.simps lr exactly resize prod.case joined opn fp
        option.case padw lrest not_short if_False
      by simp
  qed
  then have "read_packet W C ok ((ct @ t) @ rest) r = Ok (5 + length p, rest, ?r2, ok')" for rest
    by (simp only: read_packet_def first_half and_then.simps prod.case)
  moreover have "drop 5 (list_resize (1 + length p + 4) (?plain @ t)) = p"
    using ssh_wire.be_put_length [OF W, of "as_u32 ?n"]
    by (simp add: list_resize_def plain_packet_def)
  ultimately show ?thesis using written step'
    by (intro exI [of _ "ct @ t"] exI [of _ sk'] exI [of _ ok']
        exI [of _ "b\<lparr>buffer := buffer b @ ct @ t, sent_bytes := sent_bytes b + length p,
          seqn := seqn b + 1\<rparr>"] exI [of _ ?r2]) auto
qed

end

text \<open>A run of packets through one buffer and back.\<close>

fun write_packets ::
    "wire \<Rightarrow> 'st crypto \<Rightarrow> (bytes \<Rightarrow> bytes) \<Rightarrow> 'st cipher_key \<Rightarrow> bytes list \<Rightarrow> sshbuffer
      \<Rightarrow> (sshbuffer \<times> 'st cipher_key) rs" where
  "write_packets W C rnd k [] b = Ok (b, k)"
| "write_packets W C rnd k (p # ps) b =
     and_then (write_packet W C rnd k p b) (\<lambda>(b, k). write_packets W C rnd k ps b)"

fun read_packets ::
    "wire \<Rightarrow> 'st crypto \<Rightarrow> 'st cipher_key \<Rightarrow> nat \<Rightarrow> bytes \<Rightarrow> sshbuffer
      \<Rightarrow> (bytes list \<times> bytes \<times> sshbuffer \<times> 'st cipher_key) rs" where
  "read_packets W C k 0 stream r = Ok ([], stream, r, k)"
| "read_packets W C k (Suc n) stream r =
     and_then (read_packet W C k stream r) (\<lambda>(l, stream, r, k).
       and_then (read_packets W C k n stream r) (\<lambda>(ps, stream, r', k).
         Ok (drop 5 (buffer r) # ps, stream, r', k)))"

context packet_cipher
begin

lemma read_write_stream:
  assumes W: "ssh_wire W" and rnd: "fills rnd" and step: "in_step sk ok"
    and len: "\<forall>p \<in> set ps. length p + 20 \<le> MAXIMUM_PACKET_LEN"
    and seqn: "seqn r = seqn b" and fresh: "next_len r = 0"
  shows "\<exists>sent sk' ok' b' r'. write_packets W C rnd sk ps b = Ok (b', sk')
    \<and> buffer b' = buffer b @ sent \<and> seqn b' = seqn b + of_nat (length ps)
    \<and> read_packets W C ok (length ps) (sent @ rest) r = Ok (ps, rest, r', ok')
    \<and> seqn r' = seqn b' \<and> next_len r' = 0 \<and> in_step sk' ok'"
  using step len seqn fresh
proof (induction ps arbitrary: sk ok b r)
  case Nil
  then show ?case by auto
next
  case (Cons p ps)
  have len1: "length p + 20 \<le> MAXIMUM_PACKET_LEN"
    and len2: "\<forall>p \<in> set ps. length p + 20 \<le> MAXIMUM_PACKET_LEN" using Cons.prems(2) by auto
  obtain packet sk1 ok1 b1 r1 where w: "write_packet W C rnd sk p b = Ok (b1, sk1)"
    and b1: "buffer b1 = buffer b @ packet" "seqn b1 = seqn b + 1"
    and r1: "\<forall>q. read_packet W C ok (packet @ q) r = Ok (5 + length p, q, r1, ok1)"
      "drop 5 (buffer r1) = p" "seqn r1 = seqn b1" "next_len r1 = 0" "in_step sk1 ok1"
    using read_write [OF W rnd Cons.prems(1) len1 Cons.prems(3,4)] by blast
  obtain sent sk' ok' b' r' where ws: "write_packets W C rnd sk1 ps b1 = Ok (b', sk')"
    "buffer b' = buffer b1 @ sent" "seqn b' = seqn b1 + of_nat (length ps)"
    and rs: "read_packets W C ok1 (length ps) (sent @ rest) r1 = Ok (ps, rest, r', ok')"
    "seqn r' = seqn b'" "next_len r' = 0" "in_step sk' ok'"
    using Cons.IH [OF r1(5) len2 r1(3,4)] by blast
  have "write_packets W C rnd sk (p # ps) b = Ok (b', sk')" using w ws(1) by simp
  moreover have "read_packets W C ok (length (p # ps)) ((packet @ sent) @ rest) r = Ok (p # ps, rest, r', ok')"
    using r1(1,2) rs(1) by simp
  moreover have "buffer b' = buffer b @ packet @ sent" "seqn b' = seqn b + of_nat (length (p # ps))"
    using b1 ws by (simp_all add: add.assoc)
  ultimately show ?case using rs by blast
qed

end

section \<open>The four providers\<close>

text \<open>What the cryptographic crates document: a key stream is applied twice without effect and does not
  look ahead; authenticated encryption is undone with the same key, nonce and data; output lengths.\<close>

definition crypto_laws :: "'st crypto \<Rightarrow> bool" where
  "crypto_laws C \<longleftrightarrow>
     (\<forall>s d. length (fst (stream_apply C s d)) = length d
        \<and> stream_apply C s (fst (stream_apply C s d)) = (d, snd (stream_apply C s d)))
   \<and> (\<forall>s d n. fst (stream_apply C s (take n d)) = take n (fst (stream_apply C s d)))
   \<and> (\<forall>h k m. length (hmac C h k m) = hash_len h)
   \<and> (\<forall>k n a p. length (fst (aead_seal C k n a p)) = length p
        \<and> length (snd (aead_seal C k n a p)) = aead_tag_len C k
        \<and> aead_open C k n a (fst (aead_seal C k n a p) @ snd (aead_seal C k n a p)) = Some p)
   \<and> (\<forall>k n p. 4 \<le> length p \<longrightarrow>
        length (fst (chacha_seal C k n p)) = length p \<and> length (snd (chacha_seal C k n p)) = 16
        \<and> chacha_length C k n (take 4 (fst (chacha_seal C k n p))) = take 4 p
        \<and> chacha_open C k n (fst (chacha_seal C k n p)) (snd (chacha_seal C k n p)) = Some p)"

text \<open>The outputs of a run of calls, and: a run of decryptions undoes the run of encryptions, block by
  block.\<close>

fun calls :: "('st \<Rightarrow> bytes \<Rightarrow> bytes \<times> 'st) \<Rightarrow> 'st \<Rightarrow> bytes list \<Rightarrow> bytes list" where
  "calls f s [] = []"
| "calls f s (b # bs) = fst (f s b) # calls f (snd (f s b)) bs"

definition cbc_match :: "'st crypto \<Rightarrow> nat \<Rightarrow> 'st \<Rightarrow> 'st \<Rightarrow> bool" where
  "cbc_match C n e d \<longleftrightarrow>
     (\<forall>bs. (\<forall>b \<in> set bs. length b = n) \<longrightarrow> calls (cbc_decrypt C) d (calls (cbc_encrypt C) e bs) = bs)
   \<and> (\<forall>s b. length b = n \<longrightarrow> length (fst (cbc_encrypt C s b)) = n \<and> length (fst (cbc_decrypt C s b)) = n)"

fun block_match :: "'st crypto \<Rightarrow> 'st block_cipher \<Rightarrow> 'st block_cipher \<Rightarrow> bool" where
  "block_match C (StreamBC s) (StreamBC s') = (s = s')"
| "block_match C (CbcBC n e _) (CbcBC n' _ d) = (n = n' \<and> (n = 8 \<or> n = 16) \<and> cbc_match C n e d)"
| "block_match C _ _ = False"

lemma cbc_match_step:
  assumes "cbc_match C n e d" "length b = n"
  shows "fst (cbc_decrypt C d (fst (cbc_encrypt C e b))) = b"
    "cbc_match C n (snd (cbc_encrypt C e b)) (snd (cbc_decrypt C d (fst (cbc_encrypt C e b))))"
proof -
  have all: "calls (cbc_decrypt C) d (calls (cbc_encrypt C) e (b # bs)) = b # bs"
    if "\<forall>c \<in> set bs. length c = n" for bs
    using assms that unfolding cbc_match_def by (metis set_ConsD)
  then show "fst (cbc_decrypt C d (fst (cbc_encrypt C e b))) = b" by (metis all calls.simps(2) empty_iff list.inject list.set(1))
  show "cbc_match C n (snd (cbc_encrypt C e b)) (snd (cbc_decrypt C d (fst (cbc_encrypt C e b))))"
    using all assms unfolding cbc_match_def by simp
qed

lemma chunks_short: "length data < n \<Longrightarrow> chunks_exact_mut n f s data = (data, s)"
  by (subst chunks_exact_mut.simps) simp

lemma chunks_step:
  assumes "0 < n" "n \<le> length data"
  shows "fst (chunks_exact_mut n f s data) = fst (f s (take n data))
      @ fst (chunks_exact_mut n f (snd (f s (take n data))) (drop n data))"
    "snd (chunks_exact_mut n f s data) = snd (chunks_exact_mut n f (snd (f s (take n data))) (drop n data))"
  using assms
  by (subst chunks_exact_mut.simps; simp add: not_less split: prod.split; simp add: split_beta)+

text \<open>Induction over whole blocks.\<close>

lemma blocks_induct [consumes 1, case_names short block]:
  assumes "0 < n"
    and "\<And>data. length data < n \<Longrightarrow> P data"
    and "\<And>b data. length b = n \<Longrightarrow> P data \<Longrightarrow> P (b @ data)"
  shows "P (data :: bytes)"
proof (induction data rule: length_induct)
  case (1 data)
  show ?case
  proof (cases "length data < n")
    case False
    then have "P (drop n data)" using 1 assms(1) by simp
    then have "P (take n data @ drop n data)" using False by (intro assms(3)) simp_all
    then show ?thesis by simp
  qed (rule assms(2))
qed

lemma chunks_length:
  assumes "0 < n" and f: "\<And>s b. length b = n \<Longrightarrow> length (fst (f s b)) = n"
  shows "length (fst (chunks_exact_mut n f s data)) = length data"
  using assms(1)
proof (induction data arbitrary: s rule: blocks_induct)
  case (block b data)
  then show ?case using assms(1) by (simp add: chunks_step f)
qed (simp add: chunks_short)

text \<open>The output for a whole number of leading blocks does not depend on what follows.\<close>

lemma chunks_prefix:
  assumes n: "0 < n" and f: "\<And>s b. length b = n \<Longrightarrow> length (fst (f s b)) = n"
    and "m * n \<le> length data"
  shows "fst (chunks_exact_mut n f s (take (m * n) data)) = take (m * n) (fst (chunks_exact_mut n f s data))"
  using assms(3)
proof (induction m arbitrary: s data)
  case 0
  then show ?case using n by (simp add: chunks_short)
next
  case (Suc m)
  have "length (fst (f s (take n data))) = n" using f Suc.prems by simp
  moreover have "m * n \<le> length (drop n data)" using Suc.prems by simp
  note Suc.IH [OF this, of "snd (f s (take n data))"]
  ultimately show ?case
    using Suc.prems n by (simp add: chunks_step min_def drop_take)
qed

lemma cbc_data:
  assumes "cbc_match C n e d" "0 < n"
  shows "fst (chunks_exact_mut n (cbc_decrypt C) d (fst (chunks_exact_mut n (cbc_encrypt C) e data))) = data
    \<and> cbc_match C n (snd (chunks_exact_mut n (cbc_encrypt C) e data))
        (snd (chunks_exact_mut n (cbc_decrypt C) d (fst (chunks_exact_mut n (cbc_encrypt C) e data))))"
  using assms(2,1)
proof (induction data arbitrary: e d rule: blocks_induct)
  case (short data)
  then show ?case by (simp add: chunks_short)
next
  case (block b data)
  have l: "length (fst (cbc_encrypt C e b)) = n" using block by (simp add: cbc_match_def)
  note s = cbc_match_step [OF block.prems block.hyps]
  show ?case
    using block.IH [OF s(2)] s(1) l block.hyps assms(2) by (simp add: chunks_step)
qed


lemma block_data:
  assumes C: "crypto_laws C" and m: "block_match C c c'"
  shows "length (fst (encrypt_data C c data)) = length data"
    and "fst (decrypt_data C c' (fst (encrypt_data C c data))) = data"
    and "block_match C (snd (encrypt_data C c data))
      (snd (decrypt_data C c' (fst (encrypt_data C c data))))"
    and "16 \<le> length data \<Longrightarrow>
      fst (decrypt_data C c' (take 16 (fst (encrypt_data C c data)))) = take 16 data"
proof -
  have "length (fst (encrypt_data C c data)) = length data
    \<and> fst (decrypt_data C c' (fst (encrypt_data C c data))) = data
    \<and> block_match C (snd (encrypt_data C c data)) (snd (decrypt_data C c' (fst (encrypt_data C c data))))
    \<and> (16 \<le> length data \<longrightarrow>
        fst (decrypt_data C c' (take 16 (fst (encrypt_data C c data)))) = take 16 data)"
    using m
  proof (cases rule: block_match.cases [of "(C, c, c')"])
    case (1 C s s')
    then show ?thesis using C m
      by (auto simp: crypto_laws_def split_beta)
  next
    case (2 C n e x n' y d)
    then have n: "n' = n" "n = 8 \<or> n = 16" and cm: "cbc_match C n e d" and n0: "0 < n" using m by auto
    have le: "length (fst (cbc_encrypt C s b)) = n" and ld: "length (fst (cbc_decrypt C s b)) = n"
      if "length b = n" for s b using cm that by (auto simp: cbc_match_def)
    have len: "length (fst (chunks_exact_mut n (cbc_encrypt C) e data)) = length data"
      by (rule chunks_length [OF n0 le])
    have "fst (chunks_exact_mut n (cbc_decrypt C) d (take 16 ct)) =
        take 16 (fst (chunks_exact_mut n (cbc_decrypt C) d ct))" if "16 \<le> length ct" for ct
      using chunks_prefix [OF n0 ld, where m = 1 and data = ct and s = d]
        chunks_prefix [OF n0 ld, where m = 2 and data = ct and s = d] n(2) that by auto
    then show ?thesis
      using 2 n cbc_data [OF cm n0, of data] len by (auto simp: split_beta)
  qed auto
  then show "length (fst (encrypt_data C c data)) = length data"
    and "fst (decrypt_data C c' (fst (encrypt_data C c data))) = data"
    and "block_match C (snd (encrypt_data C c data))
      (snd (decrypt_data C c' (fst (encrypt_data C c data))))"
    and "16 \<le> length data \<Longrightarrow>
      fst (decrypt_data C c' (take 16 (fst (encrypt_data C c data)))) = take 16 data"
    by blast+
qed

lemma split_tag_append: "length t = n \<Longrightarrow> split_tag n (ct @ t) = Ok (ct, t)"
  by (simp add: split_tag_def)

lemma slice_take: "n \<le> length s \<Longrightarrow> slice 0 n s = Ok (take n s)"
  by (simp add: slice_def)

lemma slice_from_drop: "n \<le> length s \<Longrightarrow> slice_from n s = Ok (drop n s)"
  by (simp add: slice_from_def)

lemma mac_compute_verify:
  assumes "crypto_laws C"
  shows "\<exists>t. mac_compute W C m n p (replicate (mac_len m) 0) = Ok t \<and> length t = mac_len m
    \<and> mac_verify W C m n p t"
  using assms
  by (cases m) (auto simp: crypto_laws_def crypto_mac_compute_def crypto_mac_verify_def Let_def)

lemma block_open_seal:
  assumes C: "crypto_laws C" and bm: "block_match C c c'" and len: "16 \<le> length plain"
  shows "\<exists>ct t d d'. seal_packet W C (BlockKey c m) n plain (replicate (mac_len m) 0) = Ok (ct, t, BlockKey d m)
    \<and> length ct = length plain \<and> length t = mac_len m
    \<and> decrypt_packet_length C (BlockKey c' m) n (take 16 ct) = Ok (take 4 plain)
    \<and> open_packet W C (BlockKey c' m) n (ct @ t) = Ok (plain @ t, drop 4 plain, BlockKey d' m)
    \<and> block_match C d d'"
proof (cases "is_etm m")
  case True
  let ?e = "encrypt_data C c (drop 4 plain)"
  let ?ct = "take 4 plain @ fst ?e"
  let ?d = "decrypt_data C c' (fst ?e)"
  obtain t where t: "mac_compute W C m n ?ct (replicate (mac_len m) 0) = Ok t" "length t = mac_len m"
    "mac_verify W C m n ?ct t" using mac_compute_verify [OF C] by blast
  note b = block_data [OF C bm, of "drop 4 plain"]
  have l: "length ?ct = length plain" using b(1) len by simp
  have "seal_packet W C (BlockKey c m) n plain (replicate (mac_len m) 0) = Ok (?ct, t, BlockKey (snd ?e) m)"
    using True len t(1) by (simp add: slice_from_drop split_beta Let_def)
  moreover have "decrypt_packet_length C (BlockKey c' m) n (take 16 ?ct) = Ok (take 4 plain)"
    using True len l by (simp add: slice_take)
  moreover have "open_packet W C (BlockKey c' m) n (?ct @ t) = Ok (plain @ t, drop 4 plain, BlockKey (snd ?d) m)"
  proof -
    have "drop 4 ?ct = fst ?e" "take 4 ?ct = take 4 plain" using len by simp_all
    moreover have "slice_from 4 ?ct = Ok (drop 4 ?ct)" using l len by (intro slice_from_drop) simp
    ultimately show ?thesis
      using True len t b(2) by (simp add: split_tag_append [OF t(2), of ?ct, simplified] split_beta Let_def)
  qed
  ultimately show ?thesis using l t(2) b(3) by blast
next
  case False
  let ?e = "encrypt_data C c plain"
  let ?d = "decrypt_data C c' (fst ?e)"
  obtain t where t: "mac_compute W C m n plain (replicate (mac_len m) 0) = Ok t" "length t = mac_len m"
    "mac_verify W C m n plain t" using mac_compute_verify [OF C] by blast
  note b = block_data [OF C bm, of plain]
  have "seal_packet W C (BlockKey c m) n plain (replicate (mac_len m) 0) = Ok (fst ?e, t, BlockKey (snd ?e) m)"
    using False t(1) by (simp add: split_beta Let_def)
  moreover have "decrypt_packet_length C (BlockKey c' m) n (take 16 (fst ?e)) = Ok (take 4 plain)"
    using False len b(1) b(4) [OF len] by (simp add: slice_take)
  moreover have "open_packet W C (BlockKey c' m) n (fst ?e @ t) = Ok (plain @ t, drop 4 plain, BlockKey (snd ?d) m)"
    using False t b(2) len by (simp add: split_tag_append slice_from_drop split_beta Let_def)
  ultimately show ?thesis using b(1,3) t(2) by blast
qed


interpretation clear: packet_cipher W C "\<lambda>sk ok. sk = ClearKey \<and> ok = ClearKey" for W C
  by unfold_locales (auto simp: opens_sealed_def array4_def slice_from_def)

interpretation block: packet_cipher W C
  "\<lambda>sk ok. crypto_laws C \<and> (\<exists>c c' m. sk = BlockKey c m \<and> ok = BlockKey c' m \<and> block_match C c c')"
  for W C
proof (unfold_locales, goal_cases)
  case (2 sk ok plain n)
  then obtain c c' m where k: "sk = BlockKey c m" "ok = BlockKey c' m" and b: "block_match C c c'"
    by blast
  have "crypto_laws C" "16 \<le> length plain" using 2 by simp_all
  with block_open_seal [OF _ b, of plain W m n] show ?case
    unfolding opens_sealed_def k packet_length_to_read.simps tag_len.simps by blast
qed auto

interpretation gcm: packet_cipher W C
  "\<lambda>sk ok. crypto_laws C \<and> (\<exists>k n. sk = GcmKey k n \<and> ok = GcmKey k n)" for W C
proof (unfold_locales, goal_cases)
  case (2 sk ok plain n)
  then obtain k i where k: "sk = GcmKey k i" "ok = GcmKey k i" and C: "crypto_laws C" by blast
  let ?s = "aead_seal C k (fst (nonce_advance i)) (take 4 plain) (drop 4 plain)"
  have a: "length (fst ?s) = length plain - 4" "length (snd ?s) = aead_tag_len C k"
    "aead_open C k (fst (nonce_advance i)) (take 4 plain) (fst ?s @ snd ?s) = Some (drop 4 plain)"
    using C by (simp_all add: crypto_laws_def)
  have l: "4 \<le> length plain" using 2 by simp
  have s: "seal_packet W C sk n plain (replicate (tag_len C sk) 0)
      = Ok (take 4 plain @ fst ?s, snd ?s, GcmKey k (snd (nonce_advance i)))"
    using l a(2) by (simp add: k slice_take slice_from_drop split_beta Let_def)
  have d: "decrypt_packet_length C ok n (take (packet_length_to_read ok) (take 4 plain @ fst ?s))
      = Ok (take 4 plain)"
    using l by (simp add: k array4_def)
  have o: "open_packet W C ok n ((take 4 plain @ fst ?s) @ snd ?s)
      = Ok (plain @ snd ?s, drop 4 plain, GcmKey k (snd (nonce_advance i)))"
  proof -
    have "take 4 (take 4 plain @ fst ?s @ snd ?s) = take 4 plain"
      "drop 4 (take 4 plain @ fst ?s @ snd ?s) = fst ?s @ snd ?s" using l by simp_all
    then show ?thesis
      using l a by (simp add: k slice_take slice_from_drop split_beta Let_def)
  qed
  show ?case
    unfolding opens_sealed_def using s d o C l a(1,2)
    by (intro exI conjI) (assumption | simp add: k)+
qed auto

interpretation chacha: packet_cipher W C
  "\<lambda>sk ok. crypto_laws C \<and> (\<exists>k. sk = ChachaKey k \<and> ok = ChachaKey k)" for W C
proof (unfold_locales, goal_cases)
  case (2 sk ok plain n)
  then obtain k where k: "sk = ChachaKey k" "ok = ChachaKey k" and C: "crypto_laws C" by blast
  let ?s = "chacha_seal C k n plain"
  have l: "4 \<le> length plain" using 2 by simp
  then have a: "length (fst ?s) = length plain" "length (snd ?s) = 16"
    "chacha_length C k n (take 4 (fst ?s)) = take 4 plain" "chacha_open C k n (fst ?s) (snd ?s) = Some plain"
    using C by (simp_all add: crypto_laws_def)
  show ?case
    using l a C by (simp add: opens_sealed_def k split_beta Let_def array4_def split_tag_append slice_from_drop)
qed auto

text \<open>All four together.\<close>

definition keys_match :: "'st crypto \<Rightarrow> 'st cipher_key \<Rightarrow> 'st cipher_key \<Rightarrow> bool" where
  "keys_match C sk ok \<longleftrightarrow>
     (case (sk, ok) of
        (ClearKey, ClearKey) \<Rightarrow> True
      | (BlockKey c m, BlockKey c' m') \<Rightarrow> m = m' \<and> block_match C c c'
      | (GcmKey k n, GcmKey k' n') \<Rightarrow> k = k' \<and> n = n'
      | (ChachaKey k, ChachaKey k') \<Rightarrow> k = k'
      | _ \<Rightarrow> False)"

lemma keys_match_cases:
  assumes "keys_match C sk ok"
  obtains "sk = ClearKey" "ok = ClearKey"
  | c c' m where "sk = BlockKey c m" "ok = BlockKey c' m" "block_match C c c'"
  | k n where "sk = GcmKey k n" "ok = GcmKey k n"
  | k where "sk = ChachaKey k" "ok = ChachaKey k"
  using assms by (cases sk; cases ok; auto simp: keys_match_def)

interpretation any: packet_cipher W C "\<lambda>sk ok. crypto_laws C \<and> keys_match C sk ok" for W C
proof (unfold_locales, goal_cases)
  case (1 sk ok)
  then show ?case by (auto elim!: keys_match_cases)
next
  case (2 sk ok plain n)
  then have C: "crypto_laws C" and km: "keys_match C sk ok" and len: "16 \<le> length plain"
    by simp_all
  from km show ?case
  proof (cases rule: keys_match_cases)
    case 1
    with len show ?thesis
      by (intro opens_sealed_mono [OF clear.open_seal]) (simp_all add: keys_match_def C)
  next
    case (2 c c' m)
    with C len show ?thesis
      by (intro opens_sealed_mono [OF block.open_seal]) (auto simp: keys_match_def)
  next
    case (3 k n)
    with C len show ?thesis
      by (intro opens_sealed_mono [OF gcm.open_seal]) (auto simp: keys_match_def)
  next
    case (4 k)
    with C len show ?thesis
      by (intro opens_sealed_mono [OF chacha.open_seal]) (auto simp: keys_match_def)
  qed
qed


section \<open>A concrete set of primitives\<close>

text \<open>An example for the parameter \<open>crypto\<close>: every cipher flips bits, every tag is a constant of the
  right length. It meets \<open>crypto_laws\<close>.\<close>

definition flip :: "bytes \<Rightarrow> bytes" where
  "flip s = map (\<lambda>b. 255 - b) s"

definition flip_crypto :: "unit crypto" where
  "flip_crypto = \<lparr>
     stream_apply = (\<lambda>s d. (flip d, s)), cbc_encrypt = (\<lambda>s d. (flip d, s)),
     cbc_decrypt = (\<lambda>s d. (flip d, s)), hmac = (\<lambda>h k m. replicate (hash_len h) 7),
     aead_seal = (\<lambda>k n a p. (flip p, replicate 16 9)),
     aead_open = (\<lambda>k n a s. if drop (length s - 16) s = replicate 16 9
       then Some (flip (take (length s - 16) s)) else None),
     aead_tag_len = (\<lambda>k. 16), chacha_length = (\<lambda>k n s. flip s),
     chacha_seal = (\<lambda>k n p. (flip p, replicate 16 9)),
     chacha_open = (\<lambda>k n s t. if t = replicate 16 9 then Some (flip s) else None) \<rparr>"

lemma flip_flip [simp]: "flip (flip s) = s"
  by (simp add: flip_def comp_def)

lemma length_flip [simp]: "length (flip s) = length s"
  by (simp add: flip_def)

lemma take_flip: "flip (take n s) = take n (flip s)"
  by (simp add: flip_def take_map)

lemma flip_crypto_laws: "crypto_laws flip_crypto"
  by (simp add: crypto_laws_def flip_crypto_def take_flip)

section \<open>Properties\<close>

text \<open>Property C4: a run of payloads written with a sealing key and read with the opening key of the
  other side comes back as it was, in order, whatever follows in the stream; both sides' sequence
  numbers have advanced by the number of packets and the keys still match. This holds for the clear
  cipher, the block and stream ciphers with either mode of authentication, AES-GCM and ChaCha20.\<close>

theorem packet_stream_roundtrip:
  assumes "ssh_wire W" "crypto_laws C" "keys_match C sk ok" "fills rnd"
    and "\<forall>p \<in> set ps. length p + 20 \<le> MAXIMUM_PACKET_LEN"
    and "seqn r = seqn b" "next_len r = 0"
  shows "\<exists>sent sk' ok' b' r'. write_packets W C rnd sk ps b = Ok (b', sk')
    \<and> buffer b' = buffer b @ sent \<and> seqn b' = seqn b + of_nat (length ps)
    \<and> read_packets W C ok (length ps) (sent @ rest) r = Ok (ps, rest, r', ok')
    \<and> seqn r' = seqn b' \<and> keys_match C sk' ok'"
proof -
  have "crypto_laws C \<and> keys_match C sk ok" using assms(2,3) ..
  from any.read_write_stream [OF assms(1,4) this assms(5-7)] show ?thesis by blast
qed

theorem packet_stream_roundtrip_witness:
  "\<exists>sent sk' ok' b' r'. write_packets rfc4251_wire flip_crypto (\<lambda>b. b) (GcmKey () (replicate 12 255)) [[5, 6], []]
       sshbuffer_new = Ok (b', sk')
    \<and> buffer b' = buffer sshbuffer_new @ sent \<and> seqn b' = seqn sshbuffer_new + of_nat (length [[5, 6], [] :: bytes])
    \<and> read_packets rfc4251_wire flip_crypto (GcmKey () (replicate 12 255)) (length [[5, 6], [] :: bytes])
        (sent @ [1]) sshbuffer_new = Ok ([[5, 6], []], [1], r', ok')
    \<and> seqn r' = seqn b' \<and> keys_match flip_crypto sk' ok'"
  by (rule packet_stream_roundtrip [OF rfc.ssh_wire_axioms flip_crypto_laws])
    (simp_all add: keys_match_def fills_def sshbuffer_new_def)

text \<open>The padding is between 4 and 255 bytes, makes the encrypted part a whole number of
  cipher blocks (of eight bytes in the clear), and no packet is shorter than sixteen bytes (RFC 4253,
  section 6).\<close>

theorem padding_wellformed:
  "4 \<le> padding_length k payload \<and> padding_length k payload \<le> 255
   \<and> (counted k + length payload + padding_length k payload) mod padding_unit k = 0
   \<and> 16 \<le> 5 + length payload + padding_length k payload"
  using padding_bounds [of k payload] whole_units [of k payload] packet_at_least_16 [of payload k]
  by simp

text \<open>The number that a nonce is, most significant byte first.\<close>

fun be_value :: "bytes \<Rightarrow> nat" where
  "be_value [] = 0"
| "be_value (b # bs) = unat b * 256 ^ length bs + be_value bs"

fun le_value :: "bytes \<Rightarrow> nat" where
  "le_value [] = 0"
| "le_value (b # bs) = unat b + 256 * le_value bs"

lemma le_value_append: "le_value (xs @ ys) = le_value xs + 256 ^ length xs * le_value ys"
  by (induction xs) (simp_all add: algebra_simps)

lemma be_value_rev: "be_value n = le_value (rev n)"
  by (induction n) (simp_all add: le_value_append)

lemma carry_step:
  fixes b :: u8 and c :: u16
  assumes "unat c \<le> 1"
  shows "unat (ucast (ucast b + c) :: u8) + 256 * unat (drop_bit 8 (ucast b + c)) = unat b + unat c"
    and "unat (drop_bit 8 (ucast b + c)) \<le> 1"
proof -
  have "unat b < 256" using unsigned_less [of b] by simp
  then have s: "unat (ucast b + c :: u16) = unat b + unat c"
    using assms by (simp add: unat_word_ariths unsigned_ucast_eq take_bit_nat_eq_self)
  have "unat (drop_bit 8 (ucast b + c)) = (unat b + unat c) div 256"
    by (simp add: drop_bit_eq_div unat_div s)
  moreover have "unat (ucast (ucast b + c) :: u8) = (unat b + unat c) mod 256"
    by (simp add: unsigned_ucast_eq s take_bit_eq_mod)
  ultimately show "unat (ucast (ucast b + c) :: u8) + 256 * unat (drop_bit 8 (ucast b + c)) = unat b + unat c"
    "unat (drop_bit 8 (ucast b + c)) \<le> 1"
    using \<open>unat b < 256\<close> assms by simp_all
qed

lemma digit_mod: "s < 256 \<Longrightarrow> s + 256 * (x mod m) = (s + 256 * x) mod (256 * m)" for s x m :: nat
  by (simp add: mod_mult2_eq)

lemma add_carry_value:
  "unat c \<le> 1 \<Longrightarrow> le_value (add_carry n c) = (le_value n + unat c) mod 256 ^ length n
    \<and> length (add_carry n c) = length n"
proof (induction n arbitrary: c)
  case (Cons b n)
  let ?n = "ucast b + c :: u16"
  have ih: "le_value (add_carry n (drop_bit 8 ?n)) = (le_value n + unat (drop_bit 8 ?n)) mod 256 ^ length n"
    "length (add_carry n (drop_bit 8 ?n)) = length n"
    using Cons.IH [OF carry_step(2) [OF Cons.prems]] by simp_all
  have small: "unat (ucast ?n :: u8) < 256" using unsigned_less [of "ucast ?n :: u8"] by simp
  have "le_value (add_carry (b # n) c)
      = unat (ucast ?n :: u8) + 256 * ((le_value n + unat (drop_bit 8 ?n)) mod 256 ^ length n)"
    by (simp add: ih Let_def)
  also have "\<dots> = (unat (ucast ?n :: u8) + 256 * (le_value n + unat (drop_bit 8 ?n))) mod (256 * 256 ^ length n)"
    by (rule digit_mod [OF small])
  also have "unat (ucast ?n :: u8) + 256 * (le_value n + unat (drop_bit 8 ?n)) = le_value (b # n) + unat c"
    using carry_step(1) [OF Cons.prems, of b] by simp
  finally show ?case using ih by (simp add: Let_def)
qed simp

text \<open>\<open>Nonce::advance\<close> hands out the nonce it held and counts it up by one, big-endian,
  modulo the width of the nonce: no nonce is used twice before the counter has wrapped.\<close>

theorem nonce_advance_counts:
  "fst (nonce_advance n) = n
   \<and> be_value (snd (nonce_advance n)) = (be_value n + 1) mod 256 ^ length n
   \<and> length (snd (nonce_advance n)) = length n"
  using add_carry_value [of 1 "rev n"] by (simp add: nonce_advance_def be_value_rev)


text \<open>A packet whose length field exceeds 256 KiB is refused with \<open>PacketSize\<close> before any
  of its body is read; any other length is accepted, and the buffer then grows to exactly that length,
  the length field and the tag.\<close>

theorem packet_size_limit:
  assumes "next_len r = 0" "packet_length_to_read k \<le> length stream"
    and "decrypt_packet_length C k (seqn r) (take (packet_length_to_read k) stream) = Ok len4"
    and "length len4 = 4"
  shows "(MAXIMUM_PACKET_LEN < unat (be_get W len4) \<longrightarrow>
            read_packet W C k stream r = Err (PacketSize (unat (be_get W len4))))
    \<and> (unat (be_get W len4) \<le> MAXIMUM_PACKET_LEN \<longrightarrow>
            read_length W C k stream r = Ok (drop (packet_length_to_read k) stream,
              r\<lparr>buffer := take (packet_length_to_read k) stream,
                next_len := unat (be_get W len4) + tag_len C k\<rparr>))"
  using assms by (simp add: read_packet_def read_length_def read_exact_def be_read_u32_def)

theorem packet_size_limit_witness:
  "read_packet rfc4251_wire flip_crypto ClearKey [0, 4, 0, 1, 0, 0] sshbuffer_new = Err (PacketSize 262145)"
proof -
  have g: "unat (be_get rfc4251_wire [0, 4, 0, 1]) = 262145"
    by (simp add: rfc4251_wire_def)
  show ?thesis
    using packet_size_limit [of sshbuffer_new ClearKey "[0, 4, 0, 1, 0, 0]" flip_crypto "[0, 4, 0, 1]"
        rfc4251_wire] g
    by (simp add: sshbuffer_new_def array4_def)
qed

text \<open>What \<open>read\<close> hands on: the length field, and of the plain text all but the padding.\<close>

definition padding_of :: "bytes \<Rightarrow> nat" where
  "padding_of plain = (case first plain of None \<Rightarrow> 0 | Some x \<Rightarrow> unat x)"

lemma open_packet_buffer:
  assumes "open_packet W C k n s = Ok (buf, plain, k')"
  shows "4 + length plain \<le> length buf \<and> take (length plain) (drop 4 buf) = plain"
  using assms
proof (cases k)
  case (BlockKey c m)
  then show ?thesis
    using assms by (cases "is_etm m") (auto simp: outcome_simps slice_from_def Let_def split_beta split: if_splits)
qed (use assms in \<open>auto simp: outcome_simps slice_from_def slice_def Let_def split_beta split: if_splits option.splits\<close>)

lemma delivered:
  assumes "4 + length plain \<le> length buf" "take (length plain) (drop 4 buf) = plain" "m \<le> length plain"
  shows "drop 4 (list_resize (m + 4) buf) = take m plain"
proof -
  have "drop 4 (list_resize (m + 4) buf) = take m (drop 4 buf)"
    using assms(1,3) by (simp add: list_resize_def drop_take)
  also have "\<dots> = take m (take (length plain) (drop 4 buf))" using assms(3) by simp
  finally show ?thesis using assms(2) by simp
qed

lemma read_body_Ok:
  assumes "read_body W C k stream b = Ok (n, rest, b', k')"
    and "buffer b = take (packet_length_to_read k) all" "stream = drop (packet_length_to_read k) all"
    and "packet_length_to_read k \<le> length all"
  obtains plain buf where "next_len b + 4 \<le> length all" "rest = drop (next_len b + 4) all"
    "open_packet W C k (seqn b) (take (next_len b + 4) all) = Ok (buf, plain, k')"
    "seqn b' = seqn b + 1" "next_len b' = 0" "packet_length_to_read k \<le> next_len b + 4"
    "padding_of plain \<le> length plain" "n = length plain - padding_of plain + 4"
    "drop 4 (buffer b') = take (length plain - padding_of plain) plain"
proof -
  let ?l = "packet_length_to_read k" and ?m = "next_len b + 4"
  let ?buf = "list_resize ?m (buffer b)"
  from assms(1) obtain s buf plain where l: "?l \<le> ?m"
    and ex: "read_exact (?m - ?l) stream = Ok (s, rest)"
    and op: "open_packet W C k (seqn b) (take ?l ?buf @ s) = Ok (buf, plain, k')"
    and b': "seqn b' = seqn b + 1" "next_len b' = 0" "padding_of plain \<le> length plain"
      "n = length plain - padding_of plain + 4" "buffer b' = list_resize (length plain - padding_of plain + 4) buf"
    by (auto simp: read_body_def Let_def outcome_simps slice_from_def padding_of_def split: if_splits prod.splits)
  have d: "drop 4 (buffer b') = take (length plain - padding_of plain) plain"
    unfolding b'(5) using open_packet_buffer [OF op] by (intro delivered) simp_all
  have "take ?l ?buf = take ?l all"
    using l assms(2,4) by (simp add: list_resize_def)
  moreover have "?m \<le> length all" "s = take (?m - ?l) (drop ?l all)" "rest = drop ?m all"
    using ex l assms(3,4) by (auto simp: read_exact_def split: if_splits)
  moreover have "take ?l all @ take (?m - ?l) (drop ?l all) = take ?m all"
    using l by (metis add_diff_inverse_nat not_le take_add)
  ultimately show thesis using op b' l d that by simp
qed

lemma read_length_Ok:
  assumes "read_length W C k stream r = Ok (s, r1)" "next_len r = 0"
  obtains len4 where "decrypt_packet_length C k (seqn r) (take (packet_length_to_read k) stream) = Ok len4"
    "next_len r1 = unat (be_get W (take 4 len4)) + tag_len C k" "seqn r1 = seqn r"
    "buffer r1 = take (packet_length_to_read k) stream" "s = drop (packet_length_to_read k) stream"
    "packet_length_to_read k \<le> length stream"
proof -
  let ?l = "packet_length_to_read k"
  from assms have le: "?l \<le> length stream" by (auto simp: read_length_def read_exact_def split: if_splits)
  with assms obtain len4 where d: "decrypt_packet_length C k (seqn r) (take ?l stream) = Ok len4"
    by (auto simp: read_length_def read_exact_def outcome_simps Let_def)
  with assms le d show thesis
    by (intro that [of len4]) (auto simp: read_length_def read_exact_def be_read_u32_def split: if_splits)
qed

text \<open>The keys that authenticate, all but \<open>none\<close> and a block cipher under the MAC \<open>none\<close>, and what they
  check of a packet before \<open>plain\<close> (all of it after the length field) is taken from it.\<close>

fun authenticating :: "'st cipher_key \<Rightarrow> bool" where
  "authenticating ClearKey = False"
| "authenticating (BlockKey c m) = (m \<noteq> NoMac)"
| "authenticating (GcmKey k nonce) = True"
| "authenticating (ChachaKey k) = True"

fun mac_of :: "'st crypto \<Rightarrow> mac \<Rightarrow> bytes \<Rightarrow> bytes" where
  "mac_of C NoMac msg = []"
| "mac_of C (CryptoMac h key) msg = hmac C h key msg"
| "mac_of C (CryptoEtmMac h key) msg = hmac C h key msg"

fun authentic ::
    "wire \<Rightarrow> 'st crypto \<Rightarrow> 'st cipher_key \<Rightarrow> u32 \<Rightarrow> bytes \<Rightarrow> bytes \<Rightarrow> bytes \<Rightarrow> 'st cipher_key \<Rightarrow> bool" where
  "authentic W C ClearKey n body tag plain k' = False"
| "authentic W C (BlockKey c m) n body tag plain k' =
     (if is_etm m
      then tag = mac_of C m (be_put W n @ body)
        \<and> plain = fst (decrypt_data C c (drop 4 body))
        \<and> k' = BlockKey (snd (decrypt_data C c (drop 4 body))) m
      else tag = mac_of C m (be_put W n @ fst (decrypt_data C c body))
        \<and> plain = drop 4 (fst (decrypt_data C c body))
        \<and> k' = BlockKey (snd (decrypt_data C c body)) m)"
| "authentic W C (GcmKey k nonce) n body tag plain k' =
     (aead_open C k nonce (take 4 body) (drop 4 body @ tag) = Some plain \<and> k' = GcmKey k (snd (nonce_advance nonce)))"
| "authentic W C (ChachaKey k) n body tag plain k' =
     (case chacha_open C k n body tag of
        None \<Rightarrow> False
      | Some packet \<Rightarrow> 4 \<le> length packet \<and> plain = drop 4 packet \<and> k' = ChachaKey k)"

lemma open_authentic:
  assumes "open_packet W C k n s = Ok (buf, plain, k')" "authenticating k" "tag_len C k + 4 \<le> length s"
  shows "authentic W C k n (take (length s - tag_len C k) s) (drop (length s - tag_len C k) s) plain k'"
proof (cases k)
  case (BlockKey c m)
  then show ?thesis
    using assms by (cases m)
      (auto simp: outcome_simps split_tag_def slice_from_def crypto_mac_verify_def split_beta Let_def split: if_splits)
next
  case (GcmKey key nonce)
  have d: "drop 4 (take (length s - tag_len C k) s) @ drop (length s - tag_len C k) s = drop 4 s"
    if "4 \<le> length s - tag_len C k"
    using that append_take_drop_id [of "length s - tag_len C k" s]
    by (metis drop_append length_take min.absorb2 diff_is_0_eq drop_0 diff_le_self)
  have e: "take 4 (take (length s - tag_len C k) s) = take 4 s" "4 \<le> length s - tag_len C k"
    using assms(3) by simp_all
  note e = e(1) d [OF e(2)]
  show ?thesis
    using assms e by (auto simp: GcmKey outcome_simps slice_def slice_from_def nonce_advance_def split: option.splits)
next
  case (ChachaKey key)
  then show ?thesis
    using assms by (auto simp: outcome_simps split_tag_def slice_from_def split: option.splits if_splits)
qed (use assms in simp)

text \<open>Property C17: under every cipher that authenticates (AES-GCM, ChaCha20, and the block and stream
  ciphers with any MAC but \<open>none\<close>), a packet is accepted only when the authentication of its body holds for
  the reader's own sequence number, or nonce counter for AES-GCM: the code of the cipher text with
  encrypt-then-mac, of the plain text with encrypt-and-mac, the tag of the AEAD. What is taken from the
  stream is as long as the length field says, what is delivered is the plain text that was authenticated
  without its padding, and the sequence number has advanced by one and the key to its next state.\<close>

theorem accepted_packet_authenticated:
  assumes "read_packet W C k stream r = Ok (n, rest, r', k')" "next_len r = 0" "authenticating k"
  shows "\<exists>body tag plain len4. stream = body @ tag @ rest \<and> length tag = tag_len C k
    \<and> decrypt_packet_length C k (seqn r) (take (packet_length_to_read k) stream) = Ok len4
    \<and> length body = 4 + unat (be_get W (take 4 len4))
    \<and> authentic W C k (seqn r) body tag plain k'
    \<and> drop 4 (buffer r') = take (length plain - padding_of plain) plain
    \<and> n = length (drop 4 (buffer r')) + 4 \<and> padding_of plain \<le> length plain
    \<and> seqn r' = seqn r + 1 \<and> next_len r' = 0"
proof -
  let ?l = "packet_length_to_read k"
  obtain s r1 where rl: "read_length W C k stream r = Ok (s, r1)" and rb: "read_body W C k s r1 = Ok (n, rest, r', k')"
    using assms(1) by (auto simp: read_packet_def outcome_simps)
  obtain len4 where len: "decrypt_packet_length C k (seqn r) (take ?l stream) = Ok len4"
    "next_len r1 = unat (be_get W (take 4 len4)) + tag_len C k" "seqn r1 = seqn r" "buffer r1 = take ?l stream"
    "s = drop ?l stream" "?l \<le> length stream"
    by (rule read_length_Ok [OF rl assms(2)])
  obtain plain buf where m: "next_len r1 + 4 \<le> length stream" "rest = drop (next_len r1 + 4) stream"
    and op: "open_packet W C k (seqn r) (take (next_len r1 + 4) stream) = Ok (buf, plain, k')"
    and r': "seqn r' = seqn r + 1" "next_len r' = 0" "padding_of plain \<le> length plain"
      "n = length plain - padding_of plain + 4" "drop 4 (buffer r') = take (length plain - padding_of plain) plain"
    by (rule read_body_Ok [OF rb len(4-6)]) (simp add: len(3))
  let ?p = "take (next_len r1 + 4) stream"
  have lp: "length ?p = next_len r1 + 4" using m(1) by simp
  have t: "tag_len C k + 4 \<le> length ?p" using lp len(2) by linarith
  let ?body = "take (length ?p - tag_len C k) ?p" and ?tag = "drop (length ?p - tag_len C k) ?p"
  have "?body @ ?tag @ rest = (?body @ ?tag) @ rest" by (rule append_assoc [symmetric])
  also have "\<dots> = stream" by (simp only: append_take_drop_id m(2))
  finally have "stream = ?body @ ?tag @ rest" by (rule sym)
  moreover have "length ?tag = tag_len C k" "length ?body = 4 + unat (be_get W (take 4 len4))"
    unfolding length_drop length_take lp using t len(2) lp by simp_all
  moreover have "n = length (drop 4 (buffer r')) + 4" using r' by simp
  ultimately show ?thesis
    using open_authentic [OF op assms(3) t] r' len(1) by blast
qed

theorem accepted_packet_authenticated_witness:
  "(\<exists>stream n r' k' body tag plain. read_packet rfc4251_wire flip_crypto (BlockKey (StreamBC ()) (CryptoMac Sha1 [])) stream
        sshbuffer_new = Ok (n, [1], r', k')
      \<and> stream = body @ tag @ [1] \<and> authentic rfc4251_wire flip_crypto (BlockKey (StreamBC ()) (CryptoMac Sha1 [])) 0 body tag plain k'
      \<and> drop 4 (buffer r') = take (length plain - padding_of plain) plain \<and> drop 5 (buffer r') = [1, 2, 3])
   \<and> (\<exists>stream n r' k' body tag plain. read_packet rfc4251_wire flip_crypto (GcmKey () (replicate 12 255)) stream
        sshbuffer_new = Ok (n, [1], r', k')
      \<and> stream = body @ tag @ [1] \<and> authentic rfc4251_wire flip_crypto (GcmKey () (replicate 12 255)) 0 body tag plain k'
      \<and> drop 4 (buffer r') = take (length plain - padding_of plain) plain \<and> drop 5 (buffer r') = [1, 2, 3])"
proof -
  have "\<exists>stream n r' k' body tag plain. read_packet rfc4251_wire flip_crypto k stream sshbuffer_new = Ok (n, [1], r', k')
      \<and> stream = body @ tag @ [1] \<and> authentic rfc4251_wire flip_crypto k 0 body tag plain k'
      \<and> drop 4 (buffer r') = take (length plain - padding_of plain) plain \<and> drop 5 (buffer r') = [1, 2, 3]"
    if k: "keys_match flip_crypto k k" "authenticating k" for k :: "unit cipher_key"
  proof -
    have "crypto_laws flip_crypto \<and> keys_match flip_crypto k k" using k(1) flip_crypto_laws by simp
    from any.read_write [OF rfc.ssh_wire_axioms _ this, of "\<lambda>b. b" "[1, 2, 3]" sshbuffer_new sshbuffer_new]
    obtain packet r' k' where r: "read_packet rfc4251_wire flip_crypto k (packet @ [1]) sshbuffer_new = Ok (8, [1], r', k')"
      "drop 5 (buffer r') = [1, 2, 3]"
      by (fastforce simp: fills_def sshbuffer_new_def)
    from accepted_packet_authenticated [OF r(1) _ k(2)] r show ?thesis
      by (auto simp: sshbuffer_new_def) blast
  qed
  from this [of "BlockKey (StreamBC ()) (CryptoMac Sha1 [])"] this [of "GcmKey () (replicate 12 255)"] show ?thesis
    by (simp add: keys_match_def)
qed

end
