(* ===== verification/Compression.thy ===== *)
theory Compression
  imports Prelude
begin

text \<open>
  \<open>compression.rs\<close>. The state of a zlib stream and one call into the \<open>flate2\<close> crate are parameters
  (record \<open>flate\<close>); the buffer loops around that call, which double the output space until the
  stream is content, are the code's. They need not end for an arbitrary stream, so they are
  partial functions.
\<close>

datatype compression = NoCompression | Zlib

datatype 'z compressor = CompressNone | CompressZlib 'z
datatype 'z decompressor = DecompressNone | DecompressZlib 'z

datatype flate_status = StatusOk | BufError | StreamEnd

text \<open>One call: the input left, the output space left; on success the status, how much input it took,
  the bytes it produced and the stream after it. \<open>None\<close> is \<open>Err\<close>.\<close>

record 'z flate =
  fl_compress :: "'z \<Rightarrow> bytes \<Rightarrow> nat \<Rightarrow> (flate_status \<times> nat \<times> bytes \<times> 'z) option"
  fl_decompress :: "'z \<Rightarrow> bytes \<Rightarrow> nat \<Rightarrow> (flate_status \<times> nat \<times> bytes \<times> 'z) option"
  fl_new_compress :: 'z
  fl_new_decompress :: 'z
  fl_reset_compress :: "'z \<Rightarrow> 'z"
  fl_reset_decompress :: "'z \<Rightarrow> 'z"

definition compression_new :: "string \<Rightarrow> compression" where
  "compression_new name = (if name = ''zlib'' \<or> name = ''zlib@openssh.com'' then Zlib else NoCompression)"

fun init_compress :: "'z flate \<Rightarrow> compression \<Rightarrow> 'z compressor \<Rightarrow> 'z compressor" where
  "init_compress Z Zlib (CompressZlib c) = CompressZlib (fl_reset_compress Z c)"
| "init_compress Z Zlib CompressNone = CompressZlib (fl_new_compress Z)"
| "init_compress Z NoCompression _ = CompressNone"

fun init_decompress :: "'z flate \<Rightarrow> compression \<Rightarrow> 'z decompressor \<Rightarrow> 'z decompressor" where
  "init_decompress Z Zlib (DecompressZlib c) = DecompressZlib (fl_reset_decompress Z c)"
| "init_decompress Z Zlib DecompressNone = DecompressZlib (fl_new_decompress Z)"
| "init_decompress Z NoCompression _ = DecompressNone"

text \<open>The loops: \<open>n_in\<close> input bytes taken, \<open>out\<close> produced, \<open>space\<close> bytes of buffer.\<close>

partial_function (option) compress_loop ::
    "'z flate \<Rightarrow> bytes \<Rightarrow> 'z \<Rightarrow> nat \<Rightarrow> bytes \<Rightarrow> nat \<Rightarrow> (bytes \<times> 'z) rs option" where
  "compress_loop Z input z n_in out space =
     (case slice_from n_in input of
        Ok rest \<Rightarrow>
          (case fl_compress Z z rest (space - length out) of
             None \<Rightarrow> Some (Err CompressError)
           | Some (status, k, produced, z') \<Rightarrow>
               if status = BufError
               then compress_loop Z input z' (n_in + k) (out @ produced) (space * 2)
               else Some (Ok (out @ produced, z')))
      | _ \<Rightarrow> Some Panic)"

partial_function (option) decompress_loop ::
    "'z flate \<Rightarrow> bytes \<Rightarrow> 'z \<Rightarrow> nat \<Rightarrow> bytes \<Rightarrow> nat \<Rightarrow> (bytes \<times> 'z) rs option" where
  "decompress_loop Z input z n_in out space =
     (case slice_from n_in input of
        Ok rest \<Rightarrow>
          (case fl_decompress Z z rest (space - length out) of
             None \<Rightarrow> Some (Err DecompressError)
           | Some (status, k, produced, z') \<Rightarrow>
               if status = StatusOk
               then decompress_loop Z input z' (n_in + k) (out @ produced) (space * 2)
               else Some (Ok (out @ produced, z')))
      | _ \<Rightarrow> Some Panic)"

fun compress :: "'z flate \<Rightarrow> 'z compressor \<Rightarrow> bytes \<Rightarrow> (bytes \<times> 'z compressor) rs" where
  "compress Z CompressNone input = Ok (input, CompressNone)"
| "compress Z (CompressZlib z) input =
     and_then (and_then (or_diverge (compress_loop Z input z 0 [] (length input + 10))) (\<lambda>r. r))
       (\<lambda>(out, z). Ok (out, CompressZlib z))"

fun decompress :: "'z flate \<Rightarrow> 'z decompressor \<Rightarrow> bytes \<Rightarrow> (bytes \<times> 'z decompressor) rs" where
  "decompress Z DecompressNone input = Ok (input, DecompressNone)"
| "decompress Z (DecompressZlib z) input =
     and_then (and_then (or_diverge (decompress_loop Z input z 0 [] (length input))) (\<lambda>r. r))
       (\<lambda>(out, z). Ok (out, DecompressZlib z))"

lemma init_compress_none: "init_compress Z NoCompression c = CompressNone"
  by simp

end
