(* ===== verification/SshBuffer.thy ===== *)
theory SshBuffer
  imports PacketCipher Compression
begin

text \<open>
  \<open>sshbuffer.rs\<close>: the identification string and the \<open>PacketWriter\<close>, through which every outgoing
  message is compressed, padded and sealed into the buffer that is flushed to the socket.
\<close>

section \<open>The identification string\<close>

datatype ssh_id = Standard string | Raw string

text \<open>\<open>s.trim_end_matches(['\n', '\r'])\<close>.\<close>

definition LF :: char where [simp, code_unfold]: "LF = CHR 0x0A"
definition CR :: char where [simp, code_unfold]: "CR = CHR 0x0D"

definition trim_end_newlines :: "string \<Rightarrow> string" where
  "trim_end_newlines s = rev (dropWhile (\<lambda>c. c = LF \<or> c = CR) (rev s))"

fun as_kex_hash_bytes :: "ssh_id \<Rightarrow> bytes" where
  "as_kex_hash_bytes (Standard s) = as_bytes s"
| "as_kex_hash_bytes (Raw s) = as_bytes (trim_end_newlines s)"

fun ssh_id_write :: "ssh_id \<Rightarrow> bytes \<Rightarrow> bytes" where
  "ssh_id_write (Standard s) buf = buf @ as_bytes (s @ [CR, LF])"
| "ssh_id_write (Raw s) buf = buf @ as_bytes s"

definition send_ssh_id :: "ssh_id \<Rightarrow> sshbuffer \<Rightarrow> sshbuffer" where
  "send_ssh_id i b = b\<lparr>buffer := ssh_id_write i (buffer b)\<rparr>"

text \<open>What is hashed is what is sent, less line ends.\<close>

lemma ssh_id_write_hash:
  "\<exists>eol. ssh_id_write i [] = as_kex_hash_bytes i @ eol
    \<and> set eol \<subseteq> {of_char CR, of_char LF}"
proof (cases i)
  case (Raw t)
  let ?p = "\<lambda>c. c = LF \<or> c = CR"
  have "t = trim_end_newlines t @ rev (takeWhile ?p (rev t))"
    unfolding trim_end_newlines_def by (metis rev_append rev_rev_ident takeWhile_dropWhile_id)
  then have "as_bytes t = as_bytes (trim_end_newlines t) @ as_bytes (rev (takeWhile ?p (rev t)))"
    by (metis as_bytes_append)
  moreover have "set (as_bytes (rev (takeWhile ?p (rev t)))) \<subseteq> {of_char CR, of_char LF}"
    by (auto simp: as_bytes_def dest: set_takeWhileD)
  ultimately show ?thesis using Raw by auto
qed (auto simp: as_bytes_def)

section \<open>The packet writer\<close>

text \<open>The crates that the session code rests on, as one parameter: the encoding, the cryptographic
  primitives, compression and the random generator.\<close>

record ('st, 'z) crates =
  wire_of :: wire
  crypto_of :: "'st crypto"
  flate_of :: "'z flate"
  fill_bytes :: "bytes \<Rightarrow> bytes"

text \<open>\<open>compress_buffer\<close> is scratch space of one call and is not part of the state.\<close>

record ('st, 'z) packet_writer =
  pw_cipher :: "'st cipher_key"
  pw_compress :: "'z compressor"
  write_buffer :: sshbuffer

definition packet_writer_new :: "'st cipher_key \<Rightarrow> 'z compressor \<Rightarrow> ('st, 'z) packet_writer" where
  "packet_writer_new k z =
     \<lparr>pw_cipher = k, pw_compress = z, write_buffer = sshbuffer_new\<rparr>"

definition packet_writer_clear :: "('st, 'z) packet_writer" where
  "packet_writer_clear = packet_writer_new ClearKey CompressNone"

definition packet_raw ::
    "('st, 'z) crates \<Rightarrow> bytes \<Rightarrow> ('st, 'z) packet_writer \<Rightarrow> ('st, 'z) packet_writer rs" where
  "packet_raw E buf w =
     (case first buf of
        None \<Rightarrow> Ok w
      | Some message_type \<Rightarrow>
          and_then (compress (flate_of E) (pw_compress w) buf) (\<lambda>(packet, z).
            and_then (write_packet (wire_of E) (crypto_of E) (fill_bytes E) (pw_cipher w) packet (write_buffer w))
              (\<lambda>(b, k). Ok (w\<lparr>pw_compress := z, write_buffer := b, pw_cipher := k\<rparr>))))"

text \<open>\<open>packet(f)\<close>: what \<open>f\<close> writes into an empty buffer is sent and returned.\<close>

definition packet ::
    "('st, 'z) crates \<Rightarrow> bytes rs list \<Rightarrow> ('st, 'z) packet_writer \<Rightarrow> (bytes \<times> ('st, 'z) packet_writer) rs"
where
  "packet E f w = and_then (puts f []) (\<lambda>buf. and_then (packet_raw E buf w) (\<lambda>w. Ok (buf, w)))"

definition set_cipher :: "'st cipher_key \<Rightarrow> ('st, 'z) packet_writer \<Rightarrow> ('st, 'z) packet_writer" where
  "set_cipher k w = w\<lparr>pw_cipher := k\<rparr>"

definition pw_reset_seqn :: "('st, 'z) packet_writer \<Rightarrow> ('st, 'z) packet_writer" where
  "pw_reset_seqn w = w\<lparr>write_buffer := (write_buffer w)\<lparr>seqn := 0\<rparr>\<rparr>"

text \<open>\<open>flush_into\<close>: the bytes handed to the socket (in one \<open>write_all\<close>) and the writer after it.\<close>

definition flush_into :: "('st, 'z) packet_writer \<Rightarrow> bytes \<times> ('st, 'z) packet_writer" where
  "flush_into w =
     (if buffer (write_buffer w) \<noteq> []
      then (buffer (write_buffer w), w\<lparr>write_buffer := (write_buffer w)\<lparr>buffer := []\<rparr>\<rparr>)
      else ([], w))"

section \<open>Lemmas\<close>

text \<open>Without compression \<open>packet_raw\<close> is \<open>write_packet\<close>.\<close>

lemma packet_raw_plain:
  assumes "pw_compress w = CompressNone" "p \<noteq> []"
  shows "packet_raw E p w =
    and_then (write_packet (wire_of E) (crypto_of E) (fill_bytes E) (pw_cipher w) p (write_buffer w))
      (\<lambda>(b, k). Ok (w\<lparr>write_buffer := b, pw_cipher := k\<rparr>))"
  using assms by (cases w; cases p) (simp_all add: packet_raw_def)

lemma flush_into_all: "fst (flush_into w) = buffer (write_buffer w)"
  by (simp add: flush_into_def)

lemma flush_into_keeps: "seqn (write_buffer (snd (flush_into w))) = seqn (write_buffer w)"
  "pw_cipher (snd (flush_into w)) = pw_cipher w"
  by (simp_all add: flush_into_def)

end
