(* ===== verification/Auth.thy ===== *)
theory Auth
  imports Wire
begin

text \<open>
  \<open>auth.rs\<close> and \<open>helpers.rs\<close>: authentication methods, the ordered set of methods that a side still
  offers, the state of an authentication, and the name lists that carry both methods and algorithms.
\<close>

section \<open>Name lists\<close>

text \<open>\<open>s.split(',')\<close> and \<open>v.join(",")\<close>.\<close>

fun split_comma :: "string \<Rightarrow> string list" where
  "split_comma [] = [[]]"
| "split_comma (c # s) =
     (if c = CHR '','' then [] # split_comma s
      else case split_comma s of [] \<Rightarrow> [[c]] | w # ws \<Rightarrow> (c # w) # ws)"

fun join_comma :: "string list \<Rightarrow> string" where
  "join_comma [] = []"
| "join_comma [s] = s"
| "join_comma (s # t # r) = s @ '','' @ join_comma (t # r)"

definition as_encoded_string :: "string list \<Rightarrow> string" where
  "as_encoded_string names = join_comma names"

definition from_encoded_string :: "string \<Rightarrow> string list" where
  "from_encoded_string s = split_comma s"

definition name_list_encode :: "wire \<Rightarrow> string list \<Rightarrow> bytes rs" where
  "name_list_encode W names = w_str W (as_encoded_string names)"

definition name_list_decode :: "wire \<Rightarrow> bytes \<Rightarrow> (string list \<times> bytes) rs" where
  "name_list_decode W s = and_then (r_str W s) (\<lambda>(t, r). Ok (from_encoded_string t, r))"

definition plain_name :: "string \<Rightarrow> bool" where
  "plain_name s \<longleftrightarrow> s \<noteq> [] \<and> CHR '','' \<notin> set s \<and> ascii s"

lemma split_comma_nonempty [simp]: "split_comma s \<noteq> []"
  by (induction s) (auto split: list.splits)

lemma split_comma_no_comma: "CHR '','' \<notin> set s \<Longrightarrow> split_comma s = [s]"
  by (induction s) auto

lemma split_comma_append:
  "CHR '','' \<notin> set s \<Longrightarrow> split_comma (s @ '','' @ t) = s # split_comma t"
  by (induction s) auto

lemma split_join: "names \<noteq> [] \<Longrightarrow> (\<forall>n \<in> set names. CHR '','' \<notin> set n) \<Longrightarrow> split_comma (join_comma names) = names"
proof (induction names rule: join_comma.induct)
  case (3 s t r)
  then show ?case using split_comma_append [of s "join_comma (t # r)"] by simp
qed (simp_all add: split_comma_no_comma)

lemma ascii_append [simp]: "ascii (s @ t) \<longleftrightarrow> ascii s \<and> ascii t"
  by (auto simp: ascii_def)

lemma ascii_Nil [simp]: "ascii []"
  by (simp add: ascii_def)

lemma ascii_join: "\<forall>n \<in> set names. ascii n \<Longrightarrow> ascii (join_comma names)"
  by (induction names rule: join_comma.induct) (auto simp: ascii_def)

lemma as_encoded_string_ascii: "\<forall>n \<in> set names. plain_name n \<Longrightarrow> ascii (as_encoded_string names)"
  by (simp add: as_encoded_string_def ascii_join plain_name_def)

text \<open>What a peer reads back: the names, or one empty name where there were none.\<close>

definition sent_names :: "string list \<Rightarrow> string list" where
  "sent_names names = (if names = [] then [[]] else names)"

lemma from_as_encoded_string:
  "\<forall>n \<in> set names. plain_name n \<Longrightarrow> from_encoded_string (as_encoded_string names) = sent_names names"
  by (simp add: from_encoded_string_def as_encoded_string_def sent_names_def split_join plain_name_def)

section \<open>Methods\<close>

datatype method_kind = MK_None | MK_Password | MK_PublicKey | MK_HostBased | MK_KeyboardInteractive

fun method_kind_str :: "method_kind \<Rightarrow> string" where
  "method_kind_str MK_None = ''none''"
| "method_kind_str MK_Password = ''password''"
| "method_kind_str MK_PublicKey = ''publickey''"
| "method_kind_str MK_HostBased = ''hostbased''"
| "method_kind_str MK_KeyboardInteractive = ''keyboard-interactive''"

definition method_kind_from_str :: "string \<Rightarrow> method_kind option" where
  "method_kind_from_str b =
     (if b = ''none'' then Some MK_None
      else if b = ''password'' then Some MK_Password
      else if b = ''publickey'' then Some MK_PublicKey
      else if b = ''hostbased'' then Some MK_HostBased
      else if b = ''keyboard-interactive'' then Some MK_KeyboardInteractive
      else None)"

type_synonym method_set = "method_kind list"

definition methods_to_names :: "method_set \<Rightarrow> string list" where
  "methods_to_names ms = map method_kind_str ms"

definition methods_from_names :: "string list \<Rightarrow> method_set" where
  "methods_from_names names = List.map_filter method_kind_from_str names"

definition all_methods :: method_set where
  "all_methods = [MK_None, MK_Password, MK_PublicKey, MK_HostBased, MK_KeyboardInteractive]"

definition methods_remove :: "method_kind \<Rightarrow> method_set \<Rightarrow> method_set" where
  "methods_remove m ms = filter (\<lambda>x. x \<noteq> m) ms"

definition methods_push :: "method_kind \<Rightarrow> method_set \<Rightarrow> method_set" where
  "methods_push m ms = methods_remove m ms @ [m]"

definition methods_from :: "method_kind list \<Rightarrow> method_set" where
  "methods_from ks = foldl (\<lambda>this m. methods_push m this) [] ks"

lemma method_kind_roundtrip: "method_kind_from_str (method_kind_str m) = Some m"
  by (cases m) (simp_all add: method_kind_from_str_def)

lemma methods_push_distinct: "distinct ms \<Longrightarrow> distinct (methods_push m ms)"
  by (simp add: methods_push_def methods_remove_def)

lemma methods_from_invariant:
  "distinct (methods_from ks) \<and> set (methods_from ks) = set ks"
proof -
  have "distinct ms \<Longrightarrow> distinct (foldl (\<lambda>this m. methods_push m this) ms ks)
      \<and> set (foldl (\<lambda>this m. methods_push m this) ms ks) = set ms \<union> set ks" for ms
    by (induction ks arbitrary: ms) (auto simp: methods_push_distinct methods_push_def methods_remove_def)
  from this [of "[]"] show ?thesis by (simp add: methods_from_def)
qed

lemma methods_names_roundtrip: "methods_from_names (methods_to_names ms) = ms"
  by (induction ms) (simp_all add: methods_from_names_def methods_to_names_def map_filter_simps
      method_kind_roundtrip)

lemma method_names_plain: "\<forall>n \<in> set (methods_to_names ms). plain_name n"
proof -
  have "plain_name (method_kind_str m)" for m
    by (cases m) (simp_all add: plain_name_def ascii_def)
  then show ?thesis by (auto simp: methods_to_names_def)
qed

section \<open>The state of an authentication\<close>

datatype current_request =
    CurrentPublicKey bytes bytes bool \<comment> \<open>key, algorithm, \<open>sent_pk_ok\<close>\<close>
  | CurrentKeyboardInteractive string

record auth_request =
  methods :: method_set
  partial_success :: bool
  current :: "current_request option"
  rejection_count :: nat

datatype auth_result = AuthSuccess | AuthFailure method_set bool

text \<open>A set of methods that one side encodes into a name list is the set that the other
  side decodes, in order; building it from any list of methods leaves each method once.\<close>

theorem method_set_roundtrip:
  assumes "ssh_wire W" "ms \<noteq> []" "length (as_encoded_string (methods_to_names ms)) < 2 ^ 32"
  shows "\<exists>s. name_list_encode W (methods_to_names ms) = Ok s
    \<and> and_then (name_list_decode W (s @ r)) (\<lambda>(names, r). Ok (methods_from_names names, r)) = Ok (ms, r)"
proof -
  let ?t = "as_encoded_string (methods_to_names ms)"
  have "ascii ?t" by (rule as_encoded_string_ascii [OF method_names_plain])
  then have "r_str W (be_put W (as_u32 (length ?t)) @ as_bytes ?t @ r) = Ok (?t, r)"
    using assms by (intro ssh_wire.get_str) simp_all
  then show ?thesis
    using assms from_as_encoded_string [OF method_names_plain, of ms]
    by (auto simp: name_list_encode_def name_list_decode_def ssh_wire.put_str ssh_wire.put_bytes
        sent_names_def methods_to_names_def methods_names_roundtrip [unfolded methods_to_names_def])
qed

theorem method_set_roundtrip_witness:
  "\<exists>s. name_list_encode rfc4251_wire (methods_to_names [MK_Password, MK_PublicKey]) = Ok s
    \<and> and_then (name_list_decode rfc4251_wire (s @ [1])) (\<lambda>(names, r). Ok (methods_from_names names, r))
      = Ok ([MK_Password, MK_PublicKey], [1])"
  by (rule method_set_roundtrip [OF rfc.ssh_wire_axioms])
    (simp_all add: as_encoded_string_def methods_to_names_def)

end
