(* ===== verification/Algorithms.thy ===== *)
theory Algorithms
  imports SshBuffer Auth
begin

text \<open>
  The tables of algorithms (\<open>kex/mod.rs\<close>, \<open>cipher/mod.rs\<close>, \<open>mac/mod.rs\<close>, \<open>compression.rs\<close>) and the
  part of \<open>kex/mod.rs\<close> that all key exchanges share: the encoding of a shared secret, the derivation of
  the six keys of a connection and the cause and progress of an exchange. The features of the crate
  are \<open>ring\<close>, \<open>rsa\<close> and \<open>flate2\<close>; \<open>des\<close> is off, as by default.
\<close>

unbundle bit_operations_syntax

section \<open>Names\<close>

definition CURVE25519 :: string where "CURVE25519 = ''curve25519-sha256''"
definition CURVE25519_PRE_RFC_8731 :: string where "CURVE25519_PRE_RFC_8731 = ''curve25519-sha256@libssh.org''"
definition MLKEM768X25519_SHA256 :: string where "MLKEM768X25519_SHA256 = ''mlkem768x25519-sha256''"
definition DH_GEX_SHA1 :: string where "DH_GEX_SHA1 = ''diffie-hellman-group-exchange-sha1''"
definition DH_GEX_SHA256 :: string where "DH_GEX_SHA256 = ''diffie-hellman-group-exchange-sha256''"
definition DH_G1_SHA1 :: string where "DH_G1_SHA1 = ''diffie-hellman-group1-sha1''"
definition DH_G14_SHA1 :: string where "DH_G14_SHA1 = ''diffie-hellman-group14-sha1''"
definition DH_G14_SHA256 :: string where "DH_G14_SHA256 = ''diffie-hellman-group14-sha256''"
definition DH_G15_SHA512 :: string where "DH_G15_SHA512 = ''diffie-hellman-group15-sha512''"
definition DH_G16_SHA512 :: string where "DH_G16_SHA512 = ''diffie-hellman-group16-sha512''"
definition DH_G17_SHA512 :: string where "DH_G17_SHA512 = ''diffie-hellman-group17-sha512''"
definition DH_G18_SHA512 :: string where "DH_G18_SHA512 = ''diffie-hellman-group18-sha512''"
definition ECDH_SHA2_NISTP256 :: string where "ECDH_SHA2_NISTP256 = ''ecdh-sha2-nistp256''"
definition ECDH_SHA2_NISTP384 :: string where "ECDH_SHA2_NISTP384 = ''ecdh-sha2-nistp384''"
definition ECDH_SHA2_NISTP521 :: string where "ECDH_SHA2_NISTP521 = ''ecdh-sha2-nistp521''"
definition NONE_NAME :: string where "NONE_NAME = ''none''"
definition EXTENSION_SUPPORT_AS_CLIENT :: string where "EXTENSION_SUPPORT_AS_CLIENT = ''ext-info-c''"
definition EXTENSION_SUPPORT_AS_SERVER :: string where "EXTENSION_SUPPORT_AS_SERVER = ''ext-info-s''"
definition STRICT_KEX_AS_CLIENT :: string where "STRICT_KEX_AS_CLIENT = ''kex-strict-c-v00@openssh.com''"
definition STRICT_KEX_AS_SERVER :: string where "STRICT_KEX_AS_SERVER = ''kex-strict-s-v00@openssh.com''"

lemmas kex_names = CURVE25519_def CURVE25519_PRE_RFC_8731_def MLKEM768X25519_SHA256_def DH_GEX_SHA1_def
  DH_GEX_SHA256_def DH_G1_SHA1_def DH_G14_SHA1_def DH_G14_SHA256_def DH_G15_SHA512_def DH_G16_SHA512_def
  DH_G17_SHA512_def DH_G18_SHA512_def ECDH_SHA2_NISTP256_def ECDH_SHA2_NISTP384_def
  ECDH_SHA2_NISTP521_def NONE_NAME_def

lemmas kex_extensions = EXTENSION_SUPPORT_AS_CLIENT_def EXTENSION_SUPPORT_AS_SERVER_def
  STRICT_KEX_AS_CLIENT_def STRICT_KEX_AS_SERVER_def

definition ALL_KEX_ALGORITHMS :: "string list" where
  "ALL_KEX_ALGORITHMS = [MLKEM768X25519_SHA256, CURVE25519, CURVE25519_PRE_RFC_8731, DH_GEX_SHA1,
     DH_GEX_SHA256, DH_G1_SHA1, DH_G14_SHA1, DH_G14_SHA256, DH_G15_SHA512, DH_G16_SHA512,
     DH_G17_SHA512, DH_G18_SHA512, ECDH_SHA2_NISTP256, ECDH_SHA2_NISTP384, ECDH_SHA2_NISTP521,
     NONE_NAME]"

definition kex_name_try_from :: "string \<Rightarrow> string option" where
  "kex_name_try_from s = find (\<lambda>x. x = s) ALL_KEX_ALGORITHMS"

definition CLEAR :: string where "CLEAR = ''clear''"
definition AES_128_CTR :: string where "AES_128_CTR = ''aes128-ctr''"
definition AES_192_CTR :: string where "AES_192_CTR = ''aes192-ctr''"
definition AES_256_CTR :: string where "AES_256_CTR = ''aes256-ctr''"
definition AES_128_CBC :: string where "AES_128_CBC = ''aes128-cbc''"
definition AES_192_CBC :: string where "AES_192_CBC = ''aes192-cbc''"
definition AES_256_CBC :: string where "AES_256_CBC = ''aes256-cbc''"
definition AES_128_GCM :: string where "AES_128_GCM = ''aes128-gcm@openssh.com''"
definition AES_256_GCM :: string where "AES_256_GCM = ''aes256-gcm@openssh.com''"
definition CHACHA20_POLY1305 :: string where "CHACHA20_POLY1305 = ''chacha20-poly1305@openssh.com''"

lemmas cipher_names = CLEAR_def AES_128_CTR_def AES_192_CTR_def AES_256_CTR_def AES_128_CBC_def
  AES_192_CBC_def AES_256_CBC_def AES_128_GCM_def AES_256_GCM_def CHACHA20_POLY1305_def NONE_NAME_def

definition HMAC_SHA1 :: string where "HMAC_SHA1 = ''hmac-sha1''"
definition HMAC_SHA256 :: string where "HMAC_SHA256 = ''hmac-sha2-256''"
definition HMAC_SHA512 :: string where "HMAC_SHA512 = ''hmac-sha2-512''"
definition HMAC_SHA1_ETM :: string where "HMAC_SHA1_ETM = ''hmac-sha1-etm@openssh.com''"
definition HMAC_SHA256_ETM :: string where "HMAC_SHA256_ETM = ''hmac-sha2-256-etm@openssh.com''"
definition HMAC_SHA512_ETM :: string where "HMAC_SHA512_ETM = ''hmac-sha2-512-etm@openssh.com''"

lemmas mac_names = HMAC_SHA1_def HMAC_SHA256_def HMAC_SHA512_def HMAC_SHA1_ETM_def
  HMAC_SHA256_ETM_def HMAC_SHA512_ETM_def NONE_NAME_def

definition ZLIB :: string where "ZLIB = ''zlib''"
definition ZLIB_LEGACY :: string where "ZLIB_LEGACY = ''zlib@openssh.com''"

section \<open>Ciphers and authentication codes by name\<close>

datatype cipher_impl = ClearImpl | CtrImpl | CbcImpl | GcmImpl | ChachaImpl

definition CIPHERS :: "string \<rightharpoonup> cipher_impl" where
  "CIPHERS = map_of
     [(CLEAR, ClearImpl), (NONE_NAME, ClearImpl),
      (AES_128_CTR, CtrImpl), (AES_192_CTR, CtrImpl), (AES_256_CTR, CtrImpl),
      (AES_128_GCM, GcmImpl), (AES_256_GCM, GcmImpl),
      (AES_128_CBC, CbcImpl), (AES_192_CBC, CbcImpl), (AES_256_CBC, CbcImpl),
      (CHACHA20_POLY1305, ChachaImpl)]"

fun needs_mac :: "cipher_impl \<Rightarrow> bool" where
  "needs_mac CtrImpl = True"
| "needs_mac CbcImpl = True"
| "needs_mac _ = False"

datatype mac_impl = NoMacImpl | HmacImpl mac_hash | HmacEtmImpl mac_hash

definition MACS :: "string \<rightharpoonup> mac_impl" where
  "MACS = map_of
     [(NONE_NAME, NoMacImpl),
      (HMAC_SHA1, HmacImpl Sha1), (HMAC_SHA256, HmacImpl Sha256), (HMAC_SHA512, HmacImpl Sha512),
      (HMAC_SHA1_ETM, HmacEtmImpl Sha1), (HMAC_SHA256_ETM, HmacEtmImpl Sha256),
      (HMAC_SHA512_ETM, HmacEtmImpl Sha512)]"

fun mac_key_len :: "mac_impl \<Rightarrow> nat" where
  "mac_key_len NoMacImpl = 0"
| "mac_key_len (HmacImpl h) = hash_len h"
| "mac_key_len (HmacEtmImpl h) = hash_len h"

text \<open>\<open>make_mac\<close>: \<open>key.copy_from_slice(mac_key)\<close> panics where the lengths differ.\<close>

fun make_mac :: "mac_impl \<Rightarrow> bytes \<Rightarrow> mac rs" where
  "make_mac NoMacImpl k = Ok NoMac"
| "make_mac (HmacImpl h) k = (if length k = hash_len h then Ok (CryptoMac h k) else Panic)"
| "make_mac (HmacEtmImpl h) k = (if length k = hash_len h then Ok (CryptoEtmMac h k) else Panic)"

text \<open>What the cryptographic crates offer beyond \<open>crypto\<close>: the hash functions and, by the name of a
  cipher, its sizes and the state that a key and a nonce give.\<close>

datatype kex_digest = DigestSha1 | DigestSha256 | DigestSha384 | DigestSha512

record 'st key_crates =
  hash_of :: "kex_digest \<Rightarrow> bytes \<Rightarrow> bytes"
  key_size :: "string \<Rightarrow> nat"
  iv_size :: "string \<Rightarrow> nat"
  block_size :: "string \<Rightarrow> nat"
  new_stream :: "string \<Rightarrow> bytes \<Rightarrow> bytes \<Rightarrow> 'st"
  new_encryptor :: "string \<Rightarrow> bytes \<Rightarrow> bytes \<Rightarrow> 'st"
  new_decryptor :: "string \<Rightarrow> bytes \<Rightarrow> bytes \<Rightarrow> 'st"
  new_aead :: "string \<Rightarrow> bytes \<Rightarrow> 'st"
  new_chacha :: "bytes \<Rightarrow> 'st"

fun cipher_key_len :: "'st key_crates \<Rightarrow> string \<Rightarrow> cipher_impl \<Rightarrow> nat" where
  "cipher_key_len K name ClearImpl = 0"
| "cipher_key_len K name _ = key_size K name"

fun cipher_nonce_len :: "'st key_crates \<Rightarrow> string \<Rightarrow> cipher_impl \<Rightarrow> nat" where
  "cipher_nonce_len K name ClearImpl = 0"
| "cipher_nonce_len K name ChachaImpl = 0"
| "cipher_nonce_len K name _ = iv_size K name"

text \<open>\<open>make_opening_key\<close> and \<open>make_sealing_key\<close> differ in their type only. Keys and nonces of another
  length than the cipher's panic (\<open>from_slice\<close>, \<open>try_into().unwrap()\<close>).\<close>

fun make_key ::
    "'st key_crates \<Rightarrow> string \<Rightarrow> cipher_impl \<Rightarrow> bytes \<Rightarrow> bytes \<Rightarrow> bytes \<Rightarrow> mac_impl \<Rightarrow> 'st cipher_key rs" where
  "make_key K name ClearImpl k n m ma = Ok ClearKey"
| "make_key K name CtrImpl k n m ma =
     (if length k = key_size K name \<and> length n = iv_size K name
      then and_then (make_mac ma m) (\<lambda>mac. Ok (BlockKey (StreamBC (new_stream K name k n)) mac))
      else Panic)"
| "make_key K name CbcImpl k n m ma =
     (if length k = key_size K name \<and> length n = iv_size K name
      then and_then (make_mac ma m) (\<lambda>mac.
        Ok (BlockKey (CbcBC (block_size K name) (new_encryptor K name k n) (new_decryptor K name k n)) mac))
      else Panic)"
| "make_key K name GcmImpl k n m ma =
     (if length k = key_size K name \<and> length n = iv_size K name
      then Ok (GcmKey (new_aead K name k) n) else Panic)"
| "make_key K name ChachaImpl k n m ma =
     (if length k = key_size K name then Ok (ChachaKey (new_chacha K k)) else Panic)"

section \<open>Shared secrets\<close>

text \<open>\<open>encode_mpint\<close>: the loop skips zeros; \<open>s[i]\<close> panics where there is nothing else.\<close>

function skip_zeros :: "bytes \<Rightarrow> nat \<Rightarrow> nat" where
  "skip_zeros s i = (if i < length s \<and> s ! i = 0 then skip_zeros s (i + 1) else i)"
  by pat_completeness auto
termination
  by (relation "measure (\<lambda>(s, i). length s - i)") auto

declare skip_zeros.simps [simp del]

definition encode_mpint :: "wire \<Rightarrow> bytes \<Rightarrow> bytes rs" where
  "encode_mpint W s =
     (let i = skip_zeros s 0 in
      and_then (index s i) (\<lambda>b.
        and_then
          (if b AND 0x80 \<noteq> 0
           then puts [w_u32 W (as_u32 (length s - i + 1)), w_u8 W 0] []
           else w_u32 W (as_u32 (length s - i)))
          (\<lambda>h. and_then (slice_from i s) (\<lambda>t. Ok (h @ t)))))"

datatype shared_secret = Mpint bytes | SharedString bytes

definition from_mpint :: "wire \<Rightarrow> bytes \<Rightarrow> shared_secret rs" where
  "from_mpint W s = and_then (encode_mpint W s) (\<lambda>e. Ok (Mpint e))"

definition from_string :: "wire \<Rightarrow> bytes \<Rightarrow> shared_secret rs" where
  "from_string W s = and_then (w_bytes W s) (\<lambda>e. Ok (SharedString e))"

fun shared_secret_as_bytes :: "shared_secret \<Rightarrow> bytes" where
  "shared_secret_as_bytes (Mpint v) = v"
| "shared_secret_as_bytes (SharedString v) = v"

section \<open>The keys of a connection\<close>

record 'st cipher_pair =
  local_to_remote :: "'st cipher_key"
  remote_to_local :: "'st cipher_key"

text \<open>\<open>shared\<close> is the shared secret as bytes, empty where there is none. The loop extends the key until
  it is long enough; a hash function that returned nothing would keep it running.\<close>

partial_function (option) extend_key ::
    "(bytes \<Rightarrow> bytes) \<Rightarrow> bytes \<Rightarrow> bytes \<Rightarrow> nat \<Rightarrow> bytes \<Rightarrow> bytes option" where
  "extend_key h shared exchange_hash len key =
     (if length key < len
      then extend_key h shared exchange_hash len (key @ h (shared @ exchange_hash @ key))
      else Some key)"

definition compute_key ::
    "(bytes \<Rightarrow> bytes) \<Rightarrow> bytes \<Rightarrow> bytes \<Rightarrow> bytes \<Rightarrow> u8 \<Rightarrow> nat \<Rightarrow> bytes rs" where
  "compute_key h shared exchange_hash session_id c len =
     and_then (or_diverge (extend_key h shared exchange_hash len (h (shared @ exchange_hash @ c # session_id))))
       (\<lambda>key. Ok (list_resize len key))"

definition letters :: "bool \<Rightarrow> (u8 \<times> u8) \<times> (u8 \<times> u8) \<times> (u8 \<times> u8)" where
  "letters is_server =
     (if is_server then ((0x44, 0x43), (0x42, 0x41), (0x46, 0x45))
      else ((0x43, 0x44), (0x41, 0x42), (0x45, 0x46)))" \<comment> \<open>D, C; B, A; F, E: local to remote first\<close>

definition compute_keys ::
    "'st key_crates \<Rightarrow> kex_digest \<Rightarrow> shared_secret option \<Rightarrow> bytes \<Rightarrow> bytes \<Rightarrow> string \<Rightarrow> string \<Rightarrow> string
      \<Rightarrow> bool \<Rightarrow> 'st cipher_pair rs" where
  "compute_keys K d shared_secret session_id exchange_hash cipher remote_to_local_mac local_to_remote_mac
       is_server =
     and_then (ok_or (CIPHERS cipher) UnknownAlgo) (\<lambda>impl.
     and_then (ok_or (MACS remote_to_local_mac) UnknownAlgo) (\<lambda>r2l_mac.
     and_then (ok_or (MACS local_to_remote_mac) UnknownAlgo) (\<lambda>l2r_mac.
       let shared = (case shared_secret of None \<Rightarrow> [] | Some s \<Rightarrow> shared_secret_as_bytes s);
           key = compute_key (hash_of K d) shared exchange_hash session_id;
           ((l2r, r2l), (l2r_nonce, r2l_nonce), (l2r_mac_key, r2l_mac_key)) = letters is_server
       in
       and_then (key l2r (cipher_key_len K cipher impl)) (\<lambda>k.
       and_then (key l2r_nonce (cipher_nonce_len K cipher impl)) (\<lambda>n.
       and_then (key l2r_mac_key (mac_key_len l2r_mac)) (\<lambda>m.
       and_then (make_key K cipher impl k n m l2r_mac) (\<lambda>sealing.
       and_then (key r2l (cipher_key_len K cipher impl)) (\<lambda>k.
       and_then (key r2l_nonce (cipher_nonce_len K cipher impl)) (\<lambda>n.
       and_then (key r2l_mac_key (mac_key_len r2l_mac)) (\<lambda>m.
       and_then (make_key K cipher impl k n m r2l_mac) (\<lambda>opening.
         Ok \<lparr>local_to_remote = sealing, remote_to_local = opening\<rparr>)))))))))))"

section \<open>The state of an exchange\<close>

datatype 'k session_kex_state = KexIdle | KexInProgress 'k | KexTaken

fun kex_active :: "'k session_kex_state \<Rightarrow> bool" where
  "kex_active KexIdle = False"
| "kex_active (KexInProgress k) = True"
| "kex_active KexTaken = True"

fun kex_take :: "'k session_kex_state \<Rightarrow> 'k session_kex_state \<times> 'k session_kex_state" where
  "kex_take KexIdle = (KexIdle, KexIdle)" \<comment> \<open>what is taken, what is left\<close>
| "kex_take s = (s, KexTaken)"

datatype kex_cause = Initial | Rekey bool bytes \<comment> \<open>strict, session id\<close>

fun is_strict_rekey :: "kex_cause \<Rightarrow> bool" where
  "is_strict_rekey (Rekey True _) = True"
| "is_strict_rekey _ = False"

fun is_rekey :: "kex_cause \<Rightarrow> bool" where
  "is_rekey Initial = False"
| "is_rekey (Rekey _ _) = True"

fun cause_session_id :: "kex_cause \<Rightarrow> bytes option" where
  "cause_session_id Initial = None"
| "cause_session_id (Rekey _ session_id) = Some session_id"


section \<open>Lemmas\<close>

lemma skip_zeros_drop: "i \<le> length s \<Longrightarrow> drop (skip_zeros s i) s = dropWhile (\<lambda>b. b = 0) (drop i s)
    \<and> i \<le> skip_zeros s i \<and> skip_zeros s i \<le> length s"
proof (induction s i rule: skip_zeros.induct)
  case (1 s i)
  show ?case
  proof (cases "i < length s \<and> s ! i = 0")
    case True
    then have "drop i s = 0 # drop (Suc i) s" by (metis Cons_nth_drop_Suc)
    then show ?thesis using 1 True by (subst (1 2 3) skip_zeros.simps) auto
  next
    case False
    then have "dropWhile (\<lambda>b. b = 0) (drop i s) = drop i s"
      by (cases "i < length s") (auto simp: Cons_nth_drop_Suc [symmetric])
    then show ?thesis using 1 False by (subst (1 2 3) skip_zeros.simps) auto
  qed
qed

lemma be_value_dropWhile: "be_value (dropWhile (\<lambda>b. b = 0) s) = be_value s"
  by (induction s) auto

lemma dropWhile_Cons_nonzero: "dropWhile (\<lambda>b. b = 0) s = b # t \<Longrightarrow> \<not> (\<forall>b \<in> set s. b = 0)"
proof
  assume e: "dropWhile (\<lambda>b. b = 0) s = b # t" and z: "\<forall>b \<in> set s. b = 0"
  from z have "dropWhile (\<lambda>b. b = 0) s = []" by (simp only: dropWhile_eq_Nil_conv)
  with e show False by simp
qed

text \<open>The stripped number, as \<open>encode_mpint\<close> writes it.\<close>

definition mpint_body :: "bytes \<Rightarrow> bytes" where
  "mpint_body s = (let t = dropWhile (\<lambda>b. b = 0) s in
     case t of [] \<Rightarrow> [] | b # _ \<Rightarrow> if b AND 0x80 \<noteq> 0 then 0 # t else t)"

lemma mpint_body_Cons:
  "dropWhile (\<lambda>b. b = 0) s = b # t \<Longrightarrow> mpint_body s = (if b AND 0x80 \<noteq> 0 then 0 # b # t else b # t)"
  by (simp add: mpint_body_def)

lemma encode_mpint_eq:
  assumes "ssh_wire W"
  shows "encode_mpint W s =
    (if \<forall>b \<in> set s. b = 0 then Panic
     else Ok (be_put W (as_u32 (length (mpint_body s))) @ mpint_body s))"
proof -
  let ?i = "skip_zeros s 0"
  have d: "drop ?i s = dropWhile (\<lambda>b. b = 0) s" "?i \<le> length s" using skip_zeros_drop [of 0 s] by auto
  show ?thesis
  proof (cases "drop ?i s")
    case Nil
    then have "\<not> ?i < length s" by (simp only: drop_eq_Nil not_less)
    moreover have "\<forall>b \<in> set s. b = 0" using d(1) unfolding Nil by (simp only: dropWhile_eq_Nil_conv eq_commute [of "[]"])
    moreover have "encode_mpint W s = Panic"
      using calculation(1) by (simp add: encode_mpint_def index_def Let_def)
    ultimately show ?thesis by simp
  next
    case (Cons b t)
    then have lt: "?i < length s" by (metis drop_eq_Nil list.discI not_le_imp_less)
    then have b: "s ! ?i = b" using Cons by (metis Cons_nth_drop_Suc list.inject)
    have l: "length s - ?i = Suc (length t)" using Cons by (metis length_Cons length_drop)
    have nz: "\<not> (\<forall>b \<in> set s. b = 0)"  by (rule dropWhile_Cons_nonzero [OF trans [OF d(1) [symmetric] Cons]])
    have "mpint_body s = (if b AND 0x80 \<noteq> 0 then 0 # b # t else b # t)"
      by (rule mpint_body_Cons [OF trans [OF d(1) [symmetric] Cons]])
    then show ?thesis
      using lt nz d(2) l assms Cons b
      by (simp add: encode_mpint_def index_def slice_from_def ssh_wire.put_u32 ssh_wire.put_u8)
  qed
qed

lemma sign_bit: "b AND 0x80 \<noteq> 0 \<longleftrightarrow> 0x80 \<le> unat b" for b :: u8
proof -
  have "(0x80 :: u8) = 2 ^ 7" by simp
  then have "b AND 0x80 \<noteq> 0 \<longleftrightarrow> bit b 7"
    by (simp only: and_exp_eq_0_iff_not_bit not_not)
  also have "\<dots> \<longleftrightarrow> odd (unat b div 2 ^ 7)"
  proof -
    have "bit (unat b) 7 \<longleftrightarrow> bit b 7" by (simp add: bit_unsigned_iff)
    then show ?thesis by (simp only: bit_iff_odd [of "unat b"])
  qed
  also have "\<dots> \<longleftrightarrow> 0x80 \<le> unat b"
  proof -
    have "unat b < 256" using unsigned_less [of b, where ?'a = nat] by simp
    then have "unat b div 128 = (if 128 \<le> unat b then 1 else 0)" by auto
    then show ?thesis by simp
  qed
  finally show ?thesis .
qed


section \<open>Properties of the derivation\<close>

text \<open>The encoding of a shared secret is the canonical \<open>mpint\<close> (RFC 4251, section 5): the
  length, then the same number with a clear sign bit and no leading zero beyond the one the sign
  needs. A secret that is zero or empty is not encoded: the routine indexes past the end and panics.\<close>

theorem encode_mpint_canonical:
  assumes "ssh_wire W"
  shows "(encode_mpint W s = Panic \<longleftrightarrow> be_value s = 0)
    \<and> (be_value s \<noteq> 0 \<longrightarrow> (\<exists>b t.
        encode_mpint W s = Ok (be_put W (as_u32 (length (b # t))) @ b # t)
        \<and> be_value (b # t) = be_value s \<and> unat b < 0x80 \<and> (b = 0 \<longrightarrow> 0x80 \<le> unat (hd t))))"
proof -
  have z: "(\<forall>b \<in> set s. b = 0) \<longleftrightarrow> be_value s = 0"
    by (induction s) (auto simp: unat_eq_0)
  show ?thesis
  proof (cases "dropWhile (\<lambda>b. b = 0) s")
    case Nil
    then have "\<forall>b \<in> set s. b = 0" by (simp add: dropWhile_eq_Nil_conv)
    then show ?thesis using z encode_mpint_eq [OF assms, of s] by simp
  next
    case (Cons b t)
    have b: "b \<noteq> 0" using hd_dropWhile [of "\<lambda>b. b = 0" s] Cons by simp
    have nz: "\<not> (\<forall>b \<in> set s. b = 0)" by (rule dropWhile_Cons_nonzero [OF Cons])
    have v: "be_value (b # t) = be_value s" using be_value_dropWhile [of s] Cons by simp
    show ?thesis
    proof (cases "0x80 \<le> unat b")
      case True
      then have "mpint_body s = 0 # b # t" using mpint_body_Cons [OF Cons] sign_bit [of b] by simp
      then show ?thesis
        using encode_mpint_eq [OF assms, of s] nz z v True by (intro conjI impI exI [of _ 0] exI [of _ "b # t"]) auto
    next
      case False
      then have "mpint_body s = b # t" using mpint_body_Cons [OF Cons] sign_bit [of b] by simp
      then show ?thesis
        using encode_mpint_eq [OF assms, of s] nz z v False b by (intro conjI impI exI [of _ b] exI [of _ t]) auto
    qed
  qed
qed

theorem encode_mpint_canonical_witness:
  "encode_mpint rfc4251_wire [0, 0] = Panic
    \<and> (\<exists>b t. encode_mpint rfc4251_wire [0, 200, 1] = Ok (be_put rfc4251_wire (as_u32 (length (b # t))) @ b # t)
        \<and> be_value (b # t) = 51201 \<and> unat b < 0x80)"
  using encode_mpint_canonical [OF rfc.ssh_wire_axioms, of "[0, 0]"]
    encode_mpint_canonical [OF rfc.ssh_wire_axioms, of "[0, 200, 1]"]
  by auto

text \<open>A hash function that returns something brings every key to its length.\<close>

lemma extend_key_total:
  assumes "\<And>x. h x \<noteq> []"
  shows "\<exists>k. extend_key h shared e len key = Some k \<and> len \<le> length k \<and> take (length key) k = key"
proof (induction "len - length key" arbitrary: key rule: less_induct)
  case less
  show ?case
  proof (cases "length key < len")
    case True
    let ?k = "key @ h (shared @ e @ key)"
    have pos: "0 < length (h (shared @ e @ key))" using assms by simp
    then have "len - length ?k < len - length key" using True unfolding length_append by linarith
    from less [OF this] obtain k where k: "extend_key h shared e len ?k = Some k" "len \<le> length k"
      "take (length ?k) k = ?k" by blast
    moreover have "take (length key) k = key"
      using k(3) by (metis append_eq_conv_conj append_take_drop_id append.assoc)
    ultimately show ?thesis using True by (subst extend_key.simps) simp
  qed (subst extend_key.simps, simp)
qed

lemma compute_key_total:
  assumes "\<And>x. h x \<noteq> []"
  shows "\<exists>k. compute_key h shared e sid c len = Ok k \<and> length k = len"
  using extend_key_total [of h shared e len "h (shared @ e @ c # sid)", OF assms]
  by (auto simp: compute_key_def)

text \<open>What the crates promise of the keys that they make: the decryptor that a key and a nonce give undoes
  the encryptor, and the block sizes of the CBC ciphers.\<close>

definition cbc_laws :: "'st crypto \<Rightarrow> 'st key_crates \<Rightarrow> bool" where
  "cbc_laws C K \<longleftrightarrow> (\<forall>name k n. CIPHERS name = Some CbcImpl \<longrightarrow>
     (block_size K name = 8 \<or> block_size K name = 16)
     \<and> cbc_match C (block_size K name) (new_encryptor K name k n) (new_decryptor K name k n))"

lemma make_mac_total: "length m = mac_key_len ma \<Longrightarrow> \<exists>mac. make_mac ma m = Ok mac"
  by (cases ma) auto

lemma make_key_matches:
  assumes "cbc_laws C K" "CIPHERS name = Some impl"
    and "length k = cipher_key_len K name impl" "length n = cipher_nonce_len K name impl"
    and "length m = mac_key_len ma"
  shows "\<exists>key. make_key K name impl k n m ma = Ok key \<and> keys_match C key key"
  using assms make_mac_total [of m ma]
  by (cases impl) (auto simp: keys_match_def cbc_laws_def)

lemma derived_keys_total:
  assumes "\<And>x. hash_of K d x \<noteq> []" "cbc_laws C K"
    and "CIPHERS cipher = Some impl" "MACS client_mac = Some cm" "MACS server_mac = Some sm"
  shows "\<exists>c s. compute_keys K d secret sid e cipher server_mac client_mac False = Ok c
    \<and> compute_keys K d secret sid e cipher client_mac server_mac True = Ok s
    \<and> keys_match C (local_to_remote c) (remote_to_local s)
    \<and> keys_match C (local_to_remote s) (remote_to_local c)"
proof -
  let ?sh = "case secret of None \<Rightarrow> [] | Some s \<Rightarrow> shared_secret_as_bytes s"
  let ?key = "compute_key (hash_of K d) ?sh e sid"
  note total = compute_key_total [of "hash_of K d" ?sh e sid, OF assms(1)]
  obtain kC nA mE where c: "?key 0x43 (cipher_key_len K cipher impl) = Ok kC" "length kC = cipher_key_len K cipher impl"
    "?key 0x41 (cipher_nonce_len K cipher impl) = Ok nA" "length nA = cipher_nonce_len K cipher impl"
    "?key 0x45 (mac_key_len cm) = Ok mE" "length mE = mac_key_len cm"
    using total by metis
  obtain kD nB mF where s: "?key 0x44 (cipher_key_len K cipher impl) = Ok kD" "length kD = cipher_key_len K cipher impl"
    "?key 0x42 (cipher_nonce_len K cipher impl) = Ok nB" "length nB = cipher_nonce_len K cipher impl"
    "?key 0x46 (mac_key_len sm) = Ok mF" "length mF = mac_key_len sm"
    using total by metis
  obtain ck where ck: "make_key K cipher impl kC nA mE cm = Ok ck" "keys_match C ck ck"
    using make_key_matches [OF assms(2,3) c(2,4,6)] by blast
  obtain sk where sk: "make_key K cipher impl kD nB mF sm = Ok sk" "keys_match C sk sk"
    using make_key_matches [OF assms(2,3) s(2,4,6)] by blast
  show ?thesis
    using c s ck sk assms(3-5) by (simp add: compute_keys_def letters_def)
qed

text \<open>Property C14: with the same secret, hash, session id and algorithms, client and server derive keys
  for both directions without error, and what one side seals the other opens: the client's sealing key
  matches the server's opening key and the other way round.\<close>

theorem derived_keys_match:
  assumes "\<And>x. hash_of K d x \<noteq> []" "cbc_laws C K"
    and "CIPHERS cipher = Some impl" "MACS client_mac = Some cm" "MACS server_mac = Some sm"
  shows "\<exists>c s. compute_keys K d secret sid e cipher server_mac client_mac False = Ok c
    \<and> compute_keys K d secret sid e cipher client_mac server_mac True = Ok s
    \<and> keys_match C (local_to_remote c) (remote_to_local s)
    \<and> keys_match C (local_to_remote s) (remote_to_local c)"
  by (rule derived_keys_total [OF assms])


text \<open>Concrete crates for the examples.\<close>

definition flip_keys :: "unit key_crates" where
  "flip_keys = \<lparr>hash_of = (\<lambda>d x. 1 # x), key_size = (\<lambda>name. 32), iv_size = (\<lambda>name. 16),
     block_size = (\<lambda>name. 16), new_stream = (\<lambda>name k n. ()), new_encryptor = (\<lambda>name k n. ()),
     new_decryptor = (\<lambda>name k n. ()), new_aead = (\<lambda>name k. ()), new_chacha = (\<lambda>k. ())\<rparr>"

lemma calls_flip: "calls (cbc_decrypt flip_crypto) () (calls (cbc_encrypt flip_crypto) () bs) = bs"
  by (induction bs) (simp_all add: flip_crypto_def)

lemma flip_cbc_laws: "cbc_laws flip_crypto flip_keys"
  by (auto simp: cbc_laws_def flip_keys_def cbc_match_def calls_flip) (simp_all add: flip_crypto_def)

theorem derived_keys_match_witness:
  "\<exists>c s. compute_keys flip_keys DigestSha256 (Some (Mpint [1])) [2] [3] AES_256_CTR HMAC_SHA512 HMAC_SHA256 False = Ok c
    \<and> compute_keys flip_keys DigestSha256 (Some (Mpint [1])) [2] [3] AES_256_CTR HMAC_SHA256 HMAC_SHA512 True = Ok s
    \<and> keys_match flip_crypto (local_to_remote c) (remote_to_local s)
    \<and> keys_match flip_crypto (local_to_remote s) (remote_to_local c)"
  by (rule derived_keys_match [OF _ flip_cbc_laws, where impl = CtrImpl and cm = "HmacImpl Sha256"
        and sm = "HmacImpl Sha512"])
    (simp_all add: flip_keys_def CIPHERS_def MACS_def cipher_names mac_names)

end
