(* ===== verification/Msg.thy ===== *)
theory Msg
  imports Prelude
begin

text \<open>
  \<open>msg.rs\<close>: the message numbers and the message order that strict key exchange fixes.
\<close>

section \<open>Message numbers\<close>

definition DISCONNECT :: u8 where [code_unfold, simp]: "DISCONNECT = 1"
definition IGNORE :: u8 where [code_unfold, simp]: "IGNORE = 2"
definition UNIMPLEMENTED :: u8 where [code_unfold, simp]: "UNIMPLEMENTED = 3"
definition DEBUG :: u8 where [code_unfold, simp]: "DEBUG = 4"
definition SERVICE_REQUEST :: u8 where [code_unfold, simp]: "SERVICE_REQUEST = 5"
definition SERVICE_ACCEPT :: u8 where [code_unfold, simp]: "SERVICE_ACCEPT = 6"
definition EXT_INFO :: u8 where [code_unfold, simp]: "EXT_INFO = 7"
definition KEXINIT :: u8 where [code_unfold, simp]: "KEXINIT = 20"
definition NEWKEYS :: u8 where [code_unfold, simp]: "NEWKEYS = 21"
definition KEX_ECDH_INIT :: u8 where [code_unfold, simp]: "KEX_ECDH_INIT = 30"
definition KEX_ECDH_REPLY :: u8 where [code_unfold, simp]: "KEX_ECDH_REPLY = 31"
definition KEX_DH_GEX_REQUEST :: u8 where [code_unfold, simp]: "KEX_DH_GEX_REQUEST = 34"
definition KEX_DH_GEX_GROUP :: u8 where [code_unfold, simp]: "KEX_DH_GEX_GROUP = 31"
definition KEX_DH_GEX_INIT :: u8 where [code_unfold, simp]: "KEX_DH_GEX_INIT = 32"
definition KEX_DH_GEX_REPLY :: u8 where [code_unfold, simp]: "KEX_DH_GEX_REPLY = 33"
definition USERAUTH_REQUEST :: u8 where [code_unfold, simp]: "USERAUTH_REQUEST = 50"
definition USERAUTH_FAILURE :: u8 where [code_unfold, simp]: "USERAUTH_FAILURE = 51"
definition USERAUTH_SUCCESS :: u8 where [code_unfold, simp]: "USERAUTH_SUCCESS = 52"
definition USERAUTH_BANNER :: u8 where [code_unfold, simp]: "USERAUTH_BANNER = 53"
definition KEX_HYBRID_INIT :: u8 where [code_unfold, simp]: "KEX_HYBRID_INIT = 30"
definition KEX_HYBRID_REPLY :: u8 where [code_unfold, simp]: "KEX_HYBRID_REPLY = 31"
definition USERAUTH_INFO_RESPONSE :: u8 where [code_unfold, simp]: "USERAUTH_INFO_RESPONSE = 61"
definition USERAUTH_INFO_REQUEST_OR_USERAUTH_PK_OK :: u8 where
  [code_unfold, simp]: "USERAUTH_INFO_REQUEST_OR_USERAUTH_PK_OK = 60"
definition GLOBAL_REQUEST :: u8 where [code_unfold, simp]: "GLOBAL_REQUEST = 80"
definition REQUEST_SUCCESS :: u8 where [code_unfold, simp]: "REQUEST_SUCCESS = 81"
definition REQUEST_FAILURE :: u8 where [code_unfold, simp]: "REQUEST_FAILURE = 82"
definition CHANNEL_OPEN :: u8 where [code_unfold, simp]: "CHANNEL_OPEN = 90"
definition CHANNEL_OPEN_CONFIRMATION :: u8 where [code_unfold, simp]: "CHANNEL_OPEN_CONFIRMATION = 91"
definition CHANNEL_OPEN_FAILURE :: u8 where [code_unfold, simp]: "CHANNEL_OPEN_FAILURE = 92"
definition CHANNEL_WINDOW_ADJUST :: u8 where [code_unfold, simp]: "CHANNEL_WINDOW_ADJUST = 93"
definition CHANNEL_DATA :: u8 where [code_unfold, simp]: "CHANNEL_DATA = 94"
definition CHANNEL_EXTENDED_DATA :: u8 where [code_unfold, simp]: "CHANNEL_EXTENDED_DATA = 95"
definition CHANNEL_EOF :: u8 where [code_unfold, simp]: "CHANNEL_EOF = 96"
definition CHANNEL_CLOSE :: u8 where [code_unfold, simp]: "CHANNEL_CLOSE = 97"
definition CHANNEL_REQUEST :: u8 where [code_unfold, simp]: "CHANNEL_REQUEST = 98"
definition CHANNEL_SUCCESS :: u8 where [code_unfold, simp]: "CHANNEL_SUCCESS = 99"
definition CHANNEL_FAILURE :: u8 where [code_unfold, simp]: "CHANNEL_FAILURE = 100"
definition SSH_OPEN_CONNECT_FAILED :: u8 where [code_unfold, simp]: "SSH_OPEN_CONNECT_FAILED = 2"
definition SSH_OPEN_UNKNOWN_CHANNEL_TYPE :: u8 where
  [code_unfold, simp]: "SSH_OPEN_UNKNOWN_CHANNEL_TYPE = 3"
definition SSH_OPEN_RESOURCE_SHORTAGE :: u8 where [code_unfold, simp]: "SSH_OPEN_RESOURCE_SHORTAGE = 4"
definition USERAUTH_INFO_REQUEST :: u8 where [code_unfold, simp]: "USERAUTH_INFO_REQUEST = 60"
definition USERAUTH_PK_OK :: u8 where [code_unfold, simp]: "USERAUTH_PK_OK = 60"
definition SSH_OPEN_ADMINISTRATIVELY_PROHIBITED :: u8 where
  [code_unfold, simp]: "SSH_OPEN_ADMINISTRATIVELY_PROHIBITED = 1"

section \<open>Strict key exchange\<close>

definition strict_kex_violation :: "u8 \<Rightarrow> nat \<Rightarrow> error" where
  "strict_kex_violation message_type sequence_number =
     StrictKeyExchangeViolation message_type sequence_number"

text \<open>\<open>None\<close>: the order says nothing about this position.\<close>

definition validate_msg_strict_kex :: "u8 \<Rightarrow> nat \<Rightarrow> u8 list \<Rightarrow> bool option" where
  "validate_msg_strict_kex msg_type seqno order =
     (if seqno < length order then Some (order ! seqno = msg_type) else None)"

fun merge_valid :: "bool option \<Rightarrow> bool option \<Rightarrow> bool option" where
  "merge_valid (Some True) _ = Some True"
| "merge_valid _ (Some True) = Some True"
| "merge_valid _ (Some False) = Some False"
| "merge_valid x None = x"

definition validate_msg_strict_kex_alt_order :: "u8 \<Rightarrow> nat \<Rightarrow> u8 list list \<Rightarrow> bool option" where
  "validate_msg_strict_kex_alt_order msg_type seqno orders =
     foldl (\<lambda>valid order. merge_valid valid (validate_msg_strict_kex msg_type seqno order)) None orders"

definition client_orders :: "u8 list list" where
  "client_orders = [[KEXINIT, KEX_ECDH_INIT, NEWKEYS],
                    [KEXINIT, KEX_DH_GEX_REQUEST, KEX_DH_GEX_INIT, NEWKEYS]]"

definition server_orders :: "u8 list list" where
  "server_orders = [[KEXINIT, KEX_ECDH_REPLY, NEWKEYS],
                    [KEXINIT, KEX_DH_GEX_GROUP, KEX_DH_GEX_REPLY, NEWKEYS]]"

definition validate_client_msg_strict_kex :: "u8 \<Rightarrow> nat \<Rightarrow> unit rs" where
  "validate_client_msg_strict_kex msg_type seqno =
     (if Some False = validate_msg_strict_kex_alt_order msg_type seqno client_orders
      then Err (strict_kex_violation msg_type seqno) else Ok ())"

definition validate_server_msg_strict_kex :: "u8 \<Rightarrow> nat \<Rightarrow> unit rs" where
  "validate_server_msg_strict_kex msg_type seqno =
     (if Some False = validate_msg_strict_kex_alt_order msg_type seqno server_orders
      then Err (strict_kex_violation msg_type seqno) else Ok ())"

definition ALL_KEX_MESSAGES :: "u8 list" where
  "ALL_KEX_MESSAGES = [KEXINIT, KEX_ECDH_INIT, KEX_ECDH_REPLY, KEX_DH_GEX_GROUP, KEX_DH_GEX_INIT,
     KEX_DH_GEX_REPLY, KEX_DH_GEX_REQUEST, NEWKEYS]"

definition is_kex_msg :: "u8 \<Rightarrow> bool" where
  "is_kex_msg msg \<longleftrightarrow> msg \<in> set ALL_KEX_MESSAGES"

lemma merge_valid_eq:
  "merge_valid a b = (if a = Some True \<or> b = Some True then Some True
     else if a = Some False \<or> b = Some False then Some False else None)"
  by (cases "(a, b)" rule: merge_valid.cases) auto

lemma not_True_False_None: "x \<noteq> Some True \<Longrightarrow> x \<noteq> Some False \<Longrightarrow> x = None"
  by (cases x) auto

lemma foldl_merge_valid:
  "foldl (\<lambda>v o'. merge_valid v (f o')) init os =
     (if init = Some True \<or> Some True \<in> f ` set os then Some True
      else if init = Some False \<or> Some False \<in> f ` set os then Some False else init)"
  by (induction os arbitrary: init) (auto simp: merge_valid_eq dest: not_True_False_None)

text \<open>A position is rejected exactly where some order covers it and none has the message there.\<close>

lemma alt_order_False_iff:
  "validate_msg_strict_kex_alt_order t n orders = Some False \<longleftrightarrow>
     (\<exists>o' \<in> set orders. n < length o') \<and> (\<forall>o' \<in> set orders. n < length o' \<longrightarrow> o' ! n \<noteq> t)"
  unfolding validate_msg_strict_kex_alt_order_def foldl_merge_valid
  by (auto simp: validate_msg_strict_kex_def image_iff)

text \<open>Property C23: a strict key exchange lets through exactly the messages of the two orders, the
  plain exchange's and the group exchange's: a message numbered \<open>n\<close> from the client is accepted
  if and only if some order has it at \<open>n\<close>, or \<open>n\<close> lies beyond the longer order.\<close>

theorem strict_kex_orders:
  "(validate_client_msg_strict_kex t n = Ok () \<longleftrightarrow>
     (\<exists>o' \<in> set client_orders. n < length o' \<and> o' ! n = t) \<or> 4 \<le> n)
   \<and> (validate_server_msg_strict_kex t n = Ok () \<longleftrightarrow>
     (\<exists>o' \<in> set server_orders. n < length o' \<and> o' ! n = t) \<or> 4 \<le> n)
   \<and> (validate_client_msg_strict_kex t n = Ok ()
      \<or> validate_client_msg_strict_kex t n = Err (StrictKeyExchangeViolation t n))"
proof -
  have orders: "(\<exists>o' \<in> set os. n < length o' \<and> o' ! n = t) \<or> 4 \<le> n \<longleftrightarrow>
      validate_msg_strict_kex_alt_order t n os \<noteq> Some False"
    if "os = client_orders \<or> os = server_orders" for os
  proof -
    have "(\<exists>o' \<in> set os. n < length o') \<longleftrightarrow> \<not> 4 \<le> n"
      using that by (auto simp: client_orders_def server_orders_def)
    then show ?thesis unfolding alt_order_False_iff by blast
  qed
  show ?thesis
    unfolding orders [OF disjI1 [OF refl]] orders [OF disjI2 [OF refl]]
    by (auto simp: validate_client_msg_strict_kex_def validate_server_msg_strict_kex_def
        strict_kex_violation_def)
qed

end
