(* ===== verification/Negotiation.thy ===== *)
theory Negotiation
  imports Algorithms Msg
begin

text \<open>
  \<open>negotiation.rs\<close>: the algorithms that a side prefers, the KEXINIT message that announces them, and the
  selection that both sides make from the two announcements. \<open>Algorithm\<close> and \<open>PrivateKey\<close> belong to
  the crate \<open>ssh_key\<close>: of an algorithm the sources use its variants and its name (the parameter
  \<open>alg_str\<close>), of a key its algorithm (\<open>key_alg\<close>).
\<close>

section \<open>Public-key algorithms\<close>

datatype ecdsa_curve = NistP256 | NistP384 | NistP521
datatype hash_alg = HashSha256 | HashSha512
datatype algorithm = Ed25519 | Ecdsa ecdsa_curve | Rsa "hash_alg option" | OtherAlgorithm string

text \<open>\<open>AlgorithmExt\<close> of \<open>helpers.rs\<close>; \<open>new_certificate\<close> is the crate's function.\<close>

fun algorithm_hash_alg :: "algorithm \<Rightarrow> hash_alg option" where
  "algorithm_hash_alg (Rsa hash) = hash"
| "algorithm_hash_alg _ = None"

fun with_hash_alg :: "algorithm \<Rightarrow> hash_alg option \<Rightarrow> algorithm" where
  "with_hash_alg (Rsa _) hash_alg = Rsa hash_alg"
| "with_hash_alg x hash_alg = x"

definition new_certificate_ext :: "(string \<Rightarrow> algorithm rs) \<Rightarrow> string \<Rightarrow> algorithm rs" where
  "new_certificate_ext new_certificate algo =
     (if algo = ''rsa-sha2-256-cert-v01@openssh.com'' then Ok (Rsa (Some HashSha256))
      else if algo = ''rsa-sha2-512-cert-v01@openssh.com'' then Ok (Rsa (Some HashSha512))
      else new_certificate algo)"

fun is_rsa :: "algorithm \<Rightarrow> bool" where
  "is_rsa (Rsa _) = True"
| "is_rsa _ = False"

text \<open>\<open>is_key_compatible_with_algo\<close>, of the key's algorithm.\<close>

fun is_key_compatible_with_algo :: "algorithm \<Rightarrow> algorithm \<Rightarrow> bool" where
  "is_key_compatible_with_algo key (Rsa _) = is_rsa key"
| "is_key_compatible_with_algo key a = (key = a)"

section \<open>Preferences\<close>

record preferred =
  pref_kex :: "string list"
  pref_key :: "algorithm list"
  pref_cipher :: "string list"
  pref_mac :: "string list"
  pref_compression :: "string list"

definition possible_host_key_algos_for_keys :: "preferred \<Rightarrow> algorithm list \<Rightarrow> algorithm list" where
  "possible_host_key_algos_for_keys pref available_host_keys =
     filter (\<lambda>n. \<exists>k \<in> set available_host_keys. is_key_compatible_with_algo k n) (pref_key pref)"

definition SAFE_KEX_ORDER :: "string list" where
  "SAFE_KEX_ORDER = [MLKEM768X25519_SHA256, CURVE25519, CURVE25519_PRE_RFC_8731, DH_GEX_SHA256,
     DH_G18_SHA512, DH_G17_SHA512, DH_G16_SHA512, DH_G15_SHA512, DH_G14_SHA256,
     EXTENSION_SUPPORT_AS_CLIENT, EXTENSION_SUPPORT_AS_SERVER, STRICT_KEX_AS_CLIENT, STRICT_KEX_AS_SERVER]"

definition KEX_EXTENSION_NAMES :: "string list" where
  "KEX_EXTENSION_NAMES =
     [EXTENSION_SUPPORT_AS_CLIENT, EXTENSION_SUPPORT_AS_SERVER, STRICT_KEX_AS_CLIENT, STRICT_KEX_AS_SERVER]"

definition CIPHER_ORDER :: "string list" where
  "CIPHER_ORDER = [CHACHA20_POLY1305, AES_256_GCM, AES_256_CTR, AES_192_CTR, AES_128_CTR]"

definition HMAC_ORDER :: "string list" where
  "HMAC_ORDER = [HMAC_SHA512_ETM, HMAC_SHA256_ETM, HMAC_SHA512, HMAC_SHA256, HMAC_SHA1_ETM, HMAC_SHA1]"

definition COMPRESSION_ORDER :: "string list" where
  "COMPRESSION_ORDER = [NONE_NAME, ZLIB, ZLIB_LEGACY]"

definition preferred_default :: preferred where
  "preferred_default = \<lparr>pref_kex = SAFE_KEX_ORDER,
     pref_key = [Ed25519, Ecdsa NistP256, Ecdsa NistP384, Ecdsa NistP521, Rsa (Some HashSha512),
       Rsa (Some HashSha256), Rsa None],
     pref_cipher = CIPHER_ORDER, pref_mac = HMAC_ORDER, pref_compression = COMPRESSION_ORDER\<rparr>"

definition preferred_compressed :: preferred where
  "preferred_compressed = \<lparr>pref_kex = SAFE_KEX_ORDER, pref_key = pref_key preferred_default,
     pref_cipher = CIPHER_ORDER, pref_mac = HMAC_ORDER, pref_compression = COMPRESSION_ORDER\<rparr>"

definition parse_kex_algo_list :: "string \<Rightarrow> string list" where
  "parse_kex_algo_list s = split_comma s"

section \<open>Selection\<close>

text \<open>The two implementations of \<open>Select::select\<close>. The outer loop runs over the client's list, the inner
  one over the server's; \<open>nm\<close> is \<open>as_ref\<close> of our own list's elements. The inner loops return a choice
  (\<open>Inr\<close>) or the flag as they leave it (\<open>Inl\<close>).\<close>

fun server_inner :: "('s \<Rightarrow> string) \<Rightarrow> string \<Rightarrow> 's list \<Rightarrow> bool \<Rightarrow> bool + bool \<times> 's" where
  "server_inner nm c [] both_first = Inl both_first"
| "server_inner nm c (s # ss) both_first =
     (if c = nm s then Inr (both_first, s) else server_inner nm c ss False)"

fun server_outer :: "('s \<Rightarrow> string) \<Rightarrow> string list \<Rightarrow> 's list \<Rightarrow> bool \<Rightarrow> (bool \<times> 's) option" where
  "server_outer nm [] server_list both_first = None"
| "server_outer nm (c # cs) server_list both_first =
     (case server_inner nm c server_list both_first of
        Inr r \<Rightarrow> Some r
      | Inl both_first \<Rightarrow> server_outer nm cs server_list both_first)"

definition server_select ::
    "('s \<Rightarrow> string) \<Rightarrow> 's list \<Rightarrow> string list \<Rightarrow> algorithm_kind \<Rightarrow> (bool \<times> 's) rs" where
  "server_select nm server_list client_list kind =
     ok_or (server_outer nm client_list server_list True)
       (NoCommonAlgo kind (map nm server_list) client_list)"

fun client_inner :: "('s \<Rightarrow> string) \<Rightarrow> 's \<Rightarrow> string list \<Rightarrow> bool \<Rightarrow> bool + bool \<times> 's" where
  "client_inner nm c [] both_first = Inl both_first"
| "client_inner nm c (s # ss) both_first =
     (if s = nm c then Inr (both_first, c) else client_inner nm c ss False)"

fun client_outer :: "('s \<Rightarrow> string) \<Rightarrow> 's list \<Rightarrow> string list \<Rightarrow> bool \<Rightarrow> (bool \<times> 's) option" where
  "client_outer nm [] server_list both_first = None"
| "client_outer nm (c # cs) server_list both_first =
     (case client_inner nm c server_list both_first of
        Inr r \<Rightarrow> Some r
      | Inl both_first \<Rightarrow> client_outer nm cs server_list both_first)"

definition client_select ::
    "('s \<Rightarrow> string) \<Rightarrow> 's list \<Rightarrow> string list \<Rightarrow> algorithm_kind \<Rightarrow> (bool \<times> 's) rs" where
  "client_select nm client_list server_list kind =
     ok_or (client_outer nm client_list server_list True)
       (NoCommonAlgo kind (map nm client_list) server_list)"

datatype role = Server | Client

definition select ::
    "role \<Rightarrow> ('s \<Rightarrow> string) \<Rightarrow> 's list \<Rightarrow> string list \<Rightarrow> algorithm_kind \<Rightarrow> (bool \<times> 's) rs" where
  "select role nm ours theirs kind =
     (case role of Server \<Rightarrow> server_select nm ours theirs kind | Client \<Rightarrow> client_select nm ours theirs kind)"

definition role_is_server :: "role \<Rightarrow> bool" where
  "role_is_server role = (role = Server)"

section \<open>Reading and writing KEXINIT\<close>

record negotiated =
  n_kex :: string
  n_key :: algorithm
  n_cipher :: string
  n_client_mac :: string
  n_server_mac :: string
  n_server_compression :: compression
  n_client_compression :: compression
  n_ignore_guessed :: bool
  n_strict_kex :: bool

definition is_kex_extension :: "string \<Rightarrow> bool" where
  "is_kex_extension k = (k \<in> set KEX_EXTENSION_NAMES)"

text \<open>The filter on the peer's list: names this program knows, and no extension.\<close>

definition known_kex :: "string \<Rightarrow> bool" where
  "known_kex k = (case kex_name_try_from k of None \<Rightarrow> False | Some n \<Rightarrow> \<not> is_kex_extension n)"

definition mac_or_none :: "bool \<Rightarrow> (bool \<times> string) rs \<Rightarrow> string rs" where
  "mac_or_none need_mac r =
     (case r of Err e \<Rightarrow> if need_mac then Err e else Ok NONE_NAME | _ \<Rightarrow> and_then r (\<lambda>(_, m). Ok m))"

definition read_kex ::
    "wire \<Rightarrow> (algorithm \<Rightarrow> string) \<Rightarrow> role \<Rightarrow> bytes \<Rightarrow> preferred \<Rightarrow> algorithm list option \<Rightarrow> kex_cause
      \<Rightarrow> negotiated rs" where
  "read_kex W alg_str role buf pref available_host_keys cause =
     and_then (ok_or (get_from 17 buf) Inconsistent) (\<lambda>r.
     and_then (r_str W r) (\<lambda>(kex_string, r).
       let local_kexes = filter (\<lambda>k. \<not> is_kex_extension k) (pref_kex pref);
           remote_kexes = filter known_kex (parse_kex_algo_list kex_string) in
     and_then (select role (\<lambda>k. k) local_kexes remote_kexes AK_Kex) (\<lambda>(kex_both_first, kex_algorithm).
       let strict_kex_requested =
             ((if role_is_server role then STRICT_KEX_AS_SERVER else STRICT_KEX_AS_CLIENT) \<in> set (pref_kex pref));
           strict_kex_provided =
             is_ok (select role (\<lambda>k. k) [if role_is_server role then STRICT_KEX_AS_CLIENT else STRICT_KEX_AS_SERVER]
               (parse_kex_algo_list kex_string) AK_Kex) in
     and_then (r_str W r) (\<lambda>(key_string, r).
       let possible_host_key_algos =
             (case available_host_keys of
                Some keys \<Rightarrow> possible_host_key_algos_for_keys pref keys
              | None \<Rightarrow> pref_key pref) in
     and_then (select role alg_str possible_host_key_algos (parse_kex_algo_list key_string) AK_Key)
       (\<lambda>(key_both_first, key_algorithm).
     and_then (r_str W r) (\<lambda>(cipher_string, r).
     and_then (select role (\<lambda>c. c) (pref_cipher pref) (parse_kex_algo_list cipher_string) AK_Cipher)
       (\<lambda>(_, cipher).
     and_then (r_str W r) (\<lambda>(_, r).
       let need_mac = (case CIPHERS cipher of None \<Rightarrow> False | Some x \<Rightarrow> needs_mac x) in
     and_then (r_str W r) (\<lambda>(s, r).
     and_then (mac_or_none need_mac (select role (\<lambda>m. m) (pref_mac pref) (parse_kex_algo_list s) AK_Mac))
       (\<lambda>client_mac.
     and_then (r_str W r) (\<lambda>(s, r).
     and_then (mac_or_none need_mac (select role (\<lambda>m. m) (pref_mac pref) (parse_kex_algo_list s) AK_Mac))
       (\<lambda>server_mac.
     and_then (r_str W r) (\<lambda>(s, r).
     and_then (select role (\<lambda>c. c) (pref_compression pref) (parse_kex_algo_list s) AK_Compression)
       (\<lambda>(_, client_compression).
     and_then (r_str W r) (\<lambda>(s, r).
     and_then (select role (\<lambda>c. c) (pref_compression pref) (parse_kex_algo_list s) AK_Compression)
       (\<lambda>(_, server_compression).
     and_then (r_str W r) (\<lambda>(_, r).
     and_then (r_str W r) (\<lambda>(_, r).
     and_then (r_u8 W r) (\<lambda>(follows, r).
       Ok \<lparr>n_kex = kex_algorithm, n_key = key_algorithm, n_cipher = cipher,
           n_client_mac = client_mac, n_server_mac = server_mac,
           n_server_compression = compression_new server_compression,
           n_client_compression = compression_new client_compression,
           n_ignore_guessed = (follows \<noteq> 0 \<and> \<not> (kex_both_first \<and> key_both_first)),
           n_strict_kex = ((strict_kex_requested \<and> strict_kex_provided) \<or> is_strict_rekey cause)\<rparr>)))))))))))))))))))"

text \<open>\<open>write_kex\<close>: \<open>server_keys\<close> are the algorithms of a server's host keys, \<open>None\<close> for a client;
  \<open>cookie\<close> is the random cookie.\<close>

definition kex_names_to_send :: "preferred \<Rightarrow> algorithm list option \<Rightarrow> string list" where
  "kex_names_to_send prefs server_keys =
     filter (\<lambda>k. k \<notin> set (if server_keys \<noteq> None then [EXTENSION_SUPPORT_AS_CLIENT, STRICT_KEX_AS_CLIENT]
                          else [EXTENSION_SUPPORT_AS_SERVER, STRICT_KEX_AS_SERVER])) (pref_kex prefs)"

definition key_names_to_send :: "(algorithm \<Rightarrow> string) \<Rightarrow> preferred \<Rightarrow> algorithm list option \<Rightarrow> string list" where
  "key_names_to_send alg_str prefs server_keys =
     (case server_keys of
        Some keys \<Rightarrow> map alg_str (filter (\<lambda>algo. \<exists>k \<in> set keys. is_key_compatible_with_algo k algo) (pref_key prefs))
      | None \<Rightarrow> map alg_str (pref_key prefs))"

definition kexinit_fields ::
    "wire \<Rightarrow> (algorithm \<Rightarrow> string) \<Rightarrow> bytes \<Rightarrow> preferred \<Rightarrow> algorithm list option \<Rightarrow> bytes rs list" where
  "kexinit_fields W alg_str cookie prefs server_keys =
     w_u8 W KEXINIT # map (w_u8 W) cookie
     @ [name_list_encode W (kex_names_to_send prefs server_keys),
        name_list_encode W (key_names_to_send alg_str prefs server_keys),
        name_list_encode W (pref_cipher prefs), name_list_encode W (pref_cipher prefs),
        name_list_encode W (pref_mac prefs), name_list_encode W (pref_mac prefs),
        name_list_encode W (pref_compression prefs), name_list_encode W (pref_compression prefs),
        w_strs W [], w_strs W [], w_u8 W 0, w_u32 W 0]"

definition write_kex ::
    "('st, 'z) crates \<Rightarrow> (algorithm \<Rightarrow> string) \<Rightarrow> bytes \<Rightarrow> preferred \<Rightarrow> algorithm list option
      \<Rightarrow> ('st, 'z) packet_writer \<Rightarrow> (bytes \<times> ('st, 'z) packet_writer) rs" where
  "write_kex E alg_str cookie prefs server_keys writer =
     packet E (kexinit_fields (wire_of E) alg_str cookie prefs server_keys) writer"


section \<open>The contract of a selection\<close>

text \<open>The name that both sides should end with: the first of the client's that the server has
  (RFC 4253, section 7.1).\<close>

definition agreed :: "string list \<Rightarrow> string list \<Rightarrow> string option" where
  "agreed client_list server_list = find (\<lambda>c. c \<in> set server_list) client_list"

locale selection =
  fixes nm :: "'s \<Rightarrow> string"
    and sel :: "'s list \<Rightarrow> string list \<Rightarrow> algorithm_kind \<Rightarrow> (bool \<times> 's) rs"
    and clients servers :: "string list \<Rightarrow> string list \<Rightarrow> string list" \<comment> \<open>of ours and theirs\<close>
  assumes refused: "agreed (clients (map nm ours) theirs) (servers (map nm ours) theirs) = None
      \<Longrightarrow> sel ours theirs kind = Err (NoCommonAlgo kind (map nm ours) theirs)"
    and chosen: "agreed (clients (map nm ours) theirs) (servers (map nm ours) theirs) = Some c
      \<Longrightarrow> \<exists>s \<in> set ours. nm s = c \<and> sel ours theirs kind
        = Ok (hd (clients (map nm ours) theirs) = hd (servers (map nm ours) theirs), s)"
begin

lemma sel_Ok:
  assumes "sel ours theirs kind = Ok (f, s)"
  shows "agreed (clients (map nm ours) theirs) (servers (map nm ours) theirs) = Some (nm s)"
    and "s \<in> set ours"
    and "f \<longleftrightarrow> hd (clients (map nm ours) theirs) = hd (servers (map nm ours) theirs)"
proof -
  obtain c where c: "agreed (clients (map nm ours) theirs) (servers (map nm ours) theirs) = Some c"
    using assms refused [of ours theirs kind] by (cases "agreed (clients (map nm ours) theirs) (servers (map nm ours) theirs)") auto
  with chosen [OF c, of kind] assms
  show "agreed (clients (map nm ours) theirs) (servers (map nm ours) theirs) = Some (nm s)"
    and "s \<in> set ours"
    and "f \<longleftrightarrow> hd (clients (map nm ours) theirs) = hd (servers (map nm ours) theirs)"
    by auto
qed

lemma is_ok_sel: "is_ok (sel ours theirs kind) \<longleftrightarrow>
    agreed (clients (map nm ours) theirs) (servers (map nm ours) theirs) \<noteq> None"
  using refused [of ours theirs kind] chosen [of ours theirs _ kind]
  by (cases "agreed (clients (map nm ours) theirs) (servers (map nm ours) theirs)") auto

lemma sel_image:
  "inj_on nm (set ours) \<Longrightarrow> s \<in> set ours \<Longrightarrow>
    agreed (clients (map nm ours) theirs) (servers (map nm ours) theirs) = Some (nm s) \<Longrightarrow>
    \<exists>f. sel ours theirs kind = Ok (f, s)"
  using chosen [of ours theirs "nm s" kind] by (auto dest: inj_onD)

end

lemma find_SomeD: "find P xs = Some x \<Longrightarrow> x \<in> set xs \<and> P x"
  by (induction xs) (auto split: if_splits)

lemma find_named: "find (\<lambda>s. nm s = c) ss = None \<longleftrightarrow> c \<notin> nm ` set ss"
  by (induction ss) auto

lemma find_map: "find P (map f xs) = map_option f (find (\<lambda>x. P (f x)) xs)"
  by (induction xs) auto

lemma hd_map_nonempty: "find P xs = Some x \<Longrightarrow> hd (map f xs) = f (hd xs)"
  by (cases xs) auto

lemma server_inner_spec:
  "server_inner nm c ss b =
    (case find (\<lambda>s. nm s = c) ss of
       None \<Rightarrow> Inl (b \<and> ss = [])
     | Some s \<Rightarrow> Inr (b \<and> c = nm (hd ss), s))"
  by (induction ss arbitrary: b) (auto split: option.splits)

lemma server_outer_flag_False:
  "server_outer nm cs ss False = map_option (\<lambda>c. (False, the (find (\<lambda>s. nm s = c) ss))) (agreed cs (map nm ss))"
proof (induction cs)
  case (Cons c cs)
  show ?case
  proof (cases "find (\<lambda>s. nm s = c) ss")
    case None
    then have "c \<notin> nm ` set ss" unfolding find_named .
    then show ?thesis using Cons None by (simp add: agreed_def server_inner_spec)
  next
    case (Some s)
    then have "c \<in> nm ` set ss" using find_named [of nm c ss] by auto
    then show ?thesis using Some by (simp add: agreed_def server_inner_spec)
  qed
qed (simp add: agreed_def)

lemma server_outer_spec:
  "server_outer nm cs ss True =
    map_option (\<lambda>c. (hd cs = hd (map nm ss), the (find (\<lambda>s. nm s = c) ss))) (agreed cs (map nm ss))"
proof (cases cs)
  case (Cons c r)
  show ?thesis
  proof (cases ss)
    case Nil
    have "server_outer nm cs [] True = None" by (induction cs) auto
    then show ?thesis using Nil by (simp add: agreed_def find_None_iff)
  next
    case c': (Cons s t)
    show ?thesis
    proof (cases "find (\<lambda>s. nm s = c) ss")
      case None
      then have n: "c \<notin> nm ` set ss" unfolding find_named .
      then have "c \<noteq> nm s" using c' by auto
      moreover have "server_outer nm cs ss True = server_outer nm r ss False"
        using None Cons c' by (simp add: server_inner_spec)
      ultimately show ?thesis
        using Cons c' n by (simp add: server_outer_flag_False agreed_def del: server_outer.simps)
    next
      case (Some x)
      then have "c \<in> nm ` set ss" using find_named [of nm c ss] by auto
      then show ?thesis using Some Cons c' by (simp add: agreed_def server_inner_spec)
    qed
  qed
qed (simp add: agreed_def)

lemma client_inner_spec:
  "client_inner nm c ss b = (if nm c \<in> set ss then Inr (b \<and> nm c = hd ss, c) else Inl (b \<and> ss = []))"
  by (induction ss arbitrary: b) auto

lemma client_outer_flag_False:
  "client_outer nm cs ss False = map_option (\<lambda>c. (False, c)) (find (\<lambda>c. nm c \<in> set ss) cs)"
  by (induction cs) (auto simp: client_inner_spec)

lemma client_outer_spec:
  "client_outer nm cs ss True = map_option (\<lambda>c. (nm (hd cs) = hd ss, c)) (find (\<lambda>c. nm c \<in> set ss) cs)"
proof (cases cs)
  case (Cons c r)
  show ?thesis
  proof (cases ss)
    case Nil
    have "client_outer nm cs [] True = None" by (induction cs) auto
    then show ?thesis using Nil by (simp add: find_None_iff)
  next
    case (Cons s t)
    then show ?thesis
      using \<open>cs = c # r\<close> by (auto simp: client_inner_spec client_outer_flag_False)
  qed
qed simp

interpretation server_sel: selection nm "server_select nm" "\<lambda>ours theirs. theirs" "\<lambda>ours theirs. ours" for nm
proof (unfold_locales, goal_cases)
  case (1 ours theirs kind)
  then show ?case by (simp add: server_select_def server_outer_spec)
next
  case (2 ours theirs c kind)
  then have "c \<in> set (map nm ours)" unfolding agreed_def by (blast dest: find_SomeD)
  then obtain s where s: "find (\<lambda>s. nm s = c) ours = Some s"
    using find_named [of nm c ours] by auto
  then have "s \<in> set ours" "nm s = c" by (blast dest: find_SomeD)+
  then show ?case using 2 s by (intro bexI [of _ s]) (simp_all add: server_select_def server_outer_spec)
qed

interpretation client_sel: selection nm "client_select nm" "\<lambda>ours theirs. ours" "\<lambda>ours theirs. theirs" for nm
proof (unfold_locales, goal_cases)
  case (1 ours theirs kind)
  then show ?case by (simp add: client_select_def client_outer_spec agreed_def find_map)
next
  case (2 ours theirs c kind)
  then obtain s where s: "find (\<lambda>x. nm x \<in> set theirs) ours = Some s" "nm s = c"
    by (auto simp: agreed_def find_map)
  then have "s \<in> set ours" by (blast dest: find_SomeD)
  then show ?case
    using s hd_map_nonempty [OF s(1), of nm]
    by (intro bexI [of _ s]) (simp_all add: client_select_def client_outer_spec)
qed


section \<open>What a side makes of the other's announcement\<close>

text \<open>The lists of a KEXINIT, as a peer parses them.\<close>

record announced =
  a_kex :: "string list"
  a_key :: "string list"
  a_cipher :: "string list"
  a_mac :: "string list"
  a_compression :: "string list"

definition announcement :: "(algorithm \<Rightarrow> string) \<Rightarrow> preferred \<Rightarrow> algorithm list option \<Rightarrow> announced" where
  "announcement alg_str p keys =
     \<lparr>a_kex = kex_names_to_send p keys, a_key = key_names_to_send alg_str p keys, a_cipher = pref_cipher p,
      a_mac = pref_mac p, a_compression = pref_compression p\<rparr>"

definition plain_list :: "string list \<Rightarrow> bool" where
  "plain_list names \<longleftrightarrow> (\<forall>n \<in> set names. plain_name n) \<and> length (as_encoded_string names) < 2 ^ 32"

definition plain_announced :: "announced \<Rightarrow> bool" where
  "plain_announced a \<longleftrightarrow> plain_list (a_kex a) \<and> plain_list (a_key a) \<and> plain_list (a_cipher a)
     \<and> plain_list (a_mac a) \<and> plain_list (a_compression a)"

text \<open>\<open>read_kex\<close> over lists instead of bytes, where no guessed packet follows.\<close>

definition negotiate ::
    "(algorithm \<Rightarrow> string) \<Rightarrow> role \<Rightarrow> preferred \<Rightarrow> algorithm list option \<Rightarrow> kex_cause \<Rightarrow> announced
      \<Rightarrow> negotiated rs" where
  "negotiate alg_str role pref keys cause a =
     and_then (select role (\<lambda>k. k) (filter (\<lambda>k. \<not> is_kex_extension k) (pref_kex pref))
       (filter known_kex (sent_names (a_kex a))) AK_Kex) (\<lambda>(_, kex).
     and_then (select role alg_str
       (case keys of Some ks \<Rightarrow> possible_host_key_algos_for_keys pref ks | None \<Rightarrow> pref_key pref)
       (sent_names (a_key a)) AK_Key) (\<lambda>(_, key).
     and_then (select role (\<lambda>c. c) (pref_cipher pref) (sent_names (a_cipher a)) AK_Cipher) (\<lambda>(_, cipher).
     let need_mac = (case CIPHERS cipher of None \<Rightarrow> False | Some x \<Rightarrow> needs_mac x);
         mac = mac_or_none need_mac (select role (\<lambda>m. m) (pref_mac pref) (sent_names (a_mac a)) AK_Mac);
         comp = select role (\<lambda>c. c) (pref_compression pref) (sent_names (a_compression a)) AK_Compression in
     and_then mac (\<lambda>mac. and_then comp (\<lambda>(_, comp).
       Ok \<lparr>n_kex = kex, n_key = key, n_cipher = cipher, n_client_mac = mac, n_server_mac = mac,
           n_server_compression = compression_new comp, n_client_compression = compression_new comp,
           n_ignore_guessed = False,
           n_strict_kex =
             (((if role_is_server role then STRICT_KEX_AS_SERVER else STRICT_KEX_AS_CLIENT) \<in> set (pref_kex pref)
               \<and> is_ok (select role (\<lambda>k. k) [if role_is_server role then STRICT_KEX_AS_CLIENT else STRICT_KEX_AS_SERVER]
                   (sent_names (a_kex a)) AK_Kex))
              \<or> is_strict_rekey cause)\<rparr>)))))"

definition nl :: "wire \<Rightarrow> string list \<Rightarrow> bytes" where
  "nl W names = be_put W (as_u32 (length (as_encoded_string names))) @ as_bytes (as_encoded_string names)"

lemma name_list_encode_eq: "ssh_wire W \<Longrightarrow> plain_list names \<Longrightarrow> name_list_encode W names = Ok (nl W names)"
  by (simp add: name_list_encode_def nl_def plain_list_def ssh_wire.put_str ssh_wire.put_bytes)

lemma read_nl:
  "ssh_wire W \<Longrightarrow> plain_list names \<Longrightarrow> r_str W (nl W names @ r) = Ok (as_encoded_string names, r)"
  using as_encoded_string_ascii [of names]
  by (simp add: nl_def plain_list_def ssh_wire.get_str)

lemma parse_nl: "plain_list names \<Longrightarrow> parse_kex_algo_list (as_encoded_string names) = sent_names names"
  using from_as_encoded_string [of names]
  by (simp add: parse_kex_algo_list_def plain_list_def from_encoded_string_def)

lemma puts_bytes: "ssh_wire W \<Longrightarrow> puts (map (w_u8 W) c @ es) b = puts es (b @ c)"
  by (induction c arbitrary: b) (simp_all add: ssh_wire.put_u8)

lemma kexinit_bytes:
  assumes "ssh_wire W" and pl: "plain_announced (announcement alg_str p keys)"
  shows "puts (kexinit_fields W alg_str cookie p keys) [] = Ok (KEXINIT # cookie
    @ nl W (kex_names_to_send p keys) @ nl W (key_names_to_send alg_str p keys)
    @ nl W (pref_cipher p) @ nl W (pref_cipher p) @ nl W (pref_mac p) @ nl W (pref_mac p)
    @ nl W (pref_compression p) @ nl W (pref_compression p) @ nl W [] @ nl W [] @ [0] @ be_put W 0)"
proof -
  have e: "w_strs W [] = Ok (nl W [])"
    using assms(1) by (simp add: nl_def as_encoded_string_def ssh_wire.put_no_strs ssh_wire.put_bytes as_bytes_def)
  show ?thesis
    using pl assms(1)
    by (simp add: kexinit_fields_def puts_bytes name_list_encode_eq plain_announced_def announcement_def
        ssh_wire.put_u8 ssh_wire.put_u32 e)
qed

lemma and_then_twice: "and_then m (\<lambda>a. and_then m (\<lambda>b. f a b)) = and_then m (\<lambda>a. f a a)"
  by (cases m) auto

lemma and_then_twice_pair:
  "and_then m (\<lambda>(_, a). and_then m (\<lambda>(_, b). f a b)) = and_then m (\<lambda>(_, a). f a a)"
  by (cases m) auto

lemma read_kexinit:
  assumes W: "ssh_wire W" and pl: "plain_announced (announcement alg_str p' keys')" and "length cookie = 16"
    and "puts (kexinit_fields W alg_str cookie p' keys') [] = Ok buf"
  shows "read_kex W alg_str role buf pref keys cause = negotiate alg_str role pref keys cause (announcement alg_str p' keys')"
proof -
  let ?rest = "nl W (kex_names_to_send p' keys') @ nl W (key_names_to_send alg_str p' keys')
    @ nl W (pref_cipher p') @ nl W (pref_cipher p') @ nl W (pref_mac p') @ nl W (pref_mac p')
    @ nl W (pref_compression p') @ nl W (pref_compression p') @ nl W [] @ nl W [] @ [0] @ be_put W 0"
  have buf: "get_from 17 buf = Some ?rest"
    using kexinit_bytes [OF W pl, of cookie] assms(3,4) by (auto simp: get_from_def)
  have n: "plain_list []" by (simp add: plain_list_def as_encoded_string_def)
  have ps: "plain_list (kex_names_to_send p' keys')" "plain_list (key_names_to_send alg_str p' keys')"
    "plain_list (pref_cipher p')" "plain_list (pref_mac p')" "plain_list (pref_compression p')"
    using pl by (simp_all add: plain_announced_def announcement_def)
  note rd = read_nl [OF W ps(1)] read_nl [OF W ps(2)] read_nl [OF W ps(3)] read_nl [OF W ps(4)]
    read_nl [OF W ps(5)] read_nl [OF W n]
  have r0: "r_u8 W ([0] @ be_put W 0) = Ok (0, be_put W 0)" using W by (simp add: ssh_wire.get_u8)
  note pr = parse_nl [OF ps(1)] parse_nl [OF ps(2)] parse_nl [OF ps(3)] parse_nl [OF ps(4)] parse_nl [OF ps(5)]
  show ?thesis
    by (simp only: read_kex_def negotiate_def buf ok_or.simps and_then.simps rd r0 prod.case pr Let_def
        announcement_def announced.simps and_then_twice and_then_twice_pair simp_thms)
qed


section \<open>Agreement\<close>

definition choice :: "role \<Rightarrow> string list \<Rightarrow> string list \<Rightarrow> string option" where
  "choice role ours theirs = (case role of Server \<Rightarrow> agreed theirs ours | Client \<Rightarrow> agreed ours theirs)"

lemma select_alg_iff:
  "inj_on nm (set ours) \<Longrightarrow> (\<exists>f. select role nm ours theirs k = Ok (f, x)) \<longleftrightarrow>
    x \<in> set ours \<and> choice role (map nm ours) theirs = Some (nm x)"
  using server_sel.sel_Ok [of nm ours theirs k _ x] server_sel.sel_image [of nm ours x theirs k]
    client_sel.sel_Ok [of nm ours theirs k _ x] client_sel.sel_image [of nm ours x theirs k]
  by (cases role) (auto simp: select_def choice_def)

lemma agreed_member: "agreed c s = Some x \<Longrightarrow> x \<in> set c \<and> x \<in> set s"
  unfolding agreed_def by (blast dest: find_SomeD)

lemma choice_member: "choice role ours theirs = Some x \<Longrightarrow> x \<in> set ours \<and> x \<in> set theirs"
  by (cases role) (auto simp: choice_def dest: agreed_member)

lemma select_iff:
  "(\<exists>f. select role (\<lambda>x. x) ours theirs k = Ok (f, x)) \<longleftrightarrow> choice role ours theirs = Some x"
  using select_alg_iff [of "\<lambda>x. x" ours role theirs k x] choice_member [of role ours theirs x] by auto

lemma select_outcome: "(\<exists>x. select role nm ours theirs k = Ok x) \<or> (\<exists>e. select role nm ours theirs k = Err e)"
proof -
  have "(\<exists>x. ok_or v e = Ok x) \<or> (\<exists>e'. ok_or v e = Err e')" for v :: "'b option" and e
    by (cases v) auto
  then show ?thesis by (cases role) (simp_all only: select_def server_select_def client_select_def role.case)
qed

lemma mac_or_none_iff:
  "mac_or_none need (select role (\<lambda>m. m) ours theirs k) = Ok m \<longleftrightarrow>
    choice role ours theirs = Some m \<or> (choice role ours theirs = None \<and> \<not> need \<and> m = NONE_NAME)"
proof (cases "select role (\<lambda>m. m) ours theirs k")
  case (Ok y)
  then have "choice role ours theirs = Some (snd y)"
    by (metis prod.collapse select_iff)
  then show ?thesis using Ok by (auto simp: mac_or_none_def split: prod.splits)
next
  case (Err e)
  then have "choice role ours theirs = None"
    by (metis not_None_eq rs.distinct(1) select_iff)
  then show ?thesis using Err by (auto simp: mac_or_none_def)
qed (use select_outcome [of role "\<lambda>m. m" ours theirs k] in auto)

lemma agreed_sent:
  "[] \<notin> set s \<Longrightarrow> agreed (sent_names c) s = agreed c s"
  "[] \<notin> set c \<Longrightarrow> agreed c (sent_names s) = agreed c s"
proof -
  show "[] \<notin> set s \<Longrightarrow> agreed (sent_names c) s = agreed c s"
    by (simp add: agreed_def sent_names_def)
  show "[] \<notin> set c \<Longrightarrow> agreed c (sent_names s) = agreed c s"
    by (induction c) (auto simp: agreed_def sent_names_def)
qed

lemma choice_agree:
  assumes "[] \<notin> set s" "[] \<notin> set c"
  shows "choice Server s (sent_names c) = agreed c s" "choice Client c (sent_names s) = agreed c s"
  using assms by (simp_all add: choice_def agreed_sent)

lemma plain_no_empty: "plain_list l \<Longrightarrow> [] \<notin> set l"
  by (auto simp: plain_list_def plain_name_def)

lemma is_ok_pair: "is_ok m \<longleftrightarrow> (\<exists>x f. m = Ok (f, x))"
  by (cases m) auto

lemma mac_Ok_iff: "and_then (mac_or_none need r) f = Ok y \<longleftrightarrow> (\<exists>x. mac_or_none need r = Ok x \<and> f x = Ok y)"
  by (simp add: and_then_eq_Ok)

lemma is_ok_select: "is_ok (select role (\<lambda>x. x) ours theirs k) \<longleftrightarrow> choice role ours theirs \<noteq> None"
  by (simp add: is_ok_pair select_iff)

lemma pair_Ok_iff: "and_then m (\<lambda>(_, x). f x) = Ok y \<longleftrightarrow> (\<exists>x. (\<exists>b. m = Ok (b, x)) \<and> f x = Ok y)"
  by (cases m) auto

lemma negotiate_Ok_iff:
  assumes "inj_on alg_str (set (case keys of Some ks \<Rightarrow> possible_host_key_algos_for_keys pref ks | None \<Rightarrow> pref_key pref))"
  shows "negotiate alg_str role pref keys cause a = Ok n \<longleftrightarrow> (\<exists>kex key cipher mac comp.
     choice role (filter (\<lambda>k. \<not> is_kex_extension k) (pref_kex pref)) (filter known_kex (sent_names (a_kex a))) = Some kex
   \<and> (let ours = (case keys of Some ks \<Rightarrow> possible_host_key_algos_for_keys pref ks | None \<Rightarrow> pref_key pref)
      in key \<in> set ours \<and> choice role (map alg_str ours) (sent_names (a_key a)) = Some (alg_str key))
   \<and> choice role (pref_cipher pref) (sent_names (a_cipher a)) = Some cipher
   \<and> (choice role (pref_mac pref) (sent_names (a_mac a)) = Some mac
      \<or> choice role (pref_mac pref) (sent_names (a_mac a)) = None
        \<and> \<not> (case CIPHERS cipher of None \<Rightarrow> False | Some x \<Rightarrow> needs_mac x) \<and> mac = NONE_NAME)
   \<and> choice role (pref_compression pref) (sent_names (a_compression a)) = Some comp
   \<and> n = \<lparr>n_kex = kex, n_key = key, n_cipher = cipher, n_client_mac = mac, n_server_mac = mac,
           n_server_compression = compression_new comp, n_client_compression = compression_new comp,
           n_ignore_guessed = False,
           n_strict_kex =
             (((if role_is_server role then STRICT_KEX_AS_SERVER else STRICT_KEX_AS_CLIENT) \<in> set (pref_kex pref)
               \<and> (if role_is_server role then STRICT_KEX_AS_CLIENT else STRICT_KEX_AS_SERVER) \<in> set (sent_names (a_kex a)))
              \<or> is_strict_rekey cause)\<rparr>)"
proof -
  have strict: "choice role [x] l \<noteq> None \<longleftrightarrow> x \<in> set l" for x l
    by (cases role) (auto simp: choice_def agreed_def find_None_iff)
  show ?thesis
    unfolding negotiate_def Let_def pair_Ok_iff mac_Ok_iff select_iff select_alg_iff [OF assms] mac_or_none_iff is_ok_select strict rs.inject
    by blast
qed


definition kex_list_ok :: "string list \<Rightarrow> bool" where
  "kex_list_ok l \<longleftrightarrow> set l \<subseteq> set ALL_KEX_ALGORITHMS \<union> set KEX_EXTENSION_NAMES"

lemma known_kex_iff: "known_kex k \<longleftrightarrow> k \<in> set ALL_KEX_ALGORITHMS \<and> \<not> is_kex_extension k"
proof -
  have "find (\<lambda>x. x = k) l = (if k \<in> set l then Some k else None)" for l :: "string list"
    by (induction l) auto
  then show ?thesis by (simp add: known_kex_def kex_name_try_from_def)
qed

lemma kex_not_empty: "[] \<notin> set ALL_KEX_ALGORITHMS"
  by (simp add: ALL_KEX_ALGORITHMS_def kex_names)

lemma filter_known:
  assumes "kex_list_ok (pref_kex p)"
  shows "filter known_kex (sent_names (kex_names_to_send p keys)) = filter (\<lambda>k. \<not> is_kex_extension k) (pref_kex p)"
proof -
  let ?l = "kex_names_to_send p keys"
  have "filter known_kex (sent_names ?l) = filter known_kex ?l"
    using kex_not_empty by (simp add: sent_names_def known_kex_iff)
  also have "\<dots> = filter (\<lambda>k. \<not> is_kex_extension k) (pref_kex p)"
    unfolding kex_names_to_send_def filter_filter
    by (rule filter_cong) (use assms in \<open>auto simp: known_kex_iff kex_list_ok_def is_kex_extension_def KEX_EXTENSION_NAMES_def\<close>)
  finally show ?thesis .
qed

lemma filtered_no_empty: "kex_list_ok l \<Longrightarrow> [] \<notin> set (filter (\<lambda>k. \<not> is_kex_extension k) l)"
  using kex_not_empty by (auto simp: kex_list_ok_def is_kex_extension_def)

lemma strict_names_distinct:
  "STRICT_KEX_AS_CLIENT \<notin> {EXTENSION_SUPPORT_AS_SERVER, STRICT_KEX_AS_SERVER, []}"
  "STRICT_KEX_AS_SERVER \<notin> {EXTENSION_SUPPORT_AS_CLIENT, STRICT_KEX_AS_CLIENT, []}"
  by (simp_all add: kex_extensions)

lemma strict_sent:
  "STRICT_KEX_AS_CLIENT \<in> set (sent_names (kex_names_to_send p None)) \<longleftrightarrow> STRICT_KEX_AS_CLIENT \<in> set (pref_kex p)"
  "STRICT_KEX_AS_SERVER \<in> set (sent_names (kex_names_to_send p (Some ks))) \<longleftrightarrow> STRICT_KEX_AS_SERVER \<in> set (pref_kex p)"
proof -
  have s: "x \<noteq> [] \<Longrightarrow> x \<in> set (sent_names l) \<longleftrightarrow> x \<in> set l" for x l by (simp add: sent_names_def)
  show "STRICT_KEX_AS_CLIENT \<in> set (sent_names (kex_names_to_send p None)) \<longleftrightarrow> STRICT_KEX_AS_CLIENT \<in> set (pref_kex p)"
    using strict_names_distinct s [of STRICT_KEX_AS_CLIENT] by (simp add: kex_names_to_send_def)
  show "STRICT_KEX_AS_SERVER \<in> set (sent_names (kex_names_to_send p (Some ks))) \<longleftrightarrow> STRICT_KEX_AS_SERVER \<in> set (pref_kex p)"
    using strict_names_distinct s [of STRICT_KEX_AS_SERVER] by (simp add: kex_names_to_send_def)
qed

lemma key_choice:
  assumes inj: "inj_on nm (set c \<union> set s)" and "[] \<notin> set (map nm s)" "[] \<notin> set (map nm c)"
  shows "(key \<in> set s \<and> choice Server (map nm s) (sent_names (map nm c)) = Some (nm key)) \<longleftrightarrow>
    (key \<in> set c \<and> choice Client (map nm c) (sent_names (map nm s)) = Some (nm key))"
proof -
  have "key \<in> set s \<and> key \<in> set c" if a: "agreed (map nm c) (map nm s) = Some (nm key)" "key \<in> set s \<union> set c"
  proof -
    from agreed_member [OF a(1)] obtain x y where "x \<in> set c" "nm x = nm key" "y \<in> set s" "nm y = nm key" by auto
    with a(2) inj show ?thesis by (metis Un_iff inj_onD)
  qed
  then show ?thesis using choice_agree [OF assms(2,3)] by auto
qed

lemma negotiate_agree:
  assumes "plain_announced (announcement alg_str pc None)" "plain_announced (announcement alg_str ps (Some ks))"
    and "kex_list_ok (pref_kex pc)" "kex_list_ok (pref_kex ps)"
    and inj: "inj_on alg_str (set (pref_key pc) \<union> set (pref_key ps))"
  shows "negotiate alg_str Server ps (Some ks) Initial (announcement alg_str pc None) = Ok n \<longleftrightarrow>
    negotiate alg_str Client pc None Initial (announcement alg_str ps (Some ks)) = Ok n"
proof -
  let ?pk = "possible_host_key_algos_for_keys ps ks"
  have sub: "set ?pk \<subseteq> set (pref_key ps)" by (auto simp: possible_host_key_algos_for_keys_def)
  have i1: "inj_on alg_str (set ?pk)" "inj_on alg_str (set (pref_key pc))" "inj_on alg_str (set (pref_key pc) \<union> set ?pk)"
    using inj sub by (auto intro: inj_on_subset)
  have keys: "key_names_to_send alg_str ps (Some ks) = map alg_str ?pk" "key_names_to_send alg_str pc None = map alg_str (pref_key pc)"
    by (simp_all add: key_names_to_send_def possible_host_key_algos_for_keys_def)
  note pl = assms(1,2) [unfolded plain_announced_def announcement_def announced.simps keys]
  have ne: "[] \<notin> set (map alg_str ?pk)" "[] \<notin> set (map alg_str (pref_key pc))"
    using pl plain_no_empty by blast+
  have kx: "choice Server (filter (\<lambda>k. \<not> is_kex_extension k) (pref_kex ps)) (filter (\<lambda>k. \<not> is_kex_extension k) (pref_kex pc))
      = choice Client (filter (\<lambda>k. \<not> is_kex_extension k) (pref_kex pc)) (filter (\<lambda>k. \<not> is_kex_extension k) (pref_kex ps))"
    by (simp add: choice_def)
  have ch: "choice Server (pref_cipher ps) (sent_names (pref_cipher pc)) = choice Client (pref_cipher pc) (sent_names (pref_cipher ps))"
    "choice Server (pref_mac ps) (sent_names (pref_mac pc)) = choice Client (pref_mac pc) (sent_names (pref_mac ps))"
    "choice Server (pref_compression ps) (sent_names (pref_compression pc))
      = choice Client (pref_compression pc) (sent_names (pref_compression ps))"
    using pl plain_no_empty choice_agree by metis+
  note kc = key_choice [OF i1(3) ne]
  have st: "(STRICT_KEX_AS_SERVER \<in> set (pref_kex ps) \<and> STRICT_KEX_AS_CLIENT \<in> set (pref_kex pc))
    = (STRICT_KEX_AS_CLIENT \<in> set (pref_kex pc) \<and> STRICT_KEX_AS_SERVER \<in> set (pref_kex ps))" by blast
  show ?thesis
    using i1(1,2)
    by (simp only: negotiate_Ok_iff option.case announcement_def announced.simps filter_known [OF assms(3)]
        filter_known [OF assms(4)] kx ch keys kc Let_def strict_sent role_is_server_def role.distinct refl if_True if_False st)
qed

text \<open>Property C15: client and server, each reading the other's announcement, come to the same outcome of
  the first negotiation: the server settles on a set of algorithms if and only if the client settles
  on the same one, down to strict key exchange, the compression and the authentication codes of both
  directions, and the host key algorithm among those the server has a key for.\<close>

theorem negotiation_agreement:
  assumes "ssh_wire W"
    and "plain_announced (announcement alg_str pc None)" "plain_announced (announcement alg_str ps (Some ks))"
    and "kex_list_ok (pref_kex pc)" "kex_list_ok (pref_kex ps)"
    and "inj_on alg_str (set (pref_key pc) \<union> set (pref_key ps))"
    and "length ccookie = 16" "length scookie = 16"
    and "puts (kexinit_fields W alg_str ccookie pc None) [] = Ok client_init"
    and "puts (kexinit_fields W alg_str scookie ps (Some ks)) [] = Ok server_init"
  shows "read_kex W alg_str Server client_init ps (Some ks) Initial = Ok n \<longleftrightarrow>
    read_kex W alg_str Client server_init pc None Initial = Ok n"
  using negotiate_agree [OF assms(2-6)] read_kexinit [OF assms(1,2,7,9)] read_kexinit [OF assms(1,3,8,10)]
  by simp

text \<open>Property C24: each side chooses the first algorithm of the client's list that the server also
  has, whichever of the two it is, and refuses with \<open>NoCommonAlgo\<close> exactly when there is none.\<close>

theorem selection_first_of_client:
  "(server_select (\<lambda>x. x) ours theirs kind = Err (NoCommonAlgo kind ours theirs) \<longleftrightarrow> set ours \<inter> set theirs = {})
   \<and> (client_select (\<lambda>x. x) ours theirs kind = Err (NoCommonAlgo kind ours theirs) \<longleftrightarrow> set ours \<inter> set theirs = {})
   \<and> ((\<exists>f. server_select (\<lambda>x. x) ours theirs kind = Ok (f, x)) \<longleftrightarrow> agreed theirs ours = Some x)
   \<and> ((\<exists>f. client_select (\<lambda>x. x) ours theirs kind = Ok (f, x)) \<longleftrightarrow> agreed ours theirs = Some x)"
proof -
  have n: "agreed a b = None \<longleftrightarrow> set a \<inter> set b = {}" for a b
    by (auto simp: agreed_def find_None_iff)
  show ?thesis
    using select_iff [of Server ours theirs kind x] select_iff [of Client ours theirs kind x]
      server_sel.refused [of theirs "\<lambda>x. x" ours kind] server_sel.chosen [of theirs "\<lambda>x. x" ours _ kind]
      client_sel.refused [of "\<lambda>x. x" ours theirs kind] client_sel.chosen [of "\<lambda>x. x" ours theirs _ kind]
      n [of theirs ours] n [of ours theirs]
    by (cases "agreed theirs ours"; cases "agreed ours theirs") (auto simp: select_def choice_def Int_commute)
qed


section \<open>An example\<close>

fun sample_alg_str :: "algorithm \<Rightarrow> string" where
  "sample_alg_str Ed25519 = ''ssh-ed25519''"
| "sample_alg_str (Ecdsa NistP256) = ''ecdsa-sha2-nistp256''"
| "sample_alg_str (Ecdsa NistP384) = ''ecdsa-sha2-nistp384''"
| "sample_alg_str (Ecdsa NistP521) = ''ecdsa-sha2-nistp521''"
| "sample_alg_str (Rsa (Some HashSha256)) = ''rsa-sha2-256''"
| "sample_alg_str (Rsa (Some HashSha512)) = ''rsa-sha2-512''"
| "sample_alg_str (Rsa None) = ''ssh-rsa''"
| "sample_alg_str (OtherAlgorithm n) = n"

definition sample_client :: preferred where
  "sample_client = \<lparr>pref_kex = [CURVE25519, DH_G14_SHA256, STRICT_KEX_AS_CLIENT, STRICT_KEX_AS_SERVER],
     pref_key = [Ed25519, Rsa None], pref_cipher = [CHACHA20_POLY1305, AES_256_CTR], pref_mac = [HMAC_SHA256],
     pref_compression = [NONE_NAME]\<rparr>"

definition sample_server :: preferred where
  "sample_server = \<lparr>pref_kex = [DH_G14_SHA256, STRICT_KEX_AS_CLIENT, STRICT_KEX_AS_SERVER],
     pref_key = [Rsa None, Ed25519], pref_cipher = [AES_256_CTR, CHACHA20_POLY1305], pref_mac = [HMAC_SHA1],
     pref_compression = [NONE_NAME]\<rparr>"

definition sample_names :: negotiated where
  "sample_names = \<lparr>n_kex = DH_G14_SHA256, n_key = Rsa None, n_cipher = CHACHA20_POLY1305,
     n_client_mac = NONE_NAME, n_server_mac = NONE_NAME, n_server_compression = NoCompression,
     n_client_compression = NoCompression, n_ignore_guessed = False, n_strict_kex = True\<rparr>"

lemmas sample_defs = sample_client_def sample_server_def kex_names cipher_names mac_names kex_extensions

lemma sample_plain:
  "plain_announced (announcement sample_alg_str sample_client None)"
  "plain_announced (announcement sample_alg_str sample_server (Some [Rsa (Some HashSha256)]))"
  by (simp_all add: plain_announced_def announcement_def plain_list_def plain_name_def ascii_def
      as_encoded_string_def kex_names_to_send_def key_names_to_send_def sample_defs)

lemma sample_kex_ok: "kex_list_ok (pref_kex sample_client)" "kex_list_ok (pref_kex sample_server)"
  by (simp_all add: kex_list_ok_def ALL_KEX_ALGORITHMS_def KEX_EXTENSION_NAMES_def sample_client_def sample_server_def)

lemma sample_client_choice:
  "negotiate sample_alg_str Client sample_client None Initial
    (announcement sample_alg_str sample_server (Some [Rsa (Some HashSha256)])) = Ok sample_names"
  by code_simp

theorem negotiation_agreement_witness:
  "\<exists>client_init server_init.
     puts (kexinit_fields rfc4251_wire sample_alg_str (replicate 16 1) sample_client None) [] = Ok client_init
   \<and> puts (kexinit_fields rfc4251_wire sample_alg_str (replicate 16 2) sample_server
       (Some [Rsa (Some HashSha256)])) [] = Ok server_init
   \<and> read_kex rfc4251_wire sample_alg_str Server client_init sample_server (Some [Rsa (Some HashSha256)]) Initial
       = Ok sample_names
   \<and> read_kex rfc4251_wire sample_alg_str Client server_init sample_client None Initial = Ok sample_names"
proof -
  note c = kexinit_bytes [OF rfc.ssh_wire_axioms sample_plain(1), of "replicate 16 1"]
  note s = kexinit_bytes [OF rfc.ssh_wire_axioms sample_plain(2), of "replicate 16 2"]
  have inj: "inj_on sample_alg_str (set (pref_key sample_client) \<union> set (pref_key sample_server))"
    by (simp add: inj_on_def sample_client_def sample_server_def)
  have l: "length (replicate 16 (1 :: u8)) = 16" "length (replicate 16 (2 :: u8)) = 16" by simp_all
  note cl = read_kexinit [OF rfc.ssh_wire_axioms sample_plain(2) l(2) s, of Client sample_client None Initial]
  note agree = negotiation_agreement [OF rfc.ssh_wire_axioms sample_plain sample_kex_ok inj l c s, of sample_names]
  note x = trans [OF cl sample_client_choice]
  show ?thesis
    by (intro exI conjI) (rule c, rule s, rule iffD2 [OF agree x], rule x)
qed

end
