(* ===== verification/DhGroups.thy ===== *)
theory DhGroups
  imports Negotiation
begin

text \<open>
  \<open>kex/dh/groups.rs\<close> and \<open>kex/dh/mod.rs\<close> (the group part), with \<open>GexParams\<close> of \<open>client/mod.rs\<close> and the
  default \<open>lookup_dh_gex_group\<close> of \<open>server/mod.rs\<close>: the Diffie-Hellman groups, the arithmetic of an
  exchange and the parameters of a group exchange. A \<open>BigUint\<close> of the crate \<open>num_bigint\<close> is a natural
  number; its conversions and its modular power are a parameter, with what the crate documents as
  \<open>bigint_laws\<close>.
\<close>

section \<open>Numbers\<close>

record bigint =
  from_bytes_be :: "bytes \<Rightarrow> nat"
  to_bytes_be :: "nat \<Rightarrow> bytes"
  modpow :: "nat \<Rightarrow> nat \<Rightarrow> nat \<Rightarrow> nat"
  gen_biguint_range :: "nat \<Rightarrow> nat \<Rightarrow> nat" \<comment> \<open>a random number from the first up to, not including, the second\<close>

definition bigint_laws :: "bigint \<Rightarrow> bool" where
  "bigint_laws B \<longleftrightarrow>
     (\<forall>s. from_bytes_be B s = be_value s)
   \<and> (\<forall>n. be_value (to_bytes_be B n) = n \<and> (0 < n \<longrightarrow> hd (to_bytes_be B n) \<noteq> 0))
   \<and> (\<forall>b e m. 0 < m \<longrightarrow> modpow B b e m = b ^ e mod m)
   \<and> (\<forall>lo hi. lo < hi \<longrightarrow> lo \<le> gen_biguint_range B lo hi \<and> gen_biguint_range B lo hi < hi)"

text \<open>Subtraction panics below zero, the range of the generator must not be empty.\<close>

definition big_sub :: "nat \<Rightarrow> nat \<Rightarrow> nat rs" where
  "big_sub a b = (if b \<le> a then Ok (a - b) else Panic)"

definition big_range :: "bigint \<Rightarrow> nat \<Rightarrow> nat \<Rightarrow> nat rs" where
  "big_range B lo hi = (if lo < hi then Ok (gen_biguint_range B lo hi) else Panic)"

section \<open>Groups\<close>

text \<open>\<open>DhGroupUInt\<close> is a byte string, borrowed or owned.\<close>

record dh_group =
  prime :: bytes
  generator :: bytes

definition dh_bit_size :: "dh_group \<Rightarrow> nat" where
  "dh_bit_size g =
     (case find (\<lambda>i. prime g ! i \<noteq> 0) [0..<length (prime g)] of
        None \<Rightarrow> 0
      | Some fsb_idx \<Rightarrow> (length (prime g) - fsb_idx) * 8)"

text \<open>\<open>hex!(...)\<close>: a number of \<open>len\<close> bytes, most significant first.\<close>

fun hex_bytes :: "nat \<Rightarrow> nat \<Rightarrow> bytes" where
  "hex_bytes 0 n = []"
| "hex_bytes (Suc len) n = hex_bytes len (n div 256) @ [of_nat n]"

definition DH_GROUP1 :: dh_group where
  "DH_GROUP1 = \<lparr>prime = hex_bytes 128
     0xFFFFFFFFFFFFFFFFC90FDAA22168C234C4C6628B80DC1CD129024E088A67CC74020BBEA63B139B22514A08798E3404DDEF9519B3CD3A431B302B0A6DF25F14374FE1356D6D51C245E485B576625E7EC6F44C42E9A637ED6B0BFF5CB6F406B7EDEE386BFB5A899FA5AE9F24117C4B1FE649286651ECE65381FFFFFFFFFFFFFFFF,
     generator = [2]\<rparr>"

definition DH_GROUP14 :: dh_group where
  "DH_GROUP14 = \<lparr>prime = hex_bytes 256
     0xFFFFFFFFFFFFFFFFC90FDAA22168C234C4C6628B80DC1CD129024E088A67CC74020BBEA63B139B22514A08798E3404DDEF9519B3CD3A431B302B0A6DF25F14374FE1356D6D51C245E485B576625E7EC6F44C42E9A637ED6B0BFF5CB6F406B7EDEE386BFB5A899FA5AE9F24117C4B1FE649286651ECE45B3DC2007CB8A163BF0598DA48361C55D39A69163FA8FD24CF5F83655D23DCA3AD961C62F356208552BB9ED529077096966D670C354E4ABC9804F1746C08CA18217C32905E462E36CE3BE39E772C180E86039B2783A2EC07A28FB5C55DF06F4C52C9DE2BCBF6955817183995497CEA956AE515D2261898FA051015728E5A8AACAA68FFFFFFFFFFFFFFFF,
     generator = [2]\<rparr>"

definition DH_GROUP15 :: dh_group where
  "DH_GROUP15 = \<lparr>prime = hex_bytes 384
     0xFFFFFFFFFFFFFFFFC90FDAA22168C234C4C6628B80DC1CD129024E088A67CC74020BBEA63B139B22514A08798E3404DDEF9519B3CD3A431B302B0A6DF25F14374FE1356D6D51C245E485B576625E7EC6F44C42E9A637ED6B0BFF5CB6F406B7EDEE386BFB5A899FA5AE9F24117C4B1FE649286651ECE45B3DC2007CB8A163BF0598DA48361C55D39A69163FA8FD24CF5F83655D23DCA3AD961C62F356208552BB9ED529077096966D670C354E4ABC9804F1746C08CA18217C32905E462E36CE3BE39E772C180E86039B2783A2EC07A28FB5C55DF06F4C52C9DE2BCBF6955817183995497CEA956AE515D2261898FA051015728E5A8AAAC42DAD33170D04507A33A85521ABDF1CBA64ECFB850458DBEF0A8AEA71575D060C7DB3970F85A6E1E4C7ABF5AE8CDB0933D71E8C94E04A25619DCEE3D2261AD2EE6BF12FFA06D98A0864D87602733EC86A64521F2B18177B200CBBE117577A615D6C770988C0BAD946E208E24FA074E5AB3143DB5BFCE0FD108E4B82D120A93AD2CAFFFFFFFFFFFFFFFF,
     generator = [2]\<rparr>"

definition DH_GROUP16 :: dh_group where
  "DH_GROUP16 = \<lparr>prime = hex_bytes 512
     0xFFFFFFFFFFFFFFFFC90FDAA22168C234C4C6628B80DC1CD129024E088A67CC74020BBEA63B139B22514A08798E3404DDEF9519B3CD3A431B302B0A6DF25F14374FE1356D6D51C245E485B576625E7EC6F44C42E9A637ED6B0BFF5CB6F406B7EDEE386BFB5A899FA5AE9F24117C4B1FE649286651ECE45B3DC2007CB8A163BF0598DA48361C55D39A69163FA8FD24CF5F83655D23DCA3AD961C62F356208552BB9ED529077096966D670C354E4ABC9804F1746C08CA18217C32905E462E36CE3BE39E772C180E86039B2783A2EC07A28FB5C55DF06F4C52C9DE2BCBF6955817183995497CEA956AE515D2261898FA051015728E5A8AAAC42DAD33170D04507A33A85521ABDF1CBA64ECFB850458DBEF0A8AEA71575D060C7DB3970F85A6E1E4C7ABF5AE8CDB0933D71E8C94E04A25619DCEE3D2261AD2EE6BF12FFA06D98A0864D87602733EC86A64521F2B18177B200CBBE117577A615D6C770988C0BAD946E208E24FA074E5AB3143DB5BFCE0FD108E4B82D120A92108011A723C12A787E6D788719A10BDBA5B2699C327186AF4E23C1A946834B6150BDA2583E9CA2AD44CE8DBBBC2DB04DE8EF92E8EFC141FBECAA6287C59474E6BC05D99B2964FA090C3A2233BA186515BE7ED1F612970CEE2D7AFB81BDD762170481CD0069127D5B05AA993B4EA988D8FDDC186FFB7DC90A6C08F4DF435C934063199FFFFFFFFFFFFFFFF,
     generator = [2]\<rparr>"

definition DH_GROUP17 :: dh_group where
  "DH_GROUP17 = \<lparr>prime = hex_bytes 768
     0xFFFFFFFFFFFFFFFFC90FDAA22168C234C4C6628B80DC1CD129024E088A67CC74020BBEA63B139B22514A08798E3404DDEF9519B3CD3A431B302B0A6DF25F14374FE1356D6D51C245E485B576625E7EC6F44C42E9A637ED6B0BFF5CB6F406B7EDEE386BFB5A899FA5AE9F24117C4B1FE649286651ECE45B3DC2007CB8A163BF0598DA48361C55D39A69163FA8FD24CF5F83655D23DCA3AD961C62F356208552BB9ED529077096966D670C354E4ABC9804F1746C08CA18217C32905E462E36CE3BE39E772C180E86039B2783A2EC07A28FB5C55DF06F4C52C9DE2BCBF6955817183995497CEA956AE515D2261898FA051015728E5A8AAAC42DAD33170D04507A33A85521ABDF1CBA64ECFB850458DBEF0A8AEA71575D060C7DB3970F85A6E1E4C7ABF5AE8CDB0933D71E8C94E04A25619DCEE3D2261AD2EE6BF12FFA06D98A0864D87602733EC86A64521F2B18177B200CBBE117577A615D6C770988C0BAD946E208E24FA074E5AB3143DB5BFCE0FD108E4B82D120A92108011A723C12A787E6D788719A10BDBA5B2699C327186AF4E23C1A946834B6150BDA2583E9CA2AD44CE8DBBBC2DB04DE8EF92E8EFC141FBECAA6287C59474E6BC05D99B2964FA090C3A2233BA186515BE7ED1F612970CEE2D7AFB81BDD762170481CD0069127D5B05AA993B4EA988D8FDDC186FFB7DC90A6C08F4DF435C93402849236C3FAB4D27C7026C1D4DCB2602646DEC9751E763DBA37BDF8FF9406AD9E530EE5DB382F413001AEB06A53ED9027D831179727B0865A8918DA3EDBEBCF9B14ED44CE6CBACED4BB1BDB7F1447E6CC254B332051512BD7AF426FB8F401378CD2BF5983CA01C64B92ECF032EA15D1721D03F482D7CE6E74FEF6D55E702F46980C82B5A84031900B1C9E59E7C97FBEC7E8F323A97A7E36CC88BE0F1D45B7FF585AC54BD407B22B4154AACC8F6D7EBF48E1D814CC5ED20F8037E0A79715EEF29BE32806A1D58BB7C5DA76F550AA3D8A1FBFF0EB19CCB1A313D55CDA56C9EC2EF29632387FE8D76E3C0468043E8F663F4860EE12BF2D5B0B7474D6E694F91E6DCC4024FFFFFFFFFFFFFFFF,
     generator = [2]\<rparr>"

definition DH_GROUP18 :: dh_group where
  "DH_GROUP18 = \<lparr>prime = hex_bytes 1024
     0xFFFFFFFFFFFFFFFFC90FDAA22168C234C4C6628B80DC1CD129024E088A67CC74020BBEA63B139B22514A08798E3404DDEF9519B3CD3A431B302B0A6DF25F14374FE1356D6D51C245E485B576625E7EC6F44C42E9A637ED6B0BFF5CB6F406B7EDEE386BFB5A899FA5AE9F24117C4B1FE649286651ECE45B3DC2007CB8A163BF0598DA48361C55D39A69163FA8FD24CF5F83655D23DCA3AD961C62F356208552BB9ED529077096966D670C354E4ABC9804F1746C08CA18217C32905E462E36CE3BE39E772C180E86039B2783A2EC07A28FB5C55DF06F4C52C9DE2BCBF6955817183995497CEA956AE515D2261898FA051015728E5A8AAAC42DAD33170D04507A33A85521ABDF1CBA64ECFB850458DBEF0A8AEA71575D060C7DB3970F85A6E1E4C7ABF5AE8CDB0933D71E8C94E04A25619DCEE3D2261AD2EE6BF12FFA06D98A0864D87602733EC86A64521F2B18177B200CBBE117577A615D6C770988C0BAD946E208E24FA074E5AB3143DB5BFCE0FD108E4B82D120A92108011A723C12A787E6D788719A10BDBA5B2699C327186AF4E23C1A946834B6150BDA2583E9CA2AD44CE8DBBBC2DB04DE8EF92E8EFC141FBECAA6287C59474E6BC05D99B2964FA090C3A2233BA186515BE7ED1F612970CEE2D7AFB81BDD762170481CD0069127D5B05AA993B4EA988D8FDDC186FFB7DC90A6C08F4DF435C93402849236C3FAB4D27C7026C1D4DCB2602646DEC9751E763DBA37BDF8FF9406AD9E530EE5DB382F413001AEB06A53ED9027D831179727B0865A8918DA3EDBEBCF9B14ED44CE6CBACED4BB1BDB7F1447E6CC254B332051512BD7AF426FB8F401378CD2BF5983CA01C64B92ECF032EA15D1721D03F482D7CE6E74FEF6D55E702F46980C82B5A84031900B1C9E59E7C97FBEC7E8F323A97A7E36CC88BE0F1D45B7FF585AC54BD407B22B4154AACC8F6D7EBF48E1D814CC5ED20F8037E0A79715EEF29BE32806A1D58BB7C5DA76F550AA3D8A1FBFF0EB19CCB1A313D55CDA56C9EC2EF29632387FE8D76E3C0468043E8F663F4860EE12BF2D5B0B7474D6E694F91E6DBE115974A3926F12FEE5E438777CB6A932DF8CD8BEC4D073B931BA3BC832B68D9DD300741FA7BF8AFC47ED2576F6936BA424663AAB639C5AE4F5683423B4742BF1C978238F16CBE39D652DE3FDB8BEFC848AD922222E04A4037C0713EB57A81A23F0C73473FC646CEA306B4BCBC8862F8385DDFA9D4B7FA2C087E879683303ED5BDD3A062B3CF5B3A278A66D2A13F83F44F82DDF310EE074AB6A364597E899A0255DC164F31CC50846851DF9AB48195DED7EA1B1D510BD7EE74D73FAF36BC31ECFA268359046F4EB879F924009438B481C6CD7889A002ED5EE382BC9190DA6FC026E479558E4475677E9AA9E3050E2765694DFC81F56E880B96E7160C980DD98EDD3DFFFFFFFFFFFFFFFFF,
     generator = [2]\<rparr>"

definition BUILTIN_SAFE_DH_GROUPS :: "dh_group list" where
  "BUILTIN_SAFE_DH_GROUPS = [DH_GROUP14, DH_GROUP16]"

section \<open>The arithmetic of an exchange\<close>

record dh =
  prime_num :: nat
  dh_generator :: nat
  private_key :: nat
  public_key :: nat
  dh_shared_secret :: nat

definition dh_new :: "bigint \<Rightarrow> dh_group \<Rightarrow> dh" where
  "dh_new B grp =
     \<lparr>prime_num = from_bytes_be B (prime grp), dh_generator = from_bytes_be B (generator grp),
      private_key = 0, public_key = 0, dh_shared_secret = 0\<rparr>"

definition generate_private_key :: "bigint \<Rightarrow> bool \<Rightarrow> dh \<Rightarrow> dh rs" where
  "generate_private_key B is_server d =
     and_then (big_sub (prime_num d) 1) (\<lambda>p1.
       and_then (big_range B (if is_server then 1 else 2) (p1 div 2)) (\<lambda>x. Ok (d\<lparr>private_key := x\<rparr>)))"

definition generate_public_key :: "bigint \<Rightarrow> dh \<Rightarrow> nat \<times> dh" where
  "generate_public_key B d =
     (let y = modpow B (dh_generator d) (private_key d) (prime_num d) in (y, d\<lparr>public_key := y\<rparr>))"

definition dh_compute_shared_secret :: "bigint \<Rightarrow> nat \<Rightarrow> dh \<Rightarrow> nat \<times> dh" where
  "dh_compute_shared_secret B other_public_key d =
     (let k = modpow B other_public_key (private_key d) (prime_num d) in (k, d\<lparr>dh_shared_secret := k\<rparr>))"

definition validate_shared_secret :: "dh \<Rightarrow> nat \<Rightarrow> bool rs" where
  "validate_shared_secret d shared_secret =
     and_then (big_sub (prime_num d) 1) (\<lambda>prime_minus_one.
       Ok (shared_secret > 1 \<and> shared_secret < prime_minus_one))"

definition decode_public_key :: "bigint \<Rightarrow> bytes \<Rightarrow> nat" where
  "decode_public_key B buf = from_bytes_be B buf"

definition validate_public_key :: "dh \<Rightarrow> nat \<Rightarrow> bool rs" where
  "validate_public_key d k =
     and_then (big_sub (prime_num d) 1) (\<lambda>prime_minus_one. Ok (k > 1 \<and> k < prime_minus_one))"

definition biguint_to_mpint :: "bigint \<Rightarrow> nat \<Rightarrow> bytes" where
  "biguint_to_mpint B n =
     (let bs = to_bytes_be B n in
      case first bs of None \<Rightarrow> bs | Some b \<Rightarrow> if b > 0x7f then 0 # bs else bs)"

section \<open>Parameters of a group exchange\<close>

record gex_params =
  min_group_size :: nat
  preferred_group_size :: nat
  max_group_size :: nat

text \<open>The messages of \<open>InvalidConfig\<close> are kept without the numbers in them.\<close>

definition gex_validate :: "gex_params \<Rightarrow> unit rs" where
  "gex_validate p =
     (if min_group_size p < 2048 then Err (InvalidConfig ''min_group_size must be at least 2048 bits'')
      else if preferred_group_size p < min_group_size p
      then Err (InvalidConfig ''preferred_group_size must be at least as large as min_group_size'')
      else if max_group_size p < preferred_group_size p
      then Err (InvalidConfig ''max_group_size must be at least as large as preferred_group_size'')
      else Ok ())"

definition gex_new :: "nat \<Rightarrow> nat \<Rightarrow> nat \<Rightarrow> gex_params rs" where
  "gex_new mn pr mx =
     (let this = \<lparr>min_group_size = mn, preferred_group_size = pr, max_group_size = mx\<rparr>
      in and_then (gex_validate this) (\<lambda>_. Ok this))"

definition gex_default :: gex_params where
  "gex_default = \<lparr>min_group_size = 3072, preferred_group_size = 8192, max_group_size = 8192\<rparr>"

definition gex_encode :: "wire \<Rightarrow> gex_params \<Rightarrow> bytes rs list" where
  "gex_encode W p =
     [w_u32 W (as_u32 (min_group_size p)), w_u32 W (as_u32 (preferred_group_size p)),
      w_u32 W (as_u32 (max_group_size p))]"

definition gex_decode :: "wire \<Rightarrow> bytes \<Rightarrow> (gex_params \<times> bytes) rs" where
  "gex_decode W r =
     and_then (r_u32 W r) (\<lambda>(mn, r). and_then (r_u32 W r) (\<lambda>(pr, r). and_then (r_u32 W r) (\<lambda>(mx, r).
       and_then (gex_new (unat mn) (unat pr) (unat mx)) (\<lambda>p. Ok (p, r)))))"

text \<open>The default of \<open>Handler::lookup_dh_gex_group\<close>; each loop stops at its first hit.\<close>

definition lookup_dh_gex_group :: "gex_params \<Rightarrow> dh_group option" where
  "lookup_dh_gex_group p =
     (let best = (case find (\<lambda>g. min_group_size p \<le> dh_bit_size g \<and> dh_bit_size g \<le> max_group_size p)
                         BUILTIN_SAFE_DH_GROUPS of
                    Some g \<Rightarrow> g | None \<Rightarrow> DH_GROUP14);
          best = (case find (\<lambda>g. dh_bit_size g > preferred_group_size p) BUILTIN_SAFE_DH_GROUPS of
                    Some g \<Rightarrow> g | None \<Rightarrow> best)
      in Some best)"


section \<open>Lemmas\<close>

lemma length_hex_bytes [simp]: "length (hex_bytes len n) = len"
  by (induction len arbitrary: n) auto

lemma hd_hex_bytes: "hd (hex_bytes (Suc len) n) = of_nat (n div 256 ^ len)"
proof (induction len arbitrary: n)
  case (Suc len)
  have "hd (hex_bytes (Suc (Suc len)) n) = hd (hex_bytes (Suc len) (n div 256))"
    by (cases "hex_bytes (Suc len) (n div 256)") (auto dest: arg_cong [of _ _ length])
  then show ?case using Suc [of "n div 256"] by (simp add: div_mult2_eq)
qed simp

text \<open>A prime without a leading zero byte has eight bits per byte.\<close>

lemma bit_size_full:
  assumes "prime g \<noteq> []" "hd (prime g) \<noteq> 0"
  shows "dh_bit_size g = 8 * length (prime g)"
proof -
  have "[0..<length (prime g)] = 0 # [Suc 0..<length (prime g)]"
    using assms(1) by (simp add: upt_conv_Cons)
  then show ?thesis
    using assms hd_conv_nth [OF assms(1)] by (simp add: dh_bit_size_def)
qed

lemma bit_size_hex:
  assumes "prime g = hex_bytes m n" "0 < m" "n div 256 ^ (m - 1) = 255"
  shows "dh_bit_size g = 8 * m"
proof -
  obtain len where m: "m = Suc len" using assms(2) gr0_implies_Suc by blast
  have "hd (prime g) = of_nat 255"
    using assms(1,3) hd_hex_bytes [of len n] by (simp only: m diff_Suc_1)
  then have "hd (prime g) \<noteq> 0" by simp
  moreover have "length (prime g) = m" using assms(1) by simp
  moreover from this have "prime g \<noteq> []" using assms(2) by auto
  ultimately show ?thesis using bit_size_full [of g] by simp
qed

lemma builtin_bit_sizes: "dh_bit_size DH_GROUP14 = 2048" "dh_bit_size DH_GROUP16 = 4096"
proof -
  have "dh_bit_size DH_GROUP14 = 8 * 256"
    by (rule bit_size_hex) (simp only: DH_GROUP14_def dh_group.select_convs, simp, (rule div_nat_eqI; simp))
  then show "dh_bit_size DH_GROUP14 = 2048" by simp
  have "dh_bit_size DH_GROUP16 = 8 * 512"
    by (rule bit_size_hex) (simp only: DH_GROUP16_def dh_group.select_convs, simp, (rule div_nat_eqI; simp))
  then show "dh_bit_size DH_GROUP16 = 4096" by simp
qed


section \<open>Properties\<close>

lemma modpow_commute: "(g ^ x mod p) ^ y mod p = (g ^ y mod p) ^ x mod p" for g :: nat
  by (simp add: power_mod power_mult [symmetric] mult.commute)

lemma generate_private_key_range:
  assumes "bigint_laws B" "generate_private_key B srv d = Ok d'"
  shows "d' = d\<lparr>private_key := private_key d'\<rparr>" "1 \<le> private_key d'"
    "private_key d' < (prime_num d - 1) div 2" "2 < prime_num d"
proof -
  let ?lo = "if srv then 1 else 2 :: nat" and ?hi = "(prime_num d - 1) div 2"
  from assms(2) have h: "?lo < ?hi" "d' = d\<lparr>private_key := gen_biguint_range B ?lo ?hi\<rparr>"
    by (auto simp: generate_private_key_def big_sub_def big_range_def outcome_simps split: if_splits)
  moreover have r: "?lo \<le> gen_biguint_range B ?lo ?hi" "gen_biguint_range B ?lo ?hi < ?hi"
    using assms(1) h(1) unfolding bigint_laws_def by blast+
  moreover have "1 \<le> ?lo" by simp
  ultimately show "d' = d\<lparr>private_key := private_key d'\<rparr>" "1 \<le> private_key d'"
    "private_key d' < (prime_num d - 1) div 2" "2 < prime_num d"
    by (simp_all del: One_nat_def split del: if_split)
qed

text \<open>Client and server, each with its own random exponent below half the group's order,
  compute the same shared secret from each other's public keys; the exponents are in the range
  that the code asks of the generator.\<close>

theorem dh_agreement:
  assumes "bigint_laws B" "bigint_laws B'"
    and "generate_private_key B True (dh_new B g) = Ok s" "generate_private_key B' False (dh_new B' g) = Ok c"
  shows "fst (dh_compute_shared_secret B (fst (generate_public_key B' c)) (snd (generate_public_key B s)))
       = fst (dh_compute_shared_secret B' (fst (generate_public_key B s)) (snd (generate_public_key B' c)))
    \<and> 1 \<le> private_key s \<and> private_key s < (be_value (prime g) - 1) div 2
    \<and> 1 \<le> private_key c \<and> private_key c < (be_value (prime g) - 1) div 2"
proof -
  note rs = generate_private_key_range [OF assms(1,3)] and rc = generate_private_key_range [OF assms(2,4)]
  have n: "prime_num (dh_new B g) = be_value (prime g)" "prime_num (dh_new B' g) = be_value (prime g)"
    "dh_generator (dh_new B g) = dh_generator (dh_new B' g)"
    using assms(1,2) by (simp_all add: dh_new_def bigint_laws_def)
  have p: "prime_num s = be_value (prime g)" "prime_num c = be_value (prime g)" "dh_generator s = dh_generator c"
    using rs(1) rc(1) n by (metis dh.select_convs(1) dh.surjective dh.update_convs(3),
      metis dh.select_convs(1) dh.surjective dh.update_convs(3), metis dh.select_convs(2) dh.surjective dh.update_convs(3))
  have "0 < be_value (prime g)" using rs(4) n by simp
  then show ?thesis
    using assms(1,2) p rs rc n modpow_commute [of "dh_generator c" "private_key c" "be_value (prime g)" "private_key s"]
    by (simp add: generate_public_key_def dh_compute_shared_secret_def bigint_laws_def Let_def)
qed

text \<open>A concrete number crate.\<close>

fun be_digits :: "nat \<Rightarrow> bytes" where
  "be_digits n = (if n < 256 then [of_nat n] else be_digits (n div 256) @ [of_nat n])"

declare be_digits.simps [simp del]

definition sample_bigint :: bigint where
  "sample_bigint = \<lparr>from_bytes_be = be_value, to_bytes_be = be_digits, modpow = (\<lambda>b e m. b ^ e mod m),
     gen_biguint_range = (\<lambda>lo hi. lo)\<rparr>"

lemma be_value_append: "be_value (a @ b) = be_value a * 256 ^ length b + be_value b"
  by (induction a) (simp_all add: power_add algebra_simps)

lemma be_digits_value: "be_value (be_digits n) = n \<and> be_digits n \<noteq> [] \<and> (0 < n \<longrightarrow> hd (be_digits n) \<noteq> 0)"
proof (induction n rule: be_digits.induct)
  case (1 n)
  have u: "unat (of_nat n :: u8) = n mod 256" by (simp add: unat_of_nat)
  show ?case
  proof (cases "n < 256")
    case True
    then have "0 < n \<longrightarrow> (of_nat n :: u8) \<noteq> 0" using u by auto
    then show ?thesis using True u by (subst (1 2 3) be_digits.simps) simp
  next
    case False
    then have "0 < n div 256" by (simp add: div_greater_zero_iff)
    then show ?thesis
      using 1 [OF False] False u by (subst (1 2 3) be_digits.simps) (simp add: be_value_append)
  qed
qed

lemma sample_bigint_laws: "bigint_laws sample_bigint"
  using be_digits_value by (simp add: bigint_laws_def sample_bigint_def)

text \<open>A group of prime order 23, generator 5.\<close>

theorem dh_agreement_witness:
  "generate_private_key sample_bigint True (dh_new sample_bigint \<lparr>prime = [23], generator = [5]\<rparr>)
     = Ok \<lparr>prime_num = 23, dh_generator = 5, private_key = 1, public_key = 0, dh_shared_secret = 0\<rparr>
   \<and> generate_private_key sample_bigint False (dh_new sample_bigint \<lparr>prime = [23], generator = [5]\<rparr>)
     = Ok \<lparr>prime_num = 23, dh_generator = 5, private_key = 2, public_key = 0, dh_shared_secret = 0\<rparr>
   \<and> fst (dh_compute_shared_secret sample_bigint 2
       \<lparr>prime_num = 23, dh_generator = 5, private_key = 1, public_key = 5, dh_shared_secret = 0\<rparr>)
     = fst (dh_compute_shared_secret sample_bigint 5
       \<lparr>prime_num = 23, dh_generator = 5, private_key = 2, public_key = 2, dh_shared_secret = 0\<rparr>)"
proof -
  let ?d = "dh_new sample_bigint \<lparr>prime = [23], generator = [5]\<rparr>"
  have s: "generate_private_key sample_bigint True ?d
     = Ok \<lparr>prime_num = 23, dh_generator = 5, private_key = 1, public_key = 0, dh_shared_secret = 0\<rparr>"
    and c: "generate_private_key sample_bigint False ?d
     = Ok \<lparr>prime_num = 23, dh_generator = 5, private_key = 2, public_key = 0, dh_shared_secret = 0\<rparr>"
    by (simp_all add: generate_private_key_def dh_new_def sample_bigint_def big_sub_def big_range_def)
  show ?thesis
    using s c dh_agreement [OF sample_bigint_laws sample_bigint_laws s c]
    by (simp add: generate_public_key_def sample_bigint_def)
qed

text \<open>A group exchange round-trips its parameters, and none that a peer sends is accepted
  below 2048 bits or out of order.\<close>

theorem gex_params_checked:
  assumes "ssh_wire W" "gex_validate p = Ok ()" "max_group_size p < 2 ^ 32"
  shows "\<exists>s. puts (gex_encode W p) [] = Ok s \<and> gex_decode W (s @ r) = Ok (p, r)
    \<and> 2048 \<le> min_group_size p \<and> min_group_size p \<le> preferred_group_size p
    \<and> preferred_group_size p \<le> max_group_size p"
proof -
  have o: "2048 \<le> min_group_size p" "min_group_size p \<le> preferred_group_size p"
    "preferred_group_size p \<le> max_group_size p"
    using assms(2) by (auto simp: gex_validate_def split: if_splits)
  then have u: "unat (as_u32 (min_group_size p)) = min_group_size p"
    "unat (as_u32 (preferred_group_size p)) = preferred_group_size p"
    "unat (as_u32 (max_group_size p)) = max_group_size p" using assms(3) by simp_all
  have e: "\<lparr>min_group_size = min_group_size p, preferred_group_size = preferred_group_size p,
      max_group_size = max_group_size p\<rparr> = p" by simp
  show ?thesis
    using o assms(1,2) u
    by (simp add: e gex_encode_def gex_decode_def ssh_wire.put_u32 ssh_wire.get_u32 gex_new_def Let_def)
qed

theorem gex_params_checked_witness:
  "\<exists>s. puts (gex_encode rfc4251_wire gex_default) [] = Ok s \<and> gex_decode rfc4251_wire (s @ [7]) = Ok (gex_default, [7])"
  using gex_params_checked [OF rfc.ssh_wire_axioms, of gex_default "[7]"]
  by (auto simp: gex_default_def gex_validate_def)

text \<open>With the client's default parameters the server's default lookup finds a group within
  the range asked for; yet the second loop of the lookup does not look at the upper bound, so a client
  that accepts 2048 to 3072 bits is handed the group of 4096 bits, and one that asks for 5000 to 8000
  bits a smaller one.\<close>

theorem gex_lookup_range:
  "lookup_dh_gex_group gex_default = Some DH_GROUP16
     \<and> min_group_size gex_default \<le> dh_bit_size DH_GROUP16
     \<and> dh_bit_size DH_GROUP16 \<le> max_group_size gex_default
   \<and> (let p = \<lparr>min_group_size = 2048, preferred_group_size = 3072, max_group_size = 3072\<rparr>
      in gex_validate p = Ok () \<and> lookup_dh_gex_group p = Some DH_GROUP16
        \<and> max_group_size p < dh_bit_size DH_GROUP16)
   \<and> (let p = \<lparr>min_group_size = 5000, preferred_group_size = 8000, max_group_size = 8000\<rparr>
      in gex_validate p = Ok () \<and> lookup_dh_gex_group p = Some DH_GROUP14
        \<and> dh_bit_size DH_GROUP14 < min_group_size p)"
  by (simp add: lookup_dh_gex_group_def BUILTIN_SAFE_DH_GROUPS_def builtin_bit_sizes gex_default_def
      gex_validate_def)

end
