(* ===== verification/KexAlgorithms.thy ===== *)
theory KexAlgorithms
  imports DhGroups
begin

text \<open>
  The key exchange methods (\<open>KexAlgorithm\<close> and the trait \<open>KexAlgorithmImplementor\<close> of \<open>kex/mod.rs\<close>, with
  \<open>dh/mod.rs\<close>, \<open>curve25519.rs\<close>, \<open>ecdh_nistp.rs\<close>, \<open>hybrid_mlkem.rs\<close>, \<open>none.rs\<close>) and \<open>Exchange\<close> of
  \<open>session.rs\<close>. Curves and the lattice scheme are crates: the record \<open>kex_crates\<close> holds the functions of
  theirs that the sources call, over byte strings, and the random values drawn in this exchange.
\<close>

datatype nist_curve = P256 | P384 | P521

record kex_crates =
  big :: bigint
  random_scalar :: bytes \<comment> \<open>\<open>Scalar::from_bytes_mod_order(rand::random())\<close>\<close>
  x25519_base :: "bytes \<Rightarrow> bytes" \<comment> \<open>the public point of a secret\<close>
  x25519 :: "bytes \<Rightarrow> bytes \<Rightarrow> bytes" \<comment> \<open>secret times point\<close>
  random_secret :: "nist_curve \<Rightarrow> bytes"
  nist_public :: "nist_curve \<Rightarrow> bytes \<Rightarrow> bytes" \<comment> \<open>\<open>public_key().to_sec1_bytes()\<close>\<close>
  nist_from_sec1 :: "nist_curve \<Rightarrow> bytes \<Rightarrow> bytes option"
  nist_dh :: "nist_curve \<Rightarrow> bytes \<Rightarrow> bytes \<Rightarrow> bytes" \<comment> \<open>secret, public key: \<open>raw_secret_bytes\<close>\<close>
  getrandom :: "bytes option"
  mlkem_generate :: "bytes \<Rightarrow> bytes \<times> bytes" \<comment> \<open>private and public key\<close>
  mlkem_encapsulate :: "bytes \<Rightarrow> bytes \<Rightarrow> bytes \<times> bytes" \<comment> \<open>public key, randomness: cipher text, secret\<close>
  mlkem_decapsulate :: "bytes \<Rightarrow> bytes \<Rightarrow> bytes"

record exchange =
  client_id :: bytes
  server_id :: bytes
  client_kex_init :: bytes
  server_kex_init :: bytes
  client_ephemeral :: bytes
  server_ephemeral :: bytes
  gex :: "(gex_params \<times> dh_group) option"

definition exchange_new :: "bytes \<Rightarrow> bytes \<Rightarrow> exchange" where
  "exchange_new cid sid = \<lparr>client_id = cid, server_id = sid, client_kex_init = [],
     server_kex_init = [], client_ephemeral = [], server_ephemeral = [], gex = None\<rparr>"

record dh_kex =
  dk_dh :: "dh option"
  dk_shared :: "bytes option"
  dk_is_gex :: bool

record curve_kex =
  ck_local :: "bytes option"
  ck_shared :: "bytes option"

record mlkem_kex =
  mk_mlkem :: "bytes option"
  mk_x25519 :: "bytes option"
  mk_pq :: "bytes option"
  mk_cl :: "bytes option"

datatype kex_algorithm =
    DhGroupKex kex_digest dh_kex
  | Curve25519Kex curve_kex
  | EcdhNistPKex nist_curve kex_digest curve_kex
  | MlKem768X25519Kex mlkem_kex
  | NoneKex

section \<open>Making one\<close>

definition dh_kex_new :: "bigint \<Rightarrow> dh_group option \<Rightarrow> dh_kex" where
  "dh_kex_new B grp = \<lparr>dk_dh = map_option (dh_new B) grp, dk_shared = None, dk_is_gex = (grp = None)\<rparr>"

definition curve_kex_new :: curve_kex where
  "curve_kex_new = \<lparr>ck_local = None, ck_shared = None\<rparr>"

definition mlkem_kex_new :: mlkem_kex where
  "mlkem_kex_new = \<lparr>mk_mlkem = None, mk_x25519 = None, mk_pq = None, mk_cl = None\<rparr>"

text \<open>\<open>KEXES.get(name)\<close> and \<open>make\<close>.\<close>

definition KEXES :: "bigint \<Rightarrow> string \<rightharpoonup> kex_algorithm" where
  "KEXES B = map_of
     [(MLKEM768X25519_SHA256, MlKem768X25519Kex mlkem_kex_new),
      (CURVE25519, Curve25519Kex curve_kex_new),
      (CURVE25519_PRE_RFC_8731, Curve25519Kex curve_kex_new),
      (DH_GEX_SHA1, DhGroupKex DigestSha1 (dh_kex_new B None)),
      (DH_GEX_SHA256, DhGroupKex DigestSha256 (dh_kex_new B None)),
      (DH_G18_SHA512, DhGroupKex DigestSha512 (dh_kex_new B (Some DH_GROUP18))),
      (DH_G17_SHA512, DhGroupKex DigestSha512 (dh_kex_new B (Some DH_GROUP17))),
      (DH_G16_SHA512, DhGroupKex DigestSha512 (dh_kex_new B (Some DH_GROUP16))),
      (DH_G15_SHA512, DhGroupKex DigestSha512 (dh_kex_new B (Some DH_GROUP15))),
      (DH_G14_SHA256, DhGroupKex DigestSha256 (dh_kex_new B (Some DH_GROUP14))),
      (DH_G14_SHA1, DhGroupKex DigestSha1 (dh_kex_new B (Some DH_GROUP14))),
      (DH_G1_SHA1, DhGroupKex DigestSha1 (dh_kex_new B (Some DH_GROUP1))),
      (ECDH_SHA2_NISTP256, EcdhNistPKex P256 DigestSha256 curve_kex_new),
      (ECDH_SHA2_NISTP384, EcdhNistPKex P384 DigestSha384 curve_kex_new),
      (ECDH_SHA2_NISTP521, EcdhNistPKex P521 DigestSha512 curve_kex_new),
      (NONE_NAME, NoneKex)]"

fun skip_exchange :: "kex_algorithm \<Rightarrow> bool" where
  "skip_exchange NoneKex = True"
| "skip_exchange _ = False"

fun is_dh_gex :: "kex_algorithm \<Rightarrow> bool" where
  "is_dh_gex (DhGroupKex _ k) = dk_is_gex k"
| "is_dh_gex _ = False"

fun client_dh_gex_init :: "wire \<Rightarrow> kex_algorithm \<Rightarrow> gex_params \<Rightarrow> bytes rs list" where
  "client_dh_gex_init W (DhGroupKex _ _) p =
     [w_u8 W KEX_DH_GEX_REQUEST, w_u32 W (as_u32 (min_group_size p)),
      w_u32 W (as_u32 (preferred_group_size p)), w_u32 W (as_u32 (max_group_size p))]"
| "client_dh_gex_init W _ p = [Err KexInit]"

fun dh_gex_set_group :: "bigint \<Rightarrow> kex_algorithm \<Rightarrow> dh_group \<Rightarrow> kex_algorithm rs" where
  "dh_gex_set_group B (DhGroupKex h k) grp = Ok (DhGroupKex h (k\<lparr>dk_dh := Some (dh_new B grp)\<rparr>))"
| "dh_gex_set_group B _ grp = Err KexInit"

section \<open>The server's side\<close>

text \<open>The first part of \<open>server_dh\<close>: the message number and the length that the payload declares.\<close>

definition declared_key :: "wire \<Rightarrow> u8 set \<Rightarrow> bytes \<Rightarrow> (nat \<Rightarrow> unit rs) \<Rightarrow> bytes rs" where
  "declared_key W types payload len_ok =
     (case first payload of
        None \<Rightarrow> Err Inconsistent
      | Some t \<Rightarrow>
          if t \<notin> types then Err Inconsistent
          else and_then (slice_from 1 payload) (\<lambda>r. and_then (be_read_u32 W r) (\<lambda>n.
            let pubkey_len = unat n in
            and_then (len_ok pubkey_len) (\<lambda>_.
              if length payload < 5 + pubkey_len then Err Inconsistent
              else slice 5 (5 + pubkey_len) payload))))"

definition dh_check :: "bool rs \<Rightarrow> unit rs" where
  "dh_check m = and_then m (\<lambda>ok. if ok then Ok () else Err Inconsistent)"

definition dh_server :: "wire \<Rightarrow> bigint \<Rightarrow> dh_kex \<Rightarrow> exchange \<Rightarrow> bytes \<Rightarrow> (dh_kex \<times> exchange) rs" where
  "dh_server W B k ex payload =
     (case dk_dh k of
        None \<Rightarrow> Err Inconsistent
      | Some d \<Rightarrow>
          and_then (declared_key W {KEX_ECDH_INIT, KEX_DH_GEX_INIT} payload (\<lambda>_. Ok ())) (\<lambda>client_pubkey.
          and_then (generate_private_key B True d) (\<lambda>d.
          let (server_pubkey, d) = generate_public_key B d in
          and_then (dh_check (validate_public_key d server_pubkey)) (\<lambda>_.
          let ex = ex\<lparr>server_ephemeral := biguint_to_mpint B server_pubkey\<rparr>;
              decoded = decode_public_key B client_pubkey in
          and_then (dh_check (validate_public_key d decoded)) (\<lambda>_.
          let (shared, d) = dh_compute_shared_secret B decoded d in
          and_then (dh_check (validate_shared_secret d shared)) (\<lambda>_.
            Ok (k\<lparr>dk_dh := Some d, dk_shared := Some (biguint_to_mpint B shared)\<rparr>, ex)))))))"

definition curve25519_server :: "wire \<Rightarrow> kex_crates \<Rightarrow> curve_kex \<Rightarrow> exchange \<Rightarrow> bytes \<Rightarrow> (curve_kex \<times> exchange) rs" where
  "curve25519_server W X k ex payload =
     and_then (declared_key W {KEX_ECDH_INIT} payload (\<lambda>n. if n \<noteq> 32 then Err KexError else Ok ()))
       (\<lambda>client_pubkey.
         let server_secret = random_scalar X; server_pubkey = x25519_base X server_secret in
         Ok (k\<lparr>ck_shared := Some (x25519 X server_secret client_pubkey)\<rparr>,
             ex\<lparr>server_ephemeral := server_pubkey\<rparr>))"

definition nist_server ::
    "wire \<Rightarrow> kex_crates \<Rightarrow> nist_curve \<Rightarrow> curve_kex \<Rightarrow> exchange \<Rightarrow> bytes \<Rightarrow> (curve_kex \<times> exchange) rs" where
  "nist_server W X c k ex payload =
     and_then (declared_key W {KEX_ECDH_INIT} payload (\<lambda>_. Ok ())) (\<lambda>s.
       and_then (ok_or (nist_from_sec1 X c s) Inconsistent) (\<lambda>client_pubkey.
         let server_secret = random_secret X c in
         Ok (k\<lparr>ck_shared := Some (nist_dh X c server_secret client_pubkey)\<rparr>,
             ex\<lparr>server_ephemeral := nist_public X c server_secret\<rparr>)))"

definition MLKEM768_PUBLIC_KEY_SIZE :: nat where [simp]: "MLKEM768_PUBLIC_KEY_SIZE = 1184"
definition MLKEM768_CIPHERTEXT_SIZE :: nat where [simp]: "MLKEM768_CIPHERTEXT_SIZE = 1088"
definition X25519_PUBLIC_KEY_SIZE :: nat where [simp]: "X25519_PUBLIC_KEY_SIZE = 32"

definition mlkem_server :: "wire \<Rightarrow> kex_crates \<Rightarrow> mlkem_kex \<Rightarrow> exchange \<Rightarrow> bytes \<Rightarrow> (mlkem_kex \<times> exchange) rs" where
  "mlkem_server W X k ex payload =
     and_then (declared_key W {KEX_HYBRID_INIT} payload (\<lambda>_. Ok ())) (\<lambda>c_init.
       if length c_init \<noteq> MLKEM768_PUBLIC_KEY_SIZE + X25519_PUBLIC_KEY_SIZE then Err KexError
       else
         let c_pk2 = take MLKEM768_PUBLIC_KEY_SIZE c_init; c_pk1 = drop MLKEM768_PUBLIC_KEY_SIZE c_init in
         and_then (ok_or (getrandom X) KexInit) (\<lambda>randomness.
           let (s_ct2, k_pq) = mlkem_encapsulate X c_pk2 randomness;
               s_secret = random_scalar X; s_pk1 = x25519_base X s_secret in
           Ok (k\<lparr>mk_pq := Some k_pq, mk_cl := Some (x25519 X s_secret c_pk1)\<rparr>,
               ex\<lparr>server_ephemeral := s_ct2 @ s_pk1\<rparr>)))"

fun server_dh ::
    "wire \<Rightarrow> kex_crates \<Rightarrow> kex_algorithm \<Rightarrow> exchange \<Rightarrow> bytes \<Rightarrow> (kex_algorithm \<times> exchange) rs" where
  "server_dh W X (DhGroupKex h k) ex payload =
     and_then (dh_server W (big X) k ex payload) (\<lambda>(k, ex). Ok (DhGroupKex h k, ex))"
| "server_dh W X (Curve25519Kex k) ex payload =
     and_then (curve25519_server W X k ex payload) (\<lambda>(k, ex). Ok (Curve25519Kex k, ex))"
| "server_dh W X (EcdhNistPKex c h k) ex payload =
     and_then (nist_server W X c k ex payload) (\<lambda>(k, ex). Ok (EcdhNistPKex c h k, ex))"
| "server_dh W X (MlKem768X25519Kex k) ex payload =
     and_then (mlkem_server W X k ex payload) (\<lambda>(k, ex). Ok (MlKem768X25519Kex k, ex))"
| "server_dh W X NoneKex ex payload = Ok (NoneKex, ex)"

section \<open>The client's side\<close>

text \<open>\<open>client_dh\<close>: the method after it, the client's ephemeral key and what is written.\<close>

definition dh_client :: "wire \<Rightarrow> bigint \<Rightarrow> dh_kex \<Rightarrow> (dh_kex \<times> bytes \<times> bytes) rs" where
  "dh_client W B k =
     (case dk_dh k of
        None \<Rightarrow> Err Inconsistent
      | Some d \<Rightarrow>
          and_then (generate_private_key B False d) (\<lambda>d.
          let (client_pubkey, d) = generate_public_key B d in
          and_then (dh_check (validate_public_key d client_pubkey)) (\<lambda>_.
          let encoded = biguint_to_mpint B client_pubkey in
          and_then (puts [w_u8 W (if dk_is_gex k then KEX_DH_GEX_INIT else KEX_ECDH_INIT), w_bytes W encoded] [])
            (\<lambda>out. Ok (k\<lparr>dk_dh := Some d\<rparr>, encoded, out)))))"

definition curve25519_client :: "wire \<Rightarrow> kex_crates \<Rightarrow> curve_kex \<Rightarrow> (curve_kex \<times> bytes \<times> bytes) rs" where
  "curve25519_client W X k =
     (let client_secret = random_scalar X; client_pubkey = x25519_base X client_secret in
      and_then (puts [w_u8 W KEX_ECDH_INIT, w_bytes W client_pubkey] [])
        (\<lambda>out. Ok (k\<lparr>ck_local := Some client_secret\<rparr>, client_pubkey, out)))"

definition nist_client :: "wire \<Rightarrow> kex_crates \<Rightarrow> nist_curve \<Rightarrow> curve_kex \<Rightarrow> (curve_kex \<times> bytes \<times> bytes) rs" where
  "nist_client W X c k =
     (let client_secret = random_secret X c; client_pubkey = nist_public X c client_secret in
      and_then (puts [w_u8 W KEX_ECDH_INIT, w_bytes W client_pubkey] [])
        (\<lambda>out. Ok (k\<lparr>ck_local := Some client_secret\<rparr>, client_pubkey, out)))"

definition mlkem_client :: "wire \<Rightarrow> kex_crates \<Rightarrow> mlkem_kex \<Rightarrow> (mlkem_kex \<times> bytes \<times> bytes) rs" where
  "mlkem_client W X k =
     and_then (ok_or (getrandom X) KexInit) (\<lambda>randomness.
       let (mlkem_sk, mlkem_pk) = mlkem_generate X randomness;
           x25519_secret = random_scalar X; c_init = mlkem_pk @ x25519_base X x25519_secret in
       and_then (puts [w_u8 W KEX_HYBRID_INIT, w_bytes W c_init] [])
         (\<lambda>out. Ok (k\<lparr>mk_mlkem := Some mlkem_sk, mk_x25519 := Some x25519_secret\<rparr>, c_init, out)))"

fun client_dh :: "wire \<Rightarrow> kex_crates \<Rightarrow> kex_algorithm \<Rightarrow> exchange \<Rightarrow> (kex_algorithm \<times> exchange \<times> bytes) rs" where
  "client_dh W X (DhGroupKex h k) ex =
     and_then (dh_client W (big X) k) (\<lambda>(k, e, out). Ok (DhGroupKex h k, ex\<lparr>client_ephemeral := e\<rparr>, out))"
| "client_dh W X (Curve25519Kex k) ex =
     and_then (curve25519_client W X k) (\<lambda>(k, e, out). Ok (Curve25519Kex k, ex\<lparr>client_ephemeral := e\<rparr>, out))"
| "client_dh W X (EcdhNistPKex c h k) ex =
     and_then (nist_client W X c k) (\<lambda>(k, e, out). Ok (EcdhNistPKex c h k, ex\<lparr>client_ephemeral := e\<rparr>, out))"
| "client_dh W X (MlKem768X25519Kex k) ex =
     and_then (mlkem_client W X k) (\<lambda>(k, e, out). Ok (MlKem768X25519Kex k, ex\<lparr>client_ephemeral := e\<rparr>, out))"
| "client_dh W X NoneKex ex = Ok (NoneKex, ex, [])"

text \<open>\<open>compute_shared_secret\<close> on the server's ephemeral key; \<open>clone_from_slice\<close> into the 32 bytes of a
  point panics on another length.\<close>

definition dh_shared :: "bigint \<Rightarrow> dh_kex \<Rightarrow> bytes \<Rightarrow> dh_kex rs" where
  "dh_shared B k remote =
     (case dk_dh k of
        None \<Rightarrow> Err Inconsistent
      | Some d \<Rightarrow>
          let remote_pubkey = decode_public_key B remote in
          and_then (dh_check (validate_public_key d remote_pubkey)) (\<lambda>_.
          let (shared, d) = dh_compute_shared_secret B remote_pubkey d in
          and_then (dh_check (validate_shared_secret d shared)) (\<lambda>_.
            Ok (k\<lparr>dk_dh := Some d, dk_shared := Some (biguint_to_mpint B shared)\<rparr>))))"

definition curve25519_shared :: "kex_crates \<Rightarrow> curve_kex \<Rightarrow> bytes \<Rightarrow> curve_kex rs" where
  "curve25519_shared X k remote =
     and_then (ok_or (ck_local k) KexInit) (\<lambda>local_secret.
       if length remote \<noteq> 32 then Panic
       else Ok (k\<lparr>ck_local := None, ck_shared := Some (x25519 X local_secret remote)\<rparr>))"

definition nist_shared :: "kex_crates \<Rightarrow> nist_curve \<Rightarrow> curve_kex \<Rightarrow> bytes \<Rightarrow> curve_kex rs" where
  "nist_shared X c k remote =
     and_then (ok_or (ck_local k) KexInit) (\<lambda>local_secret.
       and_then (ok_or (nist_from_sec1 X c remote) KexInit) (\<lambda>pubkey.
         Ok (k\<lparr>ck_local := None, ck_shared := Some (nist_dh X c local_secret pubkey)\<rparr>)))"

definition mlkem_shared :: "kex_crates \<Rightarrow> mlkem_kex \<Rightarrow> bytes \<Rightarrow> mlkem_kex rs" where
  "mlkem_shared X k remote =
     (if length remote \<noteq> MLKEM768_CIPHERTEXT_SIZE + X25519_PUBLIC_KEY_SIZE then Err KexError
      else
        let s_ct2 = take MLKEM768_CIPHERTEXT_SIZE remote; s_pk1 = drop MLKEM768_CIPHERTEXT_SIZE remote in
        and_then (ok_or (mk_mlkem k) KexInit) (\<lambda>mlkem_secret.
        and_then (ok_or (mk_x25519 k) KexInit) (\<lambda>x25519_secret.
          Ok (k\<lparr>mk_mlkem := None, mk_x25519 := None,
                mk_pq := Some (mlkem_decapsulate X mlkem_secret s_ct2),
                mk_cl := Some (x25519 X x25519_secret s_pk1)\<rparr>))))"

fun compute_shared_secret :: "kex_crates \<Rightarrow> kex_algorithm \<Rightarrow> bytes \<Rightarrow> kex_algorithm rs" where
  "compute_shared_secret X (DhGroupKex h k) r = and_then (dh_shared (big X) k r) (\<lambda>k. Ok (DhGroupKex h k))"
| "compute_shared_secret X (Curve25519Kex k) r = and_then (curve25519_shared X k r) (\<lambda>k. Ok (Curve25519Kex k))"
| "compute_shared_secret X (EcdhNistPKex c h k) r = and_then (nist_shared X c k r) (\<lambda>k. Ok (EcdhNistPKex c h k))"
| "compute_shared_secret X (MlKem768X25519Kex k) r = and_then (mlkem_shared X k r) (\<lambda>k. Ok (MlKem768X25519Kex k))"
| "compute_shared_secret X NoneKex r = Ok NoneKex"

fun shared_secret_bytes :: "kex_algorithm \<Rightarrow> bytes option" where
  "shared_secret_bytes (DhGroupKex h k) = dk_shared k"
| "shared_secret_bytes (Curve25519Kex k) = ck_shared k"
| "shared_secret_bytes (EcdhNistPKex c h k) = ck_shared k"
| "shared_secret_bytes (MlKem768X25519Kex k) = mk_cl k"
| "shared_secret_bytes NoneKex = None"

section \<open>The exchange hash and the keys\<close>

definition exchange_prefix :: "wire \<Rightarrow> exchange \<Rightarrow> bytes rs list" where
  "exchange_prefix W ex =
     [w_bytes W (client_id ex), w_bytes W (server_id ex), w_bytes W (client_kex_init ex),
      w_bytes W (server_kex_init ex)]"

definition ephemerals :: "wire \<Rightarrow> exchange \<Rightarrow> bytes rs list" where
  "ephemerals W ex = [w_bytes W (client_ephemeral ex), w_bytes W (server_ephemeral ex)]"

definition gex_part :: "wire \<Rightarrow> bigint \<Rightarrow> exchange \<Rightarrow> bytes rs list" where
  "gex_part W B ex =
     (case gex ex of
        None \<Rightarrow> []
      | Some (p, g) \<Rightarrow>
          gex_encode W p
          @ [w_bytes W (biguint_to_mpint B (from_bytes_be B (prime g))),
             w_bytes W (biguint_to_mpint B (from_bytes_be B (generator g)))])"

definition secret_mpint :: "wire \<Rightarrow> bytes option \<Rightarrow> bytes rs list" where
  "secret_mpint W shared = (case shared of None \<Rightarrow> [] | Some s \<Rightarrow> [encode_mpint W s])"

definition mlkem_combined :: "'st key_crates \<Rightarrow> mlkem_kex \<Rightarrow> bytes rs" where
  "mlkem_combined K k =
     and_then (ok_or (mk_pq k) KexInit) (\<lambda>k_pq. and_then (ok_or (mk_cl k) KexInit) (\<lambda>k_cl.
       Ok (hash_of K DigestSha256 (k_pq @ k_cl))))"

fun compute_exchange_hash ::
    "wire \<Rightarrow> kex_crates \<Rightarrow> 'st key_crates \<Rightarrow> kex_algorithm \<Rightarrow> bytes \<Rightarrow> exchange \<Rightarrow> bytes rs" where
  "compute_exchange_hash W X K (DhGroupKex h k) key ex =
     and_then (puts (exchange_prefix W ex @ [put_raw key] @ gex_part W (big X) ex @ ephemerals W ex
         @ (case dk_shared k of None \<Rightarrow> [] | Some s \<Rightarrow> [w_bytes W s])) [])
       (\<lambda>buf. Ok (hash_of K h buf))"
| "compute_exchange_hash W X K (Curve25519Kex k) key ex =
     and_then (puts (exchange_prefix W ex @ [put_raw key] @ ephemerals W ex @ secret_mpint W (ck_shared k)) [])
       (\<lambda>buf. Ok (hash_of K DigestSha256 buf))"
| "compute_exchange_hash W X K (EcdhNistPKex c h k) key ex =
     and_then (puts (exchange_prefix W ex @ [put_raw key] @ ephemerals W ex @ secret_mpint W (ck_shared k)) [])
       (\<lambda>buf. Ok (hash_of K h buf))"
| "compute_exchange_hash W X K (MlKem768X25519Kex k) key ex =
     and_then (puts (exchange_prefix W ex @ [put_raw key] @ ephemerals W ex) []) (\<lambda>buf.
       and_then (mlkem_combined K k) (\<lambda>s. and_then (w_bytes W s) (\<lambda>e.
         Ok (hash_of K DigestSha256 (buf @ e)))))"
| "compute_exchange_hash W X K NoneKex key ex = Ok []"

definition mpint_secret :: "wire \<Rightarrow> bytes option \<Rightarrow> shared_secret option rs" where
  "mpint_secret W shared =
     (case shared of None \<Rightarrow> Ok None | Some s \<Rightarrow> and_then (from_mpint W s) (\<lambda>m. Ok (Some m)))"

text \<open>\<open>KexAlgorithm::compute_keys\<close>: the secret that goes into the derivation and the hash function.\<close>

fun kex_secret :: "wire \<Rightarrow> 'st key_crates \<Rightarrow> kex_algorithm \<Rightarrow> (kex_digest \<times> shared_secret option) rs" where
  "kex_secret W K (DhGroupKex h k) = and_then (mpint_secret W (dk_shared k)) (\<lambda>s. Ok (h, s))"
| "kex_secret W K (Curve25519Kex k) = and_then (mpint_secret W (ck_shared k)) (\<lambda>s. Ok (DigestSha256, s))"
| "kex_secret W K (EcdhNistPKex c h k) = and_then (mpint_secret W (ck_shared k)) (\<lambda>s. Ok (h, s))"
| "kex_secret W K (MlKem768X25519Kex k) =
     and_then (mlkem_combined K k) (\<lambda>s. and_then (from_string W s) (\<lambda>s. Ok (DigestSha256, Some s)))"
| "kex_secret W K NoneKex = Ok (DigestSha256, None)"

definition kex_compute_keys ::
    "wire \<Rightarrow> 'st key_crates \<Rightarrow> kex_algorithm \<Rightarrow> bytes \<Rightarrow> bytes \<Rightarrow> string \<Rightarrow> string \<Rightarrow> string \<Rightarrow> bool
      \<Rightarrow> 'st cipher_pair rs" where
  "kex_compute_keys W K kex session_id exchange_hash cipher remote_to_local_mac local_to_remote_mac srv =
     and_then (kex_secret W K kex) (\<lambda>(h, secret).
       compute_keys K h secret session_id exchange_hash cipher remote_to_local_mac local_to_remote_mac srv)"


section \<open>What the crates promise\<close>

definition kex_laws :: "kex_crates \<Rightarrow> bool" where
  "kex_laws X \<longleftrightarrow> bigint_laws (big X)
   \<and> (\<forall>a b. x25519 X a (x25519_base X b) = x25519 X b (x25519_base X a) \<and> length (x25519_base X a) = 32)
   \<and> (\<forall>c a b. \<exists>p q. nist_from_sec1 X c (nist_public X c a) = Some p \<and> nist_from_sec1 X c (nist_public X c b) = Some q
        \<and> nist_dh X c a q = nist_dh X c b p)
   \<and> (\<forall>r e. let (sk, pk) = mlkem_generate X r; (ct, s) = mlkem_encapsulate X pk e in
        mlkem_decapsulate X sk ct = s \<and> length pk = MLKEM768_PUBLIC_KEY_SIZE \<and> length ct = MLKEM768_CIPHERTEXT_SIZE)"

text \<open>The same crates with other random values: the other side of the exchange.\<close>

definition redraw ::
    "(nat \<Rightarrow> nat \<Rightarrow> nat) \<Rightarrow> bytes \<Rightarrow> (nist_curve \<Rightarrow> bytes) \<Rightarrow> bytes option \<Rightarrow> kex_crates \<Rightarrow> kex_crates" where
  "redraw g s rs r X = X\<lparr>big := (big X)\<lparr>gen_biguint_range := g\<rparr>, random_scalar := s, random_secret := rs, getrandom := r\<rparr>"

lemma redraw_simps [simp]:
  "from_bytes_be (big (redraw g s rs r X)) = from_bytes_be (big X)"
  "to_bytes_be (big (redraw g s rs r X)) = to_bytes_be (big X)"
  "modpow (big (redraw g s rs r X)) = modpow (big X)"
  "x25519 (redraw g s rs r X) = x25519 X" "x25519_base (redraw g s rs r X) = x25519_base X"
  "nist_public (redraw g s rs r X) = nist_public X" "nist_from_sec1 (redraw g s rs r X) = nist_from_sec1 X"
  "nist_dh (redraw g s rs r X) = nist_dh X" "mlkem_encapsulate (redraw g s rs r X) = mlkem_encapsulate X"
  by (simp_all add: redraw_def)

lemma declared_key_sent:
  assumes "ssh_wire W" "t \<in> types" "length s < 2 ^ 32" "len_ok (length s) = Ok ()"
  shows "declared_key W types (t # be_put W (as_u32 (length s)) @ s) len_ok = Ok s"
  using assms ssh_wire.be_read_put [OF assms(1), of "as_u32 (length s)" s]
  by (simp add: declared_key_def slice_from_def slice_def ssh_wire.be_put_length)

lemma sent_key:
  "ssh_wire W \<Longrightarrow> length s < 2 ^ 32 \<Longrightarrow>
    puts [w_u8 W t, w_bytes W s] [] = Ok (t # be_put W (as_u32 (length s)) @ s)"
  by (simp add: ssh_wire.put_u8 ssh_wire.put_bytes)

lemma mpint_value: "bigint_laws B \<Longrightarrow> from_bytes_be B (biguint_to_mpint B n) = n"
  by (auto simp: bigint_laws_def biguint_to_mpint_def Let_def split: option.splits)

lemma biguint_to_mpint_cong: "to_bytes_be B = to_bytes_be B' \<Longrightarrow> biguint_to_mpint B n = biguint_to_mpint B' n"
  by (simp add: biguint_to_mpint_def)

lemma generate_private_key_other:
  "generate_private_key B srv d = Ok d' \<Longrightarrow> \<exists>x. d' = d\<lparr>private_key := x\<rparr> \<and> 1 \<le> prime_num d"
  by (auto simp: generate_private_key_def big_sub_def outcome_simps split: if_splits)

lemma dh_check_Ok: "dh_check m = Ok () \<longleftrightarrow> m = Ok True"
  by (auto simp: dh_check_def outcome_simps split: if_splits)

lemma dh_agrees:
  assumes W: "ssh_wire W" and B: "bigint_laws B" "from_bytes_be B' = from_bytes_be B" "to_bytes_be B' = to_bytes_be B" "modpow B' = modpow B"
    and c: "dh_client W B k = Ok (kc, e, out)" and len: "length e < 2 ^ 32"
    and s: "dh_server W B' k ex out = Ok (ks, exs)"
    and f: "dh_shared B kc (server_ephemeral exs) = Ok kc'"
  shows "dk_shared kc' = dk_shared ks"
proof -
  from c obtain d x where d: "dk_dh k = Some d" and p: "1 \<le> prime_num d"
    and kc: "kc = k\<lparr>dk_dh := Some (d\<lparr>private_key := x, public_key := modpow B (dh_generator d) x (prime_num d)\<rparr>)\<rparr>"
    and e: "e = biguint_to_mpint B (modpow B (dh_generator d) x (prime_num d))"
    and out: "puts [w_u8 W (if dk_is_gex k then KEX_DH_GEX_INIT else KEX_ECDH_INIT), w_bytes W e] [] = Ok out"
    by (auto simp: dh_client_def outcome_simps generate_public_key_def Let_def simp del: puts.simps
        split: option.splits dest!: generate_private_key_other)
  let ?types = "{KEX_ECDH_INIT, KEX_DH_GEX_INIT}"
  have key: "declared_key W ?types out (\<lambda>_. Ok ()) = Ok e"
    using out sent_key [OF W len] declared_key_sent [OF W _ len, of _ ?types "\<lambda>_. Ok ()"] by (auto split: if_splits)
  from s d key obtain y where
    ks: "dk_shared ks = Some (biguint_to_mpint B' (modpow B' (from_bytes_be B' e) y (prime_num d)))"
    and exs: "server_ephemeral exs = biguint_to_mpint B' (modpow B' (dh_generator d) y (prime_num d))"
    by (auto simp: dh_server_def outcome_simps generate_public_key_def dh_compute_shared_secret_def
        decode_public_key_def Let_def dest!: generate_private_key_other)
  have m: "biguint_to_mpint B' = biguint_to_mpint B"
    using B(3) biguint_to_mpint_cong [of B' B] by blast
  have pow: "modpow B a b (prime_num d) = a ^ b mod prime_num d" for a b
    using B(1) p by (simp add: bigint_laws_def)
  from f kc have "dk_shared kc' = Some (biguint_to_mpint B (modpow B (from_bytes_be B (server_ephemeral exs)) x (prime_num d)))"
    by (auto simp: dh_shared_def outcome_simps dh_compute_shared_secret_def decode_public_key_def Let_def)
  then show ?thesis
    using ks exs e m B pow modpow_commute [of "dh_generator d" x "prime_num d" y] mpint_value [OF B(1)] by simp
qed

lemma curve25519_agrees:
  assumes W: "ssh_wire W" and X: "kex_laws X"
    and c: "curve25519_client W X k = Ok (kc, e, out)"
    and s: "curve25519_server W (redraw g sc rs r X) k ex out = Ok (ks, exs)"
    and f: "curve25519_shared X kc (server_ephemeral exs) = Ok kc'"
  shows "ck_shared kc' = ck_shared ks"
proof -
  let ?e = "x25519_base X (random_scalar X)"
  have l: "length ?e = 32" using X by (simp add: kex_laws_def)
  then have key: "declared_key W {KEX_ECDH_INIT} (KEX_ECDH_INIT # be_put W (as_u32 (length ?e)) @ ?e)
      (\<lambda>n. if n \<noteq> 32 then Err KexError else Ok ()) = Ok ?e"
    by (intro declared_key_sent [OF W]) simp_all
  from c l have out: "out = KEX_ECDH_INIT # be_put W (as_u32 (length ?e)) @ ?e" and kc: "ck_local kc = Some (random_scalar X)"
    using sent_key [OF W, of ?e KEX_ECDH_INIT] by (auto simp: curve25519_client_def Let_def outcome_simps simp del: puts.simps)
  from s key out have "ck_shared ks = Some (x25519 X sc ?e)" "server_ephemeral exs = x25519_base X sc"
    by (auto simp: curve25519_server_def redraw_def Let_def)
  with f kc X show ?thesis
    by (auto simp: curve25519_shared_def kex_laws_def split: if_splits)
qed


lemma nist_agrees:
  assumes W: "ssh_wire W" and X: "kex_laws X"
    and c: "nist_client W X v k = Ok (kc, e, out)" and len: "length e < 2 ^ 32"
    and s: "nist_server W (redraw g sc rs r X) v k ex out = Ok (ks, exs)"
    and f: "nist_shared X v kc (server_ephemeral exs) = Ok kc'"
  shows "ck_shared kc' = ck_shared ks"
proof -
  let ?a = "random_secret X v" and ?b = "rs v"
  let ?e = "nist_public X v ?a"
  have e: "e = ?e" and kc: "ck_local kc = Some ?a"
    using c by (auto simp: nist_client_def Let_def outcome_simps simp del: puts.simps)
  have out: "out = KEX_ECDH_INIT # be_put W (as_u32 (length ?e)) @ ?e"
    using c len sent_key [OF W, of ?e KEX_ECDH_INIT]
    by (auto simp: nist_client_def Let_def outcome_simps e simp del: puts.simps)
  have key: "declared_key W {KEX_ECDH_INIT} out (\<lambda>_. Ok ()) = Ok ?e"
    unfolding out by (rule declared_key_sent [OF W]) (use len e in simp_all)
  obtain p q where pq: "nist_from_sec1 X v ?e = Some p" "nist_from_sec1 X v (nist_public X v ?b) = Some q"
    "nist_dh X v ?a q = nist_dh X v ?b p"
    using X unfolding kex_laws_def by blast
  from s key pq(1) have "ck_shared ks = Some (nist_dh X v ?b p)" "server_ephemeral exs = nist_public X v ?b"
    by (auto simp: nist_server_def redraw_def Let_def)
  with f kc pq show ?thesis by (auto simp: nist_shared_def)
qed

lemma mlkem_agrees:
  assumes W: "ssh_wire W" and X: "kex_laws X"
    and c: "mlkem_client W X k = Ok (kc, e, out)"
    and s: "mlkem_server W (redraw g sc rs r X) k ex out = Ok (ks, exs)"
    and f: "mlkem_shared X kc (server_ephemeral exs) = Ok kc'"
  shows "mk_pq kc' = mk_pq ks \<and> mk_cl kc' = mk_cl ks"
proof -
  from c obtain rn where rn: "getrandom X = Some rn" by (auto simp: mlkem_client_def outcome_simps)
  obtain sk pk where g: "mlkem_generate X rn = (sk, pk)" by (cases "mlkem_generate X rn")
  let ?x = "random_scalar X"
  let ?e = "pk @ x25519_base X ?x"
  have law: "mlkem_decapsulate X sk (fst (mlkem_encapsulate X pk re)) = snd (mlkem_encapsulate X pk re)
      \<and> length pk = 1184 \<and> length (fst (mlkem_encapsulate X pk re)) = 1088" for re
  proof -
    have "let (sk, pk) = mlkem_generate X rn; (ct, s) = mlkem_encapsulate X pk re in
        mlkem_decapsulate X sk ct = s \<and> length pk = MLKEM768_PUBLIC_KEY_SIZE \<and> length ct = MLKEM768_CIPHERTEXT_SIZE"
      using X unfolding kex_laws_def by blast
    then show ?thesis by (simp add: g Let_def split_beta)
  qed
  have lp: "length pk = 1184" "length (x25519_base X ?x) = 32"
    using law X by (simp_all add: kex_laws_def)
  have kc: "mk_mlkem kc = Some sk" "mk_x25519 kc = Some ?x"
    and out: "out = KEX_HYBRID_INIT # be_put W (as_u32 (length ?e)) @ ?e"
    using c rn g lp sent_key [OF W, of ?e KEX_HYBRID_INIT]
    by (auto simp: mlkem_client_def Let_def outcome_simps simp del: puts.simps)
  have key: "declared_key W {KEX_HYBRID_INIT} out (\<lambda>_. Ok ()) = Ok ?e"
    unfolding out by (rule declared_key_sent [OF W]) (use lp in simp_all)
  from s key lp obtain re where "r = Some re" by (auto simp: mlkem_server_def redraw_def outcome_simps)
  moreover obtain ct sh where en: "mlkem_encapsulate X pk re = (ct, sh)" by (cases "mlkem_encapsulate X pk re")
  ultimately have ks: "mk_pq ks = Some sh" "mk_cl ks = Some (x25519 X sc (x25519_base X ?x))"
    "server_ephemeral exs = ct @ x25519_base X sc"
    using s key lp by (auto simp: mlkem_server_def redraw_def Let_def)
  have "mlkem_decapsulate X sk ct = sh" "length ct = 1088"
    using law [of re] en by simp_all
  with f kc ks X show ?thesis
    by (auto simp: mlkem_shared_def Let_def kex_laws_def split: if_splits)
qed

lemma gex_part_redraw: "gex_part W (big (redraw g s rs r X)) ex = gex_part W (big X) ex"
  by (cases "gex ex") (auto simp: gex_part_def biguint_to_mpint_def)

lemma secrets_agree:
  assumes "ssh_wire W" "kex_laws X"
    and "client_dh W X kex exc = Ok (kc, exc', payload)" "length (client_ephemeral exc') < 2 ^ 32"
    and "server_dh W (redraw g sc rs r X) kex exs payload = Ok (ks, exs')"
    and "compute_shared_secret X kc (server_ephemeral exs') = Ok kc'"
  shows "kex_secret W K kc' = kex_secret W K ks
    \<and> compute_exchange_hash W X K kc' key ex = compute_exchange_hash W (redraw g sc rs r X) K ks key ex"
proof (cases kex)
  case (DhGroupKex h k)
  with assms obtain k1 k2 k3 e where c: "dh_client W (big X) k = Ok (k1, e, payload)" "kc = DhGroupKex h k1"
      "exc' = exc\<lparr>client_ephemeral := e\<rparr>"
    and s: "dh_server W (big (redraw g sc rs r X)) k exs payload = Ok (k2, exs')" "ks = DhGroupKex h k2"
    and f: "dh_shared (big X) k1 (server_ephemeral exs') = Ok k3" "kc' = DhGroupKex h k3"
    by (auto simp: outcome_simps)
  have "dk_shared k3 = dk_shared k2"
    using dh_agrees [OF assms(1) _ _ _ _ c(1) _ s(1) f(1)] assms(2,4) c(3) by (auto simp: kex_laws_def)
  then show ?thesis using s f by (simp add: gex_part_redraw)
next
  case (Curve25519Kex k)
  with assms obtain k1 k2 k3 e where c: "curve25519_client W X k = Ok (k1, e, payload)" "kc = Curve25519Kex k1"
    and s: "curve25519_server W (redraw g sc rs r X) k exs payload = Ok (k2, exs')" "ks = Curve25519Kex k2"
    and f: "curve25519_shared X k1 (server_ephemeral exs') = Ok k3" "kc' = Curve25519Kex k3"
    by (auto simp: outcome_simps)
  show ?thesis using curve25519_agrees [OF assms(1,2) c(1) s(1) f(1)] s f by simp
next
  case (EcdhNistPKex v h k)
  with assms obtain k1 k2 k3 e where c: "nist_client W X v k = Ok (k1, e, payload)" "kc = EcdhNistPKex v h k1"
      "exc' = exc\<lparr>client_ephemeral := e\<rparr>"
    and s: "nist_server W (redraw g sc rs r X) v k exs payload = Ok (k2, exs')" "ks = EcdhNistPKex v h k2"
    and f: "nist_shared X v k1 (server_ephemeral exs') = Ok k3" "kc' = EcdhNistPKex v h k3"
    by (auto simp: outcome_simps)
  show ?thesis using nist_agrees [OF assms(1,2) c(1) _ s(1) f(1)] assms(4) c(3) s f by simp
next
  case (MlKem768X25519Kex k)
  with assms obtain k1 k2 k3 e where c: "mlkem_client W X k = Ok (k1, e, payload)" "kc = MlKem768X25519Kex k1"
    and s: "mlkem_server W (redraw g sc rs r X) k exs payload = Ok (k2, exs')" "ks = MlKem768X25519Kex k2"
    and f: "mlkem_shared X k1 (server_ephemeral exs') = Ok k3" "kc' = MlKem768X25519Kex k3"
    by (auto simp: outcome_simps)
  have "mlkem_combined K k3 = mlkem_combined K k2"
    using mlkem_agrees [OF assms(1,2) c(1) s(1) f(1)] by (simp add: mlkem_combined_def)
  then show ?thesis using s f by simp
next
  case NoneKex
  then show ?thesis using assms by auto
qed

text \<open>Property C13: in every key exchange method, when the client's first message reaches the server and
  the server's ephemeral key the client, both hold the same shared secret, and with the same exchange
  record they compute the same exchange hash.\<close>

theorem kex_secrets_agree:
  assumes "ssh_wire W" "kex_laws X"
    and "client_dh W X kex exc = Ok (kc, exc', payload)" "length (client_ephemeral exc') < 2 ^ 32"
    and "server_dh W (redraw g sc rs r X) kex exs payload = Ok (ks, exs')"
    and "compute_shared_secret X kc (server_ephemeral exs') = Ok kc'"
  shows "kex_secret W K kc' = kex_secret W K ks
    \<and> compute_exchange_hash W X K kc' key ex = compute_exchange_hash W (redraw g sc rs r X) K ks key ex"
  by (rule secrets_agree [OF assms])


definition sample_kex_crates :: kex_crates where
  "sample_kex_crates = \<lparr>big = sample_bigint, random_scalar = [1], x25519_base = (\<lambda>a. replicate 32 5),
     x25519 = (\<lambda>a p. replicate 32 6), random_secret = (\<lambda>c. [2]), nist_public = (\<lambda>c a. [4, 1]),
     nist_from_sec1 = (\<lambda>c s. if s = [4, 1] then Some s else None), nist_dh = (\<lambda>c a p. [3]),
     getrandom = Some [8], mlkem_generate = (\<lambda>r. (r, replicate MLKEM768_PUBLIC_KEY_SIZE 1)),
     mlkem_encapsulate = (\<lambda>pk r. (replicate MLKEM768_CIPHERTEXT_SIZE 2, [9])), mlkem_decapsulate = (\<lambda>sk ct. [9])\<rparr>"

lemma sample_kex_laws: "kex_laws sample_kex_crates"
  using sample_bigint_laws by (simp add: kex_laws_def sample_kex_crates_def Let_def)

theorem kex_secrets_agree_witness:
  "\<exists>kc exc payload ks exs kc'.
     client_dh rfc4251_wire sample_kex_crates (Curve25519Kex curve_kex_new) (exchange_new [1] [2]) = Ok (kc, exc, payload)
   \<and> server_dh rfc4251_wire (redraw (\<lambda>lo hi. lo) [7] (\<lambda>c. [3]) None sample_kex_crates) (Curve25519Kex curve_kex_new)
       (exchange_new [1] [2]) payload = Ok (ks, exs)
   \<and> compute_shared_secret sample_kex_crates kc (server_ephemeral exs) = Ok kc'
   \<and> compute_exchange_hash rfc4251_wire sample_kex_crates flip_keys kc' [4] exs
       = compute_exchange_hash rfc4251_wire (redraw (\<lambda>lo hi. lo) [7] (\<lambda>c. [3]) None sample_kex_crates) flip_keys ks [4] exs"
proof -
  let ?X' = "redraw (\<lambda>lo hi. lo) [7] (\<lambda>c. [3]) None sample_kex_crates"
  let ?e = "replicate 32 5 :: bytes"
  let ?pay = "KEX_ECDH_INIT # be_put rfc4251_wire (as_u32 (length ?e)) @ ?e"
  have c: "client_dh rfc4251_wire sample_kex_crates (Curve25519Kex curve_kex_new) (exchange_new [1] [2])
      = Ok (Curve25519Kex (curve_kex_new\<lparr>ck_local := Some [1]\<rparr>),
          (exchange_new [1] [2])\<lparr>client_ephemeral := ?e\<rparr>, ?pay)"
    using sent_key [OF rfc.ssh_wire_axioms, of ?e KEX_ECDH_INIT]
    by (simp add: curve25519_client_def sample_kex_crates_def Let_def del: puts.simps)
  have k: "declared_key rfc4251_wire {KEX_ECDH_INIT} ?pay (\<lambda>n. if n \<noteq> 32 then Err KexError else Ok ()) = Ok ?e"
    by (rule declared_key_sent [OF rfc.ssh_wire_axioms]) simp_all
  have s: "server_dh rfc4251_wire ?X' (Curve25519Kex curve_kex_new) (exchange_new [1] [2]) ?pay
      = Ok (Curve25519Kex (curve_kex_new\<lparr>ck_shared := Some (replicate 32 6)\<rparr>),
          (exchange_new [1] [2])\<lparr>server_ephemeral := ?e\<rparr>)"
    using k by (simp add: curve25519_server_def sample_kex_crates_def redraw_def Let_def)
  have f: "compute_shared_secret sample_kex_crates (Curve25519Kex (curve_kex_new\<lparr>ck_local := Some [1]\<rparr>))
      (server_ephemeral ((exchange_new [1] [2])\<lparr>server_ephemeral := ?e\<rparr>))
      = Ok (Curve25519Kex (curve_kex_new\<lparr>ck_local := None, ck_shared := Some (replicate 32 6)\<rparr>))"
    by (simp add: curve25519_shared_def sample_kex_crates_def)
  note a = kex_secrets_agree [OF rfc.ssh_wire_axioms sample_kex_laws c _ s f, THEN conjunct2, of flip_keys]
  have l: "length (client_ephemeral ((exchange_new [1] [2])\<lparr>client_ephemeral := ?e\<rparr>)) < 2 ^ 32" by simp
  show ?thesis
    by (intro exI conjI) (rule c, rule s, rule f, rule a [OF l])
qed

text \<open>A peer that sends the all-zero point of Curve25519 (so that the product is zero, which
  RFC 8731 requires both sides to refuse) brings this program not to an error but to a panic, in the
  exchange hash and in the derivation of the keys.\<close>

theorem zero_point_panics:
  assumes "ssh_wire W" "ck_shared k = Some (replicate 32 0)"
    and "puts (exchange_prefix W ex @ [put_raw key] @ ephemerals W ex) [] = Ok buf"
  shows "compute_exchange_hash W X K (Curve25519Kex k) key ex = Panic
    \<and> kex_secret W K (Curve25519Kex k) = Panic"
proof -
  have p: "encode_mpint W (replicate 32 0) = Panic"
    using encode_mpint_eq [OF assms(1), of "replicate 32 0"] by simp
  have "kex_secret W K (Curve25519Kex k) = Panic"
    using p assms(2) by (simp add: mpint_secret_def from_mpint_def)
  moreover have "puts ((exchange_prefix W ex @ [put_raw key] @ ephemerals W ex) @ secret_mpint W (ck_shared k)) [] = Panic"
    using assms p unfolding puts_append by (simp add: secret_mpint_def)
  ultimately show ?thesis by simp
qed

theorem zero_point_panics_witness:
  "compute_exchange_hash rfc4251_wire sample_kex_crates flip_keys
      (Curve25519Kex \<lparr>ck_local = None, ck_shared = Some (replicate 32 0)\<rparr>) [4] (exchange_new [1] [2]) = Panic"
proof -
  have "puts (exchange_prefix rfc4251_wire (exchange_new [1] [2]) @ [put_raw [4]]
      @ ephemerals rfc4251_wire (exchange_new [1] [2])) []
    = Ok (concat [be_put rfc4251_wire 1 @ [1], be_put rfc4251_wire 1 @ [2], be_put rfc4251_wire 0, be_put rfc4251_wire 0,
        [4], be_put rfc4251_wire 0, be_put rfc4251_wire 0])"
    by (simp add: exchange_prefix_def ephemerals_def exchange_new_def rfc.put_bytes)
  from zero_point_panics [OF rfc.ssh_wire_axioms _ this, of "\<lparr>ck_local = None, ck_shared = Some (replicate 32 0)\<rparr>"
      sample_kex_crates flip_keys]
  show ?thesis by simp
qed

end
