(* ===== verification/Lib.thy ===== *)
theory Lib
  imports Wire Msg
begin

text \<open>
  \<open>lib_inner.rs\<close>: identifiers, reasons, signals and the parameters of a channel, shared by the
  client and the server.
\<close>

section \<open>Channel identifiers\<close>

datatype channel_id = ChannelId (channel_num: u32)

text \<open>\<open>derive(Ord)\<close>: channels compare by number.\<close>

instantiation channel_id :: linorder
begin

definition less_eq_channel_id :: "channel_id \<Rightarrow> channel_id \<Rightarrow> bool" where
  "less_eq_channel_id a b \<longleftrightarrow> channel_num a \<le> channel_num b"

definition less_channel_id :: "channel_id \<Rightarrow> channel_id \<Rightarrow> bool" where
  "less_channel_id a b \<longleftrightarrow> channel_num a < channel_num b"

instance
  by standard (auto simp: less_eq_channel_id_def less_channel_id_def channel_id.expand)

end

definition decode_channel_id :: "wire \<Rightarrow> bytes \<Rightarrow> (channel_id \<times> bytes) rs" where
  "decode_channel_id W r = and_then (r_u32 W r) (\<lambda>(x, r). Ok (ChannelId x, r))"

definition encode_channel_id :: "wire \<Rightarrow> channel_id \<Rightarrow> bytes rs" where
  "encode_channel_id W c = w_u32 W (channel_num c)"

section \<open>Reasons and signals\<close>

datatype disconnect_reason =
    HostNotAllowedToConnect | ProtocolError | KeyExchangeFailed | Reserved | MACError
  | CompressionFailed | ServiceNotAvailable | ProtocolVersionNotSupported | HostKeyNotVerifiable
  | ConnectionLost | ByApplication | TooManyConnections | AuthCancelledByUser
  | NoMoreAuthMethodsAvailable | IllegalUserName

fun disconnect_code :: "disconnect_reason \<Rightarrow> u32" where
  "disconnect_code HostNotAllowedToConnect = 1"
| "disconnect_code ProtocolError = 2"
| "disconnect_code KeyExchangeFailed = 3"
| "disconnect_code Reserved = 4"
| "disconnect_code MACError = 5"
| "disconnect_code CompressionFailed = 6"
| "disconnect_code ServiceNotAvailable = 7"
| "disconnect_code ProtocolVersionNotSupported = 8"
| "disconnect_code HostKeyNotVerifiable = 9"
| "disconnect_code ConnectionLost = 10"
| "disconnect_code ByApplication = 11"
| "disconnect_code TooManyConnections = 12"
| "disconnect_code AuthCancelledByUser = 13"
| "disconnect_code NoMoreAuthMethodsAvailable = 14"
| "disconnect_code IllegalUserName = 15"

definition disconnect_from_u32 :: "u32 \<Rightarrow> disconnect_reason rs" where
  "disconnect_from_u32 x =
     (if x = 1 then Ok HostNotAllowedToConnect
      else if x = 2 then Ok ProtocolError
      else if x = 3 then Ok KeyExchangeFailed
      else if x = 4 then Ok Reserved
      else if x = 5 then Ok MACError
      else if x = 6 then Ok CompressionFailed
      else if x = 7 then Ok ServiceNotAvailable
      else if x = 8 then Ok ProtocolVersionNotSupported
      else if x = 9 then Ok HostKeyNotVerifiable
      else if x = 10 then Ok ConnectionLost
      else if x = 11 then Ok ByApplication
      else if x = 12 then Ok TooManyConnections
      else if x = 13 then Ok AuthCancelledByUser
      else if x = 14 then Ok NoMoreAuthMethodsAvailable
      else if x = 15 then Ok IllegalUserName
      else Err Inconsistent)"

datatype sig =
    SigABRT | SigALRM | SigFPE | SigHUP | SigILL | SigINT | SigKILL | SigPIPE | SigQUIT | SigSEGV
  | SigTERM | SigUSR1 | SigCustom string

fun sig_name :: "sig \<Rightarrow> string" where
  "sig_name SigABRT = ''ABRT''"
| "sig_name SigALRM = ''ALRM''"
| "sig_name SigFPE = ''FPE''"
| "sig_name SigHUP = ''HUP''"
| "sig_name SigILL = ''ILL''"
| "sig_name SigINT = ''INT''"
| "sig_name SigKILL = ''KILL''"
| "sig_name SigPIPE = ''PIPE''"
| "sig_name SigQUIT = ''QUIT''"
| "sig_name SigSEGV = ''SEGV''"
| "sig_name SigTERM = ''TERM''"
| "sig_name SigUSR1 = ''USR1''"
| "sig_name (SigCustom c) = c"

definition sig_from_name :: "string \<Rightarrow> sig" where
  "sig_from_name name =
     (if name = ''ABRT'' then SigABRT
      else if name = ''ALRM'' then SigALRM
      else if name = ''FPE'' then SigFPE
      else if name = ''HUP'' then SigHUP
      else if name = ''ILL'' then SigILL
      else if name = ''INT'' then SigINT
      else if name = ''KILL'' then SigKILL
      else if name = ''PIPE'' then SigPIPE
      else if name = ''QUIT'' then SigQUIT
      else if name = ''SEGV'' then SigSEGV
      else if name = ''TERM'' then SigTERM
      else if name = ''USR1'' then SigUSR1
      else SigCustom name)"

fun channel_open_failure_code :: "channel_open_failure \<Rightarrow> u32" where
  "channel_open_failure_code AdministrativelyProhibited = 1"
| "channel_open_failure_code ConnectFailed = 2"
| "channel_open_failure_code UnknownChannelType = 3"
| "channel_open_failure_code ResourceShortage = 4"
| "channel_open_failure_code UnknownFailure = 0"

definition channel_open_failure_from_u32 :: "u32 \<Rightarrow> channel_open_failure option" where
  "channel_open_failure_from_u32 x =
     (if x = 1 then Some AdministrativelyProhibited
      else if x = 2 then Some ConnectFailed
      else if x = 3 then Some UnknownChannelType
      else if x = 4 then Some ResourceShortage
      else None)"

section \<open>Limits\<close>

text \<open>Durations are numbers of milliseconds.\<close>

record limits =
  rekey_write_limit :: nat
  rekey_read_limit :: nat
  rekey_time_limit :: nat

definition limits_new :: "nat \<Rightarrow> nat \<Rightarrow> nat \<Rightarrow> limits rs" where
  "limits_new write_limit read_limit time_limit =
     (if write_limit \<le> 2 ^ 30 \<and> read_limit \<le> 2 ^ 30 then
        Ok \<lparr>rekey_write_limit = write_limit, rekey_read_limit = read_limit,
            rekey_time_limit = time_limit\<rparr>
      else Panic)"

definition limits_default :: limits where
  "limits_default = \<lparr>rekey_write_limit = 2 ^ 30, rekey_read_limit = 2 ^ 30,
     rekey_time_limit = 3600 * 1000\<rparr>"

section \<open>The parameters of a channel\<close>

text \<open>A pending item is the buffer, its extended stream and how much of it was written.\<close>

type_synonym pending = "bytes \<times> u32 option \<times> nat"

record channel_params =
  recipient_channel :: u32
  sender_channel :: channel_id
  recipient_window_size :: u32
  sender_window_size :: u32
  recipient_maximum_packet_size :: u32
  sender_maximum_packet_size :: u32
  confirmed :: bool
  chan_wants_reply :: bool
  pending_data :: "pending list"
  pending_eof :: bool
  pending_close :: bool

record channel_open_confirmation =
  coc_recipient_channel :: u32
  coc_sender_channel :: u32
  coc_initial_window_size :: u32
  coc_maximum_packet_size :: u32

definition confirm_channel :: "channel_open_confirmation \<Rightarrow> channel_params \<Rightarrow> channel_params" where
  "confirm_channel c p = p\<lparr>recipient_channel := coc_sender_channel c,
     recipient_window_size := coc_initial_window_size c,
     recipient_maximum_packet_size := coc_maximum_packet_size c,
     confirmed := True\<rparr>"

section \<open>Lemmas\<close>

lemma disconnect_from_code: "disconnect_from_u32 (disconnect_code d) = Ok d"
  by (cases d) (simp_all add: disconnect_from_u32_def)

lemma disconnect_from_Ok: "disconnect_from_u32 x = Ok d \<Longrightarrow> disconnect_code d = x"
  by (simp add: disconnect_from_u32_def split: if_splits)

lemma sig_name_from: "sig_name (sig_from_name n) = n"
  by (simp add: sig_from_name_def)

lemma open_failure_from_code:
  "channel_open_failure_from_u32 (channel_open_failure_code f) = (if f = UnknownFailure then None else Some f)"
  by (cases f) (simp_all add: channel_open_failure_from_u32_def)

text \<open>The codes of the protocol read back as what they name: a disconnect reason from
  its number and only from it, a signal from its name, with every name (standard or not) kept, and
  an open failure from its number.\<close>

theorem protocol_codes_roundtrip:
  "(disconnect_from_u32 x = Ok d \<longleftrightarrow> disconnect_code d = x)
   \<and> sig_name (sig_from_name n) = n
   \<and> (channel_open_failure_from_u32 y = Some f \<longleftrightarrow> channel_open_failure_code f = y \<and> f \<noteq> UnknownFailure)"
proof -
  have "channel_open_failure_from_u32 y = Some f \<Longrightarrow> channel_open_failure_code f = y \<and> f \<noteq> UnknownFailure"
    by (simp add: channel_open_failure_from_u32_def split: if_splits)
  then show ?thesis
    using disconnect_from_code disconnect_from_Ok sig_name_from open_failure_from_code by metis
qed

lemma decode_encode_channel_id:
  assumes "ssh_wire W"
  shows "and_then (encode_channel_id W c) (\<lambda>b. decode_channel_id W (b @ r)) = Ok (c, r)"
  by (simp add: encode_channel_id_def decode_channel_id_def ssh_wire.put_u32 [OF assms]
      ssh_wire.get_u32 [OF assms])

end
