(* ===== verification/Config.thy ===== *)
theory Config
  imports KexAlgorithms Lib Auth
begin

text \<open>
  What a connection is configured with: the crate \<open>ssh_key\<close> (a parameter: the functions of it that the
  sources call), \<open>keys/key.rs\<close> and \<open>sign_with_hash_alg\<close> of \<open>helpers.rs\<close>, the \<open>Config\<close> of the server and
  of the client, and the environment record that bundles all the crates for the session theories.
  Durations are numbers of milliseconds.
\<close>

section \<open>Keys\<close>

record ('key, 'pub, 'sig) ssh_keys =
  key_algorithm :: "'key \<Rightarrow> algorithm"
  public_of :: "'key \<Rightarrow> 'pub" \<comment> \<open>\<open>PrivateKey::public_key\<close>\<close>
  pub_to_bytes :: "'pub \<Rightarrow> bytes rs" \<comment> \<open>\<open>PublicKey::to_bytes\<close>\<close>
  pub_decode :: "bytes \<Rightarrow> 'pub rs" \<comment> \<open>\<open>KeyData::decode\<close>\<close>
  try_sign :: "'key \<Rightarrow> bytes \<Rightarrow> bytes rs" \<comment> \<open>the encoded signature\<close>
  try_sign_rsa :: "'key \<Rightarrow> hash_alg option \<Rightarrow> bytes \<Rightarrow> bytes rs"
  sig_decode :: "bytes \<Rightarrow> 'sig rs" \<comment> \<open>\<open>Signature::decode\<close>\<close>
  verify :: "'pub \<Rightarrow> bytes \<Rightarrow> 'sig \<Rightarrow> bool" \<comment> \<open>\<open>Verifier::verify\<close> is \<open>Ok\<close>\<close>
  alg_str :: "algorithm \<Rightarrow> string"
  r_mpint :: "bytes \<Rightarrow> (bytes \<times> bytes) rs" \<comment> \<open>\<open>Mpint::decode\<close>\<close>

text \<open>\<open>PrivateKeyWithHashAlg\<close>: a key and, for RSA, the hash of its signatures.\<close>

record 'key key_with_hash =
  kh_key :: 'key
  kh_hash_alg :: "hash_alg option"

definition key_with_hash_new :: "('key, 'pub, 'sig) ssh_keys \<Rightarrow> 'key \<Rightarrow> hash_alg option \<Rightarrow> 'key key_with_hash" where
  "key_with_hash_new S key h =
     \<lparr>kh_key = key, kh_hash_alg = (if \<not> is_rsa (key_algorithm S key) then None else h)\<rparr>"

definition key_with_hash_algorithm :: "('key, 'pub, 'sig) ssh_keys \<Rightarrow> 'key key_with_hash \<Rightarrow> algorithm" where
  "key_with_hash_algorithm S k = with_hash_alg (key_algorithm S (kh_key k)) (kh_hash_alg k)"

text \<open>\<open>key_data()\<close> is the RSA variant exactly where the key's algorithm is RSA; the other branch of the
  inner \<open>let\<close> is \<open>unreachable!\<close>.\<close>

definition sign_with_hash_alg :: "('key, 'pub, 'sig) ssh_keys \<Rightarrow> 'key key_with_hash \<Rightarrow> bytes \<Rightarrow> bytes rs" where
  "sign_with_hash_alg S k data =
     (if is_rsa (key_algorithm S (kh_key k))
      then (case key_with_hash_algorithm S k of
              Rsa h \<Rightarrow> try_sign_rsa S (kh_key k) h data
            | _ \<Rightarrow> Panic)
      else try_sign S (kh_key k) data)"

definition parse_public_key :: "('key, 'pub, 'sig) ssh_keys \<Rightarrow> bytes \<Rightarrow> 'pub rs" where
  "parse_public_key S p = pub_decode S p"

lemma sign_with_hash_alg_reachable:
  "sign_with_hash_alg S (key_with_hash_new S key h) data
    = (if is_rsa (key_algorithm S key) then try_sign_rsa S key h data else try_sign S key data)"
  by (cases "key_algorithm S key")
    (simp_all add: sign_with_hash_alg_def key_with_hash_new_def key_with_hash_algorithm_def)

section \<open>Configurations\<close>

record 'key server_config =
  sc_server_id :: ssh_id
  sc_methods :: method_set
  sc_auth_rejection_time :: nat
  sc_auth_rejection_time_initial :: "nat option"
  sc_keys :: "'key list"
  sc_limits :: limits
  sc_window_size :: u32
  sc_maximum_packet_size :: u32
  sc_channel_buffer_size :: nat
  sc_event_buffer_size :: nat
  sc_preferred :: preferred
  sc_max_auth_attempts :: nat
  sc_inactivity_timeout :: "nat option"
  sc_keepalive_interval :: "nat option"
  sc_keepalive_max :: nat
  sc_nodelay :: bool

record client_config =
  cc_client_id :: ssh_id
  cc_limits :: limits
  cc_window_size :: u32
  cc_maximum_packet_size :: u32
  cc_channel_buffer_size :: nat
  cc_preferred :: preferred
  cc_inactivity_timeout :: "nat option"
  cc_keepalive_interval :: "nat option"
  cc_keepalive_max :: nat
  cc_anonymous :: bool
  cc_gex :: gex_params
  cc_nodelay :: bool

text \<open>\<open>pkg\<close> is the package's name and version, which the build supplies.\<close>

definition server_config_default :: "string \<Rightarrow> 'key server_config" where
  "server_config_default pkg = \<lparr>
     sc_server_id = Standard (''SSH-2.0-'' @ pkg), sc_methods = all_methods,
     sc_auth_rejection_time = 1000, sc_auth_rejection_time_initial = None, sc_keys = [],
     sc_limits = limits_default, sc_window_size = 2097152, sc_maximum_packet_size = 32768,
     sc_channel_buffer_size = 100, sc_event_buffer_size = 10, sc_preferred = preferred_default,
     sc_max_auth_attempts = 10, sc_inactivity_timeout = Some 600000, sc_keepalive_interval = None,
     sc_keepalive_max = 3, sc_nodelay = False\<rparr>"

definition client_config_default :: "string \<Rightarrow> client_config" where
  "client_config_default pkg = \<lparr>
     cc_client_id = Standard (''SSH-2.0-'' @ pkg), cc_limits = limits_default,
     cc_window_size = 2097152, cc_maximum_packet_size = 32768, cc_channel_buffer_size = 100,
     cc_preferred = preferred_default, cc_inactivity_timeout = None, cc_keepalive_interval = None,
     cc_keepalive_max = 3, cc_anonymous = False, cc_gex = gex_default, cc_nodelay = False\<rparr>"

section \<open>The environment of a session\<close>

text \<open>All the crates that a step of a session calls, and the random cookie of a KEXINIT.\<close>

record ('st, 'z, 'key, 'pub, 'sig) env =
  crates_of :: "('st, 'z) crates"
  kex_of :: kex_crates
  keys_of :: "'st key_crates"
  ssh_of :: "('key, 'pub, 'sig) ssh_keys"
  cookie_of :: bytes

abbreviation env_wire :: "('st, 'z, 'key, 'pub, 'sig) env \<Rightarrow> wire" where
  "env_wire V \<equiv> wire_of (crates_of V)"

text \<open>A packet as the session reads it: the payload, and the sequence number after it.\<close>

record incoming =
  in_buffer :: bytes
  in_seqn :: u32

section \<open>The outcome of an exchange\<close>

record 'st new_keys =
  nk_exchange :: exchange
  nk_names :: negotiated
  nk_kex :: kex_algorithm
  nk_key :: nat
  nk_cipher :: "'st cipher_pair"
  nk_session_id :: bytes

datatype ('k, 'pub, 'st) kex_progress =
    NeedsReply 'k bool \<comment> \<open>\<open>reset_seqn\<close>\<close>
  | KexDone "'pub option" "'st new_keys"

text \<open>\<open>EncryptedState\<close> of \<open>session.rs\<close>.\<close>

datatype encrypted_state =
    WaitingAuthServiceRequest bool bool \<comment> \<open>\<open>sent\<close>, \<open>accepted\<close>\<close>
  | WaitingAuthRequest auth_request
  | InitCompression
  | Authenticated

text \<open>\<open>input.seqn.0 as usize - 1\<close>, which wraps in a release build.\<close>

definition seqn_before :: "u32 \<Rightarrow> nat" where
  "seqn_before s = (if s = 0 then 2 ^ 64 - 1 else unat s - 1)"

lemma seqn_before_eq: "s \<noteq> 0 \<Longrightarrow> seqn_before s = unat s - 1"
  by (simp add: seqn_before_def)

end
