(* ===== verification/Kex.thy ===== *)
theory Kex
  imports Config
begin

text \<open>
  The key exchange as the two state machines that run it: \<open>ServerKex\<close> (\<open>server/kex.rs\<close>) and \<open>ClientKex\<close>
  (\<open>client/kex.rs\<close>). A step consumes one packet, may write packets, and yields the machine again or the
  new keys. Each branch of \<open>step\<close> is a definition; a run is a list of packets. The properties: what a
  finished exchange has verified, in which order messages are accepted, and that both sides end with
  matching keys and the same session id.
\<close>

section \<open>The server's machine\<close>

datatype 'st server_kex_state =
    SCreated
  | SWaitingForGexRequest negotiated kex_algorithm
  | SWaitingForDhInit negotiated kex_algorithm
  | SWaitingForNewKeys "'st new_keys"

record ('st, 'key) server_kex =
  sk_exchange :: exchange
  sk_cause :: kex_cause
  sk_state :: "'st server_kex_state"
  sk_config :: "'key server_config"

definition server_kex_new ::
    "'key server_config \<Rightarrow> bytes \<Rightarrow> ssh_id \<Rightarrow> kex_cause \<Rightarrow> ('st, 'key) server_kex" where
  "server_kex_new config client_sshid server_sshid cause =
     \<lparr>sk_exchange = exchange_new client_sshid (as_kex_hash_bytes server_sshid), sk_cause = cause,
      sk_state = SCreated, sk_config = config\<rparr>"

definition server_kexinit ::
    "('st, 'z, 'key, 'pub, 'sig) env \<Rightarrow> ('st, 'key) server_kex \<Rightarrow> ('st, 'z) packet_writer
      \<Rightarrow> (('st, 'key) server_kex \<times> ('st, 'z) packet_writer) rs" where
  "server_kexinit V k output =
     and_then (write_kex (crates_of V) (alg_str (ssh_of V)) (cookie_of V) (sc_preferred (sk_config k))
                (Some (map (key_algorithm (ssh_of V)) (sc_keys (sk_config k)))) output)
       (\<lambda>(sent, output).
         Ok (k\<lparr>sk_exchange := (sk_exchange k)\<lparr>server_kex_init := sent\<rparr>\<rparr>, output))"

text \<open>\<open>compute_keys\<close> of either side: the session id is the one of the first exchange.\<close>

definition keys_for ::
    "bool \<Rightarrow> ('st, 'z, 'key, 'pub, 'sig) env \<Rightarrow> bytes \<Rightarrow> kex_algorithm \<Rightarrow> negotiated \<Rightarrow> exchange \<Rightarrow> bytes option
      \<Rightarrow> 'st new_keys rs" where
  "keys_for is_server V hash kex names ex session_id =
     (let sid = (case session_id of Some s \<Rightarrow> s | None \<Rightarrow> hash) in
      and_then (if is_server
                then kex_compute_keys (env_wire V) (keys_of V) kex sid hash (n_cipher names)
                       (n_client_mac names) (n_server_mac names) True
                else kex_compute_keys (env_wire V) (keys_of V) kex sid hash (n_cipher names)
                       (n_server_mac names) (n_client_mac names) False)
        (\<lambda>c. Ok \<lparr>nk_exchange = ex, nk_names = names, nk_kex = kex, nk_key = 0, nk_cipher = c,
                nk_session_id = sid\<rparr>))"

definition server_compute_keys where
  "server_compute_keys = keys_for True"

definition client_compute_keys where
  "client_compute_keys = keys_for False"

abbreviation newkeys_packet :: "wire \<Rightarrow> bytes rs list" where
  "newkeys_packet W \<equiv> [w_u8 W NEWKEYS]"

text \<open>The guard that opens every branch: a packet of the expected type.\<close>

definition expect :: "incoming option \<Rightarrow> u8 \<Rightarrow> error \<Rightarrow> incoming rs" where
  "expect input msg e =
     (case input of
        None \<Rightarrow> Err KexInit
      | Some i \<Rightarrow> if first (in_buffer i) \<noteq> Some msg then Err e else Ok i)"

text \<open>What both machines do with a KEXINIT that they have read into \<open>names\<close>.\<close>

definition check_strict_kexinit :: "negotiated \<Rightarrow> kex_cause \<Rightarrow> incoming \<Rightarrow> unit rs" where
  "check_strict_kexinit names cause input =
     (if n_strict_kex names \<and> \<not> is_rekey cause \<and> in_seqn input \<noteq> 1
      then Err (strict_kex_violation KEXINIT (seqn_before (in_seqn input))) else Ok ())"

definition server_created ::
    "('st, 'z, 'key, 'pub, 'sig) env \<Rightarrow> ('st, 'key) server_kex \<Rightarrow> incoming option \<Rightarrow> ('st, 'z) packet_writer
      \<Rightarrow> ((('st, 'key) server_kex, 'pub, 'st) kex_progress \<times> ('st, 'z) packet_writer) rs" where
  "server_created V k input output =
     and_then (expect input KEXINIT KexInit) (\<lambda>input.
       let ex = (sk_exchange k)\<lparr>client_kex_init := client_kex_init (sk_exchange k) @ in_buffer input\<rparr> in
     and_then (read_kex (env_wire V) (alg_str (ssh_of V)) Server (in_buffer input) (sc_preferred (sk_config k))
                (Some (map (key_algorithm (ssh_of V)) (sc_keys (sk_config k)))) (sk_cause k)) (\<lambda>names.
     and_then (check_strict_kexinit names (sk_cause k) input) (\<lambda>_.
     and_then (ok_or (KEXES (big (kex_of V)) (n_kex names)) UnknownAlgo) (\<lambda>kex.
       if skip_exchange kex then
         and_then (server_compute_keys V [] kex names ex (cause_session_id (sk_cause k))) (\<lambda>newkeys.
         and_then (packet (crates_of V) (newkeys_packet (env_wire V)) output) (\<lambda>(_, output).
           Ok (KexDone None newkeys, output)))
       else if is_dh_gex kex then
         Ok (NeedsReply (k\<lparr>sk_exchange := ex, sk_state := SWaitingForGexRequest names kex\<rparr>) False, output)
       else
         Ok (NeedsReply (k\<lparr>sk_exchange := ex, sk_state := SWaitingForDhInit names kex\<rparr>) False, output)))))"

text \<open>\<open>lookup\<close> is the handler's \<open>lookup_dh_gex_group\<close>.\<close>

definition server_gex_request ::
    "('st, 'z, 'key, 'pub, 'sig) env \<Rightarrow> (gex_params \<Rightarrow> dh_group option rs) \<Rightarrow> ('st, 'key) server_kex
      \<Rightarrow> negotiated \<Rightarrow> kex_algorithm \<Rightarrow> incoming option \<Rightarrow> ('st, 'z) packet_writer
      \<Rightarrow> ((('st, 'key) server_kex, 'pub, 'st) kex_progress \<times> ('st, 'z) packet_writer) rs" where
  "server_gex_request V lookup k names kex input output =
     and_then (expect input KEX_DH_GEX_REQUEST KexInit) (\<lambda>input.
     and_then (slice_from 1 (in_buffer input)) (\<lambda>r.
     and_then (gex_decode (env_wire V) r) (\<lambda>(params, _).
     and_then (lookup params) (\<lambda>found.
     and_then (ok_or found KexError) (\<lambda>group.
       let B = big (kex_of V);
           prime_mpint = biguint_to_mpint B (from_bytes_be B (prime group));
           generator_mpint = biguint_to_mpint B (from_bytes_be B (generator group));
           ex = (sk_exchange k)\<lparr>gex := Some (params, group)\<rparr> in
     and_then (dh_gex_set_group B kex group) (\<lambda>kex.
     and_then (packet (crates_of V)
                [w_u8 (env_wire V) KEX_DH_GEX_GROUP, w_bytes (env_wire V) prime_mpint,
                 w_bytes (env_wire V) generator_mpint] output) (\<lambda>(_, output).
       Ok (NeedsReply (k\<lparr>sk_exchange := ex, sk_state := SWaitingForDhInit names kex\<rparr>) False, output))))))))"

definition init_type :: "kex_algorithm \<Rightarrow> u8" where
  "init_type kex = (if is_dh_gex kex then KEX_DH_GEX_INIT else KEX_ECDH_INIT)"

definition reply_type :: "kex_algorithm \<Rightarrow> u8" where
  "reply_type kex = (if is_dh_gex kex then KEX_DH_GEX_REPLY else KEX_ECDH_REPLY)"

text \<open>The hash that is signed: the public key as a string, then the exchange.\<close>

definition signed_hash ::
    "('st, 'z, 'key, 'pub, 'sig) env \<Rightarrow> kex_algorithm \<Rightarrow> 'pub \<Rightarrow> exchange \<Rightarrow> bytes rs" where
  "signed_hash V kex pub ex =
     and_then (pub_to_bytes (ssh_of V) pub) (\<lambda>b.
     and_then (w_bytes (env_wire V) b) (\<lambda>pubkey_vec.
       compute_exchange_hash (env_wire V) (kex_of V) (keys_of V) kex pubkey_vec ex))"

text \<open>\<open>match &names.key { Algorithm::Rsa { hash } => *hash, _ => None }\<close>.\<close>

fun signature_hash_alg :: "algorithm \<Rightarrow> hash_alg option" where
  "signature_hash_alg (Rsa hash) = hash"
| "signature_hash_alg _ = None"

definition server_dh_init ::
    "('st, 'z, 'key, 'pub, 'sig) env \<Rightarrow> ('st, 'key) server_kex
      \<Rightarrow> negotiated \<Rightarrow> kex_algorithm \<Rightarrow> incoming option \<Rightarrow> ('st, 'z) packet_writer
      \<Rightarrow> ((('st, 'key) server_kex, 'pub, 'st) kex_progress \<times> ('st, 'z) packet_writer) rs" where
  "server_dh_init V k names kex input output =
     (let E = crates_of V; W = wire_of E; S = ssh_of V in
      if input = None then Err KexInit
      else if n_ignore_guessed names then
        Ok (NeedsReply (k\<lparr>sk_state := SWaitingForDhInit (names\<lparr>n_ignore_guessed := False\<rparr>) kex\<rparr>) False, output)
      else
     and_then (expect input (init_type kex) KexInit) (\<lambda>input.
     and_then (slice_from 1 (in_buffer input)) (\<lambda>r.
     and_then (r_bytes W r) (\<lambda>(e, _).
       let ex = (sk_exchange k)\<lparr>client_ephemeral := client_ephemeral (sk_exchange k) @ e\<rparr> in
     and_then (server_dh W (kex_of V) kex ex (in_buffer input)) (\<lambda>(kex, ex).
     and_then (ok_or (find (\<lambda>key. is_key_compatible_with_algo (key_algorithm S key) (n_key names))
                       (sc_keys (sk_config k))) UnknownKey) (\<lambda>key.
     and_then (signed_hash V kex (public_of S key) ex) (\<lambda>hash.
     and_then (sign_with_hash_alg S (key_with_hash_new S key (signature_hash_alg (n_key names))) hash) (\<lambda>signature.
     and_then (packet E
                [w_u8 W (reply_type kex), and_then (pub_to_bytes S (public_of S key)) (w_bytes W),
                 w_bytes W (server_ephemeral ex), w_bytes W signature] output) (\<lambda>(_, output).
     and_then (packet E (newkeys_packet W) output) (\<lambda>(_, output).
     and_then (server_compute_keys V hash kex names ex (cause_session_id (sk_cause k))) (\<lambda>newkeys.
       Ok (NeedsReply (k\<lparr>sk_exchange := ex, sk_state := SWaitingForNewKeys newkeys\<rparr>)
             (n_strict_kex (nk_names newkeys) \<or> is_strict_rekey (sk_cause k)), output))))))))))))"

fun server_step ::
    "('st, 'z, 'key, 'pub, 'sig) env \<Rightarrow> (gex_params \<Rightarrow> dh_group option rs) \<Rightarrow> ('st, 'key) server_kex
      \<Rightarrow> incoming option \<Rightarrow> ('st, 'z) packet_writer
      \<Rightarrow> ((('st, 'key) server_kex, 'pub, 'st) kex_progress \<times> ('st, 'z) packet_writer) rs" where
  "server_step V lookup k input output =
     (case sk_state k of
        SCreated \<Rightarrow> server_created V k input output
      | SWaitingForGexRequest names kex \<Rightarrow> server_gex_request V lookup k names kex input output
      | SWaitingForDhInit names kex \<Rightarrow> server_dh_init V k names kex input output
      | SWaitingForNewKeys newkeys \<Rightarrow>
          and_then (expect input NEWKEYS KexError) (\<lambda>_. Ok (KexDone None newkeys, output)))"

section \<open>The client's machine\<close>

datatype ('st, 'pub) client_kex_state =
    CCreated
  | CWaitingForGexReply negotiated kex_algorithm
  | CWaitingForDhReply negotiated kex_algorithm
  | CWaitingForNewKeys 'pub "'st new_keys"

record ('st, 'pub) client_kex =
  ck_exchange :: exchange
  ck_cause :: kex_cause
  ck_state :: "('st, 'pub) client_kex_state"
  ck_config :: client_config

definition client_kex_new ::
    "client_config \<Rightarrow> ssh_id \<Rightarrow> bytes \<Rightarrow> kex_cause \<Rightarrow> ('st, 'pub) client_kex" where
  "client_kex_new config client_sshid server_sshid cause =
     \<lparr>ck_exchange = exchange_new (as_kex_hash_bytes client_sshid) server_sshid, ck_cause = cause,
      ck_state = CCreated, ck_config = config\<rparr>"

definition client_kexinit ::
    "('st, 'z, 'key, 'pub, 'sig) env \<Rightarrow> ('st, 'pub) client_kex \<Rightarrow> ('st, 'z) packet_writer
      \<Rightarrow> (('st, 'pub) client_kex \<times> ('st, 'z) packet_writer) rs" where
  "client_kexinit V k output =
     and_then (write_kex (crates_of V) (alg_str (ssh_of V)) (cookie_of V) (cc_preferred (ck_config k)) None output)
       (\<lambda>(sent, output).
         Ok (k\<lparr>ck_exchange := (ck_exchange k)\<lparr>client_kex_init := sent\<rparr>\<rparr>, output))"

text \<open>\<open>output.packet(|w| kex.client_dh(&mut exchange.client_ephemeral, w))\<close>.\<close>

definition send_client_dh ::
    "('st, 'z, 'key, 'pub, 'sig) env \<Rightarrow> kex_algorithm \<Rightarrow> exchange \<Rightarrow> ('st, 'z) packet_writer
      \<Rightarrow> (kex_algorithm \<times> exchange \<times> ('st, 'z) packet_writer) rs" where
  "send_client_dh V kex ex output =
     and_then (client_dh (env_wire V) (kex_of V) kex ex) (\<lambda>(kex, ex, payload).
     and_then (packet (crates_of V) [put_raw payload] output) (\<lambda>(_, output). Ok (kex, ex, output)))"

definition client_created ::
    "('st, 'z, 'key, 'pub, 'sig) env \<Rightarrow> ('st, 'pub) client_kex \<Rightarrow> incoming option \<Rightarrow> ('st, 'z) packet_writer
      \<Rightarrow> ((('st, 'pub) client_kex, 'pub, 'st) kex_progress \<times> ('st, 'z) packet_writer) rs" where
  "client_created V k input output =
     and_then (expect input KEXINIT KexInit) (\<lambda>input.
       let ex = (ck_exchange k)\<lparr>server_kex_init := server_kex_init (ck_exchange k) @ in_buffer input\<rparr> in
     and_then (read_kex (env_wire V) (alg_str (ssh_of V)) Client (in_buffer input) (cc_preferred (ck_config k))
                None (ck_cause k)) (\<lambda>names.
     and_then (check_strict_kexinit names (ck_cause k) input) (\<lambda>_.
     and_then (ok_or (KEXES (big (kex_of V)) (n_kex names)) UnknownAlgo) (\<lambda>kex.
       if skip_exchange kex then
         and_then (client_compute_keys V [] kex names ex (cause_session_id (ck_cause k))) (\<lambda>newkeys.
         and_then (packet (crates_of V) (newkeys_packet (env_wire V)) output) (\<lambda>(_, output).
           Ok (KexDone None newkeys, output)))
       else if is_dh_gex kex then
         and_then (packet (crates_of V) (client_dh_gex_init (env_wire V) kex (cc_gex (ck_config k))) output)
           (\<lambda>(_, output).
             Ok (NeedsReply (k\<lparr>ck_exchange := ex, ck_state := CWaitingForGexReply names kex\<rparr>) False, output))
       else
         and_then (send_client_dh V kex ex output) (\<lambda>(kex, ex, output).
           Ok (NeedsReply (k\<lparr>ck_exchange := ex, ck_state := CWaitingForDhReply names kex\<rparr>) False, output))))))"

definition client_gex_reply ::
    "('st, 'z, 'key, 'pub, 'sig) env \<Rightarrow> ('st, 'pub) client_kex
      \<Rightarrow> negotiated \<Rightarrow> kex_algorithm \<Rightarrow> incoming option \<Rightarrow> ('st, 'z) packet_writer
      \<Rightarrow> ((('st, 'pub) client_kex, 'pub, 'st) kex_progress \<times> ('st, 'z) packet_writer) rs" where
  "client_gex_reply V k names kex input output =
     and_then (expect input KEX_DH_GEX_GROUP KexInit) (\<lambda>input.
     and_then (slice_from 1 (in_buffer input)) (\<lambda>r.
     and_then (r_mpint (ssh_of V) r) (\<lambda>(p, r).
     and_then (r_mpint (ssh_of V) r) (\<lambda>(g, _).
       let group = \<lparr>prime = p, generator = g\<rparr>; limits = cc_gex (ck_config k) in
       if dh_bit_size group < min_group_size limits \<or> max_group_size limits < dh_bit_size group
       then Err KexInit
       else
         let ex = (ck_exchange k)\<lparr>gex := Some (limits, group)\<rparr> in
         and_then (dh_gex_set_group (big (kex_of V)) kex group) (\<lambda>kex.
         and_then (send_client_dh V kex ex output) (\<lambda>(kex, ex, output).
           Ok (NeedsReply (k\<lparr>ck_exchange := ex, ck_state := CWaitingForDhReply names kex\<rparr>) False, output)))))))"

definition client_dh_reply ::
    "('st, 'z, 'key, 'pub, 'sig) env \<Rightarrow> ('st, 'pub) client_kex
      \<Rightarrow> negotiated \<Rightarrow> kex_algorithm \<Rightarrow> incoming option \<Rightarrow> ('st, 'z) packet_writer
      \<Rightarrow> ((('st, 'pub) client_kex, 'pub, 'st) kex_progress \<times> ('st, 'z) packet_writer) rs" where
  "client_dh_reply V k names kex input output =
     (let E = crates_of V; W = wire_of E; S = ssh_of V in
      if input = None then Err KexInit
      else if n_ignore_guessed names then
        Ok (NeedsReply (k\<lparr>ck_state := CWaitingForDhReply (names\<lparr>n_ignore_guessed := False\<rparr>) kex\<rparr>) False, output)
      else
     and_then (expect input (reply_type kex) KexInit) (\<lambda>input.
     and_then (slice_from 1 (in_buffer input)) (\<lambda>r.
     and_then (r_bytes W r) (\<lambda>(s, r).
     and_then (parse_public_key S s) (\<lambda>host_key.
     and_then (r_bytes W r) (\<lambda>(e, r).
       let ex = (ck_exchange k)\<lparr>server_ephemeral := server_ephemeral (ck_exchange k) @ e\<rparr> in
     and_then (compute_shared_secret (kex_of V) kex (server_ephemeral ex)) (\<lambda>kex.
     and_then (signed_hash V kex host_key ex) (\<lambda>hash.
     and_then (r_bytes W r) (\<lambda>(s, _).
     and_then (sig_decode S s) (\<lambda>signature.
       if \<not> verify S host_key hash signature then Err WrongServerSig
       else
     and_then (client_compute_keys V hash kex names ex (cause_session_id (ck_cause k))) (\<lambda>newkeys.
     and_then (packet E (newkeys_packet W) output) (\<lambda>(_, output).
       Ok (NeedsReply (k\<lparr>ck_exchange := ex, ck_state := CWaitingForNewKeys host_key newkeys\<rparr>)
             (n_strict_kex (nk_names newkeys) \<or> is_strict_rekey (ck_cause k)), output)))))))))))))"

fun client_step ::
    "('st, 'z, 'key, 'pub, 'sig) env \<Rightarrow> ('st, 'pub) client_kex \<Rightarrow> incoming option \<Rightarrow> ('st, 'z) packet_writer
      \<Rightarrow> ((('st, 'pub) client_kex, 'pub, 'st) kex_progress \<times> ('st, 'z) packet_writer) rs" where
  "client_step V k input output =
     (case ck_state k of
        CCreated \<Rightarrow> client_created V k input output
      | CWaitingForGexReply names kex \<Rightarrow> client_gex_reply V k names kex input output
      | CWaitingForDhReply names kex \<Rightarrow> client_dh_reply V k names kex input output
      | CWaitingForNewKeys host_key newkeys \<Rightarrow>
          and_then (expect input NEWKEYS KexError) (\<lambda>_. Ok (KexDone (Some host_key) newkeys, output)))"

end
