(* ===== verification/KexRuns.thy ===== *)
theory KexRuns
  imports Kex
begin

text \<open>
  Runs of the two key exchange machines of \<open>Kex\<close>: the packets that a machine consumes, from its start to
  the new keys. The lemmas take each branch of \<open>step\<close> apart once; the invariants of a run and the order of
  messages follow by rule induction.
\<close>

section \<open>Runs\<close>

inductive client_run ::
    "('st, 'z, 'key, 'pub, 'sig) env \<Rightarrow> ('st, 'pub) client_kex \<Rightarrow> ('st, 'z) packet_writer \<Rightarrow> incoming list
      \<Rightarrow> (('st, 'pub) client_kex, 'pub, 'st) kex_progress \<Rightarrow> bool" for V where
  client_last: "client_step V k (Some i) w = Ok (r, w') \<Longrightarrow> client_run V k w [i] r"
| client_more: "client_step V k (Some i) w = Ok (NeedsReply k' b, w') \<Longrightarrow> client_run V k' w' ins r
    \<Longrightarrow> client_run V k w (i # ins) r"

inductive server_run ::
    "('st, 'z, 'key, 'pub, 'sig) env \<Rightarrow> (gex_params \<Rightarrow> dh_group option rs) \<Rightarrow> ('st, 'key) server_kex
      \<Rightarrow> ('st, 'z) packet_writer \<Rightarrow> incoming list \<Rightarrow> (('st, 'key) server_kex, 'pub, 'st) kex_progress \<Rightarrow> bool"
  for V lookup where
  server_last: "server_step V lookup k (Some i) w = Ok (r, w') \<Longrightarrow> server_run V lookup k w [i] r"
| server_more: "server_step V lookup k (Some i) w = Ok (NeedsReply k' b, w') \<Longrightarrow> server_run V lookup k' w' ins r
    \<Longrightarrow> server_run V lookup k w (i # ins) r"

inductive_cases client_runE: "client_run V k w ins r"
inductive_cases server_runE: "server_run V lookup k w ins r"

lemma client_run_nonempty: "client_run V k w ins r \<Longrightarrow> ins \<noteq> []"
  by (erule client_run.cases) auto

lemma server_run_nonempty: "server_run V lookup k w ins r \<Longrightarrow> ins \<noteq> []"
  by (erule server_run.cases) auto

abbreviation msg_type :: "incoming \<Rightarrow> u8 option" where "msg_type i \<equiv> first (in_buffer i)"

section \<open>The branches taken apart\<close>

lemma expect_Ok [outcome_simps]: "expect (Some i) m e = Ok j \<longleftrightarrow> j = i \<and> msg_type i = Some m"
  by (auto simp: expect_def)

lemma check_strict_Ok [outcome_simps]:
  "check_strict_kexinit names cause i = Ok u \<longleftrightarrow> (n_strict_kex names \<and> \<not> is_rekey cause \<longrightarrow> in_seqn i = 1)"
  by (auto simp: check_strict_kexinit_def)

text \<open>What a machine has fixed once it has read the peer's KEXINIT \<open>i\<close>.\<close>

definition names_of :: "negotiated rs \<Rightarrow> negotiated \<Rightarrow> bool" where
  "names_of m names \<longleftrightarrow> (\<exists>n. m = Ok n \<and> (names = n \<or> names = n\<lparr>n_ignore_guessed := False\<rparr>))"

definition client_names :: "('st, 'z, 'key, 'pub, 'sig) env \<Rightarrow> client_config \<Rightarrow> kex_cause \<Rightarrow> incoming \<Rightarrow> negotiated rs" where
  "client_names V config cause i =
     read_kex (env_wire V) (alg_str (ssh_of V)) Client (in_buffer i) (cc_preferred config) None cause"

definition server_names :: "('st, 'z, 'key, 'pub, 'sig) env \<Rightarrow> 'key server_config \<Rightarrow> kex_cause \<Rightarrow> incoming \<Rightarrow> negotiated rs" where
  "server_names V config cause i =
     read_kex (env_wire V) (alg_str (ssh_of V)) Server (in_buffer i) (sc_preferred config)
       (Some (map (key_algorithm (ssh_of V)) (sc_keys config))) cause"

lemma names_of_skip: "names_of m names \<Longrightarrow> names_of m (names\<lparr>n_ignore_guessed := False\<rparr>)"
  by (auto simp: names_of_def)

lemma client_dh_keeps:
  "client_dh W X kex ex = Ok (kex', ex', out) \<Longrightarrow>
    (\<exists>e. ex' = ex\<lparr>client_ephemeral := e\<rparr>) \<and> is_dh_gex kex' = is_dh_gex kex"
proof (cases kex)
  case NoneKex
  then show "client_dh W X kex ex = Ok (kex', ex', out) \<Longrightarrow> ?thesis"
    by (auto intro: exI [of _ "client_ephemeral ex"])
qed (auto simp: outcome_simps dh_client_def curve25519_client_def nist_client_def mlkem_client_def Let_def split_beta
    split: option.splits)

lemma server_dh_keeps:
  "server_dh W X kex ex p = Ok (kex', ex') \<Longrightarrow>
    (\<exists>e. ex' = ex\<lparr>server_ephemeral := e\<rparr>) \<and> is_dh_gex kex' = is_dh_gex kex"
proof (cases kex)
  case NoneKex
  then show "server_dh W X kex ex p = Ok (kex', ex') \<Longrightarrow> ?thesis"
    by (auto intro: exI [of _ "server_ephemeral ex"])
qed (auto simp: outcome_simps dh_server_def curve25519_server_def nist_server_def mlkem_server_def Let_def split_beta
    split: option.splits if_splits)

lemma set_group_gex: "dh_gex_set_group B kex g = Ok kex' \<Longrightarrow> is_dh_gex kex' = is_dh_gex kex"
  by (cases kex) auto


lemma KEXES_none: "KEXES B name = Some kex \<Longrightarrow> skip_exchange kex \<Longrightarrow> name = NONE_NAME"
  by (simp add: KEXES_def split: if_splits) auto

lemma keys_for_fields:
  "keys_for srv V hash kex names ex sid = Ok nk \<Longrightarrow>
    nk_exchange nk = ex \<and> nk_names nk = names \<and> nk_kex nk = kex
    \<and> nk_session_id nk = (case sid of Some s \<Rightarrow> s | None \<Rightarrow> hash)"
  by (auto simp: keys_for_def Let_def outcome_simps split: if_splits)

lemma keys_for_env:
  "crates_of V' = crates_of V \<Longrightarrow> keys_of V' = keys_of V \<Longrightarrow> keys_for srv V' = keys_for srv V"
  by (intro ext, cases srv) (simp_all add: keys_for_def)

section \<open>Fresh random values\<close>

text \<open>\<open>V'\<close> is the environment \<open>V\<close> with other random values: the padding, the cookie and the secrets of an exchange.
  A session draws them anew all the time; nothing that is checked depends on them.\<close>

definition redrawn :: "('st, 'z, 'key, 'pub, 'sig) env \<Rightarrow> ('st, 'z, 'key, 'pub, 'sig) env \<Rightarrow> bool" where
  "redrawn V V' \<longleftrightarrow> (\<exists>f g sc rs rn c.
     V' = V\<lparr>crates_of := (crates_of V)\<lparr>fill_bytes := f\<rparr>, kex_of := redraw g sc rs rn (kex_of V), cookie_of := c\<rparr>)"

lemma redrawn_refl [simp]: "redrawn V V"
  unfolding redrawn_def
  by (intro exI [of _ "fill_bytes (crates_of V)"] exI [of _ "gen_biguint_range (big (kex_of V))"] exI [of _ "random_scalar (kex_of V)"]
      exI [of _ "random_secret (kex_of V)"] exI [of _ "getrandom (kex_of V)"] exI [of _ "cookie_of V"]) (simp add: redraw_def)

lemma exchange_hash_redraw:
  "compute_exchange_hash W (redraw g sc rs rn X) K kex = compute_exchange_hash W X K kex"
  by (intro ext, cases kex) (simp_all add: gex_part_redraw)

lemma redrawn_parts:
  assumes "redrawn V V'"
  shows "wire_of (crates_of V') = wire_of (crates_of V)" "crypto_of (crates_of V') = crypto_of (crates_of V)"
    "flate_of (crates_of V') = flate_of (crates_of V)" "keys_of V' = keys_of V" "ssh_of V' = ssh_of V"
    "compute_exchange_hash W (kex_of V') K kex = compute_exchange_hash W (kex_of V) K kex"
  using assms by (auto simp: redrawn_def exchange_hash_redraw)

lemma redrawn_keys: "redrawn V V' \<Longrightarrow> keys_for srv V' = keys_for srv V"
  by (intro ext, cases srv) (simp_all add: keys_for_def redrawn_parts)

section \<open>What a client's run establishes\<close>

text \<open>The host key has signed the exchange that these keys come from, and they come from nothing else.\<close>

definition authenticated ::
    "('st, 'z, 'key, 'pub, 'sig) env \<Rightarrow> kex_cause \<Rightarrow> 'pub \<Rightarrow> 'st new_keys \<Rightarrow> bool" where
  "authenticated V cause pub nk \<longleftrightarrow>
     (\<exists>hash signature. signed_hash V (nk_kex nk) pub (nk_exchange nk) = Ok hash
        \<and> verify (ssh_of V) pub hash signature
        \<and> client_compute_keys V hash (nk_kex nk) (nk_names nk) (nk_exchange nk) (cause_session_id cause) = Ok nk)"

text \<open>The exchange is about the KEXINIT that was sent and the one that was received, \<open>i\<close>; the names are
  what the negotiation makes of it.\<close>

definition client_bound ::
    "('st, 'z, 'key, 'pub, 'sig) env \<Rightarrow> client_config \<Rightarrow> kex_cause \<Rightarrow> bytes \<Rightarrow> incoming \<Rightarrow> negotiated \<Rightarrow> exchange \<Rightarrow> bool"
where
  "client_bound V config cause sent i names ex \<longleftrightarrow>
     msg_type i = Some KEXINIT \<and> client_kex_init ex = sent \<and> server_kex_init ex = in_buffer i
     \<and> names_of (client_names V config cause i) names
     \<and> (n_strict_kex names \<and> \<not> is_rekey cause \<longrightarrow> in_seqn i = 1)"

definition client_inv ::
    "('st, 'z, 'key, 'pub, 'sig) env \<Rightarrow> client_config \<Rightarrow> kex_cause \<Rightarrow> bytes \<Rightarrow> incoming \<Rightarrow> ('st, 'pub) client_kex \<Rightarrow> bool"
where
  "client_inv V config cause sent i k \<longleftrightarrow> ck_config k = config \<and> ck_cause k = cause
     \<and> (case ck_state k of
          CCreated \<Rightarrow> False
        | CWaitingForGexReply names kex \<Rightarrow> client_bound V config cause sent i names (ck_exchange k)
        | CWaitingForDhReply names kex \<Rightarrow> client_bound V config cause sent i names (ck_exchange k)
        | CWaitingForNewKeys pub nk \<Rightarrow>
            client_bound V config cause sent i (nk_names nk) (nk_exchange nk) \<and> authenticated V cause pub nk)"

definition client_result ::
    "('st, 'z, 'key, 'pub, 'sig) env \<Rightarrow> client_config \<Rightarrow> kex_cause \<Rightarrow> bytes \<Rightarrow> incoming
      \<Rightarrow> (('st, 'pub) client_kex, 'pub, 'st) kex_progress \<Rightarrow> bool" where
  "client_result V config cause sent i r =
     (case r of
        NeedsReply k b \<Rightarrow> client_inv V config cause sent i k
      | KexDone None nk \<Rightarrow> client_bound V config cause sent i (nk_names nk) (nk_exchange nk)
          \<and> n_kex (nk_names nk) = NONE_NAME
      | KexDone (Some pub) nk \<Rightarrow> client_bound V config cause sent i (nk_names nk) (nk_exchange nk)
          \<and> authenticated V cause pub nk)"

lemma redrawn_client:
  assumes "redrawn V V'"
  shows "authenticated V' = authenticated V" "client_bound V' = client_bound V" "client_inv V' = client_inv V"
proof -
  show 1: "authenticated V' = authenticated V"
    by (intro ext) (simp add: authenticated_def signed_hash_def client_compute_keys_def redrawn_keys [OF assms] redrawn_parts [OF assms])
  show 2: "client_bound V' = client_bound V"
    by (intro ext) (simp add: client_bound_def client_names_def redrawn_parts [OF assms])
  show "client_inv V' = client_inv V"
    by (intro ext) (unfold client_inv_def 1 2, rule refl)
qed

lemmas client_facts = client_result_def client_inv_def client_bound_def

lemma authenticatedI:
  assumes "signed_hash V kex pub ex = Ok hash" "verify (ssh_of V) pub hash signature"
    and "keys_for False V hash kex names ex (cause_session_id cause) = Ok nk"
  shows "authenticated V cause pub nk \<and> nk_exchange nk = ex \<and> nk_names nk = names"
  using assms keys_for_fields [OF assms(3)] by (auto simp: authenticated_def client_compute_keys_def)

lemma client_start:
  assumes "ck_state k = CCreated" "client_kex_init (ck_exchange k) = sent" "server_kex_init (ck_exchange k) = []"
    and "client_step V k (Some i) w = Ok (r, w')"
  shows "client_result V (ck_config k) (ck_cause k) sent i r"
proof -
  obtain names kex where n: "client_names V (ck_config k) (ck_cause k) i = Ok names" "msg_type i = Some KEXINIT"
    "n_strict_kex names \<and> \<not> is_rekey (ck_cause k) \<longrightarrow> in_seqn i = 1"
    and kex: "KEXES (big (kex_of V)) (n_kex names) = Some kex"
    using assms by (auto simp: client_created_def outcome_simps Let_def client_names_def)
  have no: "names_of (Ok names) names" by (auto simp: names_of_def)
  show ?thesis
    using assms n kex no KEXES_none [OF kex]
    by (auto simp: client_created_def outcome_simps Let_def client_names_def [symmetric] client_facts send_client_dh_def
        client_compute_keys_def dest!: client_dh_keeps keys_for_fields split: if_splits)
qed

lemma client_preserves:
  assumes "client_inv V config cause sent i0 k" "client_step V k (Some i) w = Ok (r, w')"
  shows "client_result V config cause sent i0 r"
proof (cases "ck_state k")
  case (CWaitingForGexReply names kex)
  then show ?thesis
    using assms by (auto simp: client_gex_reply_def outcome_simps Let_def client_facts send_client_dh_def split_beta
        dest!: client_dh_keeps split: if_splits)
next
  case (CWaitingForDhReply names kex)
  show ?thesis
  proof (cases "n_ignore_guessed names")
    case True
    then show ?thesis
      using assms CWaitingForDhReply by (auto simp: client_dh_reply_def Let_def client_facts names_of_skip)
  next
    case False
    from assms(2) CWaitingForDhReply False obtain kex' pub ex hash signature nk b e where
      sig: "signed_hash V kex' pub ex = Ok hash" "verify (ssh_of V) pub hash signature"
      and ks: "keys_for False V hash kex' names ex (cause_session_id (ck_cause k)) = Ok nk"
      and ex: "ex = (ck_exchange k)\<lparr>server_ephemeral := e\<rparr>"
      and r: "r = NeedsReply (k\<lparr>ck_exchange := ex, ck_state := CWaitingForNewKeys pub nk\<rparr>) b"
      by (auto simp: client_dh_reply_def outcome_simps Let_def client_compute_keys_def split_beta split: if_splits)
    show ?thesis
      using assms(1) CWaitingForDhReply authenticatedI [OF sig ks] ex r by (auto simp: client_facts)
  qed
next
  case (CWaitingForNewKeys pub nk)
  then show ?thesis using assms by (auto simp: outcome_simps client_facts)
qed (use assms in \<open>simp add: client_inv_def\<close>)

lemma client_run_result:
  "client_run V k w ins r \<Longrightarrow> client_inv V config cause sent i0 k \<Longrightarrow> client_result V config cause sent i0 r"
proof (induction rule: client_run.induct)
  case (client_more k i w k' b w' ins r)
  then show ?case using client_preserves [OF client_more.prems client_more.hyps(1)] by (simp add: client_result_def)
qed (blast intro: client_preserves)

lemma client_run_started:
  assumes "client_run V k w ins r" "ck_state k = CCreated" "server_kex_init (ck_exchange k) = []"
  shows "client_result V (ck_config k) (ck_cause k) (client_kex_init (ck_exchange k)) (hd ins) r"
  using assms(1)
proof (cases rule: client_run.cases)
  case (client_last i w')
  then show ?thesis using client_start [OF assms(2) refl assms(3)] by simp
next
  case (client_more i k' b w' ins')
  then show ?thesis
    using client_start [OF assms(2) refl assms(3) client_more(2)] client_run_result [OF client_more(3)]
    by (simp add: client_result_def)
qed


section \<open>The order of messages\<close>

text \<open>The packets that a run takes for messages of the exchange: all but one wrongly guessed packet.\<close>

definition accepts :: "incoming list \<Rightarrow> u8 list \<Rightarrow> bool" where
  "accepts ins ts \<longleftrightarrow> (\<exists>pre guess post. ins = pre @ guess @ post \<and> length guess \<le> 1
     \<and> map msg_type (pre @ post) = map Some ts)"

lemma acceptsI: "map msg_type ins = map Some ts \<Longrightarrow> accepts ins ts"
  unfolding accepts_def by (intro exI [of _ ins] exI [of _ "[]"]) simp

lemma accepts_Cons:
  assumes "accepts ins ts" "msg_type i = Some t"
  shows "accepts (i # ins) (t # ts)"
proof -
  from assms(1) obtain pre guess post where "ins = pre @ guess @ post" "length guess \<le> 1"
    "map msg_type (pre @ post) = map Some ts"
    by (auto simp: accepts_def)
  with assms(2) have "i # ins = (i # pre) @ guess @ post \<and> length guess \<le> 1
      \<and> map msg_type ((i # pre) @ post) = map Some (t # ts)"
    by simp
  then show ?thesis unfolding accepts_def by blast
qed

lemma accepts_skip:
  assumes "map msg_type ins = map Some ts"
  shows "accepts (i # ins) ts"
proof -
  have "i # ins = [] @ [i] @ ins \<and> length [i] \<le> 1 \<and> map msg_type ([] @ ins) = map Some ts"
    using assms by simp
  then show ?thesis unfolding accepts_def by blast
qed

text \<open>The messages that each state of a machine still waits for.\<close>

fun client_awaits :: "('st, 'pub) client_kex_state \<Rightarrow> u8 list" where
  "client_awaits CCreated = []"
| "client_awaits (CWaitingForGexReply names kex) = [KEX_DH_GEX_GROUP, KEX_DH_GEX_REPLY, NEWKEYS]"
| "client_awaits (CWaitingForDhReply names kex) = [reply_type kex, NEWKEYS]"
| "client_awaits (CWaitingForNewKeys pub nk) = [NEWKEYS]"

fun server_awaits :: "'st server_kex_state \<Rightarrow> u8 list" where
  "server_awaits SCreated = []"
| "server_awaits (SWaitingForGexRequest names kex) = [KEX_DH_GEX_REQUEST, KEX_DH_GEX_INIT, NEWKEYS]"
| "server_awaits (SWaitingForDhInit names kex) = [init_type kex, NEWKEYS]"
| "server_awaits (SWaitingForNewKeys nk) = [NEWKEYS]"

text \<open>A group exchange waits only for its own messages.\<close>

fun client_gex_ok :: "('st, 'pub) client_kex_state \<Rightarrow> bool" where
  "client_gex_ok (CWaitingForGexReply names kex) = is_dh_gex kex"
| "client_gex_ok _ = True"

fun server_gex_ok :: "'st server_kex_state \<Rightarrow> bool" where
  "server_gex_ok (SWaitingForGexRequest names kex) = is_dh_gex kex"
| "server_gex_ok _ = True"

fun may_skip :: "'st server_kex_state \<Rightarrow> bool" where
  "may_skip (SWaitingForDhInit names kex) = n_ignore_guessed names"
| "may_skip (SWaitingForGexRequest names kex) = n_ignore_guessed names"
| "may_skip _ = False"

fun client_may_skip :: "('st, 'pub) client_kex_state \<Rightarrow> bool" where
  "client_may_skip (CWaitingForDhReply names kex) = n_ignore_guessed names"
| "client_may_skip (CWaitingForGexReply names kex) = n_ignore_guessed names"
| "client_may_skip _ = False"

text \<open>One step: it skips a guess, or takes the next message that its state awaits.\<close>

lemma server_step_awaits:
  assumes "server_step V lookup k (Some i) w = Ok (NeedsReply k' b, w')" "sk_state k \<noteq> SCreated" "server_gex_ok (sk_state k)"
  shows "sk_state k' \<noteq> SCreated \<and> server_gex_ok (sk_state k') \<and>
    ((may_skip (sk_state k) \<and> \<not> may_skip (sk_state k') \<and> server_awaits (sk_state k') = server_awaits (sk_state k))
     \<or> (may_skip (sk_state k') \<longrightarrow> may_skip (sk_state k))
       \<and> (\<exists>t. msg_type i = Some t \<and> server_awaits (sk_state k) = t # server_awaits (sk_state k')))"
  using assms
  by (cases "sk_state k")
    (auto simp: server_gex_request_def server_dh_init_def outcome_simps Let_def init_type_def split_beta
      dest: set_group_gex split: if_splits)

lemma client_step_awaits:
  assumes "client_step V k (Some i) w = Ok (NeedsReply k' b, w')" "ck_state k \<noteq> CCreated" "client_gex_ok (ck_state k)"
  shows "ck_state k' \<noteq> CCreated \<and> client_gex_ok (ck_state k') \<and>
    ((client_may_skip (ck_state k) \<and> \<not> client_may_skip (ck_state k') \<and> client_awaits (ck_state k') = client_awaits (ck_state k))
     \<or> (client_may_skip (ck_state k') \<longrightarrow> client_may_skip (ck_state k))
       \<and> (\<exists>t. msg_type i = Some t \<and> client_awaits (ck_state k) = t # client_awaits (ck_state k')))"
  using assms
  by (cases "ck_state k")
    (auto simp: client_gex_reply_def client_dh_reply_def send_client_dh_def outcome_simps Let_def reply_type_def split_beta
      dest!: set_group_gex client_dh_keeps split: if_splits)

lemma server_done_awaits:
  "server_step V lookup k (Some i) w = Ok (KexDone h nk, w') \<Longrightarrow> sk_state k \<noteq> SCreated \<Longrightarrow>
    server_awaits (sk_state k) = [NEWKEYS] \<and> msg_type i = Some NEWKEYS"
  by (cases "sk_state k")
    (auto simp: server_gex_request_def server_dh_init_def outcome_simps Let_def split_beta split: if_splits)

lemma client_done_awaits:
  "client_step V k (Some i) w = Ok (KexDone h nk, w') \<Longrightarrow> ck_state k \<noteq> CCreated \<Longrightarrow>
    client_awaits (ck_state k) = [NEWKEYS] \<and> msg_type i = Some NEWKEYS"
  by (cases "ck_state k")
    (auto simp: client_gex_reply_def client_dh_reply_def send_client_dh_def outcome_simps Let_def split_beta split: if_splits)

lemma server_run_awaits:
  "server_run V lookup k w ins r \<Longrightarrow> r = KexDone h nk \<Longrightarrow> sk_state k \<noteq> SCreated \<Longrightarrow> server_gex_ok (sk_state k) \<Longrightarrow>
    (may_skip (sk_state k) \<longrightarrow> accepts ins (server_awaits (sk_state k)))
    \<and> (\<not> may_skip (sk_state k) \<longrightarrow> map msg_type ins = map Some (server_awaits (sk_state k)))"
proof (induction rule: server_run.induct)
  case (server_last k i w r w')
  then show ?case using server_done_awaits [of V lookup k i w h nk w'] by (auto intro: acceptsI)
next
  case (server_more k i w k' b w' ins r)
  from server_step_awaits [OF server_more.hyps(1)] server_more.prems server_more.IH show ?case
    by (auto intro: acceptsI accepts_Cons accepts_skip)
qed

lemma client_run_awaits:
  "client_run V k w ins r \<Longrightarrow> r = KexDone h nk \<Longrightarrow> ck_state k \<noteq> CCreated \<Longrightarrow> client_gex_ok (ck_state k) \<Longrightarrow>
    (client_may_skip (ck_state k) \<longrightarrow> accepts ins (client_awaits (ck_state k)))
    \<and> (\<not> client_may_skip (ck_state k) \<longrightarrow> map msg_type ins = map Some (client_awaits (ck_state k)))"
proof (induction rule: client_run.induct)
  case (client_last k i w r w')
  then show ?case using client_done_awaits [of V k i w h nk w'] by (auto intro: acceptsI)
next
  case (client_more k i w k' b w' ins r)
  from client_step_awaits [OF client_more.hyps(1)] client_more.prems client_more.IH show ?case
    by (auto intro: acceptsI accepts_Cons accepts_skip)
qed


section \<open>What a server's run establishes\<close>

definition server_bound ::
    "('st, 'z, 'key, 'pub, 'sig) env \<Rightarrow> 'key server_config \<Rightarrow> kex_cause \<Rightarrow> bytes \<Rightarrow> incoming \<Rightarrow> negotiated \<Rightarrow> exchange \<Rightarrow> bool"
where
  "server_bound V config cause sent i names ex \<longleftrightarrow>
     msg_type i = Some KEXINIT \<and> client_kex_init ex = in_buffer i \<and> server_kex_init ex = sent
     \<and> names_of (server_names V config cause i) names
     \<and> (n_strict_kex names \<and> \<not> is_rekey cause \<longrightarrow> in_seqn i = 1)"

text \<open>A host key that fits the negotiated algorithm has signed the exchange that the keys come from.\<close>

definition server_signed ::
    "('st, 'z, 'key, 'pub, 'sig) env \<Rightarrow> 'key server_config \<Rightarrow> kex_cause \<Rightarrow> 'st new_keys \<Rightarrow> bool" where
  "server_signed V config cause nk \<longleftrightarrow>
     (\<exists>key hash signature. key \<in> set (sc_keys config)
        \<and> is_key_compatible_with_algo (key_algorithm (ssh_of V) key) (n_key (nk_names nk))
        \<and> signed_hash V (nk_kex nk) (public_of (ssh_of V) key) (nk_exchange nk) = Ok hash
        \<and> sign_with_hash_alg (ssh_of V)
            (key_with_hash_new (ssh_of V) key (signature_hash_alg (n_key (nk_names nk)))) hash = Ok signature
        \<and> server_compute_keys V hash (nk_kex nk) (nk_names nk) (nk_exchange nk) (cause_session_id cause) = Ok nk)"

definition server_inv ::
    "('st, 'z, 'key, 'pub, 'sig) env \<Rightarrow> 'key server_config \<Rightarrow> kex_cause \<Rightarrow> bytes \<Rightarrow> incoming \<Rightarrow> ('st, 'key) server_kex \<Rightarrow> bool"
where
  "server_inv V config cause sent i k \<longleftrightarrow> sk_config k = config \<and> sk_cause k = cause
     \<and> (case sk_state k of
          SCreated \<Rightarrow> False
        | SWaitingForGexRequest names kex \<Rightarrow> server_bound V config cause sent i names (sk_exchange k)
        | SWaitingForDhInit names kex \<Rightarrow> server_bound V config cause sent i names (sk_exchange k)
        | SWaitingForNewKeys nk \<Rightarrow>
            server_bound V config cause sent i (nk_names nk) (nk_exchange nk) \<and> server_signed V config cause nk)"

definition server_result ::
    "('st, 'z, 'key, 'pub, 'sig) env \<Rightarrow> 'key server_config \<Rightarrow> kex_cause \<Rightarrow> bytes \<Rightarrow> incoming
      \<Rightarrow> (('st, 'key) server_kex, 'pub, 'st) kex_progress \<Rightarrow> bool" where
  "server_result V config cause sent i r =
     (case r of
        NeedsReply k b \<Rightarrow> server_inv V config cause sent i k
      | KexDone h nk \<Rightarrow> server_bound V config cause sent i (nk_names nk) (nk_exchange nk)
          \<and> (n_kex (nk_names nk) = NONE_NAME \<or> server_signed V config cause nk))"

lemmas server_facts = server_result_def server_inv_def server_bound_def

lemma server_signedI:
  assumes "find (\<lambda>key. is_key_compatible_with_algo (key_algorithm (ssh_of V) key) (n_key names)) (sc_keys config) = Some key"
    and "signed_hash V kex (public_of (ssh_of V) key) ex = Ok hash"
    and "sign_with_hash_alg (ssh_of V) (key_with_hash_new (ssh_of V) key (signature_hash_alg (n_key names))) hash = Ok signature"
    and "keys_for True V hash kex names ex (cause_session_id cause) = Ok nk"
  shows "server_signed V config cause nk \<and> nk_exchange nk = ex \<and> nk_names nk = names"
  using assms keys_for_fields [OF assms(4)] find_SomeD [OF assms(1)]
  by (auto simp: server_signed_def server_compute_keys_def)

lemma server_start:
  assumes "sk_state k = SCreated" "server_kex_init (sk_exchange k) = sent" "client_kex_init (sk_exchange k) = []"
    and "server_step V lookup k (Some i) w = Ok (r, w')"
  shows "server_result V (sk_config k) (sk_cause k) sent i r"
proof -
  obtain names kex where n: "server_names V (sk_config k) (sk_cause k) i = Ok names" "msg_type i = Some KEXINIT"
    "n_strict_kex names \<and> \<not> is_rekey (sk_cause k) \<longrightarrow> in_seqn i = 1"
    and kex: "KEXES (big (kex_of V)) (n_kex names) = Some kex"
    using assms by (auto simp: server_created_def outcome_simps Let_def server_names_def)
  have no: "names_of (Ok names) names" by (auto simp: names_of_def)
  show ?thesis
    using assms n kex no KEXES_none [OF kex]
    by (auto simp: server_created_def outcome_simps Let_def server_names_def [symmetric] server_facts
        server_compute_keys_def dest!: keys_for_fields split: if_splits)
qed

lemma server_preserves:
  assumes "server_inv V config cause sent i0 k" "server_step V lookup k (Some i) w = Ok (r, w')"
  shows "server_result V config cause sent i0 r"
proof (cases "sk_state k")
  case (SWaitingForGexRequest names kex)
  then show ?thesis
    using assms by (auto simp: server_gex_request_def outcome_simps Let_def server_facts split_beta)
next
  case (SWaitingForDhInit names kex)
  show ?thesis
  proof (cases "n_ignore_guessed names")
    case True
    then show ?thesis
      using assms SWaitingForDhInit by (auto simp: server_dh_init_def Let_def server_facts names_of_skip)
  next
    case False
    from assms(2) SWaitingForDhInit False obtain kex' ex e key hash signature nk b where
      dh: "server_dh (env_wire V) (kex_of V) kex ((sk_exchange k)\<lparr>client_ephemeral := e\<rparr>) (in_buffer i) = Ok (kex', ex)"
      and sig: "find (\<lambda>key. is_key_compatible_with_algo (key_algorithm (ssh_of V) key) (n_key names)) (sc_keys (sk_config k)) = Some key"
        "signed_hash V kex' (public_of (ssh_of V) key) ex = Ok hash"
        "sign_with_hash_alg (ssh_of V) (key_with_hash_new (ssh_of V) key (signature_hash_alg (n_key names))) hash = Ok signature"
        "keys_for True V hash kex' names ex (cause_session_id (sk_cause k)) = Ok nk"
      and r: "r = NeedsReply (k\<lparr>sk_exchange := ex, sk_state := SWaitingForNewKeys nk\<rparr>) b"
      by (auto simp: server_dh_init_def outcome_simps Let_def server_compute_keys_def split_beta)
    show ?thesis
      using assms(1) SWaitingForDhInit server_signedI [OF sig] server_dh_keeps [OF dh] r by (auto simp: server_facts)
  qed
next
  case (SWaitingForNewKeys nk)
  then show ?thesis using assms by (auto simp: outcome_simps server_facts)
qed (use assms in \<open>simp add: server_inv_def\<close>)

lemma server_run_result:
  "server_run V lookup k w ins r \<Longrightarrow> server_inv V config cause sent i0 k \<Longrightarrow> server_result V config cause sent i0 r"
proof (induction rule: server_run.induct)
  case (server_more k i w k' b w' ins r)
  then show ?case using server_preserves [OF server_more.prems server_more.hyps(1)] by (simp add: server_result_def)
qed (blast intro: server_preserves)

lemma server_run_started:
  assumes "server_run V lookup k w ins r" "sk_state k = SCreated" "client_kex_init (sk_exchange k) = []"
  shows "server_result V (sk_config k) (sk_cause k) (server_kex_init (sk_exchange k)) (hd ins) r"
  using assms(1)
proof (cases rule: server_run.cases)
  case (server_last i w')
  then show ?thesis using server_start [OF assms(2) refl assms(3)] by simp
next
  case (server_more i k' b w' ins')
  then show ?thesis
    using server_start [OF assms(2) refl assms(3) server_more(2)] server_run_result [OF server_more(3)]
    by (simp add: server_result_def)
qed

section \<open>The first step\<close>

text \<open>The messages of a whole exchange by the method that was negotiated: the KEXINIT alone for \<open>none\<close>, the
  long exchange for the two methods of the group exchange (RFC 4419), the short one for all others.\<close>

definition group_exchange :: "string \<Rightarrow> bool" where
  "group_exchange name \<longleftrightarrow> name = DH_GEX_SHA1 \<or> name = DH_GEX_SHA256"

definition client_messages :: "string \<Rightarrow> u8 list" where
  "client_messages name =
     (if name = NONE_NAME then [KEXINIT]
      else if group_exchange name then [KEXINIT, KEX_DH_GEX_REQUEST, KEX_DH_GEX_INIT, NEWKEYS]
      else [KEXINIT, KEX_ECDH_INIT, NEWKEYS])"

definition server_messages :: "string \<Rightarrow> u8 list" where
  "server_messages name =
     (if name = NONE_NAME then [KEXINIT]
      else if group_exchange name then [KEXINIT, KEX_DH_GEX_GROUP, KEX_DH_GEX_REPLY, NEWKEYS]
      else [KEXINIT, KEX_ECDH_REPLY, NEWKEYS])"

lemma messages_admitted:
  "name \<noteq> NONE_NAME \<Longrightarrow> client_messages name \<in> set client_orders \<and> server_messages name \<in> set server_orders"
  by (simp add: client_messages_def server_messages_def client_orders_def server_orders_def)

lemma KEXES_kind:
  "KEXES B name = Some kex \<Longrightarrow> (skip_exchange kex \<longleftrightarrow> name = NONE_NAME) \<and> (is_dh_gex kex \<longleftrightarrow> group_exchange name)"
  by (simp add: KEXES_def group_exchange_def split: if_splits)
    (auto simp: dh_kex_new_def kex_names)

lemma server_created_awaits:
  assumes "server_step V lookup k (Some i) w = Ok (r, w')" "sk_state k = SCreated"
  shows "\<exists>names. server_names V (sk_config k) (sk_cause k) i = Ok names \<and> msg_type i = Some KEXINIT
    \<and> (case r of KexDone h nk \<Rightarrow> n_kex names = NONE_NAME
       | NeedsReply k' b \<Rightarrow> sk_state k' \<noteq> SCreated \<and> server_gex_ok (sk_state k')
           \<and> KEXINIT # server_awaits (sk_state k') = client_messages (n_kex names) \<and> may_skip (sk_state k') = n_ignore_guessed names)"
  using assms
  by (auto simp: server_created_def server_names_def outcome_simps Let_def client_messages_def init_type_def
      split: if_splits dest!: KEXES_kind)

lemma client_created_awaits:
  assumes "client_step V k (Some i) w = Ok (r, w')" "ck_state k = CCreated"
  shows "\<exists>names. client_names V (ck_config k) (ck_cause k) i = Ok names \<and> msg_type i = Some KEXINIT
    \<and> (case r of KexDone h nk \<Rightarrow> n_kex names = NONE_NAME
       | NeedsReply k' b \<Rightarrow> ck_state k' \<noteq> CCreated \<and> client_gex_ok (ck_state k')
           \<and> KEXINIT # client_awaits (ck_state k') = server_messages (n_kex names) \<and> client_may_skip (ck_state k') = n_ignore_guessed names)"
  using assms
  by (auto simp: client_created_def client_names_def send_client_dh_def outcome_simps Let_def server_messages_def reply_type_def
      split: if_splits dest!: client_dh_keeps KEXES_kind)

text \<open>A finished run has consumed the messages of its method, and a guess only where one was announced.\<close>

definition follows :: "bool \<Rightarrow> incoming list \<Rightarrow> u8 list \<Rightarrow> bool" where
  "follows guessed ins ts \<longleftrightarrow> (if guessed then accepts ins ts else map msg_type ins = map Some ts)"

lemma server_run_follows:
  assumes "server_run V lookup k w ins (KexDone h nk)" "sk_state k = SCreated"
  shows "\<exists>names. server_names V (sk_config k) (sk_cause k) (hd ins) = Ok names
    \<and> follows (n_ignore_guessed names) ins (client_messages (n_kex names))"
  using assms(1)
proof (cases rule: server_run.cases)
  case (server_last i w')
  then show ?thesis
    using server_created_awaits [OF server_last(2) assms(2)] acceptsI [of "[i]" "[KEXINIT]"]
    by (fastforce simp: follows_def client_messages_def simp del: server_step.simps)
next
  case (server_more i k' b w' ins')
  from server_created_awaits [OF server_more(2) assms(2)] obtain names where
    n: "server_names V (sk_config k) (sk_cause k) i = Ok names" "msg_type i = Some KEXINIT" "sk_state k' \<noteq> SCreated"
      "server_gex_ok (sk_state k')" "client_messages (n_kex names) = KEXINIT # server_awaits (sk_state k')"
      "may_skip (sk_state k') = n_ignore_guessed names"
    by auto
  from server_run_awaits [OF server_more(3) refl n(3,4)] n(2,6)
  have "follows (n_ignore_guessed names) ins (KEXINIT # server_awaits (sk_state k'))"
    by (auto simp: follows_def server_more(1) intro: accepts_Cons)
  with n show ?thesis by (auto simp: server_more(1))
qed

lemma client_run_follows:
  assumes "client_run V k w ins (KexDone h nk)" "ck_state k = CCreated"
  shows "\<exists>names. client_names V (ck_config k) (ck_cause k) (hd ins) = Ok names
    \<and> follows (n_ignore_guessed names) ins (server_messages (n_kex names))"
  using assms(1)
proof (cases rule: client_run.cases)
  case (client_last i w')
  then show ?thesis
    using client_created_awaits [OF client_last(2) assms(2)] acceptsI [of "[i]" "[KEXINIT]"]
    by (fastforce simp: follows_def server_messages_def simp del: client_step.simps)
next
  case (client_more i k' b w' ins')
  from client_created_awaits [OF client_more(2) assms(2)] obtain names where
    n: "client_names V (ck_config k) (ck_cause k) i = Ok names" "msg_type i = Some KEXINIT" "ck_state k' \<noteq> CCreated"
      "client_gex_ok (ck_state k')" "server_messages (n_kex names) = KEXINIT # client_awaits (ck_state k')"
      "client_may_skip (ck_state k') = n_ignore_guessed names"
    by auto
  from client_run_awaits [OF client_more(3) refl n(3,4)] n(2,6)
  have "follows (n_ignore_guessed names) ins (KEXINIT # client_awaits (ck_state k'))"
    by (auto simp: follows_def client_more(1) intro: accepts_Cons)
  with n show ?thesis by (auto simp: client_more(1))
qed

end
