(* ===== verification/KexAgreement.thy ===== *)
theory KexAgreement
  imports KexRuns
begin

text \<open>
  The two machines against each other: when the server's answer reaches the client, both hold the same
  session id and keys that match. Then an example, a whole Curve25519 exchange of both machines over
  concrete crates, and the properties of the machines with the example as their witness.
\<close>

section \<open>Agreement\<close>

text \<open>One message through a writer without compression, and what the other side reads of it.\<close>

lemma packet_read:
  assumes "ssh_wire (wire_of E)" "crypto_laws (crypto_of E)" "fills (fill_bytes E)"
    and "keys_match (crypto_of E) (pw_cipher w) ok" "pw_compress w = CompressNone"
    and "puts es [] = Ok p" "p \<noteq> []" "length p + 20 \<le> MAXIMUM_PACKET_LEN"
    and "seqn r = seqn (write_buffer w)" "next_len r = 0"
  obtains w' sent r' ok' where "packet E es w = Ok (p, w')" "buffer (write_buffer w') = buffer (write_buffer w) @ sent"
    "\<forall>rest. read_packet (wire_of E) (crypto_of E) ok (sent @ rest) r = Ok (5 + length p, rest, r', ok')"
    "drop 5 (buffer r') = p" "keys_match (crypto_of E) (pw_cipher w') ok'" "pw_compress w' = CompressNone"
    "seqn r' = seqn (write_buffer w')" "next_len r' = 0"
proof -
  have "crypto_laws (crypto_of E) \<and> keys_match (crypto_of E) (pw_cipher w) ok" using assms(2,4) ..
  from any.read_write [OF assms(1,3) this assms(8-10)] obtain sent sk' ok' b' r' where
    "write_packet (wire_of E) (crypto_of E) (fill_bytes E) (pw_cipher w) p (write_buffer w) = Ok (b', sk')"
    "buffer b' = buffer (write_buffer w) @ sent"
    "\<forall>rest. read_packet (wire_of E) (crypto_of E) ok (sent @ rest) r = Ok (5 + length p, rest, r', ok')"
    "drop 5 (buffer r') = p" "seqn r' = seqn b'" "next_len r' = 0" "keys_match (crypto_of E) sk' ok'"
    by blast
  then show thesis
    using assms(5-7) by (intro that [of "w\<lparr>write_buffer := b', pw_cipher := sk'\<rparr>" sent r' ok'])
      (simp_all add: packet_def packet_raw_plain)
qed

text \<open>What a message leaves behind, for the next message and for its reader.\<close>

lemma two_packets_read:
  assumes "ssh_wire (wire_of E)" "crypto_laws (crypto_of E)" "fills (fill_bytes E)"
    and "keys_match (crypto_of E) (pw_cipher w) ok" "pw_compress w = CompressNone"
    and "puts es [] = Ok p" "p \<noteq> []" "length p + 20 \<le> MAXIMUM_PACKET_LEN"
    and "puts es' [] = Ok p'" "p' \<noteq> []" "length p' + 20 \<le> MAXIMUM_PACKET_LEN"
    and "seqn r = seqn (write_buffer w)" "next_len r = 0"
  obtains w1 w2 sent r' ok' where "packet E es w = Ok (p, w1)" "packet E es' w1 = Ok (p', w2)"
    "buffer (write_buffer w2) = buffer (write_buffer w) @ sent"
    "read_packets (wire_of E) (crypto_of E) ok 2 sent r = Ok ([p, p'], [], r', ok')"
proof -
  obtain w1 s1 r1 ok1 where p1: "packet E es w = Ok (p, w1)" "buffer (write_buffer w1) = buffer (write_buffer w) @ s1"
    "\<forall>rest. read_packet (wire_of E) (crypto_of E) ok (s1 @ rest) r = Ok (5 + length p, rest, r1, ok1)"
    "drop 5 (buffer r1) = p" "keys_match (crypto_of E) (pw_cipher w1) ok1" "pw_compress w1 = CompressNone"
    "seqn r1 = seqn (write_buffer w1)" "next_len r1 = 0"
    by (rule packet_read [OF assms(1-8,12,13)])
  obtain w2 s2 r2 ok2 where p2: "packet E es' w1 = Ok (p', w2)" "buffer (write_buffer w2) = buffer (write_buffer w1) @ s2"
    "\<forall>rest. read_packet (wire_of E) (crypto_of E) ok1 (s2 @ rest) r1 = Ok (5 + length p', rest, r2, ok2)"
    "drop 5 (buffer r2) = p'"
    by (rule packet_read [OF assms(1-3) p1(5,6) assms(9-11) p1(7,8)])
  show thesis
    using p1(2) p2(2) p1(3) [rule_format, of s2] p2(3) [rule_format, of "[]"] p1(4) p2(4)
    by (intro that [OF p1(1) p2(1), of "s1 @ s2" r2 ok2]) (simp_all add: numeral_2_eq_2)
qed

text \<open>The client's first message, and what the server reads of it.\<close>

lemma client_dh_payload:
  assumes "ssh_wire W" "client_dh W X kex ex = Ok (kex', ex', payload)" "kex \<noteq> NoneKex"
    and "length (client_ephemeral ex') < 2 ^ 32"
  shows "payload = init_type kex # be_put W (as_u32 (length (client_ephemeral ex'))) @ client_ephemeral ex'"
  using assms
  by (cases kex)
    (auto simp: outcome_simps dh_client_def curve25519_client_def nist_client_def mlkem_client_def Let_def split_beta
      init_type_def ssh_wire.put_u8 ssh_wire.put_bytes split: option.splits)

text \<open>The server's reply, and what the client reads of it.\<close>

definition reply_layout :: "wire \<Rightarrow> u8 \<Rightarrow> bytes \<Rightarrow> bytes \<Rightarrow> bytes \<Rightarrow> bytes" where
  "reply_layout W t key eph signature =
     t # be_put W (as_u32 (length key)) @ key @ be_put W (as_u32 (length eph)) @ eph
       @ be_put W (as_u32 (length signature)) @ signature"

lemma reply_written:
  assumes "ssh_wire W" "length key < 2 ^ 32" "length eph < 2 ^ 32" "length signature < 2 ^ 32"
  shows "puts [w_u8 W t, w_bytes W key, w_bytes W eph, w_bytes W signature] [] = Ok (reply_layout W t key eph signature)"
  using assms by (simp add: reply_layout_def ssh_wire.put_u8 ssh_wire.put_bytes)

lemma reply_read:
  assumes W: "ssh_wire W" and l: "length key < 2 ^ 32" "length eph < 2 ^ 32" "length signature < 2 ^ 32"
  obtains r r1 r2 where "slice_from 1 (reply_layout W t key eph signature) = Ok r" "r_bytes W r = Ok (key, r1)"
    "r_bytes W r1 = Ok (eph, r2)" "r_bytes W r2 = Ok (signature, [])"
  using that [OF _ ssh_wire.get_bytes [OF W l(1)] ssh_wire.get_bytes [OF W l(2)]] ssh_wire.get_bytes [OF W l(3), of "[]"]
  by (simp add: reply_layout_def slice_from_def)

text \<open>Both sides derive their keys from the same secret, hash and session id.\<close>

lemma both_keys:
  assumes "\<And>d x. hash_of (keys_of V) d x \<noteq> []" "cbc_laws (crypto_of (crates_of V)) (keys_of V)"
    and "CIPHERS (n_cipher names) = Some impl" "MACS (n_client_mac names) = Some cm" "MACS (n_server_mac names) = Some sm"
    and "kex_secret (env_wire V) (keys_of V) ks = Ok ds" "kex_secret (env_wire V) (keys_of V) kc = Ok ds"
  obtains nkc nks where "keys_for False V hash kc names ex sid = Ok nkc" "keys_for True V hash ks names ex sid = Ok nks"
    "nk_exchange nkc = nk_exchange nks" "nk_session_id nkc = nk_session_id nks" "nk_names nkc = names" "nk_names nks = names"
    "keys_match (crypto_of (crates_of V)) (local_to_remote (nk_cipher nkc)) (remote_to_local (nk_cipher nks))"
    "keys_match (crypto_of (crates_of V)) (local_to_remote (nk_cipher nks)) (remote_to_local (nk_cipher nkc))"
proof -
  obtain d secret where ds: "ds = (d, secret)" by (cases ds)
  define s where "s = (case sid of Some s \<Rightarrow> s | None \<Rightarrow> hash)"
  from derived_keys_total [OF assms(1-5), of d secret s hash] obtain c sv where
    "compute_keys (keys_of V) d secret s hash (n_cipher names) (n_server_mac names) (n_client_mac names) False = Ok c"
    "compute_keys (keys_of V) d secret s hash (n_cipher names) (n_client_mac names) (n_server_mac names) True = Ok sv"
    "keys_match (crypto_of (crates_of V)) (local_to_remote c) (remote_to_local sv)"
    "keys_match (crypto_of (crates_of V)) (local_to_remote sv) (remote_to_local c)"
    by blast
  then show thesis
    using assms(6,7) that unfolding keys_for_def s_def [symmetric] kex_compute_keys_def ds by simp
qed


text \<open>The three steps of the two machines that finish an exchange, each from what it computes.\<close>

lemma server_dh_step:
  assumes "sk_state k = SWaitingForDhInit names kex" "\<not> n_ignore_guessed names" "msg_type i = Some (init_type kex)"
    and "slice_from 1 (in_buffer i) = Ok r" "r_bytes (env_wire V) r = Ok (e, r')"
    and "server_dh (env_wire V) (kex_of V) kex ((sk_exchange k)\<lparr>client_ephemeral := client_ephemeral (sk_exchange k) @ e\<rparr>)
      (in_buffer i) = Ok (kex', ex)"
    and "find (\<lambda>key. is_key_compatible_with_algo (key_algorithm (ssh_of V) key) (n_key names)) (sc_keys (sk_config k)) = Some key"
    and "pub_to_bytes (ssh_of V) (public_of (ssh_of V) key) = Ok b" "signed_hash V kex' (public_of (ssh_of V) key) ex = Ok hash"
    and "sign_with_hash_alg (ssh_of V) (key_with_hash_new (ssh_of V) key (signature_hash_alg (n_key names))) hash = Ok signature"
    and "packet (crates_of V) [w_u8 (env_wire V) (reply_type kex'), w_bytes (env_wire V) b,
      w_bytes (env_wire V) (server_ephemeral ex), w_bytes (env_wire V) signature] w = Ok (reply, w1)"
    and "packet (crates_of V) (newkeys_packet (env_wire V)) w1 = Ok (p, w2)"
    and "keys_for True V hash kex' names ex (cause_session_id (sk_cause k)) = Ok nk"
  shows "server_step V lookup k (Some i) w
    = Ok (NeedsReply (k\<lparr>sk_exchange := ex, sk_state := SWaitingForNewKeys nk\<rparr>)
        (n_strict_kex (nk_names nk) \<or> is_strict_rekey (sk_cause k)), w2)"
  using assms by (simp add: server_dh_init_def Let_def expect_def server_compute_keys_def)

lemma client_dh_step:
  assumes "ck_state k = CWaitingForDhReply names kex" "\<not> n_ignore_guessed names" "msg_type i = Some (reply_type kex)"
    and "slice_from 1 (in_buffer i) = Ok r" "r_bytes (env_wire V) r = Ok (b, r1)" "pub_decode (ssh_of V) b = Ok pub"
    and "r_bytes (env_wire V) r1 = Ok (e, r2)" "r_bytes (env_wire V) r2 = Ok (s, rest)"
    and "ex = (ck_exchange k)\<lparr>server_ephemeral := server_ephemeral (ck_exchange k) @ e\<rparr>"
    and "compute_shared_secret (kex_of V) kex (server_ephemeral ex) = Ok kex'" "signed_hash V kex' pub ex = Ok hash"
    and "sig_decode (ssh_of V) s = Ok signature" "verify (ssh_of V) pub hash signature"
    and "keys_for False V hash kex' names ex (cause_session_id (ck_cause k)) = Ok nk"
    and "packet (crates_of V) (newkeys_packet (env_wire V)) w = Ok (p, w')"
  shows "client_step V k (Some i) w
    = Ok (NeedsReply (k\<lparr>ck_exchange := ex, ck_state := CWaitingForNewKeys pub nk\<rparr>)
        (n_strict_kex (nk_names nk) \<or> is_strict_rekey (ck_cause k)), w')"
  using assms by (simp add: client_dh_reply_def Let_def expect_def client_compute_keys_def parse_public_key_def)

section \<open>An example\<close>

lemma packet_clear:
  assumes "ssh_wire (wire_of E)" "fills (fill_bytes E)" "pw_cipher w = ClearKey" "pw_compress w = CompressNone"
    and "puts es [] = Ok p" "p \<noteq> []" "length p + 20 \<le> 2 ^ 32 - 1"
  shows "\<exists>w'. packet E es w = Ok (p, w') \<and> pw_cipher w' = ClearKey \<and> pw_compress w' = CompressNone
    \<and> sent_bytes (write_buffer w') = sent_bytes (write_buffer w) + length p"
proof -
  obtain b where "write_packet (wire_of E) (crypto_of E) (fill_bytes E) ClearKey p (write_buffer w) = Ok (b, ClearKey)"
    "sent_bytes b = sent_bytes (write_buffer w) + length p"
    using write_packet_eq [OF assms(1,2,7), of "crypto_of E" ClearKey "write_buffer w"] by simp
  then show ?thesis
    using assms(3-6) by (simp add: packet_def packet_raw_plain)
qed

definition sample_flate :: "unit flate" where
  "sample_flate = \<lparr>fl_compress = (\<lambda>z s n. None), fl_decompress = (\<lambda>z s n. None), fl_new_compress = (), fl_new_decompress = (),
     fl_reset_compress = (\<lambda>z. z), fl_reset_decompress = (\<lambda>z. z)\<rparr>"

definition sample_ssh :: "(unit, bytes, bytes) ssh_keys" where
  "sample_ssh = \<lparr>key_algorithm = (\<lambda>k. Ed25519), public_of = (\<lambda>k. [11]), pub_to_bytes = (\<lambda>p. Ok p), pub_decode = (\<lambda>b. Ok b),
     try_sign = (\<lambda>k d. Ok [7]), try_sign_rsa = (\<lambda>k h d. Ok [7]), sig_decode = (\<lambda>s. Ok s), verify = (\<lambda>p h s. s = [7]),
     alg_str = sample_alg_str, r_mpint = r_bytes rfc4251_wire\<rparr>"

definition sample_env :: "(unit, unit, unit, bytes, bytes) env" where
  "sample_env = \<lparr>crates_of = \<lparr>wire_of = rfc4251_wire, crypto_of = flip_crypto, flate_of = sample_flate, fill_bytes = (\<lambda>b. b)\<rparr>,
     kex_of = sample_kex_crates, keys_of = flip_keys, ssh_of = sample_ssh, cookie_of = replicate 16 3\<rparr>"

definition sample_server_env :: "(unit, unit, unit, bytes, bytes) env" where
  "sample_server_env = sample_env\<lparr>kex_of := redraw (\<lambda>lo hi. lo) [7] (\<lambda>c. [3]) None sample_kex_crates\<rparr>"

definition sample_pref :: preferred where
  "sample_pref = \<lparr>pref_kex = [CURVE25519, STRICT_KEX_AS_CLIENT, STRICT_KEX_AS_SERVER], pref_key = [Ed25519],
     pref_cipher = [AES_256_CTR], pref_mac = [HMAC_SHA256], pref_compression = [NONE_NAME]\<rparr>"

definition sample_agreed :: negotiated where
  "sample_agreed = \<lparr>n_kex = CURVE25519, n_key = Ed25519, n_cipher = AES_256_CTR,
     n_client_mac = HMAC_SHA256, n_server_mac = HMAC_SHA256, n_server_compression = NoCompression,
     n_client_compression = NoCompression, n_ignore_guessed = False, n_strict_kex = True\<rparr>"

definition sample_init :: "algorithm list option \<Rightarrow> bytes" where
  "sample_init ks = KEXINIT # replicate 16 3
    @ nl rfc4251_wire (kex_names_to_send sample_pref ks) @ nl rfc4251_wire (key_names_to_send sample_alg_str sample_pref ks)
    @ nl rfc4251_wire [AES_256_CTR] @ nl rfc4251_wire [AES_256_CTR]
    @ nl rfc4251_wire [HMAC_SHA256] @ nl rfc4251_wire [HMAC_SHA256]
    @ nl rfc4251_wire [NONE_NAME] @ nl rfc4251_wire [NONE_NAME] @ nl rfc4251_wire [] @ nl rfc4251_wire [] @ [0] @ be_put rfc4251_wire 0"

lemma sample_init_plain: "plain_announced (announcement sample_alg_str sample_pref ks)"
  if "ks = None \<or> ks = Some [Ed25519]"
  using that by (auto simp: plain_announced_def announcement_def plain_list_def plain_name_def ascii_def
      as_encoded_string_def kex_names_to_send_def key_names_to_send_def sample_pref_def kex_names cipher_names mac_names kex_extensions)

lemma sample_init_sent:
  "ks = None \<or> ks = Some [Ed25519] \<Longrightarrow>
    puts (kexinit_fields rfc4251_wire sample_alg_str (replicate 16 3) sample_pref ks) [] = Ok (sample_init ks)"
  using kexinit_bytes [OF rfc.ssh_wire_axioms sample_init_plain, of ks "replicate 16 3"]
  by (simp add: sample_init_def sample_pref_def)

lemma sample_negotiated:
  "negotiate sample_alg_str Client sample_pref None Initial (announcement sample_alg_str sample_pref (Some [Ed25519])) = Ok sample_agreed"
  "negotiate sample_alg_str Server sample_pref (Some [Ed25519]) Initial (announcement sample_alg_str sample_pref None) = Ok sample_agreed"
  by code_simp+

lemma sample_read:
  "read_kex rfc4251_wire sample_alg_str Client (sample_init (Some [Ed25519])) sample_pref None Initial = Ok sample_agreed"
  "read_kex rfc4251_wire sample_alg_str Server (sample_init None) sample_pref (Some [Ed25519]) Initial = Ok sample_agreed"
  using sample_negotiated read_kexinit [OF rfc.ssh_wire_axioms sample_init_plain _ sample_init_sent, simplified]
  by simp_all


definition sample_client_config :: client_config where
  "sample_client_config = (client_config_default ''x'')\<lparr>cc_preferred := sample_pref, cc_client_id := Standard [CHR 0x01]\<rparr>"

definition sample_server_config :: "unit server_config" where
  "sample_server_config = (server_config_default ''x'')\<lparr>sc_preferred := sample_pref, sc_keys := [()]\<rparr>"

text \<open>The machines after \<open>kexinit\<close>.\<close>

definition sample_exchange :: "bytes \<Rightarrow> bytes \<Rightarrow> exchange" where
  "sample_exchange ci si = (exchange_new [1] [2])\<lparr>client_kex_init := ci, server_kex_init := si\<rparr>"

definition sample_client_kex :: "(unit, bytes) client_kex" where
  "sample_client_kex = \<lparr>ck_exchange = sample_exchange (sample_init None) [], ck_cause = Initial,
     ck_state = CCreated, ck_config = sample_client_config\<rparr>"

definition sample_server_kex :: "(unit, unit) server_kex" where
  "sample_server_kex = \<lparr>sk_exchange = sample_exchange [] (sample_init (Some [Ed25519])), sk_cause = Initial,
     sk_state = SCreated, sk_config = sample_server_config\<rparr>"

abbreviation "W0 \<equiv> rfc4251_wire"
abbreviation "sample_point \<equiv> replicate 32 (5 :: u8)"

definition sample_dh_init :: bytes where
  "sample_dh_init = KEX_ECDH_INIT # be_put W0 (as_u32 32) @ sample_point"

definition sample_reply :: bytes where
  "sample_reply = KEX_ECDH_REPLY # be_put W0 (as_u32 1) @ [11] @ be_put W0 (as_u32 32) @ sample_point @ be_put W0 (as_u32 1) @ [7]"

definition sample_both :: exchange where
  "sample_both = sample_exchange (sample_init None) (sample_init (Some [Ed25519]))"

lemma sample_lengths: "length (sample_init None) < 2 ^ 32" "length (sample_init (Some [Ed25519])) < 2 ^ 32"
  by (simp_all add: sample_init_def nl_def rfc.be_put_length kex_names_to_send_def key_names_to_send_def
     sample_pref_def as_encoded_string_def kex_names cipher_names mac_names kex_extensions)

lemma sample_env_simps [simp]:
  "wire_of (crates_of sample_env) = W0" "fill_bytes (crates_of sample_env) = (\<lambda>b. b)" "kex_of sample_env = sample_kex_crates"
  "keys_of sample_env = flip_keys" "ssh_of sample_env = sample_ssh" "crates_of sample_server_env = crates_of sample_env"
  "keys_of sample_server_env = flip_keys" "ssh_of sample_server_env = sample_ssh"
  "kex_of sample_server_env = redraw (\<lambda>lo hi. lo) [7] (\<lambda>c. [3]) None sample_kex_crates"
  by (simp_all add: sample_env_def sample_server_env_def)

lemma sample_clear:
  assumes "pw_cipher w = ClearKey" "pw_compress w = CompressNone" "puts es [] = Ok p" "p \<noteq> []" "length p \<le> 1000"
  obtains w' where "packet (crates_of sample_env) es w = Ok (p, w')" "pw_cipher w' = ClearKey" "pw_compress w' = CompressNone"
    "sent_bytes (write_buffer w') \<le> sent_bytes (write_buffer w) + 1000"
proof -
  have "fills (fill_bytes (crates_of sample_env))" by (simp add: fills_def)
  then show ?thesis
    using packet_clear [of "crates_of sample_env" w es p] assms that rfc.ssh_wire_axioms by auto
qed

lemma curve_kex: "KEXES B CURVE25519 = Some (Curve25519Kex curve_kex_new)"
  by (simp add: KEXES_def kex_names)

text \<open>The client's and the server's secret after the exchange, the hash and the keys.\<close>

abbreviation "sample_done \<equiv> Curve25519Kex \<lparr>ck_local = None, ck_shared = Some (replicate 32 6)\<rparr>"
abbreviation "sample_final \<equiv> sample_both\<lparr>client_ephemeral := sample_point, server_ephemeral := sample_point\<rparr>"

lemma sample_secret: "\<exists>b. encode_mpint W0 (replicate 32 6) = Ok b"
  by (simp add: encode_mpint_eq [OF rfc.ssh_wire_axioms])

lemma sample_hash:
  obtains h where "signed_hash sample_env sample_done [11] sample_final = Ok h"
    "signed_hash sample_server_env sample_done [11] sample_final = Ok h"
proof -
  from sample_secret obtain b where b: "encode_mpint W0 (replicate 32 6) = Ok b" by blast
  show ?thesis
    by (rule that)
      (use b sample_lengths in \<open>simp_all add: signed_hash_def sample_ssh_def rfc.put_bytes exchange_prefix_def ephemerals_def
        secret_mpint_def sample_both_def sample_exchange_def exchange_new_def flip_keys_def\<close>)
qed

lemma sample_keys:
  obtains nc ns where "client_compute_keys sample_env h sample_done sample_agreed ex None = Ok nc"
    "server_compute_keys sample_server_env h sample_done sample_agreed ex None = Ok ns"
    "keys_match flip_crypto (local_to_remote (nk_cipher nc)) (remote_to_local (nk_cipher ns))"
proof -
  from sample_secret obtain b where b: "encode_mpint W0 (replicate 32 6) = Ok b" by blast
  have "\<exists>c s. compute_keys flip_keys DigestSha256 (Some (Mpint b)) h h AES_256_CTR HMAC_SHA256 HMAC_SHA256 False = Ok c
      \<and> compute_keys flip_keys DigestSha256 (Some (Mpint b)) h h AES_256_CTR HMAC_SHA256 HMAC_SHA256 True = Ok s
      \<and> keys_match flip_crypto (local_to_remote c) (remote_to_local s)
      \<and> keys_match flip_crypto (local_to_remote s) (remote_to_local c)"
    by (rule derived_keys_match) (simp_all add: flip_keys_def flip_cbc_laws [unfolded flip_keys_def] CIPHERS_def MACS_def cipher_names mac_names)
  then show ?thesis
    using that b by (auto simp: client_compute_keys_def server_compute_keys_def keys_for_def kex_compute_keys_def
        mpint_secret_def from_mpint_def sample_agreed_def)
qed

lemma sample_client_dh:
  "client_dh W0 sample_kex_crates (Curve25519Kex curve_kex_new) sample_both
    = Ok (Curve25519Kex \<lparr>ck_local = Some [1], ck_shared = None\<rparr>, sample_both\<lparr>client_ephemeral := sample_point\<rparr>, sample_dh_init)"
  using sent_key [OF rfc.ssh_wire_axioms, of sample_point KEX_ECDH_INIT]
  by (simp add: curve25519_client_def sample_kex_crates_def Let_def sample_dh_init_def curve_kex_new_def del: puts.simps)

lemma sample_client_first:
  assumes "pw_cipher w = ClearKey" "pw_compress w = CompressNone"
  obtains w' where "client_step sample_env sample_client_kex (Some \<lparr>in_buffer = sample_init (Some [Ed25519]), in_seqn = 1\<rparr>) w
      = Ok (NeedsReply (sample_client_kex\<lparr>ck_exchange := sample_both\<lparr>client_ephemeral := sample_point\<rparr>,
          ck_state := CWaitingForDhReply sample_agreed (Curve25519Kex \<lparr>ck_local = Some [1], ck_shared = None\<rparr>)\<rparr>) False, w')"
    "pw_cipher w' = ClearKey" "pw_compress w' = CompressNone"
    "sent_bytes (write_buffer w') \<le> sent_bytes (write_buffer w) + 1000"
proof -
  note c = sample_client_dh
  obtain w' where w': "packet (crates_of sample_env) [put_raw sample_dh_init] w = Ok (sample_dh_init, w')"
    "pw_cipher w' = ClearKey" "pw_compress w' = CompressNone"
    "sent_bytes (write_buffer w') \<le> sent_bytes (write_buffer w) + 1000"
    by (rule sample_clear [OF assms, of "[put_raw sample_dh_init]" sample_dh_init]) (simp_all add: sample_dh_init_def rfc.be_put_length)
  have ex: "(sample_exchange (sample_init None) [])\<lparr>server_kex_init := sample_init (Some [Ed25519])\<rparr> = sample_both"
    by (simp add: sample_exchange_def sample_both_def)
  have e: "server_kex_init (sample_exchange (sample_init None) []) = []" by (simp add: sample_exchange_def)
  have k: "msg_type \<lparr>in_buffer = sample_init (Some [Ed25519]), in_seqn = 1\<rparr> = Some KEXINIT"
    by (simp add: sample_init_def)
  have n: "n_kex sample_agreed = CURVE25519" by (simp add: sample_agreed_def)
  show ?thesis
    by (rule that [OF _ w'(2-4)])
      (use c w' ex e k in \<open>simp add: sample_client_kex_def client_created_def expect_def sample_ssh_def sample_client_config_def
        sample_read(1) check_strict_kexinit_def send_client_dh_def n curve_kex\<close>)
qed


lemma read_sample_string: "length t < 2 ^ 32 \<Longrightarrow> r_bytes W0 (be_put W0 (as_u32 (length t)) @ t @ r) = Ok (t, r)"
  by (rule rfc.get_bytes)

lemma sample_client_second:
  assumes "pw_cipher w = ClearKey" "pw_compress w = CompressNone"
    and st: "ck_state k = CWaitingForDhReply sample_agreed (Curve25519Kex \<lparr>ck_local = Some [1], ck_shared = None\<rparr>)"
    and ex: "ck_exchange k = sample_both\<lparr>client_ephemeral := sample_point\<rparr>" and "ck_cause k = Initial"
  obtains nk w' where "client_step sample_env k (Some \<lparr>in_buffer = sample_reply, in_seqn = 2\<rparr>) w
      = Ok (NeedsReply (k\<lparr>ck_exchange := sample_final, ck_state := CWaitingForNewKeys [11] nk\<rparr>) True, w')"
    "nk_names nk = sample_agreed" "pw_cipher w' = ClearKey" "pw_compress w' = CompressNone"
    "sent_bytes (write_buffer w') \<le> sent_bytes (write_buffer w) + 1000"
proof -
  obtain h where h: "signed_hash sample_env sample_done [11] sample_final = Ok h" by (rule sample_hash)
  obtain nk where nk: "client_compute_keys sample_env h sample_done sample_agreed sample_final None = Ok nk" by (rule sample_keys)
  obtain w' where w': "packet (crates_of sample_env) [w_u8 W0 NEWKEYS] w = Ok ([NEWKEYS], w')"
    "pw_cipher w' = ClearKey" "pw_compress w' = CompressNone" "sent_bytes (write_buffer w') \<le> sent_bytes (write_buffer w) + 1000"
    by (rule sample_clear [OF assms(1,2), of "[w_u8 W0 NEWKEYS]" "[NEWKEYS]"]) (simp_all add: rfc.put_u8)
  have r: "r_bytes W0 (be_put W0 (as_u32 1) @ [11] @ be_put W0 (as_u32 32) @ sample_point @ be_put W0 (as_u32 1) @ [7])
      = Ok ([11], be_put W0 (as_u32 32) @ sample_point @ be_put W0 (as_u32 1) @ [7])"
    "r_bytes W0 (be_put W0 (as_u32 32) @ sample_point @ be_put W0 (as_u32 1) @ [7]) = Ok (sample_point, be_put W0 (as_u32 1) @ [7])"
    "r_bytes W0 (be_put W0 (as_u32 1) @ [7]) = Ok ([7], [])"
    using read_sample_string [of "[11]"] read_sample_string [of sample_point] read_sample_string [of "[7]" "[]"] by simp_all
  have s: "compute_shared_secret sample_kex_crates (Curve25519Kex \<lparr>ck_local = Some [1], ck_shared = None\<rparr>) sample_point = Ok sample_done"
    by (simp add: curve25519_shared_def sample_kex_crates_def)
  have names: "nk_names nk = sample_agreed"
    using keys_for_fields [OF nk [unfolded client_compute_keys_def]] by simp
  have e: "server_ephemeral (ck_exchange k) = []" "(ck_exchange k)\<lparr>server_ephemeral := sample_point\<rparr> = sample_final"
    by (simp_all add: ex sample_both_def sample_exchange_def exchange_new_def)
  have i: "slice_from 1 sample_reply = Ok (tl sample_reply)" "msg_type \<lparr>in_buffer = sample_reply, in_seqn = 2\<rparr> = Some KEX_ECDH_REPLY"
    by (simp_all add: sample_reply_def slice_from_def)
  have n: "n_ignore_guessed sample_agreed = False" "n_strict_kex sample_agreed" by (simp_all add: sample_agreed_def)
  have t: "tl sample_reply = be_put W0 (as_u32 1) @ [11] @ be_put W0 (as_u32 32) @ sample_point @ be_put W0 (as_u32 1) @ [7]"
    by (simp add: sample_reply_def)
  have v: "parse_public_key sample_ssh [11] = Ok [11]" "sig_decode sample_ssh [7] = Ok [7]" "verify sample_ssh [11] h [7]"
    by (simp_all add: sample_ssh_def parse_public_key_def)
  show ?thesis
    by (rule that [OF _ names w'(2-4)])
      (use n i r [folded t] v s h nk w'(1) e assms(5) names in
        \<open>simp add: st client_dh_reply_def Let_def expect_def reply_type_def t del: compute_shared_secret.simps\<close>)
qed


lemma sample_server_first:
  "server_step sample_server_env lookup sample_server_kex (Some \<lparr>in_buffer = sample_init None, in_seqn = 1\<rparr>) w
    = Ok (NeedsReply (sample_server_kex\<lparr>sk_exchange := sample_both,
        sk_state := SWaitingForDhInit sample_agreed (Curve25519Kex curve_kex_new)\<rparr>) False, w)"
proof -
  have ex: "(sample_exchange [] (sample_init (Some [Ed25519])))\<lparr>client_kex_init := sample_init None\<rparr> = sample_both"
    "client_kex_init (sample_exchange [] (sample_init (Some [Ed25519]))) = []"
    by (simp_all add: sample_exchange_def sample_both_def)
  have k: "msg_type \<lparr>in_buffer = sample_init None, in_seqn = 1\<rparr> = Some KEXINIT"
    by (simp add: sample_init_def)
  have n: "n_kex sample_agreed = CURVE25519" by (simp add: sample_agreed_def)
  show ?thesis
    using ex k by (simp add: sample_server_kex_def server_created_def expect_def sample_ssh_def sample_server_config_def
        sample_read(2) check_strict_kexinit_def n curve_kex)
qed

lemma sample_server_second:
  assumes "pw_cipher w = ClearKey" "pw_compress w = CompressNone"
    and st: "sk_state k = SWaitingForDhInit sample_agreed (Curve25519Kex curve_kex_new)"
    and ex: "sk_exchange k = sample_both" and "sk_cause k = Initial" "sk_config k = sample_server_config"
  obtains nk w' where "server_step sample_server_env lookup k (Some \<lparr>in_buffer = sample_dh_init, in_seqn = 2\<rparr>) w
      = Ok (NeedsReply (k\<lparr>sk_exchange := sample_final, sk_state := SWaitingForNewKeys nk\<rparr>) True, w')"
    "nk_names nk = sample_agreed" "nk_exchange nk = sample_final"
proof -
  obtain h where h: "signed_hash sample_server_env sample_done [11] sample_final = Ok h" by (rule sample_hash)
  obtain nk where nk: "server_compute_keys sample_server_env h sample_done sample_agreed sample_final None = Ok nk" by (rule sample_keys)
  have p: "puts [w_u8 W0 KEX_ECDH_REPLY, w_bytes W0 [11], w_bytes W0 sample_point, w_bytes W0 [7]] [] = Ok sample_reply"
    "sample_reply \<noteq> []" "length sample_reply \<le> 1000"
    by (simp_all add: rfc.put_u8 rfc.put_bytes sample_reply_def rfc.be_put_length)
  obtain w1 where w1: "packet (crates_of sample_env) [w_u8 W0 KEX_ECDH_REPLY, w_bytes W0 [11], w_bytes W0 sample_point, w_bytes W0 [7]] w
      = Ok (sample_reply, w1)" "pw_cipher w1 = ClearKey" "pw_compress w1 = CompressNone"
    by (rule sample_clear [OF assms(1,2) p])
  obtain w2 where w2: "packet (crates_of sample_env) [w_u8 W0 NEWKEYS] w1 = Ok ([NEWKEYS], w2)"
    by (rule sample_clear [OF w1(2,3), of "[w_u8 W0 NEWKEYS]" "[NEWKEYS]"]) (simp_all add: rfc.put_u8)
  have t: "slice_from 1 sample_dh_init = Ok (be_put W0 (as_u32 32) @ sample_point)"
    "msg_type \<lparr>in_buffer = sample_dh_init, in_seqn = 2\<rparr> = Some KEX_ECDH_INIT"
    by (simp_all add: sample_dh_init_def slice_from_def)
  have r: "r_bytes W0 (be_put W0 (as_u32 32) @ sample_point) = Ok (sample_point, [])"
    using read_sample_string [of sample_point "[]"] by simp
  have d: "declared_key W0 {KEX_ECDH_INIT} sample_dh_init (\<lambda>n. if n \<noteq> 32 then Err KexError else Ok ()) = Ok sample_point"
    using declared_key_sent [OF rfc.ssh_wire_axioms, of KEX_ECDH_INIT "{KEX_ECDH_INIT}" sample_point]
    by (simp add: sample_dh_init_def)
  have s: "server_dh W0 (kex_of sample_server_env) (Curve25519Kex curve_kex_new) (sample_both\<lparr>client_ephemeral := sample_point\<rparr>)
      sample_dh_init = Ok (sample_done, sample_final)"
    using d by (simp add: curve25519_server_def sample_kex_crates_def redraw_def Let_def curve_kex_new_def)
  have e: "client_ephemeral sample_both = []" "server_ephemeral sample_final = sample_point"
    by (simp_all add: sample_both_def sample_exchange_def exchange_new_def)
  have n: "n_ignore_guessed sample_agreed = False" "n_strict_kex sample_agreed" "n_key sample_agreed = Ed25519"
    by (simp_all add: sample_agreed_def)
  have v: "sign_with_hash_alg sample_ssh (key_with_hash_new sample_ssh () None) h = Ok [7]"
    "public_of sample_ssh () = [11]" "pub_to_bytes sample_ssh [11] = Ok [11]" "key_algorithm sample_ssh () = Ed25519"
    "sc_keys sample_server_config = [()]"
    by (simp_all add: sample_ssh_def sign_with_hash_alg_reachable sample_server_config_def)
  note f = keys_for_fields [OF nk [unfolded server_compute_keys_def]]
  show ?thesis
    by (rule that [of nk w2])
      (use n t r s h nk w1(1) w2 e v assms(5,6) f ex in
        \<open>simp_all add: st server_dh_init_def Let_def expect_def init_type_def reply_type_def del: server_dh.simps\<close>)
qed

lemma sample_fresh:
  "ck_state sample_client_kex = CCreated" "server_kex_init (ck_exchange sample_client_kex) = []"
  "ck_cause sample_client_kex = Initial" "ck_config sample_client_kex = sample_client_config"
  "sk_state sample_server_kex = SCreated" "client_kex_init (sk_exchange sample_server_kex) = []"
  "sk_cause sample_server_kex = Initial" "sk_config sample_server_kex = sample_server_config"
  by (simp_all add: sample_client_kex_def sample_server_kex_def sample_exchange_def exchange_new_def)

text \<open>Both runs from the KEXINIT to the new keys.\<close>

lemma sample_client_run:
  obtains nk where "client_run sample_env sample_client_kex packet_writer_clear
    [\<lparr>in_buffer = sample_init (Some [Ed25519]), in_seqn = 1\<rparr>, \<lparr>in_buffer = sample_reply, in_seqn = 2\<rparr>, \<lparr>in_buffer = [NEWKEYS], in_seqn = 3\<rparr>]
    (KexDone (Some [11]) nk)"
proof -
  have c: "pw_cipher packet_writer_clear = ClearKey" "pw_compress packet_writer_clear = CompressNone"
    by (simp_all add: packet_writer_clear_def packet_writer_new_def)
  let ?k1 = "sample_client_kex\<lparr>ck_exchange := sample_both\<lparr>client_ephemeral := sample_point\<rparr>,
    ck_state := CWaitingForDhReply sample_agreed (Curve25519Kex \<lparr>ck_local = Some [1], ck_shared = None\<rparr>)\<rparr>"
  obtain w1 where s1: "client_step sample_env sample_client_kex (Some \<lparr>in_buffer = sample_init (Some [Ed25519]), in_seqn = 1\<rparr>)
      packet_writer_clear = Ok (NeedsReply ?k1 False, w1)" and w1: "pw_cipher w1 = ClearKey" "pw_compress w1 = CompressNone"
    by (rule sample_client_first [OF c])
  obtain nk w2 where s2: "client_step sample_env ?k1 (Some \<lparr>in_buffer = sample_reply, in_seqn = 2\<rparr>) w1
      = Ok (NeedsReply (?k1\<lparr>ck_exchange := sample_final, ck_state := CWaitingForNewKeys [11] nk\<rparr>) True, w2)"
    by (rule sample_client_second [OF w1, of ?k1]) (simp_all add: sample_client_kex_def)
  show ?thesis
    by (rule that [of nk], rule client_more [OF s1], rule client_more [OF s2], rule client_last) (simp add: expect_def)
qed

lemma sample_server_run:
  obtains nk where "server_run sample_server_env lookup sample_server_kex packet_writer_clear
    [\<lparr>in_buffer = sample_init None, in_seqn = 1\<rparr>, \<lparr>in_buffer = sample_dh_init, in_seqn = 2\<rparr>, \<lparr>in_buffer = [NEWKEYS], in_seqn = 3\<rparr>]
    (KexDone None nk)" "nk_names nk = sample_agreed"
proof -
  have c: "pw_cipher packet_writer_clear = ClearKey" "pw_compress packet_writer_clear = CompressNone"
    by (simp_all add: packet_writer_clear_def packet_writer_new_def)
  let ?k1 = "sample_server_kex\<lparr>sk_exchange := sample_both,
        sk_state := SWaitingForDhInit sample_agreed (Curve25519Kex curve_kex_new)\<rparr>"
  obtain nk w2 where s2: "server_step sample_server_env lookup ?k1 (Some \<lparr>in_buffer = sample_dh_init, in_seqn = 2\<rparr>) packet_writer_clear
      = Ok (NeedsReply (?k1\<lparr>sk_exchange := sample_final, sk_state := SWaitingForNewKeys nk\<rparr>) True, w2)" "nk_names nk = sample_agreed"
    by (rule sample_server_second [OF c, of ?k1]) (simp_all add: sample_server_kex_def)
  show ?thesis
    by (rule that [of nk], rule server_more [OF sample_server_first], rule server_more [OF s2(1)], rule server_last)
      (simp_all add: expect_def s2(2))
qed

section \<open>Properties of the machines\<close>

text \<open>Property C7: a client that comes out of an exchange with a host key has checked that key's
  signature over the hash of this very exchange: over the KEXINIT it sent, the KEXINIT it received
  first, from which it negotiated, and both ephemeral keys; its keys and, in the first exchange, its
  session id come from that hash. It comes out without a host key only where \<open>none\<close> was negotiated.\<close>

theorem client_exchange_authenticated:
  assumes "client_run V k w ins (KexDone host_key nk)"
    and "ck_state k = CCreated" "server_kex_init (ck_exchange k) = []"
  shows "client_bound V (ck_config k) (ck_cause k) (client_kex_init (ck_exchange k)) (hd ins) (nk_names nk) (nk_exchange nk)
    \<and> (case host_key of
         None \<Rightarrow> n_kex (nk_names nk) = NONE_NAME
       | Some pub \<Rightarrow> authenticated V (ck_cause k) pub nk)"
  using client_run_started [OF assms] by (simp add: client_result_def split: option.splits)

theorem client_exchange_authenticated_witness:
  "\<exists>nk. client_run sample_env sample_client_kex packet_writer_clear
      [\<lparr>in_buffer = sample_init (Some [Ed25519]), in_seqn = 1\<rparr>, \<lparr>in_buffer = sample_reply, in_seqn = 2\<rparr>, \<lparr>in_buffer = [NEWKEYS], in_seqn = 3\<rparr>]
      (KexDone (Some [11]) nk)
    \<and> authenticated sample_env Initial [11] nk"
proof -
  obtain nk where "client_run sample_env sample_client_kex packet_writer_clear
      [\<lparr>in_buffer = sample_init (Some [Ed25519]), in_seqn = 1\<rparr>, \<lparr>in_buffer = sample_reply, in_seqn = 2\<rparr>, \<lparr>in_buffer = [NEWKEYS], in_seqn = 3\<rparr>]
      (KexDone (Some [11]) nk)"
    by (rule sample_client_run)
  with client_exchange_authenticated [OF this] sample_fresh show ?thesis by auto
qed

text \<open>Property C16: a server that comes out of an exchange, unless \<open>none\<close> was negotiated, has signed the
  hash of this exchange with a host key of its configuration that fits the negotiated algorithm, and
  its keys come from that hash.\<close>

theorem server_exchange_signed:
  assumes "server_run V lookup k w ins (KexDone h nk)"
    and "sk_state k = SCreated" "client_kex_init (sk_exchange k) = []"
  shows "server_bound V (sk_config k) (sk_cause k) (server_kex_init (sk_exchange k)) (hd ins) (nk_names nk) (nk_exchange nk)
    \<and> (n_kex (nk_names nk) = NONE_NAME \<or> server_signed V (sk_config k) (sk_cause k) nk)"
  using server_run_started [OF assms] by (simp add: server_result_def)


theorem server_exchange_signed_witness:
  "\<exists>nk. server_run sample_server_env (\<lambda>p. Ok None) sample_server_kex packet_writer_clear
      [\<lparr>in_buffer = sample_init None, in_seqn = 1\<rparr>, \<lparr>in_buffer = sample_dh_init, in_seqn = 2\<rparr>, \<lparr>in_buffer = [NEWKEYS], in_seqn = 3\<rparr>]
      (KexDone None nk)
    \<and> server_signed sample_server_env sample_server_config Initial nk"
proof -
  obtain nk where "server_run sample_server_env (\<lambda>p. Ok None) sample_server_kex packet_writer_clear
      [\<lparr>in_buffer = sample_init None, in_seqn = 1\<rparr>, \<lparr>in_buffer = sample_dh_init, in_seqn = 2\<rparr>, \<lparr>in_buffer = [NEWKEYS], in_seqn = 3\<rparr>]
      (KexDone None nk)" and "nk_names nk = sample_agreed"
    by (rule sample_server_run)
  with server_exchange_signed [OF this(1)] sample_fresh show ?thesis
    by (auto simp: sample_agreed_def kex_names)
qed

text \<open>Property C21: the packets that a server consumes in a finished exchange are, in their order, exactly
  those of the negotiated method: the KEXINIT alone where the method is \<open>none\<close> and only there, the four
  messages of the group exchange for its two methods, the three of the strict key exchange for every
  other; one further packet is passed over only where the client announced a guess that was wrong. But
  for \<open>none\<close> the order is one of those that the strict key exchange admits.\<close>

theorem server_message_order:
  assumes "server_run V lookup k w ins (KexDone h nk)" "sk_state k = SCreated"
  shows "\<exists>names. server_names V (sk_config k) (sk_cause k) (hd ins) = Ok names
    \<and> follows (n_ignore_guessed names) ins (client_messages (n_kex names))
    \<and> (client_messages (n_kex names) \<in> set client_orders \<or> n_kex names = NONE_NAME)"
  using server_run_follows [OF assms] messages_admitted by blast

theorem server_message_order_witness:
  "\<exists>nk names. server_run sample_server_env (\<lambda>p. Ok None) sample_server_kex packet_writer_clear
      [\<lparr>in_buffer = sample_init None, in_seqn = 1\<rparr>, \<lparr>in_buffer = sample_dh_init, in_seqn = 2\<rparr>, \<lparr>in_buffer = [NEWKEYS], in_seqn = 3\<rparr>]
      (KexDone None nk)
    \<and> server_names sample_server_env sample_server_config Initial \<lparr>in_buffer = sample_init None, in_seqn = 1\<rparr> = Ok names
    \<and> follows (n_ignore_guessed names)
        [\<lparr>in_buffer = sample_init None, in_seqn = 1\<rparr>, \<lparr>in_buffer = sample_dh_init, in_seqn = 2\<rparr>, \<lparr>in_buffer = [NEWKEYS], in_seqn = 3\<rparr>]
        (client_messages (n_kex names))"
proof -
  obtain nk where "server_run sample_server_env (\<lambda>p. Ok None) sample_server_kex packet_writer_clear
      [\<lparr>in_buffer = sample_init None, in_seqn = 1\<rparr>, \<lparr>in_buffer = sample_dh_init, in_seqn = 2\<rparr>, \<lparr>in_buffer = [NEWKEYS], in_seqn = 3\<rparr>]
      (KexDone None nk)"
    by (rule sample_server_run)
  with server_message_order [OF this] sample_fresh show ?thesis by auto
qed

text \<open>Property C22: the same of the packets that a client consumes and the server's messages.\<close>

theorem client_message_order:
  assumes "client_run V k w ins (KexDone h nk)" "ck_state k = CCreated"
  shows "\<exists>names. client_names V (ck_config k) (ck_cause k) (hd ins) = Ok names
    \<and> follows (n_ignore_guessed names) ins (server_messages (n_kex names))
    \<and> (server_messages (n_kex names) \<in> set server_orders \<or> n_kex names = NONE_NAME)"
  using client_run_follows [OF assms] messages_admitted by blast

theorem client_message_order_witness:
  "\<exists>nk names. client_run sample_env sample_client_kex packet_writer_clear
      [\<lparr>in_buffer = sample_init (Some [Ed25519]), in_seqn = 1\<rparr>, \<lparr>in_buffer = sample_reply, in_seqn = 2\<rparr>, \<lparr>in_buffer = [NEWKEYS], in_seqn = 3\<rparr>]
      (KexDone (Some [11]) nk)
    \<and> client_names sample_env sample_client_config Initial \<lparr>in_buffer = sample_init (Some [Ed25519]), in_seqn = 1\<rparr> = Ok names
    \<and> follows (n_ignore_guessed names)
        [\<lparr>in_buffer = sample_init (Some [Ed25519]), in_seqn = 1\<rparr>, \<lparr>in_buffer = sample_reply, in_seqn = 2\<rparr>, \<lparr>in_buffer = [NEWKEYS], in_seqn = 3\<rparr>]
        (server_messages (n_kex names))"
proof -
  obtain nk where "client_run sample_env sample_client_kex packet_writer_clear
      [\<lparr>in_buffer = sample_init (Some [Ed25519]), in_seqn = 1\<rparr>, \<lparr>in_buffer = sample_reply, in_seqn = 2\<rparr>, \<lparr>in_buffer = [NEWKEYS], in_seqn = 3\<rparr>]
      (KexDone (Some [11]) nk)"
    by (rule sample_client_run)
  with client_message_order [OF this] sample_fresh show ?thesis by auto
qed

text \<open>Property C1: a key exchange between this client and this server comes to its end, and to the same
  end. From the client's message of the exchange on, whatever the method, and however the two sides drew
  their random values: the server answers it, what the server has written is read by the client, with the
  keys still in force, as a reply and a NEWKEYS; the client takes that very reply, its own NEWKEYS is
  read by the server, and with the two NEWKEYS both machines are done. Both have then the same record of
  the exchange and the same session id, the client has the server's host key, and the sealing key of each
  side matches the opening key of the other. The computations that depend on the values drawn (a
  Diffie-Hellman value in its range) and on the sizes (a packet below the limit, no compression) are
  hypotheses, as is that a signature made with the host key verifies.\<close>

theorem handshake_agreement:
  assumes W: "ssh_wire (env_wire V)" and X: "kex_laws (kex_of V)" and C: "crypto_laws (crypto_of (crates_of V))"
    and H: "\<And>d x. hash_of (keys_of V) d x \<noteq> []" and L: "cbc_laws (crypto_of (crates_of V)) (keys_of V)"
    and F: "fills (fill_bytes (crates_of V))" and V': "V' = V\<lparr>kex_of := redraw g sc rsec rml (kex_of V)\<rparr>"
    and states: "sk_state ks = SWaitingForDhInit names kex" "sk_exchange ks = ex" "\<not> n_ignore_guessed names"
      "ck_state kc = CWaitingForDhReply names kcx" "ck_exchange kc = exc" "sk_cause ks = ck_cause kc"
    and names: "CIPHERS (n_cipher names) = Some impl" "MACS (n_client_mac names) = Some cm" "MACS (n_server_mac names) = Some sm"
    and start: "client_dh (env_wire V) (kex_of V) kex ex = Ok (kcx, exc, payload)" "kex \<noteq> NoneKex"
      "client_ephemeral ex = []" "server_ephemeral ex = []" "length (client_ephemeral exc) < 2 ^ 32"
    and answer: "server_dh (env_wire V) (kex_of V') kex exc payload = Ok (kse, exs)"
      "compute_shared_secret (kex_of V) kcx (server_ephemeral exs) = Ok kce" "kex_secret (env_wire V) (keys_of V) kse = Ok ds"
    and key: "find (\<lambda>key. is_key_compatible_with_algo (key_algorithm (ssh_of V) key) (n_key names)) (sc_keys (sk_config ks)) = Some key"
      "pub_to_bytes (ssh_of V) (public_of (ssh_of V) key) = Ok b" "pub_decode (ssh_of V) b = Ok (public_of (ssh_of V) key)"
    and sign: "signed_hash V' kse (public_of (ssh_of V) key) exs = Ok hash"
      "sign_with_hash_alg (ssh_of V) (key_with_hash_new (ssh_of V) key (signature_hash_alg (n_key names))) hash = Ok signature"
      "sig_decode (ssh_of V) signature = Ok sg" "verify (ssh_of V) (public_of (ssh_of V) key) hash sg"
    and sizes: "length payload + 20 \<le> MAXIMUM_PACKET_LEN"
      "length b + length (server_ephemeral exs) + length signature + 40 \<le> MAXIMUM_PACKET_LEN"
    and writers: "keys_match (crypto_of (crates_of V)) (pw_cipher wcl) oks" "pw_compress wcl = CompressNone"
      "keys_match (crypto_of (crates_of V)) (pw_cipher wsv) okc" "pw_compress wsv = CompressNone"
    and readers: "seqn rs = seqn (write_buffer wcl)" "next_len rs = 0" "seqn rc = seqn (write_buffer wsv)" "next_len rc = 0"
  shows "\<exists>wc wc' ws ks' kc' nkc nks reply sent answered bs bc rs' rc' oks' okc'.
      send_client_dh V kex ex wcl = Ok (kcx, exc, wc)
    \<and> server_step V' lookup ks (Some \<lparr>in_buffer = payload, in_seqn = na\<rparr>) wsv = Ok (NeedsReply ks' bs, ws)
    \<and> buffer (write_buffer ws) = buffer (write_buffer wsv) @ answered
    \<and> read_packets (env_wire V) (crypto_of (crates_of V)) okc 2 answered rc = Ok ([reply, [NEWKEYS]], [], rc', okc')
    \<and> client_step V kc (Some \<lparr>in_buffer = reply, in_seqn = nb\<rparr>) wc = Ok (NeedsReply kc' bc, wc')
    \<and> buffer (write_buffer wc') = buffer (write_buffer wcl) @ sent
    \<and> read_packets (env_wire V) (crypto_of (crates_of V)) oks 2 sent rs = Ok ([payload, [NEWKEYS]], [], rs', oks')
    \<and> client_step V kc' (Some \<lparr>in_buffer = [NEWKEYS], in_seqn = nc\<rparr>) wc' = Ok (KexDone (Some (public_of (ssh_of V) key)) nkc, wc')
    \<and> server_step V' lookup ks' (Some \<lparr>in_buffer = [NEWKEYS], in_seqn = nd\<rparr>) ws = Ok (KexDone None nks, ws)
    \<and> nk_exchange nkc = nk_exchange nks \<and> nk_session_id nkc = nk_session_id nks
    \<and> keys_match (crypto_of (crates_of V)) (local_to_remote (nk_cipher nkc)) (remote_to_local (nk_cipher nks))
    \<and> keys_match (crypto_of (crates_of V)) (local_to_remote (nk_cipher nks)) (remote_to_local (nk_cipher nkc))"
proof -
  let ?W = "env_wire V" and ?S = "ssh_of V" and ?E = "crates_of V" and ?pub = "public_of (ssh_of V) key"
  have env: "crates_of V' = ?E" "ssh_of V' = ?S" "keys_of V' = keys_of V" "kex_of V' = redraw g sc rsec rml (kex_of V)"
    by (simp_all add: V')
  obtain e where exc: "exc = ex\<lparr>client_ephemeral := e\<rparr>" and gc: "is_dh_gex kcx = is_dh_gex kex"
    using client_dh_keeps [OF start(1)] by blast
  note lp = start(5)
  have payload: "payload = init_type kex # be_put ?W (as_u32 (length e)) @ e" "length e < 2 ^ 32"
    using client_dh_payload [OF W start(1,2) lp] lp by (simp_all add: exc)
  obtain e' where exs: "exs = exc\<lparr>server_ephemeral := e'\<rparr>" and gs: "is_dh_gex kse = is_dh_gex kex"
    using server_dh_keeps [OF answer(1)] by blast
  note agree = secrets_agree [OF W X start(1) lp answer(1) [unfolded env] answer(2)]
  have hc: "signed_hash V kce ?pub exs = Ok hash"
    using sign(1) agree [of "keys_of V"] by (auto simp: signed_hash_def env outcome_simps)
  have ds: "kex_secret ?W (keys_of V) kce = Ok ds" using agree [of "keys_of V"] answer(3) by simp
  obtain nkc nks where nk: "keys_for False V hash kce names exs (cause_session_id (ck_cause kc)) = Ok nkc"
    "keys_for True V hash kse names exs (cause_session_id (ck_cause kc)) = Ok nks"
    "nk_exchange nkc = nk_exchange nks" "nk_session_id nkc = nk_session_id nks" "nk_names nkc = names" "nk_names nks = names"
    "keys_match (crypto_of ?E) (local_to_remote (nk_cipher nkc)) (remote_to_local (nk_cipher nks))"
    "keys_match (crypto_of ?E) (local_to_remote (nk_cipher nks)) (remote_to_local (nk_cipher nkc))"
    using both_keys [OF H L names answer(3) ds] by blast
  have lens: "length b < 2 ^ 32" "length (server_ephemeral exs) < 2 ^ 32" "length signature < 2 ^ 32" using sizes by simp_all
  let ?reply = "reply_layout ?W (reply_type kse) b (server_ephemeral exs) signature"
  have nl: "puts (newkeys_packet ?W) [] = Ok [NEWKEYS]" using W by (simp add: ssh_wire.put_u8)
  have ls: "length ?reply + 20 \<le> MAXIMUM_PACKET_LEN" "?reply \<noteq> []" "length [NEWKEYS] + 20 \<le> MAXIMUM_PACKET_LEN"
    using sizes(2) ssh_wire.be_put_length [OF W] by (simp_all add: reply_layout_def)
  obtain ws1 ws answered rc' okc' where sv: "packet ?E [w_u8 ?W (reply_type kse), w_bytes ?W b, w_bytes ?W (server_ephemeral exs),
      w_bytes ?W signature] wsv = Ok (?reply, ws1)" "packet ?E (newkeys_packet ?W) ws1 = Ok ([NEWKEYS], ws)"
    "buffer (write_buffer ws) = buffer (write_buffer wsv) @ answered"
    "read_packets ?W (crypto_of ?E) okc 2 answered rc = Ok ([?reply, [NEWKEYS]], [], rc', okc')"
    by (rule two_packets_read [OF W C F writers(3,4) reply_written [OF W lens] ls(2,1) nl _ ls(3) readers(3,4)]) simp
  have pp: "puts [put_raw payload] [] = Ok payload" "payload \<noteq> []" using payload by simp_all
  obtain wc wc' sent rs' oks' where cl: "packet ?E [put_raw payload] wcl = Ok (payload, wc)"
    "packet ?E (newkeys_packet ?W) wc = Ok ([NEWKEYS], wc')"
    "buffer (write_buffer wc') = buffer (write_buffer wcl) @ sent"
    "read_packets ?W (crypto_of ?E) oks 2 sent rs = Ok ([payload, [NEWKEYS]], [], rs', oks')"
    by (rule two_packets_read [OF W C F writers(1,2) pp sizes(1) nl _ ls(3) readers(1,2)]) simp
  have read: "slice_from 1 payload = Ok (be_put ?W (as_u32 (length e)) @ e)" "r_bytes ?W (be_put ?W (as_u32 (length e)) @ e) = Ok (e, [])"
    using ssh_wire.get_bytes [OF W payload(2), of "[]"] by (simp_all add: payload(1) slice_from_def)
  let ?ks = "ks\<lparr>sk_exchange := exs, sk_state := SWaitingForNewKeys nks\<rparr>"
  have server: "server_step V' lookup ks (Some \<lparr>in_buffer = payload, in_seqn = na\<rparr>) wsv
      = Ok (NeedsReply ?ks (n_strict_kex (nk_names nks) \<or> is_strict_rekey (sk_cause ks)), ws)"
    by (rule server_dh_step [OF states(1,3), where r' = "[]" and e = e and kex' = kse])
      (use read answer(1) key sign sv(1,2) nk(2) states(2,6) start(3) exc payload(1) in
        \<open>simp_all add: env keys_for_env [of V' V, OF env(1,3)]\<close>)
  obtain r r1 r2 where rd: "slice_from 1 ?reply = Ok r" "r_bytes ?W r = Ok (b, r1)"
    "r_bytes ?W r1 = Ok (server_ephemeral exs, r2)" "r_bytes ?W r2 = Ok (signature, [])"
    by (rule reply_read [OF W lens])
  let ?kc = "kc\<lparr>ck_exchange := exs, ck_state := CWaitingForNewKeys ?pub nkc\<rparr>"
  have client: "client_step V kc (Some \<lparr>in_buffer = ?reply, in_seqn = nb\<rparr>) wc
      = Ok (NeedsReply ?kc (n_strict_kex (nk_names nkc) \<or> is_strict_rekey (ck_cause kc)), wc')"
    by (rule client_dh_step [OF states(4,3), where rest = "[]" and b = b and e = "server_ephemeral exs" and kex' = kce and hash = hash])
      (use rd key(3) answer(2) hc sign(3,4) nk(1) cl(2) states(5) start(4) exc exs gc gs in
        \<open>simp_all add: reply_layout_def reply_type_def\<close>)
  have over: "client_step V ?kc (Some \<lparr>in_buffer = [NEWKEYS], in_seqn = nc\<rparr>) wc' = Ok (KexDone (Some ?pub) nkc, wc')"
    "server_step V' lookup ?ks (Some \<lparr>in_buffer = [NEWKEYS], in_seqn = nd\<rparr>) ws = Ok (KexDone None nks, ws)"
    by (simp_all add: expect_def)
  have "send_client_dh V kex ex wcl = Ok (kcx, exc, wc)" using start(1) cl(1) by (simp add: send_client_dh_def)
  with server client over sv(3,4) cl(3,4) nk(3,4,7,8) show ?thesis by blast
qed

theorem handshake_agreement_witness:
  "\<exists>ks kc wc wc' ws ks' kc' nkc nks reply sent answered bs bc rs' rc' oks' okc'.
      send_client_dh sample_env (Curve25519Kex curve_kex_new) sample_both packet_writer_clear
        = Ok (Curve25519Kex \<lparr>ck_local = Some [1], ck_shared = None\<rparr>, sample_both\<lparr>client_ephemeral := sample_point\<rparr>, wc)
    \<and> sk_state ks = SWaitingForDhInit sample_agreed (Curve25519Kex curve_kex_new) \<and> sk_config ks = sample_server_config
    \<and> server_step sample_server_env (\<lambda>p. Ok None) ks (Some \<lparr>in_buffer = sample_dh_init, in_seqn = 2\<rparr>) packet_writer_clear
        = Ok (NeedsReply ks' bs, ws)
    \<and> buffer (write_buffer ws) = answered
    \<and> read_packets W0 flip_crypto ClearKey 2 answered sshbuffer_new = Ok ([reply, [NEWKEYS]], [], rc', okc')
    \<and> client_step sample_env kc (Some \<lparr>in_buffer = reply, in_seqn = 2\<rparr>) wc = Ok (NeedsReply kc' bc, wc')
    \<and> buffer (write_buffer wc') = sent
    \<and> read_packets W0 flip_crypto ClearKey 2 sent sshbuffer_new = Ok ([sample_dh_init, [NEWKEYS]], [], rs', oks')
    \<and> client_step sample_env kc' (Some \<lparr>in_buffer = [NEWKEYS], in_seqn = 3\<rparr>) wc' = Ok (KexDone (Some [11]) nkc, wc')
    \<and> server_step sample_server_env (\<lambda>p. Ok None) ks' (Some \<lparr>in_buffer = [NEWKEYS], in_seqn = 3\<rparr>) ws = Ok (KexDone None nks, ws)
    \<and> nk_session_id nkc = nk_session_id nks
    \<and> keys_match flip_crypto (local_to_remote (nk_cipher nkc)) (remote_to_local (nk_cipher nks))"
proof -
  let ?ks = "sample_server_kex\<lparr>sk_exchange := sample_both,
    sk_state := SWaitingForDhInit sample_agreed (Curve25519Kex curve_kex_new)\<rparr>"
  let ?kc = "sample_client_kex\<lparr>ck_exchange := sample_both\<lparr>client_ephemeral := sample_point\<rparr>,
    ck_state := CWaitingForDhReply sample_agreed (Curve25519Kex \<lparr>ck_local = Some [1], ck_shared = None\<rparr>)\<rparr>"
  let ?w = "packet_writer_clear :: (unit, unit) packet_writer"
  obtain h where h: "signed_hash sample_env sample_done [11] sample_final = Ok h"
    "signed_hash sample_server_env sample_done [11] sample_final = Ok h" by (rule sample_hash)
  obtain b where b: "encode_mpint W0 (replicate 32 6) = Ok b" using sample_secret by blast
  have env: "sample_server_env = sample_env\<lparr>kex_of := redraw (\<lambda>lo hi. lo) [7] (\<lambda>c. [3]) None (kex_of sample_env)\<rparr>"
    by (simp add: sample_server_env_def sample_env_def)
  have C: "crypto_of (crates_of sample_env) = flip_crypto" by (simp add: sample_env_def)
  have d: "server_dh W0 (kex_of sample_server_env) (Curve25519Kex curve_kex_new) (sample_both\<lparr>client_ephemeral := sample_point\<rparr>)
      sample_dh_init = Ok (sample_done, sample_final)"
    using declared_key_sent [OF rfc.ssh_wire_axioms, of KEX_ECDH_INIT "{KEX_ECDH_INIT}" sample_point]
    by (simp add: curve25519_server_def sample_kex_crates_def redraw_def Let_def curve_kex_new_def sample_dh_init_def)
  have s: "compute_shared_secret sample_kex_crates (Curve25519Kex \<lparr>ck_local = Some [1], ck_shared = None\<rparr>) sample_point = Ok sample_done"
    by (simp add: curve25519_shared_def sample_kex_crates_def)
  have ds: "kex_secret W0 flip_keys sample_done = Ok (DigestSha256, Some (Mpint b))"
    using b by (simp add: mpint_secret_def from_mpint_def)
  have sg: "sign_with_hash_alg sample_ssh (key_with_hash_new sample_ssh () (signature_hash_alg (n_key sample_agreed))) h = Ok [7]"
    by (simp add: sample_ssh_def sign_with_hash_alg_reachable)
  have w: "pw_cipher ?w = ClearKey" "pw_compress ?w = CompressNone" "seqn (write_buffer ?w) = 0" "buffer (write_buffer ?w) = []"
    by (simp_all add: packet_writer_clear_def packet_writer_new_def sshbuffer_new_def)
  have r: "seqn sshbuffer_new = 0" "next_len sshbuffer_new = 0" by (simp_all add: sshbuffer_new_def)
  have cl: "\<And>d x. hash_of flip_keys d x \<noteq> []" "fills (\<lambda>b. b)" "keys_match flip_crypto ClearKey ClearKey"
    by (simp_all add: flip_keys_def fills_def keys_match_def)
  have key: "find (\<lambda>key. is_key_compatible_with_algo (key_algorithm sample_ssh key) (n_key sample_agreed)) (sc_keys (sk_config ?ks))
      = Some ()" "public_of sample_ssh () = [11]" "pub_to_bytes sample_ssh [11] = Ok [11]" "pub_decode sample_ssh [11] = Ok [11]"
      "sig_decode sample_ssh [7] = Ok [7]" "verify sample_ssh [11] h [7]"
    by (simp_all add: sample_ssh_def sample_agreed_def sample_server_kex_def sample_server_config_def)
  have impl: "CIPHERS (n_cipher sample_agreed) = Some CtrImpl" "MACS (n_client_mac sample_agreed) = Some (HmacImpl Sha256)"
      "MACS (n_server_mac sample_agreed) = Some (HmacImpl Sha256)"
    by (simp_all add: sample_agreed_def CIPHERS_def MACS_def cipher_names mac_names)
  have states: "sk_state ?ks = SWaitingForDhInit sample_agreed (Curve25519Kex curve_kex_new)" "sk_exchange ?ks = sample_both"
      "\<not> n_ignore_guessed sample_agreed"
      "ck_state ?kc = CWaitingForDhReply sample_agreed (Curve25519Kex \<lparr>ck_local = Some [1], ck_shared = None\<rparr>)"
      "ck_exchange ?kc = sample_both\<lparr>client_ephemeral := sample_point\<rparr>" "sk_cause ?ks = ck_cause ?kc"
    by (simp_all add: sample_agreed_def sample_server_kex_def sample_client_kex_def)
  have start: "Curve25519Kex curve_kex_new \<noteq> NoneKex" "client_ephemeral sample_both = []" "server_ephemeral sample_both = []"
      "length (client_ephemeral (sample_both\<lparr>client_ephemeral := sample_point\<rparr>)) < 2 ^ 32" "server_ephemeral sample_final = sample_point"
    by (simp_all add: sample_both_def sample_exchange_def exchange_new_def)
  have sizes: "length sample_dh_init + 20 \<le> MAXIMUM_PACKET_LEN"
      "length [11 :: u8] + length (server_ephemeral sample_final) + length [7 :: u8] + 40 \<le> MAXIMUM_PACKET_LEN"
    by (simp_all add: sample_dh_init_def rfc.be_put_length)
  have "\<exists>wc wc' ws ks' kc' nkc nks reply sent answered bs bc rs' rc' oks' okc'.
      send_client_dh sample_env (Curve25519Kex curve_kex_new) sample_both ?w
        = Ok (Curve25519Kex \<lparr>ck_local = Some [1], ck_shared = None\<rparr>, sample_both\<lparr>client_ephemeral := sample_point\<rparr>, wc)
    \<and> server_step sample_server_env (\<lambda>p. Ok None) ?ks (Some \<lparr>in_buffer = sample_dh_init, in_seqn = 2\<rparr>) ?w = Ok (NeedsReply ks' bs, ws)
    \<and> buffer (write_buffer ws) = buffer (write_buffer ?w) @ answered
    \<and> read_packets W0 flip_crypto ClearKey 2 answered sshbuffer_new = Ok ([reply, [NEWKEYS]], [], rc', okc')
    \<and> client_step sample_env ?kc (Some \<lparr>in_buffer = reply, in_seqn = 2\<rparr>) wc = Ok (NeedsReply kc' bc, wc')
    \<and> buffer (write_buffer wc') = buffer (write_buffer ?w) @ sent
    \<and> read_packets W0 flip_crypto ClearKey 2 sent sshbuffer_new = Ok ([sample_dh_init, [NEWKEYS]], [], rs', oks')
    \<and> client_step sample_env kc' (Some \<lparr>in_buffer = [NEWKEYS], in_seqn = 3\<rparr>) wc' = Ok (KexDone (Some (public_of sample_ssh ())) nkc, wc')
    \<and> server_step sample_server_env (\<lambda>p. Ok None) ks' (Some \<lparr>in_buffer = [NEWKEYS], in_seqn = 3\<rparr>) ws = Ok (KexDone None nks, ws)
    \<and> nk_exchange nkc = nk_exchange nks \<and> nk_session_id nkc = nk_session_id nks
    \<and> keys_match flip_crypto (local_to_remote (nk_cipher nkc)) (remote_to_local (nk_cipher nks))
    \<and> keys_match flip_crypto (local_to_remote (nk_cipher nks)) (remote_to_local (nk_cipher nkc))"
    by (rule handshake_agreement [where V = sample_env, unfolded C sample_env_simps, OF rfc.ssh_wire_axioms sample_kex_laws
          flip_crypto_laws cl(1) flip_cbc_laws cl(2) env [unfolded sample_env_simps] states impl sample_client_dh start(1-4)
          d, where kce = sample_done and key = "()" and b = "[11]" and signature = "[7]" and sg = "[7]" and hash = h])
      (use s start(5) ds key h sg sizes cl(3) w r in \<open>simp_all del: compute_shared_secret.simps\<close>)
  moreover have "sk_state ?ks = SWaitingForDhInit sample_agreed (Curve25519Kex curve_kex_new)" "sk_config ?ks = sample_server_config"
    by (simp_all add: sample_server_kex_def)
  ultimately show ?thesis
    unfolding w(4) append_Nil key(2) by blast
qed

end
