(* ===== verification/Parsing.thy ===== *)
theory Parsing
  imports Lib
begin

text \<open>
  \<open>parsing.rs\<close>: the CHANNEL_OPEN message and the answers to it. \<open>map_err!\<close> turns an error of the encoding
  crate into \<open>SshEncoding\<close>, which the decoders of \<open>wire\<close> already return.
\<close>

record tcp_channel_info =
  host_to_connect :: string
  port_to_connect :: u32
  originator_address :: string
  originator_port :: u32

datatype channel_type =
    CT_Session
  | CT_X11 string u32 \<comment> \<open>originator address and port\<close>
  | CT_DirectTcpip tcp_channel_info
  | CT_DirectStreamLocal string \<comment> \<open>socket path\<close>
  | CT_ForwardedTcpIp tcp_channel_info
  | CT_ForwardedStreamLocal string
  | CT_AgentForward
  | CT_Unknown string

record open_channel =
  oc_typ :: channel_type
  oc_recipient_channel :: u32
  oc_recipient_window_size :: u32
  oc_recipient_maximum_packet_size :: u32

definition decode_stream_local :: "wire \<Rightarrow> bytes \<Rightarrow> (string \<times> bytes) rs" where
  "decode_stream_local W r = r_str W r"

definition decode_tcp_channel_info :: "wire \<Rightarrow> bytes \<Rightarrow> (tcp_channel_info \<times> bytes) rs" where
  "decode_tcp_channel_info W r =
     and_then (r_str W r) (\<lambda>(host, r). and_then (r_u32 W r) (\<lambda>(port, r).
     and_then (r_str W r) (\<lambda>(addr, r). and_then (r_u32 W r) (\<lambda>(oport, r).
       Ok (\<lparr>host_to_connect = host, port_to_connect = port, originator_address = addr,
            originator_port = oport\<rparr>, r)))))"

definition decode_open_confirmation :: "wire \<Rightarrow> bytes \<Rightarrow> (channel_open_confirmation \<times> bytes) rs" where
  "decode_open_confirmation W r =
     and_then (r_u32 W r) (\<lambda>(rc, r). and_then (r_u32 W r) (\<lambda>(sc, r).
     and_then (r_u32 W r) (\<lambda>(iw, r). and_then (r_u32 W r) (\<lambda>(mp, r).
       Ok (\<lparr>coc_recipient_channel = rc, coc_sender_channel = sc, coc_initial_window_size = iw,
            coc_maximum_packet_size = mp\<rparr>, r)))))"

text \<open>The part of a CHANNEL_OPEN that depends on the name of the channel's type.\<close>

definition parse_channel_type :: "wire \<Rightarrow> string \<Rightarrow> bytes \<Rightarrow> (channel_type \<times> bytes) rs" where
  "parse_channel_type W typ r =
     (if typ = ''session'' then Ok (CT_Session, r)
      else if typ = ''x11'' then
        and_then (r_str W r) (\<lambda>(addr, r). and_then (r_u32 W r) (\<lambda>(port, r). Ok (CT_X11 addr port, r)))
      else if typ = ''direct-tcpip'' then
        and_then (decode_tcp_channel_info W r) (\<lambda>(i, r). Ok (CT_DirectTcpip i, r))
      else if typ = ''direct-streamlocal@openssh.com'' then
        and_then (decode_stream_local W r) (\<lambda>(p, r). Ok (CT_DirectStreamLocal p, r))
      else if typ = ''forwarded-tcpip'' then
        and_then (decode_tcp_channel_info W r) (\<lambda>(i, r). Ok (CT_ForwardedTcpIp i, r))
      else if typ = ''forwarded-streamlocal@openssh.com'' then
        and_then (decode_stream_local W r) (\<lambda>(p, r). Ok (CT_ForwardedStreamLocal p, r))
      else if typ = ''auth-agent@openssh.com'' then Ok (CT_AgentForward, r)
      else Ok (CT_Unknown typ, r))"

definition parse_open_channel :: "wire \<Rightarrow> bytes \<Rightarrow> (open_channel \<times> bytes) rs" where
  "parse_open_channel W r =
     and_then (r_str W r) (\<lambda>(typ, r). and_then (r_u32 W r) (\<lambda>(sender, r).
     and_then (r_u32 W r) (\<lambda>(window, r). and_then (r_u32 W r) (\<lambda>(maxpacket, r).
     and_then (parse_channel_type W typ r) (\<lambda>(typ, r).
       Ok (\<lparr>oc_typ = typ, oc_recipient_channel = sender, oc_recipient_window_size = window,
            oc_recipient_maximum_packet_size = maxpacket\<rparr>, r))))))"

definition open_confirm :: "wire \<Rightarrow> open_channel \<Rightarrow> u32 \<Rightarrow> u32 \<Rightarrow> u32 \<Rightarrow> bytes \<Rightarrow> bytes rs" where
  "open_confirm W m our_channel window_size packet_size buf =
     push_packet W [w_u8 W CHANNEL_OPEN_CONFIRMATION, w_u32 W (oc_recipient_channel m), w_u32 W our_channel,
       w_u32 W window_size, w_u32 W packet_size] buf"

definition open_fail :: "wire \<Rightarrow> open_channel \<Rightarrow> u8 \<Rightarrow> bytes \<Rightarrow> bytes \<Rightarrow> bytes rs" where
  "open_fail W m reason message buf =
     push_packet W [w_u8 W CHANNEL_OPEN_FAILURE, w_u32 W (oc_recipient_channel m), w_u32 W (ucast reason),
       w_bytes W message, w_str W ''en''] buf"

definition open_unknown_type :: "wire \<Rightarrow> open_channel \<Rightarrow> bytes \<Rightarrow> bytes rs" where
  "open_unknown_type W m buf =
     open_fail W m SSH_OPEN_UNKNOWN_CHANNEL_TYPE (as_bytes ''Unknown channel type'') buf"

section \<open>Round trips\<close>

text \<open>What the openers of this program write for a type of channel (\<open>client/session.rs\<close> and
  \<open>server/session.rs\<close>): its name, and the fields after the window.\<close>

fun channel_type_name :: "channel_type \<Rightarrow> string" where
  "channel_type_name CT_Session = ''session''"
| "channel_type_name (CT_X11 a p) = ''x11''"
| "channel_type_name (CT_DirectTcpip i) = ''direct-tcpip''"
| "channel_type_name (CT_DirectStreamLocal p) = ''direct-streamlocal@openssh.com''"
| "channel_type_name (CT_ForwardedTcpIp i) = ''forwarded-tcpip''"
| "channel_type_name (CT_ForwardedStreamLocal p) = ''forwarded-streamlocal@openssh.com''"
| "channel_type_name CT_AgentForward = ''auth-agent@openssh.com''"
| "channel_type_name (CT_Unknown n) = n"

definition known_type_names :: "string list" where
  "known_type_names = [''session'', ''x11'', ''direct-tcpip'', ''direct-streamlocal@openssh.com'',
     ''forwarded-tcpip'', ''forwarded-streamlocal@openssh.com'', ''auth-agent@openssh.com'']"

definition tcp_fields :: "wire \<Rightarrow> tcp_channel_info \<Rightarrow> bytes rs list" where
  "tcp_fields W i = [w_str W (host_to_connect i), w_u32 W (port_to_connect i),
     w_str W (originator_address i), w_u32 W (originator_port i)]"

fun channel_type_fields :: "wire \<Rightarrow> channel_type \<Rightarrow> bytes rs list" where
  "channel_type_fields W (CT_X11 a p) = [w_str W a, w_u32 W p]"
| "channel_type_fields W (CT_DirectTcpip i) = tcp_fields W i"
| "channel_type_fields W (CT_DirectStreamLocal p) = [w_str W p]"
| "channel_type_fields W (CT_ForwardedTcpIp i) = tcp_fields W i"
| "channel_type_fields W (CT_ForwardedStreamLocal p) = [w_str W p]"
| "channel_type_fields W _ = []"

definition open_fields :: "wire \<Rightarrow> open_channel \<Rightarrow> bytes rs list" where
  "open_fields W m = [w_str W (channel_type_name (oc_typ m)), w_u32 W (oc_recipient_channel m),
     w_u32 W (oc_recipient_window_size m), w_u32 W (oc_recipient_maximum_packet_size m)]
     @ channel_type_fields W (oc_typ m)"

definition short_text :: "string \<Rightarrow> bool" where
  "short_text s \<longleftrightarrow> ascii s \<and> length s < 2 ^ 32"

fun sendable_type :: "channel_type \<Rightarrow> bool" where
  "sendable_type (CT_X11 a p) = short_text a"
| "sendable_type (CT_DirectTcpip i) = (short_text (host_to_connect i) \<and> short_text (originator_address i))"
| "sendable_type (CT_DirectStreamLocal p) = short_text p"
| "sendable_type (CT_ForwardedTcpIp i) = (short_text (host_to_connect i) \<and> short_text (originator_address i))"
| "sendable_type (CT_ForwardedStreamLocal p) = short_text p"
| "sendable_type (CT_Unknown n) = (short_text n \<and> n \<notin> set known_type_names)"
| "sendable_type _ = True"

lemma put_text: "ssh_wire W \<Longrightarrow> short_text s \<Longrightarrow> w_str W s = Ok (be_put W (as_u32 (length s)) @ as_bytes s)"
  by (simp add: short_text_def ssh_wire.put_str ssh_wire.put_bytes)

lemma get_text: "ssh_wire W \<Longrightarrow> short_text s \<Longrightarrow> r_str W (be_put W (as_u32 (length s)) @ as_bytes s @ r) = Ok (s, r)"
  by (simp add: short_text_def ssh_wire.get_str)

lemma type_name_short: "sendable_type t \<Longrightarrow> short_text (channel_type_name t)"
  by (cases t) (auto simp: short_text_def ascii_def)

lemma puts_Ok_Cons: "puts (Ok b # es) buf = puts es (buf @ b)"
  by simp

lemma parse_channel_type_eqs:
  "parse_channel_type W ''session'' r = Ok (CT_Session, r)"
  "parse_channel_type W ''x11'' r = and_then (r_str W r) (\<lambda>(addr, r). and_then (r_u32 W r) (\<lambda>(port, r). Ok (CT_X11 addr port, r)))"
  "parse_channel_type W ''direct-tcpip'' r = and_then (decode_tcp_channel_info W r) (\<lambda>(i, r). Ok (CT_DirectTcpip i, r))"
  "parse_channel_type W ''direct-streamlocal@openssh.com'' r = and_then (r_str W r) (\<lambda>(p, r). Ok (CT_DirectStreamLocal p, r))"
  "parse_channel_type W ''forwarded-tcpip'' r = and_then (decode_tcp_channel_info W r) (\<lambda>(i, r). Ok (CT_ForwardedTcpIp i, r))"
  "parse_channel_type W ''forwarded-streamlocal@openssh.com'' r = and_then (r_str W r) (\<lambda>(p, r). Ok (CT_ForwardedStreamLocal p, r))"
  "parse_channel_type W ''auth-agent@openssh.com'' r = Ok (CT_AgentForward, r)"
  "n \<notin> set known_type_names \<Longrightarrow> parse_channel_type W n r = Ok (CT_Unknown n, r)"
  by (simp_all add: parse_channel_type_def decode_stream_local_def known_type_names_def)

lemma tcp_fields_read:
  assumes W: "ssh_wire W" and "short_text (host_to_connect i)" "short_text (originator_address i)"
  shows "\<exists>p. puts (tcp_fields W i) [] = Ok p \<and> decode_tcp_channel_info W (p @ r) = Ok (i, r)"
  using assms(2,3)
  by (cases i) (simp add: tcp_fields_def decode_tcp_channel_info_def put_text [OF W] get_text [OF W]
    ssh_wire.put_u32 [OF W] ssh_wire.get_u32 [OF W])

lemma text_fields_read:
  assumes W: "ssh_wire W" and "short_text a"
  shows "\<exists>p. puts [w_str W a] [] = Ok p \<and> r_str W (p @ r) = Ok (a, r)"
    and "\<exists>p. puts [w_str W a, w_u32 W x] [] = Ok p
      \<and> and_then (r_str W (p @ r)) (\<lambda>(s, r). and_then (r_u32 W r) (\<lambda>(y, r). Ok (CT_X11 s y, r))) = Ok (CT_X11 a x, r)"
  using put_text [OF assms] get_text [OF assms] by (simp_all add: ssh_wire.put_u32 [OF W] ssh_wire.get_u32 [OF W])

lemma parse_channel_type_sent:
  assumes "ssh_wire W" "sendable_type t"
  shows "\<exists>p. puts (channel_type_fields W t) [] = Ok p
    \<and> parse_channel_type W (channel_type_name t) (p @ r) = Ok (t, r)"
proof (cases t)
  case (CT_DirectTcpip i)
  with tcp_fields_read [OF assms(1), of i r] assms(2) show ?thesis
    by (auto simp: parse_channel_type_eqs simp del: puts.simps)
next
  case (CT_ForwardedTcpIp i)
  with tcp_fields_read [OF assms(1), of i r] assms(2) show ?thesis
    by (auto simp: parse_channel_type_eqs simp del: puts.simps)
next
  case (CT_X11 a x)
  with text_fields_read(2) [OF assms(1), of a x r] assms(2) show ?thesis
    by (simp only: channel_type_fields.simps channel_type_name.simps parse_channel_type_eqs sendable_type.simps)
next
  case (CT_DirectStreamLocal a)
  with text_fields_read(1) [OF assms(1), of a r] assms(2) show ?thesis
    by (auto simp: parse_channel_type_eqs simp del: puts.simps)
next
  case (CT_ForwardedStreamLocal a)
  with text_fields_read(1) [OF assms(1), of a r] assms(2) show ?thesis
    by (auto simp: parse_channel_type_eqs simp del: puts.simps)
next
  case (CT_Unknown n)
  with assms(2) have "n \<notin> set known_type_names" by simp
  then show ?thesis using CT_Unknown parse_channel_type_eqs(8) [of n W r] by simp
qed (simp_all only: parse_channel_type_eqs channel_type_fields.simps channel_type_name.simps puts.simps, simp_all)

lemma open_channel_read:
  assumes W: "ssh_wire W" and t: "sendable_type (oc_typ m)"
  shows "\<exists>p. puts (open_fields W m) [] = Ok p \<and> parse_open_channel W (p @ r) = Ok (m, r)"
proof -
  obtain p where p: "puts (channel_type_fields W (oc_typ m)) [] = Ok p"
    "parse_channel_type W (channel_type_name (oc_typ m)) (p @ r) = Ok (oc_typ m, r)"
    using parse_channel_type_sent [OF W t] by blast
  note n = type_name_short [OF t]
  let ?h = "be_put W (as_u32 (length (channel_type_name (oc_typ m)))) @ as_bytes (channel_type_name (oc_typ m))
    @ be_put W (oc_recipient_channel m) @ be_put W (oc_recipient_window_size m) @ be_put W (oc_recipient_maximum_packet_size m)"
  have "puts (open_fields W m) [] = puts (channel_type_fields W (oc_typ m)) ?h"
    by (simp add: open_fields_def puts_append put_text [OF W n] ssh_wire.put_u32 [OF W])
  then have "puts (open_fields W m) [] = Ok (?h @ p)"
    using p(1) puts_from_empty [of "channel_type_fields W (oc_typ m)" ?h] by simp
  then show ?thesis
    using p(2) by (simp add: parse_open_channel_def get_text [OF W n] ssh_wire.get_u32 [OF W])
qed

lemma open_confirmation_read:
  assumes W: "ssh_wire W"
  shows "\<exists>p. open_confirm W m s w k buf = Ok (buf @ frame W (CHANNEL_OPEN_CONFIRMATION # p))
    \<and> decode_open_confirmation W (p @ r) = Ok (\<lparr>coc_recipient_channel = oc_recipient_channel m,
        coc_sender_channel = s, coc_initial_window_size = w, coc_maximum_packet_size = k\<rparr>, r)"
proof -
  let ?p = "be_put W (oc_recipient_channel m) @ be_put W s @ be_put W w @ be_put W k"
  have "puts [w_u8 W CHANNEL_OPEN_CONFIRMATION, w_u32 W (oc_recipient_channel m), w_u32 W s, w_u32 W w, w_u32 W k] []
      = Ok (CHANNEL_OPEN_CONFIRMATION # ?p)"
    by (simp add: ssh_wire.put_u8 [OF W] ssh_wire.put_u32 [OF W])
  from ssh_wire.push_packet_frame [OF W this, of buf]
  have "open_confirm W m s w k buf = Ok (buf @ frame W (CHANNEL_OPEN_CONFIRMATION # ?p))"
    by (simp add: open_confirm_def)
  moreover have "decode_open_confirmation W (?p @ r) = Ok (\<lparr>coc_recipient_channel = oc_recipient_channel m,
        coc_sender_channel = s, coc_initial_window_size = w, coc_maximum_packet_size = k\<rparr>, r)"
    by (simp add: decode_open_confirmation_def ssh_wire.get_u32 [OF W])
  ultimately show ?thesis by blast
qed

text \<open>The request to open a channel that one side writes, of whatever type, is the one that
  the other side parses, and parsing stops at its end; the confirmation that the other side pushes
  carries back the requester's channel number and its own number, window and packet size.\<close>

theorem channel_open_roundtrip:
  assumes "ssh_wire W" "sendable_type (oc_typ m)"
  shows "(\<exists>p. puts (open_fields W m) [] = Ok p \<and> parse_open_channel W (p @ r) = Ok (m, r))
    \<and> (\<exists>p. open_confirm W m s w k buf = Ok (buf @ frame W (CHANNEL_OPEN_CONFIRMATION # p))
        \<and> decode_open_confirmation W (p @ r) = Ok (\<lparr>coc_recipient_channel = oc_recipient_channel m,
            coc_sender_channel = s, coc_initial_window_size = w, coc_maximum_packet_size = k\<rparr>, r))"
  using open_channel_read [OF assms] open_confirmation_read [OF assms(1)] by blast

theorem channel_open_roundtrip_witness:
  "\<exists>p. puts (open_fields rfc4251_wire \<lparr>oc_typ = CT_DirectTcpip \<lparr>host_to_connect = ''h'', port_to_connect = 80,
        originator_address = ''o'', originator_port = 7\<rparr>, oc_recipient_channel = 3, oc_recipient_window_size = 4,
        oc_recipient_maximum_packet_size = 5\<rparr>) [] = Ok p
    \<and> parse_open_channel rfc4251_wire (p @ [9]) = Ok (\<lparr>oc_typ = CT_DirectTcpip \<lparr>host_to_connect = ''h'', port_to_connect = 80,
        originator_address = ''o'', originator_port = 7\<rparr>, oc_recipient_channel = 3, oc_recipient_window_size = 4,
        oc_recipient_maximum_packet_size = 5\<rparr>, [9])"
  by (rule channel_open_roundtrip [OF rfc.ssh_wire_axioms, THEN conjunct1]) (simp add: short_text_def ascii_def)

end
