(* ===== verification/Session.thy ===== *)
theory Session
  imports Config Parsing
begin

text \<open>
  \<open>session.rs\<close>: the state that client and server share (\<open>CommonSession\<close>, \<open>Encrypted\<close>), the write buffer in
  which outgoing messages are framed, and the flow control of the channels. \<open>enc_write\<close> is the buffer as
  the code has it, a run of length-prefixed packets; \<open>flush\<close> takes it apart again. The notification
  handles of \<open>extension_info_awaiters\<close> carry no data and are left out. The time is a parameter (\<open>now\<close>),
  in milliseconds.
\<close>

section \<open>State\<close>

record 'z encrypted =
  enc_state :: encrypted_state
  enc_exchange :: "exchange option"
  enc_kex :: kex_algorithm
  enc_key :: nat
  enc_client_mac :: string
  enc_server_mac :: string
  enc_session_id :: bytes
  channels :: "channel_id \<rightharpoonup> channel_params"
  last_channel_id :: u32
  enc_write :: bytes
  write_cursor :: nat
  last_rekey :: nat
  server_compression :: compression
  client_compression :: compression
  enc_decompress :: "'z decompressor"
  rekey_wanted :: bool
  received_extensions :: "string list"

text \<open>\<open>'m\<close> is the type of a pending authentication method, \<open>'c\<close> of the configuration.\<close>

record ('st, 'z, 'm, 'c) common_session =
  auth_user :: string
  remote_sshid :: bytes
  cs_config :: 'c
  cs_encrypted :: "'z encrypted option"
  auth_method :: "'m option"
  auth_attempts :: nat
  packet_writer :: "('st, 'z) packet_writer"
  cs_remote_to_local :: "'st cipher_key"
  wants_reply :: bool
  disconnected :: bool
  cs_buffer :: bytes
  strict_kex :: bool
  alive_timeouts :: nat
  received_data :: bool

text \<open>What a callback of the application leaves: its own state and the session.\<close>

type_synonym ('h, 's) handled = "('h \<times> 's) rs"

text \<open>The answers to global requests that are awaited. A \<open>oneshot\<close> sender is a number.\<close>

datatype global_request_response =
    GrKeepalive
  | GrPing nat
  | GrNoMoreSessions
  | GrTcpIpForward nat
  | GrCancelTcpIpForward nat
  | GrStreamLocalForward nat
  | GrCancelStreamLocalForward nat

datatype global_answer = AnsPong | AnsPort "u32 option" | AnsBool bool

section \<open>\<open>CommonSession\<close>\<close>

definition newkeys ::
    "'z flate \<Rightarrow> 'st new_keys \<Rightarrow> ('st, 'z, 'm, 'c) common_session \<Rightarrow> ('st, 'z, 'm, 'c) common_session" where
  "newkeys Z nk s =
     (case cs_encrypted s of
        None \<Rightarrow> s
      | Some enc \<Rightarrow>
          let w = set_cipher (local_to_remote (nk_cipher nk)) (packet_writer s);
              w = w\<lparr>pw_compress := init_compress Z (client_compression enc) (pw_compress w)\<rparr>;
              enc = enc\<lparr>enc_exchange := Some (nk_exchange nk), enc_kex := nk_kex nk, enc_key := nk_key nk,
                enc_client_mac := n_client_mac (nk_names nk), enc_server_mac := n_server_mac (nk_names nk),
                enc_decompress := init_decompress Z (server_compression enc) (enc_decompress enc)\<rparr>
          in s\<lparr>cs_encrypted := Some enc, cs_remote_to_local := remote_to_local (nk_cipher nk),
               packet_writer := w, strict_kex := strict_kex s \<or> n_strict_kex (nk_names nk)\<rparr>)"

definition set_encrypted ::
    "encrypted_state \<Rightarrow> 'st new_keys \<Rightarrow> nat \<Rightarrow> ('st, 'z, 'm, 'c) common_session \<Rightarrow> ('st, 'z, 'm, 'c) common_session" where
  "set_encrypted st nk now s =
     s\<lparr>cs_encrypted := Some \<lparr>
         enc_state = st, enc_exchange = Some (nk_exchange nk), enc_kex = nk_kex nk, enc_key = nk_key nk,
         enc_client_mac = n_client_mac (nk_names nk), enc_server_mac = n_server_mac (nk_names nk),
         enc_session_id = nk_session_id nk, channels = (\<lambda>c. None), last_channel_id = 1, enc_write = [],
         write_cursor = 0, last_rekey = now, server_compression = n_server_compression (nk_names nk),
         client_compression = n_client_compression (nk_names nk), enc_decompress = DecompressNone,
         rekey_wanted = False, received_extensions = []\<rparr>,
       cs_remote_to_local := remote_to_local (nk_cipher nk),
       packet_writer := set_cipher (local_to_remote (nk_cipher nk)) (packet_writer s),
       strict_kex := n_strict_kex (nk_names nk)\<rparr>"

text \<open>Where a message goes: into the encrypted session's write buffer, else straight into the buffer of
  the packet writer.\<close>

definition push_common ::
    "wire \<Rightarrow> bytes rs list \<Rightarrow> ('st, 'z, 'm, 'c) common_session \<Rightarrow> ('st, 'z, 'm, 'c) common_session rs" where
  "push_common W es s =
     (case cs_encrypted s of
        Some enc \<Rightarrow> and_then (push_packet W es (enc_write enc)) (\<lambda>w. Ok (s\<lparr>cs_encrypted := Some (enc\<lparr>enc_write := w\<rparr>)\<rparr>))
      | None \<Rightarrow>
          let b = write_buffer (packet_writer s) in
          and_then (push_packet W es (buffer b)) (\<lambda>w.
            Ok (s\<lparr>packet_writer := (packet_writer s)\<lparr>write_buffer := b\<lparr>buffer := w\<rparr>\<rparr>\<rparr>)))"

definition common_disconnect ::
    "wire \<Rightarrow> disconnect_reason \<Rightarrow> string \<Rightarrow> string \<Rightarrow> ('st, 'z, 'm, 'c) common_session
      \<Rightarrow> ('st, 'z, 'm, 'c) common_session rs" where
  "common_disconnect W reason description language_tag s =
     (if disconnected s then Ok s
      else push_common W [w_u8 W DISCONNECT, w_u32 W (disconnect_code reason), w_str W description, w_str W language_tag]
             (s\<lparr>disconnected := True\<rparr>))"

definition common_debug ::
    "wire \<Rightarrow> bool \<Rightarrow> string \<Rightarrow> string \<Rightarrow> ('st, 'z, 'm, 'c) common_session \<Rightarrow> ('st, 'z, 'm, 'c) common_session rs" where
  "common_debug W always_display message language_tag s =
     push_common W [w_u8 W DEBUG, w_u8 W (bool_u8 always_display), w_str W message, w_str W language_tag] s"

definition common_reset_seqn :: "('st, 'z, 'm, 'c) common_session \<Rightarrow> ('st, 'z, 'm, 'c) common_session" where
  "common_reset_seqn s = s\<lparr>packet_writer := pw_reset_seqn (packet_writer s)\<rparr>"

section \<open>Channel messages\<close>

definition enc_push :: "wire \<Rightarrow> bytes rs list \<Rightarrow> 'z encrypted \<Rightarrow> 'z encrypted rs" where
  "enc_push W es enc = and_then (push_packet W es (enc_write enc)) (\<lambda>w. Ok (enc\<lparr>enc_write := w\<rparr>))"

definition enc_byte :: "wire \<Rightarrow> channel_id \<Rightarrow> u8 \<Rightarrow> 'z encrypted \<Rightarrow> 'z encrypted rs" where
  "enc_byte W c msg enc =
     (case channels enc c of
        None \<Rightarrow> Ok enc
      | Some ch \<Rightarrow> enc_push W [push msg, w_u32 W (recipient_channel ch)] enc)"

text \<open>\<open>has_pending_data_mut\<close>: the channel, where data is pending on it.\<close>

definition pending_channel :: "channel_id \<Rightarrow> 'z encrypted \<Rightarrow> channel_params option" where
  "pending_channel c enc =
     (case channels enc c of None \<Rightarrow> None | Some ch \<Rightarrow> if pending_data ch \<noteq> [] then Some ch else None)"

definition has_pending_data :: "channel_id \<Rightarrow> 'z encrypted \<Rightarrow> bool" where
  "has_pending_data c enc = (case channels enc c of Some ch \<Rightarrow> pending_data ch \<noteq> [] | None \<Rightarrow> False)"

definition enc_eof :: "wire \<Rightarrow> channel_id \<Rightarrow> 'z encrypted \<Rightarrow> 'z encrypted rs" where
  "enc_eof W c enc =
     (case pending_channel c enc of
        Some ch \<Rightarrow> Ok (enc\<lparr>channels := (channels enc)(c \<mapsto> ch\<lparr>pending_eof := True\<rparr>)\<rparr>)
      | None \<Rightarrow> enc_byte W c CHANNEL_EOF enc)"

definition enc_close :: "wire \<Rightarrow> channel_id \<Rightarrow> 'z encrypted \<Rightarrow> 'z encrypted rs" where
  "enc_close W c enc =
     (case pending_channel c enc of
        Some ch \<Rightarrow> Ok (enc\<lparr>channels := (channels enc)(c \<mapsto> ch\<lparr>pending_close := True\<rparr>)\<rparr>)
      | None \<Rightarrow> and_then (enc_byte W c CHANNEL_CLOSE enc) (\<lambda>enc. Ok (enc\<lparr>channels := (channels enc)(c := None)\<rparr>)))"

definition enc_sender_window_size :: "channel_id \<Rightarrow> 'z encrypted \<Rightarrow> nat" where
  "enc_sender_window_size c enc =
     (case channels enc c of Some ch \<Rightarrow> unat (sender_window_size ch) | None \<Rightarrow> 0)"

definition adjust_window_size :: "wire \<Rightarrow> channel_id \<Rightarrow> bytes \<Rightarrow> u32 \<Rightarrow> 'z encrypted \<Rightarrow> (bool \<times> 'z encrypted) rs" where
  "adjust_window_size W c data target enc =
     (case channels enc c of
        None \<Rightarrow> Ok (False, enc)
      | Some ch \<Rightarrow>
          let ch = (if as_u32 (length data) \<le> sender_window_size ch
                    then ch\<lparr>sender_window_size := sender_window_size ch - as_u32 (length data)\<rparr> else ch);
              enc = enc\<lparr>channels := (channels enc)(c \<mapsto> ch)\<rparr>
          in if sender_window_size ch < target div 2 then
               and_then (enc_push W [push CHANNEL_WINDOW_ADJUST, w_u32 W (recipient_channel ch),
                           w_u32 W (target - sender_window_size ch)] enc) (\<lambda>enc.
                 Ok (True, enc\<lparr>channels := (channels enc)(c \<mapsto> ch\<lparr>sender_window_size := target\<rparr>)\<rparr>))
             else Ok (False, enc))"

section \<open>Data\<close>

text \<open>The message of one chunk.\<close>

definition data_fields :: "wire \<Rightarrow> channel_params \<Rightarrow> u32 option \<Rightarrow> bytes \<Rightarrow> bytes rs list" where
  "data_fields W ch a chunk =
     (case a of
        None \<Rightarrow> [push CHANNEL_DATA, w_u32 W (recipient_channel ch), w_bytes W chunk]
      | Some ext \<Rightarrow> [push CHANNEL_EXTENDED_DATA, w_u32 W (recipient_channel ch), w_u32 W ext, w_bytes W chunk])"

text \<open>The loop of \<open>data_noqueue\<close>. It takes \<open>min(buf.len(), maximum packet size)\<close> bytes at a time, so a
  maximum of zero keeps it running.\<close>

partial_function (option) send_chunks ::
    "wire \<Rightarrow> u32 option \<Rightarrow> bytes \<Rightarrow> bytes \<Rightarrow> channel_params \<Rightarrow> (bytes \<times> channel_params) rs option" where
  "send_chunks W a buf out ch =
     (if buf = [] then Some (Ok (out, ch))
      else
        let off = min (length buf) (unat (recipient_maximum_packet_size ch)) in
        (case push_packet W (data_fields W ch a (take off buf)) out of
           Ok out \<Rightarrow>
             send_chunks W a (drop off buf) out
               (ch\<lparr>recipient_window_size := recipient_window_size ch - as_u32 off\<rparr>)
         | Err e \<Rightarrow> Some (Err e) | Panic \<Rightarrow> Some Panic | Diverges \<Rightarrow> Some Diverges))"

text \<open>\<open>out\<close> is the write buffer; the result is what was written, as a length, the buffer and the channel.
  The comparison is made in \<open>u32\<close> and wraps in a release build.\<close>

definition data_noqueue ::
    "wire \<Rightarrow> bytes \<Rightarrow> u32 option \<Rightarrow> nat \<Rightarrow> bytes \<Rightarrow> channel_params \<Rightarrow> (nat \<times> bytes \<times> channel_params) rs" where
  "data_noqueue W buf0 a start out ch =
     (if length buf0 \<le> start then Ok (0, out, ch)
      else
        and_then (if as_u32 (length buf0) > as_u32 start + recipient_window_size ch
                  then slice start (start + unat (recipient_window_size ch)) buf0
                  else slice_from start buf0) (\<lambda>buf.
        and_then (and_then (or_diverge (send_chunks W a buf out ch)) (\<lambda>r. r)) (\<lambda>(out, ch).
          Ok (length buf, out, ch))))"

text \<open>\<open>data\<close> and \<open>extended_data\<close>, which differ in the stream \<open>a\<close> only. The assertion is a panic.\<close>

definition enc_send ::
    "wire \<Rightarrow> channel_id \<Rightarrow> u32 option \<Rightarrow> bytes \<Rightarrow> bool \<Rightarrow> 'z encrypted \<Rightarrow> 'z encrypted rs" where
  "enc_send W c a buf0 is_rekeying enc =
     (case channels enc c of
        None \<Rightarrow> Ok enc
      | Some ch \<Rightarrow>
          if \<not> confirmed ch then Panic
          else if pending_data ch \<noteq> [] \<and> is_rekeying then
            Ok (enc\<lparr>channels := (channels enc)(c \<mapsto> ch\<lparr>pending_data := pending_data ch @ [(buf0, a, 0)]\<rparr>)\<rparr>)
          else
            and_then (data_noqueue W buf0 a 0 (enc_write enc) ch) (\<lambda>(buf_len, out, ch).
              let ch = (if buf_len < length buf0
                        then ch\<lparr>pending_data := pending_data ch @ [(buf0, a, buf_len)]\<rparr> else ch)
              in Ok (enc\<lparr>enc_write := out, channels := (channels enc)(c \<mapsto> ch)\<rparr>)))"

definition enc_data :: "wire \<Rightarrow> channel_id \<Rightarrow> bytes \<Rightarrow> bool \<Rightarrow> 'z encrypted \<Rightarrow> 'z encrypted rs" where
  "enc_data W c buf0 is_rekeying enc = enc_send W c None buf0 is_rekeying enc"

definition enc_extended_data :: "wire \<Rightarrow> channel_id \<Rightarrow> u32 \<Rightarrow> bytes \<Rightarrow> bool \<Rightarrow> 'z encrypted \<Rightarrow> 'z encrypted rs" where
  "enc_extended_data W c ext buf0 is_rekeying enc = enc_send W c (Some ext) buf0 is_rekeying enc"

section \<open>Flushing\<close>

datatype channel_flush_result =
    FlushIncomplete nat
  | FlushComplete nat bool bool \<comment> \<open>wrote, \<open>pending_eof\<close>, \<open>pending_close\<close>\<close>

fun flush_wrote :: "channel_flush_result \<Rightarrow> nat" where
  "flush_wrote (FlushIncomplete wrote) = wrote"
| "flush_wrote (FlushComplete wrote _ _) = wrote"

definition flush_complete :: "nat \<Rightarrow> channel_params \<Rightarrow> channel_flush_result" where
  "flush_complete wrote ch = FlushComplete wrote (pending_eof ch) (pending_close ch)"

text \<open>The loop pops the front of the queue; an item of which something is left goes back to the front.\<close>

fun flush_queue ::
    "wire \<Rightarrow> pending list \<Rightarrow> nat \<Rightarrow> bytes \<Rightarrow> channel_params
      \<Rightarrow> (channel_flush_result \<times> bytes \<times> channel_params) rs" where
  "flush_queue W [] pending_size out ch =
     (let ch = ch\<lparr>pending_data := []\<rparr> in Ok (flush_complete pending_size ch, out, ch))"
| "flush_queue W ((buf, a, start) # rest) pending_size out ch =
     and_then (data_noqueue W buf a start out ch) (\<lambda>(size, out, ch).
       let pending_size = pending_size + size in
       if start + size < length buf
       then Ok (FlushIncomplete pending_size, out, ch\<lparr>pending_data := (buf, a, start + size) # rest\<rparr>)
       else flush_queue W rest pending_size out ch)"

definition flush_channel ::
    "wire \<Rightarrow> bytes \<Rightarrow> channel_params \<Rightarrow> (channel_flush_result \<times> bytes \<times> channel_params) rs" where
  "flush_channel W out ch = flush_queue W (pending_data ch) 0 out ch"

fun handle_flushed_channel :: "wire \<Rightarrow> channel_id \<Rightarrow> channel_flush_result \<Rightarrow> 'z encrypted \<Rightarrow> 'z encrypted rs" where
  "handle_flushed_channel W c (FlushComplete _ eof clos) enc =
     and_then (if eof then enc_eof W c enc else Ok enc) (\<lambda>enc. if clos then enc_close W c enc else Ok enc)"
| "handle_flushed_channel W c (FlushIncomplete _) enc = Ok enc"

definition flush_pending :: "wire \<Rightarrow> channel_id \<Rightarrow> 'z encrypted \<Rightarrow> (nat \<times> 'z encrypted) rs" where
  "flush_pending W c enc =
     (case channels enc c of
        None \<Rightarrow> Ok (0, enc)
      | Some ch \<Rightarrow>
          and_then (flush_channel W (enc_write enc) ch) (\<lambda>(result, out, ch).
          and_then (handle_flushed_channel W c result (enc\<lparr>enc_write := out, channels := (channels enc)(c \<mapsto> ch)\<rparr>))
            (\<lambda>enc. Ok (flush_wrote result, enc))))"

text \<open>\<open>order\<close> is the order in which the hash map yields its values.\<close>

fun flush_all_pending :: "wire \<Rightarrow> channel_id list \<Rightarrow> 'z encrypted \<Rightarrow> 'z encrypted rs" where
  "flush_all_pending W [] enc = Ok enc"
| "flush_all_pending W (c # order) enc =
     (case channels enc c of
        None \<Rightarrow> flush_all_pending W order enc
      | Some ch \<Rightarrow>
          and_then (flush_channel W (enc_write enc) ch) (\<lambda>(result, out, ch).
            flush_all_pending W order (enc\<lparr>enc_write := out, channels := (channels enc)(c \<mapsto> ch)\<rparr>)))"

text \<open>The loop of \<open>flush\<close>: it seals one framed packet after the other.\<close>

function flush_loop ::
    "('st, 'z) crates \<Rightarrow> bytes \<Rightarrow> nat \<Rightarrow> ('st, 'z) packet_writer \<Rightarrow> (nat \<times> ('st, 'z) packet_writer) rs" where
  "flush_loop E out cursor w =
     (if cursor < length out then
        and_then (slice_from cursor out) (\<lambda>s.
        and_then (be_read_u32 (wire_of E) s) (\<lambda>n.
          let len = unat n in
          and_then (slice (cursor + 4) (cursor + 4 + len) out) (\<lambda>to_write.
          and_then (packet_raw E to_write w) (\<lambda>w. flush_loop E out (cursor + (4 + len)) w))))
      else Ok (cursor, w))"
  by pat_completeness auto
termination
  by (relation "measure (\<lambda>(E, out, cursor, w). length out - cursor)") auto

declare flush_loop.simps [simp del]

definition enc_flush ::
    "('st, 'z) crates \<Rightarrow> limits \<Rightarrow> nat \<Rightarrow> ('st, 'z) packet_writer \<Rightarrow> 'z encrypted
      \<Rightarrow> (bool \<times> ('st, 'z) packet_writer \<times> 'z encrypted) rs" where
  "enc_flush E lim now w enc =
     and_then (flush_loop E (enc_write enc) (write_cursor enc) w) (\<lambda>(cursor, w).
       let enc = (if length (enc_write enc) \<le> cursor then enc\<lparr>write_cursor := 0, enc_write := []\<rparr>
                  else enc\<lparr>write_cursor := cursor\<rparr>)
       in if skip_exchange (enc_kex enc) then Ok (False, w, enc)
          else Ok (rekey_wanted enc \<or> rekey_write_limit lim \<le> sent_bytes (write_buffer w)
                     \<or> rekey_time_limit lim \<le> now - last_rekey enc,
                   w, enc\<lparr>rekey_wanted := False\<rparr>))"

section \<open>New channels\<close>

text \<open>The search for a free number runs on while the numbers it meets are taken.\<close>

partial_function (option) free_id :: "(channel_id \<rightharpoonup> channel_params) \<Rightarrow> u32 \<Rightarrow> u32 option" where
  "free_id chs n = (if chs (ChannelId n) \<noteq> None then free_id chs (n + 1) else Some n)"

definition new_channel_id :: "'z encrypted \<Rightarrow> (channel_id \<times> 'z encrypted) rs" where
  "new_channel_id enc =
     and_then (or_diverge (free_id (channels enc) (last_channel_id enc + 1))) (\<lambda>n.
       Ok (ChannelId n, enc\<lparr>last_channel_id := n\<rparr>))"

definition new_channel :: "u32 \<Rightarrow> u32 \<Rightarrow> 'z encrypted \<Rightarrow> (channel_id \<times> 'z encrypted) rs" where
  "new_channel window_size maxpacket enc =
     and_then (or_diverge (free_id (channels enc) (last_channel_id enc + 1))) (\<lambda>n.
       let c = ChannelId n in
       Ok (c, enc\<lparr>last_channel_id := n, channels := (channels enc)(c \<mapsto> \<lparr>
         recipient_channel = 0, sender_channel = c, recipient_window_size = 0,
         sender_window_size = window_size, recipient_maximum_packet_size = 0,
         sender_maximum_packet_size = maxpacket, confirmed = False, chan_wants_reply = False,
         pending_data = [], pending_eof = False, pending_close = False\<rparr>)\<rparr>))"

text \<open>A flush changes the write buffer and the wish for new keys, nothing else.\<close>

lemma enc_flush_changes:
  assumes "enc_flush E lim now w enc = Ok (due, w', enc')"
  obtains out c wanted where "enc' = enc\<lparr>enc_write := out, write_cursor := c, rekey_wanted := wanted\<rparr>"
proof -
  from assms obtain cursor w1 where r:
    "(let e = (if length (enc_write enc) \<le> cursor then enc\<lparr>write_cursor := 0, enc_write := []\<rparr> else enc\<lparr>write_cursor := cursor\<rparr>)
      in if skip_exchange (enc_kex e) then Ok (False, w1, e)
         else Ok (rekey_wanted e \<or> rekey_write_limit lim \<le> sent_bytes (write_buffer w1)
                    \<or> rekey_time_limit lim \<le> now - last_rekey e,
                  w1, e\<lparr>rekey_wanted := False\<rparr>)) = Ok (due, w', enc')"
    unfolding enc_flush_def and_then_eq_Ok by (elim exE conjE) (simp only: split_beta)
  define e where "e = (if length (enc_write enc) \<le> cursor then enc\<lparr>write_cursor := 0, enc_write := []\<rparr>
    else enc\<lparr>write_cursor := cursor\<rparr>)"
  have "e = enc\<lparr>enc_write := enc_write e, write_cursor := write_cursor e, rekey_wanted := rekey_wanted enc\<rparr>"
    by (simp add: e_def)
  then have 1: "e = enc\<lparr>enc_write := enc_write e, write_cursor := write_cursor e, rekey_wanted := rekey_wanted enc\<rparr>" .
  then have 2: "e\<lparr>rekey_wanted := False\<rparr> = enc\<lparr>enc_write := enc_write e, write_cursor := write_cursor e, rekey_wanted := False\<rparr>"
    by (cases "length (enc_write enc) \<le> cursor") (simp_all add: e_def)
  have "enc' = e \<or> enc' = e\<lparr>rekey_wanted := False\<rparr>"
    using r unfolding Let_def e_def [symmetric] by (cases "skip_exchange (enc_kex e)") auto
  then show ?thesis
  proof
    assume "enc' = e"
    with 1 show ?thesis using that by metis
  next
    assume "enc' = e\<lparr>rekey_wanted := False\<rparr>"
    with 2 show ?thesis using that by metis
  qed
qed

end
