(* ===== verification/FlowControl.thy ===== *)
theory FlowControl
  imports Session
begin

text \<open>
  What the session does with the data of a channel. The abstract view of a channel is a queue of bytes,
  each with its stream, and a credit, the window that the peer has granted: sending appends to the queue,
  and the queue's front is emitted up to the credit. The lemmas show that \<open>data\<close>, \<open>extended_data\<close> and
  \<open>flush_channel\<close> implement this view, and what they write; the properties follow, together with the
  inputs on which the code departs from it.
\<close>

section \<open>Packets of data\<close>

function chunks :: "nat \<Rightarrow> bytes \<Rightarrow> bytes list" where
  "chunks n s = (if s = [] \<or> n = 0 then [] else take n s # chunks n (drop n s))"
  by pat_completeness auto
termination by (relation "measure (\<lambda>(n, s). length s)") auto

declare chunks.simps [simp del]

lemma chunks_Nil [simp]: "chunks n [] = []"
  by (simp add: chunks.simps)

lemma data_chunks_step: "s \<noteq> [] \<Longrightarrow> 0 < n \<Longrightarrow> chunks n s = take n s # chunks n (drop n s)"
  by (simp add: chunks.simps [of n s])

lemma concat_chunks: "0 < n \<Longrightarrow> concat (chunks n s) = s"
  by (induction n s rule: chunks.induct) (subst chunks.simps, auto)

lemma chunks_bounds: "0 < n \<Longrightarrow> c \<in> set (chunks n s) \<Longrightarrow> c \<noteq> [] \<and> length c \<le> n"
proof (induction n s rule: chunks.induct)
  case (1 n s)
  then show ?case by (cases "s = []") (auto simp: data_chunks_step)
qed

definition data_payload :: "wire \<Rightarrow> u32 \<Rightarrow> u32 option \<times> bytes \<Rightarrow> bytes" where
  "data_payload W rc p =
     (case p of
        (None, chunk) \<Rightarrow> CHANNEL_DATA # be_put W rc @ be_put W (as_u32 (length chunk)) @ chunk
      | (Some ext, chunk) \<Rightarrow>
          CHANNEL_EXTENDED_DATA # be_put W rc @ be_put W ext @ be_put W (as_u32 (length chunk)) @ chunk)"

lemma push_data:
  assumes "ssh_wire W" "length chunk < 2 ^ 32"
  shows "push_packet W (data_fields W ch a chunk) out = Ok (out @ frame W (data_payload W (recipient_channel ch) (a, chunk)))"
  by (rule ssh_wire.push_packet_frame [OF assms(1)])
    (use assms in \<open>simp add: data_fields_def data_payload_def ssh_wire.put_u32 ssh_wire.put_bytes split: option.split\<close>)

abbreviation max_packet :: "channel_params \<Rightarrow> nat" where "max_packet ch \<equiv> unat (recipient_maximum_packet_size ch)"
abbreviation credit :: "channel_params \<Rightarrow> nat" where "credit ch \<equiv> unat (recipient_window_size ch)"

text \<open>The loop writes the chunks and takes their length off the window.\<close>

lemma send_chunks_eq:
  assumes W: "ssh_wire W" and "0 < max_packet ch"
  shows "send_chunks W a buf out ch = Some (Ok
     (out @ frames W (map (\<lambda>c. data_payload W (recipient_channel ch) (a, c)) (chunks (max_packet ch) buf)),
      ch\<lparr>recipient_window_size := recipient_window_size ch - as_u32 (length buf)\<rparr>))"
  using assms(2)
proof (induction buf arbitrary: out ch rule: length_induct)
  case (1 buf)
  show ?case
  proof (cases "buf = []")
    case True
    then show ?thesis by (subst send_chunks.simps) simp
  next
    case False
    let ?off = "min (length buf) (max_packet ch)"
    let ?ch = "ch\<lparr>recipient_window_size := recipient_window_size ch - as_u32 ?off\<rparr>"
    have off: "length (take ?off buf) < 2 ^ 32" "0 < ?off" "?off \<le> length buf"
      using False 1(2) unat_u32_lt [of "recipient_maximum_packet_size ch"] by auto
    have w: "recipient_window_size ch - as_u32 ?off - as_u32 (length buf - ?off) = recipient_window_size ch - as_u32 (length buf)"
      using off by (simp add: of_nat_diff del: of_nat_min)
    have t: "take ?off buf = take (max_packet ch) buf" "drop ?off buf = drop (max_packet ch) buf"
      by (auto simp: min_def)
    have "send_chunks W a buf out ch = send_chunks W a (drop ?off buf)
        (out @ frame W (data_payload W (recipient_channel ch) (a, take ?off buf))) ?ch"
      using False push_data [OF W off(1), of ch a out] by (subst send_chunks.simps) (simp add: Let_def)
    also have "\<dots> = Some (Ok (out @ frame W (data_payload W (recipient_channel ch) (a, take ?off buf))
        @ frames W (map (\<lambda>c. data_payload W (recipient_channel ch) (a, c)) (chunks (max_packet ch) (drop ?off buf))),
        ch\<lparr>recipient_window_size := recipient_window_size ch - as_u32 (length buf)\<rparr>))"
    proof -
      have l: "length (drop ?off buf) < length buf" using off by simp
      have m: "0 < max_packet ?ch" using 1(2) by simp
      show ?thesis using 1(1) [rule_format, OF l m] w by simp
    qed
    finally show ?thesis
      using False 1(2) by (simp add: data_chunks_step t)
  qed
qed

text \<open>With a maximum of zero it never leaves.\<close>

lemma send_chunks_runs:
  "send_chunks W a buf out ch = Some y \<Longrightarrow> ssh_wire W \<longrightarrow> max_packet ch = 0 \<longrightarrow> buf = []"
proof (erule send_chunks.raw_induct [rotated])
  fix send W a buf out ch y
  assume IH: "\<And>W a buf out ch y. send W a buf out ch = Some y \<Longrightarrow> ssh_wire W \<longrightarrow> max_packet ch = 0 \<longrightarrow> buf = []"
    and run: "(if buf = [] then Some (Ok (out, ch))
      else let off = min (length buf) (max_packet ch)
           in case push_packet W (data_fields W ch a (take off buf)) out of
                Ok out \<Rightarrow> send W a (drop off buf) out
                  (ch\<lparr>recipient_window_size := recipient_window_size ch - as_u32 off\<rparr>)
              | Err e \<Rightarrow> Some (Err e) | Panic \<Rightarrow> Some Panic | Diverges \<Rightarrow> Some Diverges) = Some y"
  show "ssh_wire W \<longrightarrow> max_packet ch = 0 \<longrightarrow> buf = []"
  proof (intro impI, rule ccontr)
    assume "ssh_wire W" and m: "max_packet ch = 0" and "buf \<noteq> []"
    then have "send W a buf (out @ frame W (data_payload W (recipient_channel ch) (a, []))) ch = Some y"
      using run push_data [of W "[]" ch a out] by (simp add: Let_def)
    from IH [OF this] \<open>ssh_wire W\<close> m \<open>buf \<noteq> []\<close> show False by simp
  qed
qed

lemma send_chunks_stuck:
  "ssh_wire W \<Longrightarrow> max_packet ch = 0 \<Longrightarrow> buf \<noteq> [] \<Longrightarrow> send_chunks W a buf out ch = None"
  using send_chunks_runs [of W a buf out ch] by (cases "send_chunks W a buf out ch") auto

section \<open>\<open>data_noqueue\<close>\<close>

text \<open>The window leaves room for the offset: the comparison in \<open>u32\<close> is then the one that was meant.\<close>

definition fits :: "nat \<Rightarrow> bytes \<Rightarrow> channel_params \<Rightarrow> bool" where
  "fits start buf ch \<longleftrightarrow> length buf < 2 ^ 32 \<and> start + credit ch < 2 ^ 32"

definition data_frames :: "wire \<Rightarrow> u32 option \<Rightarrow> channel_params \<Rightarrow> bytes \<Rightarrow> bytes" where
  "data_frames W a ch s =
     frames W (map (\<lambda>c. data_payload W (recipient_channel ch) (a, c)) (chunks (max_packet ch) s))"

lemma data_frames_Nil [simp]: "data_frames W a ch [] = []"
  by (simp add: data_frames_def)

lemma window_slice:
  assumes "fits start buf ch" "start < length buf"
  shows "(if as_u32 (length buf) > as_u32 start + recipient_window_size ch
          then slice start (start + credit ch) buf else slice_from start buf)
    = Ok (take (credit ch) (drop start buf))"
proof -
  have u: "unat (as_u32 start + recipient_window_size ch) = start + credit ch"
    using assms by (simp add: fits_def unat_word_ariths)
  have "as_u32 (length buf) > as_u32 start + recipient_window_size ch \<longleftrightarrow> start + credit ch < length buf"
    using assms by (simp add: word_less_nat_alt u fits_def)
  then show ?thesis
    using assms(2) by (auto simp: slice_def slice_from_def)
qed

lemma data_noqueue_eq:
  assumes W: "ssh_wire W" and "0 < max_packet ch" "fits start buf ch"
  shows "data_noqueue W buf a start out ch =
    (let s = take (credit ch) (drop start buf)
     in Ok (length s, out @ data_frames W a ch s,
            ch\<lparr>recipient_window_size := recipient_window_size ch - as_u32 (length s)\<rparr>))"
proof (cases "length buf \<le> start")
  case True
  then show ?thesis by (simp add: data_noqueue_def Let_def)
next
  case False
  then show ?thesis
    using window_slice [OF assms(3)] send_chunks_eq [OF W assms(2)]
    by (simp add: data_noqueue_def Let_def data_frames_def)
qed

lemma credit_after:
  "length s \<le> credit ch \<Longrightarrow>
    unat (recipient_window_size ch - as_u32 (length s)) = credit ch - length s"
  using unat_u32_lt [of "recipient_window_size ch"] by (simp add: unat_sub_if_size word_size)

section \<open>The queue of a channel\<close>

type_synonym tagged = "u32 option \<times> u8"

definition tagged :: "u32 option \<Rightarrow> bytes \<Rightarrow> tagged list" where
  "tagged a s = map (Pair a) s"

definition queued_items :: "pending list \<Rightarrow> tagged list" where
  "queued_items q = concat (map (\<lambda>(buf, a, start). tagged a (drop start buf)) q)"

definition queued :: "channel_params \<Rightarrow> tagged list" where
  "queued ch = queued_items (pending_data ch)"

lemma tagged_simps [simp]:
  "tagged a [] = []" "length (tagged a s) = length s" "tagged a (s @ t) = tagged a s @ tagged a t"
  "take n (tagged a s) = tagged a (take n s)" "drop n (tagged a s) = tagged a (drop n s)"
  by (simp_all add: tagged_def take_map drop_map)

lemma queued_items_simps [simp]:
  "queued_items [] = []" "queued_items ((buf, a, start) # q) = tagged a (drop start buf) @ queued_items q"
  "queued_items (q @ r) = queued_items q @ queued_items r"
  by (simp_all add: queued_items_def)

text \<open>What a run of data packets, each with its stream, carries and how it is written.\<close>

definition payload_bytes :: "(u32 option \<times> bytes) list \<Rightarrow> tagged list" where
  "payload_bytes ps = concat (map (\<lambda>(a, c). tagged a c) ps)"

definition sent_as :: "wire \<Rightarrow> channel_params \<Rightarrow> (u32 option \<times> bytes) list \<Rightarrow> bytes" where
  "sent_as W ch ps = frames W (map (data_payload W (recipient_channel ch)) ps)"

definition packets_ok :: "channel_params \<Rightarrow> (u32 option \<times> bytes) list \<Rightarrow> bool" where
  "packets_ok ch ps \<longleftrightarrow> (\<forall>(a, c) \<in> set ps. c \<noteq> [] \<and> length c \<le> max_packet ch)"

lemma payload_simps [simp]:
  "payload_bytes [] = []" "payload_bytes (ps @ qs) = payload_bytes ps @ payload_bytes qs"
  "sent_as W ch [] = []" "sent_as W ch (ps @ qs) = sent_as W ch ps @ sent_as W ch qs"
  "packets_ok ch []" "packets_ok ch (ps @ qs) \<longleftrightarrow> packets_ok ch ps \<and> packets_ok ch qs"
  by (auto simp: payload_bytes_def sent_as_def packets_ok_def)

definition chunk_packets :: "u32 option \<Rightarrow> channel_params \<Rightarrow> bytes \<Rightarrow> (u32 option \<times> bytes) list" where
  "chunk_packets a ch s = map (Pair a) (chunks (max_packet ch) s)"

lemma chunk_packets:
  assumes "0 < max_packet ch"
  shows "payload_bytes (chunk_packets a ch s) = tagged a s" "packets_ok ch (chunk_packets a ch s)"
    "sent_as W ch (chunk_packets a ch s) = data_frames W a ch s"
proof -
  have "concat (map (tagged a) cs) = tagged a (concat cs)" for cs by (induction cs) simp_all
  then show "payload_bytes (chunk_packets a ch s) = tagged a s"
    using concat_chunks [OF assms, of s] by (simp add: payload_bytes_def chunk_packets_def comp_def)
  show "packets_ok ch (chunk_packets a ch s)"
    using chunks_bounds [OF assms] by (auto simp: packets_ok_def chunk_packets_def)
  show "sent_as W ch (chunk_packets a ch s) = data_frames W a ch s"
    by (simp add: sent_as_def chunk_packets_def data_frames_def comp_def)
qed

text \<open>The abstract step: the queue's front is emitted up to the credit.\<close>

definition emits :: "wire \<Rightarrow> tagged list \<Rightarrow> channel_params \<Rightarrow> bytes \<Rightarrow> channel_params \<Rightarrow> bytes \<Rightarrow> bool" where
  "emits W q ch out ch' out' \<longleftrightarrow>
     (\<exists>ps. out' = out @ sent_as W ch ps \<and> packets_ok ch ps
        \<and> payload_bytes ps = take (credit ch) q
        \<and> queued ch' = drop (credit ch) q
        \<and> credit ch' = credit ch - length (payload_bytes ps)
        \<and> (pending_data ch' \<noteq> [] \<longrightarrow> credit ch' = 0)
        \<and> recipient_channel ch' = recipient_channel ch
        \<and> recipient_maximum_packet_size ch' = recipient_maximum_packet_size ch
        \<and> pending_eof ch' = pending_eof ch \<and> pending_close ch' = pending_close ch
        \<and> confirmed ch' = confirmed ch \<and> sender_window_size ch' = sender_window_size ch)"


definition queue_fits :: "channel_params \<Rightarrow> pending list \<Rightarrow> bool" where
  "queue_fits ch q \<longleftrightarrow> (\<forall>(buf, a, start) \<in> set q. fits start buf ch)"

lemma queue_fits_less:
  "queue_fits ch q \<Longrightarrow> credit ch' \<le> credit ch \<Longrightarrow> queue_fits ch' q"
  by (fastforce simp: queue_fits_def fits_def)

lemma window_irrelevant [simp]:
  "sent_as W (ch\<lparr>recipient_window_size := w\<rparr>) ps = sent_as W ch ps"
  "packets_ok (ch\<lparr>recipient_window_size := w\<rparr>) ps = packets_ok ch ps"
  by (simp_all add: sent_as_def packets_ok_def)

text \<open>One item that is sent to its end, before the rest of the queue.\<close>

lemma emits_item:
  assumes "0 < max_packet ch" "length s \<le> credit ch"
    and "emits W q (ch\<lparr>recipient_window_size := recipient_window_size ch - as_u32 (length s)\<rparr>)
      (out @ data_frames W a ch s) ch' out'"
  shows "emits W (tagged a s @ q) ch out ch' out'"
proof -
  let ?ch = "ch\<lparr>recipient_window_size := recipient_window_size ch - as_u32 (length s)\<rparr>"
  note c = credit_after [OF assms(2)] chunk_packets [OF assms(1), where a = a and s = s]
  show ?thesis
    using assms(3) unfolding emits_def
    apply (elim exE)
    subgoal for ps
      by (rule exI [of _ "chunk_packets a ch s @ ps"]) (use c assms(2) in \<open>auto simp: add.assoc\<close>)
    done
qed

text \<open>One item of which a part remains.\<close>

lemma emits_part:
  assumes "0 < max_packet ch" "credit ch < length (drop start buf)"
  shows "emits W (tagged a (drop start buf) @ queued_items q) ch out
    (ch\<lparr>recipient_window_size := recipient_window_size ch - as_u32 (credit ch),
        pending_data := (buf, a, start + credit ch) # q\<rparr>)
    (out @ data_frames W a ch (take (credit ch) (drop start buf)))"
proof -
  note c = chunk_packets [OF assms(1), where a = a and s = "take (credit ch) (drop start buf)"]
  have z: "recipient_window_size ch - as_u32 (credit ch) = 0" by simp
  show ?thesis
    unfolding emits_def
    by (rule exI [of _ "chunk_packets a ch (take (credit ch) (drop start buf))"])
      (use c assms(2) in \<open>simp add: z queued_def add.commute\<close>)
qed

fun is_complete :: "channel_flush_result \<Rightarrow> bool" where
  "is_complete (FlushComplete w e c) = True"
| "is_complete (FlushIncomplete w) = False"

definition flush_reports :: "channel_flush_result \<Rightarrow> nat \<Rightarrow> channel_params \<Rightarrow> bool" where
  "flush_reports res n ch' \<longleftrightarrow> flush_wrote res = n
     \<and> (if pending_data ch' = [] then res = flush_complete n ch' else res = FlushIncomplete n)"

lemma flush_queue_emits:
  assumes W: "ssh_wire W"
  shows "0 < max_packet ch \<Longrightarrow> queue_fits ch q \<Longrightarrow>
    \<exists>res out' ch'. flush_queue W q n out ch = Ok (res, out', ch') \<and> emits W (queued_items q) ch out ch' out'
      \<and> flush_reports res (n + min (credit ch) (length (queued_items q))) ch'"
proof (induction q arbitrary: n out ch)
  case Nil
  have "emits W [] ch out (ch\<lparr>pending_data := []\<rparr>) out"
    unfolding emits_def by (rule exI [of _ "[]"]) (simp add: queued_def)
  then show ?case by (simp add: Let_def flush_reports_def flush_complete_def)
next
  case (Cons item q)
  obtain buf a start where item: "item = (buf, a, start)" by (cases item)
  have f: "fits start buf ch" and fq: "queue_fits ch q"
    using Cons.prems(2) by (auto simp: queue_fits_def item)
  let ?s = "take (credit ch) (drop start buf)"
  let ?ch = "ch\<lparr>recipient_window_size := recipient_window_size ch - as_u32 (length ?s)\<rparr>"
  note d = data_noqueue_eq [OF W Cons.prems(1) f, of a out]
  show ?case
  proof (cases "credit ch < length (drop start buf)")
    case True
    then have s: "length ?s = credit ch" "start + credit ch < length buf" by auto
    show ?thesis
      using d True s emits_part [OF Cons.prems(1) True, of W a q out]
      by (auto simp: item Let_def flush_reports_def min_def)
  next
    case False
    then have s: "?s = drop start buf" "\<not> start + length (drop start buf) < length buf" by auto
    have m: "0 < max_packet ?ch" using Cons.prems(1) by simp
    have le: "length (drop start buf) \<le> credit ch" using False by simp
    have q: "queue_fits ?ch q"
      by (rule queue_fits_less [OF fq]) (use credit_after [OF le] in \<open>simp add: s\<close>)
    from Cons.IH [OF m q, of "n + length ?s" "out @ data_frames W a ch ?s"] obtain res out' ch' where
      r: "flush_queue W q (n + length ?s) (out @ data_frames W a ch ?s) ?ch = Ok (res, out', ch')"
        "emits W (queued_items q) ?ch (out @ data_frames W a ch ?s) ch' out'"
        "flush_reports res (n + length ?s + min (credit ?ch) (length (queued_items q))) ch'"
      by blast
    have e: "emits W (tagged a (drop start buf) @ queued_items q) ch out ch' out'"
      by (rule emits_item [OF Cons.prems(1) le]) (use r(2) in \<open>simp add: s\<close>)
    have len: "n + length ?s + min (credit ?ch) (length (queued_items q))
        = n + min (credit ch) (length (tagged a (drop start buf) @ queued_items q))"
      using credit_after [OF le] le by (simp add: s min_def) arith
    have "flush_queue W (item # q) n out ch = Ok (res, out', ch')"
      using r(1) d s by (simp add: item Let_def)
    then show ?thesis
      using e r(3) [unfolded len] by (auto simp: item)
  qed
qed

lemma flush_channel_emits:
  assumes "ssh_wire W" "0 < max_packet ch" "queue_fits ch (pending_data ch)"
  shows "\<exists>res out' ch'. flush_channel W out ch = Ok (res, out', ch') \<and> emits W (queued ch) ch out ch' out'
    \<and> flush_reports res (min (credit ch) (length (queued ch))) ch'"
  using flush_queue_emits [OF assms, of 0 out] by (simp add: flush_channel_def queued_def)

text \<open>The invariant between the operations: data waits only where the credit is used up.\<close>

definition flow_inv :: "channel_params \<Rightarrow> bool" where
  "flow_inv ch \<longleftrightarrow> 0 < max_packet ch \<and> (pending_data ch \<noteq> [] \<longrightarrow> credit ch = 0)
     \<and> (\<forall>(buf, a, start) \<in> set (pending_data ch). length buf < 2 ^ 31 \<and> start \<le> length buf)"

lemma flow_inv_fits: "flow_inv ch \<Longrightarrow> queue_fits ch (pending_data ch)"
  using unat_u32_lt [of "recipient_window_size ch"] by (fastforce simp: flow_inv_def queue_fits_def fits_def)

lemma enc_send_emits:
  assumes W: "ssh_wire W" and "channels enc c = Some ch" "confirmed ch" "flow_inv ch" "length buf0 < 2 ^ 31"
  shows "\<exists>enc' ch'. enc_send W c a buf0 rk enc = Ok enc' \<and> channels enc' = (channels enc)(c \<mapsto> ch')
    \<and> emits W (queued ch @ tagged a buf0) ch (enc_write enc) ch' (enc_write enc') \<and> flow_inv ch'"
proof (cases "pending_data ch = []")
  case False
  with assms have z: "credit ch = 0" "recipient_window_size ch = 0" "0 < max_packet ch"
    by (auto simp: flow_inv_def unat_eq_0)
  let ?ch = "ch\<lparr>pending_data := pending_data ch @ [(buf0, a, 0)]\<rparr>"
  have e: "emits W (queued ch @ tagged a buf0) ch (enc_write enc) ?ch (enc_write enc)"
    unfolding emits_def by (rule exI [of _ "[]"]) (simp add: z queued_def)
  have e0: "emits W (queued ch) ch (enc_write enc) ch (enc_write enc)"
    unfolding emits_def by (rule exI [of _ "[]"]) (simp add: z)
  have i: "flow_inv ?ch" using assms(4,5) z by (auto simp: flow_inv_def)
  have f: "fits 0 buf0 ch" using assms(5) z by (simp add: fits_def)
  have n: "data_noqueue W buf0 a 0 (enc_write enc) ch = Ok (0, enc_write enc, ch)"
    using data_noqueue_eq [OF W z(3) f, of a "enc_write enc"] z by simp
  show ?thesis
    using False assms(2,3,4) n e e0 i by (auto simp: enc_send_def Let_def)
next
  case True
  have m: "0 < max_packet ch" using assms(4) by (simp add: flow_inv_def)
  have f: "fits 0 buf0 ch" using assms(5) unat_u32_lt [of "recipient_window_size ch"] by (simp add: fits_def)
  note d = data_noqueue_eq [OF W m f, of a "enc_write enc"]
  show ?thesis
  proof (cases "credit ch < length buf0")
    case less: True
    let ?ch = "ch\<lparr>recipient_window_size := recipient_window_size ch - as_u32 (credit ch),
      pending_data := [(buf0, a, credit ch)]\<rparr>"
    have i: "flow_inv ?ch" using m assms(5) less by (simp add: flow_inv_def)
    from emits_part [OF m, of 0 buf0 W a "[]" "enc_write enc"] less
    have "emits W (queued ch @ tagged a buf0) ch (enc_write enc) ?ch
        (enc_write enc @ data_frames W a ch (take (credit ch) buf0))"
      using True by (simp add: queued_def)
    then show ?thesis
      using True less assms(2,3) d i by (auto simp: enc_send_def Let_def)
  next
    case False
    then have le: "length buf0 \<le> credit ch" by simp
    let ?ch = "ch\<lparr>recipient_window_size := recipient_window_size ch - as_u32 (length buf0)\<rparr>"
    have i: "flow_inv ?ch" using m True by (simp add: flow_inv_def)
    have "emits W [] ?ch (enc_write enc @ data_frames W a ch buf0) ?ch (enc_write enc @ data_frames W a ch buf0)"
      unfolding emits_def by (rule exI [of _ "[]"]) (simp add: queued_def True)
    from emits_item [OF m le this]
    have "emits W (queued ch @ tagged a buf0) ch (enc_write enc) ?ch (enc_write enc @ data_frames W a ch buf0)"
      using True by (simp add: queued_def)
    then show ?thesis
      using True False le assms(2,3) d i by (auto simp: enc_send_def Let_def)
  qed
qed

section \<open>Granting credit\<close>

text \<open>The handlers of \<open>CHANNEL_WINDOW_ADJUST\<close> add to the window, saturating, and flush the channel. What
  they then tell the channel's user differs: the client takes the bytes just written off, the server does
  not (\<open>channel_window_adjust\<close>, in \<open>server/encrypted.rs\<close> and \<open>client/encrypted.rs\<close>).\<close>

definition server_window_adjust ::
    "wire \<Rightarrow> channel_id \<Rightarrow> u32 \<Rightarrow> 'z encrypted \<Rightarrow> (u32 option \<times> 'z encrypted) rs" where
  "server_window_adjust W c amount enc =
     (case channels enc c of
        None \<Rightarrow> Ok (None, enc)
      | Some ch \<Rightarrow>
          let new_size = saturating_add_u32 (recipient_window_size ch) amount in
          and_then (flush_pending W c (enc\<lparr>channels := (channels enc)(c \<mapsto> ch\<lparr>recipient_window_size := new_size\<rparr>)\<rparr>))
            (\<lambda>(n, enc). Ok (Some new_size, enc)))"

definition client_window_adjust ::
    "wire \<Rightarrow> channel_id \<Rightarrow> u32 \<Rightarrow> 'z encrypted \<Rightarrow> (u32 option \<times> 'z encrypted) rs" where
  "client_window_adjust W c amount enc =
     (case channels enc c of
        None \<Rightarrow> Ok (None, enc)
      | Some ch \<Rightarrow>
          let new_size = saturating_add_u32 (recipient_window_size ch) amount in
          and_then (flush_pending W c (enc\<lparr>channels := (channels enc)(c \<mapsto> ch\<lparr>recipient_window_size := new_size\<rparr>)\<rparr>))
            (\<lambda>(n, enc). Ok (Some (new_size - as_u32 n), enc)))"

text \<open>Flushing leaves items that were queued, the first from a later offset.\<close>

definition items_ok :: "pending list \<Rightarrow> bool" where
  "items_ok q \<longleftrightarrow> (\<forall>(buf, a, start) \<in> set q. length buf < 2 ^ 31 \<and> start \<le> length buf)"

lemma flush_queue_items:
  "flush_queue W q n out ch = Ok (res, out', ch') \<Longrightarrow> items_ok q \<Longrightarrow> items_ok (pending_data ch')"
proof (induction q arbitrary: n out ch)
  case Nil
  then show ?case by (auto simp: items_ok_def Let_def)
next
  case (Cons item q)
  obtain buf a start where item: "item = (buf, a, start)" by (cases item)
  have q: "items_ok q" "length buf < 2 ^ 31" using Cons.prems(2) by (auto simp: items_ok_def item)
  from Cons.prems(1) obtain size o1 c1 where d: "data_noqueue W buf a start out ch = Ok (size, o1, c1)"
    by (auto simp: item outcome_simps)
  show ?case
  proof (cases "start + size < length buf")
    case True
    then show ?thesis using Cons.prems(1) d q by (auto simp: item items_ok_def)
  next
    case False
    then have "flush_queue W q (n + size) o1 c1 = Ok (res, out', ch')"
      using Cons.prems(1) d by (simp add: item)
    then show ?thesis by (rule Cons.IH) (rule q)
  qed
qed

lemma flow_inv_alt: "flow_inv ch \<longleftrightarrow> 0 < max_packet ch \<and> (pending_data ch \<noteq> [] \<longrightarrow> credit ch = 0) \<and> items_ok (pending_data ch)"
  by (simp add: flow_inv_def items_ok_def)

lemma items_fit: "items_ok q \<Longrightarrow> credit ch \<le> 2 ^ 31 \<Longrightarrow> queue_fits ch q"
  by (fastforce simp: items_ok_def queue_fits_def fits_def)

text \<open>A flush of the channel, whatever its credit.\<close>

lemma flush_channel_inv:
  assumes "ssh_wire W" "0 < max_packet ch" "items_ok (pending_data ch)" "credit ch \<le> 2 ^ 31"
  shows "\<exists>res out' ch'. flush_channel W out ch = Ok (res, out', ch') \<and> emits W (queued ch) ch out ch' out'
    \<and> flush_reports res (min (credit ch) (length (queued ch))) ch' \<and> flow_inv ch'"
proof -
  from flush_channel_emits [OF assms(1,2) items_fit [OF assms(3,4)], of out] obtain res out' ch' where
    f: "flush_channel W out ch = Ok (res, out', ch')" "emits W (queued ch) ch out ch' out'"
      "flush_reports res (min (credit ch) (length (queued ch))) ch'" by blast
  have "items_ok (pending_data ch')"
    using flush_queue_items f(1) assms(3) by (auto simp: flush_channel_def)
  then have "flow_inv ch'"
    using f(2) assms(2) by (auto simp: flow_inv_alt emits_def)
  with f show ?thesis by blast
qed

text \<open>What follows the data: the end of file and the close that had to wait for it.\<close>

definition after_data :: "wire \<Rightarrow> channel_params \<Rightarrow> bytes" where
  "after_data W ch =
     (if pending_data ch = [] then
        (if pending_eof ch then frame W (CHANNEL_EOF # be_put W (recipient_channel ch)) else [])
        @ (if pending_close ch then frame W (CHANNEL_CLOSE # be_put W (recipient_channel ch)) else [])
      else [])"

lemma push_byte:
  "ssh_wire W \<Longrightarrow> push_packet W [push m, w_u32 W x] out = Ok (out @ frame W (m # be_put W x))"
  by (rule ssh_wire.push_packet_frame) (simp_all add: ssh_wire.put_u32)

lemma enc_byte_eq:
  "ssh_wire W \<Longrightarrow> channels enc c = Some ch \<Longrightarrow>
    enc_byte W c m enc = Ok (enc\<lparr>enc_write := enc_write enc @ frame W (m # be_put W (recipient_channel ch))\<rparr>)"
  by (simp add: enc_byte_def enc_push_def push_byte)

lemma handle_flushed:
  assumes "ssh_wire W" "channels enc c = Some ch" "flush_reports res n ch"
  shows "handle_flushed_channel W c res enc = Ok (enc\<lparr>enc_write := enc_write enc @ after_data W ch,
    channels := (if pending_data ch = [] \<and> pending_close ch then (channels enc)(c := None) else channels enc)\<rparr>)"
  using assms
  by (cases "pending_data ch = []")
    (auto simp: flush_reports_def flush_complete_def after_data_def enc_eof_def enc_close_def pending_channel_def
      enc_byte_eq)

lemma flush_pending_eq:
  assumes "ssh_wire W" "channels enc c = Some ch"
    and "0 < max_packet ch" "items_ok (pending_data ch)" "credit ch \<le> 2 ^ 31"
  shows "\<exists>out' ch'. emits W (queued ch) ch (enc_write enc) ch' out' \<and> flow_inv ch'
    \<and> flush_pending W c enc = Ok (min (credit ch) (length (queued ch)),
        enc\<lparr>enc_write := out' @ after_data W ch', channels := (channels enc)
          (c := if pending_data ch' = [] \<and> pending_close ch' then None else Some ch')\<rparr>)"
proof -
  from flush_channel_inv [OF assms(1,3,4,5), of "enc_write enc"] obtain res out' ch' where
    f: "flush_channel W (enc_write enc) ch = Ok (res, out', ch')" "emits W (queued ch) ch (enc_write enc) ch' out'"
      "flush_reports res (min (credit ch) (length (queued ch))) ch'" "flow_inv ch'" by blast
  let ?enc = "enc\<lparr>enc_write := out', channels := (channels enc)(c \<mapsto> ch')\<rparr>"
  have h: "handle_flushed_channel W c res ?enc = Ok (?enc\<lparr>enc_write := enc_write ?enc @ after_data W ch',
    channels := (if pending_data ch' = [] \<and> pending_close ch' then (channels ?enc)(c := None) else channels ?enc)\<rparr>)"
    by (rule handle_flushed [OF assms(1) _ f(3)]) simp
  have "flush_wrote res = min (credit ch) (length (queued ch))"
    using f(3) by (simp add: flush_reports_def)
  then show ?thesis
    using f h assms(2) by (auto simp: flush_pending_def simp del: fun_upd_apply cong: if_cong)
qed

section \<open>Runs of one channel\<close>

text \<open>Any sequence of sends and grants on a channel: \<open>g\<close> is the credit granted so far, \<open>s\<close> the bytes sent
  so far. The peer keeps the window within 2 GiB.\<close>

inductive channel_run :: "wire \<Rightarrow> channel_id \<Rightarrow> 'z encrypted \<Rightarrow> nat \<Rightarrow> tagged list \<Rightarrow> 'z encrypted \<Rightarrow> bool"
  for W c enc0 where
  opened: "channel_run W c enc0 0 [] enc0"
| sent: "channel_run W c enc0 g s enc \<Longrightarrow> length buf < 2 ^ 31 \<Longrightarrow> enc_send W c a buf rk enc = Ok enc'
    \<Longrightarrow> channel_run W c enc0 g (s @ tagged a buf) enc'"
| granted: "channel_run W c enc0 g s enc \<Longrightarrow> channels enc c = Some ch \<Longrightarrow> credit ch + unat n \<le> 2 ^ 31
    \<Longrightarrow> server_window_adjust W c n enc = Ok (r, enc') \<or> client_window_adjust W c n enc = Ok (r, enc')
    \<Longrightarrow> channel_run W c enc0 (g + unat n) s enc'"

text \<open>How a channel stands to the state in which it was opened.\<close>

definition stands :: "wire \<Rightarrow> channel_params \<Rightarrow> bytes \<Rightarrow> nat \<Rightarrow> tagged list \<Rightarrow> channel_params \<Rightarrow> bytes \<Rightarrow> bool" where
  "stands W ch0 out0 g s ch out \<longleftrightarrow>
     (\<exists>ps. out = out0 @ sent_as W ch0 ps \<and> packets_ok ch0 ps \<and> payload_bytes ps @ queued ch = s
       \<and> length (payload_bytes ps) + credit ch = credit ch0 + g
       \<and> (queued ch \<noteq> [] \<longrightarrow> credit ch = 0)
       \<and> recipient_channel ch = recipient_channel ch0
       \<and> recipient_maximum_packet_size ch = recipient_maximum_packet_size ch0
       \<and> confirmed ch \<and> \<not> pending_eof ch \<and> \<not> pending_close ch)"

lemma stands_emits:
  assumes "stands W ch0 out0 g s ch out" "emits W (queued ch @ t) ch out ch' out'"
  shows "stands W ch0 out0 g (s @ t) ch' out'"
  using assms unfolding stands_def emits_def
  apply (elim exE)
  subgoal for ps qs
  proof (intro exI [of _ "ps @ qs"], elim conjE, intro conjI, goal_cases)
    case 3
    then have "payload_bytes qs @ queued ch' = queued ch @ t" by (metis append_take_drop_id)
    with 3 show ?case by simp
  qed (auto simp: sent_as_def packets_ok_def queued_def)
  done

lemma stands_granted:
  assumes "stands W ch0 out0 g s ch out" "flow_inv ch" "credit ch + unat n \<le> 2 ^ 31"
  shows "credit (ch\<lparr>recipient_window_size := saturating_add_u32 (recipient_window_size ch) n\<rparr>) = credit ch + unat n"
    and "emits W (queued ch) (ch\<lparr>recipient_window_size := saturating_add_u32 (recipient_window_size ch) n\<rparr>) out ch' out'
      \<Longrightarrow> stands W ch0 out0 (g + unat n) s ch' out'"
proof -
  let ?ch = "ch\<lparr>recipient_window_size := saturating_add_u32 (recipient_window_size ch) n\<rparr>"
  show c: "credit ?ch = credit ch + unat n"
    using assms(3) by (simp add: saturating_add_u32_def unat_word_ariths)
  assume e: "emits W (queued ch) ?ch out ch' out'"
  show "stands W ch0 out0 (g + unat n) s ch' out'"
    using assms(1) e unfolding stands_def emits_def c
    apply (elim exE)
    subgoal for ps qs
      by (intro exI [of _ "ps @ qs"])
        (auto simp: sent_as_def packets_ok_def queued_def)
    done
qed

lemma u32_minus: "unat (v :: u32) = unat w - k \<Longrightarrow> k \<le> unat w \<Longrightarrow> v = w - as_u32 k"
  by (metis of_nat_diff of_nat_unat ucast_id)

text \<open>The grant, as either side makes it.\<close>

lemma window_adjust_eq:
  assumes W: "ssh_wire W" and c: "channels enc c = Some ch" and "flow_inv ch" "credit ch + unat n \<le> 2 ^ 31"
  shows "\<exists>out' ch'. emits W (queued ch) (ch\<lparr>recipient_window_size := recipient_window_size ch + n\<rparr>) (enc_write enc) ch' out'
    \<and> flow_inv ch'
    \<and> (let enc' = enc\<lparr>enc_write := out' @ after_data W ch', channels := (channels enc)
             (c := if pending_data ch' = [] \<and> pending_close ch' then None else Some ch')\<rparr>
       in server_window_adjust W c n enc = Ok (Some (recipient_window_size ch + n), enc')
        \<and> client_window_adjust W c n enc = Ok (Some (recipient_window_size ch'), enc'))"
proof -
  let ?w = "recipient_window_size ch + n"
  let ?ch = "ch\<lparr>recipient_window_size := ?w\<rparr>"
  let ?enc = "enc\<lparr>channels := (channels enc)(c \<mapsto> ?ch)\<rparr>"
  have w: "saturating_add_u32 (recipient_window_size ch) n = ?w" using assms(4) by (simp add: saturating_add_u32_def)
  have u: "unat ?w = credit ch + unat n" using assms(4) by (simp add: unat_word_ariths)
  have m: "0 < max_packet ?ch" "items_ok (pending_data ?ch)" "credit ?ch \<le> 2 ^ 31"
    using assms(3,4) u by (simp_all add: flow_inv_alt)
  have q: "queued ?ch = queued ch" by (simp add: queued_def)
  have k: "channels ?enc c = Some ?ch" by simp
  from flush_pending_eq [OF W k m, unfolded q] obtain out' ch' where
    e: "emits W (queued ch) ?ch (enc_write ?enc) ch' out'" "flow_inv ch'"
    and f: "flush_pending W c ?enc = Ok (min (credit ?ch) (length (queued ch)),
        ?enc\<lparr>enc_write := out' @ after_data W ch', channels := (channels ?enc)
          (c := if pending_data ch' = [] \<and> pending_close ch' then None else Some ch')\<rparr>)"
    by blast
  have "credit ch' = unat ?w - min (unat ?w) (length (queued ch))"
    using e(1) by (auto simp: emits_def min.commute)
  then have r: "recipient_window_size ch' = ?w - as_u32 (min (unat ?w) (length (queued ch)))"
    by (intro u32_minus) simp_all
  show ?thesis
    using e f r by (intro exI [of _ out'] exI [of _ ch'])
      (simp add: server_window_adjust_def client_window_adjust_def c w Let_def)
qed

lemma run_stands:
  assumes W: "ssh_wire W" and c0: "channels enc0 c = Some ch0" "confirmed ch0" "0 < max_packet ch0" "pending_data ch0 = []"
    "\<not> pending_eof ch0" "\<not> pending_close ch0"
  shows "channel_run W c enc0 g s enc \<Longrightarrow>
    \<exists>ch. channels enc c = Some ch \<and> flow_inv ch \<and> stands W ch0 (enc_write enc0) g s ch (enc_write enc)"
proof (induction rule: channel_run.induct)
  case opened
  have "stands W ch0 (enc_write enc0) 0 [] ch0 (enc_write enc0)"
    unfolding stands_def by (rule exI [of _ "[]"]) (simp add: c0 queued_def)
  then show ?case using c0 by (simp add: flow_inv_def)
next
  case (sent g s enc buf a rk enc')
  then obtain ch where ch: "channels enc c = Some ch" "flow_inv ch" "stands W ch0 (enc_write enc0) g s ch (enc_write enc)"
    by blast
  then have "confirmed ch" by (auto simp: stands_def)
  from enc_send_emits [OF W ch(1) this ch(2) sent.hyps(2), of a rk] sent.hyps(3) obtain ch' where
    "channels enc' c = Some ch'" "emits W (queued ch @ tagged a buf) ch (enc_write enc) ch' (enc_write enc')" "flow_inv ch'"
    by auto
  then show ?case using stands_emits [OF ch(3)] by blast
next
  case (granted g s enc ch n r enc')
  then have ch: "flow_inv ch" "stands W ch0 (enc_write enc0) g s ch (enc_write enc)" by auto
  from window_adjust_eq [OF W granted.hyps(2) ch(1) granted.hyps(3)] obtain out' ch' where
    e: "emits W (queued ch) (ch\<lparr>recipient_window_size := recipient_window_size ch + n\<rparr>) (enc_write enc) ch' out'" "flow_inv ch'"
    and e': "enc' = enc\<lparr>enc_write := out' @ after_data W ch', channels := (channels enc)
         (c := if pending_data ch' = [] \<and> pending_close ch' then None else Some ch')\<rparr>"
    using granted.hyps(4) by (auto simp: Let_def simp del: fun_upd_apply)
  have "saturating_add_u32 (recipient_window_size ch) n = recipient_window_size ch + n"
    using granted.hyps(3) by (simp add: saturating_add_u32_def)
  then have st: "stands W ch0 (enc_write enc0) (g + unat n) s ch' out'"
    using stands_granted(2) [OF ch(2,1) granted.hyps(3)] e(1) by simp
  then have "\<not> pending_eof ch'" "\<not> pending_close ch'" by (auto simp: stands_def)
  then show ?case using st e(2) e' by (simp add: after_data_def)
qed

section \<open>Properties\<close>

definition sample_channel :: "u32 \<Rightarrow> channel_params" where
  "sample_channel w = \<lparr>recipient_channel = 5, sender_channel = ChannelId 2, recipient_window_size = w,
     sender_window_size = 100, recipient_maximum_packet_size = 3, sender_maximum_packet_size = 32768,
     confirmed = True, chan_wants_reply = False, pending_data = [], pending_eof = False, pending_close = False\<rparr>"

definition sample_encrypted :: "channel_params \<Rightarrow> unit encrypted" where
  "sample_encrypted ch = \<lparr>enc_state = Authenticated, enc_exchange = None, enc_kex = NoneKex, enc_key = 0,
     enc_client_mac = [], enc_server_mac = [], enc_session_id = [1], channels = [ChannelId 2 \<mapsto> ch],
     last_channel_id = 2, enc_write = [], write_cursor = 0, last_rekey = 0, server_compression = NoCompression,
     client_compression = NoCompression, enc_decompress = DecompressNone, rekey_wanted = False, received_extensions = []\<rparr>"

lemma sample_simps [simp]:
  "channels (sample_encrypted ch) = [ChannelId 2 \<mapsto> ch]" "enc_write (sample_encrypted ch) = []"
  "pending_data (sample_channel w) = []" "confirmed (sample_channel w)" "max_packet (sample_channel w) = 3"
  "recipient_window_size (sample_channel w) = w" "\<not> pending_eof (sample_channel w)" "\<not> pending_close (sample_channel w)"
  "queued (sample_channel w) = []" "recipient_channel (sample_channel w) = 5" "flow_inv (sample_channel w)"
  "recipient_maximum_packet_size (sample_channel w) = 3"
  by (simp_all add: sample_channel_def sample_encrypted_def queued_def flow_inv_def)

text \<open>Property C19: \<open>data\<close> and \<open>extended_data\<close> implement a queue of bytes, each with its stream, and a
  credit. On a confirmed channel they append the bytes to the queue and emit its front up to the peer's
  window, in packets of at most the peer's maximum size, each written as one \<open>CHANNEL_DATA\<close> or
  \<open>CHANNEL_EXTENDED_DATA\<close> message; bytes stay in the queue only when the window is used up. No other
  channel changes.\<close>

theorem channel_send_refines:
  assumes "ssh_wire W" "channels enc c = Some ch" "confirmed ch" "flow_inv ch" "length buf0 < 2 ^ 31"
  shows "\<exists>enc' ch'. enc_send W c a buf0 rk enc = Ok enc' \<and> channels enc' = (channels enc)(c \<mapsto> ch')
    \<and> emits W (queued ch @ tagged a buf0) ch (enc_write enc) ch' (enc_write enc') \<and> flow_inv ch'"
  by (rule enc_send_emits [OF assms])

theorem channel_send_refines_witness:
  "\<exists>enc' ch'. enc_send rfc4251_wire (ChannelId 2) (Some 1) [10, 20, 30, 40, 50, 60] False (sample_encrypted (sample_channel 4)) = Ok enc'
    \<and> channels enc' = [ChannelId 2 \<mapsto> ch']
    \<and> emits rfc4251_wire (tagged (Some 1) [10, 20, 30, 40, 50, 60]) (sample_channel 4) [] ch' (enc_write enc') \<and> flow_inv ch'"
  using channel_send_refines [OF rfc.ssh_wire_axioms, of "sample_encrypted (sample_channel 4)" "ChannelId 2" "sample_channel 4"
      "[10, 20, 30, 40, 50, 60]" "Some 1" False]
  by simp

text \<open>Property C20: on \<open>CHANNEL_WINDOW_ADJUST\<close> both sides add the grant and emit the front of the queue
  up to the new window; an end of file and a close that had to wait follow all of the data, in this
  order, and only when no data is left. The client then reports the window that is left, the server the
  window before the queue was flushed.\<close>

theorem channel_grant_refines:
  assumes "ssh_wire W" "channels enc c = Some ch" "flow_inv ch" "credit ch + unat n \<le> 2 ^ 31"
  shows "\<exists>out' ch'. emits W (queued ch) (ch\<lparr>recipient_window_size := recipient_window_size ch + n\<rparr>) (enc_write enc) ch' out'
    \<and> flow_inv ch'
    \<and> (let enc' = enc\<lparr>enc_write := out' @ after_data W ch', channels := (channels enc)
             (c := if pending_data ch' = [] \<and> pending_close ch' then None else Some ch')\<rparr>
       in server_window_adjust W c n enc = Ok (Some (recipient_window_size ch + n), enc')
        \<and> client_window_adjust W c n enc = Ok (Some (recipient_window_size ch'), enc'))"
  by (rule window_adjust_eq [OF assms])

definition sample_waiting :: channel_params where
  "sample_waiting = sample_channel 0\<lparr>pending_data := [([6, 7, 8], None, 1)], pending_eof := True\<rparr>"

theorem channel_grant_refines_witness:
  "\<exists>out' ch' enc'. emits rfc4251_wire (tagged None [7, 8]) (sample_waiting\<lparr>recipient_window_size := 5\<rparr>) [] ch' out'
    \<and> pending_data ch' = []
    \<and> server_window_adjust rfc4251_wire (ChannelId 2) 5 (sample_encrypted sample_waiting) = Ok (Some 5, enc')
    \<and> client_window_adjust rfc4251_wire (ChannelId 2) 5 (sample_encrypted sample_waiting) = Ok (Some 3, enc')
    \<and> enc_write enc' = out' @ frame rfc4251_wire (CHANNEL_EOF # be_put rfc4251_wire 5)"
proof -
  have i: "flow_inv sample_waiting" "queued sample_waiting = tagged None [7, 8]"
    "credit sample_waiting + unat (5 :: u32) \<le> 2 ^ 31" "recipient_window_size sample_waiting + 5 = 5"
    by (simp_all add: flow_inv_def queued_def sample_waiting_def)
  from channel_grant_refines [OF rfc.ssh_wire_axioms _ i(1,3), of "sample_encrypted sample_waiting" "ChannelId 2"]
  obtain out' ch' where
    e: "emits rfc4251_wire (tagged None [7, 8]) (sample_waiting\<lparr>recipient_window_size := 5\<rparr>) [] ch' out'"
    and s: "let enc' = (sample_encrypted sample_waiting)\<lparr>enc_write := out' @ after_data rfc4251_wire ch',
        channels := (channels (sample_encrypted sample_waiting))
             (ChannelId 2 := if pending_data ch' = [] \<and> pending_close ch' then None else Some ch')\<rparr>
      in server_window_adjust rfc4251_wire (ChannelId 2) 5 (sample_encrypted sample_waiting) = Ok (Some 5, enc')
       \<and> client_window_adjust rfc4251_wire (ChannelId 2) 5 (sample_encrypted sample_waiting)
          = Ok (Some (recipient_window_size ch'), enc')"
    unfolding i by auto
  have f: "pending_data ch' = []" "pending_eof ch'" "\<not> pending_close ch'" "recipient_channel ch' = 5" "credit ch' = 3"
    using e by (auto simp: emits_def sample_waiting_def sample_channel_def)
  from f(5) have "recipient_window_size ch' = 3" by (intro unsigned_word_eqI) simp
  with e s f show ?thesis
    by (auto simp: Let_def after_data_def)
qed

text \<open>Property C5: over any run of sends and grants on a channel, what was written are data messages
  that together with the queue carry exactly the bytes sent, in order and each on its stream: nothing is
  lost, repeated or overtaken. The bytes written never exceed the credit the peer gave, no message
  exceeds the peer's maximum, and bytes are held back only when the credit is exhausted.\<close>

theorem channel_stream:
  assumes "ssh_wire W" "channels enc0 c = Some ch0" "confirmed ch0" "0 < max_packet ch0" "pending_data ch0 = []"
    and "\<not> pending_eof ch0" "\<not> pending_close ch0"
    and "channel_run W c enc0 g s enc"
  shows "\<exists>ch ps. channels enc c = Some ch \<and> enc_write enc = enc_write enc0 @ sent_as W ch0 ps
    \<and> packets_ok ch0 ps \<and> payload_bytes ps @ queued ch = s
    \<and> length (payload_bytes ps) + credit ch = credit ch0 + g \<and> (queued ch \<noteq> [] \<longrightarrow> credit ch = 0)"
  using run_stands [OF assms] by (auto simp: stands_def)

theorem channel_stream_witness:
  "\<exists>enc ch ps. channel_run rfc4251_wire (ChannelId 2) (sample_encrypted (sample_channel 4)) 0 (tagged None [1, 2, 3, 4, 5]) enc
    \<and> channels enc (ChannelId 2) = Some ch \<and> payload_bytes ps @ queued ch = tagged None [1, 2, 3, 4, 5]
    \<and> length (payload_bytes ps) + credit ch = 4 \<and> (queued ch \<noteq> [] \<longrightarrow> credit ch = 0)"
proof -
  from enc_send_emits [OF rfc.ssh_wire_axioms, of "sample_encrypted (sample_channel 4)" "ChannelId 2" "sample_channel 4"
      "[1, 2, 3, 4, 5]" None False]
  obtain enc where "enc_send rfc4251_wire (ChannelId 2) None [1, 2, 3, 4, 5] False (sample_encrypted (sample_channel 4)) = Ok enc"
    by auto
  from channel_run.sent [OF channel_run.opened _ this]
  have r: "channel_run rfc4251_wire (ChannelId 2) (sample_encrypted (sample_channel 4)) 0 (tagged None [1, 2, 3, 4, 5]) enc"
    by simp
  from channel_stream [OF rfc.ssh_wire_axioms _ _ _ _ _ _ r, of "sample_channel 4"] r show ?thesis by auto
qed

text \<open>Property C25: a peer that announces a maximum packet size of zero and then grants a window makes
  the sender loop forever: \<open>data\<close> does not return.\<close>

theorem zero_packet_size_diverges:
  assumes "ssh_wire W" "channels enc c = Some ch" "confirmed ch" "pending_data ch = []"
    and "recipient_maximum_packet_size ch = 0" "recipient_window_size ch \<noteq> 0" "buf0 \<noteq> []" "length buf0 < 2 ^ 32"
  shows "enc_data W c buf0 rk enc = Diverges"
proof -
  have s: "take (credit ch) buf0 \<noteq> []" using assms(6,7) by (simp add: unat_eq_0)
  have f: "fits 0 buf0 ch" using assms(8) unat_u32_lt [of "recipient_window_size ch"] by (simp add: fits_def)
  show ?thesis
    using window_slice [OF f] send_chunks_stuck [OF assms(1) _ s, of ch None "enc_write enc"] assms
    by (simp add: enc_data_def enc_send_def data_noqueue_def)
qed

theorem zero_packet_size_diverges_witness:
  "enc_data rfc4251_wire (ChannelId 2) [1] False
    (sample_encrypted (sample_channel 4\<lparr>recipient_maximum_packet_size := 0\<rparr>)) = Diverges"
  by (rule zero_packet_size_diverges [OF rfc.ssh_wire_axioms, where ch = "sample_channel 4\<lparr>recipient_maximum_packet_size := 0\<rparr>"])
    (simp_all add: sample_channel_def)

text \<open>An end of file that waited for the data is announced once more by each later flush of
  the channel, for nothing clears the mark.\<close>

theorem eof_announced_again:
  assumes "ssh_wire W" "channels enc c = Some ch" "pending_data ch = []" "pending_eof ch" "\<not> pending_close ch"
  shows "flush_pending W c enc = Ok (0, enc\<lparr>enc_write := enc_write enc
    @ frame W (CHANNEL_EOF # be_put W (recipient_channel ch))\<rparr>)"
proof -
  have ch: "ch\<lparr>pending_data := []\<rparr> = ch" using assms(3) by simp
  have "flush_channel W (enc_write enc) ch = Ok (FlushComplete 0 True False, enc_write enc, ch)"
    using assms(3-5) by (simp add: flush_channel_def flush_complete_def ch Let_def cong: if_cong)
  moreover have "enc\<lparr>enc_write := enc_write enc, channels := (channels enc)(c \<mapsto> ch)\<rparr> = enc"
    using assms(2) by (simp add: fun_upd_idem)
  ultimately show ?thesis
    using assms by (simp add: flush_pending_def enc_eof_def pending_channel_def enc_byte_eq fun_upd_idem)
qed

theorem eof_announced_again_witness:
  "flush_pending rfc4251_wire (ChannelId 2) (sample_encrypted (sample_channel 0\<lparr>pending_eof := True\<rparr>))
    = Ok (0, (sample_encrypted (sample_channel 0\<lparr>pending_eof := True\<rparr>))\<lparr>enc_write :=
        frame rfc4251_wire (CHANNEL_EOF # be_put rfc4251_wire 5)\<rparr>)"
  using eof_announced_again [OF rfc.ssh_wire_axioms, of "sample_encrypted (sample_channel 0\<lparr>pending_eof := True\<rparr>)"
      "ChannelId 2" "sample_channel 0\<lparr>pending_eof := True\<rparr>"]
  by (simp add: sample_channel_def)

end
