(* ===== verification/SessionFlow.thy ===== *)
theory SessionFlow
  imports FlowControl SshBuffer
begin

text \<open>
  The session as a whole: \<open>flush\<close> takes the framed messages of the write buffer one by one to the packet
  writer, \<open>adjust_window_size\<close> keeps the two ends' accounts of a window in balance, \<open>new_channel\<close> finds a
  free number, and a change of keys leaves the rest of the session alone.
\<close>

section \<open>Flushing the write buffer\<close>

lemma flush_loop_step:
  assumes W: "ssh_wire (wire_of E)" and p: "length p < 2 ^ 32"
  shows "flush_loop E (pre @ frame (wire_of E) p @ r) (length pre) w
    = and_then (packet_raw E p w) (\<lambda>w. flush_loop E (pre @ frame (wire_of E) p @ r) (length (pre @ frame (wire_of E) p)) w)"
proof -
  let ?out = "pre @ frame (wire_of E) p @ r"
  have l: "length (frame (wire_of E) p) = 4 + length p" by (rule ssh_wire.frame_length [OF W])
  have d: "drop (length pre + 4) ?out = p @ r" using ssh_wire.be_put_length [OF W] by (simp add: frame_def)
  have "be_read_u32 (wire_of E) (drop (length pre) ?out) = Ok (as_u32 (length p))"
    using ssh_wire.be_read_frame [OF W p, of r] by simp
  then show ?thesis
    using l d p by (subst flush_loop.simps) (simp add: slice_from_def slice_def)
qed

lemma flush_loop_end: "flush_loop E out (length out) w = Ok (length out, w)"
  by (subst flush_loop.simps) simp

lemma flush_loop_frames:
  assumes W: "ssh_wire (wire_of E)"
  shows "\<lbrakk>pw_compress w = CompressNone; \<forall>p \<in> set ps. p \<noteq> [] \<and> length p < 2 ^ 32\<rbrakk> \<Longrightarrow>
    flush_loop E (pre @ frames (wire_of E) ps) (length pre) w
    = and_then (write_packets (wire_of E) (crypto_of E) (fill_bytes E) (pw_cipher w) ps (write_buffer w))
        (\<lambda>(b, k). Ok (length (pre @ frames (wire_of E) ps), w\<lparr>write_buffer := b, pw_cipher := k\<rparr>))"
proof (induction ps arbitrary: pre w)
  case Nil
  then show ?case using flush_loop_end [of E pre w] by simp
next
  case (Cons p ps)
  then have p: "p \<noteq> []" "length p < 2 ^ 32" by auto
  show ?case
  proof (cases "write_packet (wire_of E) (crypto_of E) (fill_bytes E) (pw_cipher w) p (write_buffer w)")
    case (Ok bk)
    obtain b k where bk: "bk = (b, k)" by (cases bk)
    let ?w = "w\<lparr>write_buffer := b, pw_cipher := k\<rparr>"
    have "flush_loop E ((pre @ frame (wire_of E) p) @ frames (wire_of E) ps) (length (pre @ frame (wire_of E) p)) ?w
      = and_then (write_packets (wire_of E) (crypto_of E) (fill_bytes E) (pw_cipher ?w) ps (write_buffer ?w))
          (\<lambda>(b, k). Ok (length ((pre @ frame (wire_of E) p) @ frames (wire_of E) ps), ?w\<lparr>write_buffer := b, pw_cipher := k\<rparr>))"
      by (rule Cons.IH) (use Cons.prems in auto)
    then show ?thesis
      using flush_loop_step [OF W p(2), of pre "frames (wire_of E) ps" w] packet_raw_plain [OF Cons.prems(1) p(1), of E] Ok bk
      by simp
  qed (use flush_loop_step [OF W p(2), of pre "frames (wire_of E) ps" w] packet_raw_plain [OF Cons.prems(1) p(1), of E]
      in simp_all)
qed

text \<open>When new keys are due: they were asked for, or the bytes written or the time since the last exchange
  reach their limits; but never while there is no key exchange method.\<close>

definition flush_asks_rekey :: "limits \<Rightarrow> nat \<Rightarrow> nat \<Rightarrow> 'z encrypted \<Rightarrow> bool" where
  "flush_asks_rekey lim now sent enc \<longleftrightarrow> \<not> skip_exchange (enc_kex enc)
     \<and> (rekey_wanted enc \<or> rekey_write_limit lim \<le> sent \<or> rekey_time_limit lim \<le> now - last_rekey enc)"

lemma enc_flush_frames:
  assumes "ssh_wire (wire_of E)" "pw_compress w = CompressNone" "\<forall>p \<in> set ps. p \<noteq> [] \<and> length p < 2 ^ 32"
    and "enc_write enc = frames (wire_of E) ps" "write_cursor enc = 0"
    and "write_packets (wire_of E) (crypto_of E) (fill_bytes E) (pw_cipher w) ps (write_buffer w) = Ok (b, k)"
  shows "\<exists>rekey enc'. enc_flush E lim now w enc = Ok (rekey, w\<lparr>write_buffer := b, pw_cipher := k\<rparr>, enc')
    \<and> enc_write enc' = [] \<and> write_cursor enc' = 0 \<and> channels enc' = channels enc
    \<and> rekey = flush_asks_rekey lim now (sent_bytes b) enc"
  using flush_loop_frames [OF assms(1-3), of "[]"] assms(4-6)
  by (auto simp: enc_flush_def flush_asks_rekey_def Let_def)

section \<open>The accounts of a window\<close>

text \<open>The sending end's channel, the bytes on their way, the grants on their way back, the receiving end.\<close>

record 'z link =
  sender :: channel_params
  in_flight :: nat
  grants :: "u32 list"
  receiver :: "'z encrypted"

text \<open>Steps of the two ends: data leaves the sender, data arrives and may be answered by the grant that
  \<open>adjust_window_size\<close> writes, a grant arrives and the sender's session, \<open>enc\<close>, takes it, as a server or as a client,
  when no data waits.\<close>

inductive link_run :: "wire \<Rightarrow> channel_id \<Rightarrow> 'z link \<Rightarrow> 'z link \<Rightarrow> bool" for W c l0 where
  opened: "link_run W c l0 l0"
| data: "link_run W c l0 l \<Longrightarrow> 0 < max_packet (sender l) \<Longrightarrow> fits start buf (sender l)
    \<Longrightarrow> data_noqueue W buf a start out (sender l) = Ok (n, out', ch')
    \<Longrightarrow> link_run W c l0 (l\<lparr>sender := ch', in_flight := in_flight l + n\<rparr>)"
| arrival: "link_run W c l0 l \<Longrightarrow> length s \<le> in_flight l
    \<Longrightarrow> adjust_window_size W c s target (receiver l) = Ok (granted, enc')
    \<Longrightarrow> enc_write enc' = enc_write (receiver l)
      @ (if granted then frame W (CHANNEL_WINDOW_ADJUST # be_put W rc @ be_put W n) else [])
    \<Longrightarrow> link_run W c l0 (l\<lparr>receiver := enc', in_flight := in_flight l - length s,
          grants := grants l @ (if granted then [n] else [])\<rparr>)"
| grant: "link_run W c l0 l \<Longrightarrow> grants l = n # ns \<Longrightarrow> channels (enc :: 'z encrypted) c = Some (sender l) \<Longrightarrow> pending_data (sender l) = []
    \<Longrightarrow> server_window_adjust W c n enc = Ok (r, enc') \<or> client_window_adjust W c n enc = Ok (r, enc')
    \<Longrightarrow> channels enc' c = Some ch' \<Longrightarrow> link_run W c l0 (l\<lparr>sender := ch', grants := ns\<rparr>)"

definition balanced :: "channel_id \<Rightarrow> 'z link \<Rightarrow> bool" where
  "balanced c l \<longleftrightarrow>
     (\<exists>ch. channels (receiver l) c = Some ch
       \<and> unat (sender_window_size ch) = credit (sender l) + in_flight l + sum_list (map unat (grants l)))"

lemma frame_inj:
  assumes "ssh_wire W" "frame W (m # be_put W rc @ be_put W n) = frame W (m' # be_put W rc' @ be_put W n')"
  shows "n = n'"
proof -
  have l: "length (be_put W x) = 4" for x by (rule ssh_wire.be_put_length [OF assms(1)])
  have "be_put W n = be_put W n'"
    using assms(2) l by (simp add: frame_def)
  then show ?thesis using ssh_wire.be_get_put [OF assms(1)] by metis
qed

lemma adjust_window_eq:
  assumes W: "ssh_wire W" and c: "channels enc c = Some ch" and len: "length s \<le> unat (sender_window_size ch)"
    and r: "adjust_window_size W c s target enc = Ok (granted, enc')"
  shows "let left = sender_window_size ch - as_u32 (length s) in
    granted = (left < target div 2)
    \<and> channels enc' = (channels enc)(c \<mapsto> ch\<lparr>sender_window_size := if granted then target else left\<rparr>)
    \<and> enc_write enc' = enc_write enc
        @ (if granted then frame W (CHANNEL_WINDOW_ADJUST # be_put W (recipient_channel ch) @ be_put W (target - left)) else [])
    \<and> unat left = unat (sender_window_size ch) - length s"
proof -
  have s: "length s < 2 ^ 32" using len unat_u32_lt [of "sender_window_size ch"] by simp
  have le: "as_u32 (length s) \<le> sender_window_size ch"
    using len s by (simp add: word_le_nat_alt take_bit_nat_eq_self unsigned_of_nat)
  have u: "unat (sender_window_size ch - as_u32 (length s)) = unat (sender_window_size ch) - length s"
    using le s by (simp add: unat_sub unsigned_of_nat take_bit_nat_eq_self)
  have p: "push_packet W [push m, w_u32 W x, w_u32 W y] out = Ok (out @ frame W (m # be_put W x @ be_put W y))" for m x y out
    by (rule ssh_wire.push_packet_frame [OF W]) (simp add: ssh_wire.put_u32 [OF W])
  show ?thesis
    using r c le u by (auto simp: adjust_window_size_def Let_def enc_push_def p split: if_splits)
qed

text \<open>A grant to a channel on which nothing waits adds to the window.\<close>

lemma flush_nothing:
  assumes "ssh_wire W" "channels enc c = Some ch" "pending_data ch = []"
    and "flush_pending W c enc = Ok (k, enc')" "channels enc' c = Some ch'"
  shows "ch' = ch"
proof -
  let ?enc = "enc\<lparr>channels := (channels enc)(c \<mapsto> ch)\<rparr>"
  have "flush_channel W (enc_write enc) ch = Ok (flush_complete 0 ch, enc_write enc, ch)"
    using assms(3) by (simp add: flush_channel_def flush_complete_def Let_def)
  moreover have "flush_reports (flush_complete 0 ch) 0 ch"
    using assms(3) by (simp add: flush_reports_def flush_complete_def)
  note handle_flushed [OF assms(1) _ this, of ?enc c]
  ultimately show ?thesis
    using assms by (auto simp: flush_pending_def split: if_splits)
qed

lemma idle_grant:
  assumes "ssh_wire W" "channels enc c = Some ch" "pending_data ch = []"
    and "server_window_adjust W c n enc = Ok (r, enc') \<or> client_window_adjust W c n enc = Ok (r, enc')"
    and "channels enc' c = Some ch'"
  shows "ch' = ch\<lparr>recipient_window_size := saturating_add_u32 (recipient_window_size ch) n\<rparr>"
proof -
  let ?ch = "ch\<lparr>recipient_window_size := saturating_add_u32 (recipient_window_size ch) n\<rparr>"
  from assms(2,4) obtain k where "flush_pending W c (enc\<lparr>channels := (channels enc)(c \<mapsto> ?ch)\<rparr>) = Ok (k, enc')"
    by (auto simp: server_window_adjust_def client_window_adjust_def outcome_simps Let_def)
  from flush_nothing [OF assms(1) _ _ this assms(5), of ?ch] assms(3) show ?thesis by simp
qed

lemma half_target: "(left :: u32) < target div 2 \<Longrightarrow> unat (target - left) = unat target - unat left \<and> left \<le> target"
proof -
  assume "left < target div 2"
  then have "unat left < unat target div 2" by (simp add: word_less_nat_alt unat_div)
  then have "left \<le> target" by (simp add: word_le_nat_alt)
  then show ?thesis by (simp add: unat_sub)
qed

lemma link_balanced:
  assumes W: "ssh_wire W"
  shows "link_run W c l0 l \<Longrightarrow> balanced c l0 \<Longrightarrow> balanced c l"
proof (induction rule: link_run.induct)
  case (data l start buf a out n out' ch')
  let ?s = "take (credit (sender l)) (drop start buf)"
  have s: "n = length ?s" "ch' = (sender l)\<lparr>recipient_window_size := recipient_window_size (sender l) - as_u32 (length ?s)\<rparr>"
    using data_noqueue_eq [OF W data.hyps(2,3), of a out] data.hyps(4) by (simp_all add: Let_def)
  then have "credit ch' = credit (sender l) - n" "n \<le> credit (sender l)" using credit_after [of ?s "sender l"] by simp_all
  then show ?case using data.IH data.prems by (auto simp: balanced_def)
next
  case (arrival l s target granted enc' rc n)
  then obtain ch where ch: "channels (receiver l) c = Some ch"
    "unat (sender_window_size ch) = credit (sender l) + in_flight l + sum_list (map unat (grants l))"
    by (auto simp: balanced_def)
  have le: "length s \<le> unat (sender_window_size ch)" using arrival.hyps(2) ch(2) by simp
  let ?left = "sender_window_size ch - as_u32 (length s)"
  note a = adjust_window_eq [OF W ch(1) le arrival.hyps(3), unfolded Let_def]
  show ?case
  proof (cases granted)
    case True
    then have "n = target - ?left"
      using a arrival.hyps(4) frame_inj [OF W] by auto
    moreover have "?left < target div 2" using True a by simp
    ultimately have "unat n + unat ?left = unat target" using half_target [of ?left target] by (simp add: word_le_nat_alt)
    then show ?thesis using True a ch arrival.hyps(2) by (simp add: balanced_def)
  next
    case False
    then show ?thesis using a ch arrival.hyps(2) by (simp add: balanced_def)
  qed
next
  case (grant l n ns enc r enc' ch')
  then obtain ch where ch: "channels (receiver l) c = Some ch"
    "unat (sender_window_size ch) = credit (sender l) + in_flight l + unat n + sum_list (map unat ns)"
    by (auto simp: balanced_def)
  have "credit (sender l) + unat n < 2 ^ 32" using ch(2) unat_u32_lt [of "sender_window_size ch"] by simp
  then have "unat (saturating_add_u32 (recipient_window_size (sender l)) n) = credit (sender l) + unat n"
    by (simp add: saturating_add_u32_def unat_word_ariths)
  with idle_grant [OF W grant.hyps(3-6)] show ?case using ch by (simp add: balanced_def)
qed

section \<open>Numbers of channels\<close>

lemma free_id_finds:
  "chs (ChannelId (n + of_nat k)) = None \<Longrightarrow> \<exists>m. free_id chs n = Some m"
proof (induction k arbitrary: n)
  case 0
  then show ?case by (subst free_id.simps) simp
next
  case (Suc k)
  then have "\<exists>m. free_id chs (n + 1) = Some m" by (intro Suc.IH) (simp add: add.assoc)
  then show ?case by (subst free_id.simps) auto
qed

lemma free_id_free: "free_id chs n = Some m \<Longrightarrow> chs (ChannelId m) = None"
proof (erule free_id.raw_induct [rotated])
  fix f chs n m
  assume "\<And>chs n m. f chs n = Some m \<Longrightarrow> chs (ChannelId m) = None"
    and "(if chs (ChannelId n) \<noteq> None then f chs (n + 1) else Some n) = Some m"
  then show "chs (ChannelId m) = None" by (auto split: if_splits)
qed

lemma free_id_iff: "free_id chs n = None \<longleftrightarrow> (\<forall>c. chs c \<noteq> None)"
proof
  assume none: "free_id chs n = None"
  show "\<forall>c. chs c \<noteq> None"
  proof
    fix c
    obtain m where c: "c = ChannelId m" by (cases c)
    have "n + of_nat (unat (m - n)) = m" by simp
    then show "chs c \<noteq> None" using free_id_finds [of chs n "unat (m - n)"] none c by auto
  qed
next
  assume "\<forall>c. chs c \<noteq> None"
  then show "free_id chs n = None" using free_id_free [of chs n] by (cases "free_id chs n") blast+
qed

section \<open>Properties\<close>

text \<open>Property C11: \<open>flush\<close> empties the write buffer and hands its messages, in order and each whole, to
  the packet writer; what it appends to the socket's buffer is read back by the peer as exactly these
  messages, with the sequence numbers and the keys of the two sides still in step. It asks for new keys
  exactly when they were wanted or a limit of bytes or time is reached.\<close>

theorem flush_delivers:
  assumes "ssh_wire (wire_of E)" "crypto_laws (crypto_of E)" "fills (fill_bytes E)"
    and "keys_match (crypto_of E) (pw_cipher w) ok" "pw_compress w = CompressNone"
    and "\<forall>p \<in> set ps. p \<noteq> [] \<and> length p + 20 \<le> MAXIMUM_PACKET_LEN"
    and "enc_write enc = frames (wire_of E) ps" "write_cursor enc = 0"
    and "seqn r = seqn (write_buffer w)" "next_len r = 0"
  shows "\<exists>rekey w' enc' sent r' ok'. enc_flush E lim now w enc = Ok (rekey, w', enc')
    \<and> enc_write enc' = [] \<and> write_cursor enc' = 0 \<and> channels enc' = channels enc
    \<and> buffer (write_buffer w') = buffer (write_buffer w) @ sent
    \<and> read_packets (wire_of E) (crypto_of E) ok (length ps) (sent @ rest) r = Ok (ps, rest, r', ok')
    \<and> seqn r' = seqn (write_buffer w') \<and> keys_match (crypto_of E) (pw_cipher w') ok'
    \<and> rekey = flush_asks_rekey lim now (sent_bytes (write_buffer w')) enc"
proof -
  have step: "crypto_laws (crypto_of E) \<and> keys_match (crypto_of E) (pw_cipher w) ok" using assms(2,4) ..
  have len: "\<forall>p \<in> set ps. length p + 20 \<le> MAXIMUM_PACKET_LEN"
    and short: "\<forall>p \<in> set ps. p \<noteq> [] \<and> length p < 2 ^ 32" using assms(6) by auto
  from any.read_write_stream [OF assms(1,3) step len assms(9,10), of rest] obtain sent sk' ok' b' r' where
    ws: "write_packets (wire_of E) (crypto_of E) (fill_bytes E) (pw_cipher w) ps (write_buffer w) = Ok (b', sk')"
    and rs: "buffer b' = buffer (write_buffer w) @ sent"
      "read_packets (wire_of E) (crypto_of E) ok (length ps) (sent @ rest) r = Ok (ps, rest, r', ok')"
      "seqn r' = seqn b'" "keys_match (crypto_of E) sk' ok'" by blast
  from enc_flush_frames [OF assms(1,5) short assms(7,8) ws, of lim now] obtain rekey enc' where
    "enc_flush E lim now w enc = Ok (rekey, w\<lparr>write_buffer := b', pw_cipher := sk'\<rparr>, enc')"
    "enc_write enc' = []" "write_cursor enc' = 0" "channels enc' = channels enc"
    "rekey = flush_asks_rekey lim now (sent_bytes b') enc" by blast
  with rs show ?thesis by (intro exI [of _ rekey] exI [of _ "w\<lparr>write_buffer := b', pw_cipher := sk'\<rparr>"]) auto
qed

definition sample_session_crates :: "(unit, unit) crates" where
  "sample_session_crates = \<lparr>wire_of = rfc4251_wire, crypto_of = flip_crypto,
     flate_of = \<lparr>fl_compress = (\<lambda>z s n. None), fl_decompress = (\<lambda>z s n. None),
       fl_new_compress = (), fl_new_decompress = (),
     fl_reset_compress = (\<lambda>z. z), fl_reset_decompress = (\<lambda>z. z)\<rparr>, fill_bytes = (\<lambda>b. b)\<rparr>"

lemma sample_session_crates_simps [simp]:
  "wire_of sample_session_crates = rfc4251_wire" "crypto_of sample_session_crates = flip_crypto"
  "fill_bytes sample_session_crates = (\<lambda>b. b)"
  by (simp_all add: sample_session_crates_def)

theorem flush_delivers_witness:
  "\<exists>rekey w' enc' sent r' ok'. enc_flush sample_session_crates limits_default 0 packet_writer_clear
      ((sample_encrypted (sample_channel 4))\<lparr>enc_write := frames rfc4251_wire [[94, 1], [96]]\<rparr>) = Ok (rekey, w', enc')
    \<and> enc_write enc' = [] \<and> buffer (write_buffer w') = sent
    \<and> read_packets rfc4251_wire flip_crypto ClearKey (Suc (Suc 0)) (sent @ [9]) sshbuffer_new = Ok ([[94, 1], [96]], [9], r', ok')"
proof -
  let ?enc = "(sample_encrypted (sample_channel 4))\<lparr>enc_write := frames rfc4251_wire [[94, 1], [96]]\<rparr>"
  have "fills (\<lambda>b. b)" by (simp add: fills_def)
  with flush_delivers [of sample_session_crates packet_writer_clear ClearKey "[[94, 1], [96]]" ?enc sshbuffer_new
      limits_default 0 "[9]"]
  show ?thesis
    using rfc.ssh_wire_axioms flip_crypto_laws
    by (auto simp: keys_match_def packet_writer_clear_def packet_writer_new_def sshbuffer_new_def sample_encrypted_def
        simp del: read_packets.simps)
qed

text \<open>Property C12: the two ends agree on a window. Whatever data is sent, arrives and is answered by
  grants, which the sender's session takes with nothing waiting, the receiver's window is the sender's credit plus the bytes and the grants on their way: so
  arriving data always fits the window, none is left uncounted, and a grant never saturates the
  sender's window.\<close>

theorem window_accounts:
  assumes "ssh_wire W" "link_run W c l0 l" "channels (receiver l0) c = Some ch0"
    and "unat (sender_window_size ch0) = credit (sender l0) + in_flight l0 + sum_list (map unat (grants l0))"
  shows "\<exists>ch. channels (receiver l) c = Some ch
    \<and> unat (sender_window_size ch) = credit (sender l) + in_flight l + sum_list (map unat (grants l))"
  using link_balanced [OF assms(1,2)] assms(3,4) by (simp add: balanced_def)

lemma sample_arrival:
  "\<exists>enc'. adjust_window_size rfc4251_wire (ChannelId 2) (replicate 60 7) 100 (sample_encrypted (sample_channel 0)) = Ok (True, enc')
    \<and> enc_write enc' = frame rfc4251_wire (CHANNEL_WINDOW_ADJUST # be_put rfc4251_wire 5 @ be_put rfc4251_wire 60)"
proof -
  have "push_packet rfc4251_wire [push m, w_u32 rfc4251_wire x, w_u32 rfc4251_wire y] out = Ok (out @ frame rfc4251_wire (m # be_put rfc4251_wire x @ be_put rfc4251_wire y))" for m x y out
    by (rule ssh_wire.push_packet_frame [OF rfc.ssh_wire_axioms]) (simp add: ssh_wire.put_u32 [OF rfc.ssh_wire_axioms])
  moreover have "(40 :: u32) < 100 div 2" by code_simp
  ultimately show ?thesis
    by (simp add: adjust_window_size_def enc_push_def sample_channel_def Let_def)
qed

lemma sample_grant:
  "\<exists>enc' ch'. client_window_adjust rfc4251_wire (ChannelId 2) 60 (sample_encrypted (sample_channel 40)) = Ok (Some 100, enc')
    \<and> channels enc' (ChannelId 2) = Some ch' \<and> credit ch' = 100"
  by (simp add: client_window_adjust_def saturating_add_u32_def flush_pending_def flush_channel_def flush_complete_def
      sample_channel_def Let_def)

theorem window_accounts_witness:
  "\<exists>l l'. link_run rfc4251_wire (ChannelId 2) \<lparr>sender = sample_channel 100, in_flight = 0, grants = [],
        receiver = sample_encrypted (sample_channel 0)\<rparr> l \<and> in_flight l = 60 \<and> credit (sender l) = 40
    \<and> (\<exists>ch. channels (receiver l) (ChannelId 2) = Some ch \<and> unat (sender_window_size ch) = 100)
    \<and> link_run rfc4251_wire (ChannelId 2) \<lparr>sender = sample_channel 100, in_flight = 0, grants = [],
        receiver = sample_encrypted (sample_channel 0)\<rparr> l' \<and> in_flight l' = 0 \<and> grants l' = [] \<and> credit (sender l') = 100
    \<and> (\<exists>ch. channels (receiver l') (ChannelId 2) = Some ch \<and> unat (sender_window_size ch) = 100)"
proof -
  let ?opened = "\<lparr>sender = sample_channel 100, in_flight = 0, grants = [], receiver = sample_encrypted (sample_channel 0)\<rparr>"
  have f: "fits 0 (replicate 60 (7 :: u8)) (sample_channel 100)" by (simp add: fits_def)
  have e: "(sample_channel 100)\<lparr>recipient_window_size := 40\<rparr> = sample_channel 40" by (simp add: sample_channel_def)
  from data_noqueue_eq [OF rfc.ssh_wire_axioms _ f, of None "[]"] obtain out' where
    "data_noqueue rfc4251_wire (replicate 60 7) None 0 [] (sample_channel 100) = Ok (60, out', sample_channel 40)"
    by (auto simp: Let_def e)
  then have r: "link_run rfc4251_wire (ChannelId 2) ?opened (?opened\<lparr>sender := sample_channel 40, in_flight := in_flight ?opened + 60\<rparr>)"
    by (intro link_run.data [OF link_run.opened, where start = 0 and buf = "replicate 60 7" and a = None and out = "[]"])
      (simp_all add: fits_def)
  let ?left = "?opened\<lparr>sender := sample_channel 40, in_flight := in_flight ?opened + 60\<rparr>"
  obtain enc' where a: "adjust_window_size rfc4251_wire (ChannelId 2) (replicate 60 7) 100 (sample_encrypted (sample_channel 0)) = Ok (True, enc')"
    "enc_write enc' = frame rfc4251_wire (CHANNEL_WINDOW_ADJUST # be_put rfc4251_wire 5 @ be_put rfc4251_wire 60)" using sample_arrival by blast
  have r2: "link_run rfc4251_wire (ChannelId 2) ?opened (?left\<lparr>receiver := enc', in_flight := in_flight ?left - length (replicate 60 (7 :: u8)),
      grants := grants ?left @ (if True then [60] else [])\<rparr>)"
    by (rule link_run.arrival [OF r, where target = 100 and rc = 5]) (simp_all add: a)
  obtain enc2 ch2 where g: "client_window_adjust rfc4251_wire (ChannelId 2) 60 (sample_encrypted (sample_channel 40)) = Ok (Some 100, enc2)"
    "channels enc2 (ChannelId 2) = Some ch2" "credit ch2 = 100" using sample_grant by blast
  let ?answered = "?left\<lparr>receiver := enc', in_flight := in_flight ?left - length (replicate 60 (7 :: u8)),
      grants := grants ?left @ (if True then [60] else [])\<rparr>"
  have r3: "link_run rfc4251_wire (ChannelId 2) ?opened (?answered\<lparr>sender := ch2, grants := []\<rparr>)"
    by (rule link_run.grant [OF r2 _ _ _ disjI2 [OF g(1)] g(2)]) simp_all
  have "unat (sender_window_size (sample_channel 0)) = 100" by (simp add: sample_channel_def)
  with window_accounts [OF rfc.ssh_wire_axioms r, of "sample_channel 0"]
    window_accounts [OF rfc.ssh_wire_axioms r3, of "sample_channel 0"] r r3 g(3)
  show ?thesis by (intro exI [of _ ?left] exI [of _ "?answered\<lparr>sender := ch2, grants := []\<rparr>"]) auto
qed

text \<open>\<open>new_channel\<close> gives a number that no channel has, and adds under it an unconfirmed
  channel with the window asked for; the other channels stay. It finds one whenever one of the \<open>2 ^ 32\<close>
  numbers is free, and searches forever when none is.\<close>

theorem new_channel_fresh:
  "if \<exists>c. channels enc c = None
   then \<exists>c ch enc'. new_channel win maxp enc = Ok (c, enc') \<and> channels enc c = None
     \<and> channels enc' = (channels enc)(c \<mapsto> ch) \<and> sender_channel ch = c \<and> \<not> confirmed ch
     \<and> sender_window_size ch = win \<and> sender_maximum_packet_size ch = maxp \<and> credit ch = 0 \<and> pending_data ch = []
   else new_channel win maxp enc = Diverges"
proof (cases "free_id (channels enc) (last_channel_id enc + 1)")
  case None
  then show ?thesis using free_id_iff [of "channels enc" "last_channel_id enc + 1"]
    by (simp add: new_channel_def del: not_None_eq)
next
  case (Some m)
  then have "\<exists>c. channels enc c = None" "channels enc (ChannelId m) = None"
    using free_id_free by blast+
  then show ?thesis using Some by (auto simp: new_channel_def Let_def)
qed

text \<open>New keys replace the two ciphers and nothing of what the session has to keep: the
  session identifier, the channels, the messages not yet flushed, the sequence number and the buffer of
  the writer stay, and strict key exchange, once agreed, stays agreed.\<close>

theorem newkeys_keeps_session:
  "case cs_encrypted s of
     None \<Rightarrow> newkeys Z nk s = s
   | Some enc \<Rightarrow> (\<exists>enc'. cs_encrypted (newkeys Z nk s) = Some enc' \<and> enc_session_id enc' = enc_session_id enc
       \<and> channels enc' = channels enc \<and> enc_write enc' = enc_write enc \<and> enc_state enc' = enc_state enc
       \<and> enc_exchange enc' = Some (nk_exchange nk)
       \<and> write_buffer (packet_writer (newkeys Z nk s)) = write_buffer (packet_writer s)
       \<and> pw_cipher (packet_writer (newkeys Z nk s)) = local_to_remote (nk_cipher nk)
       \<and> cs_remote_to_local (newkeys Z nk s) = remote_to_local (nk_cipher nk)
       \<and> strict_kex (newkeys Z nk s) = (strict_kex s \<or> n_strict_kex (nk_names nk)))"
  by (simp add: newkeys_def set_cipher_def Let_def split: option.split)

text \<open>The offset and the window are added in 32 bits. With an item of the queue partly
  sent and a window of \<open>2 ^ 32 - 1\<close> the sum wraps below the offset, and the slice that follows panics.\<close>

theorem window_overflow_panics:
  assumes "0 < start" "start < length buf" "length buf < 2 ^ 32" "recipient_window_size ch = - 1"
  shows "data_noqueue W buf a start out ch = Panic"
proof -
  have "unat (as_u32 start + recipient_window_size ch) = start - 1"
    using assms u32_minus [of "as_u32 start - 1" "as_u32 start" 1]
    by (simp add: unat_sub_if_size word_size unsigned_of_nat take_bit_nat_eq_self)
  then have "as_u32 (length buf) > as_u32 start + recipient_window_size ch"
    using assms by (simp add: word_less_nat_alt unsigned_of_nat take_bit_nat_eq_self)
  moreover have "length buf < start + credit ch"
    using assms by (simp add: unsigned_minus_1_eq_mask mask_eq_exp_minus_1)
  ultimately show ?thesis
    using assms(2) by (simp add: data_noqueue_def slice_def)
qed

theorem window_overflow_panics_witness:
  "data_noqueue rfc4251_wire [1, 2] None 1 [] (sample_channel (- 1)) = Panic"
  by (rule window_overflow_panics) simp_all

end
