(* ===== verification/SshRead.thy ===== *)
theory SshRead
  imports SshBuffer
begin

text \<open>
  The reader at the start of a connection (\<open>ssh_read.rs\<close>): it collects the identification string of the
  peer in a buffer of 256 bytes, and hands the bytes behind it to the reads that follow. The stream below
  is a list of chunks, each what one read would find there; no more chunks, or an empty one, is its end.
\<close>

section \<open>UTF-8\<close>

text \<open>\<open>std::str::from_utf8(s)\<close> is \<open>Ok\<close>: the well-formed byte sequences of the Unicode standard.\<close>

definition utf8_tail :: "u8 \<Rightarrow> bool" where
  "utf8_tail b \<longleftrightarrow> 0x80 \<le> b \<and> b \<le> 0xBF"

definition utf8_second :: "u8 \<Rightarrow> u8 \<Rightarrow> bool" where
  "utf8_second b c \<longleftrightarrow>
     (if b = 0xE0 then 0xA0 \<le> c \<and> c \<le> 0xBF
      else if b = 0xED then 0x80 \<le> c \<and> c \<le> 0x9F
      else if b = 0xF0 then 0x90 \<le> c \<and> c \<le> 0xBF
      else if b = 0xF4 then 0x80 \<le> c \<and> c \<le> 0x8F
      else utf8_tail c)"

fun utf8_rest :: "nat \<Rightarrow> bytes \<Rightarrow> bytes option" where
  "utf8_rest 0 s = Some s"
| "utf8_rest (Suc n) [] = None"
| "utf8_rest (Suc n) (c # s) = (if utf8_tail c then utf8_rest n s else None)"

lemma utf8_rest_shorter [dest]: "utf8_rest n s = Some t \<Longrightarrow> length t \<le> length s"
  by (induction n s rule: utf8_rest.induct) (auto split: if_splits)

function valid_utf8 :: "bytes \<Rightarrow> bool" where
  "valid_utf8 [] = True"
| "valid_utf8 (b # s) =
     (if b < 0x80 then valid_utf8 s
      else if b < 0xC2 \<or> 0xF4 < b then False
      else
        (case s of
           [] \<Rightarrow> False
         | c # s \<Rightarrow>
             utf8_second b c \<and>
             (case utf8_rest (if b < 0xE0 then 0 else if b < 0xF0 then 1 else 2) s of
                None \<Rightarrow> False | Some t \<Rightarrow> valid_utf8 t)))"
  by pat_completeness auto
termination by (relation "measure length") (auto dest!: utf8_rest_shorter)

lemma valid_utf8_ascii: "\<forall>b \<in> set s. b < 0x80 \<Longrightarrow> valid_utf8 s"
  by (induction s) auto

lemma utf8_rest_append: "utf8_rest n s = Some t \<Longrightarrow> utf8_rest n (s @ r) = Some (t @ r)"
  by (induction n s rule: utf8_rest.induct) (auto split: if_splits)

lemma valid_utf8_append: "valid_utf8 s \<Longrightarrow> valid_utf8 r \<Longrightarrow> valid_utf8 (s @ r)"
proof (induction s rule: valid_utf8.induct)
  case (2 b s)
  show ?case
  proof (cases "b < 0x80")
    case False
    with "2.prems" obtain c s' t where s: "s = c # s'" "\<not> (b < 0xC2 \<or> 0xF4 < b)" "utf8_second b c"
      "utf8_rest (if b < 0xE0 then 0 else if b < 0xF0 then 1 else 2) s' = Some t" "valid_utf8 t"
      by (auto split: list.splits option.splits if_splits)
    from False s "2.IH"(2) [of c s' t] "2.prems"(2) have "valid_utf8 (t @ r)" by (auto split: if_splits)
    with False s utf8_rest_append [OF s(4), of r] show ?thesis by simp
  qed (use 2 in simp)
qed simp

section \<open>The stream\<close>

type_synonym transport = "bytes rs list"

fun transport_read :: "nat \<Rightarrow> transport \<Rightarrow> (bytes \<times> transport) rs" where
  "transport_read n [] = Ok ([], [])"
| "transport_read n (c # cs) =
     and_then c (\<lambda>s. Ok (take n s, if n < length s then Ok (drop n s) # cs else cs))"

definition chunk_size :: "bytes rs \<Rightarrow> nat" where
  "chunk_size c = (case c of Ok s \<Rightarrow> length s | _ \<Rightarrow> 0)"

lemma transport_read_shrinks:
  "transport_read n r = Ok (s, r') \<Longrightarrow> sum_list (map chunk_size r) = length s + sum_list (map chunk_size r')"
  by (cases r) (auto simp: chunk_size_def outcome_simps)

section \<open>The identification string\<close>

record id_buffer =
  id_buf :: bytes
  id_total :: nat
  id_bytes_read :: nat
  id_sshid_len :: nat

definition id_buffer_new :: id_buffer where
  "id_buffer_new = \<lparr>id_buf = replicate 256 0, id_total = 0, id_bytes_read = 0, id_sshid_len = 0\<rparr>"

definition id_buffer_id :: "id_buffer \<Rightarrow> bytes rs" where
  "id_buffer_id b = slice 0 (id_sshid_len b) (id_buf b)"

abbreviation CRb :: u8 where "CRb \<equiv> 13"
abbreviation LFb :: u8 where "LFb \<equiv> 10"

text \<open>The search for the end of the line, from \<open>i\<close> on: where it stops, and how many bytes the line takes
  (0 where there is no end yet).\<close>

function scan_line :: "bytes \<Rightarrow> nat \<Rightarrow> nat \<Rightarrow> nat \<times> nat" where
  "scan_line buf filled i =
     (if filled - 1 \<le> i then (i, 0)
      else if buf ! i = CRb \<and> buf ! (i + 1) = LFb then (i, i + 2)
      else if buf ! (i + 1) = LFb then (i + 1, i + 2)
      else scan_line buf filled (i + 1))"
  by pat_completeness auto
termination by (relation "measure (\<lambda>(buf, filled, i). filled - i)") auto

declare scan_line.simps [simp del]

definition is_ssh_id :: "bytes \<Rightarrow> bool" where
  "is_ssh_id s \<longleftrightarrow> valid_utf8 s \<and> (take 9 s = as_bytes ''SSH-1.99-'' \<or> take 8 s = as_bytes ''SSH-2.0-'')"

function read_ssh_id :: "id_buffer \<Rightarrow> transport \<Rightarrow> (bytes \<times> id_buffer \<times> transport) rs" where
  "read_ssh_id b r =
     and_then (slice_from (id_total b) (id_buf b)) (\<lambda>space.
     and_then (transport_read (length space) r) (\<lambda>(got, r).
       let n = length got;
           buf = take (id_total b) (id_buf b) @ got @ drop (id_total b + n) (id_buf b);
           filled = id_total b + n in
       if n = 0 then Err DisconnectError
       else
         let (i, line) = scan_line buf filled 0;
             bytes_read = (if 0 < line then line else id_bytes_read b) in
         if 0 < bytes_read then
           if 8 \<le> i \<and> is_ssh_id (take i buf) then
             and_then (slice 0 i buf) (\<lambda>s.
               Ok (s, \<lparr>id_buf = buf, id_total = filled, id_bytes_read = bytes_read, id_sshid_len = i\<rparr>, r))
           else read_ssh_id \<lparr>id_buf = buf, id_total = 0, id_bytes_read = 0, id_sshid_len = id_sshid_len b\<rparr> r
         else read_ssh_id \<lparr>id_buf = buf, id_total = filled, id_bytes_read = 0, id_sshid_len = id_sshid_len b\<rparr> r))"
  by pat_completeness auto
termination
  by (relation "measure (\<lambda>(b, r). sum_list (map chunk_size r))") (auto dest!: transport_read_shrinks)

declare read_ssh_id.simps [simp del]

section \<open>Reading on\<close>

text \<open>\<open>SshRead::poll_read\<close> with room for \<open>remaining\<close> bytes: first what the buffer has behind the line, then the
  stream; from then on the buffer is gone.\<close>

definition ssh_poll_read :: "nat \<Rightarrow> id_buffer option \<Rightarrow> transport \<Rightarrow> (bytes \<times> id_buffer option \<times> transport) rs" where
  "ssh_poll_read remaining ident r =
     (let from_stream = and_then (transport_read remaining r) (\<lambda>(got, r). Ok (got, None, r)) in
      case ident of
        None \<Rightarrow> from_stream
      | Some b \<Rightarrow>
          if id_bytes_read b < id_total b then
            let filled = min (id_total b) (id_bytes_read b + remaining) in
            and_then (slice (id_bytes_read b) filled (id_buf b)) (\<lambda>got.
              Ok (got, Some (b\<lparr>id_bytes_read := filled\<rparr>), r))
          else from_stream)"

section \<open>The search\<close>

text \<open>A line break that can be found: a line feed that is not the first byte.\<close>

lemma scan_line_none:
  assumes "\<forall>j. 1 \<le> j \<and> j < filled \<longrightarrow> buf ! j \<noteq> LFb" "i \<le> filled - 1"
  shows "scan_line buf filled i = (filled - 1, 0)"
  using assms by (induction buf filled i rule: scan_line.induct) (subst scan_line.simps, auto)

lemma scan_line_found:
  assumes "buf ! k = LFb" "i < k" "k < filled" "\<forall>j. 1 \<le> j \<and> j < k \<longrightarrow> buf ! j \<noteq> LFb"
  shows "scan_line buf filled i = (if buf ! (k - 1) = CRb then k - 1 else k, k + 1)"
  using assms
proof (induction buf filled i rule: scan_line.induct)
  case (1 buf filled i)
  show ?case
  proof (cases "i + 1 = k")
    case True
    then show ?thesis using "1.prems" by (subst scan_line.simps) auto
  next
    case False
    then show ?thesis using 1 by (subst scan_line.simps) auto
  qed
qed

text \<open>The bytes of a line up to its end, the end being \<open>\n\<close> or \<open>\r\n\<close>.\<close>

definition line_text :: "bytes \<Rightarrow> bytes" where
  "line_text l = (if l \<noteq> [] \<and> last l = CRb then butlast l else l)"

section \<open>Reading a line\<close>

definition ready :: "bytes \<Rightarrow> id_buffer \<Rightarrow> bool" where
  "ready l b \<longleftrightarrow> length (id_buf b) = 256 \<and> take (id_total b) (id_buf b) = l \<and> id_total b = length l \<and> id_bytes_read b = 0"

definition chunks :: "bytes list \<Rightarrow> transport" where
  "chunks = map Ok"

definition unread :: "id_buffer option \<Rightarrow> transport \<Rightarrow> bytes" where
  "unread ident r = (case ident of None \<Rightarrow> [] | Some b \<Rightarrow> drop (id_bytes_read b) (take (id_total b) (id_buf b)))
     @ concat (map (\<lambda>c. case c of Ok s \<Rightarrow> s | _ \<Rightarrow> []) r)"

definition sound_buffer :: "id_buffer option \<Rightarrow> bool" where
  "sound_buffer ident \<longleftrightarrow> (case ident of None \<Rightarrow> True | Some b \<Rightarrow> id_bytes_read b \<le> id_total b \<and> id_total b \<le> length (id_buf b))"

lemma transport_read_chunks:
  assumes "c \<noteq> []" "0 < n"
  shows "transport_read n (chunks (c # cs)) = Ok (take n c, chunks (if n < length c then drop n c # cs else cs))"
  using assms by (simp add: chunks_def)

definition accepted_line :: "bytes \<Rightarrow> bool" where
  "accepted_line l \<longleftrightarrow> 8 \<le> length (line_text l) \<and> is_ssh_id (line_text l)"

text \<open>One read, as far as the buffer is concerned.\<close>

definition taken :: "bytes \<Rightarrow> id_buffer \<Rightarrow> nat \<Rightarrow> nat \<Rightarrow> id_buffer" where
  "taken t b n len = \<lparr>id_buf = t @ drop (length t) (id_buf b), id_total = n, id_bytes_read = len, id_sshid_len = id_sshid_len b\<rparr>"

lemma read_step:
  fixes cs :: "bytes list"
  assumes "ready l b" "c \<noteq> []" "length l < 256"
  defines "t \<equiv> l @ take (256 - length l) c" and "cs' \<equiv> (if 256 - length l < length c then drop (256 - length l) c # cs else cs)"
  shows "read_ssh_id b (chunks (c # cs)) =
    (let buf = t @ drop (length t) (id_buf b); (i, len) = scan_line buf (length t) 0 in
     if 0 < len then
       if 8 \<le> i \<and> is_ssh_id (take i buf) then and_then (slice 0 i buf) (\<lambda>s. Ok (s, (taken t b (length t) len)\<lparr>id_sshid_len := i\<rparr>, chunks cs'))
       else read_ssh_id (taken t b 0 0) (chunks cs')
     else read_ssh_id (taken t b (length t) 0) (chunks cs'))"
proof -
  have b: "length (id_buf b) = 256" "take (id_total b) (id_buf b) = l" "id_total b = length l" "id_bytes_read b = 0"
    using assms(1) by (auto simp: ready_def)
  have "slice_from (id_total b) (id_buf b) = Ok (drop (length l) (id_buf b))" using b assms(3) by (simp add: slice_from_def)
  moreover have "transport_read (256 - length l) (chunks (c # cs)) = Ok (take (256 - length l) c, chunks cs')"
    using assms(2,3) by (simp add: transport_read_chunks cs'_def)
  moreover have "length (take (256 - length l) c) \<noteq> 0" using assms(2,3) by simp
  moreover have "length t = length l + length (take (256 - length l) c)" by (simp add: t_def)
  ultimately show ?thesis
    using b by (subst read_ssh_id.simps) (simp add: t_def taken_def Let_def split_beta)
qed

lemma ready_taken: "ready l b \<Longrightarrow> length t \<le> 256 \<Longrightarrow> ready t (taken t b (length t) 0)" "ready l b \<Longrightarrow> length t \<le> 256 \<Longrightarrow> ready [] (taken t b 0 0)"
  by (simp_all add: ready_def taken_def)

lemma read_line:
  assumes "ready l b" "l @ concat cs = line @ LFb # rest" "length l \<le> length line" "length line < 256" "line \<noteq> []"
    and "LFb \<notin> set (tl line)" "[] \<notin> set cs"
  shows "\<exists>b' lost cs'. rest = lost @ concat cs' \<and> [] \<notin> set cs'
    \<and> (if accepted_line line then read_ssh_id b (chunks cs) = Ok (line_text line, b', chunks cs') \<and> unread (Some b') (chunks cs') = rest \<and> sound_buffer (Some b')
       else read_ssh_id b (chunks cs) = read_ssh_id b' (chunks cs') \<and> ready [] b')
    \<and> (\<forall>cs1 cs2. cs = cs1 @ cs2 \<and> l @ concat cs1 = line @ [LFb] \<longrightarrow> cs' = cs2)"
  using assms
proof (induction cs arbitrary: l b)
  case Nil
  then show ?case using arg_cong [OF Nil.prems(2), of length] by simp
next
  case (Cons c cs)
  define t where "t = l @ take (256 - length l) c"
  define ts where "ts = (if 256 - length l < length c then drop (256 - length l) c # cs else cs)"
  define buf where "buf = t @ drop (length t) (id_buf b)"
  have c: "c \<noteq> []" "length l < 256" using Cons.prems by auto
  note step = read_step [OF Cons.prems(1) c, of cs, folded t_def, folded ts_def buf_def]
  have eqn: "t @ drop (256 - length l) c @ concat cs = line @ LFb # rest"
    using Cons.prems(2) append_take_drop_id [of "256 - length l" c] unfolding t_def by (metis append_assoc concat.simps(2))
  have all: "line @ LFb # rest = t @ concat ts" using eqn by (auto simp: ts_def)
  have len: "length t \<le> 256" "length (id_buf b) = 256" using Cons.prems(1) by (auto simp: ready_def t_def)
  have nz: "[] \<notin> set ts" using Cons.prems(7) by (auto simp: ts_def)
  have nth: "buf ! j = (line @ LFb # rest) ! j" if "j < length t" for j
    using that unfolding all buf_def by (simp add: nth_append)
  have no_lf: "(line @ LFb # rest) ! j \<noteq> LFb" if "1 \<le> j" "j < length line" for j
    using that Cons.prems(5,6) by (cases line) (auto simp: nth_append nth_Cons' in_set_conv_nth split: if_splits)
  show ?case
  proof (cases "length line < length t")
    case True
    let ?i = "if last line = CRb then length line - 1 else length line"
    have at: "buf ! length line = LFb" "\<forall>j. 1 \<le> j \<and> j < length line \<longrightarrow> buf ! j \<noteq> LFb" "buf ! (length line - 1) = last line"
      using True nth no_lf Cons.prems(5) by (simp_all add: nth_append last_conv_nth)
    have scan: "scan_line buf (length t) 0 = (?i, length line + 1)"
      using scan_line_found [OF at(1) _ True at(2)] Cons.prems(5) at(3) by simp
    have lt: "take ?i buf = line_text line" "?i = length (line_text line)"
    proof -
      have "take k buf = take k line" if "k \<le> length line" for k
      proof -
        have "take k buf = take k t" using that True by (simp add: buf_def)
        also have "\<dots> = take k (t @ concat ts)" using that True by simp
        finally show ?thesis using that unfolding all [symmetric] by simp
      qed
      then show "take ?i buf = line_text line" using Cons.prems(5) by (simp add: line_text_def butlast_conv_take)
      show "?i = length (line_text line)" using Cons.prems(5) by (simp add: line_text_def)
    qed
    let ?lost = "drop (length line + 1) t"
    have r: "rest = ?lost @ concat ts"
      using arg_cong [OF all, of "drop (length line + 1)"] True by simp
    have al: "ts = cs2" if e: "c # cs = cs1 @ cs2" "l @ concat cs1 = line @ [LFb]" for cs1 cs2
    proof -
      from e Cons.prems(3) obtain cs1' where 1: "cs1 = c # cs1'" "cs = cs1' @ cs2"
        using arg_cong [OF e(2), of length] by (cases cs1) auto
      have n: "length l + length c + length (concat cs1') = length line + 1"
        using arg_cong [OF e(2), of length] 1 by simp
      then have "length (concat cs1') = 0" using True Cons.prems(4) by (simp only: t_def length_append length_take)
      then have "concat cs1' = []" by (simp only: length_0_conv)
      then have "cs1' = []" using Cons.prems(7) 1 by (cases cs1') auto
      then show ?thesis using n Cons.prems(4) 1 by (simp add: ts_def)
    qed
    have il: "?i \<le> length t" using True by auto
    have sl: "slice 0 ?i buf = Ok (line_text line)" using lt il by (simp add: slice_def buf_def)
    let ?n = "length (line_text line)"
    have n: "scan_line buf (length t) 0 = (?n, length line + 1)" "take ?n buf = line_text line" "slice 0 ?n buf = Ok (line_text line)"
      using scan lt sl by simp_all
    have step': "read_ssh_id b (chunks (c # cs)) = (if accepted_line line
        then Ok (line_text line, (taken t b (length t) (length line + 1))\<lparr>id_sshid_len := ?n\<rparr>, chunks ts)
        else read_ssh_id (taken t b 0 0) (chunks ts))"
      using step by (simp add: n accepted_line_def Let_def)
    have u: "unread (Some ((taken t b (length t) (length line + 1))\<lparr>id_sshid_len := ?n\<rparr>)) (chunks ts) = rest"
      by (simp add: unread_def taken_def chunks_def comp_def r)
    have sb: "sound_buffer (Some ((taken t b (length t) (length line + 1))\<lparr>id_sshid_len := ?n\<rparr>))"
      using True by (simp add: sound_buffer_def taken_def)
    let ?b = "if accepted_line line then (taken t b (length t) (length line + 1))\<lparr>id_sshid_len := ?n\<rparr> else taken t b 0 0"
    have "if accepted_line line then read_ssh_id b (chunks (c # cs)) = Ok (line_text line, ?b, chunks ts) \<and> unread (Some ?b) (chunks ts) = rest \<and> sound_buffer (Some ?b)
       else read_ssh_id b (chunks (c # cs)) = read_ssh_id ?b (chunks ts) \<and> ready [] ?b"
      using ready_taken(2) [OF Cons.prems(1) len(1)] step' u sb by simp
    with al r nz show ?thesis by blast
  next
    case False
    then have t: "t = l @ c" "ts = cs" using c Cons.prems(4) by (auto simp: t_def ts_def)
    have "scan_line buf (length t) 0 = (length t - 1, 0)"
      by (rule scan_line_none) (use False nth no_lf in auto)
    then have eq: "read_ssh_id b (chunks (c # cs)) = read_ssh_id (taken (l @ c) b (length (l @ c)) 0) (chunks cs)"
      using step t by (simp add: Let_def)
    have "\<exists>b' lost cs'. rest = lost @ concat cs' \<and> [] \<notin> set cs'
      \<and> (if accepted_line line then read_ssh_id (taken (l @ c) b (length (l @ c)) 0) (chunks cs) = Ok (line_text line, b', chunks cs')
            \<and> unread (Some b') (chunks cs') = rest \<and> sound_buffer (Some b')
         else read_ssh_id (taken (l @ c) b (length (l @ c)) 0) (chunks cs) = read_ssh_id b' (chunks cs') \<and> ready [] b')
      \<and> (\<forall>cs1 cs2. cs = cs1 @ cs2 \<and> (l @ c) @ concat cs1 = line @ [LFb] \<longrightarrow> cs' = cs2)"
      by (rule Cons.IH) (use Cons.prems False t ready_taken [OF Cons.prems(1), of "l @ c"] len in auto)
    then obtain b' lost cs' where r: "rest = lost @ concat cs'" "[] \<notin> set cs'"
      "if accepted_line line then read_ssh_id (taken (l @ c) b (length (l @ c)) 0) (chunks cs) = Ok (line_text line, b', chunks cs')
            \<and> unread (Some b') (chunks cs') = rest \<and> sound_buffer (Some b')
         else read_ssh_id (taken (l @ c) b (length (l @ c)) 0) (chunks cs) = read_ssh_id b' (chunks cs') \<and> ready [] b'"
      "\<And>cs1 cs2. cs = cs1 @ cs2 \<Longrightarrow> (l @ c) @ concat cs1 = line @ [LFb] \<Longrightarrow> cs' = cs2" by blast
    have "cs' = cs2" if "c # cs = cs1 @ cs2" "l @ concat cs1 = line @ [LFb]" for cs1 cs2
      using that r(4) Cons.prems(3) arg_cong [OF that(2), of length] by (cases cs1) auto
    with r eq show ?thesis by metis
  qed
qed

text \<open>A line that the reader can see the end of, and lines that are not the identification, each of them at
  the end of a chunk: it skips those.\<close>

definition short_line :: "bytes \<Rightarrow> bool" where
  "short_line line \<longleftrightarrow> line \<noteq> [] \<and> length line < 256 \<and> LFb \<notin> set (tl line)"

lemma skip_lines:
  assumes "ready [] b"
    and "\<forall>(line, g) \<in> set pre. short_line line \<and> \<not> accepted_line line \<and> concat g = line @ [LFb] \<and> [] \<notin> set g" "[] \<notin> set cs"
  shows "\<exists>b'. ready [] b' \<and> read_ssh_id b (chunks (concat (map snd pre) @ cs)) = read_ssh_id b' (chunks cs)"
  using assms
proof (induction pre arbitrary: b)
  case (Cons x pre)
  obtain line g where x: "x = (line, g)" by (cases x)
  let ?cs = "concat (map snd pre) @ cs"
  have l: "short_line line" "\<not> accepted_line line" "concat g = line @ [LFb]" "[] \<notin> set g" using Cons.prems(2) x by auto
  have "[] \<notin> set (g @ ?cs)" using Cons.prems(2,3) l(4) by auto
  then obtain b1 cs' where b1: "read_ssh_id b (chunks (g @ ?cs)) = read_ssh_id b1 (chunks cs')" "ready [] b1" "cs' = ?cs"
    using read_line [OF Cons.prems(1), of "g @ ?cs" line "concat ?cs"] l unfolding short_line_def by fastforce
  from Cons.IH [OF b1(2)] Cons.prems(2,3) obtain b' where "ready [] b'" "read_ssh_id b1 (chunks ?cs) = read_ssh_id b' (chunks cs)"
    by auto
  with b1 show ?case unfolding x by (intro exI [of _ b']) simp
qed auto

section \<open>What follows the line\<close>

fun ssh_reads :: "nat list \<Rightarrow> id_buffer option \<Rightarrow> transport \<Rightarrow> bytes rs" where
  "ssh_reads [] ident r = Ok []"
| "ssh_reads (n # ns) ident r =
     and_then (ssh_poll_read n ident r) (\<lambda>(got, ident, r). and_then (ssh_reads ns ident r) (\<lambda>more. Ok (got @ more)))"

lemma transport_read_unread:
  assumes "[] \<notin> set cs" "0 < n"
  shows "\<exists>got cs'. transport_read n (chunks cs) = Ok (got, chunks cs') \<and> [] \<notin> set cs' \<and> concat cs = got @ concat cs'
    \<and> (got = [] \<longrightarrow> cs = [])"
proof (cases cs)
  case Nil
  then show ?thesis by (intro exI [of _ "[]"]) (simp add: chunks_def)
next
  case (Cons c ds)
  with assms have "c \<noteq> []" by auto
  with transport_read_chunks [OF this assms(2), of ds] assms Cons show ?thesis
    by (intro exI [of _ "take n c"] exI [of _ "if n < length c then drop n c # ds else ds"]) auto
qed

lemma concat_read_chunks [simp]: "concat (map (\<lambda>c. case c of Ok s \<Rightarrow> s | _ \<Rightarrow> []) (chunks cs)) = concat cs"
  by (simp add: chunks_def comp_def)

lemma split_window: "i \<le> m \<Longrightarrow> m \<le> t \<Longrightarrow> drop i (take t s) = take (m - i) (drop i s) @ drop m (take t s)"
  using take_add [of "m - i" "t - m" "drop i s"] by (simp add: drop_take)

lemma poll_read_unread:
  assumes "[] \<notin> set cs" "0 < n" "sound_buffer ident"
  shows "\<exists>got ident' cs'. ssh_poll_read n ident (chunks cs) = Ok (got, ident', chunks cs') \<and> [] \<notin> set cs' \<and> sound_buffer ident'
    \<and> unread ident (chunks cs) = got @ unread ident' (chunks cs') \<and> (got = [] \<longrightarrow> unread ident (chunks cs) = [])"
proof (cases "\<exists>b. ident = Some b \<and> id_bytes_read b < id_total b")
  case True
  then obtain b where b: "ident = Some b" "id_bytes_read b < id_total b" by blast
  with assms(3) have l: "id_total b \<le> length (id_buf b)" by (simp add: sound_buffer_def)
  let ?m = "min (id_total b) (id_bytes_read b + n)"
  let ?got = "take (?m - id_bytes_read b) (drop (id_bytes_read b) (id_buf b))"
  have s: "slice (id_bytes_read b) ?m (id_buf b) = Ok ?got" using b l by (simp add: slice_def)
  have "drop (id_bytes_read b) (take (id_total b) (id_buf b)) = ?got @ drop ?m (take (id_total b) (id_buf b))"
    using b(2) by (intro split_window) simp_all
  moreover have "?got \<noteq> []" using b l assms(2) by auto
  ultimately show ?thesis
    using b l s assms(1) by (intro exI [of _ ?got] exI [of _ "Some (b\<lparr>id_bytes_read := ?m\<rparr>)"] exI [of _ cs])
      (simp add: ssh_poll_read_def unread_def sound_buffer_def Let_def)
next
  case False
  from transport_read_unread [OF assms(1,2)] obtain got cs' where
    "transport_read n (chunks cs) = Ok (got, chunks cs')" "[] \<notin> set cs'" "concat cs = got @ concat cs'" "got = [] \<longrightarrow> cs = []" by blast
  with False show ?thesis
    by (intro exI [of _ got] exI [of _ None] exI [of _ cs'])
      (auto simp: ssh_poll_read_def unread_def sound_buffer_def Let_def split: option.splits)
qed

lemma reads_all:
  assumes "[] \<notin> set cs" "sound_buffer ident" "0 \<notin> set ns" "length (unread ident (chunks cs)) \<le> length ns"
  shows "ssh_reads ns ident (chunks cs) = Ok (unread ident (chunks cs))"
  using assms
proof (induction ns arbitrary: ident cs)
  case (Cons n ns)
  from poll_read_unread [OF Cons.prems(1) _ Cons.prems(2), of n] Cons.prems(3) obtain got ident' cs' where
    r: "ssh_poll_read n ident (chunks cs) = Ok (got, ident', chunks cs')" "[] \<notin> set cs'" "sound_buffer ident'"
      "unread ident (chunks cs) = got @ unread ident' (chunks cs')" "got = [] \<longrightarrow> unread ident (chunks cs) = []" by auto
  then have "length (unread ident' (chunks cs')) \<le> length ns" using Cons.prems(4) by (cases got) auto
  with Cons.IH [OF r(2,3)] Cons.prems(3) r show ?case by simp
qed simp

section \<open>Properties\<close>

lemma ready_new: "ready [] id_buffer_new"
  by (simp add: ready_def id_buffer_new_def)

text \<open>The line of an identification, as \<open>send_ssh_id\<close> writes it.\<close>

definition sent_line :: "bytes \<Rightarrow> bytes \<Rightarrow> bytes" where
  "sent_line text eol = butlast (text @ eol)"

lemma sent_line_facts:
  assumes "eol = [LFb] \<or> eol = [CRb, LFb]" "is_ssh_id text" "CRb \<notin> set text" "LFb \<notin> set text" "length text \<le> 254"
  shows "short_line (sent_line text eol)" "accepted_line (sent_line text eol)" "line_text (sent_line text eol) = text"
    "text @ eol = sent_line text eol @ [LFb]"
proof -
  from assms(2) have 8: "8 \<le> length text" "text \<noteq> []"
    unfolding is_ssh_id_def by (auto simp: as_bytes_def dest!: arg_cong [of _ _ length])
  with assms show "short_line (sent_line text eol)"
    by (cases "text") (auto simp: short_line_def sent_line_def butlast_append)
  have "last text \<noteq> CRb" using assms(3) last_in_set [OF 8(2)] by metis
  then show "line_text (sent_line text eol) = text"
    using assms(1,3) 8 by (auto simp: line_text_def sent_line_def butlast_append)
  with 8 assms(2) show "accepted_line (sent_line text eol)" by (simp add: accepted_line_def)
  show "text @ eol = sent_line text eol @ [LFb]" using assms(1) by (auto simp: sent_line_def butlast_append)
qed

text \<open>Property C27: the identification string that a side sends arrives at the other, however the stream cuts
  it up, after any number of other lines (each at the end of a chunk): what is read is what the sender
  hashes, and the reads that follow deliver all the bytes behind it and nothing else.\<close>

theorem identification_read:
  assumes "\<forall>(line, g) \<in> set preamble. short_line line \<and> \<not> accepted_line line \<and> concat g = line @ [LFb] \<and> [] \<notin> set g"
    and i: "ssh_id_write i [] = as_kex_hash_bytes i @ eol" "eol = [LFb] \<or> eol = [CRb, LFb]" "is_ssh_id (as_kex_hash_bytes i)"
      "CRb \<notin> set (as_kex_hash_bytes i)" "LFb \<notin> set (as_kex_hash_bytes i)" "length (as_kex_hash_bytes i) \<le> 254"
    and cs: "concat cs = ssh_id_write i [] @ rest" "[] \<notin> set cs"
    and ns: "0 \<notin> set ns" "length rest \<le> length ns"
  shows "\<exists>b r. read_ssh_id id_buffer_new (chunks (concat (map snd preamble) @ cs)) = Ok (as_kex_hash_bytes i, b, r)
    \<and> ssh_reads ns (Some b) r = Ok rest"
proof -
  note f = sent_line_facts [OF i(2-6)]
  from skip_lines [OF ready_new assms(1) cs(2)] obtain b0 where b0: "ready [] b0"
    "read_ssh_id id_buffer_new (chunks (concat (map snd preamble) @ cs)) = read_ssh_id b0 (chunks cs)" by blast
  have "[] @ concat cs = sent_line (as_kex_hash_bytes i) eol @ LFb # rest" using cs(1) f(4) i(1) by simp
  from read_line [OF b0(1) this] f(1-3) cs(2) obtain b' cs' where "[] \<notin> set cs'"
    "read_ssh_id b0 (chunks cs) = Ok (as_kex_hash_bytes i, b', chunks cs')" "unread (Some b') (chunks cs') = rest" "sound_buffer (Some b')"
    unfolding short_line_def by auto
  with reads_all [OF this(1,4) ns(1)] ns(2) b0(2) show ?thesis by auto
qed

text \<open>The identification of a client comes with the start of its KEXINIT, after a greeting, in pieces.\<close>

definition sample_pieces :: "bytes list" where
  "sample_pieces = [as_bytes ''SSH-2.0'', as_bytes ''-x'' @ [CRb], [LFb, 0, 0], [1, 2]]"

theorem identification_read_witness:
  "\<exists>b r. read_ssh_id id_buffer_new (chunks ([as_bytes ''hi'', [CRb, LFb]] @ sample_pieces)) = Ok (as_bytes ''SSH-2.0-x'', b, r)
    \<and> ssh_reads [1, 3, 2, 9] (Some b) r = Ok [0, 0, 1, 2]"
proof -
  let ?pre = "[(as_bytes ''hi'' @ [CRb], [as_bytes ''hi'', [CRb, LFb]])]"
  have 1: "\<forall>(line, g) \<in> set ?pre. short_line line \<and> \<not> accepted_line line \<and> concat g = line @ [LFb] \<and> [] \<notin> set g"
    by (simp add: short_line_def accepted_line_def line_text_def as_bytes_def)
  have 2: "is_ssh_id (as_kex_hash_bytes (Standard ''SSH-2.0-x''))"
    by (simp add: is_ssh_id_def as_bytes_def valid_utf8_ascii)
  have 3: "ssh_id_write (Standard ''SSH-2.0-x'') [] = as_kex_hash_bytes (Standard ''SSH-2.0-x'') @ [CRb, LFb]"
    "concat sample_pieces = ssh_id_write (Standard ''SSH-2.0-x'') [] @ [0, 0, 1, 2]" "[] \<notin> set sample_pieces"
    by (simp_all add: as_bytes_def sample_pieces_def)
  show ?thesis
    using identification_read [OF 1 3(1) _ 2 _ _ _ 3(2,3), of "[1, 3, 2, 9]"] by (simp add: as_bytes_def)
qed

text \<open>A line before the identification that shares a chunk with it takes it along: the rest of
  the buffer is thrown away, and with nothing else to come the reader ends with an error.\<close>

theorem identification_lost:
  assumes "short_line line" "\<not> accepted_line line" "length line + 1 + length behind \<le> 256"
  shows "read_ssh_id id_buffer_new (chunks [line @ LFb # behind]) = Err DisconnectError"
proof -
  let ?c = "line @ LFb # behind"
  let ?buf = "?c @ drop (length ?c) (id_buf id_buffer_new)"
  have l: "line \<noteq> []" "LFb \<notin> set (tl line)" using assms(1) by (simp_all add: short_line_def)
  have n: "\<forall>j. 1 \<le> j \<and> j < length line \<longrightarrow> ?buf ! j \<noteq> LFb"
    using l by (cases line) (auto simp: nth_append nth_Cons' in_set_conv_nth)
  have scan: "scan_line ?buf (length ?c) 0 = (length (line_text line), length line + 1)"
    using scan_line_found [of ?buf "length line" 0 "length ?c", OF _ _ _ n] l
    by (simp add: nth_append line_text_def last_conv_nth)
  have "take (length (line_text line)) ?buf = line_text line"
    by (simp add: line_text_def butlast_conv_take)
  moreover have "[] @ take (256 - length ([] :: bytes)) ?c = ?c" "\<not> 256 - length ([] :: bytes) < length ?c" using assms(3) by simp_all
  moreover have "\<not> (8 \<le> length (line_text line) \<and> is_ssh_id (line_text line))" using assms(2) by (simp add: accepted_line_def)
  ultimately have "read_ssh_id id_buffer_new (chunks [?c]) = read_ssh_id (taken ?c id_buffer_new 0 0) (chunks [])"
    using read_step [OF ready_new, of ?c "[]"] scan by (simp only: Let_def prod.case if_False if_True) simp
  then show ?thesis
    by (simp add: read_ssh_id.simps [of _ "[]"] chunks_def slice_from_def taken_def)
qed

theorem identification_lost_witness:
  "read_ssh_id id_buffer_new (chunks [as_bytes ''hello'' @ LFb # as_bytes ''SSH-2.0-x'' @ [CRb, LFb]]) = Err DisconnectError"
  using identification_lost [of "as_bytes ''hello''" "as_bytes ''SSH-2.0-x'' @ [CRb, LFb]"]
  by (simp add: short_line_def accepted_line_def line_text_def as_bytes_def)

end
