(* ===== verification/Channels.thy ===== *)
theory Channels
  imports Lib Pty
begin

text \<open>
  The channels as the application sees them (\<open>channels/\<close>): the messages between a session and a channel,
  the session's reference to a channel, and the two ends of a byte stream over a channel, \<open>ChannelRx\<close> and
  \<open>ChannelTx\<close>. A \<open>mpsc\<close> channel is a list; a \<open>poll\<close> returns \<open>Ready\<close> or \<open>Pending\<close>, and wake-ups are left to the
  runtime. The lemmas relate a reader to the bytes in its queue and a writer to its window.
\<close>

section \<open>Messages\<close>

datatype channel_msg =
    CmOpen channel_id u32 u32 \<comment> \<open>\<open>max_packet_size\<close>, \<open>window_size\<close>\<close>
  | CmData bytes
  | CmExtendedData bytes u32
  | CmEof
  | CmClose
  | CmRequestPty bool string u32 u32 u32 u32 "(pty \<times> u32) list"
  | CmRequestShell bool
  | CmExec bool bytes
  | CmSignal sig
  | CmRequestSubsystem bool string
  | CmRequestX11 bool bool string string u32
  | CmSetEnv bool string string
  | CmWindowChange u32 u32 u32 u32
  | CmAgentForward bool
  | CmXonXoff bool
  | CmExitStatus u32
  | CmExitSignal sig bool string string
  | CmWindowAdjusted u32
  | CmSuccess
  | CmFailure
  | CmOpenFailure channel_open_failure

section \<open>The session's reference to a channel\<close>

text \<open>\<open>ChannelRef\<close> with its \<open>WindowSizeRef\<close>: the queue of messages that the channel has not read, its
  capacity, whether the channel still listens, the window it may write. \<open>send\<close> waits for room; \<open>try_send\<close>
  does not.\<close>

record channel_ref =
  cr_queue :: "channel_msg list"
  cr_capacity :: nat
  cr_listening :: bool
  cr_window :: u32

definition channel_ref_new :: "nat \<Rightarrow> channel_ref" where
  "channel_ref_new capacity = \<lparr>cr_queue = [], cr_capacity = capacity, cr_listening = True, cr_window = 0\<rparr>"

definition window_update :: "u32 \<Rightarrow> channel_ref \<Rightarrow> channel_ref" where
  "window_update n c = c\<lparr>cr_window := n\<rparr>"

definition chan_send :: "channel_msg \<Rightarrow> channel_ref \<Rightarrow> channel_ref rs" where
  "chan_send m c = (if cr_listening c then Ok (c\<lparr>cr_queue := cr_queue c @ [m]\<rparr>) else Err SendError)"

definition chan_try_send :: "channel_msg \<Rightarrow> channel_ref \<Rightarrow> channel_ref rs" where
  "chan_try_send m c =
     (if cr_listening c \<and> length (cr_queue c) < cr_capacity c then Ok (c\<lparr>cr_queue := cr_queue c @ [m]\<rparr>)
      else Err SendError)"

text \<open>\<open>let _ = chan.send(..)\<close> and \<open>.unwrap_or(())\<close>: a failure is ignored.\<close>

definition send_ignoring :: "channel_msg \<Rightarrow> channel_ref \<Rightarrow> channel_ref" where
  "send_ignoring m c = (case chan_send m c of Ok c \<Rightarrow> c | _ \<Rightarrow> c)"

text \<open>\<open>Channel::new\<close>: the handle that the application gets, and the session's reference. They share the
  window, which here is the reference's.\<close>

record channel =
  ch_id :: channel_id
  ch_max_packet_size :: u32

definition channel_new :: "channel_id \<Rightarrow> u32 \<Rightarrow> u32 \<Rightarrow> nat \<Rightarrow> channel \<times> channel_ref" where
  "channel_new c max_packet_size window_size channel_buffer_size =
     (\<lparr>ch_id = c, ch_max_packet_size = max_packet_size\<rparr>,
      (channel_ref_new channel_buffer_size)\<lparr>cr_window := window_size\<rparr>)"

definition writable_packet_size :: "channel \<Rightarrow> channel_ref \<Rightarrow> nat" where
  "writable_packet_size ch c = unat (min (ch_max_packet_size ch) (cr_window c))"

section \<open>\<open>ChannelRx\<close>\<close>

datatype 'a poll = Ready 'a | Pending

text \<open>The receiver's queue, whether more can come, the message of which a part has been read.\<close>

record channel_rx =
  rx_queue :: "channel_msg list"
  rx_open :: bool
  rx_buffer :: "(channel_msg \<times> nat) option"
  rx_ext :: "u32 option"

text \<open>\<open>poll_recv\<close>: \<open>Ready None\<close> when the queue is empty and no sender is left.\<close>

definition poll_recv :: "channel_rx \<Rightarrow> channel_msg option poll \<times> channel_rx" where
  "poll_recv r =
     (case rx_queue r of
        m # q \<Rightarrow> (Ready (Some m), r\<lparr>rx_queue := q\<rparr>)
      | [] \<Rightarrow> (if rx_open r then (Pending, r) else (Ready None, r)))"

text \<open>The message to read from, and how far it has been read.\<close>

definition rx_next :: "channel_rx \<Rightarrow> (channel_msg \<times> nat) option poll \<times> channel_rx" where
  "rx_next r =
     (case rx_buffer r of
        Some b \<Rightarrow> (Ready (Some b), r\<lparr>rx_buffer := None\<rparr>)
      | None \<Rightarrow>
          (case poll_recv r of
             (Ready (Some m), r) \<Rightarrow> (Ready (Some (m, 0)), r)
           | (Ready None, r) \<Rightarrow> (Ready None, r)
           | (Pending, r) \<Rightarrow> (Pending, r)))"

text \<open>The data of a message on the stream that is read.\<close>

fun stream_data :: "u32 option \<Rightarrow> channel_msg \<Rightarrow> bytes option" where
  "stream_data None (CmData d) = Some d"
| "stream_data (Some t) (CmExtendedData d e) = (if e = t then Some d else None)"
| "stream_data _ _ = None"

text \<open>\<open>poll_read\<close> with room for \<open>n\<close> bytes: the bytes that were put into the buffer. No bytes is the end of
  the file. A message that is neither data of the stream nor \<open>Eof\<close> is dropped.\<close>

definition rx_poll_read :: "nat \<Rightarrow> channel_rx \<Rightarrow> bytes poll \<times> channel_rx" where
  "rx_poll_read n r =
     (case rx_next r of
        (Pending, r) \<Rightarrow> (Pending, r)
      | (Ready None, r) \<Rightarrow> (Ready [], r)
      | (Ready (Some (msg, idx)), r) \<Rightarrow>
          (case stream_data (rx_ext r) msg of
             Some d \<Rightarrow>
               let readable = min n (length d - idx) in
               (Ready (take readable (drop idx d)),
                if idx + readable \<noteq> length d then r\<lparr>rx_buffer := Some (msg, idx + readable)\<rparr> else r)
           | None \<Rightarrow>
               if msg = CmEof then (Ready [], r\<lparr>rx_open := False\<rparr>) else (Pending, r)))"

section \<open>\<open>ChannelTx\<close>\<close>

text \<open>The writer: the window it shares with its channel, the message that waits for room in the session's
  queue, and what it has put into that queue.\<close>

record channel_tx =
  tx_id :: channel_id
  tx_window :: u32
  tx_max_packet_size :: u32
  tx_ext :: "u32 option"
  tx_send_fut :: "(channel_msg \<times> nat) option"
  tx_sent :: "(channel_id \<times> channel_msg) list"

datatype write_error = WriteZero | BrokenPipe

definition poll_writable :: "nat \<Rightarrow> channel_tx \<Rightarrow> nat poll \<times> channel_tx" where
  "poll_writable buf_len t =
     (let writable = min (min (tx_max_packet_size t) (tx_window t)) (as_u32 buf_len) in
      if writable \<noteq> 0 then (Ready (unat writable), t\<lparr>tx_window := tx_window t - writable\<rparr>) else (Pending, t))"

definition poll_mk_msg :: "bytes \<Rightarrow> channel_tx \<Rightarrow> (channel_msg \<times> nat) poll \<times> channel_tx" where
  "poll_mk_msg buf t =
     (case poll_writable (length buf) t of
        (Pending, t) \<Rightarrow> (Pending, t)
      | (Ready writable, t) \<Rightarrow>
          let data = take writable buf in
          (Ready (case tx_ext t of None \<Rightarrow> CmData data | Some ext \<Rightarrow> CmExtendedData data ext, writable), t))"

text \<open>The future that reserves a place in the session's queue, at this poll: it is pending, or it has a
  place (\<open>True\<close>), or the session is gone (\<open>False\<close>).\<close>

definition handle_write_result :: "bool \<Rightarrow> channel_msg \<Rightarrow> nat \<Rightarrow> channel_tx \<Rightarrow> (write_error + nat) \<times> channel_tx" where
  "handle_write_result place msg writable t =
     (let t = t\<lparr>tx_send_fut := None\<rparr> in
      if place then (Inr writable, t\<lparr>tx_sent := tx_sent t @ [(tx_id t, msg)]\<rparr>) else (Inl BrokenPipe, t))"

definition tx_poll_write :: "bool poll \<Rightarrow> bytes \<Rightarrow> channel_tx \<Rightarrow> (write_error + nat) poll \<times> channel_tx" where
  "tx_poll_write place buf t =
     (if buf = [] then (Ready (Inl WriteZero), t)
      else
        (case (case tx_send_fut t of
                 Some f \<Rightarrow> (Ready f, t)
               | None \<Rightarrow> (case poll_mk_msg buf t of
                            (Ready f, t) \<Rightarrow> (Ready f, t\<lparr>tx_send_fut := Some f\<rparr>)
                          | (Pending, t) \<Rightarrow> (Pending, t))) of
           (Pending, t) \<Rightarrow> (Pending, t)
         | (Ready (msg, writable), t) \<Rightarrow>
             (case place of
                Pending \<Rightarrow> (Pending, t)
              | Ready p \<Rightarrow> (case handle_write_result p msg writable t of (r, t) \<Rightarrow> (Ready r, t)))))"

text \<open>A shutdown sends \<open>Eof\<close>, also in the place of a message that was still waiting.\<close>

definition tx_poll_shutdown :: "bool poll \<Rightarrow> channel_tx \<Rightarrow> (write_error + unit) poll \<times> channel_tx" where
  "tx_poll_shutdown place t =
     (let t = (case tx_send_fut t of Some f \<Rightarrow> t | None \<Rightarrow> t\<lparr>tx_send_fut := Some (CmEof, 0)\<rparr>) in
      (case place of
         Pending \<Rightarrow> (Pending, t)
       | Ready p \<Rightarrow>
           (case handle_write_result p CmEof 0 t of
              (Inl e, t) \<Rightarrow> (Ready (Inl e), t)
            | (Inr _, t) \<Rightarrow> (Ready (Inr ()), t))))"

section \<open>Reading\<close>

text \<open>The bytes that a reader still has to deliver: the rest of the message begun, then the data of its
  stream up to the first \<open>Eof\<close>.\<close>

fun queue_stream :: "u32 option \<Rightarrow> channel_msg list \<Rightarrow> bytes" where
  "queue_stream ext [] = []"
| "queue_stream ext (m # q) =
     (if m = CmEof then []
      else (case stream_data ext m of Some d \<Rightarrow> d | None \<Rightarrow> []) @ queue_stream ext q)"

definition rx_stream :: "channel_rx \<Rightarrow> bytes" where
  "rx_stream r =
     (case rx_buffer r of
        Some (m, idx) \<Rightarrow> (case stream_data (rx_ext r) m of Some d \<Rightarrow> drop idx d | None \<Rightarrow> [])
      | None \<Rightarrow> []) @ queue_stream (rx_ext r) (rx_queue r)"

text \<open>What holds between the polls: a message begun is data of the stream of which something is left.\<close>

definition rx_inv :: "channel_rx \<Rightarrow> bool" where
  "rx_inv r \<longleftrightarrow>
     (case rx_buffer r of Some (m, idx) \<Rightarrow> (\<exists>d. stream_data (rx_ext r) m = Some d \<and> idx < length d) | None \<Rightarrow> True)
   \<and> (\<forall>m \<in> set (rx_queue r). stream_data (rx_ext r) m \<noteq> Some [])"

lemma stream_data_not_eof [simp]: "stream_data ext CmEof = None"
  by (cases ext) simp_all

lemma rx_read_step:
  assumes "rx_inv r" "0 < n" "rx_poll_read n r = (p, r')"
  shows "case p of
      Pending \<Rightarrow> rx_stream r' = rx_stream r \<and> rx_inv r'
    | Ready s \<Rightarrow> length s \<le> n \<and>
        (if s = [] then rx_stream r = [] \<and> \<not> rx_open r' else rx_stream r = s @ rx_stream r' \<and> rx_inv r')"
proof (cases "rx_buffer r")
  case (Some b)
  obtain m idx where b: "b = (m, idx)" by (cases b)
  with Some assms(1) obtain d where d: "stream_data (rx_ext r) m = Some d" "idx < length d" by (auto simp: rx_inv_def)
  let ?k = "min n (length d - idx)"
  have split: "drop idx d = take ?k (drop idx d) @ drop (idx + ?k) d"
    by (metis add.commute append_take_drop_id drop_drop)
  have k: "0 < ?k" using d(2) assms(2) by simp
  show ?thesis
  proof (cases "idx + ?k = length d")
    case True
    then show ?thesis
      using Some b d k split assms by (auto simp: rx_poll_read_def rx_next_def Let_def rx_stream_def rx_inv_def)
  next
    case False
    then have "idx + ?k < length d" using d(2) by simp
    then show ?thesis
      using Some b d k False split assms
      by (auto simp: rx_poll_read_def rx_next_def Let_def rx_stream_def rx_inv_def)
  qed
next
  case None
  show ?thesis
  proof (cases "rx_queue r")
    case Nil
    then show ?thesis
      using None assms by (auto simp: rx_poll_read_def rx_next_def poll_recv_def rx_stream_def rx_inv_def split: if_splits)
  next
    case (Cons m q)
    show ?thesis
    proof (cases "stream_data (rx_ext r) m")
      case None': None
      then show ?thesis
        using None Cons assms
        by (cases "m = CmEof")
          (auto simp: rx_poll_read_def rx_next_def poll_recv_def rx_stream_def rx_inv_def)
    next
      case (Some d)
      then have m: "m \<noteq> CmEof" "d \<noteq> []" using assms(1) Cons by (auto simp: rx_inv_def)
      let ?k = "min n (length d)"
      have split: "d = take ?k d @ drop ?k d" by simp
      have k: "0 < ?k" using m assms(2) by simp
      show ?thesis
      proof (cases "?k = length d")
        case True
        then show ?thesis
          using None Cons Some m k assms
          by (auto simp: rx_poll_read_def rx_next_def poll_recv_def Let_def rx_stream_def rx_inv_def)
      next
        case False
        then have "?k < length d" by simp
        then show ?thesis
          using None Cons Some m k False split assms
          by (auto simp: rx_poll_read_def rx_next_def poll_recv_def Let_def rx_stream_def rx_inv_def)
      qed
    qed
  qed
qed

section \<open>Writing\<close>

fun msg_bytes :: "channel_msg \<Rightarrow> bytes" where
  "msg_bytes (CmData d) = d"
| "msg_bytes (CmExtendedData d e) = d"
| "msg_bytes _ = []"

text \<open>What the writer holds: the message that waits carries \<open>writable\<close> bytes.\<close>

definition tx_inv :: "channel_tx \<Rightarrow> bool" where
  "tx_inv t \<longleftrightarrow> (case tx_send_fut t of Some (m, n) \<Rightarrow> length (msg_bytes m) = n \<and> stream_data (tx_ext t) m \<noteq> None | None \<Rightarrow> True)"

definition tx_held :: "channel_tx \<Rightarrow> nat" where
  "tx_held t = (case tx_send_fut t of Some (m, n) \<Rightarrow> n | None \<Rightarrow> 0)"

definition tx_bytes :: "channel_tx \<Rightarrow> bytes" where
  "tx_bytes t = concat (map (\<lambda>(c, m). msg_bytes m) (tx_sent t))"

lemma poll_writable_Ready:
  assumes "poll_writable len t = (Ready n, t')" "len < 2 ^ 32"
  shows "0 < n \<and> n \<le> len \<and> n \<le> unat (tx_max_packet_size t) \<and> n \<le> unat (tx_window t)
    \<and> t' = t\<lparr>tx_window := tx_window t - as_u32 n\<rparr> \<and> unat (tx_window t') = unat (tx_window t) - n"
proof -
  let ?w = "min (min (tx_max_packet_size t) (tx_window t)) (as_u32 len)"
  have w: "?w \<noteq> 0" "n = unat ?w" "t' = t\<lparr>tx_window := tx_window t - ?w\<rparr>"
    using assms(1) by (auto simp: poll_writable_def Let_def split: if_splits)
  have "?w \<le> tx_max_packet_size t" "?w \<le> tx_window t" "?w \<le> as_u32 len"
    by (simp_all add: min.coboundedI1 min.coboundedI2)
  then have "n \<le> unat (tx_max_packet_size t)" "n \<le> unat (tx_window t)" "n \<le> len"
    using w(2) assms(2) by (simp_all only: word_le_nat_alt unat_as_u32)
  moreover have "0 < n" using w(1,2) unat_gt_0 [of ?w] by simp
  moreover have "as_u32 n = ?w" using w(2) by simp
  moreover have "unat (tx_window t - ?w) = unat (tx_window t) - n"
    using unat_sub [of ?w "tx_window t"] \<open>?w \<le> tx_window t\<close> w(2) by simp
  ultimately show ?thesis using w(3) by simp
qed

lemma tx_write_step:
  assumes "tx_inv t" "buf \<noteq> []" "length buf < 2 ^ 32" "tx_poll_write place buf t = (p, t')"
  shows "tx_inv t' \<and> unat (tx_window t') + tx_held t' \<le> unat (tx_window t) + tx_held t
    \<and> (case p of
         Ready (Inr n) \<Rightarrow> unat (tx_window t') + n = unat (tx_window t) + tx_held t \<and> tx_held t' = 0
           \<and> (\<exists>m. tx_sent t' = tx_sent t @ [(tx_id t, m)] \<and> length (msg_bytes m) = n
                \<and> (tx_send_fut t = None \<longrightarrow> msg_bytes m = take n buf \<and> n \<le> unat (tx_max_packet_size t)))
       | _ \<Rightarrow> tx_sent t' = tx_sent t)"
proof (cases "tx_send_fut t")
  case (Some f)
  obtain m n where f: "f = (m, n)" by (cases f)
  show ?thesis
    using assms Some f
    by (cases place) (auto simp: tx_poll_write_def handle_write_result_def Let_def tx_inv_def tx_held_def split: if_splits)
next
  case None
  obtain q t1 where w: "poll_writable (length buf) t = (q, t1)" by (cases "poll_writable (length buf) t")
  show ?thesis
  proof (cases q)
    case Pending
    then have "t1 = t" using w by (auto simp: poll_writable_def Let_def split: if_splits)
    then show ?thesis
      using assms None w Pending by (auto simp: tx_poll_write_def poll_mk_msg_def)
  next
    case (Ready n)
    note r = poll_writable_Ready [OF w [unfolded Ready] assms(3)]
    show ?thesis
      using assms None w Ready r
      by (cases place; cases "tx_ext t")
        (auto simp: tx_poll_write_def poll_mk_msg_def handle_write_result_def Let_def tx_inv_def tx_held_def split: if_splits)
  qed
qed

section \<open>Properties\<close>

text \<open>Property C26: a reader of a channel delivers, poll by poll and whatever the sizes of its buffers,
  exactly the data of its stream up to the end of file, and reports the end only there, as long as no
  message carries empty data; an empty data message at the front is reported as the end of the file.\<close>

theorem reader_delivers_stream:
  assumes "rx_inv r" "0 < n" "rx_poll_read n r = (p, r')"
  shows "case p of
      Pending \<Rightarrow> rx_stream r' = rx_stream r \<and> rx_inv r'
    | Ready s \<Rightarrow> length s \<le> n \<and>
        (if s = [] then rx_stream r = [] \<and> \<not> rx_open r' else rx_stream r = s @ rx_stream r' \<and> rx_inv r')"
  by (rule rx_read_step [OF assms])

theorem reader_delivers_stream_witness:
  "rx_poll_read 2 \<lparr>rx_queue = [CmData [1, 2, 3], CmEof], rx_open = True, rx_buffer = None, rx_ext = None\<rparr>
    = (Ready [1, 2], \<lparr>rx_queue = [CmEof], rx_open = True, rx_buffer = Some (CmData [1, 2, 3], 2), rx_ext = None\<rparr>)
   \<and> rx_stream \<lparr>rx_queue = [CmData [1, 2, 3], CmEof], rx_open = True, rx_buffer = None, rx_ext = None\<rparr> = [1, 2, 3]"
proof -
  let ?r = "\<lparr>rx_queue = [CmData [1, 2, 3], CmEof], rx_open = True, rx_buffer = None, rx_ext = None\<rparr>"
  have p: "rx_poll_read 2 ?r
    = (Ready [1, 2], \<lparr>rx_queue = [CmEof], rx_open = True, rx_buffer = Some (CmData [1, 2, 3], 2), rx_ext = None\<rparr>)"
    by (simp add: rx_poll_read_def rx_next_def poll_recv_def Let_def)
  have "rx_inv ?r" by (simp add: rx_inv_def)
  from reader_delivers_stream [OF this _ p] p show ?thesis by (simp add: rx_stream_def)
qed

text \<open>An empty data message, which a peer is free to send, reads as the end of the file.\<close>

lemma empty_data_reads_as_end:
  "rx_poll_read n \<lparr>rx_queue = CmData [] # q, rx_open = True, rx_buffer = None, rx_ext = None\<rparr>
    = (Ready [], \<lparr>rx_queue = q, rx_open = True, rx_buffer = None, rx_ext = None\<rparr>)"
  by (simp add: rx_poll_read_def rx_next_def poll_recv_def Let_def)

text \<open>A writer takes off the shared window exactly the bytes that it puts into a message, at
  most the peer's packet size and the window; what it reports as written is what the message carries;
  and while the message waits for room nothing is lost or taken twice.\<close>

theorem writer_keeps_window:
  assumes "tx_inv t" "buf \<noteq> []" "length buf < 2 ^ 32" "tx_poll_write place buf t = (p, t')"
  shows "tx_inv t' \<and> unat (tx_window t') + tx_held t' \<le> unat (tx_window t) + tx_held t
    \<and> (case p of
         Ready (Inr n) \<Rightarrow> unat (tx_window t') + n = unat (tx_window t) + tx_held t \<and> tx_held t' = 0
           \<and> (\<exists>m. tx_sent t' = tx_sent t @ [(tx_id t, m)] \<and> length (msg_bytes m) = n
                \<and> (tx_send_fut t = None \<longrightarrow> msg_bytes m = take n buf \<and> n \<le> unat (tx_max_packet_size t)))
       | _ \<Rightarrow> tx_sent t' = tx_sent t)"
  by (rule tx_write_step [OF assms])

theorem writer_keeps_window_witness:
  "\<exists>t'. tx_poll_write (Ready True) [1, 2, 3] \<lparr>tx_id = ChannelId 4, tx_window = 2, tx_max_packet_size = 100,
      tx_ext = None, tx_send_fut = None, tx_sent = []\<rparr> = (Ready (Inr 2), t')
    \<and> tx_sent t' = [(ChannelId 4, CmData [1, 2])] \<and> tx_window t' = 0"
proof -
  let ?t = "\<lparr>tx_id = ChannelId 4, tx_window = 2, tx_max_packet_size = 100, tx_ext = None, tx_send_fut = None, tx_sent = []\<rparr>"
  have p: "tx_poll_write (Ready True) [1, 2, 3] ?t = (Ready (Inr 2), ?t\<lparr>tx_window := 0, tx_sent := [(ChannelId 4, CmData [1, 2])]\<rparr>)"
    by (simp add: tx_poll_write_def poll_mk_msg_def poll_writable_def handle_write_result_def Let_def)
  have "tx_inv ?t" by (simp add: tx_inv_def)
  from writer_keeps_window [OF this _ _ p] p show ?thesis by auto
qed

text \<open>A shutdown while a message waits: \<open>Eof\<close> goes in its place, and its bytes, already taken off the window,
  are not sent.\<close>

lemma shutdown_drops_waiting:
  "tx_send_fut t = Some (m, n) \<Longrightarrow> tx_poll_shutdown (Ready True) t
    = (Ready (Inr ()), t\<lparr>tx_send_fut := None, tx_sent := tx_sent t @ [(tx_id t, CmEof)]\<rparr>)"
  by (simp add: tx_poll_shutdown_def handle_write_result_def Let_def)

end
