(* ===== verification/ServerSession.thy ===== *)
theory ServerSession
  imports SshBuffer Kex Session Channels
begin

text \<open>
  The server's session (\<open>server/session.rs\<close>): its state, and the operations by which the application and
  the message handlers write to the client. What is sent on the \<open>oneshot\<close> senders of global requests is
  recorded in \<open>ss_answers\<close>.
\<close>

section \<open>State\<close>

record ('st, 'z, 'key) server_session =
  ss_common :: "('st, 'z, unit, 'key server_config) common_session"
  ss_target_window_size :: u32
  ss_pending_reads :: "bytes list"
  ss_pending_len :: u32
  ss_channels :: "channel_id \<rightharpoonup> channel_ref"
  ss_open_global_requests :: "global_request_response list"
  ss_kex :: "('st, 'key) server_kex session_kex_state"
  ss_answers :: "(nat \<times> global_answer) list"

abbreviation ss_encrypted :: "('st, 'z, 'key) server_session \<Rightarrow> 'z encrypted option" where
  "ss_encrypted s \<equiv> cs_encrypted (ss_common s)"

abbreviation ss_config :: "('st, 'z, 'key) server_session \<Rightarrow> 'key server_config" where
  "ss_config s \<equiv> cs_config (ss_common s)"

definition ss_set_encrypted :: "'z encrypted \<Rightarrow> ('st, 'z, 'key) server_session \<Rightarrow> ('st, 'z, 'key) server_session" where
  "ss_set_encrypted enc s = s\<lparr>ss_common := (ss_common s)\<lparr>cs_encrypted := Some enc\<rparr>\<rparr>"

text \<open>\<open>if let Some(ref mut enc) = self.common.encrypted { .. } Ok(())\<close>, and with \<open>else unreachable!()\<close>.\<close>

definition with_enc ::
    "('z encrypted \<Rightarrow> 'z encrypted rs) \<Rightarrow> ('st, 'z, 'key) server_session \<Rightarrow> ('st, 'z, 'key) server_session rs" where
  "with_enc f s =
     (case ss_encrypted s of
        None \<Rightarrow> Ok s
      | Some enc \<Rightarrow> and_then (f enc) (\<lambda>enc. Ok (ss_set_encrypted enc s)))"

definition with_enc_or_panic ::
    "('z encrypted \<Rightarrow> 'z encrypted rs) \<Rightarrow> ('st, 'z, 'key) server_session \<Rightarrow> ('st, 'z, 'key) server_session rs" where
  "with_enc_or_panic f s = (case ss_encrypted s of None \<Rightarrow> Panic | Some enc \<Rightarrow> with_enc f s)"

section \<open>Looking at a channel\<close>

definition ss_channel :: "channel_id \<Rightarrow> ('st, 'z, 'key) server_session \<Rightarrow> channel_params option" where
  "ss_channel c s = (case ss_encrypted s of Some enc \<Rightarrow> channels enc c | None \<Rightarrow> None)"

definition ss_writable_packet_size :: "channel_id \<Rightarrow> ('st, 'z, 'key) server_session \<Rightarrow> u32" where
  "ss_writable_packet_size c s =
     (case ss_channel c s of Some ch \<Rightarrow> min (sender_window_size ch) (sender_maximum_packet_size ch) | None \<Rightarrow> 0)"

definition ss_window_size :: "channel_id \<Rightarrow> ('st, 'z, 'key) server_session \<Rightarrow> u32" where
  "ss_window_size c s = (case ss_channel c s of Some ch \<Rightarrow> sender_window_size ch | None \<Rightarrow> 0)"

definition ss_max_packet_size :: "channel_id \<Rightarrow> ('st, 'z, 'key) server_session \<Rightarrow> u32" where
  "ss_max_packet_size c s = (case ss_channel c s of Some ch \<Rightarrow> sender_maximum_packet_size ch | None \<Rightarrow> 0)"

definition ss_sender_window_size :: "channel_id \<Rightarrow> ('st, 'z, 'key) server_session \<Rightarrow> nat" where
  "ss_sender_window_size c s = (case ss_encrypted s of Some enc \<Rightarrow> enc_sender_window_size c enc | None \<Rightarrow> 0)"

definition ss_has_pending_data :: "channel_id \<Rightarrow> ('st, 'z, 'key) server_session \<Rightarrow> bool" where
  "ss_has_pending_data c s = (case ss_encrypted s of Some enc \<Rightarrow> has_pending_data c enc | None \<Rightarrow> False)"

section \<open>Key exchange and flushing\<close>

definition ss_begin_rekey ::
    "('st, 'z, 'key, 'pub, 'sig) env \<Rightarrow> ('st, 'z, 'key) server_session \<Rightarrow> ('st, 'z, 'key) server_session rs" where
  "ss_begin_rekey V s =
     (let C = ss_common s;
          cause = (case cs_encrypted C of
                     None \<Rightarrow> Initial
                   | Some enc \<Rightarrow> Rekey (strict_kex C) (enc_session_id enc));
          kex = server_kex_new (cs_config C) (remote_sshid C) (sc_server_id (cs_config C)) cause in
      and_then (server_kexinit V kex (packet_writer C)) (\<lambda>(kex, w).
        Ok (s\<lparr>ss_common := C\<lparr>packet_writer := w\<rparr>, ss_kex := KexInProgress kex\<rparr>)))"

text \<open>\<open>flush\<close>: the messages are sealed, and new keys are asked for where they are due and no exchange
  runs; \<open>enc.exchange.take()\<close> sees to it that this happens once.\<close>

definition ss_flush ::
    "('st, 'z, 'key, 'pub, 'sig) env \<Rightarrow> nat \<Rightarrow> ('st, 'z, 'key) server_session \<Rightarrow> ('st, 'z, 'key) server_session rs" where
  "ss_flush V now s =
     (case ss_encrypted s of
        None \<Rightarrow> Ok s
      | Some enc \<Rightarrow>
          and_then (enc_flush (crates_of V) (sc_limits (ss_config s)) now (packet_writer (ss_common s)) enc) (\<lambda>(due, w, enc).
            let s = s\<lparr>ss_common := (ss_common s)\<lparr>packet_writer := w, cs_encrypted := Some enc\<rparr>\<rparr> in
            if due \<and> ss_kex s = KexIdle then
              (let s' = ss_set_encrypted (enc\<lparr>enc_exchange := None\<rparr>) s in
               if enc_exchange enc \<noteq> None then ss_begin_rekey V s' else Ok s')
            else Ok s))"

definition ss_flush_pending ::
    "wire \<Rightarrow> channel_id \<Rightarrow> ('st, 'z, 'key) server_session \<Rightarrow> (nat \<times> ('st, 'z, 'key) server_session) rs" where
  "ss_flush_pending W c s =
     (case ss_encrypted s of
        None \<Rightarrow> Ok (0, s)
      | Some enc \<Rightarrow> and_then (flush_pending W c enc) (\<lambda>(n, enc). Ok (n, ss_set_encrypted enc s)))"

text \<open>\<open>maybe_send_ext_info\<close> reads the client's list of exchange methods out of its KEXINIT.\<close>

definition ext_info_wanted :: "wire \<Rightarrow> exchange option \<Rightarrow> bool" where
  "ext_info_wanted W ex =
     (case ex of
        None \<Rightarrow> False
      | Some e \<Rightarrow>
          (case get_from 17 (client_kex_init e) of
             None \<Rightarrow> False
           | Some r \<Rightarrow>
               (case r_str W r of
                  Ok (kex_string, _) \<Rightarrow>
                    is_ok (server_select (\<lambda>x. x) [EXTENSION_SUPPORT_AS_CLIENT] (parse_kex_algo_list kex_string) AK_Kex)
                | _ \<Rightarrow> False)))"

definition maybe_send_ext_info ::
    "('st, 'z, 'key, 'pub, 'sig) env \<Rightarrow> ('st, 'z, 'key) server_session \<Rightarrow> ('st, 'z, 'key) server_session rs" where
  "maybe_send_ext_info V s =
     (let W = env_wire V in
      with_enc (\<lambda>enc.
        if \<not> ext_info_wanted W (enc_exchange enc) then Ok enc
        else enc_push W [w_u8 W EXT_INFO, w_u32 W 1, w_str W ''server-sig-algs'',
               name_list_encode W (map (alg_str (ssh_of V)) (pref_key (sc_preferred (ss_config s))))] enc) s)"

section \<open>Replies\<close>

definition request_success :: "wire \<Rightarrow> ('st, 'z, 'key) server_session \<Rightarrow> ('st, 'z, 'key) server_session rs" where
  "request_success W s =
     (if wants_reply (ss_common s) then
        (case ss_encrypted s of
           None \<Rightarrow> Ok s
         | Some enc \<Rightarrow> with_enc (enc_push W [push REQUEST_SUCCESS]) (s\<lparr>ss_common := (ss_common s)\<lparr>wants_reply := False\<rparr>\<rparr>))
      else Ok s)"

definition request_failure :: "wire \<Rightarrow> ('st, 'z, 'key) server_session \<Rightarrow> ('st, 'z, 'key) server_session rs" where
  "request_failure W s =
     (case ss_encrypted s of
        None \<Rightarrow> Ok s
      | Some enc \<Rightarrow> with_enc (enc_push W [push REQUEST_FAILURE]) (s\<lparr>ss_common := (ss_common s)\<lparr>wants_reply := False\<rparr>\<rparr>))"

text \<open>\<open>channel_success\<close> and \<open>channel_failure\<close>, which differ in the message.\<close>

definition channel_reply :: "wire \<Rightarrow> u8 \<Rightarrow> channel_id \<Rightarrow> 'z encrypted \<Rightarrow> 'z encrypted rs" where
  "channel_reply W msg c enc =
     (case channels enc c of
        None \<Rightarrow> Ok enc
      | Some ch \<Rightarrow>
          if \<not> confirmed ch then Panic
          else if chan_wants_reply ch then
            enc_push W [w_u8 W msg, w_u32 W (recipient_channel ch)]
              (enc\<lparr>channels := (channels enc)(c \<mapsto> ch\<lparr>chan_wants_reply := False\<rparr>)\<rparr>)
          else Ok enc)"

definition channel_success :: "wire \<Rightarrow> channel_id \<Rightarrow> ('st, 'z, 'key) server_session \<Rightarrow> ('st, 'z, 'key) server_session rs" where
  "channel_success W c = with_enc (channel_reply W CHANNEL_SUCCESS c)"

definition channel_failure :: "wire \<Rightarrow> channel_id \<Rightarrow> ('st, 'z, 'key) server_session \<Rightarrow> ('st, 'z, 'key) server_session rs" where
  "channel_failure W c = with_enc (channel_reply W CHANNEL_FAILURE c)"

definition ss_channel_open_failure ::
    "wire \<Rightarrow> channel_id \<Rightarrow> channel_open_failure \<Rightarrow> string \<Rightarrow> string \<Rightarrow> ('st, 'z, 'key) server_session
      \<Rightarrow> ('st, 'z, 'key) server_session rs" where
  "ss_channel_open_failure W c reason description language =
     with_enc (enc_push W [push CHANNEL_OPEN_FAILURE, w_u32 W (channel_num c), w_u32 W (channel_open_failure_code reason),
       w_str W description, w_str W language])"

section \<open>Channel data\<close>

definition ss_close :: "wire \<Rightarrow> channel_id \<Rightarrow> ('st, 'z, 'key) server_session \<Rightarrow> ('st, 'z, 'key) server_session rs" where
  "ss_close W c = with_enc_or_panic (enc_close W c)"

definition ss_eof :: "wire \<Rightarrow> channel_id \<Rightarrow> ('st, 'z, 'key) server_session \<Rightarrow> ('st, 'z, 'key) server_session rs" where
  "ss_eof W c = with_enc_or_panic (enc_eof W c)"

definition ss_data :: "wire \<Rightarrow> channel_id \<Rightarrow> bytes \<Rightarrow> ('st, 'z, 'key) server_session \<Rightarrow> ('st, 'z, 'key) server_session rs" where
  "ss_data W c data s = with_enc_or_panic (enc_data W c data (kex_active (ss_kex s))) s"

definition ss_extended_data ::
    "wire \<Rightarrow> channel_id \<Rightarrow> u32 \<Rightarrow> bytes \<Rightarrow> ('st, 'z, 'key) server_session \<Rightarrow> ('st, 'z, 'key) server_session rs" where
  "ss_extended_data W c extended data s = with_enc_or_panic (enc_extended_data W c extended data (kex_active (ss_kex s))) s"

section \<open>Requests to the client\<close>

text \<open>A request on a channel that wants no reply. The channel must be confirmed.\<close>

definition channel_request :: "wire \<Rightarrow> channel_id \<Rightarrow> string \<Rightarrow> bytes rs list \<Rightarrow> 'z encrypted \<Rightarrow> 'z encrypted rs" where
  "channel_request W c name es enc =
     (case channels enc c of
        None \<Rightarrow> Ok enc
      | Some ch \<Rightarrow>
          if \<not> confirmed ch then Panic
          else enc_push W ([w_u8 W CHANNEL_REQUEST, w_u32 W (recipient_channel ch), w_str W name, w_u8 W 0] @ es) enc)"

definition xon_xoff_request where
  "xon_xoff_request W c client_can_do = with_enc (channel_request W c ''xon-xoff'' [w_u8 W (bool_u8 client_can_do)])"

definition exit_status_request where
  "exit_status_request W c exit_status = with_enc (channel_request W c ''exit-status'' [w_u32 W exit_status])"

definition exit_signal_request where
  "exit_signal_request W c signal core_dumped error_message language_tag =
     with_enc (channel_request W c ''exit-signal'' [w_str W (sig_name signal), w_u8 W (bool_u8 core_dumped),
       w_str W error_message, w_str W language_tag])"

text \<open>Global requests: what kind of answer is awaited is queued.\<close>

definition global_request ::
    "wire \<Rightarrow> global_request_response list \<Rightarrow> bytes rs list \<Rightarrow> ('st, 'z, 'key) server_session \<Rightarrow> ('st, 'z, 'key) server_session rs" where
  "global_request W awaited es s =
     (case ss_encrypted s of
        None \<Rightarrow> Ok s
      | Some enc \<Rightarrow> with_enc (enc_push W es) (s\<lparr>ss_open_global_requests := ss_open_global_requests s @ awaited\<rparr>))"

definition keepalive_request where
  "keepalive_request W = global_request W [GrKeepalive] [w_u8 W GLOBAL_REQUEST, w_str W ''keepalive@openssh.com'', w_u8 W 1]"

definition send_ping where
  "send_ping W reply_channel =
     global_request W [GrPing reply_channel] [w_u8 W GLOBAL_REQUEST, w_str W ''keepalive@openssh.com'', w_u8 W 1]"

definition tcpip_forward where
  "tcpip_forward W address port reply_channel =
     global_request W (case reply_channel of Some c \<Rightarrow> [GrTcpIpForward c] | None \<Rightarrow> [])
       [push GLOBAL_REQUEST, w_str W ''tcpip-forward'', w_u8 W (bool_u8 (reply_channel \<noteq> None)), w_str W address, w_u32 W port]"

definition cancel_tcpip_forward where
  "cancel_tcpip_forward W address port reply_channel =
     global_request W (case reply_channel of Some c \<Rightarrow> [GrCancelTcpIpForward c] | None \<Rightarrow> [])
       [w_u8 W GLOBAL_REQUEST, w_str W ''cancel-tcpip-forward'', w_u8 W (bool_u8 (reply_channel \<noteq> None)), w_str W address,
        w_u32 W port]"

section \<open>Opening channels\<close>

fun may_open :: "encrypted_state \<Rightarrow> bool" where
  "may_open Authenticated = True"
| "may_open InitCompression = True"
| "may_open _ = False"

definition channel_open_generic ::
    "wire \<Rightarrow> string \<Rightarrow> bytes rs list \<Rightarrow> ('st, 'z, 'key) server_session \<Rightarrow> (channel_id \<times> ('st, 'z, 'key) server_session) rs" where
  "channel_open_generic W kind suffix s =
     (case ss_encrypted s of
        None \<Rightarrow> Err Inconsistent
      | Some enc \<Rightarrow>
          if \<not> may_open (enc_state enc) then Err Inconsistent
          else
            let win = sc_window_size (ss_config s); maxp = sc_maximum_packet_size (ss_config s) in
            and_then (new_channel win maxp enc) (\<lambda>(sender_channel, enc).
            and_then (enc_push W ([push CHANNEL_OPEN, w_bytes W (as_bytes kind), w_u32 W (channel_num sender_channel),
                        w_u32 W win, w_u32 W maxp] @ suffix) enc) (\<lambda>enc.
              Ok (sender_channel, ss_set_encrypted enc s))))"

definition channel_open_session where
  "channel_open_session W = channel_open_generic W ''session'' []"

definition channel_open_direct_tcpip where
  "channel_open_direct_tcpip W host port originator oport =
     channel_open_generic W ''direct-tcpip'' [w_str W host, w_u32 W port,
       w_str W originator, w_u32 W oport]"

definition channel_open_direct_streamlocal where
  "channel_open_direct_streamlocal W socket_path =
     channel_open_generic W ''direct-streamlocal@openssh.com'' [w_str W socket_path, w_str W [], w_u32 W 0]"

definition channel_open_forwarded_tcpip where
  "channel_open_forwarded_tcpip W connected_address connected_port originator oport =
     channel_open_generic W ''forwarded-tcpip'' [w_str W connected_address, w_u32 W connected_port,
       w_str W originator, w_u32 W oport]"

definition channel_open_forwarded_streamlocal where
  "channel_open_forwarded_streamlocal W socket_path =
     channel_open_generic W ''forwarded-streamlocal@openssh.com'' [w_str W socket_path, w_str W []]"

definition channel_open_x11 where
  "channel_open_x11 W originator oport =
     channel_open_generic W ''x11'' [w_str W originator, w_u32 W oport]"

definition channel_open_agent where
  "channel_open_agent W = channel_open_generic W ''auth-agent@openssh.com'' []"

end
