(* ===== verification/ServerAuth.thy ===== *)
theory ServerAuth
  imports Session
begin

text \<open>
  User authentication on the server: the first half of \<open>server/encrypted.rs\<close>, with \<open>cert.rs\<close> and the \<open>Auth\<close>
  of \<open>server/mod.rs\<close>. The application's \<open>Handler\<close> is a parameter, a record of its callbacks over its own
  state \<open>'h\<close>; a callback of the authentication also says how long it took, for rejections are held back
  until a fixed time. An error of the handler is one of the crate's errors (\<open>H::Error\<close> is built from
  them). The crate \<open>ssh_key\<close> appears as \<open>cert_crates\<close>.
\<close>

section \<open>Answers and the handler\<close>

datatype auth =
    Reject "method_set option" bool \<comment> \<open>\<open>proceed_with_methods\<close>, \<open>partial_success\<close>\<close>
  | Accept
  | UnsupportedMethod
  | Partial string string "(string \<times> bool) list"

definition auth_reject :: auth where
  "auth_reject = Reject None False"

text \<open>An answer, the handler afterwards, the time the callback took.\<close>

type_synonym 'h answer = "(auth \<times> 'h \<times> nat) rs"

record ('h, 'pub, 'cert) auth_handler =
  auth_none :: "'h \<Rightarrow> string \<Rightarrow> 'h answer"
  auth_password :: "'h \<Rightarrow> string \<Rightarrow> string \<Rightarrow> 'h answer"
  auth_publickey_offered :: "'h \<Rightarrow> string \<Rightarrow> 'pub \<Rightarrow> 'h answer"
  auth_publickey :: "'h \<Rightarrow> string \<Rightarrow> 'pub \<Rightarrow> 'h answer"
  auth_openssh_certificate :: "'h \<Rightarrow> string \<Rightarrow> 'cert \<Rightarrow> 'h answer"
  auth_keyboard_interactive :: "'h \<Rightarrow> string \<Rightarrow> string \<Rightarrow> bytes option list option \<Rightarrow> 'h answer"
  authentication_banner :: "'h \<Rightarrow> (string option \<times> 'h) rs"

section \<open>Keys and certificates\<close>

text \<open>The errors of \<open>ssh_key\<close> that the sources tell apart.\<close>

datatype ssh_key_error = AlgorithmUnknown | AlgorithmUnsupported | CertificateValidation | KeyEncoding | OtherKeyError

record ('pub, 'cert) cert_crates =
  algorithm_new :: "string \<Rightarrow> ssh_key_error + algorithm"
  algorithm_new_certificate :: "string \<Rightarrow> ssh_key_error + algorithm"
  key_data_decode :: "bytes \<Rightarrow> ssh_key_error + 'pub"
  certificate_decode :: "bytes \<Rightarrow> ssh_key_error + 'cert"
  valid_after :: "'cert \<Rightarrow> nat"
  valid_before :: "'cert \<Rightarrow> nat"
  cert_signature_ok :: "'cert \<Rightarrow> bool"
  cert_public_key :: "'cert \<Rightarrow> 'pub"
  failed_at :: "bytes \<Rightarrow> bytes" \<comment> \<open>where \<open>Bytes::decode\<close> leaves the reader when it fails\<close>

text \<open>\<open>PublicKeyOrCertificate\<close> of \<open>cert.rs\<close>.\<close>

datatype ('pub, 'cert) pk_or_cert = PlainKey 'pub "hash_alg option" | CertKey 'cert

definition certificate_algorithm :: "('pub, 'cert) cert_crates \<Rightarrow> string \<Rightarrow> ssh_key_error + algorithm" where
  "certificate_algorithm K algo =
     (if algo = ''rsa-sha2-256-cert-v01@openssh.com'' then Inr (Rsa (Some HashSha256))
      else if algo = ''rsa-sha2-512-cert-v01@openssh.com'' then Inr (Rsa (Some HashSha512))
      else algorithm_new_certificate K algo)"

fun no_certificate :: "ssh_key_error + algorithm \<Rightarrow> bool" where
  "no_certificate (Inr (OtherAlgorithm _)) = True"
| "no_certificate (Inl KeyEncoding) = True"
| "no_certificate _ = False"

definition pk_or_cert_decode ::
    "('pub, 'cert) cert_crates \<Rightarrow> string \<Rightarrow> bytes \<Rightarrow> ssh_key_error + ('pub, 'cert) pk_or_cert" where
  "pk_or_cert_decode K pubkey_algo buf =
     (if no_certificate (certificate_algorithm K pubkey_algo) then
        (case key_data_decode K buf of
           Inl e \<Rightarrow> Inl e
         | Inr key \<Rightarrow>
             (case algorithm_new K pubkey_algo of
                Inl e \<Rightarrow> Inl e
              | Inr a \<Rightarrow> Inr (PlainKey key (algorithm_hash_alg a))))
      else
        (case certificate_decode K buf of Inl e \<Rightarrow> Inl e | Inr cert \<Rightarrow> Inr (CertKey cert)))"

section \<open>State\<close>

text \<open>What an authentication step works on: the session's encrypted part and user name, the handler, the
  clock.\<close>

record ('z, 'h) auth_state =
  at_enc :: "'z encrypted"
  at_user :: string
  at_handler :: 'h
  at_clock :: nat

abbreviation at_write :: "bytes \<Rightarrow> ('z, 'h) auth_state \<Rightarrow> ('z, 'h) auth_state" where
  "at_write w t \<equiv> t\<lparr>at_enc := (at_enc t)\<lparr>enc_write := w\<rparr>\<rparr>"

abbreviation at_request :: "auth_request \<Rightarrow> ('z, 'h) auth_state \<Rightarrow> ('z, 'h) auth_state" where
  "at_request a t \<equiv> t\<lparr>at_enc := (at_enc t)\<lparr>enc_state := WaitingAuthRequest a\<rparr>\<rparr>"

text \<open>A callback returned: its answer, with the handler and the clock after it.\<close>

definition ask :: "'h answer \<Rightarrow> ('z, 'h) auth_state \<Rightarrow> (auth \<times> ('z, 'h) auth_state) rs" where
  "ask r t = and_then r (\<lambda>(a, h, d). Ok (a, t\<lparr>at_handler := h, at_clock := at_clock t + d\<rparr>))"

text \<open>\<open>sleep_until\<close>.\<close>

definition sleep_until :: "nat \<Rightarrow> ('z, 'h) auth_state \<Rightarrow> ('z, 'h) auth_state" where
  "sleep_until t s = s\<lparr>at_clock := max (at_clock s) t\<rparr>"

text \<open>\<open>if let EncryptedState::WaitingAuthRequest(ref mut a) = self.state \<dots> else unreachable!()\<close>.\<close>

definition waiting_request :: "('z, 'h) auth_state \<Rightarrow> auth_request rs" where
  "waiting_request t = (case enc_state (at_enc t) of WaitingAuthRequest a \<Rightarrow> Ok a | _ \<Rightarrow> Panic)"

section \<open>Replies\<close>

definition server_accept_service :: "wire \<Rightarrow> string option \<Rightarrow> method_set \<Rightarrow> bytes \<Rightarrow> (auth_request \<times> bytes) rs" where
  "server_accept_service W banner ms buf =
     and_then (push_packet W [push SERVICE_ACCEPT, w_str W ''ssh-userauth''] buf) (\<lambda>buf.
     and_then (case banner of
                 Some b \<Rightarrow> push_packet W [push USERAUTH_BANNER, w_str W b, w_str W []] buf
               | None \<Rightarrow> Ok buf) (\<lambda>buf.
       Ok (\<lparr>methods = ms, partial_success = False, current = None, rejection_count = 0\<rparr>, buf)))"

definition reject_auth_request :: "wire \<Rightarrow> nat \<Rightarrow> auth_request \<Rightarrow> ('z, 'h) auth_state \<Rightarrow> ('z, 'h) auth_state rs" where
  "reject_auth_request W until a t =
     and_then (push_packet W [push USERAUTH_FAILURE, name_list_encode W (methods_to_names (methods a)),
                 push (bool_u8 (partial_success a))] (enc_write (at_enc t))) (\<lambda>w.
       Ok (sleep_until until
             (at_request (a\<lparr>current := None, rejection_count := rejection_count a + 1\<rparr>) (at_write w t))))"

definition server_auth_request_success :: "wire \<Rightarrow> bytes \<Rightarrow> bytes rs" where
  "server_auth_request_success W buf = push_packet W [push USERAUTH_SUCCESS] buf"

text \<open>Success is written and the session goes on to \<open>InitCompression\<close>.\<close>

definition authenticate :: "wire \<Rightarrow> ('z, 'h) auth_state \<Rightarrow> ('z, 'h) auth_state rs" where
  "authenticate W t =
     and_then (server_auth_request_success W (enc_write (at_enc t))) (\<lambda>w.
       Ok (t\<lparr>at_enc := (at_enc t)\<lparr>enc_write := w, enc_state := InitCompression\<rparr>\<rparr>))"

text \<open>The methods that a rejection leaves, where the answer names some. \<open>partial_success\<close> is set from the
  answer and then, in every branch that calls this, to \<open>false\<close>.\<close>

fun remaining :: "auth \<Rightarrow> method_set \<Rightarrow> method_set" where
  "remaining (Reject (Some ms) _) _ = ms"
| "remaining _ otherwise = otherwise"

definition reply_userauth_info_response ::
    "wire \<Rightarrow> nat \<Rightarrow> auth_request \<Rightarrow> auth \<Rightarrow> ('z, 'h) auth_state \<Rightarrow> (bool \<times> ('z, 'h) auth_state) rs" where
  "reply_userauth_info_response W until a answer t =
     (case answer of
        Accept \<Rightarrow> and_then (server_auth_request_success W (enc_write (at_enc t))) (\<lambda>w. Ok (True, at_write w t))
      | Reject proceed partial \<Rightarrow>
          let a = a\<lparr>methods := (case proceed of Some ms \<Rightarrow> ms | None \<Rightarrow> methods a), partial_success := partial\<rparr> in
          and_then (reject_auth_request W until a t) (\<lambda>t. Ok (False, t))
      | Partial name instructions prompts \<Rightarrow>
          and_then (push_packet W ([w_u8 W USERAUTH_INFO_REQUEST, w_str W name, w_str W instructions, w_str W [],
                      w_usize W (length prompts)]
                      @ concat (map (\<lambda>(p, b). [w_str W p, w_u8 W (bool_u8 b)]) prompts)) (enc_write (at_enc t)))
            (\<lambda>w. Ok (False, at_write w t))
      | UnsupportedMethod \<Rightarrow> Err UnsupportedAuthMethod)"

text \<open>The responses: \<open>n\<close> of them, whatever is left of the packet; one that cannot be read is \<open>None\<close>.\<close>

fun read_responses :: "wire \<Rightarrow> ('pub, 'cert) cert_crates \<Rightarrow> nat \<Rightarrow> bytes \<Rightarrow> bytes option list rs" where
  "read_responses W K 0 r = Ok []"
| "read_responses W K (Suc n) r =
     (case r_bytes W r of
        Ok (x, r') \<Rightarrow> and_then (read_responses W K n r') (\<lambda>xs. Ok (Some x # xs))
      | Err e \<Rightarrow> and_then (read_responses W K n (failed_at K r)) (\<lambda>xs. Ok (None # xs))
      | Panic \<Rightarrow> Panic | Diverges \<Rightarrow> Diverges)"

definition read_userauth_info_response ::
    "wire \<Rightarrow> ('pub, 'cert) cert_crates \<Rightarrow> ('h, 'pub, 'cert) auth_handler \<Rightarrow> nat \<Rightarrow> auth_request \<Rightarrow> bytes
      \<Rightarrow> ('z, 'h) auth_state \<Rightarrow> (bool \<times> ('z, 'h) auth_state) rs" where
  "read_userauth_info_response W K H until a r t =
     (case current a of
        Some (CurrentKeyboardInteractive submethods) \<Rightarrow>
          and_then (r_u32 W r) (\<lambda>(n, r).
          and_then (read_responses W K (unat n) r) (\<lambda>responses.
          and_then (ask (auth_keyboard_interactive H (at_handler t) (at_user t) submethods (Some responses)) t)
            (\<lambda>(answer, t). reply_userauth_info_response W until a answer t)))
      | _ \<Rightarrow> and_then (reject_auth_request W until a t) (\<lambda>t. Ok (False, t)))"

section \<open>The \<open>publickey\<close> method\<close>

text \<open>A certificate is accepted for the check of its key only in its time (\<open>now\<close>, the wall clock) and with
  a valid signature of its authority.\<close>

definition usable_key :: "('pub, 'cert) cert_crates \<Rightarrow> nat \<Rightarrow> ('pub, 'cert) pk_or_cert \<Rightarrow> 'pub option" where
  "usable_key K now pk =
     (case pk of
        PlainKey key _ \<Rightarrow> Some key
      | CertKey cert \<Rightarrow>
          if now < valid_after K cert \<or> valid_before K cert < now then None
          else if \<not> cert_signature_ok K cert then None
          else Some (cert_public_key K cert))"

fun sent_pk_ok :: "current_request option \<Rightarrow> bool" where
  "sent_pk_ok (Some (CurrentPublicKey key algo sent)) = sent"
| "sent_pk_ok _ = False"

text \<open>Whether the key may be tried: it was offered before, or the handler accepts the offer now.\<close>

definition may_try ::
    "('h, 'pub, 'cert) auth_handler \<Rightarrow> auth_request \<Rightarrow> string \<Rightarrow> 'pub \<Rightarrow> ('z, 'h) auth_state
      \<Rightarrow> (bool \<times> ('z, 'h) auth_state) rs" where
  "may_try H a user pubkey t =
     (if sent_pk_ok (current a) \<and> user = at_user t then Ok (True, t)
      else if at_user t = [] then
        and_then (ask (auth_publickey_offered H (at_handler t) user pubkey) (t\<lparr>at_user := user\<rparr>))
          (\<lambda>(answer, t). Ok (answer = Accept, t))
      else Ok (False, t))"

text \<open>What the signature covers: the session identifier and the request up to the signature.\<close>

definition auth_signed_data :: "wire \<Rightarrow> bytes \<Rightarrow> bytes \<Rightarrow> bytes rs" where
  "auth_signed_data W session_id prefix = puts [w_bytes W session_id, put_raw prefix] []"

definition ask_key :: "('h, 'pub, 'cert) auth_handler \<Rightarrow> string \<Rightarrow> ('pub, 'cert) pk_or_cert \<Rightarrow> ('z, 'h) auth_state
    \<Rightarrow> (auth \<times> ('z, 'h) auth_state) rs" where
  "ask_key H user pk t =
     (case pk of
        PlainKey key _ \<Rightarrow> ask (auth_publickey H (at_handler t) user key) t
      | CertKey cert \<Rightarrow> ask (auth_openssh_certificate H (at_handler t) user cert) t)"

text \<open>The signature has been verified: the handler decides.\<close>

definition signed_request_ends ::
    "('st, 'z, 'key, 'pub, 'sig) env \<Rightarrow> ('h, 'pub, 'cert) auth_handler \<Rightarrow> nat \<Rightarrow> string \<Rightarrow> ('pub, 'cert) pk_or_cert
      \<Rightarrow> auth_request \<Rightarrow> ('z, 'h) auth_state \<Rightarrow> ('z, 'h) auth_state rs" where
  "signed_request_ends V H until user pk a t =
     and_then (ask_key H user pk t) (\<lambda>(answer, t).
       if answer = Accept then authenticate (env_wire V) t
       else reject_auth_request (env_wire V) until (a\<lparr>methods := remaining answer (methods a), partial_success := False\<rparr>)
              (t\<lparr>at_user := []\<rparr>))"

text \<open>A request with a signature. \<open>original\<close> is the whole packet, \<open>r\<close> what follows the key.\<close>

definition publickey_signed ::
    "('st, 'z, 'key, 'pub, 'sig) env \<Rightarrow> ('h, 'pub, 'cert) auth_handler \<Rightarrow> nat \<Rightarrow> bytes \<Rightarrow> string
      \<Rightarrow> ('pub, 'cert) pk_or_cert \<Rightarrow> 'pub \<Rightarrow> bytes \<Rightarrow> ('z, 'h) auth_state \<Rightarrow> ('z, 'h) auth_state rs" where
  "publickey_signed V H until original user pk pubkey r t =
     (let W = env_wire V in
      and_then (waiting_request t) (\<lambda>a.
      and_then (slice 0 (length original - length r) original) (\<lambda>prefix.
      and_then (r_bytes W r) (\<lambda>(encoded_signature, r).
      and_then (sig_decode (ssh_of V) encoded_signature) (\<lambda>signature.
      and_then (may_try H a user pubkey t) (\<lambda>(valid, t).
        if \<not> valid then reject_auth_request W until a t
        else
      and_then (auth_signed_data W (enc_session_id (at_enc t)) prefix) (\<lambda>signed.
        if \<not> verify (ssh_of V) pubkey signed signature then reject_auth_request W until a t
        else signed_request_ends V H until user pk a t)))))))"

text \<open>A request without one asks whether the key would be accepted.\<close>

definition publickey_offered ::
    "wire \<Rightarrow> ('h, 'pub, 'cert) auth_handler \<Rightarrow> nat \<Rightarrow> string \<Rightarrow> string \<Rightarrow> bytes \<Rightarrow> 'pub
      \<Rightarrow> ('z, 'h) auth_state \<Rightarrow> ('z, 'h) auth_state rs" where
  "publickey_offered W H until user pubkey_algo pubkey_key pubkey t =
     and_then (waiting_request t) (\<lambda>a.
     and_then (ask (auth_publickey_offered H (at_handler t) user pubkey) (t\<lparr>at_user := user\<rparr>)) (\<lambda>(answer, t).
       if answer = Accept then
         and_then (push_packet W [push USERAUTH_PK_OK, w_str W pubkey_algo, w_bytes W pubkey_key] (enc_write (at_enc t)))
           (\<lambda>w. Ok (at_request (a\<lparr>current := Some (CurrentPublicKey pubkey_key (as_bytes pubkey_algo) True)\<rparr>) (at_write w t)))
       else reject_auth_request W until (a\<lparr>methods := remaining answer (methods a), partial_success := False\<rparr>)
              (t\<lparr>at_user := []\<rparr>)))"

definition server_read_auth_request_pk ::
    "('st, 'z, 'key, 'pub, 'sig) env \<Rightarrow> ('pub, 'cert) cert_crates \<Rightarrow> ('h, 'pub, 'cert) auth_handler \<Rightarrow> nat \<Rightarrow> nat \<Rightarrow> bytes
      \<Rightarrow> string \<Rightarrow> bytes \<Rightarrow> ('z, 'h) auth_state \<Rightarrow> ('z, 'h) auth_state rs" where
  "server_read_auth_request_pk V K H now until original user r t =
     (let W = env_wire V in
      and_then (waiting_request t) (\<lambda>a.
      and_then (r_u8 W r) (\<lambda>(is_real, r).
      and_then (r_str W r) (\<lambda>(pubkey_algo, r).
      and_then (r_bytes W r) (\<lambda>(pubkey_key, r).
        case pk_or_cert_decode K pubkey_algo pubkey_key of
          Inr pk \<Rightarrow>
            (case usable_key K now pk of
               None \<Rightarrow> reject_auth_request W until a t
             | Some pubkey \<Rightarrow>
                 if is_real \<noteq> 0 then publickey_signed V H until original user pk pubkey r t
                 else publickey_offered W H until user pubkey_algo pubkey_key pubkey t)
        | Inl e \<Rightarrow>
            if e \<in> {AlgorithmUnknown, AlgorithmUnsupported, CertificateValidation} then reject_auth_request W until a t
            else Err SshKey)))))"

section \<open>Requests\<close>

text \<open>How \<open>password\<close> and \<open>none\<close> end.\<close>

definition settle ::
    "wire \<Rightarrow> nat \<Rightarrow> method_kind \<Rightarrow> auth_request \<Rightarrow> auth \<Rightarrow> ('z, 'h) auth_state \<Rightarrow> ('z, 'h) auth_state rs" where
  "settle W until m a answer t =
     (if answer = Accept then authenticate W t
      else reject_auth_request W until
             (a\<lparr>methods := remaining answer (methods_remove m (methods a)), partial_success := False\<rparr>) (t\<lparr>at_user := []\<rparr>))"

definition server_read_auth_request ::
    "('st, 'z, 'key, 'pub, 'sig) env \<Rightarrow> ('pub, 'cert) cert_crates \<Rightarrow> ('h, 'pub, 'cert) auth_handler \<Rightarrow> nat \<Rightarrow> nat \<Rightarrow> nat
      \<Rightarrow> bytes \<Rightarrow> bytes \<Rightarrow> ('z, 'h) auth_state \<Rightarrow> ('z, 'h) auth_state rs" where
  "server_read_auth_request V K H now until initial_until original r t =
     (let W = env_wire V in
      and_then (r_str W r) (\<lambda>(user, r).
      and_then (r_str W r) (\<lambda>(service_name, r).
      and_then (r_str W r) (\<lambda>(method_name, r).
        if service_name \<noteq> ''ssh-connection'' then Err Inconsistent
        else if method_name = ''password'' then
          and_then (waiting_request t) (\<lambda>a.
          and_then (r_u8 W r) (\<lambda>(_, r).
          and_then (r_str W r) (\<lambda>(password, r).
          and_then (ask (auth_password H (at_handler t) user password) (t\<lparr>at_user := user\<rparr>))
            (\<lambda>(answer, t). settle W until MK_Password a answer t))))
        else if method_name = ''publickey'' then server_read_auth_request_pk V K H now until original user r t
        else if method_name = ''none'' then
          and_then (waiting_request t) (\<lambda>a.
          and_then (ask (auth_none H (at_handler t) user) t)
            (\<lambda>(answer, t). settle W initial_until MK_None a answer t))
        else if method_name = ''keyboard-interactive'' then
          and_then (waiting_request t) (\<lambda>a.
          and_then (r_str W r) (\<lambda>(_, r).
          and_then (r_str W r) (\<lambda>(submethods, r).
            let a = a\<lparr>current := Some (CurrentKeyboardInteractive submethods)\<rparr>;
                t = at_request a (t\<lparr>at_user := user\<rparr>) in
          and_then (ask (auth_keyboard_interactive H (at_handler t) user submethods None) t) (\<lambda>(answer, t).
          and_then (reply_userauth_info_response W until a answer t) (\<lambda>(granted_now, t).
            Ok (if granted_now then t\<lparr>at_enc := (at_enc t)\<lparr>enc_state := InitCompression\<rparr>\<rparr> else t))))))
        else
          and_then (waiting_request t) (\<lambda>a. reject_auth_request W until a t)))))"

section \<open>What success takes\<close>

abbreviation authed :: "('z, 'h) auth_state \<Rightarrow> bool" where
  "authed t \<equiv> enc_state (at_enc t) = InitCompression"

text \<open>The head of a request, user, service and method, with what follows it.\<close>

definition auth_header :: "wire \<Rightarrow> bytes \<Rightarrow> (string \<times> string \<times> string \<times> bytes) rs" where
  "auth_header W r =
     and_then (r_str W r) (\<lambda>(user, r). and_then (r_str W r) (\<lambda>(service, r).
     and_then (r_str W r) (\<lambda>(method, r). Ok (user, service, method, r))))"

text \<open>A key or certificate was accepted: the request carries a signature by it over the session identifier
  and the request up to the signature, which has been verified; and the handler accepted the key or
  certificate for the user, in the state \<open>h\<close> or the one after it accepted the offer of the key.\<close>

definition key_granted ::
    "('st, 'z, 'key, 'pub, 'sig) env \<Rightarrow> ('pub, 'cert) cert_crates \<Rightarrow> ('h, 'pub, 'cert) auth_handler \<Rightarrow> nat \<Rightarrow> bytes
      \<Rightarrow> bytes \<Rightarrow> bytes \<Rightarrow> 'h \<Rightarrow> string \<Rightarrow> bool" where
  "key_granted V K H now session_id original rest h user \<longleftrightarrow>
     (\<exists>is_real r1 algo r2 blob r3 enc_sig r4 pk pubkey signed signature h1 h' d.
        r_u8 (env_wire V) rest = Ok (is_real, r1) \<and> is_real \<noteq> 0 \<and> r_str (env_wire V) r1 = Ok (algo, r2)
        \<and> r_bytes (env_wire V) r2 = Ok (blob, r3)
        \<and> pk_or_cert_decode K algo blob = Inr pk \<and> usable_key K now pk = Some pubkey
        \<and> r_bytes (env_wire V) r3 = Ok (enc_sig, r4) \<and> sig_decode (ssh_of V) enc_sig = Ok signature
        \<and> auth_signed_data (env_wire V) session_id (take (length original - length r3) original) = Ok signed
        \<and> verify (ssh_of V) pubkey signed signature
        \<and> (h1 = h \<or> (\<exists>d1. auth_publickey_offered H h user pubkey = Ok (Accept, h1, d1)))
        \<and> (case pk of PlainKey key _ \<Rightarrow> auth_publickey H h1 user key = Ok (Accept, h', d)
            | CertKey cert \<Rightarrow> auth_openssh_certificate H h1 user cert = Ok (Accept, h', d)))"

definition granted ::
    "('st, 'z, 'key, 'pub, 'sig) env \<Rightarrow> ('pub, 'cert) cert_crates \<Rightarrow> ('h, 'pub, 'cert) auth_handler \<Rightarrow> nat \<Rightarrow> bytes
      \<Rightarrow> bytes \<Rightarrow> bytes \<Rightarrow> 'h \<Rightarrow> string \<Rightarrow> string \<Rightarrow> bool" where
  "granted V K H now session_id original r h user method_name \<longleftrightarrow>
     (\<exists>rest. auth_header (env_wire V) r = Ok (user, ''ssh-connection'', method_name, rest)
     \<and> (method_name = ''none'' \<and> (\<exists>h' d. auth_none H h user = Ok (Accept, h', d))
      \<or> method_name = ''password'' \<and> (\<exists>x r1 password r2 h' d. r_u8 (env_wire V) rest = Ok (x, r1)
          \<and> r_str (env_wire V) r1 = Ok (password, r2) \<and> auth_password H h user password = Ok (Accept, h', d))
      \<or> method_name = ''publickey'' \<and> key_granted V K H now session_id original rest h user
      \<or> method_name = ''keyboard-interactive'' \<and> (\<exists>x r1 submethods r2 h' d. r_str (env_wire V) rest = Ok (x, r1)
          \<and> r_str (env_wire V) r1 = Ok (submethods, r2)
          \<and> auth_keyboard_interactive H h user submethods None = Ok (Accept, h', d))))"

lemma reject_waits:
  "reject_auth_request W until a t = Ok t' \<Longrightarrow>
    \<exists>w. t' = sleep_until until (at_request (a\<lparr>current := None, rejection_count := rejection_count a + 1\<rparr>) (at_write w t))"
  by (auto simp: reject_auth_request_def outcome_simps)

lemma reject_not_authed: "reject_auth_request W until a t = Ok t' \<Longrightarrow> \<not> authed t'"
  by (drule reject_waits) (auto simp: sleep_until_def)

lemma ask_Ok: "ask r t = Ok (a, t') \<longleftrightarrow> (\<exists>h d. r = Ok (a, h, d) \<and> t' = t\<lparr>at_handler := h, at_clock := at_clock t + d\<rparr>)"
  by (auto simp: ask_def outcome_simps)

lemma waiting_request_Ok: "waiting_request t = Ok a \<longleftrightarrow> enc_state (at_enc t) = WaitingAuthRequest a"
  by (cases "enc_state (at_enc t)") (auto simp: waiting_request_def)

lemma reply_authed:
  assumes "reply_userauth_info_response W until a answer t = Ok (granted_now, t')"
  shows "granted_now = (answer = Accept)" "granted_now \<Longrightarrow> at_user t' = at_user t"
  using assms by (auto simp: reply_userauth_info_response_def outcome_simps Let_def split: auth.splits)

lemma settle_authed:
  "settle W until m a answer t = Ok t' \<Longrightarrow> authed t' \<Longrightarrow> answer = Accept \<and> at_user t' = at_user t"
  by (auto simp: settle_def authenticate_def outcome_simps split: if_splits dest: reject_not_authed)

lemma may_try_Ok:
  assumes "may_try H a user pubkey t = Ok (valid, t')"
  shows "at_enc t' = at_enc t" "valid \<Longrightarrow> at_user t' = user"
    and "valid \<Longrightarrow> at_handler t' = at_handler t
      \<or> (\<exists>d. auth_publickey_offered H (at_handler t) user pubkey = Ok (Accept, at_handler t', d))"
  using assms by (auto simp: may_try_def outcome_simps ask_Ok split: if_splits)

lemma ask_key_Ok:
  assumes "ask_key H user pk t = Ok (answer, t')"
  shows "at_enc t' = at_enc t" "at_user t' = at_user t"
    and "\<exists>h' d. case pk of PlainKey key _ \<Rightarrow> auth_publickey H (at_handler t) user key = Ok (answer, h', d)
      | CertKey cert \<Rightarrow> auth_openssh_certificate H (at_handler t) user cert = Ok (answer, h', d)"
  using assms by (auto simp: ask_key_def ask_Ok split: pk_or_cert.splits)

lemma publickey_signed_cases:
  assumes "publickey_signed V H until original user pk pubkey r t = Ok t'"
  obtains
    (Rejected) a valid t1 where "may_try H a user pubkey t = Ok (valid, t1)" "enc_state (at_enc t) = WaitingAuthRequest a"
      "reject_auth_request (env_wire V) until a t1 = Ok t'"
  | (Verified) a t1 enc_sig r' signature signed where "may_try H a user pubkey t = Ok (True, t1)"
      "enc_state (at_enc t) = WaitingAuthRequest a"
      "r_bytes (env_wire V) r = Ok (enc_sig, r')" "sig_decode (ssh_of V) enc_sig = Ok signature"
      "auth_signed_data (env_wire V) (enc_session_id (at_enc t)) (take (length original - length r) original) = Ok signed"
      "verify (ssh_of V) pubkey signed signature"
      "signed_request_ends V H until user pk a t1 = Ok t'"
proof -
  from assms obtain a prefix enc_sig r' signature valid t1 where
    w: "enc_state (at_enc t) = WaitingAuthRequest a"
    and p: "slice 0 (length original - length r) original = Ok prefix"
    and b: "r_bytes (env_wire V) r = Ok (enc_sig, r')" "sig_decode (ssh_of V) enc_sig = Ok signature"
    and m: "may_try H a user pubkey t = Ok (valid, t1)"
    and k: "(if \<not> valid then reject_auth_request (env_wire V) until a t1
        else and_then (auth_signed_data (env_wire V) (enc_session_id (at_enc t1)) prefix) (\<lambda>signed.
          if \<not> verify (ssh_of V) pubkey signed signature then reject_auth_request (env_wire V) until a t1
          else signed_request_ends V H until user pk a t1)) = Ok t'"
    by (auto simp: publickey_signed_def Let_def outcome_simps waiting_request_Ok)
  have x: "prefix = take (length original - length r) original" using p by (auto simp: slice_def split: if_splits)
  show thesis
  proof (cases valid)
    case False
    with k m w show thesis by (auto intro: Rejected)
  next
    case True
    then obtain signed where "auth_signed_data (env_wire V) (enc_session_id (at_enc t)) prefix = Ok signed"
      and "(if \<not> verify (ssh_of V) pubkey signed signature then reject_auth_request (env_wire V) until a t1
          else signed_request_ends V H until user pk a t1) = Ok t'"
      using k may_try_Ok(1) [OF m] by (auto simp: outcome_simps)
    then show thesis using True m w b x by (cases "verify (ssh_of V) pubkey signed signature") (auto intro: Rejected Verified)
  qed
qed

lemma pk_request_cases:
  assumes "server_read_auth_request_pk V K H now until original user r t = Ok t'"
  obtains
    (Rejected) a where "enc_state (at_enc t) = WaitingAuthRequest a" "reject_auth_request (env_wire V) until a t = Ok t'"
  | (Signed) is_real r1 algo r2 blob r3 pk pubkey where "r_u8 (env_wire V) r = Ok (is_real, r1)" "is_real \<noteq> 0"
      "r_str (env_wire V) r1 = Ok (algo, r2)" "r_bytes (env_wire V) r2 = Ok (blob, r3)"
      "pk_or_cert_decode K algo blob = Inr pk" "usable_key K now pk = Some pubkey"
      "publickey_signed V H until original user pk pubkey r3 t = Ok t'"
  | (Offered) algo blob pubkey where "publickey_offered (env_wire V) H until user algo blob pubkey t = Ok t'"
proof -
  from assms obtain a is_real r1 algo r2 blob r3 where
    w: "enc_state (at_enc t) = WaitingAuthRequest a"
    and b: "r_u8 (env_wire V) r = Ok (is_real, r1)" "r_str (env_wire V) r1 = Ok (algo, r2)" "r_bytes (env_wire V) r2 = Ok (blob, r3)"
    and k: "(case pk_or_cert_decode K algo blob of
          Inr pk \<Rightarrow>
            (case usable_key K now pk of
               None \<Rightarrow> reject_auth_request (env_wire V) until a t
             | Some pubkey \<Rightarrow>
                 if is_real \<noteq> 0 then publickey_signed V H until original user pk pubkey r3 t
                 else publickey_offered (env_wire V) H until user algo blob pubkey t)
        | Inl e \<Rightarrow>
            if e \<in> {AlgorithmUnknown, AlgorithmUnsupported, CertificateValidation} then reject_auth_request (env_wire V) until a t
            else Err SshKey) = Ok t'"
    by (auto simp: server_read_auth_request_pk_def Let_def outcome_simps waiting_request_Ok)
  show thesis
  proof (cases "pk_or_cert_decode K algo blob")
    case (Inl e)
    with k w show thesis by (auto split: if_splits intro: Rejected)
  next
    case (Inr pk)
    show thesis
    proof (cases "usable_key K now pk")
      case None
      with k w Inr show thesis by (auto intro: Rejected)
    next
      case (Some pubkey)
      with k Inr b show thesis by (auto split: if_splits intro: Signed Offered)
    qed
  qed
qed

lemma pk_authed:
  assumes "server_read_auth_request_pk V K H now until original user r t = Ok t'" "authed t'"
  shows "key_granted V K H now (enc_session_id (at_enc t)) original r (at_handler t) user \<and> at_user t' = user"
  using assms(1)
proof (cases rule: pk_request_cases)
  case (Rejected a)
  with assms(2) show ?thesis by (blast dest: reject_not_authed)
next
  case (Offered algo blob pubkey)
  with assms(2) show ?thesis
    by (auto simp: publickey_offered_def outcome_simps split: if_splits dest: reject_not_authed)
next
  case s: (Signed is_real r1 algo r2 blob r3 pk pubkey)
  from s(7) show ?thesis
  proof (cases rule: publickey_signed_cases)
    case (Rejected a valid t1)
    with assms(2) show ?thesis by (blast dest: reject_not_authed)
  next
    case v: (Verified a t1 enc_sig r' signature signed)
    from v(7) assms(2) obtain t2 where a: "ask_key H user pk t1 = Ok (Accept, t2)" "at_user t' = at_user t2"
      by (auto simp: signed_request_ends_def authenticate_def outcome_simps split: if_splits dest: reject_not_authed)
    note m = may_try_Ok [OF v(1)]
    have "at_user t' = user" using a ask_key_Ok(2) [OF a(1)] m(2) by simp
    moreover obtain h' d where "case pk of PlainKey key _ \<Rightarrow> auth_publickey H (at_handler t1) user key = Ok (Accept, h', d)
      | CertKey cert \<Rightarrow> auth_openssh_certificate H (at_handler t1) user cert = Ok (Accept, h', d)"
      using ask_key_Ok(3) [OF a(1)] by blast
    ultimately show ?thesis using s(1-6) v(3-6) m(3) unfolding key_granted_def by blast
  qed
qed

text \<open>The ways in which a request is answered.\<close>

lemma auth_request_cases:
  assumes "server_read_auth_request V K H now until initial_until original r t = Ok t'"
  obtains
    (Password) user rest a x r1 password r2 answer h d where
      "auth_header (env_wire V) r = Ok (user, ''ssh-connection'', ''password'', rest)"
      "r_u8 (env_wire V) rest = Ok (x, r1)" "r_str (env_wire V) r1 = Ok (password, r2)"
      "auth_password H (at_handler t) user password = Ok (answer, h, d)"
      "enc_state (at_enc t) = WaitingAuthRequest a"
      "settle (env_wire V) until MK_Password a answer
        (t\<lparr>at_user := user, at_handler := h, at_clock := at_clock t + d\<rparr>) = Ok t'"
  | (PublicKey) user rest where "auth_header (env_wire V) r = Ok (user, ''ssh-connection'', ''publickey'', rest)"
      "server_read_auth_request_pk V K H now until original user rest t = Ok t'"
  | (None) user rest a answer h d where
      "auth_header (env_wire V) r = Ok (user, ''ssh-connection'', ''none'', rest)"
      "auth_none H (at_handler t) user = Ok (answer, h, d)"
      "enc_state (at_enc t) = WaitingAuthRequest a"
      "settle (env_wire V) initial_until MK_None a answer (t\<lparr>at_handler := h, at_clock := at_clock t + d\<rparr>) = Ok t'"
  | (Interactive) user rest x r1 a0 a submethods r2 answer h d granted_now t2 where
      "auth_header (env_wire V) r = Ok (user, ''ssh-connection'', ''keyboard-interactive'', rest)"
      "r_str (env_wire V) rest = Ok (x, r1)" "r_str (env_wire V) r1 = Ok (submethods, r2)"
      "enc_state (at_enc t) = WaitingAuthRequest a0" "a = a0\<lparr>current := Some (CurrentKeyboardInteractive submethods)\<rparr>"
      "auth_keyboard_interactive H (at_handler t) user submethods None = Ok (answer, h, d)"
      "reply_userauth_info_response (env_wire V) until a answer
        ((at_request a (t\<lparr>at_user := user\<rparr>))\<lparr>at_handler := h, at_clock := at_clock t + d\<rparr>) = Ok (granted_now, t2)"
      "t' = (if granted_now then t2\<lparr>at_enc := (at_enc t2)\<lparr>enc_state := InitCompression\<rparr>\<rparr> else t2)"
  | (Other) user method_name rest a where "auth_header (env_wire V) r = Ok (user, ''ssh-connection'', method_name, rest)"
      "method_name \<notin> {''password'', ''publickey'', ''none'', ''keyboard-interactive''}"
      "enc_state (at_enc t) = WaitingAuthRequest a" "reject_auth_request (env_wire V) until a t = Ok t'"
proof -
  from assms obtain user r1 service_name r2 method_name rest where
    h: "auth_header (env_wire V) r = Ok (user, service_name, method_name, rest)"
    and k: "(if service_name \<noteq> ''ssh-connection'' then Err Inconsistent
        else if method_name = ''password'' then
          and_then (waiting_request t) (\<lambda>a.
          and_then (r_u8 (env_wire V) rest) (\<lambda>(_, r).
          and_then (r_str (env_wire V) r) (\<lambda>(password, r).
          and_then (ask (auth_password H (at_handler t) user password) (t\<lparr>at_user := user\<rparr>))
            (\<lambda>(answer, t). settle (env_wire V) until MK_Password a answer t))))
        else if method_name = ''publickey'' then server_read_auth_request_pk V K H now until original user rest t
        else if method_name = ''none'' then
          and_then (waiting_request t) (\<lambda>a.
          and_then (ask (auth_none H (at_handler t) user) t)
            (\<lambda>(answer, t). settle (env_wire V) initial_until MK_None a answer t))
        else if method_name = ''keyboard-interactive'' then
          and_then (waiting_request t) (\<lambda>a.
          and_then (r_str (env_wire V) rest) (\<lambda>(_, r).
          and_then (r_str (env_wire V) r) (\<lambda>(submethods, r).
            let a = a\<lparr>current := Some (CurrentKeyboardInteractive submethods)\<rparr>;
                t = at_request a (t\<lparr>at_user := user\<rparr>) in
          and_then (ask (auth_keyboard_interactive H (at_handler t) user submethods None) t) (\<lambda>(answer, t).
          and_then (reply_userauth_info_response (env_wire V) until a answer t) (\<lambda>(granted_now, t).
            Ok (if granted_now then t\<lparr>at_enc := (at_enc t)\<lparr>enc_state := InitCompression\<rparr>\<rparr> else t))))))
        else
          and_then (waiting_request t) (\<lambda>a. reject_auth_request (env_wire V) until a t)) = Ok t'"
    by (auto simp: server_read_auth_request_def auth_header_def Let_def outcome_simps)
  have s: "service_name = ''ssh-connection''" using k by (auto split: if_splits)
  consider "method_name = ''password''" | "method_name = ''publickey''" | "method_name = ''none''"
    | "method_name = ''keyboard-interactive''" | "method_name \<notin> {''password'', ''publickey'', ''none'', ''keyboard-interactive''}"
    by blast
  then show thesis
  proof cases
    case 1
    then show thesis using h s k by (auto simp: outcome_simps ask_Ok waiting_request_Ok split: if_splits intro: Password)
  next
    case 2
    then show thesis using h s k by (auto split: if_splits intro: PublicKey)
  next
    case 3
    then show thesis using h s k by (auto simp: outcome_simps ask_Ok waiting_request_Ok split: if_splits intro: None)
  next
    case 4
    then show thesis using h s k by (auto simp: outcome_simps ask_Ok waiting_request_Ok Let_def split: if_splits intro: Interactive)
  next
    case 5
    then show thesis using h s k by (auto simp: outcome_simps waiting_request_Ok split: if_splits intro: Other)
  qed
qed

text \<open>Success of a request: the handler accepted it. The user is recorded, except with \<open>none\<close>.\<close>

lemma auth_request_authed:
  assumes "server_read_auth_request V K H now until initial_until original r t = Ok t'" "authed t'"
  shows "\<exists>user method_name. granted V K H now (enc_session_id (at_enc t)) original r (at_handler t) user method_name
    \<and> (method_name = ''none'' \<or> at_user t' = user)"
  using assms(1)
proof (cases rule: auth_request_cases)
  case (Password user rest a x r1 password r2 answer h d)
  from settle_authed [OF Password(6) assms(2)] Password
  have "granted V K H now (enc_session_id (at_enc t)) original r (at_handler t) user ''password'' \<and> at_user t' = user"
    by (auto simp: granted_def)
  then show ?thesis by blast
next
  case (PublicKey user rest)
  with pk_authed [OF PublicKey(2) assms(2)]
  have "granted V K H now (enc_session_id (at_enc t)) original r (at_handler t) user ''publickey'' \<and> at_user t' = user"
    by (simp add: granted_def)
  then show ?thesis by blast
next
  case (None user rest a answer h d)
  from settle_authed [OF None(4) assms(2)] None
  have "granted V K H now (enc_session_id (at_enc t)) original r (at_handler t) user ''none''" by (auto simp: granted_def)
  then show ?thesis by blast
next
  case (Interactive user rest x r1 a0 a submethods r2 answer h d granted_now t2)
  have "\<not> granted_now \<Longrightarrow> \<not> authed t2"
    using Interactive(7) by (auto simp: reply_userauth_info_response_def outcome_simps Let_def split: auth.splits dest: reject_not_authed)
  then have "granted_now" using Interactive(8) assms(2) by (cases granted_now) simp_all
  with reply_authed [OF Interactive(7)] Interactive(8) have "answer = Accept" "at_user t' = user" by simp_all
  moreover from this Interactive
  have "granted V K H now (enc_session_id (at_enc t)) original r (at_handler t) user ''keyboard-interactive''"
    by (auto simp: granted_def)
  ultimately show ?thesis by blast
next
  case (Other user method_name rest a)
  with assms(2) show ?thesis by (blast dest: reject_not_authed)
qed

lemma reject_state:
  "reject_auth_request W until a t = Ok t' \<Longrightarrow> \<exists>b. enc_state (at_enc t') = WaitingAuthRequest b"
  by (drule reject_waits) (auto simp: sleep_until_def)

text \<open>An authentication step ends waiting or authenticated.\<close>

definition asked_or_in :: "encrypted_state \<Rightarrow> bool" where
  "asked_or_in st \<longleftrightarrow> st = InitCompression \<or> (\<exists>a. st = WaitingAuthRequest a)"

lemma reject_asked: "reject_auth_request W until a t = Ok t' \<Longrightarrow> asked_or_in (enc_state (at_enc t'))"
  by (auto simp: asked_or_in_def dest: reject_state)

lemma settle_asked: "settle W until m a answer t = Ok t' \<Longrightarrow> asked_or_in (enc_state (at_enc t'))"
  by (auto simp: settle_def authenticate_def asked_or_in_def outcome_simps split: if_splits dest: reject_state)

lemma publickey_signed_asked:
  assumes "publickey_signed V H until original user pk pubkey r t = Ok t'"
  shows "asked_or_in (enc_state (at_enc t'))"
  using assms
  by (auto simp: publickey_signed_def signed_request_ends_def Let_def outcome_simps authenticate_def split: if_splits dest: reject_asked)
    (auto simp: asked_or_in_def)

lemma publickey_offered_asked:
  "publickey_offered W H until user algo blob pubkey t = Ok t' \<Longrightarrow> asked_or_in (enc_state (at_enc t'))"
  by (auto simp: publickey_offered_def outcome_simps split: if_splits dest: reject_asked)
    (auto simp: asked_or_in_def)

lemma pk_asked:
  "server_read_auth_request_pk V K H now until original user r t = Ok t' \<Longrightarrow> asked_or_in (enc_state (at_enc t'))"
  by (erule pk_request_cases) (auto dest: reject_asked publickey_signed_asked publickey_offered_asked)

lemma reply_info_asked:
  assumes "reply_userauth_info_response W until a answer t = Ok (granted_now, t')" "asked_or_in (enc_state (at_enc t))"
  shows "asked_or_in (enc_state (at_enc t'))"
  using assms
  by (auto simp: reply_userauth_info_response_def outcome_simps Let_def split: auth.splits dest: reject_asked)

lemma auth_request_asked:
  assumes "server_read_auth_request V K H now until initial_until original r t = Ok t'"
  shows "asked_or_in (enc_state (at_enc t'))"
  using assms
proof (cases rule: auth_request_cases)
  case (Interactive user rest x r1 a0 a submethods r2 answer h d granted_now t2)
  from reply_info_asked [OF Interactive(7)] Interactive(8) show ?thesis by (auto simp: asked_or_in_def)
qed (auto dest: settle_asked pk_asked reject_asked)

end
