(* ===== verification/ServerHandler.thy ===== *)
theory ServerHandler
  imports ServerSession ServerAuth FlowControl
begin

text \<open>
  The messages of an authenticated client: \<open>server_read_authenticated\<close> and \<open>server_handle_channel_open\<close> of
  \<open>server/encrypted.rs\<close>, one definition per message. The handler is a parameter, a record of callbacks
  that may change the handler (\<open>'h\<close>) and the session (\<open>'s\<close>).
\<close>

section \<open>The handler\<close>

record ('h, 'pub, 'cert, 's) server_handler = "('h, 'pub, 'cert) auth_handler" +
  h_auth_succeeded :: "'h \<Rightarrow> 's \<Rightarrow> ('h, 's) handled"
  h_channel_close :: "'h \<Rightarrow> channel_id \<Rightarrow> 's \<Rightarrow> ('h, 's) handled"
  h_channel_eof :: "'h \<Rightarrow> channel_id \<Rightarrow> 's \<Rightarrow> ('h, 's) handled"
  h_channel_open_session :: "'h \<Rightarrow> channel \<Rightarrow> 's \<Rightarrow> (bool \<times> 'h \<times> 's) rs"
  h_channel_open_x11 :: "'h \<Rightarrow> channel \<Rightarrow> string \<Rightarrow> u32 \<Rightarrow> 's \<Rightarrow> (bool \<times> 'h \<times> 's) rs"
  h_channel_open_direct_tcpip :: "'h \<Rightarrow> channel \<Rightarrow> tcp_channel_info \<Rightarrow> 's \<Rightarrow> (bool \<times> 'h \<times> 's) rs"
  h_channel_open_forwarded_tcpip :: "'h \<Rightarrow> channel \<Rightarrow> tcp_channel_info \<Rightarrow> 's \<Rightarrow> (bool \<times> 'h \<times> 's) rs"
  h_channel_open_direct_streamlocal :: "'h \<Rightarrow> channel \<Rightarrow> string \<Rightarrow> 's \<Rightarrow> (bool \<times> 'h \<times> 's) rs"
  h_channel_open_confirmation :: "'h \<Rightarrow> channel_id \<Rightarrow> u32 \<Rightarrow> u32 \<Rightarrow> 's \<Rightarrow> ('h, 's) handled"
  h_data :: "'h \<Rightarrow> channel_id \<Rightarrow> bytes \<Rightarrow> 's \<Rightarrow> ('h, 's) handled"
  h_extended_data :: "'h \<Rightarrow> channel_id \<Rightarrow> u32 \<Rightarrow> bytes \<Rightarrow> 's \<Rightarrow> ('h, 's) handled"
  h_window_adjusted :: "'h \<Rightarrow> channel_id \<Rightarrow> u32 \<Rightarrow> 's \<Rightarrow> ('h, 's) handled"
  h_adjust_window :: "'h \<Rightarrow> channel_id \<Rightarrow> u32 \<Rightarrow> u32 \<times> 'h"
  h_pty_request :: "'h \<Rightarrow> channel_id \<Rightarrow> string \<Rightarrow> u32 \<Rightarrow> u32 \<Rightarrow> u32 \<Rightarrow> u32 \<Rightarrow> (pty \<times> u32) list \<Rightarrow> 's \<Rightarrow> ('h, 's) handled"
  h_x11_request :: "'h \<Rightarrow> channel_id \<Rightarrow> bool \<Rightarrow> string \<Rightarrow> string \<Rightarrow> u32 \<Rightarrow> 's \<Rightarrow> ('h, 's) handled"
  h_env_request :: "'h \<Rightarrow> channel_id \<Rightarrow> string \<Rightarrow> string \<Rightarrow> 's \<Rightarrow> ('h, 's) handled"
  h_shell_request :: "'h \<Rightarrow> channel_id \<Rightarrow> 's \<Rightarrow> ('h, 's) handled"
  h_exec_request :: "'h \<Rightarrow> channel_id \<Rightarrow> bytes \<Rightarrow> 's \<Rightarrow> ('h, 's) handled"
  h_subsystem_request :: "'h \<Rightarrow> channel_id \<Rightarrow> string \<Rightarrow> 's \<Rightarrow> ('h, 's) handled"
  h_window_change_request :: "'h \<Rightarrow> channel_id \<Rightarrow> u32 \<Rightarrow> u32 \<Rightarrow> u32 \<Rightarrow> u32 \<Rightarrow> 's \<Rightarrow> ('h, 's) handled"
  h_agent_request :: "'h \<Rightarrow> channel_id \<Rightarrow> 's \<Rightarrow> (bool \<times> 'h \<times> 's) rs"
  h_signal :: "'h \<Rightarrow> channel_id \<Rightarrow> sig \<Rightarrow> 's \<Rightarrow> ('h, 's) handled"
  h_tcpip_forward :: "'h \<Rightarrow> string \<Rightarrow> u32 \<Rightarrow> 's \<Rightarrow> (bool \<times> u32 \<times> 'h \<times> 's) rs" \<comment> \<open>with the port it set\<close>
  h_cancel_tcpip_forward :: "'h \<Rightarrow> string \<Rightarrow> u32 \<Rightarrow> 's \<Rightarrow> (bool \<times> 'h \<times> 's) rs"
  h_streamlocal_forward :: "'h \<Rightarrow> string \<Rightarrow> 's \<Rightarrow> (bool \<times> 'h \<times> 's) rs"
  h_cancel_streamlocal_forward :: "'h \<Rightarrow> string \<Rightarrow> 's \<Rightarrow> (bool \<times> 'h \<times> 's) rs"
  h_lookup_dh_gex_group :: "'h \<Rightarrow> gex_params \<Rightarrow> dh_group option rs"

text \<open>The record over the server's session.\<close>

type_synonym ('h, 'pub, 'cert, 'st, 'z, 'key) handler =
  "('h, 'pub, 'cert, ('st, 'z, 'key) server_session) server_handler"

text \<open>\<open>if let Some(chan) = self.channels.get(&channel_num) { chan.send(..).await }\<close>, a failure ignored.\<close>

definition to_channel :: "channel_id \<Rightarrow> channel_msg \<Rightarrow> ('st, 'z, 'key) server_session \<Rightarrow> ('st, 'z, 'key) server_session" where
  "to_channel c m s =
     (case ss_channels s c of
        None \<Rightarrow> s
      | Some ref \<Rightarrow> s\<lparr>ss_channels := (ss_channels s)(c \<mapsto> send_ignoring m ref)\<rparr>)"

section \<open>Channels closed, ended, fed\<close>

definition srv_channel_close ::
    "wire \<Rightarrow> ('h, 'pub, 'cert, 'st, 'z, 'key) handler \<Rightarrow> bytes \<Rightarrow> 'h \<Rightarrow> ('st, 'z, 'key) server_session
      \<Rightarrow> ('h, ('st, 'z, 'key) server_session) handled" where
  "srv_channel_close W H r h s =
     and_then (decode_channel_id W r) (\<lambda>(c, _).
     and_then (with_enc (\<lambda>enc. Ok (enc\<lparr>channels := (channels enc)(c := None)\<rparr>)) s) (\<lambda>s.
       h_channel_close H h c (s\<lparr>ss_channels := (ss_channels s)(c := None)\<rparr>)))"

definition srv_channel_eof ::
    "wire \<Rightarrow> ('h, 'pub, 'cert, 'st, 'z, 'key) handler \<Rightarrow> bytes \<Rightarrow> 'h \<Rightarrow> ('st, 'z, 'key) server_session
      \<Rightarrow> ('h, ('st, 'z, 'key) server_session) handled" where
  "srv_channel_eof W H r h s =
     and_then (decode_channel_id W r) (\<lambda>(c, _). h_channel_eof H h c (to_channel c CmEof s))"

text \<open>Data: the window is accounted for, and the handler may set the size it is kept at; what was written
  is flushed; then the channel and the handler get the data.\<close>

definition account_data ::
    "wire \<Rightarrow> ('h, 'pub, 'cert, 'st, 'z, 'key) handler \<Rightarrow> channel_id \<Rightarrow> bytes \<Rightarrow> 'h \<Rightarrow> ('st, 'z, 'key) server_session
      \<Rightarrow> ('h, ('st, 'z, 'key) server_session) handled" where
  "account_data W H c data h s =
     (case ss_encrypted s of
        None \<Rightarrow> Ok (h, s)
      | Some enc \<Rightarrow>
          and_then (adjust_window_size W c data (ss_target_window_size s) enc) (\<lambda>(adjusted, enc).
            let s = ss_set_encrypted enc s in
            if adjusted then
              (case h_adjust_window H h c (ss_target_window_size s) of
                 (window, h) \<Rightarrow> Ok (h, if 0 < window then s\<lparr>ss_target_window_size := window\<rparr> else s))
            else Ok (h, s)))"

definition srv_channel_data ::
    "('st, 'z, 'key, 'pub, 'sig) env \<Rightarrow> ('h, 'pub, 'cert, 'st, 'z, 'key) handler \<Rightarrow> nat \<Rightarrow> bool \<Rightarrow> bytes \<Rightarrow> 'h
      \<Rightarrow> ('st, 'z, 'key) server_session \<Rightarrow> ('h, ('st, 'z, 'key) server_session) handled" where
  "srv_channel_data V H now extended r h s =
     (let W = env_wire V in
      and_then (decode_channel_id W r) (\<lambda>(c, r).
      and_then (if extended then and_then (r_u32 W r) (\<lambda>(x, r). Ok (Some x, r)) else Ok (None, r)) (\<lambda>(ext, r).
      and_then (r_bytes W r) (\<lambda>(data, _).
      and_then (account_data W H c data h s) (\<lambda>(h, s).
      and_then (ss_flush V now s) (\<lambda>s.
        case ext of
          Some x \<Rightarrow> h_extended_data H h c x data (to_channel c (CmExtendedData data x) s)
        | None \<Rightarrow> h_data H h c data (to_channel c (CmData data) s)))))))"

definition srv_window_adjust ::
    "wire \<Rightarrow> ('h, 'pub, 'cert, 'st, 'z, 'key) handler \<Rightarrow> bytes \<Rightarrow> 'h \<Rightarrow> ('st, 'z, 'key) server_session
      \<Rightarrow> ('h, ('st, 'z, 'key) server_session) handled" where
  "srv_window_adjust W H r h s =
     and_then (decode_channel_id W r) (\<lambda>(c, r).
     and_then (r_u32 W r) (\<lambda>(amount, _).
     and_then (case ss_encrypted s of
                 None \<Rightarrow> Ok (Some 0, s)
               | Some enc \<Rightarrow> and_then (server_window_adjust W c amount enc) (\<lambda>(n, enc). Ok (n, ss_set_encrypted enc s)))
       (\<lambda>(adjusted, s).
         case adjusted of
           None \<Rightarrow> Ok (h, s)
         | Some new_size \<Rightarrow>
             h_window_adjusted H h c new_size
               (case ss_channels s c of
                  None \<Rightarrow> s
                | Some ref \<Rightarrow>
                    let ref = window_update new_size ref in
                    s\<lparr>ss_channels := (ss_channels s)(c \<mapsto>
                      (case chan_try_send (CmWindowAdjusted new_size) ref of Ok ref \<Rightarrow> ref | _ \<Rightarrow> ref))\<rparr>))))"

section \<open>Channels opened by the server\<close>

definition srv_open_confirmation ::
    "wire \<Rightarrow> ('h, 'pub, 'cert, 'st, 'z, 'key) handler \<Rightarrow> bytes \<Rightarrow> 'h \<Rightarrow> ('st, 'z, 'key) server_session
      \<Rightarrow> ('h, ('st, 'z, 'key) server_session) handled" where
  "srv_open_confirmation W H r h s =
     and_then (decode_open_confirmation W r) (\<lambda>(m, _).
       let c = ChannelId (coc_recipient_channel m) in
       (case ss_encrypted s of
          None \<Rightarrow> Err Inconsistent
        | Some enc \<Rightarrow>
            (case channels enc c of
               None \<Rightarrow> Err Inconsistent
             | Some ch \<Rightarrow>
                 let s = ss_set_encrypted (enc\<lparr>channels := (channels enc)(c \<mapsto> confirm_channel m ch)\<rparr>) s in
                 h_channel_open_confirmation H h c (coc_maximum_packet_size m) (coc_initial_window_size m)
                   (to_channel c (CmOpen c (coc_maximum_packet_size m) (coc_initial_window_size m)) s))))"

definition srv_open_failure ::
    "wire \<Rightarrow> bytes \<Rightarrow> 'h \<Rightarrow> ('st, 'z, 'key) server_session \<Rightarrow> ('h, ('st, 'z, 'key) server_session) handled" where
  "srv_open_failure W r h s =
     and_then (decode_channel_id W r) (\<lambda>(c, r).
     and_then (r_u32 W r) (\<lambda>(code, r).
       let reason = (case channel_open_failure_from_u32 code of Some f \<Rightarrow> f | None \<Rightarrow> UnknownFailure) in
     and_then (r_str W r) (\<lambda>(_, r).
     and_then (r_str W r) (\<lambda>(_, r).
     and_then (with_enc (\<lambda>enc. Ok (enc\<lparr>channels := (channels enc)(c := None)\<rparr>)) s) (\<lambda>s.
       case ss_channels s c of
         None \<Rightarrow> Ok (h, s)
       | Some ref \<Rightarrow>
           and_then (chan_send (CmOpenFailure reason) ref) (\<lambda>_.
             Ok (h, s\<lparr>ss_channels := (ss_channels s)(c := None)\<rparr>)))))))"

section \<open>Answers to global requests\<close>

text \<open>The answer awaited first is taken off the queue; \<open>ok\<close> is what the client said, \<open>r\<close> the rest of it.\<close>

definition send_answer :: "nat \<Rightarrow> global_answer \<Rightarrow> ('st, 'z, 'key) server_session \<Rightarrow> ('st, 'z, 'key) server_session" where
  "send_answer return_channel a s = s\<lparr>ss_answers := ss_answers s @ [(return_channel, a)]\<rparr>"

definition srv_request_success ::
    "wire \<Rightarrow> bytes \<Rightarrow> 'h \<Rightarrow> ('st, 'z, 'key) server_session \<Rightarrow> ('h, ('st, 'z, 'key) server_session) handled" where
  "srv_request_success W r h s =
     (case ss_open_global_requests s of
        [] \<Rightarrow> Ok (h, s)
      | q # qs \<Rightarrow>
          let s = s\<lparr>ss_open_global_requests := qs\<rparr> in
          (case q of
             GrPing c \<Rightarrow> Ok (h, send_answer c AnsPong s)
           | GrTcpIpForward c \<Rightarrow>
               Ok (h, send_answer c (AnsPort (if r = [] then Some 0 else (case r_u32 W r of Ok (port, _) \<Rightarrow> Some port | _ \<Rightarrow> None))) s)
           | GrCancelTcpIpForward c \<Rightarrow> Ok (h, send_answer c (AnsBool True) s)
           | _ \<Rightarrow> Ok (h, s)))"

definition srv_request_failure ::
    "'h \<Rightarrow> ('st, 'z, 'key) server_session \<Rightarrow> ('h, ('st, 'z, 'key) server_session) handled" where
  "srv_request_failure h s =
     (case ss_open_global_requests s of
        [] \<Rightarrow> Ok (h, s)
      | q # qs \<Rightarrow>
          let s = s\<lparr>ss_open_global_requests := qs\<rparr> in
          (case q of
             GrPing c \<Rightarrow> Ok (h, send_answer c AnsPong s)
           | GrTcpIpForward c \<Rightarrow> Ok (h, send_answer c (AnsPort None) s)
           | GrCancelTcpIpForward c \<Rightarrow> Ok (h, send_answer c (AnsBool False) s)
           | _ \<Rightarrow> Ok (h, s)))"

section \<open>Channel requests\<close>

text \<open>The terminal modes: five bytes each, an opcode and a number, up to the first zero opcode. The array
  has room for 130; the number is read from the four bytes that follow, which need not be there.\<close>

function pty_modes :: "wire \<Rightarrow> bytes \<Rightarrow> nat \<Rightarrow> (pty \<times> u32) list \<Rightarrow> (nat \<times> (pty \<times> u32) list) rs" where
  "pty_modes W mode_string i modes =
     (if 5 * i < length mode_string then
        (let code = mode_string ! (5 * i) in
         if code = 0 then Ok (i, modes)
         else
           and_then (slice_from (5 * i + 1) mode_string) (\<lambda>t.
           and_then (be_read_u32 W t) (\<lambda>num.
             pty_modes W mode_string (i + 1)
               (case pty_from_u8 code of
                  Some code \<Rightarrow> (if i < 130 then modes[i := (code, num)] else modes)
                | None \<Rightarrow> modes))))
      else Ok (i, modes))"
  by pat_completeness auto
termination by (relation "measure (\<lambda>(W, m, i, modes). length m - i)") auto

declare pty_modes.simps [simp del]

definition srv_pty_request ::
    "wire \<Rightarrow> ('h, 'pub, 'cert, 'st, 'z, 'key) handler \<Rightarrow> channel_id \<Rightarrow> bytes \<Rightarrow> 'h \<Rightarrow> ('st, 'z, 'key) server_session
      \<Rightarrow> ('h, ('st, 'z, 'key) server_session) handled" where
  "srv_pty_request W H c r h s =
     and_then (r_str W r) (\<lambda>(term, r). and_then (r_u32 W r) (\<lambda>(col_width, r). and_then (r_u32 W r) (\<lambda>(row_height, r).
     and_then (r_u32 W r) (\<lambda>(pix_width, r). and_then (r_u32 W r) (\<lambda>(pix_height, r). and_then (r_bytes W r) (\<lambda>(mode_string, _).
     and_then (pty_modes W mode_string 0 (replicate 130 (TTY_OP_END, 0))) (\<lambda>(i, modes).
       let s = to_channel c (CmRequestPty True term col_width row_height pix_width pix_height modes) s in
     and_then (slice 0 i modes) (\<lambda>ms.
       h_pty_request H h c term col_width row_height pix_width pix_height ms s))))))))"

definition srv_x11_request ::
    "wire \<Rightarrow> ('h, 'pub, 'cert, 'st, 'z, 'key) handler \<Rightarrow> channel_id \<Rightarrow> bytes \<Rightarrow> 'h \<Rightarrow> ('st, 'z, 'key) server_session
      \<Rightarrow> ('h, ('st, 'z, 'key) server_session) handled" where
  "srv_x11_request W H c r h s =
     and_then (r_u8 W r) (\<lambda>(single, r). and_then (r_str W r) (\<lambda>(protocol, r). and_then (r_str W r) (\<lambda>(cookie, r).
     and_then (r_u32 W r) (\<lambda>(screen_number, _).
       h_x11_request H h c (single \<noteq> 0) protocol cookie screen_number
         (to_channel c (CmRequestX11 True (single \<noteq> 0) protocol cookie screen_number) s)))))"

definition srv_env_request ::
    "wire \<Rightarrow> ('h, 'pub, 'cert, 'st, 'z, 'key) handler \<Rightarrow> channel_id \<Rightarrow> bytes \<Rightarrow> 'h \<Rightarrow> ('st, 'z, 'key) server_session
      \<Rightarrow> ('h, ('st, 'z, 'key) server_session) handled" where
  "srv_env_request W H c r h s =
     and_then (r_str W r) (\<lambda>(variable, r). and_then (r_str W r) (\<lambda>(val, _).
       h_env_request H h c variable val (to_channel c (CmSetEnv True variable val) s)))"

definition srv_agent_request ::
    "wire \<Rightarrow> ('h, 'pub, 'cert, 'st, 'z, 'key) handler \<Rightarrow> channel_id \<Rightarrow> bytes \<Rightarrow> 'h \<Rightarrow> ('st, 'z, 'key) server_session
      \<Rightarrow> ('h, ('st, 'z, 'key) server_session) handled" where
  "srv_agent_request W H c r h s =
     and_then (h_agent_request H h c (to_channel c (CmAgentForward True) s)) (\<lambda>(response, h, s).
     and_then (if response then request_success W s else request_failure W s) (\<lambda>s. Ok (h, s)))"

definition srv_exec_request ::
    "wire \<Rightarrow> ('h, 'pub, 'cert, 'st, 'z, 'key) handler \<Rightarrow> channel_id \<Rightarrow> bytes \<Rightarrow> 'h \<Rightarrow> ('st, 'z, 'key) server_session
      \<Rightarrow> ('h, ('st, 'z, 'key) server_session) handled" where
  "srv_exec_request W H c r h s =
     and_then (r_bytes W r) (\<lambda>(req, _). h_exec_request H h c req (to_channel c (CmExec True req) s))"

definition srv_subsystem_request ::
    "wire \<Rightarrow> ('h, 'pub, 'cert, 'st, 'z, 'key) handler \<Rightarrow> channel_id \<Rightarrow> bytes \<Rightarrow> 'h \<Rightarrow> ('st, 'z, 'key) server_session
      \<Rightarrow> ('h, ('st, 'z, 'key) server_session) handled" where
  "srv_subsystem_request W H c r h s =
     and_then (r_str W r) (\<lambda>(name, _). h_subsystem_request H h c name (to_channel c (CmRequestSubsystem True name) s))"

definition srv_window_change_request ::
    "wire \<Rightarrow> ('h, 'pub, 'cert, 'st, 'z, 'key) handler \<Rightarrow> channel_id \<Rightarrow> bytes \<Rightarrow> 'h \<Rightarrow> ('st, 'z, 'key) server_session
      \<Rightarrow> ('h, ('st, 'z, 'key) server_session) handled" where
  "srv_window_change_request W H c r h s =
     and_then (r_u32 W r) (\<lambda>(col_width, r). and_then (r_u32 W r) (\<lambda>(row_height, r).
     and_then (r_u32 W r) (\<lambda>(pix_width, r). and_then (r_u32 W r) (\<lambda>(pix_height, _).
       h_window_change_request H h c col_width row_height pix_width pix_height
         (to_channel c (CmWindowChange col_width row_height pix_width pix_height) s)))))"

definition srv_signal_request ::
    "wire \<Rightarrow> ('h, 'pub, 'cert, 'st, 'z, 'key) handler \<Rightarrow> channel_id \<Rightarrow> bytes \<Rightarrow> 'h \<Rightarrow> ('st, 'z, 'key) server_session
      \<Rightarrow> ('h, ('st, 'z, 'key) server_session) handled" where
  "srv_signal_request W H c r h s =
     and_then (r_str W r) (\<lambda>(name, _).
       let signal = sig_from_name name in h_signal H h c signal (to_channel c (CmSignal signal) s))"

definition srv_channel_request ::
    "wire \<Rightarrow> ('h, 'pub, 'cert, 'st, 'z, 'key) handler \<Rightarrow> bytes \<Rightarrow> 'h \<Rightarrow> ('st, 'z, 'key) server_session
      \<Rightarrow> ('h, ('st, 'z, 'key) server_session) handled" where
  "srv_channel_request W H r h s =
     and_then (decode_channel_id W r) (\<lambda>(c, r).
     and_then (r_str W r) (\<lambda>(req_type, r).
     and_then (r_u8 W r) (\<lambda>(wants, r).
     and_then (with_enc (\<lambda>enc. Ok (case channels enc c of
                 Some ch \<Rightarrow> enc\<lparr>channels := (channels enc)(c \<mapsto> ch\<lparr>chan_wants_reply := (wants \<noteq> 0)\<rparr>)\<rparr>
               | None \<Rightarrow> enc)) s) (\<lambda>s.
       if req_type = ''pty-req'' then srv_pty_request W H c r h s
       else if req_type = ''x11-req'' then srv_x11_request W H c r h s
       else if req_type = ''env'' then srv_env_request W H c r h s
       else if req_type = ''shell'' then h_shell_request H h c (to_channel c (CmRequestShell True) s)
       else if req_type = ''auth-agent-req@openssh.com'' then srv_agent_request W H c r h s
       else if req_type = ''exec'' then srv_exec_request W H c r h s
       else if req_type = ''subsystem'' then srv_subsystem_request W H c r h s
       else if req_type = ''window-change'' then srv_window_change_request W H c r h s
       else if req_type = ''signal'' then srv_signal_request W H c r h s
       else and_then (channel_failure W c s) (\<lambda>s. Ok (h, s))))))"

section \<open>Global requests\<close>

text \<open>The reply to a request of which the handler said yes or no.\<close>

definition yes_or_no :: "wire \<Rightarrow> bool \<Rightarrow> ('st, 'z, 'key) server_session \<Rightarrow> ('st, 'z, 'key) server_session rs" where
  "yes_or_no W result = with_enc (enc_push W [push (if result then REQUEST_SUCCESS else REQUEST_FAILURE)])"

definition srv_tcpip_forward ::
    "wire \<Rightarrow> ('h, 'pub, 'cert, 'st, 'z, 'key) handler \<Rightarrow> bytes \<Rightarrow> 'h \<Rightarrow> ('st, 'z, 'key) server_session
      \<Rightarrow> ('h, ('st, 'z, 'key) server_session) handled" where
  "srv_tcpip_forward W H r h s =
     and_then (r_str W r) (\<lambda>(address, r). and_then (r_u32 W r) (\<lambda>(port, _).
     and_then (h_tcpip_forward H h address port s) (\<lambda>(result, returned_port, h, s).
     and_then (if result
               then with_enc (enc_push W (push REQUEST_SUCCESS
                      # (if wants_reply (ss_common s) \<and> port = 0 \<and> returned_port \<noteq> 0 then [w_u32 W returned_port] else []))) s
               else yes_or_no W False s) (\<lambda>s. Ok (h, s)))))"

definition srv_global_request ::
    "wire \<Rightarrow> ('h, 'pub, 'cert, 'st, 'z, 'key) handler \<Rightarrow> bytes \<Rightarrow> 'h \<Rightarrow> ('st, 'z, 'key) server_session
      \<Rightarrow> ('h, ('st, 'z, 'key) server_session) handled" where
  "srv_global_request W H r h s =
     and_then (r_str W r) (\<lambda>(req_type, r).
     and_then (r_u8 W r) (\<lambda>(wants, r).
       let s = s\<lparr>ss_common := (ss_common s)\<lparr>wants_reply := (wants \<noteq> 0)\<rparr>\<rparr> in
       if req_type = ''tcpip-forward'' then srv_tcpip_forward W H r h s
       else if req_type = ''cancel-tcpip-forward'' then
         and_then (r_str W r) (\<lambda>(address, r). and_then (r_u32 W r) (\<lambda>(port, _).
         and_then (h_cancel_tcpip_forward H h address port s) (\<lambda>(result, h, s).
         and_then (yes_or_no W result s) (\<lambda>s. Ok (h, s)))))
       else if req_type = ''streamlocal-forward@openssh.com'' then
         and_then (r_str W r) (\<lambda>(path, _).
         and_then (h_streamlocal_forward H h path s) (\<lambda>(result, h, s).
         and_then (yes_or_no W result s) (\<lambda>s. Ok (h, s))))
       else if req_type = ''cancel-streamlocal-forward@openssh.com'' then
         and_then (r_str W r) (\<lambda>(path, _).
         and_then (h_cancel_streamlocal_forward H h path s) (\<lambda>(result, h, s).
         and_then (yes_or_no W result s) (\<lambda>s. Ok (h, s))))
       else and_then (with_enc (enc_push W [push REQUEST_FAILURE]) s) (\<lambda>s. Ok (h, s))))"

section \<open>Channels opened by the client\<close>

definition finalize_channel_open ::
    "wire \<Rightarrow> open_channel \<Rightarrow> channel_params \<Rightarrow> bool \<Rightarrow> ('st, 'z, 'key) server_session \<Rightarrow> ('st, 'z, 'key) server_session rs" where
  "finalize_channel_open W m ch allowed =
     with_enc (\<lambda>enc.
       if allowed then
         and_then (open_confirm W m (channel_num (sender_channel ch)) (sender_window_size ch)
                    (sender_maximum_packet_size ch) (enc_write enc)) (\<lambda>w.
           Ok (enc\<lparr>enc_write := w, channels := (channels enc)(sender_channel ch \<mapsto> ch)\<rparr>))
       else
         and_then (open_fail W m SSH_OPEN_ADMINISTRATIVELY_PROHIBITED (as_bytes ''Rejected'') (enc_write enc)) (\<lambda>w.
           Ok (enc\<lparr>enc_write := w\<rparr>)))"

text \<open>The branches that ask the handler: its answer, and the reference that is kept in either case.\<close>

definition decide_channel_open ::
    "wire \<Rightarrow> open_channel \<Rightarrow> channel_params \<Rightarrow> channel_ref \<Rightarrow> (bool \<times> 'h \<times> ('st, 'z, 'key) server_session) rs
      \<Rightarrow> (bool \<times> 'h \<times> ('st, 'z, 'key) server_session) rs" where
  "decide_channel_open W m ch ref asked =
     and_then asked (\<lambda>(allowed, h, s).
       let s = s\<lparr>ss_channels := (ss_channels s)(sender_channel ch \<mapsto> ref)\<rparr> in
     and_then (finalize_channel_open W m ch allowed s) (\<lambda>s. Ok (allowed, h, s)))"

definition refuse_channel_open ::
    "(bytes \<Rightarrow> bytes rs) \<Rightarrow> 'h \<Rightarrow> ('st, 'z, 'key) server_session \<Rightarrow> (bool \<times> 'h \<times> ('st, 'z, 'key) server_session) rs" where
  "refuse_channel_open f h s =
     and_then (with_enc (\<lambda>enc. and_then (f (enc_write enc)) (\<lambda>w. Ok (enc\<lparr>enc_write := w\<rparr>))) s) (\<lambda>s. Ok (False, h, s))"

definition opened_params :: "'key server_config \<Rightarrow> open_channel \<Rightarrow> channel_id \<Rightarrow> channel_params" where
  "opened_params cfg m c = \<lparr>recipient_channel = oc_recipient_channel m, sender_channel = c,
     recipient_window_size = oc_recipient_window_size m, sender_window_size = sc_window_size cfg,
     recipient_maximum_packet_size = oc_recipient_maximum_packet_size m,
     sender_maximum_packet_size = sc_maximum_packet_size cfg, confirmed = True, chan_wants_reply = False,
     pending_data = [], pending_eof = False, pending_close = False\<rparr>"

definition server_handle_channel_open ::
    "wire \<Rightarrow> ('h, 'pub, 'cert, 'st, 'z, 'key) handler \<Rightarrow> bytes \<Rightarrow> 'h \<Rightarrow> ('st, 'z, 'key) server_session
      \<Rightarrow> (bool \<times> 'h \<times> ('st, 'z, 'key) server_session) rs" where
  "server_handle_channel_open W H r h s =
     and_then (parse_open_channel W r) (\<lambda>(m, _).
       case ss_encrypted s of
         None \<Rightarrow> Panic
       | Some enc \<Rightarrow>
           and_then (new_channel_id enc) (\<lambda>(c, enc).
             let s = ss_set_encrypted enc s;
                 ch = opened_params (ss_config s) m c in
             (case channel_new c (recipient_maximum_packet_size ch) (recipient_window_size ch)
                     (sc_channel_buffer_size (ss_config s)) of
                (chan, ref) \<Rightarrow>
                  (let unsupported = refuse_channel_open
                         (open_fail W m SSH_OPEN_ADMINISTRATIVELY_PROHIBITED (as_bytes ''Unsupported channel type'')) in
                   case oc_typ m of
                     CT_Session \<Rightarrow> decide_channel_open W m ch ref (h_channel_open_session H h chan s)
                   | CT_X11 address port \<Rightarrow> decide_channel_open W m ch ref (h_channel_open_x11 H h chan address port s)
                   | CT_DirectTcpip d \<Rightarrow> decide_channel_open W m ch ref (h_channel_open_direct_tcpip H h chan d s)
                   | CT_ForwardedTcpIp d \<Rightarrow> decide_channel_open W m ch ref (h_channel_open_forwarded_tcpip H h chan d s)
                   | CT_DirectStreamLocal path \<Rightarrow> decide_channel_open W m ch ref (h_channel_open_direct_streamlocal H h chan path s)
                   | CT_ForwardedStreamLocal path \<Rightarrow> unsupported h s
                   | CT_AgentForward \<Rightarrow> unsupported h s
                   | CT_Unknown typ \<Rightarrow> refuse_channel_open (open_unknown_type W m) h s))))"

section \<open>Dispatch\<close>

definition server_read_authenticated ::
    "('st, 'z, 'key, 'pub, 'sig) env \<Rightarrow> ('h, 'pub, 'cert, 'st, 'z, 'key) handler \<Rightarrow> nat \<Rightarrow> u8 \<Rightarrow> bytes \<Rightarrow> 'h
      \<Rightarrow> ('st, 'z, 'key) server_session \<Rightarrow> ('h, ('st, 'z, 'key) server_session) handled" where
  "server_read_authenticated V H now msg r h s =
     (let W = env_wire V in
      if msg = CHANNEL_OPEN then and_then (server_handle_channel_open W H r h s) (\<lambda>(_, h, s). Ok (h, s))
      else if msg = CHANNEL_CLOSE then srv_channel_close W H r h s
      else if msg = CHANNEL_EOF then srv_channel_eof W H r h s
      else if msg = CHANNEL_EXTENDED_DATA then srv_channel_data V H now True r h s
      else if msg = CHANNEL_DATA then srv_channel_data V H now False r h s
      else if msg = CHANNEL_WINDOW_ADJUST then srv_window_adjust W H r h s
      else if msg = CHANNEL_OPEN_CONFIRMATION then srv_open_confirmation W H r h s
      else if msg = CHANNEL_REQUEST then srv_channel_request W H r h s
      else if msg = GLOBAL_REQUEST then srv_global_request W H r h s
      else if msg = CHANNEL_OPEN_FAILURE then srv_open_failure W r h s
      else if msg = REQUEST_SUCCESS then srv_request_success W r h s
      else if msg = REQUEST_FAILURE then srv_request_failure h s
      else Ok (h, s))"

end
