(* ===== verification/ServerLoop.thy ===== *)
theory ServerLoop
  imports ServerHandler
begin

text \<open>
  How the server treats a packet: \<open>process_packet\<close> of \<open>server/encrypted.rs\<close>, \<open>reply\<close> of \<open>server/mod.rs\<close>, and one
  round of the event loop of \<open>server/session.rs\<close>. \<open>now\<close> is the monotonic clock, \<open>wall\<close> the time of day;
  \<open>order\<close> is the order in which the map of channels is walked. While a packet is handled the opening
  cipher is the one in the session (the loop swaps it in and out).
\<close>

section \<open>\<open>process_packet\<close>\<close>

definition auth_state_of :: "nat \<Rightarrow> 'h \<Rightarrow> 'z encrypted \<Rightarrow> ('st, 'z, 'key) server_session \<Rightarrow> ('z, 'h) auth_state" where
  "auth_state_of now h enc s = \<lparr>at_enc = enc, at_user = auth_user (ss_common s), at_handler = h, at_clock = now\<rparr>"

definition put_auth_state :: "('z, 'h) auth_state \<Rightarrow> ('st, 'z, 'key) server_session \<Rightarrow> ('st, 'z, 'key) server_session" where
  "put_auth_state t s = s\<lparr>ss_common := (ss_common s)\<lparr>cs_encrypted := Some (at_enc t), auth_user := at_user t\<rparr>\<rparr>"

text \<open>Success: decompression starts and the handler is told.\<close>

definition auth_success ::
    "('st, 'z, 'key, 'pub, 'sig) env \<Rightarrow> ('h, 'pub, 'cert, 'st, 'z, 'key) handler \<Rightarrow> 'h \<Rightarrow> ('st, 'z, 'key) server_session
      \<Rightarrow> ('h, ('st, 'z, 'key) server_session) handled" where
  "auth_success V H h s =
     and_then (with_enc (\<lambda>enc. Ok (enc\<lparr>enc_decompress :=
                 init_decompress (flate_of (crates_of V)) (client_compression enc) (enc_decompress enc)\<rparr>)) s)
       (\<lambda>s. h_auth_succeeded H h s)"

definition none_rejection_until :: "'key server_config \<Rightarrow> nat \<Rightarrow> nat \<Rightarrow> nat" where
  "none_rejection_until cfg attempts now =
     now + (if attempts = 0
            then (case sc_auth_rejection_time_initial cfg of Some t \<Rightarrow> t | None \<Rightarrow> sc_auth_rejection_time cfg)
            else sc_auth_rejection_time cfg)"

definition process_service_request ::
    "('st, 'z, 'key, 'pub, 'sig) env \<Rightarrow> ('h, 'pub, 'cert, 'st, 'z, 'key) handler \<Rightarrow> bytes \<Rightarrow> 'z encrypted \<Rightarrow> 'h
      \<Rightarrow> ('st, 'z, 'key) server_session \<Rightarrow> ('h, ('st, 'z, 'key) server_session) handled" where
  "process_service_request V H r enc h s =
     (let W = env_wire V in
      and_then (r_str W r) (\<lambda>(request, _).
        if request = ''ssh-userauth'' then
          and_then (authentication_banner H h) (\<lambda>(banner, h).
          and_then (server_accept_service W banner (sc_methods (ss_config s)) (enc_write enc)) (\<lambda>(a, w).
            Ok (h, ss_set_encrypted (enc\<lparr>enc_write := w, enc_state := WaitingAuthRequest a\<rparr>) s)))
        else Ok (h, s)))"

definition process_auth_request ::
    "('st, 'z, 'key, 'pub, 'sig) env \<Rightarrow> ('pub, 'cert) cert_crates \<Rightarrow> ('h, 'pub, 'cert, 'st, 'z, 'key) handler \<Rightarrow> nat \<Rightarrow> nat
      \<Rightarrow> bytes \<Rightarrow> bytes \<Rightarrow> 'z encrypted \<Rightarrow> 'h \<Rightarrow> ('st, 'z, 'key) server_session
      \<Rightarrow> ('h, ('st, 'z, 'key) server_session) handled" where
  "process_auth_request V K H now wall buf r enc h s =
     and_then (server_read_auth_request V K (auth_handler.truncate H) wall (now + sc_auth_rejection_time (ss_config s))
                 (none_rejection_until (ss_config s) (auth_attempts (ss_common s)) now) buf r (auth_state_of now h enc s))
       (\<lambda>t.
         let s = put_auth_state t s;
             s = s\<lparr>ss_common := (ss_common s)\<lparr>auth_attempts := auth_attempts (ss_common s) + 1\<rparr>\<rparr> in
         if enc_state (at_enc t) = InitCompression then auth_success V H (at_handler t) s
         else Ok (at_handler t, s))"

definition process_info_response ::
    "('st, 'z, 'key, 'pub, 'sig) env \<Rightarrow> ('pub, 'cert) cert_crates \<Rightarrow> ('h, 'pub, 'cert, 'st, 'z, 'key) handler \<Rightarrow> nat
      \<Rightarrow> auth_request \<Rightarrow> bytes \<Rightarrow> 'z encrypted \<Rightarrow> 'h \<Rightarrow> ('st, 'z, 'key) server_session
      \<Rightarrow> ('h, ('st, 'z, 'key) server_session) handled" where
  "process_info_response V K H now a r enc h s =
     and_then (read_userauth_info_response (env_wire V) K (auth_handler.truncate H)
                 (now + sc_auth_rejection_time (ss_config s)) a r (auth_state_of now h enc s))
       (\<lambda>(resp, t).
         let s = put_auth_state t s in
         if resp then
           auth_success V H (at_handler t) (ss_set_encrypted ((at_enc t)\<lparr>enc_state := InitCompression\<rparr>) s)
         else Ok (at_handler t, s))"

text \<open>The first packet after authentication starts compression.\<close>

definition start_compression ::
    "('st, 'z, 'key, 'pub, 'sig) env \<Rightarrow> 'z encrypted \<Rightarrow> ('st, 'z, 'key) server_session \<Rightarrow> ('st, 'z, 'key) server_session" where
  "start_compression V enc s =
     (let w = packet_writer (ss_common s);
          w = w\<lparr>pw_compress := init_compress (flate_of (crates_of V)) (server_compression enc) (pw_compress w)\<rparr> in
      s\<lparr>ss_common := (ss_common s)\<lparr>packet_writer := w, cs_encrypted := Some (enc\<lparr>enc_state := Authenticated\<rparr>)\<rparr>\<rparr>)"

definition process_packet ::
    "('st, 'z, 'key, 'pub, 'sig) env \<Rightarrow> ('pub, 'cert) cert_crates \<Rightarrow> ('h, 'pub, 'cert, 'st, 'z, 'key) handler \<Rightarrow> nat \<Rightarrow> nat
      \<Rightarrow> bytes \<Rightarrow> 'h \<Rightarrow> ('st, 'z, 'key) server_session \<Rightarrow> ('h, ('st, 'z, 'key) server_session) handled" where
  "process_packet V K H now wall buf h s =
     (case ss_encrypted s of
        None \<Rightarrow> Err Inconsistent
      | Some enc \<Rightarrow>
          (case buf of
             [] \<Rightarrow> Ok (h, s)
           | msg # r \<Rightarrow>
               (case enc_state enc of
                  WaitingAuthServiceRequest sent accepted \<Rightarrow>
                    if msg = SERVICE_REQUEST then process_service_request V H r enc h s else Ok (h, s)
                | WaitingAuthRequest a \<Rightarrow>
                    if msg = USERAUTH_REQUEST then process_auth_request V K H now wall buf r enc h s
                    else if msg = USERAUTH_INFO_RESPONSE then process_info_response V K H now a r enc h s
                    else Ok (h, s)
                | InitCompression \<Rightarrow> server_read_authenticated V H now msg r h (start_compression V enc s)
                | Authenticated \<Rightarrow> server_read_authenticated V H now msg r h s)))"

text \<open>The packets that were put off during a key exchange (the code never puts one off).\<close>

fun process_pending ::
    "('st, 'z, 'key, 'pub, 'sig) env \<Rightarrow> ('pub, 'cert) cert_crates \<Rightarrow> ('h, 'pub, 'cert, 'st, 'z, 'key) handler \<Rightarrow> nat \<Rightarrow> nat
      \<Rightarrow> bytes list \<Rightarrow> 'h \<Rightarrow> ('st, 'z, 'key) server_session \<Rightarrow> ('h, ('st, 'z, 'key) server_session) handled" where
  "process_pending V K H now wall [] h s = Ok (h, s)"
| "process_pending V K H now wall (p # ps) h s =
     and_then (process_packet V K H now wall p h s) (\<lambda>(h, s). process_pending V K H now wall ps h s)"

section \<open>\<open>reply\<close>\<close>

text \<open>The end of a key exchange: a later one, and the first.\<close>

definition finish_rekey ::
    "('st, 'z, 'key, 'pub, 'sig) env \<Rightarrow> ('pub, 'cert) cert_crates \<Rightarrow> ('h, 'pub, 'cert, 'st, 'z, 'key) handler
      \<Rightarrow> ((channel_id \<rightharpoonup> channel_params) \<Rightarrow> channel_id list) \<Rightarrow> nat \<Rightarrow> nat \<Rightarrow> 'st new_keys \<Rightarrow> 'z encrypted \<Rightarrow> 'h
      \<Rightarrow> ('st, 'z, 'key) server_session \<Rightarrow> ('h, ('st, 'z, 'key) server_session) handled" where
  "finish_rekey V K H order now wall nk enc h s =
     (let C = ss_common s; w = packet_writer C;
          w = w\<lparr>write_buffer := (write_buffer w)\<lparr>sent_bytes := 0\<rparr>\<rparr> in
      and_then (flush_all_pending (env_wire V) (order (channels enc)) (enc\<lparr>last_rekey := now\<rparr>)) (\<lambda>enc.
        let pending = ss_pending_reads s;
            s = s\<lparr>ss_common := C\<lparr>packet_writer := w, cs_encrypted := Some enc\<rparr>, ss_pending_reads := []\<rparr> in
      and_then (process_pending V K H now wall pending h s) (\<lambda>(h, s).
        let s = s\<lparr>ss_pending_reads := [], ss_pending_len := 0,
                  ss_common := newkeys (flate_of (crates_of V)) nk (ss_common s)\<rparr> in
      and_then (ss_flush V now s) (\<lambda>s. Ok (h, s)))))"

definition finish_first_kex ::
    "('st, 'z, 'key, 'pub, 'sig) env \<Rightarrow> nat \<Rightarrow> 'st new_keys \<Rightarrow> ('st, 'z, 'key) server_session
      \<Rightarrow> ('st, 'z, 'key) server_session rs" where
  "finish_first_kex V now nk s =
     maybe_send_ext_info V (s\<lparr>ss_common := set_encrypted (WaitingAuthServiceRequest False False) nk now (ss_common s)\<rparr>)"

definition reply_kex ::
    "('st, 'z, 'key, 'pub, 'sig) env \<Rightarrow> ('pub, 'cert) cert_crates \<Rightarrow> ('h, 'pub, 'cert, 'st, 'z, 'key) handler
      \<Rightarrow> ((channel_id \<rightharpoonup> channel_params) \<Rightarrow> channel_id list) \<Rightarrow> nat \<Rightarrow> nat \<Rightarrow> ('st, 'key) server_kex \<Rightarrow> incoming \<Rightarrow> 'h
      \<Rightarrow> ('st, 'z, 'key) server_session \<Rightarrow> ('h \<times> ('st, 'z, 'key) server_session \<times> u32) rs" where
  "reply_kex V K H order now wall kex pkt h s =
     and_then (server_step V (h_lookup_dh_gex_group H h) kex (Some pkt) (packet_writer (ss_common s))) (\<lambda>(progress, w).
       let s = s\<lparr>ss_common := (ss_common s)\<lparr>packet_writer := w\<rparr>\<rparr> in
     and_then
       (case progress of
          NeedsReply kex reset_seqn \<Rightarrow>
            let s = s\<lparr>ss_kex := KexInProgress kex\<rparr> in
            Ok (h, if reset_seqn then s\<lparr>ss_common := common_reset_seqn (ss_common s)\<rparr> else s, in_seqn pkt)
        | KexDone host_key nk \<Rightarrow>
            let s = s\<lparr>ss_common := (ss_common s)\<lparr>strict_kex := strict_kex (ss_common s) \<or> n_strict_kex (nk_names nk)\<rparr>\<rparr> in
            and_then (case ss_encrypted s of
                        Some enc \<Rightarrow> finish_rekey V K H order now wall nk enc h s
                      | None \<Rightarrow> and_then (finish_first_kex V now nk s) (\<lambda>s. Ok (h, s)))
              (\<lambda>(h, s). Ok (h, s\<lparr>ss_kex := KexIdle\<rparr>, if strict_kex (ss_common s) then 0 else in_seqn pkt)))
       (\<lambda>(h, s, seqno). and_then (ss_flush V now s) (\<lambda>s. Ok (h, s, seqno))))"

definition strict_message_ok :: "('st, 'z, 'key) server_session \<Rightarrow> incoming \<Rightarrow> unit rs" where
  "strict_message_ok s pkt =
     (case in_buffer pkt of
        [] \<Rightarrow> Ok ()
      | message_type # _ \<Rightarrow>
          if strict_kex (ss_common s) \<and> ss_encrypted s = None
          then validate_client_msg_strict_kex message_type (unat (in_seqn pkt - 1)) else Ok ())"

text \<open>The result's number is the packet's sequence number as the caller then takes it over.\<close>

definition reply ::
    "('st, 'z, 'key, 'pub, 'sig) env \<Rightarrow> ('pub, 'cert) cert_crates \<Rightarrow> ('h, 'pub, 'cert, 'st, 'z, 'key) handler
      \<Rightarrow> ((channel_id \<rightharpoonup> channel_params) \<Rightarrow> channel_id list) \<Rightarrow> nat \<Rightarrow> nat \<Rightarrow> incoming \<Rightarrow> 'h
      \<Rightarrow> ('st, 'z, 'key) server_session \<Rightarrow> ('h \<times> ('st, 'z, 'key) server_session \<times> u32) rs" where
  "reply V K H order now wall pkt h s =
     and_then (strict_message_ok s pkt) (\<lambda>_.
       if first (in_buffer pkt) \<in> {Some IGNORE, Some UNIMPLEMENTED, Some DEBUG} then Ok (h, s, in_seqn pkt)
       else
     and_then (if first (in_buffer pkt) = Some KEXINIT \<and> ss_kex s = KexIdle then ss_begin_rekey V s else Ok s) (\<lambda>s.
       let is_kex = (case first (in_buffer pkt) of Some m \<Rightarrow> is_kex_msg m | None \<Rightarrow> False);
           s' = (if is_kex then s\<lparr>ss_kex := snd (kex_take (ss_kex s))\<rparr> else s) in
       (case (is_kex, ss_kex s) of
          (True, KexInProgress kex) \<Rightarrow> reply_kex V K H order now wall kex pkt h s'
        | _ \<Rightarrow> and_then (process_packet V K H now wall (in_buffer pkt) h s') (\<lambda>(h, s). Ok (h, s, in_seqn pkt)))))"

section \<open>The event loop\<close>

datatype server_msg =
    SmChannelOpenAgent channel_ref
  | SmChannelOpenSession channel_ref
  | SmChannelOpenDirectTcpIp tcp_channel_info channel_ref
  | SmChannelOpenDirectStreamLocal string channel_ref
  | SmChannelOpenForwardedTcpIp tcp_channel_info channel_ref
  | SmChannelOpenForwardedStreamLocal string channel_ref
  | SmChannelOpenX11 string u32 channel_ref
  | SmTcpIpForward "nat option" string u32
  | SmCancelTcpIpForward "nat option" string u32
  | SmDisconnect disconnect_reason string string
  | SmChannel channel_id channel_msg

definition keep_ref ::
    "channel_ref \<Rightarrow> (channel_id \<times> ('st, 'z, 'key) server_session) rs \<Rightarrow> ('st, 'z, 'key) server_session rs" where
  "keep_ref ref opened =
     and_then opened (\<lambda>(c, s). Ok (s\<lparr>ss_channels := (ss_channels s)(c \<mapsto> ref)\<rparr>))"

text \<open>A message of the application. The last case is \<open>unimplemented!\<close>.\<close>

fun channel_message :: "wire \<Rightarrow> channel_id \<Rightarrow> channel_msg \<Rightarrow> ('st, 'z, 'key) server_session \<Rightarrow> ('st, 'z, 'key) server_session rs" where
  "channel_message W c (CmData data) s = ss_data W c data s"
| "channel_message W c (CmExtendedData data ext) s = ss_extended_data W c ext data s"
| "channel_message W c CmEof s = ss_eof W c s"
| "channel_message W c CmClose s = ss_close W c s"
| "channel_message W c CmSuccess s = channel_success W c s"
| "channel_message W c CmFailure s = channel_failure W c s"
| "channel_message W c (CmXonXoff client_can_do) s = xon_xoff_request W c client_can_do s"
| "channel_message W c (CmExitStatus exit_status) s = exit_status_request W c exit_status s"
| "channel_message W c (CmExitSignal signal core error_message lang) s = exit_signal_request W c signal core error_message lang s"
| "channel_message W c (CmWindowAdjusted new_size) s = Ok s"
| "channel_message W c _ s = Panic"

fun application_message :: "wire \<Rightarrow> server_msg \<Rightarrow> ('st, 'z, 'key) server_session \<Rightarrow> ('st, 'z, 'key) server_session rs" where
  "application_message W (SmChannel c m) s = channel_message W c m s"
| "application_message W (SmChannelOpenAgent ref) s = keep_ref ref (channel_open_agent W s)"
| "application_message W (SmChannelOpenSession ref) s = keep_ref ref (channel_open_session W s)"
| "application_message W (SmChannelOpenDirectTcpIp i ref) s =
     keep_ref ref (channel_open_direct_tcpip W (host_to_connect i) (port_to_connect i) (originator_address i) (originator_port i) s)"
| "application_message W (SmChannelOpenDirectStreamLocal path ref) s = keep_ref ref (channel_open_direct_streamlocal W path s)"
| "application_message W (SmChannelOpenForwardedTcpIp i ref) s =
     keep_ref ref (channel_open_forwarded_tcpip W (host_to_connect i) (port_to_connect i) (originator_address i) (originator_port i) s)"
| "application_message W (SmChannelOpenForwardedStreamLocal path ref) s = keep_ref ref (channel_open_forwarded_streamlocal W path s)"
| "application_message W (SmChannelOpenX11 address port ref) s = keep_ref ref (channel_open_x11 W address port s)"
| "application_message W (SmTcpIpForward reply_channel address port) s = tcpip_forward W address port reply_channel s"
| "application_message W (SmCancelTcpIpForward reply_channel address port) s = cancel_tcpip_forward W address port reply_channel s"
| "application_message W (SmDisconnect reason description language_tag) s =
     and_then (common_disconnect W reason description language_tag (ss_common s)) (\<lambda>C. Ok (s\<lparr>ss_common := C\<rparr>))"

definition maybe_decompress ::
    "('st, 'z, 'key, 'pub, 'sig) env \<Rightarrow> sshbuffer \<Rightarrow> ('st, 'z, 'key) server_session \<Rightarrow> (incoming \<times> ('st, 'z, 'key) server_session) rs" where
  "maybe_decompress V b s =
     and_then (slice_from 5 (buffer b)) (\<lambda>payload.
       case ss_encrypted s of
         Some enc \<Rightarrow>
           and_then (decompress (flate_of (crates_of V)) (enc_decompress enc) payload) (\<lambda>(d, z).
             Ok (\<lparr>in_buffer = d, in_seqn = seqn b\<rparr>, ss_set_encrypted (enc\<lparr>enc_decompress := z\<rparr>) s))
       | None \<Rightarrow> Ok (\<lparr>in_buffer = payload, in_seqn = seqn b\<rparr>, s))"

text \<open>What one round of \<open>select!\<close> takes up. \<open>LePacket\<close> is the buffer as \<open>cipher::read\<close> left it.\<close>

datatype loop_event = LePacket sshbuffer | LeKeepalive | LeInactivity | LeMessage "server_msg option"

text \<open>A packet: the loop ends (\<open>None\<close>) on one that is too short and on \<open>DISCONNECT\<close>; otherwise the number
  is the sequence number of the read buffer from then on.\<close>

definition loop_packet ::
    "('st, 'z, 'key, 'pub, 'sig) env \<Rightarrow> ('pub, 'cert) cert_crates \<Rightarrow> ('h, 'pub, 'cert, 'st, 'z, 'key) handler
      \<Rightarrow> ((channel_id \<rightharpoonup> channel_params) \<Rightarrow> channel_id list) \<Rightarrow> nat \<Rightarrow> nat \<Rightarrow> sshbuffer \<Rightarrow> 'h
      \<Rightarrow> ('st, 'z, 'key) server_session \<Rightarrow> ('h \<times> ('st, 'z, 'key) server_session \<times> u32) option rs" where
  "loop_packet V K H order now wall b h s =
     (if length (buffer b) < 5 then Ok None
      else
        and_then (maybe_decompress V b s) (\<lambda>(pkt, s).
          case first (in_buffer pkt) of
            None \<Rightarrow> Ok (Some (h, s, seqn b))
          | Some m \<Rightarrow>
              if m = DISCONNECT then Ok None
              else and_then (reply V K H order now wall pkt h (s\<lparr>ss_common := (ss_common s)\<lparr>received_data := True\<rparr>\<rparr>))
                     (\<lambda>x. Ok (Some x))))"

definition loop_keepalive :: "wire \<Rightarrow> ('st, 'z, 'key) server_session \<Rightarrow> ('st, 'z, 'key) server_session rs" where
  "loop_keepalive W s =
     (let n = alive_timeouts (ss_common s) + 1; s = s\<lparr>ss_common := (ss_common s)\<lparr>alive_timeouts := n\<rparr>\<rparr> in
      if sc_keepalive_max (ss_config s) \<noteq> 0 \<and> sc_keepalive_max (ss_config s) < n then Err KeepaliveTimeout
      else keepalive_request W s)"

text \<open>One round: the event, then what was written is sealed and goes to the socket (the bytes of the
  result). A message of the application is taken up only while no key exchange runs, which is the guard
  of its branch: otherwise the event does not occur.\<close>

definition event_enabled :: "loop_event \<Rightarrow> ('st, 'z, 'key) server_session \<Rightarrow> bool" where
  "event_enabled e s \<longleftrightarrow> \<not> disconnected (ss_common s) \<and> (case e of LeMessage _ \<Rightarrow> \<not> kex_active (ss_kex s) | _ \<Rightarrow> True)"

definition loop_round ::
    "('st, 'z, 'key, 'pub, 'sig) env \<Rightarrow> ('pub, 'cert) cert_crates \<Rightarrow> ('h, 'pub, 'cert, 'st, 'z, 'key) handler
      \<Rightarrow> ((channel_id \<rightharpoonup> channel_params) \<Rightarrow> channel_id list) \<Rightarrow> nat \<Rightarrow> nat \<Rightarrow> loop_event \<Rightarrow> 'h
      \<Rightarrow> ('st, 'z, 'key) server_session \<Rightarrow> (bytes \<times> 'h \<times> ('st, 'z, 'key) server_session \<times> u32 option) option rs" where
  "loop_round V K H order now wall e h s =
     (let s = s\<lparr>ss_common := (ss_common s)\<lparr>received_data := False\<rparr>\<rparr> in
      and_then
        (case e of
           LePacket b \<Rightarrow> and_then (loop_packet V K H order now wall b h s) (\<lambda>r.
             Ok (map_option (\<lambda>(h, s, n). (h, s, Some n)) r))
         | LeKeepalive \<Rightarrow> and_then (loop_keepalive (env_wire V) s) (\<lambda>s. Ok (Some (h, s, None)))
         | LeInactivity \<Rightarrow> Err InactivityTimeout
         | LeMessage m \<Rightarrow>
             (case m of
                Some m \<Rightarrow> and_then (application_message (env_wire V) m s) (\<lambda>s. Ok (Some (h, s, None)))
              | None \<Rightarrow> Ok (Some (h, s, None))))
        (\<lambda>r. case r of
               None \<Rightarrow> Ok None
             | Some (h, s, n) \<Rightarrow>
                 and_then (ss_flush V now s) (\<lambda>s.
                   (case flush_into (packet_writer (ss_common s)) of
                      (out, w) \<Rightarrow>
                        Ok (Some (out, h,
                          s\<lparr>ss_common := (ss_common s)\<lparr>packet_writer := w,
                             alive_timeouts := (if received_data (ss_common s) then 0 else alive_timeouts (ss_common s))\<rparr>\<rparr>,
                          n))))))"

section \<open>The start of a session\<close>

text \<open>\<open>read_ssh_id\<close> of \<open>server/mod.rs\<close>, from the client's identification string, and \<open>run_stream\<close>.\<close>

definition server_common_new :: "'key server_config \<Rightarrow> bytes \<Rightarrow> ('st, 'z, unit, 'key server_config) common_session" where
  "server_common_new cfg sshid = \<lparr>auth_user = [], remote_sshid = sshid, cs_config = cfg, cs_encrypted = None,
     auth_method = None, auth_attempts = 0, packet_writer = packet_writer_clear, cs_remote_to_local = ClearKey,
     wants_reply = False, disconnected = False, cs_buffer = [], strict_kex = False, alive_timeouts = 0,
     received_data = False\<rparr>"

definition run_stream ::
    "('st, 'z, 'key, 'pub, 'sig) env \<Rightarrow> 'key server_config \<Rightarrow> bytes \<Rightarrow> ('st, 'z, 'key) server_session rs" where
  "run_stream V cfg sshid =
     ss_begin_rekey V \<lparr>ss_common = server_common_new cfg sshid, ss_target_window_size = sc_window_size cfg,
       ss_pending_reads = [], ss_pending_len = 0, ss_channels = (\<lambda>c. None), ss_open_global_requests = [],
       ss_kex = KexIdle, ss_answers = []\<rparr>"

end
