(* ===== verification/ServerSafety.thy ===== *)
theory ServerSafety
  imports ServerLoop KexRuns
begin

text \<open>
  What a server guarantees until its client has authenticated, over whole runs of the event loop: the
  login rests on an acceptance of the application's handler for this very session, the application's
  other callbacks cannot be reached before, and rejections keep their time. Further the ways in which a
  client gets stuck or the server panics.
\<close>

section \<open>Stages\<close>

definition stage :: "('st, 'z, 'key) server_session \<Rightarrow> encrypted_state option" where
  "stage s = map_option enc_state (ss_encrypted s)"

definition logged_in :: "('st, 'z, 'key) server_session \<Rightarrow> bool" where
  "logged_in s \<longleftrightarrow> (case stage s of Some st \<Rightarrow> may_open st | None \<Rightarrow> False)"

text \<open>What every round keeps of a guest's session: its stage, and that no packet is put off.\<close>

definition same_stage :: "('st, 'z, 'key) server_session \<Rightarrow> ('st, 'z, 'key) server_session \<Rightarrow> bool" where
  "same_stage s' s \<longleftrightarrow> stage s' = stage s \<and> ss_pending_reads s' = ss_pending_reads s"

named_theorems stage_facts "operations that keep the stage of a session"

lemma same_stage_refl [simp]: "same_stage s s"
  by (simp add: same_stage_def)

lemma same_stage_trans: "same_stage s2 s1 \<Longrightarrow> same_stage s1 s \<Longrightarrow> same_stage s2 s"
  by (simp add: same_stage_def)

lemma with_enc_stage:
  assumes "with_enc f s = Ok s'" "\<And>enc enc'. f enc = Ok enc' \<Longrightarrow> enc_state enc' = enc_state enc"
  shows "same_stage s' s"
  using assms by (auto simp: with_enc_def same_stage_def stage_def ss_set_encrypted_def outcome_simps split: option.splits)

lemma enc_push_state: "enc_push W es enc = Ok enc' \<Longrightarrow> enc_state enc' = enc_state enc"
  by (auto simp: enc_push_def outcome_simps)

lemma begin_rekey_stage [stage_facts]: "ss_begin_rekey V s = Ok s' \<Longrightarrow> same_stage s' s"
  unfolding ss_begin_rekey_def Let_def and_then_eq_Ok by (auto simp: same_stage_def stage_def)

lemma enc_flush_state: "enc_flush E lim now w enc = Ok (due, w', enc') \<Longrightarrow> enc_state enc' = enc_state enc"
  by (erule enc_flush_changes) simp

lemma set_enc_stage:
  "ss_encrypted s = Some enc \<Longrightarrow> enc_state enc' = enc_state enc \<Longrightarrow> same_stage (ss_set_encrypted enc' s) s"
  "ss_encrypted s = Some enc \<Longrightarrow> enc_state enc' = enc_state enc
    \<Longrightarrow> same_stage (s\<lparr>ss_common := (ss_common s)\<lparr>packet_writer := w, cs_encrypted := Some enc'\<rparr>\<rparr>) s"
  by (simp_all add: same_stage_def stage_def ss_set_encrypted_def)

lemma flush_stage [stage_facts]:
  assumes "ss_flush V now s = Ok s'"
  shows "same_stage s' s"
proof (cases "ss_encrypted s")
  case None
  then show ?thesis using assms by (simp add: ss_flush_def)
next
  case (Some enc)
  with assms obtain due w enc' where f: "enc_flush (crates_of V) (sc_limits (ss_config s)) now (packet_writer (ss_common s)) enc = Ok (due, w, enc')"
    and r: "(let s = s\<lparr>ss_common := (ss_common s)\<lparr>packet_writer := w, cs_encrypted := Some enc'\<rparr>\<rparr> in
            if due \<and> ss_kex s = KexIdle then
              (let s' = ss_set_encrypted (enc'\<lparr>enc_exchange := None\<rparr>) s in
               if enc_exchange enc' \<noteq> None then ss_begin_rekey V s' else Ok s')
            else Ok s) = Ok s'"
    by (auto simp: ss_flush_def outcome_simps)
  let ?s = "s\<lparr>ss_common := (ss_common s)\<lparr>packet_writer := w, cs_encrypted := Some enc'\<rparr>\<rparr>"
  have 1: "same_stage ?s s" using Some enc_flush_state [OF f] by (rule set_enc_stage(2))
  have 2: "same_stage (ss_set_encrypted (enc'\<lparr>enc_exchange := None\<rparr>) ?s) ?s" by (rule set_enc_stage(1)) simp_all
  from r consider "Ok ?s = Ok s'" | "Ok (ss_set_encrypted (enc'\<lparr>enc_exchange := None\<rparr>) ?s) = Ok s'"
    | "ss_begin_rekey V (ss_set_encrypted (enc'\<lparr>enc_exchange := None\<rparr>) ?s) = Ok s'"
    unfolding Let_def by (simp only: split: if_splits)
  then show ?thesis
    using same_stage_trans [OF 2 1] 1 by cases (auto dest: begin_rekey_stage intro: same_stage_trans)
qed

lemma flush_all_pending_state: "flush_all_pending W order enc = Ok enc' \<Longrightarrow> enc_state enc' = enc_state enc"
  by (induction W order enc rule: flush_all_pending.induct) (auto simp: outcome_simps split: option.splits)

lemma newkeys_stage: "map_option enc_state (cs_encrypted (newkeys Z nk C)) = map_option enc_state (cs_encrypted C)"
  by (auto simp: newkeys_def Let_def split: option.splits)

lemma keepalive_stage [stage_facts]: "keepalive_request W s = Ok s' \<Longrightarrow> same_stage s' s"
  by (auto simp: keepalive_request_def global_request_def with_enc_def outcome_simps same_stage_def stage_def
        ss_set_encrypted_def split: option.splits dest: enc_push_state)

lemma maybe_send_ext_info_stage [stage_facts]: "maybe_send_ext_info V s = Ok s' \<Longrightarrow> same_stage s' s"
  unfolding maybe_send_ext_info_def Let_def
  by (erule with_enc_stage) (auto split: if_splits dest: enc_push_state)

section \<open>A round before the login\<close>

text \<open>The packet of the event gets the client in: its request is granted, or its answers to the handler's
  questions are accepted.\<close>

definition packet_grants ::
    "('st, 'z, 'key, 'pub, 'sig) env \<Rightarrow> ('pub, 'cert) cert_crates \<Rightarrow> ('h, 'pub, 'cert, 'st, 'z, 'key) handler \<Rightarrow> nat
      \<Rightarrow> bytes \<Rightarrow> 'h \<Rightarrow> ('st, 'z, 'key) server_session \<Rightarrow> bool" where
  "packet_grants V K H wall pkt h s \<longleftrightarrow>
     (\<exists>enc a. ss_encrypted s = Some enc \<and> enc_state enc = WaitingAuthRequest a
      \<and> ((\<exists>r user method_name. pkt = USERAUTH_REQUEST # r
            \<and> granted V K (auth_handler.truncate H) wall (enc_session_id enc) pkt r h user method_name)
       \<or> (\<exists>r submethods n r1 responses h' d. pkt = USERAUTH_INFO_RESPONSE # r
            \<and> current a = Some (CurrentKeyboardInteractive submethods)
            \<and> r_u32 (env_wire V) r = Ok (n, r1) \<and> read_responses (env_wire V) K (unat n) r1 = Ok responses
            \<and> auth_keyboard_interactive H h (auth_user (ss_common s)) submethods (Some responses) = Ok (Accept, h', d))))"

lemma asked_not_open: "asked_or_in st \<Longrightarrow> st \<noteq> InitCompression \<Longrightarrow> \<not> may_open st"
  by (auto simp: asked_or_in_def)

lemma logged_in_put [simp]:
  "logged_in (put_auth_state t s) = may_open (enc_state (at_enc t))"
  "logged_in (ss_set_encrypted enc s) = may_open (enc_state enc)"
  "logged_in (s\<lparr>ss_common := C\<rparr>) = (case cs_encrypted C of Some enc \<Rightarrow> may_open (enc_state enc) | None \<Rightarrow> False)"
  by (auto simp: logged_in_def stage_def put_auth_state_def ss_set_encrypted_def split: option.splits)

lemma pending_put [simp]:
  "ss_pending_reads (put_auth_state t s) = ss_pending_reads s"
  "ss_pending_reads (ss_set_encrypted enc s) = ss_pending_reads s"
  by (simp_all add: put_auth_state_def ss_set_encrypted_def)

lemma same_stage_logged_in: "same_stage s' s \<Longrightarrow> logged_in s' = logged_in s"
  by (simp add: same_stage_def logged_in_def)

text \<open>A guest: not logged in, and no packet put off.\<close>

definition guest :: "('st, 'z, 'key) server_session \<Rightarrow> bool" where
  "guest s \<longleftrightarrow> \<not> logged_in s \<and> ss_pending_reads s = []"

lemma same_stage_guest: "same_stage s' s \<Longrightarrow> guest s \<Longrightarrow> guest s'"
  by (auto simp: guest_def same_stage_logged_in) (simp add: same_stage_def)

lemma service_request_guest:
  "process_service_request V H r enc h s = Ok (h', s') \<Longrightarrow> guest s \<Longrightarrow> guest s'"
  by (auto simp: process_service_request_def Let_def outcome_simps guest_def split: if_splits)

lemma auth_request_guest:
  assumes "process_auth_request V K H now wall (USERAUTH_REQUEST # r) r enc h s = Ok (h', s')" "ss_encrypted s = Some enc"
    "enc_state enc = WaitingAuthRequest a" "guest s" "\<not> packet_grants V K H wall (USERAUTH_REQUEST # r) h s"
  shows "guest s'"
proof -
  from assms(1) obtain t where
    t: "server_read_auth_request V K (auth_handler.truncate H) wall (now + sc_auth_rejection_time (ss_config s))
      (none_rejection_until (ss_config s) (auth_attempts (ss_common s)) now) (USERAUTH_REQUEST # r) r (auth_state_of now h enc s) = Ok t"
    and k: "(let s = put_auth_state t s;
             s = s\<lparr>ss_common := (ss_common s)\<lparr>auth_attempts := auth_attempts (ss_common s) + 1\<rparr>\<rparr> in
         if enc_state (at_enc t) = InitCompression then auth_success V H (at_handler t) s
         else Ok (at_handler t, s)) = Ok (h', s')"
    by (auto simp: process_auth_request_def and_then_eq_Ok)
  have "\<not> authed t"
  proof
    assume "authed t"
    from auth_request_authed [OF t this] assms(2,3,5) show False by (auto simp: packet_grants_def auth_state_of_def)
  qed
  then have "s' = (put_auth_state t s)\<lparr>ss_common := (ss_common (put_auth_state t s))\<lparr>auth_attempts :=
      auth_attempts (ss_common (put_auth_state t s)) + 1\<rparr>\<rparr>"
    using k by (simp add: Let_def)
  with asked_not_open [OF auth_request_asked [OF t]] \<open>\<not> authed t\<close> assms(4) show ?thesis
    by (simp add: guest_def put_auth_state_def)
qed

lemma reply_info_waits:
  assumes "reply_userauth_info_response W until a answer t = Ok (granted_now, t')" "\<not> granted_now"
    "enc_state (at_enc t) = WaitingAuthRequest b"
  shows "\<exists>b. enc_state (at_enc t') = WaitingAuthRequest b"
  using assms
  by (auto simp: reply_userauth_info_response_def outcome_simps Let_def split: auth.splits dest: reject_state)

lemma info_response_guest:
  assumes "process_info_response V K H now a r enc h s = Ok (h', s')" "ss_encrypted s = Some enc"
    "enc_state enc = WaitingAuthRequest a" "guest s" "\<not> packet_grants V K H wall (USERAUTH_INFO_RESPONSE # r) h s"
  shows "guest s'"
proof -
  let ?t = "auth_state_of now h enc s"
  from assms(1) obtain resp t where
    t: "read_userauth_info_response (env_wire V) K (auth_handler.truncate H) (now + sc_auth_rejection_time (ss_config s)) a r ?t
      = Ok (resp, t)"
    and k: "(let s = put_auth_state t s in
         if resp then auth_success V H (at_handler t) (ss_set_encrypted ((at_enc t)\<lparr>enc_state := InitCompression\<rparr>) s)
         else Ok (at_handler t, s)) = Ok (h', s')"
    by (auto simp: process_info_response_def and_then_eq_Ok)
  have w: "\<exists>b. enc_state (at_enc t) = WaitingAuthRequest b"
    if "reply_userauth_info_response W until a ans \<lparr>at_enc = enc, at_user = u, at_handler = h1, at_clock = c\<rparr> = Ok (False, t)"
    for W until ans u h1 c
    using reply_info_waits [OF that] assms(3) by simp
  have "\<not> resp \<and> (\<exists>b. enc_state (at_enc t) = WaitingAuthRequest b)"
  proof (cases "\<exists>submethods. current a = Some (CurrentKeyboardInteractive submethods)")
    case True
    then obtain submethods n r1 responses ans h1 d where x: "current a = Some (CurrentKeyboardInteractive submethods)"
        "r_u32 (env_wire V) r = Ok (n, r1)" "read_responses (env_wire V) K (unat n) r1 = Ok responses"
        "auth_keyboard_interactive H h (auth_user (ss_common s)) submethods (Some responses) = Ok (ans, h1, d)"
      and y: "reply_userauth_info_response (env_wire V) (now + sc_auth_rejection_time (ss_config s)) a ans
        \<lparr>at_enc = enc, at_user = auth_user (ss_common s), at_handler = h1, at_clock = now + d\<rparr> = Ok (resp, t)"
      using t by (auto simp: read_userauth_info_response_def outcome_simps ask_Ok auth_state_of_def auth_handler.truncate_def)
    have "ans \<noteq> Accept" using x assms(2,3,5) unfolding packet_grants_def by blast
    then have "\<not> resp" using reply_authed(1) [OF y] by simp
    with y w show ?thesis by simp
  next
    case False
    then show ?thesis
      using t by (auto simp: read_userauth_info_response_def outcome_simps split: option.splits current_request.splits dest: reject_state)
  qed
  with k assms(4) show ?thesis by (auto simp: guest_def)
qed

lemma process_packet_guest:
  assumes "process_packet V K H now wall pkt h s = Ok (h', s')" "guest s" "\<not> packet_grants V K H wall pkt h s"
  shows "guest s'"
proof -
  from assms(1) obtain enc where e: "ss_encrypted s = Some enc" by (auto simp: process_packet_def split: option.splits)
  then have n: "\<not> may_open (enc_state enc)" using assms(2) by (simp add: guest_def logged_in_def stage_def)
  show ?thesis
  proof (cases pkt)
    case Nil
    then show ?thesis using assms(1,2) e by (simp add: process_packet_def)
  next
    case (Cons m r)
    show ?thesis
    proof (cases "enc_state enc")
      case (WaitingAuthServiceRequest sent accepted)
      then show ?thesis using assms(1,2) e Cons
        by (auto simp: process_packet_def split: if_splits dest: service_request_guest)
    next
      case (WaitingAuthRequest a)
      then consider "m = USERAUTH_REQUEST" "process_auth_request V K H now wall pkt r enc h s = Ok (h', s')"
        | "m = USERAUTH_INFO_RESPONSE" "process_info_response V K H now a r enc h s = Ok (h', s')" | "s' = s"
        using assms(1) e Cons by (auto simp: process_packet_def split: if_splits)
      then show ?thesis
        using assms(2,3) e Cons WaitingAuthRequest by cases (auto intro: auth_request_guest info_response_guest)
    qed (use n in simp_all)
  qed
qed

section \<open>Key exchange and the application's messages keep the stage\<close>

lemma common_stage [stage_facts]:
  "cs_encrypted C = ss_encrypted s \<Longrightarrow> same_stage (s\<lparr>ss_common := C\<rparr>) s"
  "same_stage (s\<lparr>ss_kex := k\<rparr>) s"
  by (simp_all add: same_stage_def stage_def)

lemma finish_rekey_guest:
  assumes "finish_rekey V K H order now wall nk enc h s = Ok (h', s')" "guest s" "ss_encrypted s = Some enc"
  shows "guest s'"
proof -
  let ?w = "(packet_writer (ss_common s))\<lparr>write_buffer := (write_buffer (packet_writer (ss_common s)))\<lparr>sent_bytes := 0\<rparr>\<rparr>"
  from assms(2) have p: "ss_pending_reads s = []" by (simp add: guest_def)
  from assms(1) p obtain enc' s2 where f: "flush_all_pending (env_wire V) (order (channels enc)) (enc\<lparr>last_rekey := now\<rparr>) = Ok enc'"
    and s2: "s2 = s\<lparr>ss_pending_reads := [], ss_pending_len := 0, ss_common := newkeys (flate_of (crates_of V)) nk
        ((ss_common s)\<lparr>packet_writer := ?w, cs_encrypted := Some enc'\<rparr>)\<rparr>"
    and fl: "ss_flush V now s2 = Ok s'"
    by (auto simp: finish_rekey_def Let_def and_then_eq_Ok)
  have "same_stage s2 s"
    using flush_all_pending_state [OF f] assms(3) p by (simp add: s2 same_stage_def stage_def newkeys_stage)
  with assms(2) fl show ?thesis by (blast intro: same_stage_guest flush_stage)
qed

lemma finish_first_kex_guest:
  assumes "finish_first_kex V now nk s = Ok s'" "guest s"
  shows "guest s'"
proof -
  from assms(1) obtain s1 where s1: "s1 = s\<lparr>ss_common := set_encrypted (WaitingAuthServiceRequest False False) nk now (ss_common s)\<rparr>"
    and m: "maybe_send_ext_info V s1 = Ok s'" by (simp add: finish_first_kex_def)
  have "guest s1" using assms(2) by (simp add: s1 guest_def set_encrypted_def)
  with m show ?thesis by (blast intro: same_stage_guest maybe_send_ext_info_stage)
qed

lemma reply_kex_guest:
  assumes "reply_kex V K H order now wall kex pkt h s = Ok (h', s', n)" "guest s"
  shows "guest s'"
proof -
  from assms(1) obtain progress w where st: "server_step V (h_lookup_dh_gex_group H h) kex (Some pkt) (packet_writer (ss_common s)) = Ok (progress, w)"
    by (auto simp: reply_kex_def and_then_eq_Ok)
  let ?s = "s\<lparr>ss_common := (ss_common s)\<lparr>packet_writer := w\<rparr>\<rparr>"
  have g: "guest ?s" by (rule same_stage_guest [OF common_stage(1) assms(2)]) simp
  show ?thesis
  proof (cases progress)
    case (NeedsReply kex' reset_seqn)
    then obtain s1 where "ss_flush V now s1 = Ok s'"
      and "s1 = (let s = ?s\<lparr>ss_kex := KexInProgress kex'\<rparr> in if reset_seqn then s\<lparr>ss_common := common_reset_seqn (ss_common s)\<rparr> else s)"
      using assms(1) st by (auto simp: reply_kex_def and_then_eq_Ok Let_def)
    moreover from this(2) have "guest s1"
      by (auto simp: Let_def common_reset_seqn_def intro!: same_stage_guest [OF _ g] simp: same_stage_def stage_def)
    ultimately show ?thesis by (blast intro: same_stage_guest flush_stage)
  next
    case (KexDone host_key nk)
    let ?t = "?s\<lparr>ss_common := (ss_common ?s)\<lparr>strict_kex := strict_kex (ss_common ?s) \<or> n_strict_kex (nk_names nk)\<rparr>\<rparr>"
    have gt: "guest ?t" by (rule same_stage_guest [OF common_stage(1) g]) simp
    have "\<exists>s1. guest s1 \<and> ss_flush V now (s1\<lparr>ss_kex := KexIdle\<rparr>) = Ok s'"
    proof (cases "ss_encrypted ?t")
      case None
      with KexDone assms(1) st obtain s1 where "finish_first_kex V now nk ?t = Ok s1" "ss_flush V now (s1\<lparr>ss_kex := KexIdle\<rparr>) = Ok s'"
        by (auto simp: reply_kex_def and_then_eq_Ok Let_def)
      with finish_first_kex_guest [OF this(1) gt] show ?thesis by blast
    next
      case (Some enc)
      with KexDone assms(1) st obtain h1 s1 where "finish_rekey V K H order now wall nk enc h ?t = Ok (h1, s1)"
        "ss_flush V now (s1\<lparr>ss_kex := KexIdle\<rparr>) = Ok s'"
        by (auto simp: reply_kex_def and_then_eq_Ok Let_def)
      with finish_rekey_guest [OF this(1) gt Some] show ?thesis by blast
    qed
    then show ?thesis by (blast intro: same_stage_guest flush_stage common_stage(2))
  qed
qed

lemma with_enc_or_panic_stage:
  "with_enc_or_panic f s = Ok s' \<Longrightarrow> (\<And>enc enc'. f enc = Ok enc' \<Longrightarrow> enc_state enc' = enc_state enc) \<Longrightarrow> same_stage s' s"
  by (auto simp: with_enc_or_panic_def split: option.splits intro: with_enc_stage)

lemma enc_byte_state: "enc_byte W c m enc = Ok enc' \<Longrightarrow> enc_state enc' = enc_state enc"
  by (auto simp: enc_byte_def split: option.splits dest: enc_push_state)

lemma enc_ops_state:
  "enc_eof W c enc = Ok enc' \<Longrightarrow> enc_state enc' = enc_state enc"
  "enc_close W c enc = Ok enc' \<Longrightarrow> enc_state enc' = enc_state enc"
  "enc_send W c a buf k enc = Ok enc' \<Longrightarrow> enc_state enc' = enc_state enc"
  "channel_reply W m c enc = Ok enc' \<Longrightarrow> enc_state enc' = enc_state enc"
  "channel_request W c name es enc = Ok enc' \<Longrightarrow> enc_state enc' = enc_state enc"
  by (auto simp: enc_eof_def enc_close_def enc_send_def channel_reply_def channel_request_def Let_def outcome_simps
        split: option.splits if_splits dest!: enc_byte_state enc_push_state)

lemma global_request_stage: "global_request W awaited es s = Ok s' \<Longrightarrow> same_stage s' s"
  by (auto simp: global_request_def with_enc_def outcome_simps same_stage_def stage_def
        ss_set_encrypted_def split: option.splits dest: enc_push_state)

lemma open_generic_stage: "channel_open_generic W kind suffix s = Ok (c, s') \<Longrightarrow> same_stage s' s"
  by (auto simp: channel_open_generic_def new_channel_def Let_def outcome_simps same_stage_def stage_def ss_set_encrypted_def
        split: option.splits if_splits dest!: enc_push_state)

lemma keep_ref_stage:
  "keep_ref ref opened = Ok s' \<Longrightarrow> (\<And>c s1. opened = Ok (c, s1) \<Longrightarrow> same_stage s1 s) \<Longrightarrow> same_stage s' s"
  by (auto simp: keep_ref_def outcome_simps same_stage_def stage_def)

lemma channel_message_stage: "channel_message W c m s = Ok s' \<Longrightarrow> same_stage s' s"
  by (cases m)
    (auto simp: ss_data_def ss_extended_data_def ss_eof_def ss_close_def enc_data_def enc_extended_data_def
        channel_success_def channel_failure_def xon_xoff_request_def exit_status_request_def exit_signal_request_def
      dest: enc_ops_state elim!: with_enc_or_panic_stage with_enc_stage)

lemma push_common_encrypted:
  "push_common W es C = Ok C' \<Longrightarrow> map_option enc_state (cs_encrypted C') = map_option enc_state (cs_encrypted C)"
  by (auto simp: push_common_def Let_def outcome_simps split: option.splits)

lemma disconnect_encrypted:
  "common_disconnect W r d l C = Ok C' \<Longrightarrow> map_option enc_state (cs_encrypted C') = map_option enc_state (cs_encrypted C)"
  by (auto simp: common_disconnect_def split: if_splits dest: push_common_encrypted)

lemmas channel_open_defs = channel_open_session_def channel_open_direct_tcpip_def channel_open_direct_streamlocal_def
  channel_open_forwarded_tcpip_def channel_open_forwarded_streamlocal_def channel_open_x11_def channel_open_agent_def

lemma application_message_stage [stage_facts]:
  assumes "application_message W m s = Ok s'"
  shows "same_stage s' s"
proof (cases m)
  case (SmDisconnect r d l)
  then show ?thesis using assms by (auto simp: outcome_simps same_stage_def stage_def dest: disconnect_encrypted)
next
  case (SmChannel c cm)
  then show ?thesis using assms by (auto intro: channel_message_stage)
qed (use assms in \<open>auto simp: channel_open_defs tcpip_forward_def cancel_tcpip_forward_def
    dest: global_request_stage elim!: keep_ref_stage intro: open_generic_stage\<close>)

section \<open>A round, and runs\<close>

lemma grants_cong:
  "ss_encrypted s' = ss_encrypted s \<Longrightarrow> auth_user (ss_common s') = auth_user (ss_common s)
    \<Longrightarrow> packet_grants V K H wall pkt h s' = packet_grants V K H wall pkt h s"
  by (simp add: packet_grants_def)

lemma reply_guest:
  assumes "reply V K H order now wall pkt h s = Ok (h', s', n)" "guest s" "\<not> packet_grants V K H wall (in_buffer pkt) h s"
  shows "guest s'"
proof (cases "first (in_buffer pkt) \<in> {Some IGNORE, Some UNIMPLEMENTED, Some DEBUG}")
  case True
  with assms(1,2) show ?thesis by (auto simp: reply_def and_then_eq_Ok)
next
  case False
  let ?starts = "first (in_buffer pkt) = Some KEXINIT \<and> ss_kex s = KexIdle"
  let ?kex = "case first (in_buffer pkt) of Some m \<Rightarrow> is_kex_msg m | None \<Rightarrow> False"
  from assms(1) False obtain s1 where b: "(if ?starts then ss_begin_rekey V s else Ok s) = Ok s1"
    and k: "(let is_kex = ?kex; s' = (if is_kex then s1\<lparr>ss_kex := snd (kex_take (ss_kex s1))\<rparr> else s1) in
       (case (is_kex, ss_kex s1) of
          (True, KexInProgress kex) \<Rightarrow> reply_kex V K H order now wall kex pkt h s'
        | _ \<Rightarrow> and_then (process_packet V K H now wall (in_buffer pkt) h s') (\<lambda>(h, s). Ok (h, s, in_seqn pkt)))) = Ok (h', s', n)"
    by (auto simp: reply_def and_then_eq_Ok)
  let ?s = "if ?kex then s1\<lparr>ss_kex := snd (kex_take (ss_kex s1))\<rparr> else s1"
  have s1: "same_stage s1 s" using b by (auto split: if_splits intro: begin_rekey_stage)
  have s2: "same_stage ?s s1" by (simp add: common_stage(2))
  have g: "guest ?s" by (rule same_stage_guest [OF same_stage_trans [OF s2 s1] assms(2)])
  have ng: "\<not> packet_grants V K H wall (in_buffer pkt) h ?s"
  proof (cases ?starts)
    case True
    then show ?thesis by (auto simp: packet_grants_def KEXINIT_def USERAUTH_REQUEST_def USERAUTH_INFO_RESPONSE_def)
  next
    case False
    then have "s1 = s" using b by (auto split: if_splits)
    with assms(3) show ?thesis by (subst grants_cong [where s = s]) auto
  qed
  from k consider kex where "reply_kex V K H order now wall kex pkt h ?s = Ok (h', s', n)"
    | "process_packet V K H now wall (in_buffer pkt) h ?s = Ok (h', s')"
    by (cases ?kex; cases "ss_kex s1") (auto simp: Let_def and_then_eq_Ok)
  then show ?thesis
    using g ng by cases (blast intro: reply_kex_guest process_packet_guest)+
qed

text \<open>The event of a round brings a packet that gets the client in.\<close>

definition grants_event ::
    "('st, 'z, 'key, 'pub, 'sig) env \<Rightarrow> ('pub, 'cert) cert_crates \<Rightarrow> ('h, 'pub, 'cert, 'st, 'z, 'key) handler \<Rightarrow> nat
      \<Rightarrow> loop_event \<Rightarrow> 'h \<Rightarrow> ('st, 'z, 'key) server_session \<Rightarrow> bool" where
  "grants_event V K H wall e h s \<longleftrightarrow>
     (\<exists>b pkt s1. e = LePacket b \<and> maybe_decompress V b s = Ok (pkt, s1) \<and> packet_grants V K H wall (in_buffer pkt) h s1)"

lemma maybe_decompress_stage:
  "maybe_decompress V b s = Ok (pkt, s1) \<Longrightarrow> same_stage s1 s"
  by (auto simp: maybe_decompress_def outcome_simps same_stage_def stage_def ss_set_encrypted_def split: option.splits)

lemma maybe_decompress_mark:
  "maybe_decompress V b (s\<lparr>ss_common := (ss_common s)\<lparr>received_data := d\<rparr>\<rparr>)
    = and_then (maybe_decompress V b s) (\<lambda>(pkt, s1). Ok (pkt, s1\<lparr>ss_common := (ss_common s1)\<lparr>received_data := d\<rparr>\<rparr>))"
  by (cases "slice_from 5 (buffer b)")
    (auto simp: maybe_decompress_def ss_set_encrypted_def and_then_assoc intro!: and_then_cong split: option.splits)

lemma loop_packet_guest:
  assumes "loop_packet V K H order now wall b h (s\<lparr>ss_common := (ss_common s)\<lparr>received_data := False\<rparr>\<rparr>) = Ok (Some (h', s', n))"
    "guest s" "\<not> grants_event V K H wall (LePacket b) h s"
  shows "guest s'"
proof -
  from assms(1) obtain pkt s1 t where d: "maybe_decompress V b s = Ok (pkt, s1)"
    and t: "t = s1\<lparr>ss_common := (ss_common s1)\<lparr>received_data := False\<rparr>\<rparr>"
    and k: "(case first (in_buffer pkt) of
            None \<Rightarrow> Ok (Some (h, t, seqn b))
          | Some m \<Rightarrow>
              if m = DISCONNECT then Ok None
              else and_then (reply V K H order now wall pkt h (t\<lparr>ss_common := (ss_common t)\<lparr>received_data := True\<rparr>\<rparr>))
                     (\<lambda>x. Ok (Some x))) = Ok (Some (h', s', n))"
    by (auto simp: loop_packet_def maybe_decompress_mark and_then_eq_Ok split: if_splits)
  let ?u = "t\<lparr>ss_common := (ss_common t)\<lparr>received_data := True\<rparr>\<rparr>"
  have g: "guest t" unfolding t
    by (rule same_stage_guest [OF same_stage_trans [OF common_stage(1) maybe_decompress_stage [OF d]] assms(2)]) simp
  have gu: "guest ?u" by (rule same_stage_guest [OF common_stage(1) g]) simp
  have "\<not> packet_grants V K H wall (in_buffer pkt) h s1" using assms(3) d by (auto simp: grants_event_def)
  then have ng: "\<not> packet_grants V K H wall (in_buffer pkt) h ?u" by (simp add: t packet_grants_def)
  from k consider "s' = t" | "reply V K H order now wall pkt h ?u = Ok (h', s', n)"
    by (auto simp: and_then_eq_Ok split: option.splits if_splits)
  then show ?thesis using g gu ng by cases (blast intro: reply_guest)+
qed

lemma loop_keepalive_stage:
  assumes "loop_keepalive W s = Ok s'"
  shows "same_stage s' s"
proof -
  let ?s = "s\<lparr>ss_common := (ss_common s)\<lparr>alive_timeouts := alive_timeouts (ss_common s) + 1\<rparr>\<rparr>"
  have "keepalive_request W ?s = Ok s'" using assms by (auto simp: loop_keepalive_def Let_def split: if_splits)
  from same_stage_trans [OF keepalive_stage [OF this] common_stage(1)] show ?thesis by simp
qed

lemma round_guest:
  assumes "loop_round V K H order now wall e h s = Ok (Some (out, h', s', n))" "guest s"
    "\<not> grants_event V K H wall e h s"
  shows "guest s'"
proof -
  let ?s = "s\<lparr>ss_common := (ss_common s)\<lparr>received_data := False\<rparr>\<rparr>"
  have g: "guest ?s" by (rule same_stage_guest [OF common_stage(1) assms(2)]) simp
  from assms(1) obtain h1 s1 n1 s2 where
    e: "(case e of
           LePacket b \<Rightarrow> and_then (loop_packet V K H order now wall b h ?s) (\<lambda>r.
             Ok (map_option (\<lambda>(h, s, n). (h, s, Some n)) r))
         | LeKeepalive \<Rightarrow> and_then (loop_keepalive (env_wire V) ?s) (\<lambda>s. Ok (Some (h, s, None)))
         | LeInactivity \<Rightarrow> Err InactivityTimeout
         | LeMessage m \<Rightarrow>
             (case m of
                Some m \<Rightarrow> and_then (application_message (env_wire V) m ?s) (\<lambda>s. Ok (Some (h, s, None)))
              | None \<Rightarrow> Ok (Some (h, ?s, None)))) = Ok (Some (h1, s1, n1))"
    and f: "ss_flush V now s1 = Ok s2"
    and t: "(case flush_into (packet_writer (ss_common s2)) of
                      (out, w) \<Rightarrow>
                        Ok (Some (out, h1,
                          s2\<lparr>ss_common := (ss_common s2)\<lparr>packet_writer := w,
                             alive_timeouts := (if received_data (ss_common s2) then 0 else alive_timeouts (ss_common s2))\<rparr>\<rparr>,
                          n1))) = Ok (Some (out, h', s', n))"
    unfolding loop_round_def Let_def and_then_eq_Ok by (elim exE conjE) (auto simp: and_then_eq_Ok split: option.splits)
  from t have s': "same_stage s' s2"
    by (cases "flush_into (packet_writer (ss_common s2))") (auto intro!: common_stage(1))
  have "guest s1"
  proof (cases e)
    case (LePacket b)
    with e assms show ?thesis by (auto simp: and_then_eq_Ok dest!: loop_packet_guest)
  next
    case LeKeepalive
    with e g show ?thesis by (auto simp: and_then_eq_Ok dest!: loop_keepalive_stage intro: same_stage_guest)
  next
    case LeInactivity
    with e show ?thesis by simp
  next
    case (LeMessage m)
    with e g show ?thesis
      by (auto simp: and_then_eq_Ok split: option.splits dest!: application_message_stage intro: same_stage_guest)
  qed
  then show ?thesis using f s' by (blast intro: same_stage_guest flush_stage)
qed

text \<open>Nothing of that depends on the random values.\<close>

lemma grants_redrawn:
  assumes "redrawn V V'"
  shows "grants_event V' K H wall e h s = grants_event V K H wall e h s"
  by (unfold grants_event_def maybe_decompress_def packet_grants_def granted_def key_granted_def redrawn_parts [OF assms], rule refl)

text \<open>Runs of the event loop: each event with the random values of its round, the time of the monotonic clock and
  of the day. An \<open>ungranted\<close> run is one in which no event gets the client in.\<close>

type_synonym ('st, 'z, 'key, 'pub, 'sig) timed_event = "('st, 'z, 'key, 'pub, 'sig) env \<times> nat \<times> nat \<times> loop_event"

inductive session_run ::
    "('st, 'z, 'key, 'pub, 'sig) env \<Rightarrow> ('pub, 'cert) cert_crates \<Rightarrow> ('h, 'pub, 'cert, 'st, 'z, 'key) handler
      \<Rightarrow> ((channel_id \<rightharpoonup> channel_params) \<Rightarrow> channel_id list) \<Rightarrow> 'h \<Rightarrow> ('st, 'z, 'key) server_session
      \<Rightarrow> ('st, 'z, 'key, 'pub, 'sig) timed_event list \<Rightarrow> 'h \<Rightarrow> ('st, 'z, 'key) server_session \<Rightarrow> bool"
  for V K H order h0 s0 where
    run_start: "session_run V K H order h0 s0 [] h0 s0"
  | run_round: "session_run V K H order h0 s0 es h s \<Longrightarrow> redrawn V V' \<Longrightarrow> event_enabled e s
      \<Longrightarrow> loop_round V' K H order now wall e h s = Ok (Some (out, h', s', n))
      \<Longrightarrow> session_run V K H order h0 s0 (es @ [(V', now, wall, e)]) h' s'"

inductive ungranted_run ::
    "('st, 'z, 'key, 'pub, 'sig) env \<Rightarrow> ('pub, 'cert) cert_crates \<Rightarrow> ('h, 'pub, 'cert, 'st, 'z, 'key) handler
      \<Rightarrow> ((channel_id \<rightharpoonup> channel_params) \<Rightarrow> channel_id list) \<Rightarrow> 'h \<Rightarrow> ('st, 'z, 'key) server_session
      \<Rightarrow> ('st, 'z, 'key, 'pub, 'sig) timed_event list \<Rightarrow> 'h \<Rightarrow> ('st, 'z, 'key) server_session \<Rightarrow> bool"
  for V K H order h0 s0 where
    ungranted_start: "ungranted_run V K H order h0 s0 [] h0 s0"
  | ungranted_round: "ungranted_run V K H order h0 s0 es h s \<Longrightarrow> redrawn V V' \<Longrightarrow> event_enabled e s
      \<Longrightarrow> \<not> grants_event V K H wall e h s
      \<Longrightarrow> loop_round V' K H order now wall e h s = Ok (Some (out, h', s', n))
      \<Longrightarrow> ungranted_run V K H order h0 s0 (es @ [(V', now, wall, e)]) h' s'"

lemma ungranted_guest: "ungranted_run V K H order h0 s0 es h s \<Longrightarrow> guest s0 \<Longrightarrow> guest s"
proof (induction rule: ungranted_run.induct)
  case (ungranted_round es h s V' e wall now out h' s' n)
  from round_guest [OF ungranted_round.hyps(5) ungranted_round.IH [OF ungranted_round.prems]] ungranted_round.hyps(2,4)
  show ?case by (simp add: grants_redrawn)
qed

lemma ungranted_is_run: "ungranted_run V K H order h0 s0 es h s \<Longrightarrow> session_run V K H order h0 s0 es h s"
  by (induction rule: ungranted_run.induct) (auto intro: session_run.intros)

text \<open>A run either grants nothing, or there is a first event that does.\<close>

lemma run_first_grant:
  assumes "session_run V K H order h0 s0 es h s"
  shows "ungranted_run V K H order h0 s0 es h s
    \<or> (\<exists>es1 V' now wall e es2 h1 s1. es = es1 @ (V', now, wall, e) # es2 \<and> ungranted_run V K H order h0 s0 es1 h1 s1
        \<and> event_enabled e s1 \<and> grants_event V K H wall e h1 s1)"
  using assms
proof induction
  case run_start
  show ?case by (blast intro: ungranted_start)
next
  case (run_round es h s V' e now wall out h' s' n)
  from run_round.IH show ?case
  proof
    assume u: "ungranted_run V K H order h0 s0 es h s"
    show ?thesis
    proof (cases "grants_event V K H wall e h s")
      case True
      with u run_round.hyps show ?thesis by blast
    next
      case False
      with u run_round.hyps show ?thesis by (blast intro: ungranted_round)
    qed
  next
    assume "\<exists>es1 V' now wall e es2 h1 s1. es = es1 @ (V', now, wall, e) # es2 \<and> ungranted_run V K H order h0 s0 es1 h1 s1
        \<and> event_enabled e s1 \<and> grants_event V K H wall e h1 s1"
    then show ?thesis by (metis append_Cons append_assoc)
  qed
qed

text \<open>The session that the loop begins with, after the identification strings.\<close>

definition session_start ::
    "('st, 'z, 'key, 'pub, 'sig) env \<Rightarrow> 'key server_config \<Rightarrow> bytes \<Rightarrow> nat \<Rightarrow> (bytes \<times> ('st, 'z, 'key) server_session) rs" where
  "session_start V cfg sshid now =
     and_then (run_stream V cfg sshid) (\<lambda>s.
     and_then (ss_flush V now s) (\<lambda>s.
       case flush_into (packet_writer (ss_common s)) of
         (out, w) \<Rightarrow> Ok (out, s\<lparr>ss_common := (ss_common s)\<lparr>packet_writer := w\<rparr>\<rparr>)))"

lemma session_start_guest:
  assumes "session_start V cfg sshid now = Ok (out, s)"
  shows "guest s"
proof -
  let ?s0 = "\<lparr>ss_common = server_common_new cfg sshid, ss_target_window_size = sc_window_size cfg,
       ss_pending_reads = [], ss_pending_len = 0, ss_channels = (\<lambda>c. None), ss_open_global_requests = [],
       ss_kex = KexIdle, ss_answers = []\<rparr>"
  from assms obtain s1 s2 where b: "ss_begin_rekey V ?s0 = Ok s1" and f: "ss_flush V now s1 = Ok s2"
    and t: "(case flush_into (packet_writer (ss_common s2)) of
         (out, w) \<Rightarrow> Ok (out, s2\<lparr>ss_common := (ss_common s2)\<lparr>packet_writer := w\<rparr>\<rparr>)) = Ok (out, s)"
    unfolding session_start_def run_stream_def and_then_eq_Ok by blast
  have "guest ?s0" by (simp add: guest_def logged_in_def stage_def server_common_new_def)
  moreover have "same_stage s s2"
    using t by (cases "flush_into (packet_writer (ss_common s2))") (auto intro!: common_stage(1))
  ultimately show ?thesis by (meson b f same_stage_guest begin_rekey_stage flush_stage)
qed

section \<open>The application before the login\<close>

text \<open>Two handlers that agree on authentication and on the groups of the key exchange.\<close>

definition agree_on_login ::
    "('h, 'pub, 'cert, 'st, 'z, 'key) handler \<Rightarrow> ('h, 'pub, 'cert, 'st, 'z, 'key) handler \<Rightarrow> bool" where
  "agree_on_login H H' \<longleftrightarrow> auth_handler.truncate H = auth_handler.truncate H'
     \<and> h_lookup_dh_gex_group H = h_lookup_dh_gex_group H'"

lemma agree_banner:
  "agree_on_login H H' \<Longrightarrow> authentication_banner H = authentication_banner H'"
  "agree_on_login H H' \<Longrightarrow> auth_keyboard_interactive H = auth_keyboard_interactive H'"
  by (simp_all add: agree_on_login_def auth_handler.truncate_def)

lemma agree_grants: "agree_on_login H H' \<Longrightarrow> packet_grants V K H wall pkt h s = packet_grants V K H' wall pkt h s"
  using agree_banner(2) [of H H'] by (simp add: packet_grants_def agree_on_login_def)

lemma agree_grants_event: "agree_on_login H H' \<Longrightarrow> grants_event V K H wall e h s = grants_event V K H' wall e h s"
  by (simp add: grants_event_def agree_grants [of H H'])

lemma agree_auth_request:
  assumes "agree_on_login H H'" "ss_encrypted s = Some enc" "enc_state enc = WaitingAuthRequest a"
    "\<not> packet_grants V K H wall (USERAUTH_REQUEST # r) h s"
  shows "process_auth_request V K H now wall (USERAUTH_REQUEST # r) r enc h s
    = process_auth_request V K H' now wall (USERAUTH_REQUEST # r) r enc h s"
proof -
  have "\<not> authed t" if "server_read_auth_request V K (auth_handler.truncate H) wall
      (now + sc_auth_rejection_time (ss_config s))
      (none_rejection_until (ss_config s) (auth_attempts (ss_common s)) now) (USERAUTH_REQUEST # r) r (auth_state_of now h enc s) = Ok t" for t
    using auth_request_authed [OF that] assms(2-4) by (auto simp: packet_grants_def auth_state_of_def)
  moreover have "auth_handler.truncate H' = auth_handler.truncate H" using assms(1) by (simp add: agree_on_login_def)
  ultimately show ?thesis
    unfolding process_auth_request_def by (auto intro!: and_then_cong simp: Let_def)
qed

lemma agree_info_response:
  assumes "agree_on_login H H'" "ss_encrypted s = Some enc" "enc_state enc = WaitingAuthRequest a"
    "\<not> packet_grants V K H wall (USERAUTH_INFO_RESPONSE # r) h s"
  shows "process_info_response V K H now a r enc h s = process_info_response V K H' now a r enc h s"
proof -
  have "\<not> resp" if t: "read_userauth_info_response (env_wire V) K (auth_handler.truncate H)
      (now + sc_auth_rejection_time (ss_config s)) a r (auth_state_of now h enc s) = Ok (resp, t)" for resp t
  proof
    assume resp
    with t obtain submethods n r1 responses ans h1 d where x: "current a = Some (CurrentKeyboardInteractive submethods)"
        "r_u32 (env_wire V) r = Ok (n, r1)" "read_responses (env_wire V) K (unat n) r1 = Ok responses"
        "auth_keyboard_interactive H h (auth_user (ss_common s)) submethods (Some responses) = Ok (ans, h1, d)" "ans = Accept"
      by (auto simp: read_userauth_info_response_def outcome_simps ask_Ok auth_state_of_def auth_handler.truncate_def
          split: option.splits current_request.splits dest: reply_authed(1))
    then show False using assms(2-4) unfolding packet_grants_def by blast
  qed
  moreover have "auth_handler.truncate H' = auth_handler.truncate H" using assms(1) by (simp add: agree_on_login_def)
  ultimately show ?thesis
    unfolding process_info_response_def by (auto intro!: and_then_cong simp: Let_def)
qed

lemma agree_process_packet:
  assumes "agree_on_login H H'" "guest s" "\<not> packet_grants V K H wall pkt h s"
  shows "process_packet V K H now wall pkt h s = process_packet V K H' now wall pkt h s"
proof (cases "ss_encrypted s")
  case None
  then show ?thesis by (simp add: process_packet_def)
next
  case (Some enc)
  then have n: "\<not> may_open (enc_state enc)" using assms(2) by (simp add: guest_def logged_in_def stage_def)
  show ?thesis
  proof (cases pkt)
    case Nil
    then show ?thesis using Some by (simp add: process_packet_def)
  next
    case (Cons m r)
    show ?thesis
    proof (cases "enc_state enc")
      case (WaitingAuthServiceRequest sent accepted)
      then show ?thesis using Some Cons agree_banner(1) [OF assms(1)]
        by (simp add: process_packet_def process_service_request_def cong: if_cong)
    next
      case (WaitingAuthRequest a)
      have "m = USERAUTH_REQUEST \<Longrightarrow> process_auth_request V K H now wall pkt r enc h s = process_auth_request V K H' now wall pkt r enc h s"
        using agree_auth_request [OF assms(1) Some WaitingAuthRequest] assms(3) Cons by simp
      moreover have "m = USERAUTH_INFO_RESPONSE \<Longrightarrow> process_info_response V K H now a r enc h s = process_info_response V K H' now a r enc h s"
        using agree_info_response [OF assms(1) Some WaitingAuthRequest] assms(3) Cons by simp
      ultimately show ?thesis using Some Cons WaitingAuthRequest by (simp add: process_packet_def)
    qed (use n in simp_all)
  qed
qed

lemma agree_finish_rekey:
  "ss_pending_reads s = [] \<Longrightarrow> finish_rekey V K H order now wall nk enc h s = finish_rekey V K H' order now wall nk enc h s"
  by (simp add: finish_rekey_def Let_def)

lemma agree_reply_kex:
  assumes "agree_on_login H H'" "ss_pending_reads s = []"
  shows "reply_kex V K H order now wall kex pkt h s = reply_kex V K H' order now wall kex pkt h s"
proof -
  have "h_lookup_dh_gex_group H' h = h_lookup_dh_gex_group H h" using assms(1) by (simp add: agree_on_login_def)
  moreover have "finish_rekey V K H order now wall nk enc h (s\<lparr>ss_common := C\<rparr>)
      = finish_rekey V K H' order now wall nk enc h (s\<lparr>ss_common := C\<rparr>)" for nk enc C
    using assms(2) by (intro agree_finish_rekey) simp
  ultimately show ?thesis
    unfolding reply_kex_def Let_def by (auto intro!: and_then_cong split: kex_progress.splits option.splits)
qed

lemma agree_reply:
  assumes "agree_on_login H H'" "guest s" "\<not> packet_grants V K H wall (in_buffer pkt) h s"
  shows "reply V K H order now wall pkt h s = reply V K H' order now wall pkt h s"
proof -
  let ?starts = "first (in_buffer pkt) = Some KEXINIT \<and> ss_kex s = KexIdle"
  have "process_packet V K H now wall (in_buffer pkt) h (s1\<lparr>ss_kex := k\<rparr>)
        = process_packet V K H' now wall (in_buffer pkt) h (s1\<lparr>ss_kex := k\<rparr>)
      \<and> process_packet V K H now wall (in_buffer pkt) h s1 = process_packet V K H' now wall (in_buffer pkt) h s1
      \<and> reply_kex V K H order now wall kex pkt h (s1\<lparr>ss_kex := k\<rparr>) = reply_kex V K H' order now wall kex pkt h (s1\<lparr>ss_kex := k\<rparr>)"
    if b: "(if ?starts then ss_begin_rekey V s else Ok s) = Ok s1" for s1 k kex
  proof -
    have s1: "same_stage s1 s" using b by (auto split: if_splits intro: begin_rekey_stage)
    have g: "guest s1" by (rule same_stage_guest [OF s1 assms(2)])
    have gk: "guest (s1\<lparr>ss_kex := k\<rparr>)" by (rule same_stage_guest [OF common_stage(2) g])
    have ng: "\<not> packet_grants V K H wall (in_buffer pkt) h s1"
    proof (cases ?starts)
      case True
      then show ?thesis by (auto simp: packet_grants_def KEXINIT_def USERAUTH_REQUEST_def USERAUTH_INFO_RESPONSE_def)
    next
      case False
      then have "s1 = s" using b by (auto split: if_splits)
      with assms(3) show ?thesis by simp
    qed
    then have ngk: "\<not> packet_grants V K H wall (in_buffer pkt) h (s1\<lparr>ss_kex := k\<rparr>)" by (simp add: packet_grants_def)
    show ?thesis
      using agree_process_packet [OF assms(1) g ng] agree_process_packet [OF assms(1) gk ngk]
        agree_reply_kex [OF assms(1), of "s1\<lparr>ss_kex := k\<rparr>"] gk by (simp add: guest_def)
  qed
  then show ?thesis
    unfolding reply_def Let_def by (auto intro!: and_then_cong split: session_kex_state.splits)
qed

lemma agree_loop_packet:
  assumes "agree_on_login H H'" "guest s" "\<not> grants_event V K H wall (LePacket b) h s"
  shows "loop_packet V K H order now wall b h (s\<lparr>ss_common := (ss_common s)\<lparr>received_data := False\<rparr>\<rparr>)
    = loop_packet V K H' order now wall b h (s\<lparr>ss_common := (ss_common s)\<lparr>received_data := False\<rparr>\<rparr>)"
proof -
  have "reply V K H order now wall pkt h (t\<lparr>ss_common := (ss_common t)\<lparr>received_data := True\<rparr>\<rparr>)
      = reply V K H' order now wall pkt h (t\<lparr>ss_common := (ss_common t)\<lparr>received_data := True\<rparr>\<rparr>)"
    if d: "maybe_decompress V b (s\<lparr>ss_common := (ss_common s)\<lparr>received_data := False\<rparr>\<rparr>) = Ok (pkt, t)" for pkt t
  proof -
    let ?u = "t\<lparr>ss_common := (ss_common t)\<lparr>received_data := True\<rparr>\<rparr>"
    from d obtain s1 where s1: "maybe_decompress V b s = Ok (pkt, s1)"
      and t: "t = s1\<lparr>ss_common := (ss_common s1)\<lparr>received_data := False\<rparr>\<rparr>"
      by (auto simp: maybe_decompress_mark and_then_eq_Ok)
    have "guest t" unfolding t
      by (rule same_stage_guest [OF same_stage_trans [OF common_stage(1) maybe_decompress_stage [OF s1]] assms(2)]) simp
    then have g: "guest ?u" by (rule same_stage_guest [OF common_stage(1), rotated]) simp
    have "\<not> packet_grants V K H wall (in_buffer pkt) h s1" using assms(3) s1 by (auto simp: grants_event_def)
    then have ng: "\<not> packet_grants V K H wall (in_buffer pkt) h ?u" by (simp add: t packet_grants_def)
    show ?thesis by (rule agree_reply [OF assms(1) g ng])
  qed
  then show ?thesis
    unfolding loop_packet_def by (auto intro!: and_then_cong split: option.splits)
qed

lemma agree_round:
  assumes "agree_on_login H H'" "guest s" "\<not> grants_event V K H wall e h s"
  shows "loop_round V K H order now wall e h s = loop_round V K H' order now wall e h s"
proof (cases e)
  case (LePacket b)
  from agree_loop_packet [OF assms(1,2) assms(3) [unfolded LePacket]] LePacket
  show ?thesis by (simp add: loop_round_def Let_def)
qed (simp_all add: loop_round_def Let_def)

lemma agree_ungranted:
  assumes "ungranted_run V K H order h0 s0 es h s" "agree_on_login H H'" "guest s0"
  shows "ungranted_run V K H' order h0 s0 es h s"
  using assms(1)
proof induction
  case ungranted_start
  show ?case by (rule ungranted_run.ungranted_start)
next
  case (ungranted_round es h s V' e wall now out h' s' n)
  have g: "guest s" by (rule ungranted_guest [OF ungranted_round.hyps(1) assms(3)])
  have n: "\<not> grants_event V' K H wall e h s" using ungranted_round.hyps(2,4) by (simp add: grants_redrawn)
  show ?case
    using ungranted_run.ungranted_round [OF ungranted_round.IH ungranted_round.hyps(2,3)] ungranted_round.hyps
      agree_round [OF assms(2) g n] agree_grants_event [OF assms(2), of V K wall e h s]
    by (metis (no_types))
qed

section \<open>Rejections take their time\<close>

text \<open>How a request leaves the authentication when it does not end it: rejected and late enough, or with
  a question to the client.\<close>

definition held_back :: "nat \<Rightarrow> auth_request \<Rightarrow> auth_request \<Rightarrow> ('z, 'h) auth_state \<Rightarrow> bool" where
  "held_back until a b t \<longleftrightarrow> rejection_count b = rejection_count a + 1 \<and> current b = None \<and> until \<le> at_clock t"

definition questioned :: "auth_request \<Rightarrow> auth_request \<Rightarrow> bool" where
  "questioned a b \<longleftrightarrow> rejection_count b = rejection_count a \<and> current b \<noteq> None"

lemma reject_held_back:
  "reject_auth_request W until a t = Ok t' \<Longrightarrow> enc_state (at_enc t') = WaitingAuthRequest b \<Longrightarrow> held_back until a b t'"
  by (drule reject_waits) (auto simp: held_back_def sleep_until_def)

lemma settle_held_back:
  "settle W until m a answer t = Ok t' \<Longrightarrow> enc_state (at_enc t') = WaitingAuthRequest b \<Longrightarrow> held_back until a b t'"
  by (auto simp: settle_def authenticate_def outcome_simps held_back_def split: if_splits dest: reject_held_back)

lemma pk_held_back:
  assumes "server_read_auth_request_pk V K H now until original user r t = Ok t'"
    "enc_state (at_enc t) = WaitingAuthRequest a" "enc_state (at_enc t') = WaitingAuthRequest b"
  shows "held_back until a b t' \<or> questioned a b"
  using assms(1)
proof (cases rule: pk_request_cases)
  case (Rejected a')
  with assms(2,3) show ?thesis by (auto dest: reject_held_back)
next
  case s: (Signed is_real r1 algo r2 blob r3 pk pubkey)
  from s(7) show ?thesis
  proof (cases rule: publickey_signed_cases)
    case (Rejected a' valid t1)
    with assms(2,3) show ?thesis by (auto dest: reject_held_back)
  next
    case v: (Verified a' t1 enc_sig r' signature signed)
    with assms(2,3) show ?thesis
      by (auto simp: signed_request_ends_def authenticate_def outcome_simps held_back_def split: if_splits dest: reject_held_back)
  qed
next
  case (Offered algo blob pubkey)
  with assms(2,3) show ?thesis
    by (auto simp: publickey_offered_def outcome_simps waiting_request_Ok questioned_def held_back_def
        split: if_splits dest: reject_held_back)
qed

lemma auth_request_held_back:
  assumes "server_read_auth_request V K H now until initial_until original r t = Ok t'"
    "enc_state (at_enc t) = WaitingAuthRequest a" "enc_state (at_enc t') = WaitingAuthRequest b"
  shows "\<exists>user method_name rest. auth_header (env_wire V) r = Ok (user, ''ssh-connection'', method_name, rest)
    \<and> (held_back (if method_name = ''none'' then initial_until else until) a b t' \<or> questioned a b)"
  using assms(1)
proof (cases rule: auth_request_cases)
  case (Password user rest a' x r1 password r2 answer h d)
  with assms(2,3) show ?thesis by (auto dest: settle_held_back)
next
  case (PublicKey user rest)
  from pk_held_back [OF this(2) assms(2,3)] this(1) show ?thesis by auto
next
  case (None user rest a' answer h d)
  with assms(2,3) show ?thesis by (auto dest: settle_held_back)
next
  case (Interactive user rest x r1 a0 a' submethods r2 answer h d granted_now t2)
  have t': "t' = t2" using Interactive(8) assms(3) by (auto split: if_splits)
  have "held_back until a b t' \<or> questioned a b"
    using Interactive(4,5,7) assms(2,3) t'
    by (auto simp: reply_userauth_info_response_def outcome_simps Let_def questioned_def held_back_def reject_auth_request_def
        sleep_until_def split: auth.splits)
  with Interactive(1) show ?thesis by auto
next
  case (Other user method_name rest a')
  with assms(2,3) show ?thesis by (auto dest: reject_held_back)
qed

section \<open>A key that was refused\<close>

lemma publickey_locked:
  assumes "publickey_signed V H until original user pk pubkey r t = Ok t'"
    "enc_state (at_enc t) = WaitingAuthRequest a" "\<not> sent_pk_ok (current a)" "at_user t \<noteq> []"
  shows "at_handler t' = at_handler t \<and> at_user t' = at_user t
    \<and> enc_state (at_enc t') = WaitingAuthRequest (a\<lparr>current := None, rejection_count := rejection_count a + 1\<rparr>)"
  using assms(1)
proof (cases rule: publickey_signed_cases)
  case (Rejected a' valid t1)
  with assms(2-4) have "t1 = t" by (auto simp: may_try_def)
  with Rejected assms(2) show ?thesis by (auto dest!: reject_waits simp: sleep_until_def)
next
  case (Verified a' t1 enc_sig r' signature signed)
  with assms(2-4) show ?thesis by (auto simp: may_try_def)
qed

lemma publickey_refused_sets_user:
  assumes "publickey_signed V H until original user pk pubkey r t = Ok t'" "enc_state (at_enc t) = WaitingAuthRequest a"
    "\<not> sent_pk_ok (current a)" "at_user t = []"
    "auth_publickey_offered H (at_handler t) user pubkey = Ok (answer, h, d)" "answer \<noteq> Accept"
  shows "at_user t' = user
    \<and> enc_state (at_enc t') = WaitingAuthRequest (a\<lparr>current := None, rejection_count := rejection_count a + 1\<rparr>)"
  using assms(1)
proof (cases rule: publickey_signed_cases)
  case (Rejected a' valid t1)
  with assms(2-6) show ?thesis by (auto simp: may_try_def outcome_simps ask_Ok dest!: reject_waits) (auto simp: sleep_until_def)
next
  case (Verified a' t1 enc_sig r' signature signed)
  with assms(2-6) show ?thesis by (auto simp: may_try_def outcome_simps ask_Ok)
qed

section \<open>Terminal requests that panic\<close>

lemma pty_modes_truncated:
  assumes "\<And>j. 5 * j < length s \<Longrightarrow> s ! (5 * j) \<noteq> 0" "length s mod 5 \<noteq> 0" "5 * i < length s"
  shows "pty_modes W s i modes = Panic"
  using assms(3)
proof (induction "length s - i" arbitrary: i modes rule: less_induct)
  case less
  have n: "s ! (5 * i) \<noteq> 0" using assms(1) less.prems by blast
  show ?case
  proof (cases "5 * (i + 1) < length s")
    case True
    then have "\<And>m. pty_modes W s (i + 1) m = Panic" using less.hyps [of "i + 1"] less.prems by simp
    then show ?thesis
      using less.prems n True by (subst pty_modes.simps) (simp add: Let_def slice_from_def be_read_u32_def)
  next
    case False
    then have "length s < 5 * i + 5" using assms(2) by (cases "length s = 5 * (i + 1)") auto
    then have "length s - Suc (5 * i) < 4" using less.prems by linarith
    then show ?thesis
      using less.prems n by (subst pty_modes.simps) (simp add: Let_def slice_from_def be_read_u32_def)
  qed
qed

lemma pty_modes_full:
  assumes "\<And>j. 5 * j < length s \<Longrightarrow> s ! (5 * j) \<noteq> 0" "length s mod 5 = 0" "5 * i \<le> length s"
  shows "\<exists>m. pty_modes W s i modes = Ok (length s div 5, m) \<and> length m = length modes"
  using assms(3)
proof (induction "length s - i" arbitrary: i modes rule: less_induct)
  case less
  show ?case
  proof (cases "5 * i < length s")
    case True
    with assms(2) have l: "5 * i + 5 \<le> length s" by presburger
    with less.hyps [of "i + 1"] have ih: "\<And>modes. \<exists>m. pty_modes W s (i + 1) modes = Ok (length s div 5, m) \<and> length m = length modes"
      by simp
    have n: "s ! (5 * i) \<noteq> 0" using assms(1) True by blast
    let ?m = "case pty_from_u8 (s ! (5 * i)) of
                  Some code \<Rightarrow> (if i < 130 then modes[i := (code, be_get W (take 4 (drop (Suc (5 * i)) s)))] else modes)
                | None \<Rightarrow> modes"
    have "\<not> length s - Suc (5 * i) < 4" using l by linarith
    then have "pty_modes W s i modes = pty_modes W s (i + 1) ?m"
      using l n by (subst pty_modes.simps) (simp add: Let_def slice_from_def be_read_u32_def)
    moreover have "length ?m = length modes" by (simp split: option.splits)
    ultimately show ?thesis using ih [of ?m] by simp
  next
    case False
    with less.prems have "length s = 5 * i" by simp
    then show ?thesis by (subst pty_modes.simps) simp
  qed
qed

end
