(* ===== verification/ServerProperties.thy ===== *)
theory ServerProperties
  imports ServerSafety SessionFlow KexAgreement
begin

text \<open>
  The properties of the server, over the lemmas of \<open>ServerSafety\<close>, and the example on which their witnesses
  rest: an application that lets the user \<open>a\<close> in without a password and refuses every key, and a session
  that waits for an authentication request.
\<close>

section \<open>An example\<close>

definition sample_application :: "(unit, bytes, unit, unit, unit, unit) handler" where
  "sample_application = \<lparr>
     auth_none = (\<lambda>h user. Ok (if user = ''a'' then Accept else auth_reject, h, 3)),
     auth_password = (\<lambda>h user password. Ok (auth_reject, h, 3)),
     auth_publickey_offered = (\<lambda>h user key. Ok (auth_reject, h, 3)),
     auth_publickey = (\<lambda>h user key. Ok (auth_reject, h, 3)),
     auth_openssh_certificate = (\<lambda>h user cert. Ok (auth_reject, h, 3)),
     auth_keyboard_interactive = (\<lambda>h user submethods responses. Ok (auth_reject, h, 3)),
     authentication_banner = (\<lambda>h. Ok (None, h)),
     h_auth_succeeded = (\<lambda>h s. Ok (h, s)),
     h_channel_close = (\<lambda>h c s. Ok (h, s)),
     h_channel_eof = (\<lambda>h c s. Ok (h, s)),
     h_channel_open_session = (\<lambda>h c s. Ok (True, h, s)),
     h_channel_open_x11 = (\<lambda>h c a p s. Ok (False, h, s)),
     h_channel_open_direct_tcpip = (\<lambda>h c i s. Ok (False, h, s)),
     h_channel_open_forwarded_tcpip = (\<lambda>h c i s. Ok (False, h, s)),
     h_channel_open_direct_streamlocal = (\<lambda>h c p s. Ok (False, h, s)),
     h_channel_open_confirmation = (\<lambda>h c m w s. Ok (h, s)),
     h_data = (\<lambda>h c d s. Ok (h, s)),
     h_extended_data = (\<lambda>h c x d s. Ok (h, s)),
     h_window_adjusted = (\<lambda>h c n s. Ok (h, s)),
     h_adjust_window = (\<lambda>h c n. (n, h)),
     h_pty_request = (\<lambda>h c t a b d e m s. Ok (h, s)),
     h_x11_request = (\<lambda>h c single p k n s. Ok (h, s)),
     h_env_request = (\<lambda>h c n v s. Ok (h, s)),
     h_shell_request = (\<lambda>h c s. Ok (h, s)),
     h_exec_request = (\<lambda>h c d s. Ok (h, s)),
     h_subsystem_request = (\<lambda>h c n s. Ok (h, s)),
     h_window_change_request = (\<lambda>h c a b d e s. Ok (h, s)),
     h_agent_request = (\<lambda>h c s. Ok (False, h, s)),
     h_signal = (\<lambda>h c n s. Ok (h, s)),
     h_tcpip_forward = (\<lambda>h a p s. Ok (False, p, h, s)),
     h_cancel_tcpip_forward = (\<lambda>h a p s. Ok (False, h, s)),
     h_streamlocal_forward = (\<lambda>h p s. Ok (False, h, s)),
     h_cancel_streamlocal_forward = (\<lambda>h p s. Ok (False, h, s)),
     h_lookup_dh_gex_group = (\<lambda>h g. Ok None)\<rparr>"

definition sample_certs :: "(bytes, unit) cert_crates" where
  "sample_certs = \<lparr>algorithm_new = (\<lambda>a. Inl AlgorithmUnknown), algorithm_new_certificate = (\<lambda>a. Inl KeyEncoding),
     key_data_decode = (\<lambda>b. Inr b), certificate_decode = (\<lambda>b. Inl OtherKeyError), valid_after = (\<lambda>c. 0),
     valid_before = (\<lambda>c. 0), cert_signature_ok = (\<lambda>c. False), cert_public_key = (\<lambda>c. []), failed_at = (\<lambda>b. b)\<rparr>"

definition sample_request :: auth_request where
  "sample_request = \<lparr>methods = [MK_None], partial_success = False, current = None, rejection_count = 0\<rparr>"

definition sample_guest :: "(unit, unit, unit) server_session" where
  "sample_guest = \<lparr>ss_common = (server_common_new sample_server_config [2])\<lparr>cs_encrypted := Some
        ((sample_encrypted (sample_channel 0))\<lparr>enc_state := WaitingAuthRequest sample_request, channels := (\<lambda>c. None)\<rparr>)\<rparr>,
     ss_target_window_size = 100, ss_pending_reads = [], ss_pending_len = 0, ss_channels = (\<lambda>c. None),
     ss_open_global_requests = [], ss_kex = KexIdle, ss_answers = []\<rparr>"

definition none_packet :: sshbuffer where
  "none_packet = \<lparr>buffer = [0, 0, 0, 0, 0] @ USERAUTH_REQUEST # be_put W0 (as_u32 1) @ as_bytes ''a''
      @ be_put W0 (as_u32 14) @ as_bytes ''ssh-connection'' @ be_put W0 (as_u32 4) @ as_bytes ''none'', next_len = 0, sent_bytes = 0, seqn = 4\<rparr>"

definition none_request :: bytes where
  "none_request = be_put W0 (as_u32 1) @ as_bytes ''a'' @ be_put W0 (as_u32 14) @ as_bytes ''ssh-connection''
    @ be_put W0 (as_u32 4) @ as_bytes ''none''"

lemma none_packet_eq: "none_packet = \<lparr>buffer = [0, 0, 0, 0, 0] @ USERAUTH_REQUEST # none_request, next_len = 0, sent_bytes = 0, seqn = 4\<rparr>"
  by (simp add: none_packet_def none_request_def)

lemma none_request_header: "auth_header W0 none_request = Ok (''a'', ''ssh-connection'', ''none'', [])"
  using rfc.get_str [of "''a''"] rfc.get_str [of "''ssh-connection''"] rfc.get_str [of "''none''" "[]"]
  by (simp add: auth_header_def none_request_def ascii_def)

lemma sample_guest_event: "maybe_decompress sample_env none_packet sample_guest
  = Ok (\<lparr>in_buffer = USERAUTH_REQUEST # none_request, in_seqn = 4\<rparr>, sample_guest)"
  by (simp add: maybe_decompress_def none_packet_eq sample_guest_def sample_encrypted_def slice_from_def ss_set_encrypted_def)

lemma none_accepted:
  "server_read_auth_request sample_env sample_certs (auth_handler.truncate sample_application) 0 u v
     (USERAUTH_REQUEST # none_request) none_request (auth_state_of 0 () enc s)
   = authenticate W0 ((auth_state_of 0 () enc s)\<lparr>at_clock := 3\<rparr>)"
  if "enc_state enc = WaitingAuthRequest sample_request"
  using none_request_header that
  by (auto simp: server_read_auth_request_def auth_header_def outcome_simps auth_handler.truncate_def sample_application_def
      waiting_request_def auth_state_of_def ask_def settle_def)

abbreviation "sample_enc \<equiv> (sample_encrypted (sample_channel 0))\<lparr>enc_state := WaitingAuthRequest sample_request, channels := (\<lambda>c. None)\<rparr>"

abbreviation sample_marked :: "(unit, unit, unit) server_session" where
  "sample_marked \<equiv> sample_guest\<lparr>ss_common := (ss_common sample_guest)\<lparr>received_data := True\<rparr>\<rparr>"

abbreviation sample_in_enc :: "unit encrypted" where
  "sample_in_enc \<equiv> sample_enc\<lparr>enc_write := frame W0 [USERAUTH_SUCCESS], enc_state := InitCompression\<rparr>"

definition sample_in :: "(unit, unit, unit) server_session" where
  "sample_in = sample_marked\<lparr>ss_common := (ss_common sample_marked)\<lparr>cs_encrypted := Some sample_in_enc, auth_attempts := 1\<rparr>\<rparr>"

lemma sample_authenticated:
  "authenticate W0 ((auth_state_of 0 () sample_enc s)\<lparr>at_clock := 3\<rparr>)
    = Ok \<lparr>at_enc = sample_in_enc, at_user = auth_user (ss_common s), at_handler = (), at_clock = 3\<rparr>"
  using rfc.push_packet_frame [of "[push USERAUTH_SUCCESS]" "[USERAUTH_SUCCESS]" "[]"]
  by (simp add: authenticate_def server_auth_request_success_def auth_state_of_def sample_encrypted_def)

lemma sample_succeeded: "h_auth_succeeded sample_application h s = Ok (h, s)"
  by (simp add: sample_application_def)

lemma sample_common: "auth_user (ss_common sample_guest) = []" "auth_attempts (ss_common sample_guest) = 0"
  "ss_encrypted sample_guest = Some sample_enc"
  by (simp_all add: sample_guest_def server_common_new_def)

lemma sample_processed:
  "process_packet sample_env sample_certs sample_application 0 0 (USERAUTH_REQUEST # none_request) () sample_marked
    = Ok ((), sample_in)"
proof -
  have a: "process_auth_request sample_env sample_certs sample_application 0 0 (USERAUTH_REQUEST # none_request) none_request
      sample_enc () sample_marked = Ok ((), sample_in)"
    unfolding process_auth_request_def
    by (subst none_accepted, simp)
      (simp add: sample_authenticated Let_def put_auth_state_def auth_success_def with_enc_def ss_set_encrypted_def sample_common
        sample_succeeded sample_in_def,
       simp add: sample_guest_def server_common_new_def sample_encrypted_def)
  have e: "ss_encrypted sample_marked = Some sample_enc" "enc_state sample_enc = WaitingAuthRequest sample_request"
    by (simp_all add: sample_common)
  show ?thesis unfolding process_packet_def e using a e by simp
qed

lemma sample_flush:
  "\<exists>s'. ss_flush sample_env 0 sample_in = Ok s' \<and> same_stage s' sample_in"
proof -
  have p: "pw_cipher (packet_writer (ss_common sample_in)) = ClearKey" "pw_compress (packet_writer (ss_common sample_in)) = CompressNone"
    by (simp_all add: sample_in_def sample_guest_def server_common_new_def packet_writer_clear_def packet_writer_new_def)
  have f: "fills (fill_bytes (crates_of sample_env))" by (simp add: fills_def)
  obtain b where w: "write_packet W0 (crypto_of (crates_of sample_env)) (fill_bytes (crates_of sample_env)) ClearKey [USERAUTH_SUCCESS]
      (write_buffer (packet_writer (ss_common sample_in))) = Ok (b, ClearKey)"
    using write_packet_eq [OF rfc.ssh_wire_axioms f, of "[USERAUTH_SUCCESS]" "crypto_of (crates_of sample_env)" ClearKey] by simp
  have "\<exists>rekey enc'. enc_flush (crates_of sample_env) lim 0 (packet_writer (ss_common sample_in)) sample_in_enc
      = Ok (rekey, (packet_writer (ss_common sample_in))\<lparr>write_buffer := b, pw_cipher := ClearKey\<rparr>, enc')
    \<and> enc_write enc' = [] \<and> write_cursor enc' = 0 \<and> channels enc' = channels sample_in_enc
    \<and> rekey = flush_asks_rekey lim 0 (sent_bytes b) sample_in_enc" for lim
    using enc_flush_frames [of "crates_of sample_env" _ "[[USERAUTH_SUCCESS]]" sample_in_enc b ClearKey lim 0] p w rfc.ssh_wire_axioms
    by (auto simp: sample_encrypted_def)
  then obtain enc' where "enc_flush (crates_of sample_env) (sc_limits (ss_config sample_in)) 0 (packet_writer (ss_common sample_in)) sample_in_enc
      = Ok (False, (packet_writer (ss_common sample_in))\<lparr>write_buffer := b, pw_cipher := ClearKey\<rparr>, enc')"
    by (fastforce simp: flush_asks_rekey_def sample_encrypted_def)
  then have "\<exists>s'. ss_flush sample_env 0 sample_in = Ok s'"
    by (simp add: ss_flush_def sample_in_def)
  then show ?thesis by (blast dest: flush_stage)
qed

lemma sample_reply:
  "reply sample_env sample_certs sample_application order 0 0 \<lparr>in_buffer = USERAUTH_REQUEST # none_request, in_seqn = 4\<rparr> () sample_marked
    = Ok ((), sample_in, 4)"
proof -
  have "\<not> is_kex_msg USERAUTH_REQUEST" by code_simp
  moreover have "ss_kex sample_marked = KexIdle" "\<not> strict_kex (ss_common sample_marked)"
    by (simp_all add: sample_guest_def server_common_new_def)
  ultimately show ?thesis
    using sample_processed by (simp add: reply_def strict_message_ok_def)
qed

lemma sample_round:
  "\<exists>out s' n. loop_round sample_env sample_certs sample_application order 0 0 (LePacket none_packet) () sample_guest
    = Ok (Some (out, (), s', n)) \<and> logged_in s'"
proof -
  from sample_flush obtain s1 where f: "ss_flush sample_env 0 sample_in = Ok s1" "same_stage s1 sample_in" by blast
  have u: "sample_guest\<lparr>ss_common := (ss_common sample_guest)\<lparr>received_data := False\<rparr>\<rparr> = sample_guest"
    by (simp add: sample_guest_def server_common_new_def)
  have l: "loop_packet sample_env sample_certs sample_application order 0 0 none_packet () sample_guest = Ok (Some ((), sample_in, 4))"
    using sample_reply sample_guest_event by (simp add: loop_packet_def none_packet_eq)
  obtain out w where fi: "flush_into (packet_writer (ss_common s1)) = (out, w)" by (cases "flush_into (packet_writer (ss_common s1))")
  have "logged_in sample_in" by (simp add: sample_in_def)
  then have "logged_in s1" using f(2) by (simp add: same_stage_logged_in)
  then show ?thesis using f(1) fi by (simp add: loop_round_def u l logged_in_def stage_def)
qed

lemma sample_guest_is_guest: "guest sample_guest" "event_enabled (LePacket none_packet) sample_guest"
  by (simp_all add: guest_def logged_in_def stage_def sample_guest_def server_common_new_def event_enabled_def)

lemma sample_idle_flush:
  "ss_flush sample_env now (sample_guest\<lparr>ss_common := (ss_common sample_guest)\<lparr>received_data := True\<rparr>\<rparr>)
    = Ok (sample_guest\<lparr>ss_common := (ss_common sample_guest)\<lparr>received_data := True\<rparr>\<rparr>)"
  by (simp add: ss_flush_def enc_flush_def sample_common flush_loop.simps sample_encrypted_def
      sample_guest_def server_common_new_def)

abbreviation ignore_packet :: sshbuffer where
  "ignore_packet \<equiv> none_packet\<lparr>buffer := [0, 0, 0, 0, 0, IGNORE]\<rparr>"

lemma sample_reject:
  "methods a = [] \<or> methods a = [MK_None] \<Longrightarrow> \<exists>w. reject_auth_request W0 until a t
    = Ok (sleep_until until (at_request (a\<lparr>current := None, rejection_count := rejection_count a + 1\<rparr>) (at_write w t)))"
  by (cases "puts [push USERAUTH_FAILURE, name_list_encode W0 (methods_to_names (methods a)), push (bool_u8 (partial_success a))] []")
    (auto simp: reject_auth_request_def rfc.push_packet_frame rfc.put_bytes rfc.put_str name_list_encode_def methods_to_names_def
      as_encoded_string_def)

lemma sample_signed:
  assumes "enc_state (at_enc t) = WaitingAuthRequest a" "methods a = [MK_None]" "current a = None" "at_handler t = ()"
  shows "\<exists>w. publickey_signed sample_env (auth_handler.truncate sample_application) 5 (replicate 9 0) user (PlainKey [k] None) [k]
      (be_put W0 (as_u32 1) @ [7]) t
    = Ok (sleep_until 5 (at_request (a\<lparr>current := None, rejection_count := rejection_count a + 1\<rparr>)
        (at_write w (if at_user t = [] then t\<lparr>at_user := user, at_clock := at_clock t + 3\<rparr> else t))))"
proof -
  have o: "auth_publickey_offered (auth_handler.truncate sample_application) () user [k] = Ok (auth_reject, (), 3)"
    by (simp add: auth_handler.truncate_def sample_application_def)
  have b: "r_bytes W0 (be_put W0 (as_u32 1) @ [7]) = Ok ([7], [])" using rfc.get_bytes [of "[7]" "[]"] by simp
  have s: "slice 0 (length (replicate 9 (0 :: u8)) - length (be_put W0 (as_u32 1) @ [7 :: u8])) (replicate 9 (0 :: u8)) = Ok (replicate 4 0)"
    by (simp add: slice_def rfc.be_put_length eval_nat_numeral)
  let ?t = "if at_user t = [] then t\<lparr>at_user := user, at_clock := at_clock t + 3\<rparr> else t"
  have m: "may_try (auth_handler.truncate sample_application) a user [k] t = Ok (False, ?t)"
    using o assms(3,4) by (auto simp: may_try_def ask_def auth_reject_def)
  have "publickey_signed sample_env (auth_handler.truncate sample_application) 5 (replicate 9 0) user (PlainKey [k] None) [k]
      (be_put W0 (as_u32 1) @ [7]) t = reject_auth_request W0 5 a ?t"
    using assms(1) b s m by (simp add: publickey_signed_def waiting_request_def Let_def sample_ssh_def)
  then show ?thesis using sample_reject [of a 5 ?t] assms(2) by simp
qed

section \<open>Properties\<close>

text \<open>Property C2: a session begins as a guest's, and it becomes a logged-in one in no other way than that
  some event of the run brought a packet which got the client in: an authentication request that the
  application accepted (for a key: with a verified signature over this session's identifier), or accepted
  answers to its questions. Until that first event the session stays a guest's.\<close>

theorem server_login_granted:
  assumes "session_run V K H order h0 s0 es h s" "guest s0" "logged_in s"
  shows "(\<forall>cfg sshid now out s1. session_start V cfg sshid now = Ok (out, s1) \<longrightarrow> guest s1)
    \<and> (\<exists>es1 V' now wall e es2 h1 s1. es = es1 @ (V', now, wall, e) # es2 \<and> ungranted_run V K H order h0 s0 es1 h1 s1
        \<and> guest s1 \<and> grants_event V K H wall e h1 s1)"
proof
  show "\<forall>cfg sshid now out s1. session_start V cfg sshid now = Ok (out, s1) \<longrightarrow> guest s1"
    by (blast intro: session_start_guest)
  from run_first_grant [OF assms(1)]
  show "\<exists>es1 V' now wall e es2 h1 s1. es = es1 @ (V', now, wall, e) # es2 \<and> ungranted_run V K H order h0 s0 es1 h1 s1
        \<and> guest s1 \<and> grants_event V K H wall e h1 s1"
  proof
    assume "ungranted_run V K H order h0 s0 es h s"
    from ungranted_guest [OF this assms(2)] assms(3) show ?thesis by (simp add: guest_def)
  qed (use assms(2) in \<open>blast intro: ungranted_guest\<close>)
qed

theorem server_login_granted_witness:
  "\<exists>es h s es1 V' now wall e es2 h1 s1.
    session_run sample_env sample_certs sample_application (\<lambda>m. []) () sample_guest es h s \<and> logged_in s
    \<and> es = es1 @ (V', now, wall, e) # es2
    \<and> guest s1 \<and> grants_event sample_env sample_certs sample_application wall e h1 s1"
proof -
  from sample_round obtain out s' n where
    r: "loop_round sample_env sample_certs sample_application (\<lambda>m. []) 0 0 (LePacket none_packet) () sample_guest
      = Ok (Some (out, (), s', n))" and l: "logged_in s'" by blast
  have run: "session_run sample_env sample_certs sample_application (\<lambda>m. []) () sample_guest ([] @ [(sample_env, 0, 0, LePacket none_packet)]) () s'"
    by (rule run_round [OF run_start redrawn_refl sample_guest_is_guest(2) r])
  from server_login_granted [OF run sample_guest_is_guest(1) l] run l show ?thesis by blast
qed

text \<open>Property C6: before a client has authenticated, the application's callbacks other than those of
  authentication (and the choice of a group for the key exchange) have no part in the session: any run in
  which no event grants access is, state for state, also the run of an application that agrees on
  authentication and differs in everything else.\<close>

theorem guest_reaches_login_only:
  assumes "ungranted_run V K H order h0 s0 es h s" "agree_on_login H H'" "guest s0"
  shows "ungranted_run V K H' order h0 s0 es h s \<and> guest s"
  using agree_ungranted [OF assms] ungranted_guest [OF assms(1,3)] by simp

theorem guest_reaches_login_only_witness:
  "\<exists>s. ungranted_run sample_env sample_certs (sample_application\<lparr>h_shell_request := (\<lambda>h c s. Panic)\<rparr>) (\<lambda>m. []) ()
      sample_guest [(sample_env, 0, 0, LePacket ignore_packet)] () s \<and> guest s"
proof -
  have d: "maybe_decompress sample_env ignore_packet sample_guest = Ok (\<lparr>in_buffer = [IGNORE], in_seqn = 4\<rparr>, sample_guest)"
    by (simp add: maybe_decompress_def none_packet_eq sample_guest_def sample_encrypted_def slice_from_def ss_set_encrypted_def)
  have u: "sample_guest\<lparr>ss_common := (ss_common sample_guest)\<lparr>received_data := False\<rparr>\<rparr> = sample_guest"
    by (simp add: sample_guest_def server_common_new_def)
  have k: "strict_message_ok sample_marked \<lparr>in_buffer = [IGNORE], in_seqn = 4\<rparr> = Ok ()"
    by (simp add: strict_message_ok_def sample_guest_def server_common_new_def)
  have l: "loop_packet sample_env sample_certs sample_application (\<lambda>m. []) 0 0 ignore_packet () sample_guest
      = Ok (Some ((), sample_marked, 4))"
    using d k by (simp add: loop_packet_def reply_def)
  obtain out w where fi: "flush_into (packet_writer (ss_common sample_marked)) = (out, w)"
    by (cases "flush_into (packet_writer (ss_common sample_marked))")
  obtain s' n where r: "loop_round sample_env sample_certs sample_application (\<lambda>m. []) 0 0 (LePacket ignore_packet) () sample_guest
      = Ok (Some (out, (), s', n))"
    using fi sample_idle_flush by (simp add: loop_round_def u l [simplified])
  have e: "event_enabled (LePacket ignore_packet) sample_guest"
    by (simp add: sample_guest_def server_common_new_def event_enabled_def)
  have g: "\<not> grants_event sample_env sample_certs sample_application 0 (LePacket ignore_packet) () sample_guest"
    using d by (simp add: grants_event_def packet_grants_def)
  have "ungranted_run sample_env sample_certs sample_application (\<lambda>m. []) () sample_guest ([] @ [(sample_env, 0, 0, LePacket ignore_packet)]) () s'"
    by (rule ungranted_round [OF ungranted_start redrawn_refl e g r])
  moreover have "agree_on_login sample_application (sample_application\<lparr>h_shell_request := (\<lambda>h c s. Panic)\<rparr>)"
    by (simp add: agree_on_login_def auth_handler.truncate_def)
  ultimately show ?thesis using guest_reaches_login_only sample_guest_is_guest(1) by fastforce
qed

text \<open>Property C18: an authentication request that does not end the authentication is either rejected, and
  then the answer is held back until the time of rejection (the earlier one for \<open>none\<close>) however long the
  application took, counted, and the method under way is given up; or a question to the client is under
  way.\<close>

theorem rejections_held_back:
  assumes "server_read_auth_request V K H now until initial_until original r t = Ok t'"
    "enc_state (at_enc t) = WaitingAuthRequest a" "enc_state (at_enc t') = WaitingAuthRequest b"
  shows "\<exists>user method_name rest. auth_header (env_wire V) r = Ok (user, ''ssh-connection'', method_name, rest)
    \<and> (held_back (if method_name = ''none'' then initial_until else until) a b t' \<or> questioned a b)"
  by (rule auth_request_held_back [OF assms])

theorem rejections_held_back_witness:
  "\<exists>t'. server_read_auth_request sample_env sample_certs (auth_handler.truncate sample_application) 0 70 50 []
      (be_put W0 (as_u32 1) @ as_bytes ''b'' @ be_put W0 (as_u32 14) @ as_bytes ''ssh-connection'' @ be_put W0 (as_u32 4) @ as_bytes ''none'')
      (auth_state_of 10 () sample_enc sample_guest) = Ok t' \<and> 50 \<le> at_clock t'"
proof -
  let ?r = "be_put W0 (as_u32 1) @ as_bytes ''b'' @ be_put W0 (as_u32 14) @ as_bytes ''ssh-connection'' @ be_put W0 (as_u32 4) @ as_bytes ''none''"
  let ?t = "auth_state_of 10 () sample_enc sample_guest"
  have h: "auth_header W0 ?r = Ok (''b'', ''ssh-connection'', ''none'', [])"
    using rfc.get_str [of "''b''"] rfc.get_str [of "''ssh-connection''"] rfc.get_str [of "''none''" "[]"]
    by (simp add: auth_header_def ascii_def)
  have n: "auth_none (auth_handler.truncate sample_application) () ''b'' = Ok (auth_reject, (), 3)"
    by (simp add: auth_handler.truncate_def sample_application_def)
  have w: "waiting_request ?t = Ok sample_request" by (simp add: waiting_request_Ok auth_state_of_def)
  have e: "server_read_auth_request sample_env sample_certs (auth_handler.truncate sample_application) 0 70 50 [] ?r ?t
    = settle W0 50 MK_None sample_request auth_reject (?t\<lparr>at_handler := (), at_clock := 13\<rparr>)"
    using h n w by (auto simp: server_read_auth_request_def auth_header_def outcome_simps ask_def auth_state_of_def)
  obtain w' where "settle W0 50 MK_None sample_request auth_reject (?t\<lparr>at_handler := (), at_clock := 13\<rparr>)
    = Ok (sleep_until 50 (at_request (sample_request\<lparr>methods := [], partial_success := False, current := None, rejection_count := 1\<rparr>)
        (at_write w' (?t\<lparr>at_handler := (), at_clock := 13, at_user := []\<rparr>))))"
    using sample_reject [of "sample_request\<lparr>methods := [], partial_success := False\<rparr>" 50 "?t\<lparr>at_handler := (), at_clock := 13, at_user := []\<rparr>"]
    by (auto simp: settle_def auth_reject_def sample_request_def methods_remove_def)
  then obtain t' b where t': "server_read_auth_request sample_env sample_certs (auth_handler.truncate sample_application) 0 70 50 [] ?r ?t
      = Ok t'" "enc_state (at_enc t') = WaitingAuthRequest b" "rejection_count b = 1"
    using e by (auto simp: sleep_until_def)
  have "held_back 50 sample_request b t' \<or> questioned sample_request b"
    using rejections_held_back [OF t'(1) _ t'(2), of sample_request] h by (auto simp: auth_state_of_def)
  then have "50 \<le> at_clock t'" using t'(3) by (simp add: held_back_def questioned_def sample_request_def)
  with t' show ?thesis by blast
qed

text \<open>A client that signs at once, without asking first whether its key would do, gets only
  one try: once the application has refused a key, every further signed request, for whatever key and
  user, is rejected without the application being asked.\<close>

theorem refused_key_locks_out:
  assumes "publickey_signed V H until original user pk pubkey r t = Ok t'" "enc_state (at_enc t) = WaitingAuthRequest a"
    "\<not> sent_pk_ok (current a)" "at_user t = []" "user \<noteq> []"
    "auth_publickey_offered H (at_handler t) user pubkey = Ok (answer, h, d)" "answer \<noteq> Accept"
    "publickey_signed V H' until2 original2 user2 pk2 pubkey2 r2 t' = Ok t''"
  shows "at_handler t'' = at_handler t' \<and> at_user t'' = user
    \<and> enc_state (at_enc t'') = WaitingAuthRequest (a\<lparr>current := None, rejection_count := rejection_count a + 2\<rparr>)"
proof -
  note r = publickey_refused_sets_user [OF assms(1-4,6,7)]
  from publickey_locked [OF assms(8) conjunct2 [OF r]] r assms(5) show ?thesis by simp
qed

theorem refused_key_locks_out_witness:
  "\<exists>t' t''. publickey_signed sample_env (auth_handler.truncate sample_application) 5 (replicate 9 0) ''b'' (PlainKey [1] None) [1]
      (be_put W0 (as_u32 1) @ [7]) (auth_state_of 0 () sample_enc sample_guest) = Ok t'
    \<and> publickey_signed sample_env (auth_handler.truncate sample_application) 5 (replicate 9 0) ''a'' (PlainKey [2] None) [2]
      (be_put W0 (as_u32 1) @ [7]) t' = Ok t'' \<and> at_user t'' = ''b''"
proof -
  let ?t = "auth_state_of 0 () sample_enc sample_guest"
  have t: "enc_state (at_enc ?t) = WaitingAuthRequest sample_request" "methods sample_request = [MK_None]"
      "current sample_request = None" "at_user ?t = []"
    by (simp_all add: auth_state_of_def sample_request_def sample_common)
  obtain t' where p: "publickey_signed sample_env (auth_handler.truncate sample_application) 5 (replicate 9 0) ''b'' (PlainKey [1] None) [1]
      (be_put W0 (as_u32 1) @ [7]) ?t = Ok t'"
    and e: "enc_state (at_enc t') = WaitingAuthRequest (sample_request\<lparr>current := None, rejection_count := rejection_count sample_request + 1\<rparr>)"
    using sample_signed [OF t(1-3), of "''b''" 1] by (auto simp: sleep_until_def)
  obtain t'' where q: "publickey_signed sample_env (auth_handler.truncate sample_application) 5 (replicate 9 0) ''a'' (PlainKey [2] None) [2]
      (be_put W0 (as_u32 1) @ [7]) t' = Ok t''"
    using sample_signed [OF e, of "''a''" 2] t(2) by auto
  have o: "auth_publickey_offered (auth_handler.truncate sample_application) (at_handler ?t) ''b'' [1] = Ok (auth_reject, (), 3)"
    by (simp add: auth_handler.truncate_def sample_application_def)
  have "at_user t'' = ''b''"
    using refused_key_locks_out [OF p t(1) _ t(4) _ o _ q] t(3) by (simp add: auth_reject_def)
  with p q show ?thesis by blast
qed

text \<open>A terminal request whose modes are cut off within a group of five bytes, or are more
  than 130, none of them the end mark, makes the server panic.\<close>

theorem pty_request_panics:
  assumes "r_str W r = Ok (term, r1)" "r_u32 W r1 = Ok (cw, r2)" "r_u32 W r2 = Ok (rh, r3)" "r_u32 W r3 = Ok (pw, r4)"
    "r_u32 W r4 = Ok (ph, r5)" "r_bytes W r5 = Ok (mode_string, r6)"
    "\<And>j. 5 * j < length mode_string \<Longrightarrow> mode_string ! (5 * j) \<noteq> 0"
    "length mode_string mod 5 \<noteq> 0 \<or> 650 < length mode_string"
  shows "srv_pty_request W H c r h s = Panic"
proof -
  let ?m = "replicate 130 (TTY_OP_END, 0 :: u32)"
  consider "pty_modes W mode_string 0 ?m = Panic" | i m where "pty_modes W mode_string 0 ?m = Ok (i, m)" "length m = 130" "130 < i"
  proof (cases "length mode_string mod 5 = 0")
    case False
    with assms(7) have "pty_modes W mode_string 0 ?m = Panic" by (intro pty_modes_truncated) auto
    then show thesis using that(1) by blast
  next
    case True
    with assms(8) have l: "650 < length mode_string" by simp
    with True have "130 < length mode_string div 5" by presburger
    with pty_modes_full [OF assms(7) True, of 0 W ?m] show thesis using that(2) by fastforce
  qed
  then show ?thesis
    using assms(1-6) by cases (simp_all add: srv_pty_request_def Let_def slice_def)
qed

theorem pty_request_panics_witness:
  "srv_pty_request W0 sample_application (ChannelId 2)
     (be_put W0 (as_u32 (length ''x'')) @ as_bytes ''x'' @ be_put W0 80 @ be_put W0 24 @ be_put W0 0 @ be_put W0 0
        @ be_put W0 (as_u32 (length [1 :: u8])) @ [1] @ []) () sample_guest = Panic"
  by (rule pty_request_panics [OF rfc.get_str rfc.get_u32 rfc.get_u32 rfc.get_u32 rfc.get_u32 rfc.get_bytes])
    (simp_all add: ascii_def)

end
