(* ===== verification/ClientSession.thy ===== *)
theory ClientSession
  imports SshBuffer Kex Session Channels
begin

text \<open>
  The client's session: its state (\<open>client/mod.rs\<close>) and the operations by which the application and the
  event loop write to the server (\<open>client/session.rs\<close>). The messages \<open>Msg\<close> that the application's handle
  sends to the session are a list, \<open>cl_receiver\<close>, of all that are still to come; its end is the drop of the
  handle. What the session sends back (\<open>Reply\<close>) and what it puts on the \<open>oneshot\<close> senders of requests is
  recorded in \<open>cl_replies\<close>, \<open>cl_answers\<close> and \<open>cl_sig_algs_sent\<close>.
\<close>

section \<open>Authentication methods\<close>

text \<open>\<open>Method\<close> of \<open>auth.rs\<close>, over the types of keys, certificates and public keys of the crate \<open>ssh_key\<close>.\<close>

datatype ('key, 'cert, 'pub) auth_method =
    MethodNone
  | MethodPassword string
  | MethodPublicKey "'key key_with_hash"
  | MethodOpenSshCertificate 'key 'cert
  | MethodFuturePublicKey 'pub "hash_alg option"
  | MethodKeyboardInteractive string

fun auth_request_new :: "('key, 'cert, 'pub) auth_method \<Rightarrow> auth_request" where
  "auth_request_new (MethodKeyboardInteractive submethods) =
     \<lparr>methods = all_methods, partial_success = False,
      current = Some (CurrentKeyboardInteractive submethods), rejection_count = 0\<rparr>"
| "auth_request_new _ =
     \<lparr>methods = all_methods, partial_success = False, current = None, rejection_count = 0\<rparr>"

section \<open>Messages of the application\<close>

datatype ('key, 'cert, 'pub) client_msg =
    MsgAuthenticate string "('key, 'cert, 'pub) auth_method"
  | MsgAuthInfoResponse "string list"
  | MsgSigned bytes
  | MsgChannelOpenSession channel_ref
  | MsgChannelOpenX11 string u32 channel_ref
  | MsgChannelOpenDirectTcpIp string u32 string u32 channel_ref
  | MsgChannelOpenDirectStreamLocal string channel_ref
  | MsgTcpIpForward "nat option" string u32
  | MsgCancelTcpIpForward "nat option" string u32
  | MsgStreamLocalForward "nat option" string
  | MsgCancelStreamLocalForward "nat option" string
  | MsgClose channel_id
  | MsgDisconnect disconnect_reason string string
  | MsgChannel channel_id channel_msg
  | MsgRekey
  | MsgAwaitExtensionInfo string nat
  | MsgGetServerSigAlgs nat
  | MsgKeepalive bool
  | MsgPing nat
  | MsgNoMoreSessions bool

datatype 'pub client_reply =
    RepAuthSuccess
  | RepAuthFailure method_set bool
  | RepChannelOpenFailure
  | RepSignRequest 'pub bytes
  | RepAuthInfoRequest string string "(string \<times> bool) list"

section \<open>State\<close>

record ('st, 'z, 'key, 'cert, 'pub) client_session =
  cl_common :: "('st, 'z, ('key, 'cert, 'pub) auth_method, client_config) common_session"
  cl_kex :: "('st, 'pub) client_kex session_kex_state"
  cl_receiver :: "('key, 'cert, 'pub) client_msg list"
  cl_handle_listens :: bool \<comment> \<open>whether the receiver of the replies still exists\<close>
  cl_replies :: "'pub client_reply list"
  cl_channels :: "channel_id \<rightharpoonup> channel_ref"
  cl_target_window_size :: u32
  cl_pending_reads :: "bytes list"
  cl_pending_len :: u32
  cl_open_global_requests :: "global_request_response list"
  cl_server_sig_algs :: "algorithm list option"
  cl_answers :: "(nat \<times> global_answer) list"
  cl_sig_algs_sent :: "(nat \<times> algorithm list option) list"

abbreviation cl_encrypted :: "('st, 'z, 'key, 'cert, 'pub) client_session \<Rightarrow> 'z encrypted option" where
  "cl_encrypted s \<equiv> cs_encrypted (cl_common s)"

abbreviation cl_config :: "('st, 'z, 'key, 'cert, 'pub) client_session \<Rightarrow> client_config" where
  "cl_config s \<equiv> cs_config (cl_common s)"

definition cl_set_encrypted ::
    "'z encrypted \<Rightarrow> ('st, 'z, 'key, 'cert, 'pub) client_session \<Rightarrow> ('st, 'z, 'key, 'cert, 'pub) client_session" where
  "cl_set_encrypted enc s = s\<lparr>cl_common := (cl_common s)\<lparr>cs_encrypted := Some enc\<rparr>\<rparr>"

text \<open>\<open>if let Some(ref mut enc) = self.common.encrypted { .. } Ok(())\<close>, and with \<open>else unreachable!()\<close>.\<close>

definition cl_with_enc ::
    "('z encrypted \<Rightarrow> 'z encrypted rs) \<Rightarrow> ('st, 'z, 'key, 'cert, 'pub) client_session
      \<Rightarrow> ('st, 'z, 'key, 'cert, 'pub) client_session rs" where
  "cl_with_enc f s =
     (case cl_encrypted s of
        None \<Rightarrow> Ok s
      | Some enc \<Rightarrow> and_then (f enc) (\<lambda>enc. Ok (cl_set_encrypted enc s)))"

definition cl_with_enc_or_panic ::
    "('z encrypted \<Rightarrow> 'z encrypted rs) \<Rightarrow> ('st, 'z, 'key, 'cert, 'pub) client_session
      \<Rightarrow> ('st, 'z, 'key, 'cert, 'pub) client_session rs" where
  "cl_with_enc_or_panic f s = (case cl_encrypted s of None \<Rightarrow> Panic | Some enc \<Rightarrow> cl_with_enc f s)"

text \<open>\<open>self.sender.send(..).map_err(|_| SendError)?\<close>, and a send on a \<open>oneshot\<close> sender.\<close>

definition cl_reply ::
    "'pub client_reply \<Rightarrow> ('st, 'z, 'key, 'cert, 'pub) client_session
      \<Rightarrow> ('st, 'z, 'key, 'cert, 'pub) client_session rs" where
  "cl_reply m s = (if cl_handle_listens s then Ok (s\<lparr>cl_replies := cl_replies s @ [m]\<rparr>) else Err SendError)"

definition cl_answer ::
    "nat \<Rightarrow> global_answer \<Rightarrow> ('st, 'z, 'key, 'cert, 'pub) client_session
      \<Rightarrow> ('st, 'z, 'key, 'cert, 'pub) client_session" where
  "cl_answer c a s = s\<lparr>cl_answers := cl_answers s @ [(c, a)]\<rparr>"

section \<open>Looking at a channel\<close>

definition cl_has_pending_data :: "channel_id \<Rightarrow> ('st, 'z, 'key, 'cert, 'pub) client_session \<Rightarrow> bool" where
  "cl_has_pending_data c s = (case cl_encrypted s of Some enc \<Rightarrow> has_pending_data c enc | None \<Rightarrow> False)"

definition cl_sender_window_size :: "channel_id \<Rightarrow> ('st, 'z, 'key, 'cert, 'pub) client_session \<Rightarrow> nat" where
  "cl_sender_window_size c s = (case cl_encrypted s of Some enc \<Rightarrow> enc_sender_window_size c enc | None \<Rightarrow> 0)"

section \<open>Opening channels\<close>

definition cl_channel_open_generic ::
    "wire \<Rightarrow> string \<Rightarrow> bytes rs list \<Rightarrow> ('st, 'z, 'key, 'cert, 'pub) client_session
      \<Rightarrow> (channel_id \<times> ('st, 'z, 'key, 'cert, 'pub) client_session) rs" where
  "cl_channel_open_generic W kind suffix s =
     (case cl_encrypted s of
        None \<Rightarrow> Err Inconsistent
      | Some enc \<Rightarrow>
          if enc_state enc \<noteq> Authenticated then Err NotAuthenticated
          else
            let win = cc_window_size (cl_config s); maxp = cc_maximum_packet_size (cl_config s) in
            and_then (new_channel win maxp enc) (\<lambda>(sender_channel, enc).
            and_then (enc_push W ([w_u8 W CHANNEL_OPEN, w_bytes W (as_bytes kind), encode_channel_id W sender_channel,
                        w_u32 W win, w_u32 W maxp] @ suffix) enc) (\<lambda>enc.
              Ok (sender_channel, cl_set_encrypted enc s))))"

definition cl_channel_open_session where
  "cl_channel_open_session W = cl_channel_open_generic W ''session'' []"

definition cl_channel_open_x11 where
  "cl_channel_open_x11 W originator oport = cl_channel_open_generic W ''x11'' [w_str W originator, w_u32 W oport]"

definition cl_channel_open_direct_tcpip where
  "cl_channel_open_direct_tcpip W host port originator oport =
     cl_channel_open_generic W ''direct-tcpip'' [w_str W host, w_u32 W port, w_str W originator, w_u32 W oport]"

definition cl_channel_open_direct_streamlocal where
  "cl_channel_open_direct_streamlocal W socket_path =
     cl_channel_open_generic W ''direct-streamlocal@openssh.com'' [w_str W socket_path, w_str W [], w_u32 W 0]"

section \<open>Requests on a channel\<close>

text \<open>Every request is written where the channel is known, confirmed or not.\<close>

definition cl_channel_request ::
    "wire \<Rightarrow> channel_id \<Rightarrow> string \<Rightarrow> bool \<Rightarrow> bytes rs list \<Rightarrow> 'z encrypted \<Rightarrow> 'z encrypted rs" where
  "cl_channel_request W c name want_reply es enc =
     (case channels enc c of
        None \<Rightarrow> Ok enc
      | Some ch \<Rightarrow>
          enc_push W ([w_u8 W CHANNEL_REQUEST, w_u32 W (recipient_channel ch), w_str W name,
            w_u8 W (bool_u8 want_reply)] @ es) enc)"

text \<open>The modes of a terminal. The length that goes before counts every entry of the list, though an entry
  \<open>TTY_OP_END\<close> is passed over.\<close>

definition pty_mode_fields :: "wire \<Rightarrow> (pty \<times> u32) list \<Rightarrow> bytes rs list" where
  "pty_mode_fields W terminal_modes =
     w_u32 W (as_u32 (1 + 5 * length terminal_modes))
     # concat (map (\<lambda>(code, val). if code = TTY_OP_END then [] else [w_u8 W (pty_code code), w_u32 W val]) terminal_modes)
     @ [w_u8 W (pty_code TTY_OP_END)]"

definition cl_request_pty where
  "cl_request_pty W c want_reply term col_width row_height pix_width pix_height terminal_modes =
     cl_with_enc (cl_channel_request W c ''pty-req'' want_reply
       ([w_str W term, w_u32 W col_width, w_u32 W row_height, w_u32 W pix_width, w_u32 W pix_height]
        @ pty_mode_fields W terminal_modes))"

definition cl_request_x11 where
  "cl_request_x11 W c want_reply single_connection protocol cookie screen_number =
     cl_with_enc (cl_channel_request W c ''x11-req'' want_reply
       [w_u8 W (bool_u8 single_connection), w_str W protocol, w_str W cookie, w_u32 W screen_number])"

definition cl_set_env where
  "cl_set_env W c want_reply variable_name variable_value =
     cl_with_enc (cl_channel_request W c ''env'' want_reply [w_str W variable_name, w_str W variable_value])"

definition cl_request_shell where
  "cl_request_shell W want_reply c = cl_with_enc (cl_channel_request W c ''shell'' want_reply [])"

definition cl_exec where
  "cl_exec W c want_reply command = cl_with_enc (cl_channel_request W c ''exec'' want_reply [w_bytes W command])"

definition cl_signal where
  "cl_signal W c signal = cl_with_enc (cl_channel_request W c ''signal'' False [w_str W (sig_name signal)])"

definition cl_request_subsystem where
  "cl_request_subsystem W want_reply c name =
     cl_with_enc (cl_channel_request W c ''subsystem'' want_reply [w_str W name])"

definition cl_window_change where
  "cl_window_change W c col_width row_height pix_width pix_height =
     cl_with_enc (cl_channel_request W c ''window-change'' False
       [w_u32 W col_width, w_u32 W row_height, w_u32 W pix_width, w_u32 W pix_height])"

definition cl_agent_forward where
  "cl_agent_forward W c want_reply =
     cl_with_enc (cl_channel_request W c ''auth-agent-req@openssh.com'' want_reply [])"

section \<open>Global requests\<close>

text \<open>The forwardings: with a reply channel the answer is awaited and asked for.\<close>

definition cl_forward_request ::
    "wire \<Rightarrow> string \<Rightarrow> (nat \<Rightarrow> global_request_response) \<Rightarrow> nat option \<Rightarrow> bytes rs list
      \<Rightarrow> ('st, 'z, 'key, 'cert, 'pub) client_session \<Rightarrow> ('st, 'z, 'key, 'cert, 'pub) client_session rs" where
  "cl_forward_request W name awaited reply_channel es s =
     (case cl_encrypted s of
        None \<Rightarrow> Ok s
      | Some enc \<Rightarrow>
          let s = (case reply_channel of
                     Some c \<Rightarrow> s\<lparr>cl_open_global_requests := cl_open_global_requests s @ [awaited c]\<rparr> | None \<Rightarrow> s) in
          cl_with_enc (enc_push W ([w_u8 W GLOBAL_REQUEST, w_str W name, w_u8 W (bool_u8 (reply_channel \<noteq> None))] @ es)) s)"

definition cl_tcpip_forward where
  "cl_tcpip_forward W reply_channel address port =
     cl_forward_request W ''tcpip-forward'' GrTcpIpForward reply_channel [w_str W address, w_u32 W port]"

definition cl_cancel_tcpip_forward where
  "cl_cancel_tcpip_forward W reply_channel address port =
     cl_forward_request W ''cancel-tcpip-forward'' GrCancelTcpIpForward reply_channel [w_str W address, w_u32 W port]"

definition cl_streamlocal_forward where
  "cl_streamlocal_forward W reply_channel socket_path =
     cl_forward_request W ''streamlocal-forward@openssh.com'' GrStreamLocalForward reply_channel [w_str W socket_path]"

definition cl_cancel_streamlocal_forward where
  "cl_cancel_streamlocal_forward W reply_channel socket_path =
     cl_forward_request W ''cancel-streamlocal-forward@openssh.com'' GrCancelStreamLocalForward reply_channel
       [w_str W socket_path]"

text \<open>The others: the answer is awaited whether it was asked for or not, and even where nothing is sent.\<close>

definition cl_awaited_request ::
    "wire \<Rightarrow> string \<Rightarrow> global_request_response \<Rightarrow> bool \<Rightarrow> ('st, 'z, 'key, 'cert, 'pub) client_session
      \<Rightarrow> ('st, 'z, 'key, 'cert, 'pub) client_session rs" where
  "cl_awaited_request W name awaited want_reply s =
     cl_with_enc (enc_push W [w_u8 W GLOBAL_REQUEST, w_str W name, w_u8 W (bool_u8 want_reply)])
       (s\<lparr>cl_open_global_requests := cl_open_global_requests s @ [awaited]\<rparr>)"

definition cl_send_keepalive where
  "cl_send_keepalive W want_reply = cl_awaited_request W ''keepalive@openssh.com'' GrKeepalive want_reply"

definition cl_send_ping where
  "cl_send_ping W reply_channel = cl_awaited_request W ''keepalive@openssh.com'' (GrPing reply_channel) True"

definition cl_no_more_sessions where
  "cl_no_more_sessions W want_reply = cl_awaited_request W ''no-more-sessions@openssh.com'' GrNoMoreSessions want_reply"

section \<open>Channel data\<close>

definition cl_data where
  "cl_data W c data s = cl_with_enc_or_panic (enc_data W c data (kex_active (cl_kex s))) s"

definition cl_extended_data where
  "cl_extended_data W c ext data s = cl_with_enc_or_panic (enc_extended_data W c ext data (kex_active (cl_kex s))) s"

definition cl_eof where
  "cl_eof W c = cl_with_enc_or_panic (enc_eof W c)"

definition cl_close where
  "cl_close W c = cl_with_enc_or_panic (enc_close W c)"

definition cl_disconnect where
  "cl_disconnect W reason description language_tag s =
     and_then (common_disconnect W reason description language_tag (cl_common s)) (\<lambda>C. Ok (s\<lparr>cl_common := C\<rparr>))"

section \<open>Key exchange and flushing\<close>

definition cl_begin_rekey ::
    "('st, 'z, 'key, 'pub, 'sig) env \<Rightarrow> ('st, 'z, 'key, 'cert, 'pub) client_session
      \<Rightarrow> ('st, 'z, 'key, 'cert, 'pub) client_session rs" where
  "cl_begin_rekey V s =
     (let C = cl_common s;
          cause = (case cs_encrypted C of
                     None \<Rightarrow> Initial
                   | Some enc \<Rightarrow> Rekey (strict_kex C) (enc_session_id enc));
          kex = client_kex_new (cs_config C) (cc_client_id (cs_config C)) (remote_sshid C) cause in
      and_then (client_kexinit V kex (packet_writer C)) (\<lambda>(kex, w).
        Ok (s\<lparr>cl_common := C\<lparr>packet_writer := w\<rparr>, cl_kex := KexInProgress kex\<rparr>)))"

definition cl_flush ::
    "('st, 'z, 'key, 'pub, 'sig) env \<Rightarrow> nat \<Rightarrow> ('st, 'z, 'key, 'cert, 'pub) client_session
      \<Rightarrow> ('st, 'z, 'key, 'cert, 'pub) client_session rs" where
  "cl_flush V now s =
     (case cl_encrypted s of
        None \<Rightarrow> Ok s
      | Some enc \<Rightarrow>
          and_then (enc_flush (crates_of V) (cc_limits (cl_config s)) now (packet_writer (cl_common s)) enc) (\<lambda>(due, w, enc).
            let s = s\<lparr>cl_common := (cl_common s)\<lparr>packet_writer := w, cs_encrypted := Some enc\<rparr>\<rparr> in
            if due \<and> \<not> kex_active (cl_kex s) then cl_begin_rekey V s else Ok s))"

definition cl_initiate_rekey ::
    "('st, 'z, 'key, 'pub, 'sig) env \<Rightarrow> nat \<Rightarrow> ('st, 'z, 'key, 'cert, 'pub) client_session
      \<Rightarrow> ('st, 'z, 'key, 'cert, 'pub) client_session rs" where
  "cl_initiate_rekey V now s =
     (case cl_encrypted s of
        None \<Rightarrow> Ok s
      | Some enc \<Rightarrow> cl_flush V now (cl_set_encrypted (enc\<lparr>rekey_wanted := True\<rparr>) s))"

end
