(* ===== verification/ClientAuth.thy ===== *)
theory ClientAuth
  imports ClientSession
begin

text \<open>
  User authentication on the client: the first and the last part of \<open>client/encrypted.rs\<close>, from the packets
  of a server that waits for the client to log in to the requests and signatures that answer them. What
  the sources call of \<open>ssh_key\<close> beyond \<open>ssh_keys\<close> is the parameter \<open>client_key_crates\<close>.
\<close>

section \<open>Keys\<close>

record ('pub, 'cert) client_key_crates =
  pub_algorithm :: "'pub \<Rightarrow> algorithm"
  cert_type :: "'cert \<Rightarrow> string" \<comment> \<open>\<open>algorithm().to_certificate_type()\<close>\<close>
  cert_to_bytes :: "'cert \<Rightarrow> bytes rs"
  algorithm_from_str :: "string \<Rightarrow> algorithm option"

text \<open>\<open>PublicKeyOrCertificate\<close> of \<open>cert.rs\<close>, as the client offers it.\<close>

datatype ('pub, 'cert) offered_key = OfferKey 'pub "hash_alg option" | OfferCertificate 'cert

definition offer_of_key :: "('key, 'pub, 'sig) ssh_keys \<Rightarrow> 'key key_with_hash \<Rightarrow> ('pub, 'cert) offered_key" where
  "offer_of_key S key = OfferKey (public_of S (kh_key key)) (kh_hash_alg key)"

section \<open>Requests\<close>

text \<open>The message by which a method begins; for a key it only asks whether the key would do.\<close>

fun auth_request_fields ::
    "wire \<Rightarrow> ('key, 'pub, 'sig) ssh_keys \<Rightarrow> ('pub, 'cert) client_key_crates \<Rightarrow> string \<Rightarrow> ('key, 'cert, 'pub) auth_method
      \<Rightarrow> bytes rs list" where
  "auth_request_fields W S Q user MethodNone = [w_str W user, w_str W ''ssh-connection'', w_str W ''none'']"
| "auth_request_fields W S Q user (MethodPassword password) =
     [w_str W user, w_str W ''ssh-connection'', w_str W ''password'', w_u8 W 0, w_str W password]"
| "auth_request_fields W S Q user (MethodPublicKey key) =
     [w_str W user, w_str W ''ssh-connection'', w_str W ''publickey'', push 0,
      w_str W (alg_str S (key_with_hash_algorithm S key)),
      and_then (pub_to_bytes S (public_of S (kh_key key))) (w_bytes W)]"
| "auth_request_fields W S Q user (MethodOpenSshCertificate key cert) =
     [w_bytes W (as_bytes user), w_str W ''ssh-connection'', w_str W ''publickey'', push 0,
      w_str W (cert_type Q cert), and_then (cert_to_bytes Q cert) (w_bytes W)]"
| "auth_request_fields W S Q user (MethodFuturePublicKey key hash_alg) =
     [w_bytes W (as_bytes user), w_str W ''ssh-connection'', w_str W ''publickey'', push 0,
      w_str W (alg_str S (with_hash_alg (pub_algorithm Q key) hash_alg)),
      and_then (pub_to_bytes S key) (w_bytes W)]"
| "auth_request_fields W S Q user (MethodKeyboardInteractive submethods) =
     [w_bytes W (as_bytes user), w_str W ''ssh-connection'', w_str W ''keyboard-interactive'', w_str W [],
      w_bytes W (as_bytes submethods)]"

definition write_auth_request ::
    "wire \<Rightarrow> ('key, 'pub, 'sig) ssh_keys \<Rightarrow> ('pub, 'cert) client_key_crates \<Rightarrow> string \<Rightarrow> ('key, 'cert, 'pub) auth_method
      \<Rightarrow> 'z encrypted \<Rightarrow> 'z encrypted rs" where
  "write_auth_request W S Q user method enc =
     enc_push W (push USERAUTH_REQUEST # auth_request_fields W S Q user method) enc"

text \<open>What is signed: the session identifier, then the request that will be sent. The result is the whole
  and where the request begins in it.\<close>

fun offer_fields ::
    "wire \<Rightarrow> ('key, 'pub, 'sig) ssh_keys \<Rightarrow> ('pub, 'cert) client_key_crates \<Rightarrow> ('pub, 'cert) offered_key \<Rightarrow> bytes rs list" where
  "offer_fields W S Q (OfferCertificate cert) =
     [w_str W (cert_type Q cert), and_then (cert_to_bytes Q cert) (w_bytes W)]"
| "offer_fields W S Q (OfferKey key hash_alg) =
     [w_str W (alg_str S (with_hash_alg (pub_algorithm Q key) hash_alg)), and_then (pub_to_bytes S key) (w_bytes W)]"

definition client_make_to_sign ::
    "wire \<Rightarrow> ('key, 'pub, 'sig) ssh_keys \<Rightarrow> ('pub, 'cert) client_key_crates \<Rightarrow> bytes \<Rightarrow> string \<Rightarrow> ('pub, 'cert) offered_key
      \<Rightarrow> (bytes \<times> nat) rs" where
  "client_make_to_sign W S Q session_id user key =
     and_then (puts [w_bytes W session_id] []) (\<lambda>buf.
     and_then (puts ([push USERAUTH_REQUEST, w_str W user, w_str W ''ssh-connection'', w_str W ''publickey'', w_u8 W 1]
                     @ offer_fields W S Q key) buf) (\<lambda>signed.
       Ok (signed, length buf)))"

text \<open>The signature goes after the request, and both are sent.\<close>

definition send_signed ::
    "wire \<Rightarrow> bytes \<Rightarrow> nat \<Rightarrow> bytes rs \<Rightarrow> 'z encrypted \<Rightarrow> (bytes \<times> 'z encrypted) rs" where
  "send_signed W buf i0 signature enc =
     and_then (and_then signature (w_bytes W)) (\<lambda>sig.
     and_then (slice_from i0 (buf @ sig)) (\<lambda>p.
     and_then (enc_push W [put_raw p] enc) (\<lambda>enc. Ok (buf @ sig, enc))))"

fun client_send_signature ::
    "wire \<Rightarrow> ('key, 'pub, 'sig) ssh_keys \<Rightarrow> ('pub, 'cert) client_key_crates \<Rightarrow> string \<Rightarrow> ('key, 'cert, 'pub) auth_method
      \<Rightarrow> bytes \<Rightarrow> 'z encrypted \<Rightarrow> (bytes \<times> 'z encrypted) rs" where
  "client_send_signature W S Q user (MethodPublicKey key) buf enc =
     and_then (client_make_to_sign W S Q (enc_session_id enc) user (offer_of_key S key)) (\<lambda>(buf, i0).
       send_signed W buf i0 (sign_with_hash_alg S key buf) enc)"
| "client_send_signature W S Q user (MethodOpenSshCertificate key cert) buf enc =
     and_then (client_make_to_sign W S Q (enc_session_id enc) user (OfferCertificate cert)) (\<lambda>(buf, i0).
       send_signed W buf i0 (try_sign S key buf) enc)"
| "client_send_signature W S Q user _ buf enc = Ok (buf, enc)"

text \<open>\<open>responses.len().try_into().unwrap_or(0) as u32\<close>, where the target type falls back to \<open>i32\<close>.\<close>

definition client_send_auth_response :: "wire \<Rightarrow> string list \<Rightarrow> 'z encrypted \<Rightarrow> 'z encrypted rs" where
  "client_send_auth_response W responses enc =
     enc_push W ([w_u8 W USERAUTH_INFO_RESPONSE,
         w_u32 W (if length responses < 2 ^ 31 then as_u32 (length responses) else 0)] @ map (w_str W) responses) enc"

text \<open>A request of the application to log in: the service is asked for once, over the packet writer, and
  the method's request is sent when the service is there.\<close>

definition ask_for_service ::
    "('st, 'z, 'key, 'pub, 'sig) env \<Rightarrow> ('st, 'z) packet_writer \<Rightarrow> 'z encrypted \<Rightarrow> (bool \<times> ('st, 'z) packet_writer \<times> 'z encrypted) rs" where
  "ask_for_service V w enc =
     (case enc_state enc of
        WaitingAuthRequest a \<Rightarrow> Ok (True, w, enc)
      | WaitingAuthServiceRequest sent accepted \<Rightarrow>
          if sent then Ok (accepted, w, enc)
          else and_then (packet (crates_of V) [w_u8 (env_wire V) SERVICE_REQUEST, w_str (env_wire V) ''ssh-userauth''] w)
                 (\<lambda>(_, w). Ok (accepted, w, enc\<lparr>enc_state := WaitingAuthServiceRequest True accepted\<rparr>))
      | InitCompression \<Rightarrow> Ok (False, w, enc)
      | Authenticated \<Rightarrow> Ok (False, w, enc))"

definition write_auth_request_if_needed ::
    "('st, 'z, 'key, 'pub, 'sig) env \<Rightarrow> ('pub, 'cert) client_key_crates \<Rightarrow> string \<Rightarrow> ('key, 'cert, 'pub) auth_method
      \<Rightarrow> ('st, 'z, 'key, 'cert, 'pub) client_session \<Rightarrow> (bool \<times> ('st, 'z, 'key, 'cert, 'pub) client_session) rs" where
  "write_auth_request_if_needed V Q user method s =
     (let keep = (\<lambda>s. s\<lparr>cl_common := (cl_common s)\<lparr>auth_user := user, auth_method := Some method\<rparr>\<rparr>) in
      case cl_encrypted s of
        None \<Rightarrow> Ok (False, keep s)
      | Some enc \<Rightarrow>
          and_then (ask_for_service V (packet_writer (cl_common s)) enc) (\<lambda>(is_waiting, w, enc).
          and_then (if is_waiting
                    then and_then (write_auth_request (env_wire V) (ssh_of V) Q user method enc) (\<lambda>enc.
                           Ok (enc\<lparr>enc_state := WaitingAuthRequest (auth_request_new method)\<rparr>))
                    else Ok enc) (\<lambda>enc.
            Ok (is_waiting, keep (s\<lparr>cl_common := (cl_common s)\<lparr>packet_writer := w, cs_encrypted := Some enc\<rparr>\<rparr>)))))"

section \<open>Extensions of the server\<close>

definition handle_server_sig_algs_ext ::
    "wire \<Rightarrow> ('pub, 'cert) client_key_crates \<Rightarrow> bytes \<Rightarrow> ('st, 'z, 'key, 'cert, 'pub) client_session
      \<Rightarrow> (bytes \<times> ('st, 'z, 'key, 'cert, 'pub) client_session) rs" where
  "handle_server_sig_algs_ext W Q r s =
     and_then (name_list_decode W r) (\<lambda>(algs, r).
       Ok (r, s\<lparr>cl_server_sig_algs := Some (List.map_filter (algorithm_from_str Q) algs)\<rparr>))"

definition received_extension :: "string \<Rightarrow> ('st, 'z, 'key, 'cert, 'pub) client_session
      \<Rightarrow> ('st, 'z, 'key, 'cert, 'pub) client_session" where
  "received_extension name s =
     (case cl_encrypted s of
        None \<Rightarrow> s
      | Some enc \<Rightarrow> cl_set_encrypted (enc\<lparr>received_extensions := received_extensions enc @ [name]\<rparr>) s)"

fun read_extensions ::
    "wire \<Rightarrow> ('pub, 'cert) client_key_crates \<Rightarrow> nat \<Rightarrow> bytes \<Rightarrow> ('st, 'z, 'key, 'cert, 'pub) client_session
      \<Rightarrow> ('st, 'z, 'key, 'cert, 'pub) client_session rs" where
  "read_extensions W Q 0 r s = Ok s"
| "read_extensions W Q (Suc n) r s =
     and_then (r_str W r) (\<lambda>(name, r).
     and_then (if name = ''server-sig-algs'' then handle_server_sig_algs_ext W Q r s
               else and_then (r_bytes W r) (\<lambda>(_, r). Ok (r, s))) (\<lambda>(r, s).
       read_extensions W Q n r (received_extension name s)))"

definition handle_ext_info ::
    "wire \<Rightarrow> ('pub, 'cert) client_key_crates \<Rightarrow> bytes \<Rightarrow> ('st, 'z, 'key, 'cert, 'pub) client_session
      \<Rightarrow> ('st, 'z, 'key, 'cert, 'pub) client_session rs" where
  "handle_ext_info W Q r s = and_then (r_u32 W r) (\<lambda>(n, r). read_extensions W Q (unat n) r s)"

section \<open>The packets of a server that authenticates\<close>

text \<open>\<open>loop { match self.receiver.recv().await { .. } }\<close>: the messages before the awaited one are dropped.\<close>

fun await_message :: "('m \<Rightarrow> 'a option) \<Rightarrow> 'm list \<Rightarrow> ('a \<times> 'm list) rs" where
  "await_message f [] = Err RecvError"
| "await_message f (m # ms) = (case f m of Some x \<Rightarrow> Ok (x, ms) | None \<Rightarrow> await_message f ms)"

fun info_responses :: "('key, 'cert, 'pub) client_msg \<Rightarrow> string list option" where
  "info_responses (MsgAuthInfoResponse responses) = Some responses"
| "info_responses _ = None"

fun signed_data :: "('key, 'cert, 'pub) client_msg \<Rightarrow> bytes option" where
  "signed_data (MsgSigned data) = Some data"
| "signed_data _ = None"

definition await_client ::
    "(('key, 'cert, 'pub) client_msg \<Rightarrow> 'a option) \<Rightarrow> ('st, 'z, 'key, 'cert, 'pub) client_session
      \<Rightarrow> ('a \<times> ('st, 'z, 'key, 'cert, 'pub) client_session) rs" where
  "await_client f s = and_then (await_message f (cl_receiver s)) (\<lambda>(x, ms). Ok (x, s\<lparr>cl_receiver := ms\<rparr>))"

fun read_prompts :: "wire \<Rightarrow> nat \<Rightarrow> bytes \<Rightarrow> (string \<times> bool) list rs" where
  "read_prompts W 0 r = Ok []"
| "read_prompts W (Suc n) r =
     and_then (r_str W r) (\<lambda>(prompt, r). and_then (r_u8 W r) (\<lambda>(echo, r).
     and_then (read_prompts W n r) (\<lambda>ps. Ok ((prompt, echo \<noteq> 0) # ps))))"

definition client_service_accept ::
    "('st, 'z, 'key, 'pub, 'sig) env \<Rightarrow> ('pub, 'cert) client_key_crates \<Rightarrow> bytes \<Rightarrow> bool \<Rightarrow> 'z encrypted
      \<Rightarrow> ('st, 'z, 'key, 'cert, 'pub) client_session \<Rightarrow> ('st, 'z, 'key, 'cert, 'pub) client_session rs" where
  "client_service_accept V Q r sent enc s =
     and_then (r_bytes (env_wire V) r) (\<lambda>(service, _).
       if service \<noteq> as_bytes ''ssh-userauth'' then Ok s
       else
         let enc = enc\<lparr>enc_state := WaitingAuthServiceRequest sent True\<rparr> in
         (case auth_method (cl_common s) of
            None \<Rightarrow> Ok (cl_set_encrypted enc s)
          | Some meth \<Rightarrow>
              and_then (write_auth_request (env_wire V) (ssh_of V) Q (auth_user (cl_common s)) meth enc) (\<lambda>enc.
                Ok (cl_set_encrypted (enc\<lparr>enc_state := WaitingAuthRequest (auth_request_new meth)\<rparr>) s))))"

definition client_userauth_success ::
    "('st, 'z, 'key, 'pub, 'sig) env \<Rightarrow> 'z encrypted \<Rightarrow> ('st, 'z, 'key, 'cert, 'pub) client_session
      \<Rightarrow> ('st, 'z, 'key, 'cert, 'pub) client_session rs" where
  "client_userauth_success V enc s =
     and_then (cl_reply RepAuthSuccess s) (\<lambda>s.
       Ok (cl_set_encrypted (enc\<lparr>enc_state := InitCompression,
             enc_decompress := init_decompress (flate_of (crates_of V)) (server_compression enc) (enc_decompress enc)\<rparr>) s))"

definition client_userauth_failure ::
    "wire \<Rightarrow> bytes \<Rightarrow> auth_request \<Rightarrow> 'z encrypted \<Rightarrow> ('st, 'z, 'key, 'cert, 'pub) client_session
      \<Rightarrow> ('st, 'z, 'key, 'cert, 'pub) client_session rs" where
  "client_userauth_failure W r a enc s =
     and_then (name_list_decode W r) (\<lambda>(names, r).
     and_then (r_u8 W r) (\<lambda>(partial_success, _).
       let ms = methods_from_names names;
           s = cl_set_encrypted (enc\<lparr>enc_state := WaitingAuthRequest (a\<lparr>methods := ms\<rparr>)\<rparr>) s;
           s = s\<lparr>cl_common := (cl_common s)\<lparr>auth_method := None\<rparr>\<rparr> in
     and_then (cl_reply (RepAuthFailure ms (partial_success \<noteq> 0)) s) (\<lambda>s.
       if ms = [] then Err NoAuthMethod else Ok s)))"

text \<open>The challenges of the keyboard-interactive method go to the application, whose responses are awaited.\<close>

definition client_info_request ::
    "wire \<Rightarrow> bytes \<Rightarrow> 'z encrypted \<Rightarrow> ('st, 'z, 'key, 'cert, 'pub) client_session
      \<Rightarrow> ('st, 'z, 'key, 'cert, 'pub) client_session rs" where
  "client_info_request W r enc s =
     and_then (r_str W r) (\<lambda>(name, r). and_then (r_str W r) (\<lambda>(instructions, r). and_then (r_str W r) (\<lambda>(_, r).
     and_then (r_u32 W r) (\<lambda>(n_prompts, r).
     and_then (read_prompts W (unat n_prompts) r) (\<lambda>prompts.
     and_then (cl_reply (RepAuthInfoRequest name instructions prompts) s) (\<lambda>s.
     and_then (await_client info_responses s) (\<lambda>(responses, s).
     and_then (client_send_auth_response W responses enc) (\<lambda>enc. Ok (cl_set_encrypted enc s)))))))))"

text \<open>The server would accept the key: the request is signed, here or by the application.\<close>

definition client_pk_ok ::
    "('st, 'z, 'key, 'pub, 'sig) env \<Rightarrow> ('pub, 'cert) client_key_crates \<Rightarrow> 'z encrypted
      \<Rightarrow> ('st, 'z, 'key, 'cert, 'pub) client_session \<Rightarrow> ('st, 'z, 'key, 'cert, 'pub) client_session rs" where
  "client_pk_ok V Q enc s =
     (let W = env_wire V; C = cl_common s; user = auth_user C;
          s = cl_set_encrypted enc (s\<lparr>cl_common := C\<lparr>auth_method := None\<rparr>\<rparr>);
          put = (\<lambda>buf enc s. cl_set_encrypted enc (s\<lparr>cl_common := (cl_common s)\<lparr>cs_buffer := buf\<rparr>\<rparr>)) in
      case auth_method C of
        Some (MethodFuturePublicKey key hash_alg) \<Rightarrow>
          and_then (client_make_to_sign W (ssh_of V) Q (enc_session_id enc) user (OfferKey key hash_alg)) (\<lambda>(buf, i).
          and_then (cl_reply (RepSignRequest key buf) s) (\<lambda>s.
          and_then (await_client signed_data s) (\<lambda>(data, s).
            if length data \<noteq> length buf then
              and_then (slice_from i data) (\<lambda>p. and_then (enc_push W [put_raw p] enc) (\<lambda>enc. Ok (put data enc s)))
            else Ok (put data enc s))))
      | Some meth \<Rightarrow>
          (case meth of
             MethodPublicKey _ \<Rightarrow>
               and_then (client_send_signature W (ssh_of V) Q user meth [] enc) (\<lambda>(buf, enc). Ok (put buf enc s))
           | MethodOpenSshCertificate _ _ \<Rightarrow>
               and_then (client_send_signature W (ssh_of V) Q user meth [] enc) (\<lambda>(buf, enc). Ok (put buf enc s))
           | _ \<Rightarrow> Ok s)
      | None \<Rightarrow> Ok s)"

definition client_info_or_pk_ok ::
    "('st, 'z, 'key, 'pub, 'sig) env \<Rightarrow> ('pub, 'cert) client_key_crates \<Rightarrow> bytes \<Rightarrow> auth_request \<Rightarrow> 'z encrypted
      \<Rightarrow> ('st, 'z, 'key, 'cert, 'pub) client_session \<Rightarrow> ('st, 'z, 'key, 'cert, 'pub) client_session rs" where
  "client_info_or_pk_ok V Q r a enc s =
     (case current a of
        Some (CurrentPublicKey key algo _) \<Rightarrow>
          client_pk_ok V Q (enc\<lparr>enc_state := WaitingAuthRequest (a\<lparr>current := Some (CurrentPublicKey key algo True)\<rparr>)\<rparr>) s
      | Some (CurrentKeyboardInteractive _) \<Rightarrow> client_info_request (env_wire V) r enc s
      | None \<Rightarrow> client_pk_ok V Q enc s)"

end
