(* ===== verification/ClientHandler.thy ===== *)
theory ClientHandler
  imports ClientAuth FlowControl
begin

text \<open>
  The messages of a server to a client that is logged in: \<open>client_read_authenticated\<close> of
  \<open>client/encrypted.rs\<close>, one definition per message. The handler is a parameter, a record of callbacks
  that may change the handler (\<open>'h\<close>) and the session (\<open>'s\<close>).
\<close>

section \<open>The handler\<close>

datatype disconnect_cause = ReceivedDisconnect disconnect_reason string string | DisconnectedByError error

record ('h, 'pub, 's) client_handler =
  c_auth_banner :: "'h \<Rightarrow> string \<Rightarrow> 's \<Rightarrow> ('h, 's) handled"
  c_check_server_key :: "'h \<Rightarrow> 'pub \<Rightarrow> (bool \<times> 'h) rs"
  c_kex_done :: "'h \<Rightarrow> bytes option \<Rightarrow> negotiated \<Rightarrow> 's \<Rightarrow> ('h, 's) handled"
  c_channel_open_confirmation :: "'h \<Rightarrow> channel_id \<Rightarrow> u32 \<Rightarrow> u32 \<Rightarrow> 's \<Rightarrow> ('h, 's) handled"
  c_channel_success :: "'h \<Rightarrow> channel_id \<Rightarrow> 's \<Rightarrow> ('h, 's) handled"
  c_channel_failure :: "'h \<Rightarrow> channel_id \<Rightarrow> 's \<Rightarrow> ('h, 's) handled"
  c_channel_close :: "'h \<Rightarrow> channel_id \<Rightarrow> 's \<Rightarrow> ('h, 's) handled"
  c_channel_eof :: "'h \<Rightarrow> channel_id \<Rightarrow> 's \<Rightarrow> ('h, 's) handled"
  c_channel_open_failure :: "'h \<Rightarrow> channel_id \<Rightarrow> channel_open_failure \<Rightarrow> string \<Rightarrow> string \<Rightarrow> 's \<Rightarrow> ('h, 's) handled"
  c_open_session :: "'h \<Rightarrow> channel \<Rightarrow> 's \<Rightarrow> ('h, 's) handled" \<comment> \<open>\<open>server_channel_open_session\<close>, and so on\<close>
  c_open_direct_tcpip :: "'h \<Rightarrow> channel \<Rightarrow> tcp_channel_info \<Rightarrow> 's \<Rightarrow> ('h, 's) handled"
  c_open_direct_streamlocal :: "'h \<Rightarrow> channel \<Rightarrow> string \<Rightarrow> 's \<Rightarrow> ('h, 's) handled"
  c_open_x11 :: "'h \<Rightarrow> channel \<Rightarrow> string \<Rightarrow> u32 \<Rightarrow> 's \<Rightarrow> ('h, 's) handled"
  c_open_forwarded_tcpip :: "'h \<Rightarrow> channel \<Rightarrow> tcp_channel_info \<Rightarrow> 's \<Rightarrow> ('h, 's) handled"
  c_open_forwarded_streamlocal :: "'h \<Rightarrow> channel \<Rightarrow> string \<Rightarrow> 's \<Rightarrow> ('h, 's) handled"
  c_open_agent_forward :: "'h \<Rightarrow> channel \<Rightarrow> 's \<Rightarrow> ('h, 's) handled"
  c_should_accept_unknown :: "'h \<Rightarrow> channel_id \<Rightarrow> string \<Rightarrow> bool \<times> 'h"
  c_open_unknown :: "'h \<Rightarrow> channel \<Rightarrow> 's \<Rightarrow> ('h, 's) handled"
  c_data :: "'h \<Rightarrow> channel_id \<Rightarrow> bytes \<Rightarrow> 's \<Rightarrow> ('h, 's) handled"
  c_extended_data :: "'h \<Rightarrow> channel_id \<Rightarrow> u32 \<Rightarrow> bytes \<Rightarrow> 's \<Rightarrow> ('h, 's) handled"
  c_xon_xoff :: "'h \<Rightarrow> channel_id \<Rightarrow> bool \<Rightarrow> 's \<Rightarrow> ('h, 's) handled"
  c_exit_status :: "'h \<Rightarrow> channel_id \<Rightarrow> u32 \<Rightarrow> 's \<Rightarrow> ('h, 's) handled"
  c_exit_signal :: "'h \<Rightarrow> channel_id \<Rightarrow> sig \<Rightarrow> bool \<Rightarrow> string \<Rightarrow> string \<Rightarrow> 's \<Rightarrow> ('h, 's) handled"
  c_window_adjusted :: "'h \<Rightarrow> channel_id \<Rightarrow> u32 \<Rightarrow> 's \<Rightarrow> ('h, 's) handled"
  c_adjust_window :: "'h \<Rightarrow> channel_id \<Rightarrow> u32 \<Rightarrow> u32 \<times> 'h"
  c_host_keys_announced :: "'h \<Rightarrow> 'pub list \<Rightarrow> 's \<Rightarrow> ('h, 's) handled"
  c_disconnected :: "'h \<Rightarrow> disconnect_cause \<Rightarrow> 'h rs"

text \<open>The record over the client's session.\<close>

type_synonym ('h, 'st, 'z, 'key, 'cert, 'pub) app =
  "('h, 'pub, ('st, 'z, 'key, 'cert, 'pub) client_session) client_handler"

type_synonym ('h, 'st, 'z, 'key, 'cert, 'pub) served =
  "('h, ('st, 'z, 'key, 'cert, 'pub) client_session) handled"

definition cl_to_channel ::
    "channel_id \<Rightarrow> channel_msg \<Rightarrow> ('st, 'z, 'key, 'cert, 'pub) client_session
      \<Rightarrow> ('st, 'z, 'key, 'cert, 'pub) client_session" where
  "cl_to_channel c m s =
     (case cl_channels s c of
        None \<Rightarrow> s
      | Some ref \<Rightarrow> s\<lparr>cl_channels := (cl_channels s)(c \<mapsto> send_ignoring m ref)\<rparr>)"

section \<open>Channels opened by the client\<close>

definition clt_open_confirmation ::
    "wire \<Rightarrow> ('h, 'st, 'z, 'key, 'cert, 'pub) app \<Rightarrow> bytes \<Rightarrow> 'h \<Rightarrow> ('st, 'z, 'key, 'cert, 'pub) client_session
      \<Rightarrow> ('h, 'st, 'z, 'key, 'cert, 'pub) served" where
  "clt_open_confirmation W H r h s =
     and_then (decode_open_confirmation W r) (\<lambda>(m, _).
       let c = ChannelId (coc_recipient_channel m) in
       (case cl_encrypted s of
          None \<Rightarrow> Err Inconsistent
        | Some enc \<Rightarrow>
            (case channels enc c of
               None \<Rightarrow> Err Inconsistent
             | Some ch \<Rightarrow>
                 let s = cl_set_encrypted (enc\<lparr>channels := (channels enc)(c \<mapsto> confirm_channel m ch)\<rparr>) s in
                 c_channel_open_confirmation H h c (coc_maximum_packet_size m) (coc_initial_window_size m)
                   (cl_to_channel c (CmOpen c (coc_maximum_packet_size m) (coc_initial_window_size m)) s))))"

text \<open>The reason also goes to the waiting handle, over the reference that is dropped here (\<open>wait_confirmation\<close> of
  \<open>ChannelHandle\<close>); a failure to send it is ignored.\<close>

definition clt_open_failure ::
    "wire \<Rightarrow> ('h, 'st, 'z, 'key, 'cert, 'pub) app \<Rightarrow> bytes \<Rightarrow> 'h \<Rightarrow> ('st, 'z, 'key, 'cert, 'pub) client_session
      \<Rightarrow> ('h, 'st, 'z, 'key, 'cert, 'pub) served" where
  "clt_open_failure W H r h s =
     and_then (decode_channel_id W r) (\<lambda>(c, r).
     and_then (r_u32 W r) (\<lambda>(code, r).
       let reason = (case channel_open_failure_from_u32 code of Some f \<Rightarrow> f | None \<Rightarrow> UnknownFailure) in
     and_then (r_str W r) (\<lambda>(descr, r).
     and_then (r_str W r) (\<lambda>(language, _).
     and_then (cl_with_enc (\<lambda>enc. Ok (enc\<lparr>channels := (channels enc)(c := None)\<rparr>)) s) (\<lambda>s.
       let s = s\<lparr>cl_channels := (cl_channels s)(c := None)\<rparr>;
           s = (case cl_reply RepChannelOpenFailure s of Ok s \<Rightarrow> s | _ \<Rightarrow> s) in
       c_channel_open_failure H h c reason descr language s)))))"

section \<open>Channels closed, ended, fed\<close>

definition clt_channel_close ::
    "wire \<Rightarrow> ('h, 'st, 'z, 'key, 'cert, 'pub) app \<Rightarrow> bytes \<Rightarrow> 'h \<Rightarrow> ('st, 'z, 'key, 'cert, 'pub) client_session
      \<Rightarrow> ('h, 'st, 'z, 'key, 'cert, 'pub) served" where
  "clt_channel_close W H r h s =
     and_then (decode_channel_id W r) (\<lambda>(c, _).
     and_then (cl_with_enc (enc_close W c) s) (\<lambda>s.
       c_channel_close H h c (s\<lparr>cl_channels := (cl_channels s)(c := None)\<rparr>)))"

definition clt_channel_eof ::
    "wire \<Rightarrow> ('h, 'st, 'z, 'key, 'cert, 'pub) app \<Rightarrow> bytes \<Rightarrow> 'h \<Rightarrow> ('st, 'z, 'key, 'cert, 'pub) client_session
      \<Rightarrow> ('h, 'st, 'z, 'key, 'cert, 'pub) served" where
  "clt_channel_eof W H r h s =
     and_then (decode_channel_id W r) (\<lambda>(c, _). c_channel_eof H h c (cl_to_channel c CmEof s))"

text \<open>The window is kept at the configured size, whatever the handler answers.\<close>

definition cl_account_data ::
    "wire \<Rightarrow> ('h, 'st, 'z, 'key, 'cert, 'pub) app \<Rightarrow> channel_id \<Rightarrow> bytes \<Rightarrow> 'h
      \<Rightarrow> ('st, 'z, 'key, 'cert, 'pub) client_session \<Rightarrow> ('h, 'st, 'z, 'key, 'cert, 'pub) served" where
  "cl_account_data W H c data h s =
     (case cl_encrypted s of
        None \<Rightarrow> Ok (h, s)
      | Some enc \<Rightarrow>
          and_then (adjust_window_size W c data (cc_window_size (cl_config s)) enc) (\<lambda>(adjusted, enc).
            let s = cl_set_encrypted enc s in
            if adjusted then
              (case c_adjust_window H h c (cl_target_window_size s) of
                 (next_window, h) \<Rightarrow> Ok (h, if 0 < next_window then s\<lparr>cl_target_window_size := next_window\<rparr> else s))
            else Ok (h, s)))"

definition clt_channel_data ::
    "wire \<Rightarrow> ('h, 'st, 'z, 'key, 'cert, 'pub) app \<Rightarrow> bytes \<Rightarrow> 'h \<Rightarrow> ('st, 'z, 'key, 'cert, 'pub) client_session
      \<Rightarrow> ('h, 'st, 'z, 'key, 'cert, 'pub) served" where
  "clt_channel_data W H r h s =
     and_then (decode_channel_id W r) (\<lambda>(c, r).
     and_then (r_bytes W r) (\<lambda>(data, _).
     and_then (cl_account_data W H c data h s) (\<lambda>(h, s).
       c_data H h c data (cl_to_channel c (CmData data) s))))"

definition clt_channel_extended_data ::
    "wire \<Rightarrow> ('h, 'st, 'z, 'key, 'cert, 'pub) app \<Rightarrow> bytes \<Rightarrow> 'h \<Rightarrow> ('st, 'z, 'key, 'cert, 'pub) client_session
      \<Rightarrow> ('h, 'st, 'z, 'key, 'cert, 'pub) served" where
  "clt_channel_extended_data W H r h s =
     and_then (decode_channel_id W r) (\<lambda>(c, r).
     and_then (r_u32 W r) (\<lambda>(ext, r).
     and_then (r_bytes W r) (\<lambda>(data, _).
     and_then (cl_account_data W H c data h s) (\<lambda>(h, s).
       c_extended_data H h c ext data (cl_to_channel c (CmExtendedData data ext) s)))))"

definition clt_window_adjust ::
    "wire \<Rightarrow> ('h, 'st, 'z, 'key, 'cert, 'pub) app \<Rightarrow> bytes \<Rightarrow> 'h \<Rightarrow> ('st, 'z, 'key, 'cert, 'pub) client_session
      \<Rightarrow> ('h, 'st, 'z, 'key, 'cert, 'pub) served" where
  "clt_window_adjust W H r h s =
     and_then (decode_channel_id W r) (\<lambda>(c, r).
     and_then (r_u32 W r) (\<lambda>(amount, _).
     and_then (case cl_encrypted s of
                 None \<Rightarrow> Ok (Some 0, s)
               | Some enc \<Rightarrow> and_then (client_window_adjust W c amount enc) (\<lambda>(n, enc). Ok (n, cl_set_encrypted enc s)))
       (\<lambda>(adjusted, s).
         case adjusted of
           None \<Rightarrow> Ok (h, s)
         | Some new_size \<Rightarrow>
             c_window_adjusted H h c new_size
               (case cl_channels s c of
                  None \<Rightarrow> s
                | Some ref \<Rightarrow>
                    let ref = window_update new_size ref in
                    s\<lparr>cl_channels := (cl_channels s)(c \<mapsto>
                      (case chan_try_send (CmWindowAdjusted new_size) ref of Ok ref \<Rightarrow> ref | _ \<Rightarrow> ref))\<rparr>))))"

section \<open>Requests and their answers\<close>

text \<open>A request that the client answers itself. The number that goes into the answer is its own.\<close>

definition answer_request ::
    "wire \<Rightarrow> u8 \<Rightarrow> channel_id \<Rightarrow> u8 \<Rightarrow> ('st, 'z, 'key, 'cert, 'pub) client_session
      \<Rightarrow> ('st, 'z, 'key, 'cert, 'pub) client_session rs" where
  "answer_request W msg c wants s =
     (if wants \<noteq> 1 \<or> cl_encrypted s = None then Ok s
      else cl_with_enc (enc_push W [w_u8 W msg, encode_channel_id W c]) (s\<lparr>cl_common := (cl_common s)\<lparr>wants_reply := False\<rparr>\<rparr>))"

definition clt_exit_signal ::
    "wire \<Rightarrow> ('h, 'st, 'z, 'key, 'cert, 'pub) app \<Rightarrow> channel_id \<Rightarrow> bytes \<Rightarrow> 'h
      \<Rightarrow> ('st, 'z, 'key, 'cert, 'pub) client_session \<Rightarrow> ('h, 'st, 'z, 'key, 'cert, 'pub) served" where
  "clt_exit_signal W H c r h s =
     and_then (r_u8 W r) (\<lambda>(_, r). and_then (r_str W r) (\<lambda>(name, r). and_then (r_u8 W r) (\<lambda>(core_dumped, r).
     and_then (r_str W r) (\<lambda>(error_message, r). and_then (r_str W r) (\<lambda>(lang_tag, _).
       let signal = sig_from_name name in
       c_exit_signal H h c signal (core_dumped \<noteq> 0) error_message lang_tag
         (cl_to_channel c (CmExitSignal signal (core_dumped \<noteq> 0) error_message lang_tag) s))))))"

definition clt_channel_request ::
    "wire \<Rightarrow> ('h, 'st, 'z, 'key, 'cert, 'pub) app \<Rightarrow> bytes \<Rightarrow> 'h \<Rightarrow> ('st, 'z, 'key, 'cert, 'pub) client_session
      \<Rightarrow> ('h, 'st, 'z, 'key, 'cert, 'pub) served" where
  "clt_channel_request W H r h s =
     and_then (decode_channel_id W r) (\<lambda>(c, r).
     and_then (r_str W r) (\<lambda>(req, r).
       if req = ''xon-xoff'' then
         and_then (r_u8 W r) (\<lambda>(_, r). and_then (r_u8 W r) (\<lambda>(can_do, _).
           c_xon_xoff H h c (can_do \<noteq> 0) (cl_to_channel c (CmXonXoff (can_do \<noteq> 0)) s)))
       else if req = ''exit-status'' then
         and_then (r_u8 W r) (\<lambda>(_, r). and_then (r_u32 W r) (\<lambda>(exit_status, _).
           c_exit_status H h c exit_status (cl_to_channel c (CmExitStatus exit_status) s)))
       else if req = ''exit-signal'' then clt_exit_signal W H c r h s
       else
         and_then (r_u8 W r) (\<lambda>(wants, _).
         and_then (answer_request W (if req = ''keepalive@openssh.com'' then CHANNEL_SUCCESS else CHANNEL_FAILURE) c wants s)
           (\<lambda>s. Ok (h, s)))))"

text \<open>The host keys that a server announces, to the end of the packet; a key that cannot be read is passed
  over. The loop ends when the decoder says that bytes are missing.\<close>

partial_function (option) announced_keys ::
    "wire \<Rightarrow> ('key, 'pub, 'sig) ssh_keys \<Rightarrow> bytes \<Rightarrow> 'pub list \<Rightarrow> 'pub list rs option" where
  "announced_keys W S r keys =
     (case r_bytes W r of
        Ok (key, r) \<Rightarrow> announced_keys W S r (case parse_public_key S key of Ok k \<Rightarrow> keys @ [k] | _ \<Rightarrow> keys)
      | Err e \<Rightarrow> Some (if e = SshEncoding True then Ok keys else Err e)
      | Panic \<Rightarrow> Some Panic
      | Diverges \<Rightarrow> Some Diverges)"

definition clt_global_request ::
    "('st, 'z, 'key, 'pub, 'sig) env \<Rightarrow> ('h, 'st, 'z, 'key, 'cert, 'pub) app \<Rightarrow> bytes \<Rightarrow> 'h
      \<Rightarrow> ('st, 'z, 'key, 'cert, 'pub) client_session \<Rightarrow> ('h, 'st, 'z, 'key, 'cert, 'pub) served" where
  "clt_global_request V H r h s =
     (let W = env_wire V; no_reply = (\<lambda>s. s\<lparr>cl_common := (cl_common s)\<lparr>wants_reply := False\<rparr>\<rparr>);
          unseen = (\<lambda>s. Ok (h, s\<lparr>cl_common := (cl_common s)\<lparr>received_data := False\<rparr>\<rparr>)) in
      and_then (r_str W r) (\<lambda>(req, r).
      and_then (r_u8 W r) (\<lambda>(wants, r).
        if cl_encrypted s = None then unseen s
        else if take 9 req = ''keepalive'' then
          and_then (if wants = 1 then cl_with_enc (enc_push W [push REQUEST_SUCCESS]) (no_reply s) else Ok s) unseen
        else if req = ''hostkeys-00@openssh.com'' then
          (case announced_keys W (ssh_of V) r [] of
             None \<Rightarrow> Diverges
           | Some res \<Rightarrow> and_then res (\<lambda>keys. c_host_keys_announced H h keys s))
        else and_then (cl_with_enc (enc_push W [push REQUEST_FAILURE]) (no_reply s)) unseen)))"

definition clt_request_success ::
    "wire \<Rightarrow> bytes \<Rightarrow> 'h \<Rightarrow> ('st, 'z, 'key, 'cert, 'pub) client_session
      \<Rightarrow> ('h, 'st, 'z, 'key, 'cert, 'pub) served" where
  "clt_request_success W r h s =
     (case cl_open_global_requests s of
        [] \<Rightarrow> Ok (h, s)
      | q # qs \<Rightarrow>
          let s = s\<lparr>cl_open_global_requests := qs\<rparr> in
          (case q of
             GrKeepalive \<Rightarrow> Ok (h, s)
           | GrPing c \<Rightarrow> Ok (h, cl_answer c AnsPong s)
           | GrNoMoreSessions \<Rightarrow> Ok (h, s)
           | GrTcpIpForward c \<Rightarrow>
               Ok (h, cl_answer c (AnsPort (if r = [] then Some 0 else (case r_u32 W r of Ok (port, _) \<Rightarrow> Some port | _ \<Rightarrow> None))) s)
           | GrCancelTcpIpForward c \<Rightarrow> Ok (h, cl_answer c (AnsBool True) s)
           | GrStreamLocalForward c \<Rightarrow> Ok (h, cl_answer c (AnsBool True) s)
           | GrCancelStreamLocalForward c \<Rightarrow> Ok (h, cl_answer c (AnsBool True) s)))"

definition clt_request_failure ::
    "'h \<Rightarrow> ('st, 'z, 'key, 'cert, 'pub) client_session \<Rightarrow> ('h, 'st, 'z, 'key, 'cert, 'pub) served" where
  "clt_request_failure h s =
     (case cl_open_global_requests s of
        [] \<Rightarrow> Ok (h, s)
      | q # qs \<Rightarrow>
          let s = s\<lparr>cl_open_global_requests := qs\<rparr> in
          (case q of
             GrKeepalive \<Rightarrow> Ok (h, s)
           | GrPing c \<Rightarrow> Ok (h, cl_answer c AnsPong s)
           | GrNoMoreSessions \<Rightarrow> Ok (h, s)
           | GrTcpIpForward c \<Rightarrow> Ok (h, cl_answer c (AnsPort None) s)
           | GrCancelTcpIpForward c \<Rightarrow> Ok (h, cl_answer c (AnsBool False) s)
           | GrStreamLocalForward c \<Rightarrow> Ok (h, cl_answer c (AnsBool False) s)
           | GrCancelStreamLocalForward c \<Rightarrow> Ok (h, cl_answer c (AnsBool False) s)))"

section \<open>Channels opened by the server\<close>

definition accept_server_initiated_channel ::
    "channel_id \<Rightarrow> open_channel \<Rightarrow> ('st, 'z, 'key, 'cert, 'pub) client_session
      \<Rightarrow> channel \<times> ('st, 'z, 'key, 'cert, 'pub) client_session" where
  "accept_server_initiated_channel c m s =
     (case channel_new c (oc_recipient_maximum_packet_size m) (oc_recipient_window_size m)
             (cc_channel_buffer_size (cl_config s)) of
        (chan, ref) \<Rightarrow> (chan, s\<lparr>cl_channels := (cl_channels s)(c \<mapsto> ref)\<rparr>))"

definition cl_opened_params :: "client_config \<Rightarrow> open_channel \<Rightarrow> channel_id \<Rightarrow> channel_params" where
  "cl_opened_params cfg m c = \<lparr>recipient_channel = oc_recipient_channel m, sender_channel = c,
     recipient_window_size = oc_recipient_window_size m, sender_window_size = cc_window_size cfg,
     recipient_maximum_packet_size = oc_recipient_maximum_packet_size m,
     sender_maximum_packet_size = cc_maximum_packet_size cfg, confirmed = True, chan_wants_reply = False,
     pending_data = [], pending_eof = False, pending_close = False\<rparr>"

text \<open>The channel is confirmed and entered before the handler hears of it.\<close>

definition confirm_and_tell ::
    "wire \<Rightarrow> open_channel \<Rightarrow> channel_params
      \<Rightarrow> (channel \<Rightarrow> ('st, 'z, 'key, 'cert, 'pub) client_session \<Rightarrow> ('h, 'st, 'z, 'key, 'cert, 'pub) served)
      \<Rightarrow> ('st, 'z, 'key, 'cert, 'pub) client_session \<Rightarrow> ('h, 'st, 'z, 'key, 'cert, 'pub) served" where
  "confirm_and_tell W m ch tell s =
     and_then (cl_with_enc (\<lambda>enc.
         and_then (open_confirm W m (channel_num (sender_channel ch)) (sender_window_size ch)
                    (sender_maximum_packet_size ch) (enc_write enc)) (\<lambda>w.
           Ok (enc\<lparr>enc_write := w, channels := (channels enc)(sender_channel ch \<mapsto> ch)\<rparr>))) s) (\<lambda>s.
       case accept_server_initiated_channel (sender_channel ch) m s of (chan, s) \<Rightarrow> tell chan s)"

definition clt_channel_open ::
    "wire \<Rightarrow> ('h, 'st, 'z, 'key, 'cert, 'pub) app \<Rightarrow> bytes \<Rightarrow> 'h \<Rightarrow> ('st, 'z, 'key, 'cert, 'pub) client_session
      \<Rightarrow> ('h, 'st, 'z, 'key, 'cert, 'pub) served" where
  "clt_channel_open W H r h s =
     and_then (parse_open_channel W r) (\<lambda>(m, _).
       case cl_encrypted s of
         None \<Rightarrow> Err Inconsistent
       | Some enc \<Rightarrow>
           and_then (new_channel_id enc) (\<lambda>(c, enc).
             let s = cl_set_encrypted enc s; ch = cl_opened_params (cl_config s) m c in
             (case oc_typ m of
                CT_Session \<Rightarrow> confirm_and_tell W m ch (c_open_session H h) s
              | CT_DirectTcpip d \<Rightarrow> confirm_and_tell W m ch (\<lambda>chan. c_open_direct_tcpip H h chan d) s
              | CT_DirectStreamLocal path \<Rightarrow> confirm_and_tell W m ch (\<lambda>chan. c_open_direct_streamlocal H h chan path) s
              | CT_X11 address port \<Rightarrow> confirm_and_tell W m ch (\<lambda>chan. c_open_x11 H h chan address port) s
              | CT_ForwardedTcpIp d \<Rightarrow> confirm_and_tell W m ch (\<lambda>chan. c_open_forwarded_tcpip H h chan d) s
              | CT_ForwardedStreamLocal path \<Rightarrow>
                  confirm_and_tell W m ch (\<lambda>chan. c_open_forwarded_streamlocal H h chan path) s
              | CT_AgentForward \<Rightarrow> confirm_and_tell W m ch (c_open_agent_forward H h) s
              | CT_Unknown typ \<Rightarrow>
                  (case c_should_accept_unknown H h c typ of
                     (accepts, h) \<Rightarrow>
                       if accepts then confirm_and_tell W m ch (c_open_unknown H h) s
                       else and_then (cl_with_enc (\<lambda>enc. and_then (open_unknown_type W m (enc_write enc))
                                        (\<lambda>w. Ok (enc\<lparr>enc_write := w\<rparr>))) s) (\<lambda>s. Ok (h, s))))))"

section \<open>Dispatch\<close>

definition clt_channel_answer ::
    "wire \<Rightarrow> channel_msg \<Rightarrow> ('h \<Rightarrow> channel_id \<Rightarrow> ('st, 'z, 'key, 'cert, 'pub) client_session
        \<Rightarrow> ('h, 'st, 'z, 'key, 'cert, 'pub) served) \<Rightarrow> bytes \<Rightarrow> 'h
      \<Rightarrow> ('st, 'z, 'key, 'cert, 'pub) client_session \<Rightarrow> ('h, 'st, 'z, 'key, 'cert, 'pub) served" where
  "clt_channel_answer W m tell r h s =
     and_then (decode_channel_id W r) (\<lambda>(c, _). tell h c (cl_to_channel c m s))"

definition client_read_authenticated ::
    "('st, 'z, 'key, 'pub, 'sig) env \<Rightarrow> ('h, 'st, 'z, 'key, 'cert, 'pub) app \<Rightarrow> bytes \<Rightarrow> 'h
      \<Rightarrow> ('st, 'z, 'key, 'cert, 'pub) client_session \<Rightarrow> ('h, 'st, 'z, 'key, 'cert, 'pub) served" where
  "client_read_authenticated V H buf h s =
     (let W = env_wire V in
      case buf of
        [] \<Rightarrow> Ok (h, s)
      | msg # r \<Rightarrow>
          if msg = CHANNEL_OPEN_CONFIRMATION then clt_open_confirmation W H r h s
          else if msg = CHANNEL_CLOSE then clt_channel_close W H r h s
          else if msg = CHANNEL_EOF then clt_channel_eof W H r h s
          else if msg = CHANNEL_OPEN_FAILURE then clt_open_failure W H r h s
          else if msg = CHANNEL_DATA then clt_channel_data W H r h s
          else if msg = CHANNEL_EXTENDED_DATA then clt_channel_extended_data W H r h s
          else if msg = CHANNEL_REQUEST then clt_channel_request W H r h s
          else if msg = CHANNEL_WINDOW_ADJUST then clt_window_adjust W H r h s
          else if msg = GLOBAL_REQUEST then clt_global_request V H r h s
          else if msg = CHANNEL_SUCCESS then clt_channel_answer W CmSuccess (c_channel_success H) r h s
          else if msg = CHANNEL_FAILURE then clt_channel_answer W CmFailure (c_channel_failure H) r h s
          else if msg = CHANNEL_OPEN then clt_channel_open W H r h s
          else if msg = REQUEST_SUCCESS then clt_request_success W r h s
          else if msg = REQUEST_FAILURE then clt_request_failure h s
          else Ok (h, s))"

end
