(* ===== verification/ClientLoop.thy ===== *)
theory ClientLoop
  imports ClientHandler
begin

text \<open>
  How the client treats a packet and a message of its application: \<open>process_packet\<close> of
  \<open>client/encrypted.rs\<close>, \<open>handle_msg\<close>, \<open>reply\<close> and one round of the event loop of \<open>client/mod.rs\<close> (\<open>run_inner\<close>, of
  which the browser's build has a copy). \<open>now\<close> is the clock, \<open>order\<close> the order in which the map of channels
  is walked. While a packet is handled the opening cipher is the one in the session (the loop swaps it
  in and out).
\<close>

section \<open>\<open>process_packet\<close>\<close>

definition client_waiting_auth ::
    "('st, 'z, 'key, 'pub, 'sig) env \<Rightarrow> ('pub, 'cert) client_key_crates \<Rightarrow> ('h, 'st, 'z, 'key, 'cert, 'pub) app
      \<Rightarrow> u8 \<Rightarrow> bytes \<Rightarrow> auth_request \<Rightarrow> 'z encrypted \<Rightarrow> 'h \<Rightarrow> ('st, 'z, 'key, 'cert, 'pub) client_session
      \<Rightarrow> ('h, 'st, 'z, 'key, 'cert, 'pub) served" where
  "client_waiting_auth V Q H msg r a enc h s =
     (let W = env_wire V; quietly = (\<lambda>res. and_then res (\<lambda>s. Ok (h, s))) in
      if msg = USERAUTH_SUCCESS then quietly (client_userauth_success V enc s)
      else if msg = USERAUTH_BANNER then and_then (r_str W r) (\<lambda>(banner, _). c_auth_banner H h banner s)
      else if msg = USERAUTH_FAILURE then quietly (client_userauth_failure W r a enc s)
      else if msg = USERAUTH_INFO_REQUEST_OR_USERAUTH_PK_OK then quietly (client_info_or_pk_ok V Q r a enc s)
      else if msg = EXT_INFO then quietly (handle_ext_info W Q r s)
      else Err Inconsistent)"

definition client_process_packet ::
    "('st, 'z, 'key, 'pub, 'sig) env \<Rightarrow> ('pub, 'cert) client_key_crates \<Rightarrow> ('h, 'st, 'z, 'key, 'cert, 'pub) app
      \<Rightarrow> bytes \<Rightarrow> 'h \<Rightarrow> ('st, 'z, 'key, 'cert, 'pub) client_session \<Rightarrow> ('h, 'st, 'z, 'key, 'cert, 'pub) served" where
  "client_process_packet V Q H buf h s =
     (case cl_encrypted s of
        None \<Rightarrow> Ok (h, s)
      | Some enc \<Rightarrow>
          (case enc_state enc of
             WaitingAuthServiceRequest sent accepted \<Rightarrow>
               (case buf of
                  [] \<Rightarrow> Err Inconsistent
                | msg # r \<Rightarrow>
                    if msg = SERVICE_ACCEPT then and_then (client_service_accept V Q r sent enc s) (\<lambda>s. Ok (h, s))
                    else if msg = EXT_INFO then and_then (handle_ext_info (env_wire V) Q r s) (\<lambda>s. Ok (h, s))
                    else Err Inconsistent)
           | WaitingAuthRequest a \<Rightarrow>
               (case buf of [] \<Rightarrow> Err Inconsistent | msg # r \<Rightarrow> client_waiting_auth V Q H msg r a enc h s)
           | InitCompression \<Rightarrow> Panic
           | Authenticated \<Rightarrow> client_read_authenticated V H buf h s))"

fun client_process_pending ::
    "('st, 'z, 'key, 'pub, 'sig) env \<Rightarrow> ('pub, 'cert) client_key_crates \<Rightarrow> ('h, 'st, 'z, 'key, 'cert, 'pub) app
      \<Rightarrow> bytes list \<Rightarrow> 'h \<Rightarrow> ('st, 'z, 'key, 'cert, 'pub) client_session \<Rightarrow> ('h, 'st, 'z, 'key, 'cert, 'pub) served" where
  "client_process_pending V Q H [] h s = Ok (h, s)"
| "client_process_pending V Q H (p # ps) h s =
     and_then (client_process_packet V Q H p h s) (\<lambda>(h, s). client_process_pending V Q H ps h s)"

section \<open>Messages of the application\<close>

text \<open>A channel's message; the others are \<open>unimplemented!\<close>.\<close>

fun client_channel_message ::
    "wire \<Rightarrow> channel_id \<Rightarrow> channel_msg \<Rightarrow> ('st, 'z, 'key, 'cert, 'pub) client_session
      \<Rightarrow> ('st, 'z, 'key, 'cert, 'pub) client_session rs" where
  "client_channel_message W c (CmData data) s = cl_data W c data s"
| "client_channel_message W c CmEof s = cl_eof W c s"
| "client_channel_message W c (CmExtendedData data ext) s = cl_extended_data W c ext data s"
| "client_channel_message W c (CmRequestPty want_reply term cw rh pw ph terminal_modes) s =
     cl_request_pty W c want_reply term cw rh pw ph terminal_modes s"
| "client_channel_message W c (CmWindowChange cw rh pw ph) s = cl_window_change W c cw rh pw ph s"
| "client_channel_message W c (CmRequestX11 want_reply single protocol cookie screen_number) s =
     cl_request_x11 W c want_reply single protocol cookie screen_number s"
| "client_channel_message W c (CmSetEnv want_reply name val) s = cl_set_env W c want_reply name val s"
| "client_channel_message W c (CmRequestShell want_reply) s = cl_request_shell W want_reply c s"
| "client_channel_message W c (CmExec want_reply command) s = cl_exec W c want_reply command s"
| "client_channel_message W c (CmSignal signal) s = cl_signal W c signal s"
| "client_channel_message W c (CmRequestSubsystem want_reply name) s = cl_request_subsystem W want_reply c name s"
| "client_channel_message W c (CmAgentForward want_reply) s = cl_agent_forward W c want_reply s"
| "client_channel_message W c CmClose s = cl_close W c s"
| "client_channel_message W c _ s = Panic"

definition cl_keep_ref ::
    "channel_ref \<Rightarrow> (channel_id \<times> ('st, 'z, 'key, 'cert, 'pub) client_session) rs
      \<Rightarrow> ('st, 'z, 'key, 'cert, 'pub) client_session rs" where
  "cl_keep_ref ref opened = and_then opened (\<lambda>(c, s). Ok (s\<lparr>cl_channels := (cl_channels s)(c \<mapsto> ref)\<rparr>))"

text \<open>\<open>let _ = self.send_keepalive(..)\<close>: an error, which only the encoding could raise, is ignored.\<close>

definition ignoring ::
    "(('st, 'z, 'key, 'cert, 'pub) client_session \<Rightarrow> ('st, 'z, 'key, 'cert, 'pub) client_session rs)
      \<Rightarrow> ('st, 'z, 'key, 'cert, 'pub) client_session \<Rightarrow> ('st, 'z, 'key, 'cert, 'pub) client_session rs" where
  "ignoring f s = (case f s of Err _ \<Rightarrow> Ok s | res \<Rightarrow> res)"

fun handle_msg ::
    "('st, 'z, 'key, 'pub, 'sig) env \<Rightarrow> ('pub, 'cert) client_key_crates \<Rightarrow> nat \<Rightarrow> ('key, 'cert, 'pub) client_msg
      \<Rightarrow> ('st, 'z, 'key, 'cert, 'pub) client_session \<Rightarrow> ('st, 'z, 'key, 'cert, 'pub) client_session rs" where
  "handle_msg V Q now (MsgAuthenticate user method) s =
     and_then (write_auth_request_if_needed V Q user method s) (\<lambda>(_, s). Ok s)"
| "handle_msg V Q now (MsgSigned _) s = Ok s"
| "handle_msg V Q now (MsgAuthInfoResponse _) s = Ok s"
| "handle_msg V Q now (MsgChannelOpenSession ref) s = cl_keep_ref ref (cl_channel_open_session (env_wire V) s)"
| "handle_msg V Q now (MsgChannelOpenX11 originator oport ref) s =
     cl_keep_ref ref (cl_channel_open_x11 (env_wire V) originator oport s)"
| "handle_msg V Q now (MsgChannelOpenDirectTcpIp host port originator oport ref) s =
     cl_keep_ref ref (cl_channel_open_direct_tcpip (env_wire V) host port originator oport s)"
| "handle_msg V Q now (MsgChannelOpenDirectStreamLocal path ref) s =
     cl_keep_ref ref (cl_channel_open_direct_streamlocal (env_wire V) path s)"
| "handle_msg V Q now (MsgTcpIpForward reply_channel address port) s =
     cl_tcpip_forward (env_wire V) reply_channel address port s"
| "handle_msg V Q now (MsgCancelTcpIpForward reply_channel address port) s =
     cl_cancel_tcpip_forward (env_wire V) reply_channel address port s"
| "handle_msg V Q now (MsgStreamLocalForward reply_channel path) s =
     cl_streamlocal_forward (env_wire V) reply_channel path s"
| "handle_msg V Q now (MsgCancelStreamLocalForward reply_channel path) s =
     cl_cancel_streamlocal_forward (env_wire V) reply_channel path s"
| "handle_msg V Q now (MsgDisconnect reason description language_tag) s =
     cl_disconnect (env_wire V) reason description language_tag s"
| "handle_msg V Q now (MsgChannel c m) s = client_channel_message (env_wire V) c m s"
| "handle_msg V Q now MsgRekey s = cl_initiate_rekey V now s"
| "handle_msg V Q now (MsgAwaitExtensionInfo _ _) s = Ok s" \<comment> \<open>only the notification handles change\<close>
| "handle_msg V Q now (MsgGetServerSigAlgs reply_channel) s =
     Ok (s\<lparr>cl_sig_algs_sent := cl_sig_algs_sent s @ [(reply_channel, cl_server_sig_algs s)]\<rparr>)"
| "handle_msg V Q now (MsgKeepalive want_reply) s = ignoring (cl_send_keepalive (env_wire V) want_reply) s"
| "handle_msg V Q now (MsgPing reply_channel) s = ignoring (cl_send_ping (env_wire V) reply_channel) s"
| "handle_msg V Q now (MsgNoMoreSessions want_reply) s = ignoring (cl_no_more_sessions (env_wire V) want_reply) s"
| "handle_msg V Q now (MsgClose _) s = Panic"

section \<open>\<open>reply\<close>\<close>

definition initial_encrypted_state :: "('st, 'z, 'key, 'cert, 'pub) client_session \<Rightarrow> encrypted_state" where
  "initial_encrypted_state s =
     (if cc_anonymous (cl_config s) then Authenticated else WaitingAuthServiceRequest False False)"

definition client_finish_rekey ::
    "('st, 'z, 'key, 'pub, 'sig) env \<Rightarrow> ('pub, 'cert) client_key_crates \<Rightarrow> ('h, 'st, 'z, 'key, 'cert, 'pub) app
      \<Rightarrow> ((channel_id \<rightharpoonup> channel_params) \<Rightarrow> channel_id list) \<Rightarrow> nat \<Rightarrow> 'st new_keys \<Rightarrow> 'z encrypted \<Rightarrow> 'h
      \<Rightarrow> ('st, 'z, 'key, 'cert, 'pub) client_session \<Rightarrow> ('h, 'st, 'z, 'key, 'cert, 'pub) served" where
  "client_finish_rekey V Q H order now nk enc h s =
     (let C = cl_common s; w = packet_writer C;
          w = w\<lparr>write_buffer := (write_buffer w)\<lparr>sent_bytes := 0\<rparr>\<rparr> in
      and_then (flush_all_pending (env_wire V) (order (channels enc)) (enc\<lparr>last_rekey := now\<rparr>)) (\<lambda>enc.
        let pending = cl_pending_reads s;
            s = s\<lparr>cl_common := C\<lparr>packet_writer := w, cs_encrypted := Some enc\<rparr>, cl_pending_reads := []\<rparr> in
      and_then (client_process_pending V Q H pending h s) (\<lambda>(h, s).
        Ok (h, s\<lparr>cl_pending_reads := [], cl_pending_len := 0,
                 cl_common := newkeys (flate_of (crates_of V)) nk (cl_common s)\<rparr>))))"

text \<open>The first exchange: the application judges the server's key, if the exchange had one.\<close>

definition client_finish_first_kex ::
    "('h, 'st, 'z, 'key, 'cert, 'pub) app \<Rightarrow> nat \<Rightarrow> 'pub option \<Rightarrow> 'st new_keys \<Rightarrow> 'h
      \<Rightarrow> ('st, 'z, 'key, 'cert, 'pub) client_session \<Rightarrow> ('h, 'st, 'z, 'key, 'cert, 'pub) served" where
  "client_finish_first_kex H now server_host_key nk h s =
     and_then (case server_host_key of Some k \<Rightarrow> c_check_server_key H h k | None \<Rightarrow> Ok (True, h)) (\<lambda>(check, h).
       if \<not> check then Err UnknownKey
       else Ok (h, s\<lparr>cl_common := set_encrypted (initial_encrypted_state s) nk now (cl_common s)\<rparr>))"

definition client_kex_done ::
    "('st, 'z, 'key, 'pub, 'sig) env \<Rightarrow> ('pub, 'cert) client_key_crates \<Rightarrow> ('h, 'st, 'z, 'key, 'cert, 'pub) app
      \<Rightarrow> ((channel_id \<rightharpoonup> channel_params) \<Rightarrow> channel_id list) \<Rightarrow> nat \<Rightarrow> 'pub option \<Rightarrow> 'st new_keys \<Rightarrow> 'h
      \<Rightarrow> ('st, 'z, 'key, 'cert, 'pub) client_session \<Rightarrow> ('h, 'st, 'z, 'key, 'cert, 'pub) served" where
  "client_kex_done V Q H order now server_host_key nk h s =
     (let s = s\<lparr>cl_common := (cl_common s)\<lparr>strict_kex := strict_kex (cl_common s) \<or> n_strict_kex (nk_names nk)\<rparr>\<rparr> in
      and_then (c_kex_done H h (shared_secret_bytes (nk_kex nk)) (nk_names nk) s) (\<lambda>(h, s).
      and_then (case cl_encrypted s of
                  Some enc \<Rightarrow> client_finish_rekey V Q H order now nk enc h s
                | None \<Rightarrow> client_finish_first_kex H now server_host_key nk h s) (\<lambda>(h, s).
        Ok (h, s\<lparr>cl_kex := KexIdle\<rparr>))))"

definition client_reply_kex ::
    "('st, 'z, 'key, 'pub, 'sig) env \<Rightarrow> ('pub, 'cert) client_key_crates \<Rightarrow> ('h, 'st, 'z, 'key, 'cert, 'pub) app
      \<Rightarrow> ((channel_id \<rightharpoonup> channel_params) \<Rightarrow> channel_id list) \<Rightarrow> nat \<Rightarrow> ('st, 'pub) client_kex \<Rightarrow> incoming \<Rightarrow> 'h
      \<Rightarrow> ('st, 'z, 'key, 'cert, 'pub) client_session
      \<Rightarrow> ('h \<times> ('st, 'z, 'key, 'cert, 'pub) client_session \<times> u32) rs" where
  "client_reply_kex V Q H order now kex pkt h s =
     and_then (client_step V kex (Some pkt) (packet_writer (cl_common s))) (\<lambda>(progress, w).
       let s = s\<lparr>cl_common := (cl_common s)\<lparr>packet_writer := w\<rparr>\<rparr> in
     and_then
       (case progress of
          NeedsReply kex reset_seqn \<Rightarrow>
            let s = s\<lparr>cl_kex := KexInProgress kex\<rparr> in
            Ok (h, if reset_seqn then s\<lparr>cl_common := common_reset_seqn (cl_common s)\<rparr> else s, in_seqn pkt)
        | KexDone host_key nk \<Rightarrow>
            and_then (client_kex_done V Q H order now host_key nk h s) (\<lambda>(h, s).
              Ok (h, s, if strict_kex (cl_common s) then 0 else in_seqn pkt)))
       (\<lambda>(h, s, seqno). and_then (cl_flush V now s) (\<lambda>s. Ok (h, s, seqno))))"

definition client_strict_message_ok :: "('st, 'z, 'key, 'cert, 'pub) client_session \<Rightarrow> incoming \<Rightarrow> unit rs" where
  "client_strict_message_ok s pkt =
     (case in_buffer pkt of
        [] \<Rightarrow> Ok ()
      | message_type # _ \<Rightarrow>
          if strict_kex (cl_common s) \<and> cl_encrypted s = None
          then validate_server_msg_strict_kex message_type (unat (in_seqn pkt - 1)) else Ok ())"

text \<open>The result's number is the packet's sequence number as the caller then takes it over.\<close>

definition client_on_packet ::
    "('st, 'z, 'key, 'pub, 'sig) env \<Rightarrow> ('pub, 'cert) client_key_crates \<Rightarrow> ('h, 'st, 'z, 'key, 'cert, 'pub) app
      \<Rightarrow> ((channel_id \<rightharpoonup> channel_params) \<Rightarrow> channel_id list) \<Rightarrow> nat \<Rightarrow> incoming \<Rightarrow> 'h
      \<Rightarrow> ('st, 'z, 'key, 'cert, 'pub) client_session
      \<Rightarrow> ('h \<times> ('st, 'z, 'key, 'cert, 'pub) client_session \<times> u32) rs" where
  "client_on_packet V Q H order now pkt h s =
     and_then (client_strict_message_ok s pkt) (\<lambda>_.
       if first (in_buffer pkt) \<in> {Some IGNORE, Some UNIMPLEMENTED, Some DEBUG} then Ok (h, s, in_seqn pkt)
       else
     and_then (if first (in_buffer pkt) = Some KEXINIT \<and> cl_kex s = KexIdle then cl_begin_rekey V s else Ok s) (\<lambda>s.
       let is_kex = (case first (in_buffer pkt) of Some m \<Rightarrow> is_kex_msg m | None \<Rightarrow> False);
           s' = (if is_kex then s\<lparr>cl_kex := snd (kex_take (cl_kex s))\<rparr> else s) in
       (case (is_kex, cl_kex s) of
          (True, KexInProgress kex) \<Rightarrow> client_reply_kex V Q H order now kex pkt h s'
        | _ \<Rightarrow> and_then (client_process_packet V Q H (in_buffer pkt) h s') (\<lambda>(h, s). Ok (h, s, in_seqn pkt)))))"

section \<open>The event loop\<close>

definition client_maybe_decompress ::
    "('st, 'z, 'key, 'pub, 'sig) env \<Rightarrow> sshbuffer \<Rightarrow> ('st, 'z, 'key, 'cert, 'pub) client_session
      \<Rightarrow> (incoming \<times> ('st, 'z, 'key, 'cert, 'pub) client_session) rs" where
  "client_maybe_decompress V b s =
     and_then (slice_from 5 (buffer b)) (\<lambda>payload.
       case cl_encrypted s of
         Some enc \<Rightarrow>
           and_then (decompress (flate_of (crates_of V)) (enc_decompress enc) payload) (\<lambda>(d, z).
             Ok (\<lparr>in_buffer = d, in_seqn = seqn b\<rparr>, cl_set_encrypted (enc\<lparr>enc_decompress := z\<rparr>) s))
       | None \<Rightarrow> Ok (\<lparr>in_buffer = payload, in_seqn = seqn b\<rparr>, s))"

type_synonym disconnect_info = "disconnect_reason \<times> string \<times> string"

text \<open>What the server said when it disconnected; the session is disconnected in any case.\<close>

definition process_disconnect :: "wire \<Rightarrow> incoming \<Rightarrow> disconnect_info rs" where
  "process_disconnect W pkt =
     and_then (r_u8 W (in_buffer pkt)) (\<lambda>(_, r). and_then (r_u32 W r) (\<lambda>(code, r).
     and_then (disconnect_from_u32 code) (\<lambda>reason_code.
     and_then (r_str W r) (\<lambda>(message, r). and_then (r_str W r) (\<lambda>(lang_tag, _). Ok (reason_code, message, lang_tag))))))"

text \<open>What one round of \<open>select!\<close> takes up. With \<open>CeReceiver n\<close> there is a message of the handle, and \<open>n\<close> more
  are there for \<open>try_recv\<close>; at the end of the list the handle is gone. \<open>CeInbound\<close> has the messages that
  channels opened by the server have sent.\<close>

datatype ('key, 'cert, 'pub) client_event =
    CePacket sshbuffer
  | CeReadError error
  | CeKeepalive
  | CeInactivity
  | CeReceiver nat
  | CeInbound "('key, 'cert, 'pub) client_msg list"

text \<open>The state of the loop in the middle of a round: the handler, the session, the sequence number that
  the read buffer is given, what the server disconnected with.\<close>

type_synonym ('h, 's) in_round = "'h \<times> 's \<times> u32 option \<times> disconnect_info rs option"

definition client_loop_packet ::
    "('st, 'z, 'key, 'pub, 'sig) env \<Rightarrow> ('pub, 'cert) client_key_crates \<Rightarrow> ('h, 'st, 'z, 'key, 'cert, 'pub) app
      \<Rightarrow> ((channel_id \<rightharpoonup> channel_params) \<Rightarrow> channel_id list) \<Rightarrow> nat \<Rightarrow> sshbuffer \<Rightarrow> 'h
      \<Rightarrow> ('st, 'z, 'key, 'cert, 'pub) client_session
      \<Rightarrow> ('h, ('st, 'z, 'key, 'cert, 'pub) client_session) in_round option rs" where
  "client_loop_packet V Q H order now b h s =
     (if length (buffer b) < 5 then Ok None
      else
        and_then (client_maybe_decompress V b s) (\<lambda>(pkt, s).
          case first (in_buffer pkt) of
            None \<Rightarrow> Ok (Some (h, s, None, None))
          | Some m \<Rightarrow>
              if m = DISCONNECT then
                Ok (Some (h, s\<lparr>cl_common := (cl_common s)\<lparr>disconnected := True\<rparr>\<rparr>, None, Some (process_disconnect (env_wire V) pkt)))
              else
                and_then (client_on_packet V Q H order now pkt h (s\<lparr>cl_common := (cl_common s)\<lparr>received_data := True\<rparr>\<rparr>))
                  (\<lambda>(h, s, n). Ok (Some (h, s, Some n, None)))))"

definition client_loop_keepalive ::
    "wire \<Rightarrow> ('st, 'z, 'key, 'cert, 'pub) client_session \<Rightarrow> ('st, 'z, 'key, 'cert, 'pub) client_session rs" where
  "client_loop_keepalive W s =
     (let n = alive_timeouts (cl_common s) + 1; s = s\<lparr>cl_common := (cl_common s)\<lparr>alive_timeouts := n\<rparr>\<rparr> in
      if cc_keepalive_max (cl_config s) \<noteq> 0 \<and> cc_keepalive_max (cl_config s) < n then Err KeepaliveTimeout
      else cl_send_keepalive W True s)"

text \<open>The messages that are there are taken while no key exchange runs; a rest of those of the handle stays
  in its channel, a rest of the inbound ones in theirs, which the round does not show.\<close>

fun take_messages ::
    "('st, 'z, 'key, 'pub, 'sig) env \<Rightarrow> ('pub, 'cert) client_key_crates \<Rightarrow> nat \<Rightarrow> nat
      \<Rightarrow> ('st, 'z, 'key, 'cert, 'pub) client_session \<Rightarrow> ('st, 'z, 'key, 'cert, 'pub) client_session rs" where
  "take_messages V Q now 0 s = Ok s"
| "take_messages V Q now (Suc n) s =
     (case (kex_active (cl_kex s), cl_receiver s) of
        (False, m # ms) \<Rightarrow> and_then (handle_msg V Q now m (s\<lparr>cl_receiver := ms\<rparr>)) (take_messages V Q now n)
      | _ \<Rightarrow> Ok s)"

fun take_inbound ::
    "('st, 'z, 'key, 'pub, 'sig) env \<Rightarrow> ('pub, 'cert) client_key_crates \<Rightarrow> nat \<Rightarrow> ('key, 'cert, 'pub) client_msg list
      \<Rightarrow> ('st, 'z, 'key, 'cert, 'pub) client_session \<Rightarrow> ('st, 'z, 'key, 'cert, 'pub) client_session rs" where
  "take_inbound V Q now [] s = Ok s"
| "take_inbound V Q now (m # ms) s =
     (if kex_active (cl_kex s) then Ok s else and_then (handle_msg V Q now m s) (take_inbound V Q now ms))"

definition client_event_enabled ::
    "('key, 'cert, 'pub) client_event \<Rightarrow> ('st, 'z, 'key, 'cert, 'pub) client_session \<Rightarrow> bool" where
  "client_event_enabled e s \<longleftrightarrow> \<not> disconnected (cl_common s)
     \<and> (case e of CeReceiver _ \<Rightarrow> \<not> kex_active (cl_kex s) | CeInbound _ \<Rightarrow> \<not> kex_active (cl_kex s) | _ \<Rightarrow> True)"

definition client_take_event ::
    "('st, 'z, 'key, 'pub, 'sig) env \<Rightarrow> ('pub, 'cert) client_key_crates \<Rightarrow> ('h, 'st, 'z, 'key, 'cert, 'pub) app
      \<Rightarrow> ((channel_id \<rightharpoonup> channel_params) \<Rightarrow> channel_id list) \<Rightarrow> nat \<Rightarrow> ('key, 'cert, 'pub) client_event \<Rightarrow> 'h
      \<Rightarrow> ('st, 'z, 'key, 'cert, 'pub) client_session
      \<Rightarrow> ('h, ('st, 'z, 'key, 'cert, 'pub) client_session) in_round option rs" where
  "client_take_event V Q H order now e h s =
     (let on = (\<lambda>res. and_then res (\<lambda>s. Ok (Some (h, s, None, None)))) in
      case e of
        CePacket b \<Rightarrow> client_loop_packet V Q H order now b h s
      | CeReadError err \<Rightarrow> Err err
      | CeKeepalive \<Rightarrow> on (client_loop_keepalive (env_wire V) s)
      | CeInactivity \<Rightarrow> Err InactivityTimeout
      | CeReceiver n \<Rightarrow>
          (case cl_receiver s of
             [] \<Rightarrow> Ok None
           | m # ms \<Rightarrow> on (and_then (handle_msg V Q now m (s\<lparr>cl_receiver := ms\<rparr>)) (take_messages V Q now n)))
      | CeInbound ms \<Rightarrow>
          (case ms of [] \<Rightarrow> on (Ok s) | m # ms \<Rightarrow> on (and_then (handle_msg V Q now m s) (take_inbound V Q now ms))))"

text \<open>After the flush the session of a user who has just logged in starts to compress.\<close>

definition client_start_compression ::
    "('st, 'z, 'key, 'pub, 'sig) env \<Rightarrow> ('st, 'z, 'key, 'cert, 'pub) client_session
      \<Rightarrow> ('st, 'z, 'key, 'cert, 'pub) client_session" where
  "client_start_compression V s =
     (case cl_encrypted s of
        None \<Rightarrow> s
      | Some enc \<Rightarrow>
          if enc_state enc \<noteq> InitCompression then s
          else
            let w = packet_writer (cl_common s);
                w = w\<lparr>pw_compress := init_compress (flate_of (crates_of V)) (client_compression enc) (pw_compress w)\<rparr> in
            s\<lparr>cl_common := (cl_common s)\<lparr>packet_writer := w, cs_encrypted := Some (enc\<lparr>enc_state := Authenticated\<rparr>)\<rparr>\<rparr>)"

text \<open>One round: the bytes for the socket, and the state after it. \<open>None\<close> is a \<open>break\<close>.\<close>

definition client_round ::
    "('st, 'z, 'key, 'pub, 'sig) env \<Rightarrow> ('pub, 'cert) client_key_crates \<Rightarrow> ('h, 'st, 'z, 'key, 'cert, 'pub) app
      \<Rightarrow> ((channel_id \<rightharpoonup> channel_params) \<Rightarrow> channel_id list) \<Rightarrow> nat \<Rightarrow> ('key, 'cert, 'pub) client_event \<Rightarrow> 'h
      \<Rightarrow> ('st, 'z, 'key, 'cert, 'pub) client_session
      \<Rightarrow> (bytes \<times> ('h, ('st, 'z, 'key, 'cert, 'pub) client_session) in_round) option rs" where
  "client_round V Q H order now e h s =
     and_then (client_take_event V Q H order now e h (s\<lparr>cl_common := (cl_common s)\<lparr>received_data := False\<rparr>\<rparr>)) (\<lambda>r.
       case r of
         None \<Rightarrow> Ok None
       | Some (h, s, n, ended) \<Rightarrow>
           and_then (cl_flush V now s) (\<lambda>s.
             (case flush_into (packet_writer (cl_common s)) of
                (out, w) \<Rightarrow>
                  let s = client_start_compression V (s\<lparr>cl_common := (cl_common s)\<lparr>packet_writer := w\<rparr>\<rparr>);
                      alive = (if received_data (cl_common s) then 0 else alive_timeouts (cl_common s)) in
                  Ok (Some (out, h, s\<lparr>cl_common := (cl_common s)\<lparr>alive_timeouts := alive\<rparr>\<rparr>, n, ended)))))"

section \<open>The start and the end of a session\<close>

definition client_common_new ::
    "client_config \<Rightarrow> bytes \<Rightarrow> ('st, 'z, ('key, 'cert, 'pub) auth_method, client_config) common_session" where
  "client_common_new cfg sshid = \<lparr>auth_user = [], remote_sshid = sshid, cs_config = cfg, cs_encrypted = None,
     auth_method = None, auth_attempts = 0, packet_writer = packet_writer_clear, cs_remote_to_local = ClearKey,
     wants_reply = False, disconnected = False, cs_buffer = [], strict_kex = False, alive_timeouts = 0,
     received_data = False\<rparr>"

definition client_session_new ::
    "u32 \<Rightarrow> ('st, 'z, ('key, 'cert, 'pub) auth_method, client_config) common_session \<Rightarrow> ('key, 'cert, 'pub) client_msg list
      \<Rightarrow> ('st, 'z, 'key, 'cert, 'pub) client_session" where
  "client_session_new target_window_size common receiver = \<lparr>cl_common = common, cl_kex = KexIdle,
     cl_receiver = receiver, cl_handle_listens = True, cl_replies = [], cl_channels = (\<lambda>c. None),
     cl_target_window_size = target_window_size, cl_pending_reads = [], cl_pending_len = 0,
     cl_open_global_requests = [], cl_server_sig_algs = None, cl_answers = [], cl_sig_algs_sent = []\<rparr>"

text \<open>\<open>connect_stream\<close>, from the server's identification string, and the flush with which \<open>run_inner\<close> begins:
  the session and what it has sent.\<close>

definition connect_stream ::
    "('st, 'z, 'key, 'pub, 'sig) env \<Rightarrow> client_config \<Rightarrow> bytes \<Rightarrow> ('key, 'cert, 'pub) client_msg list
      \<Rightarrow> (bytes \<times> ('st, 'z, 'key, 'cert, 'pub) client_session) rs" where
  "connect_stream V cfg sshid receiver =
     and_then (cl_begin_rekey V (client_session_new (cc_window_size cfg) (client_common_new cfg sshid) receiver)) (\<lambda>s.
       case flush_into (packet_writer (cl_common s)) of
         (out, w) \<Rightarrow> Ok (buffer (send_ssh_id (cc_client_id cfg) sshbuffer_new) @ out,
           s\<lparr>cl_common := (cl_common s)\<lparr>packet_writer := w\<rparr>\<rparr>))"

text \<open>The end of \<open>run\<close>: before the first exchange is done (\<open>signal\<close>) an error is the result of \<open>connect\<close>,
  afterwards the handler's affair.\<close>

definition client_run_ends ::
    "('h, 'pub, 's) client_handler \<Rightarrow> bool \<Rightarrow> 'h \<Rightarrow> disconnect_info rs \<Rightarrow> 'h rs" where
  "client_run_ends H signal h res =
     (case res of
        Ok (reason, message, lang_tag) \<Rightarrow> c_disconnected H h (ReceivedDisconnect reason message lang_tag)
      | Err e \<Rightarrow> if signal then Err e else and_then (c_disconnected H h (DisconnectedByError e)) (\<lambda>_. Err DisconnectError)
      | Panic \<Rightarrow> Panic | Diverges \<Rightarrow> Diverges)"

end
