(* ===== verification/ClientSafety.thy ===== *)
theory ClientSafety
  imports ClientLoop KexRuns
begin

text \<open>
  The client before it trusts the server: from \<open>connect_stream\<close> to the end of the first key exchange. Runs
  of rounds of the event loop are an inductive relation, with the invariant that the exchange under way
  is the first one, begun by this client; and what ends it.
\<close>

section \<open>The first key exchange\<close>

text \<open>What a client says first: its identification, and a KEXINIT, \<open>sent\<close>, in the packet around it.\<close>

definition announced ::
    "('st, 'z, 'key, 'pub, 'sig) env \<Rightarrow> client_config \<Rightarrow> bytes \<Rightarrow> bytes \<Rightarrow> bool" where
  "announced V cfg hello sent \<longleftrightarrow>
     puts (kexinit_fields (env_wire V) (alg_str (ssh_of V)) (cookie_of V) (cc_preferred cfg) None) [] = Ok sent
     \<and> (\<exists>w. packet_raw (crates_of V) sent packet_writer_clear = Ok w \<and> hello = ssh_id_write (cc_client_id cfg) [] @ buffer (write_buffer w))"

text \<open>A machine that is in the first exchange of the client, which began with the KEXINIT \<open>sent\<close>, and where a step
  takes it.\<close>

definition first_machine ::
    "('st, 'z, 'key, 'pub, 'sig) env \<Rightarrow> client_config \<Rightarrow> bytes \<Rightarrow> ('st, 'pub) client_kex \<Rightarrow> bool" where
  "first_machine V cfg sent k \<longleftrightarrow> ck_config k = cfg \<and> ck_cause k = Initial
     \<and> (ck_state k = CCreated \<and> server_kex_init (ck_exchange k) = [] \<and> client_kex_init (ck_exchange k) = sent
        \<or> (\<exists>i. client_inv V cfg Initial sent i k))"

text \<open>The keys come from an exchange about what this client announced, with a host key that has signed it
  and that the application accepted; or the client's own preferences admit the exchange \<open>none\<close>.\<close>

definition trusted_keys ::
    "('st, 'z, 'key, 'pub, 'sig) env \<Rightarrow> ('h, 'pub, 's) client_handler \<Rightarrow> client_config \<Rightarrow> bytes \<Rightarrow> 'st new_keys \<Rightarrow> bool" where
  "trusted_keys V H cfg sent nk \<longleftrightarrow>
     (\<exists>i. client_bound V cfg Initial sent i (nk_names nk) (nk_exchange nk))
     \<and> (n_kex (nk_names nk) = NONE_NAME
        \<or> (\<exists>pub h h'. authenticated V Initial pub nk \<and> c_check_server_key H h pub = Ok (True, h')))"

lemma redrawn_first:
  assumes "redrawn V V'"
  shows "first_machine V' = first_machine V" "trusted_keys V' = trusted_keys V"
  by (intro ext, simp add: first_machine_def trusted_keys_def redrawn_client [OF assms])+

lemma first_machine_step:
  assumes "first_machine V cfg sent k" "client_step V k (Some i) w = Ok (r, w')"
  shows "case r of NeedsReply k' b \<Rightarrow> first_machine V cfg sent k'
    | KexDone host_key nk \<Rightarrow> (\<exists>i. client_bound V cfg Initial sent i (nk_names nk) (nk_exchange nk))
        \<and> (case host_key of None \<Rightarrow> n_kex (nk_names nk) = NONE_NAME | Some pub \<Rightarrow> authenticated V Initial pub nk)"
proof -
  obtain i where "client_result V cfg Initial sent i r"
    using assms(1) client_start [OF _ _ _ assms(2)] client_preserves [OF _ assms(2)]
    unfolding first_machine_def by metis
  then show ?thesis
  proof (cases r)
    case (KexDone host_key nk)
    with \<open>client_result V cfg Initial sent i r\<close> show ?thesis
      by (cases host_key) (auto simp: client_result_def)
  qed (auto simp: client_result_def client_inv_def first_machine_def)
qed

section \<open>The session before and after\<close>

text \<open>The states that a sealing key goes through as it seals packets.\<close>

inductive seals_on :: "wire \<Rightarrow> 'st crypto \<Rightarrow> 'st cipher_key \<Rightarrow> 'st cipher_key \<Rightarrow> bool" for W C k where
  seals_start: "seals_on W C k k"
| seals_packet: "seals_on W C k k' \<Longrightarrow> seal_packet W C k' n plain tag = Ok (ct, t, k'') \<Longrightarrow> seals_on W C k k''"

definition clear_session ::
    "('st, 'z, 'key, 'pub, 'sig) env \<Rightarrow> client_config \<Rightarrow> bytes \<Rightarrow> ('st, 'z, 'key, 'cert, 'pub) client_session \<Rightarrow> bool" where
  "clear_session V cfg sent s \<longleftrightarrow> cl_encrypted s = None \<and> cl_config s = cfg
     \<and> (\<exists>k. cl_kex s = KexInProgress k \<and> first_machine V cfg sent k)"

text \<open>The session's identifier and the keys of both directions are those of \<open>nk\<close>; some packets may have been
  sealed since.\<close>

definition keyed_by ::
    "('st, 'z, 'key, 'pub, 'sig) env \<Rightarrow> ('st, 'z, 'm, 'c) common_session \<Rightarrow> 'st new_keys \<Rightarrow> bool" where
  "keyed_by V C nk \<longleftrightarrow> (\<exists>enc. cs_encrypted C = Some enc \<and> enc_session_id enc = nk_session_id nk)
     \<and> cs_remote_to_local C = remote_to_local (nk_cipher nk)
     \<and> seals_on (env_wire V) (crypto_of (crates_of V)) (local_to_remote (nk_cipher nk)) (pw_cipher (packet_writer C))"

definition trusting ::
    "('st, 'z, 'key, 'pub, 'sig) env \<Rightarrow> ('h, 'pub, 's) client_handler \<Rightarrow> client_config \<Rightarrow> bytes
      \<Rightarrow> ('st, 'z, 'key, 'cert, 'pub) client_session \<Rightarrow> bool" where
  "trusting V H cfg sent s \<longleftrightarrow> (\<exists>nk. keyed_by V (cl_common s) nk \<and> trusted_keys V H cfg sent nk)"

lemma redrawn_session:
  assumes "redrawn V V'"
  shows "clear_session V' = clear_session V" "trusting V' = trusting V"
  by (intro ext, simp add: clear_session_def trusting_def keyed_by_def redrawn_first [OF assms] redrawn_parts [OF assms])+

lemma trusting_encrypted: "trusting V H cfg sent s \<Longrightarrow> cl_encrypted s \<noteq> None"
  by (auto simp: trusting_def keyed_by_def)

text \<open>An application whose \<open>kex_done\<close> leaves the session alone, as the default does.\<close>

definition quiet_kex_done :: "('h, 'pub, 's) client_handler \<Rightarrow> bool" where
  "quiet_kex_done H \<longleftrightarrow> (\<exists>f. \<forall>h secret names s. c_kex_done H h secret names s = and_then (f h secret names) (\<lambda>h. Ok (h, s)))"

text \<open>Rounds of the event loop while the session is not encrypted, each with the time and with random values of
  its own.\<close>

inductive clear_run ::
    "('st, 'z, 'key, 'pub, 'sig) env \<Rightarrow> ('pub, 'cert) client_key_crates \<Rightarrow> ('h, 'st, 'z, 'key, 'cert, 'pub) app
      \<Rightarrow> ((channel_id \<rightharpoonup> channel_params) \<Rightarrow> channel_id list)
      \<Rightarrow> (('st, 'z, 'key, 'pub, 'sig) env \<times> nat \<times> ('key, 'cert, 'pub) client_event) list
      \<Rightarrow> 'h \<Rightarrow> ('st, 'z, 'key, 'cert, 'pub) client_session \<Rightarrow> bytes \<Rightarrow> 'h
      \<Rightarrow> ('st, 'z, 'key, 'cert, 'pub) client_session \<Rightarrow> bool"
  for V Q H order where
  clear_here: "clear_run V Q H order [] h s [] h s"
| clear_round: "cl_encrypted s = None \<Longrightarrow> redrawn V V' \<Longrightarrow> client_event_enabled e s
    \<Longrightarrow> client_round V' Q H order now e h s = Ok (Some (out, h1, s1, n, ended))
    \<Longrightarrow> clear_run V Q H order es h1 s1 outs h' s' \<Longrightarrow> clear_run V Q H order ((V', now, e) # es) h s (out @ outs) h' s'"

section \<open>Flushing\<close>

lemma cl_begin_rekey_keeps:
  "cl_begin_rekey V s = Ok s' \<Longrightarrow> cl_encrypted s' = cl_encrypted s \<and> cl_config s' = cl_config s \<and> cl_receiver s' = cl_receiver s"
  by (auto simp: cl_begin_rekey_def outcome_simps Let_def)

lemma cl_flush_clear: "cl_encrypted s = None \<Longrightarrow> cl_flush V now s = Ok s"
  by (simp add: cl_flush_def)

lemma cl_flush_keeps:
  assumes "cl_flush V now s = Ok s'" "cl_encrypted s = Some enc"
  shows "\<exists>enc'. cl_encrypted s' = Some enc' \<and> enc_session_id enc' = enc_session_id enc \<and> channels enc' = channels enc
    \<and> enc_state enc' = enc_state enc"
proof -
  from assms obtain due w enc' where
    f: "enc_flush (crates_of V) (cc_limits (cl_config s)) now (packet_writer (cl_common s)) enc = Ok (due, w, enc')"
    and r: "(let s = s\<lparr>cl_common := (cl_common s)\<lparr>packet_writer := w, cs_encrypted := Some enc'\<rparr>\<rparr> in
            if due \<and> \<not> kex_active (cl_kex s) then cl_begin_rekey V s else Ok s) = Ok s'"
    by (auto simp: cl_flush_def outcome_simps)
  from r have "cl_encrypted s' = Some enc'"
    by (cases "due \<and> \<not> kex_active (cl_kex s)") (auto simp: Let_def dest!: cl_begin_rekey_keeps)
  then show ?thesis by (rule_tac enc_flush_changes [OF f]) simp
qed

text \<open>What is written advances the sealing key and touches no other.\<close>

lemma write_packet_seals:
  "write_packet W C rnd k' p b = Ok (b', k'') \<Longrightarrow> seals_on W C k k' \<Longrightarrow> seals_on W C k k''"
  by (auto simp: write_packet_def Let_def outcome_simps intro: seals_packet split: if_splits rs.splits)

lemma packet_raw_seals:
  "packet_raw E p w = Ok w' \<Longrightarrow> seals_on (wire_of E) (crypto_of E) k (pw_cipher w) \<Longrightarrow> seals_on (wire_of E) (crypto_of E) k (pw_cipher w')"
  by (auto simp: packet_raw_def outcome_simps dest: write_packet_seals split: option.splits)

lemma flush_loop_seals:
  "flush_loop E out cursor w = Ok (c, w') \<Longrightarrow> seals_on (wire_of E) (crypto_of E) k (pw_cipher w)
    \<Longrightarrow> seals_on (wire_of E) (crypto_of E) k (pw_cipher w')"
proof (induction E out cursor w rule: flush_loop.induct)
  case (1 E out cursor w)
  show ?case
  proof (cases "cursor < length out")
    case True
    with 1(2) obtain r len p w1 where "slice_from cursor out = put_raw r" "be_read_u32 (wire_of E) r = Ok len"
      "slice (cursor + 4) (cursor + 4 + unat len) out = put_raw p"
      and w: "packet_raw E p w = Ok w1" "flush_loop E out (cursor + (4 + unat len)) w1 = Ok (c, w')"
      by (subst (asm) flush_loop.simps) (auto simp: outcome_simps Let_def)
    from 1(1) [OF True this(1,2) refl this(3-5)] packet_raw_seals [OF w(1) 1(3)] show ?thesis .
  next
    case False
    with 1(2,3) show ?thesis by (subst (asm) flush_loop.simps) simp
  qed
qed

lemma enc_flush_seals:
  "enc_flush E lim now w enc = Ok (due, w', enc') \<Longrightarrow> seals_on (wire_of E) (crypto_of E) k (pw_cipher w)
    \<Longrightarrow> seals_on (wire_of E) (crypto_of E) k (pw_cipher w')"
  by (auto simp: enc_flush_def outcome_simps Let_def dest: flush_loop_seals split: if_splits)

lemma cl_begin_rekey_seals:
  assumes "cl_begin_rekey V s = Ok s'"
    and "seals_on (env_wire V) (crypto_of (crates_of V)) k (pw_cipher (packet_writer (cl_common s)))"
  shows "seals_on (env_wire V) (crypto_of (crates_of V)) k (pw_cipher (packet_writer (cl_common s')))
    \<and> cs_remote_to_local (cl_common s') = cs_remote_to_local (cl_common s)"
  using assms
  by (auto simp: cl_begin_rekey_def client_kexinit_def write_kex_def packet_def outcome_simps Let_def dest: packet_raw_seals)

lemma cl_flush_seals:
  assumes "cl_flush V now s = Ok s'"
    and "seals_on (env_wire V) (crypto_of (crates_of V)) k (pw_cipher (packet_writer (cl_common s)))"
  shows "seals_on (env_wire V) (crypto_of (crates_of V)) k (pw_cipher (packet_writer (cl_common s')))
    \<and> cs_remote_to_local (cl_common s') = cs_remote_to_local (cl_common s)"
proof (cases "cl_encrypted s")
  case (Some enc)
  with assms(1) obtain due w enc' where
    f: "enc_flush (crates_of V) (cc_limits (cl_config s)) now (packet_writer (cl_common s)) enc = Ok (due, w, enc')"
    and r: "(let s = s\<lparr>cl_common := (cl_common s)\<lparr>packet_writer := w, cs_encrypted := Some enc'\<rparr>\<rparr> in
            if due \<and> \<not> kex_active (cl_kex s) then cl_begin_rekey V s else Ok s) = Ok s'"
    by (auto simp: cl_flush_def outcome_simps)
  from enc_flush_seals [OF f assms(2)] r show ?thesis
    by (cases "due \<and> \<not> kex_active (cl_kex s)") (auto simp: Let_def dest: cl_begin_rekey_seals)
qed (use assms in \<open>simp add: cl_flush_def\<close>)

lemma cl_flush_trusting:
  assumes "cl_flush V now s = Ok s'" "trusting V H cfg sent s"
  shows "trusting V H cfg sent s'"
proof -
  from assms(2) obtain nk enc where k: "cl_encrypted s = Some enc" "enc_session_id enc = nk_session_id nk"
    "cs_remote_to_local (cl_common s) = remote_to_local (nk_cipher nk)" "trusted_keys V H cfg sent nk"
    "seals_on (env_wire V) (crypto_of (crates_of V)) (local_to_remote (nk_cipher nk)) (pw_cipher (packet_writer (cl_common s)))"
    by (auto simp: trusting_def keyed_by_def)
  from cl_flush_keeps [OF assms(1) k(1)] cl_flush_seals [OF assms(1) k(5)] k(2-4) show ?thesis
    by (auto simp: trusting_def keyed_by_def)
qed

text \<open>The messages that wait in the receiver are neither read nor changed.\<close>

abbreviation refilled where "refilled r s \<equiv> s\<lparr>cl_receiver := r\<rparr>"

lemma cl_begin_rekey_refilled:
  "cl_begin_rekey V (refilled r s) = and_then (cl_begin_rekey V s) (\<lambda>s. Ok (refilled r s))"
  by (auto simp: cl_begin_rekey_def Let_def and_then_assoc intro!: and_then_cong)

lemma cl_flush_refilled: "cl_flush V now (refilled r s) = and_then (cl_flush V now s) (\<lambda>s. Ok (refilled r s))"
proof (cases "cl_encrypted s")
  case (Some enc)
  let ?up = "\<lambda>w e s. s\<lparr>cl_common := (cl_common s)\<lparr>packet_writer := w, cs_encrypted := Some e\<rparr>\<rparr>"
  have u: "refilled r s\<lparr>cl_common := C\<rparr> = refilled r (s\<lparr>cl_common := C\<rparr>)" for C by simp
  show ?thesis
  proof (cases "enc_flush (crates_of V) (cc_limits (cl_config s)) now (packet_writer (cl_common s)) enc")
    case (Ok x)
    obtain due w e where x: "x = (due, w, e)" by (cases x)
    show ?thesis
      using Some Ok cl_begin_rekey_refilled [of V r "?up w e s"] unfolding x by (simp add: cl_flush_def Let_def u)
  qed (use Some in \<open>simp_all add: cl_flush_def\<close>)
qed (simp add: cl_flush_def)

lemma cl_flush_receiver:
  assumes "cl_flush V now s = Ok s'"
  shows "cl_receiver s' = cl_receiver s"
proof -
  have "refilled (cl_receiver s) s = s" by simp
  with cl_flush_refilled [of V now "cl_receiver s" s] assms have "s' = refilled (cl_receiver s) s'" by simp
  then have "cl_receiver s' = cl_receiver (refilled (cl_receiver s) s')" by (rule arg_cong)
  then show ?thesis by simp
qed

section \<open>A round before the server is trusted\<close>

text \<open>The end of the first exchange.\<close>

lemma first_kex_done:
  assumes "quiet_kex_done H" "cl_encrypted s = None"
    and "client_kex_done V Q H order now host_key nk h s = Ok (h1, s1)"
  shows "cl_receiver s1 = cl_receiver s"
    and "keyed_by V (cl_common s1) nk"
    and "\<And>pub. host_key = Some pub \<Longrightarrow> \<exists>g g'. c_check_server_key H g pub = Ok (True, g')"
proof -
  let ?s = "s\<lparr>cl_common := (cl_common s)\<lparr>strict_kex := strict_kex (cl_common s) \<or> n_strict_kex (nk_names nk)\<rparr>\<rparr>"
  from assms(1) obtain f where f: "\<forall>h x names s. c_kex_done H h x names s = and_then (f h x names) (\<lambda>h. Ok (h, s))"
    unfolding quiet_kex_done_def by (elim exE)
  from assms(2,3) obtain h2 s2 where
    e: "client_finish_first_kex H now host_key nk h2 ?s = Ok (h1, s2)" "s1 = s2\<lparr>cl_kex := KexIdle\<rparr>"
    by (auto simp: client_kex_done_def f outcome_simps Let_def)
  from e(1) obtain g where c: "(case host_key of Some k \<Rightarrow> c_check_server_key H h2 k | None \<Rightarrow> Ok (True, h2)) = Ok (True, g)"
    and s2: "s2 = ?s\<lparr>cl_common := set_encrypted (initial_encrypted_state ?s) nk now (cl_common ?s)\<rparr>"
    by (auto simp: client_finish_first_kex_def outcome_simps split: if_splits)
  show "cl_receiver s1 = cl_receiver s" "keyed_by V (cl_common s1) nk"
    by (simp_all add: e(2) s2 set_encrypted_def keyed_by_def set_cipher_def seals_start)
  show "\<exists>g g'. c_check_server_key H g pub = Ok (True, g')" if "host_key = Some pub" for pub
    using c that by auto
qed

lemma first_reply:
  assumes q: "quiet_kex_done H" and s: "cl_encrypted s = None" "cl_config s = cfg" "first_machine V cfg sent k"
    and r: "client_reply_kex V Q H order now k pkt h s = Ok (h1, s1, n)"
  shows "cl_receiver s1 = cl_receiver s \<and> (clear_session V cfg sent s1 \<or> trusting V H cfg sent s1)"
proof -
  from r obtain progress w where st: "client_step V k (Some pkt) (packet_writer (cl_common s)) = Ok (progress, w)"
    by (auto simp: client_reply_kex_def outcome_simps)
  note m = first_machine_step [OF s(3) st]
  let ?s = "s\<lparr>cl_common := (cl_common s)\<lparr>packet_writer := w\<rparr>\<rparr>"
  show ?thesis
  proof (cases progress)
    case (NeedsReply k' b)
    then have "s1 = (let s = ?s\<lparr>cl_kex := KexInProgress k'\<rparr> in if b then s\<lparr>cl_common := common_reset_seqn (cl_common s)\<rparr> else s)"
      using r st s(1) by (cases b) (auto simp: client_reply_kex_def cl_flush_clear common_reset_seqn_def)
    then show ?thesis
      using m NeedsReply s(1,2) by (cases b) (simp_all add: clear_session_def common_reset_seqn_def Let_def)
  next
    case (KexDone host_key nk)
    with r st obtain s2 where d: "client_kex_done V Q H order now host_key nk h ?s = Ok (h1, s2)"
      and f: "cl_flush V now s2 = Ok s1"
      by (auto simp: client_reply_kex_def outcome_simps)
    have "cl_encrypted ?s = None" using s(1) by simp
    note fin = first_kex_done [OF q this d]
    have "trusted_keys V H cfg sent nk"
      using m KexDone fin(3) unfolding trusted_keys_def by (cases host_key) auto
    then have "trusting V H cfg sent s2" using fin(2) unfolding trusting_def by blast
    moreover have "cl_receiver s1 = cl_receiver s2" by (rule cl_flush_receiver [OF f])
    ultimately show ?thesis
      using fin(1) f cl_flush_trusting by simp blast
  qed
qed

text \<open>What waits in the receiver has no part in such a round.\<close>

lemma refilled_out:
  "refilled r s\<lparr>cl_common := C\<rparr> = refilled r (s\<lparr>cl_common := C\<rparr>)"
  "refilled r s\<lparr>cl_kex := x\<rparr> = refilled r (s\<lparr>cl_kex := x\<rparr>)"
  "refilled r s\<lparr>cl_open_global_requests := q\<rparr> = refilled r (s\<lparr>cl_open_global_requests := q\<rparr>)"
  by simp_all

lemma kex_done_refilled:
  assumes "quiet_kex_done H" "cl_encrypted s = None"
  shows "client_kex_done V Q H order now host_key nk h (refilled r s)
    = and_then (client_kex_done V Q H order now host_key nk h s) (\<lambda>(h, s). Ok (h, refilled r s))"
proof -
  from assms(1) obtain f where f: "\<forall>h x names s. c_kex_done H h x names s = and_then (f h x names) (\<lambda>h. Ok (h, s))"
    unfolding quiet_kex_done_def by (elim exE)
  have "client_finish_first_kex H now host_key nk g (refilled r t)
      = and_then (client_finish_first_kex H now host_key nk g t) (\<lambda>(h, s). Ok (h, refilled r s))" for g t
    by (cases "case host_key of Some k \<Rightarrow> c_check_server_key H g k | None \<Rightarrow> Ok (True, g)")
      (auto simp: client_finish_first_kex_def initial_encrypted_state_def refilled_out)
  then show ?thesis
    using assms(2) by (simp add: client_kex_done_def f and_then_assoc Let_def refilled_out split_beta)
qed

lemma reply_kex_refilled:
  assumes "quiet_kex_done H" "cl_encrypted s = None"
  shows "client_reply_kex V Q H order now k pkt h (refilled r s)
    = and_then (client_reply_kex V Q H order now k pkt h s) (\<lambda>(h, s, n). Ok (h, refilled r s, n))"
proof (cases "client_step V k (Some pkt) (packet_writer (cl_common s))")
  case (Ok x)
  obtain progress w where x: "x = (progress, w)" by (cases x)
  show ?thesis
  proof (cases progress)
    case (NeedsReply k' b)
    then show ?thesis
      using Ok x assms(2) by (cases b) (simp_all add: client_reply_kex_def cl_flush_clear common_reset_seqn_def Let_def refilled_out)
  next
    case (KexDone host_key nk)
    let ?s = "s\<lparr>cl_common := (cl_common s)\<lparr>packet_writer := w\<rparr>\<rparr>"
    have "cl_encrypted ?s = None" using assms(2) by simp
    note d = kex_done_refilled [OF assms(1) this, of V Q order now host_key nk h r]
    show ?thesis
    proof (cases "client_kex_done V Q H order now host_key nk h ?s")
      case fin: (Ok y)
      obtain h2 s2 where y: "y = (h2, s2)" by (cases y)
      show ?thesis
        using Ok x KexDone d fin y by (simp add: client_reply_kex_def refilled_out cl_flush_refilled and_then_assoc)
    qed (use Ok x KexDone in \<open>simp_all add: client_reply_kex_def refilled_out d\<close>)
  qed
qed (use assms in \<open>simp_all add: client_reply_kex_def\<close>)

text \<open>Every packet of the first exchange.\<close>

lemma clear_on_packet:
  assumes q: "quiet_kex_done H" and s: "clear_session V cfg sent s"
    and r: "client_on_packet V Q H order now pkt h s = Ok (h1, s1, n)"
  shows "cl_receiver s1 = cl_receiver s \<and> (clear_session V cfg sent s1 \<or> trusting V H cfg sent s1)"
proof -
  from s obtain k where k: "cl_encrypted s = None" "cl_config s = cfg" "cl_kex s = KexInProgress k" "first_machine V cfg sent k"
    by (auto simp: clear_session_def)
  consider "s1 = s" | "client_reply_kex V Q H order now k pkt h (s\<lparr>cl_kex := KexTaken\<rparr>) = Ok (h1, s1, n)"
    using r k(1,3) by (auto simp: client_on_packet_def client_process_packet_def outcome_simps Let_def split: if_splits)
  then show ?thesis
  proof cases
    case 2
    have "cl_encrypted (s\<lparr>cl_kex := KexTaken\<rparr>) = None" "cl_config (s\<lparr>cl_kex := KexTaken\<rparr>) = cfg" using k by simp_all
    from first_reply [OF q this k(4) 2] show ?thesis by simp
  qed (use s in simp)
qed

lemma on_packet_refilled:
  assumes q: "quiet_kex_done H" and s: "clear_session V cfg sent s"
  shows "client_on_packet V Q H order now pkt h (refilled r s)
    = and_then (client_on_packet V Q H order now pkt h s) (\<lambda>(h, s, n). Ok (h, refilled r s, n))"
proof -
  from s obtain k where k: "cl_encrypted s = None" "cl_kex s = KexInProgress k"
    by (auto simp: clear_session_def)
  have "cl_encrypted (s\<lparr>cl_kex := KexTaken\<rparr>) = None" using k by simp
  note d = reply_kex_refilled [OF q this, of V Q order now k pkt h r]
  have ok: "client_strict_message_ok (refilled r s) pkt = client_strict_message_ok s pkt"
    by (simp add: client_strict_message_ok_def split: list.split)
  show ?thesis
  proof (cases "case first (in_buffer pkt) of Some m \<Rightarrow> is_kex_msg m | None \<Rightarrow> False")
    case True
    then show ?thesis
      using k by (simp add: client_on_packet_def ok and_then_assoc refilled_out d Let_def)
  next
    case False
    then show ?thesis
      using k by (simp add: client_on_packet_def ok client_process_packet_def and_then_assoc Let_def)
  qed
qed

text \<open>A packet as the loop sees it.\<close>

lemma clear_loop_packet:
  assumes q: "quiet_kex_done H" and s: "clear_session V cfg sent s"
    and r: "client_loop_packet V Q H order now b h s = Ok (Some (h1, s1, n, ended))"
  shows "cl_receiver s1 = cl_receiver s \<and> (clear_session V cfg sent s1 \<or> trusting V H cfg sent s1)"
proof -
  let ?s = "s\<lparr>cl_common := (cl_common s)\<lparr>received_data := True\<rparr>\<rparr>"
  have c: "clear_session V cfg sent ?s" "clear_session V cfg sent (s\<lparr>cl_common := (cl_common s)\<lparr>disconnected := True\<rparr>\<rparr>)"
    using s by (auto simp: clear_session_def)
  from s have "cl_encrypted s = None" by (simp add: clear_session_def)
  with r consider "s1 = s" | "s1 = s\<lparr>cl_common := (cl_common s)\<lparr>disconnected := True\<rparr>\<rparr>"
    | pkt n' where "client_on_packet V Q H order now pkt h ?s = Ok (h1, s1, n')"
    by (auto simp: client_loop_packet_def client_maybe_decompress_def outcome_simps split: if_splits option.splits)
  then show ?thesis
  proof cases
    case 3
    from clear_on_packet [OF q c(1) 3] show ?thesis by simp
  qed (use s c in simp_all)
qed

definition and_round :: "('s \<Rightarrow> 's) \<Rightarrow> ('h, 's) in_round option rs \<Rightarrow> ('h, 's) in_round option rs" where
  "and_round f res = and_then res (\<lambda>r. Ok (map_option (\<lambda>(h, s, n, ended). (h, f s, n, ended)) r))"

lemma loop_packet_refilled:
  assumes q: "quiet_kex_done H" and s: "clear_session V cfg sent s"
  shows "client_loop_packet V Q H order now b h (refilled r s)
    = and_round (refilled r) (client_loop_packet V Q H order now b h s)"
proof -
  have c: "clear_session V cfg sent (s\<lparr>cl_common := (cl_common s)\<lparr>received_data := True\<rparr>\<rparr>)"
    using s by (auto simp: clear_session_def)
  from s have e: "cl_encrypted s = None" by (simp add: clear_session_def)
  show ?thesis
  proof (cases "slice_from 5 (buffer b)")
    case (Ok payload)
    show ?thesis
    proof (cases payload)
      case (Cons m ms)
      then show ?thesis
        using Ok e by (simp add: client_loop_packet_def client_maybe_decompress_def and_round_def refilled_out
          on_packet_refilled [OF q c] and_then_assoc split_beta)
    qed (use Ok e in \<open>simp add: client_loop_packet_def client_maybe_decompress_def and_round_def\<close>)
  qed (use e in \<open>simp_all add: client_loop_packet_def client_maybe_decompress_def and_round_def\<close>)
qed

lemma client_event_enabled_refilled [simp]: "client_event_enabled e (refilled r s) = client_event_enabled e s"
  by (simp add: client_event_enabled_def split: client_event.split)

lemma client_event_enabled_common [simp]:
  "disconnected C = disconnected (cl_common s) \<Longrightarrow> client_event_enabled e (s\<lparr>cl_common := C\<rparr>) = client_event_enabled e s"
  by (simp add: client_event_enabled_def split: client_event.split)

text \<open>Before the exchange is done a keepalive writes nothing, and the messages wait.\<close>

lemma clear_keepalive:
  assumes "client_loop_keepalive W s = Ok s1" "cl_encrypted s = None"
  shows "\<exists>n q. s1 = s\<lparr>cl_common := (cl_common s)\<lparr>alive_timeouts := n\<rparr>, cl_open_global_requests := q\<rparr>"
  using assms by (auto simp: client_loop_keepalive_def Let_def cl_send_keepalive_def cl_awaited_request_def cl_with_enc_def
      split: if_splits)

lemma clear_event:
  assumes q: "quiet_kex_done H" and s: "clear_session V cfg sent s" and e: "client_event_enabled e s"
    and r: "client_take_event V Q H order now e h s = Ok (Some (h1, s1, n, ended))"
  shows "cl_receiver s1 = cl_receiver s \<and> (clear_session V cfg sent s1 \<or> trusting V H cfg sent s1)"
proof (cases e)
  case (CePacket b)
  with r have "client_loop_packet V Q H order now b h s = Ok (Some (h1, s1, n, ended))"
    by (simp add: client_take_event_def)
  from clear_loop_packet [OF q s this] show ?thesis .
next
  case CeKeepalive
  with r have "client_loop_keepalive (env_wire V) s = Ok s1" by (auto simp: client_take_event_def outcome_simps)
  with s show ?thesis by (auto simp: clear_session_def dest!: clear_keepalive)
qed (use s e r in \<open>auto simp: clear_session_def client_event_enabled_def client_take_event_def\<close>)

lemma event_refilled:
  assumes q: "quiet_kex_done H" and s: "clear_session V cfg sent s" and e: "client_event_enabled e s"
  shows "client_take_event V Q H order now e h (refilled r s)
    = and_round (refilled r) (client_take_event V Q H order now e h s)"
proof (cases e)
  case (CePacket b)
  then show ?thesis by (simp add: client_take_event_def loop_packet_refilled [OF q s])
next
  case CeKeepalive
  have "client_loop_keepalive W (refilled r s) = and_then (client_loop_keepalive W s) (\<lambda>s. Ok (refilled r s))" for W
    using s by (simp add: clear_session_def client_loop_keepalive_def Let_def cl_send_keepalive_def cl_awaited_request_def
        cl_with_enc_def refilled_out)
  with CeKeepalive show ?thesis by (simp add: client_take_event_def and_round_def and_then_assoc)
qed (use s e in \<open>auto simp: clear_session_def client_event_enabled_def client_take_event_def and_round_def\<close>)

section \<open>Rounds and runs\<close>

lemma start_compression_keeps [simp]: "cl_receiver (client_start_compression V s) = cl_receiver s"
  by (simp add: client_start_compression_def Let_def split: option.splits)

lemma start_compression_trusting: "trusting V H cfg sent s \<Longrightarrow> trusting V H cfg sent (client_start_compression V s)"
  by (auto simp: client_start_compression_def trusting_def keyed_by_def Let_def split: option.splits)

lemma start_compression_refilled: "client_start_compression V (refilled r s) = refilled r (client_start_compression V s)"
  by (simp add: client_start_compression_def Let_def refilled_out split: option.split)

lemma trusting_common [simp]:
  "cs_encrypted C = cl_encrypted s \<Longrightarrow> cs_remote_to_local C = cs_remote_to_local (cl_common s)
    \<Longrightarrow> pw_cipher (packet_writer C) = pw_cipher (packet_writer (cl_common s))
    \<Longrightarrow> trusting V H cfg sent (s\<lparr>cl_common := C\<rparr>) = trusting V H cfg sent s"
  "cs_encrypted C = cl_encrypted s \<Longrightarrow> cs_config C = cl_config s
    \<Longrightarrow> clear_session V cfg sent (s\<lparr>cl_common := C\<rparr>) = clear_session V cfg sent s"
  by (simp_all add: trusting_def keyed_by_def clear_session_def)

lemma clear_round_keeps:
  assumes q: "quiet_kex_done H" and s: "clear_session V cfg sent s" and e: "client_event_enabled e s"
    and r: "client_round V Q H order now e h s = Ok (Some (out, h1, s1, n, ended))"
  shows "cl_receiver s1 = cl_receiver s \<and> (clear_session V cfg sent s1 \<or> trusting V H cfg sent s1)"
proof -
  let ?s = "s\<lparr>cl_common := (cl_common s)\<lparr>received_data := False\<rparr>\<rparr>"
  from r obtain s2 s3 w al where ev: "client_take_event V Q H order now e h ?s = Ok (Some (h1, s2, n, ended))"
    and f: "cl_flush V now s2 = Ok s3"
    and s1: "s1 = (let t = client_start_compression V (s3\<lparr>cl_common := (cl_common s3)\<lparr>packet_writer := w\<rparr>\<rparr>)
      in t\<lparr>cl_common := (cl_common t)\<lparr>alive_timeouts := al\<rparr>\<rparr>)"
    and w: "pw_cipher w = pw_cipher (packet_writer (cl_common s3))"
    by (auto simp: client_round_def outcome_simps Let_def split_beta flush_into_def split: option.splits)
  have "clear_session V cfg sent ?s" "client_event_enabled e ?s" using s e by simp_all
  note step = clear_event [OF q this ev]
  have "clear_session V cfg sent s3 \<and> s3 = s2 \<or> trusting V H cfg sent s3"
  proof (cases "clear_session V cfg sent s2")
    case True
    then have "cl_encrypted s2 = None" by (simp add: clear_session_def)
    with f True show ?thesis by (simp add: cl_flush_clear)
  qed (use step in \<open>auto intro: cl_flush_trusting [OF f]\<close>)
  then have "clear_session V cfg sent s1 \<or> trusting V H cfg sent s1"
  proof
    assume "clear_session V cfg sent s3 \<and> s3 = s2"
    then have c: "clear_session V cfg sent s3" by (rule conjunct1)
    then have "cl_encrypted s3 = None" by (simp add: clear_session_def)
    with c show ?thesis by (simp add: s1 client_start_compression_def Let_def)
  next
    assume "trusting V H cfg sent s3"
    then have "trusting V H cfg sent (client_start_compression V (s3\<lparr>cl_common := (cl_common s3)\<lparr>packet_writer := w\<rparr>\<rparr>))"
      using w by (intro start_compression_trusting) simp
    then show ?thesis by (simp add: s1 Let_def)
  qed
  moreover have "cl_receiver s1 = cl_receiver s"
    using step cl_flush_receiver [OF f] by (simp add: s1 Let_def)
  ultimately show ?thesis by simp
qed

lemma round_refilled:
  assumes q: "quiet_kex_done H" and s: "clear_session V cfg sent s" and e: "client_event_enabled e s"
    and r: "client_round V Q H order now e h s = Ok (Some (out, h1, s1, n, ended))"
  shows "client_round V Q H order now e h (refilled m s) = Ok (Some (out, h1, refilled m s1, n, ended))"
proof -
  let ?s = "s\<lparr>cl_common := (cl_common s)\<lparr>received_data := False\<rparr>\<rparr>"
  have "clear_session V cfg sent ?s" "client_event_enabled e ?s" using s e by simp_all
  note ev = event_refilled [OF q this, of Q order now h m]
  from r obtain s2 s3 where "client_take_event V Q H order now e h ?s = Ok (Some (h1, s2, n, ended))"
    and "cl_flush V now s2 = Ok s3"
    by (auto simp: client_round_def outcome_simps Let_def split_beta split: option.splits)
  then show ?thesis
    using r by (auto simp: client_round_def ev refilled_out and_round_def cl_flush_refilled Let_def start_compression_refilled
        split_beta cong: if_cong split del: if_split)
qed

lemma clear_run_keeps:
  "clear_run V Q H order es h s outs h' s' \<Longrightarrow> quiet_kex_done H \<Longrightarrow> clear_session V cfg sent s \<or> trusting V H cfg sent s
    \<Longrightarrow> cl_receiver s' = cl_receiver s \<and> (clear_session V cfg sent s' \<or> trusting V H cfg sent s')"
proof (induction rule: clear_run.induct)
  case (clear_round s V' e now h out h1 s1 n ended es outs h' s')
  note same = redrawn_session [OF clear_round.hyps(2)]
  from clear_round.hyps(1) clear_round.prems(2) have "clear_session V' cfg sent s"
    unfolding same by (auto dest: trusting_encrypted)
  from clear_round_keeps [OF clear_round.prems(1) this clear_round.hyps(3,4)] clear_round.IH clear_round.prems(1)
  show ?case unfolding same by simp
qed simp

lemma clear_run_refilled:
  "clear_run V Q H order es h s outs h' s' \<Longrightarrow> quiet_kex_done H \<Longrightarrow> clear_session V cfg sent s \<or> trusting V H cfg sent s
    \<Longrightarrow> clear_run V Q H order es h (refilled m s) outs h' (refilled m s')"
proof (induction rule: clear_run.induct)
  case (clear_round s V' e now h out h1 s1 n ended es outs h' s')
  note same = redrawn_session [OF clear_round.hyps(2)]
  from clear_round.hyps(1) clear_round.prems(2) have c: "clear_session V' cfg sent s"
    unfolding same by (auto dest: trusting_encrypted)
  note k = clear_round_keeps [OF clear_round.prems(1) c clear_round.hyps(3,4)]
  have "clear_run V Q H order es h1 (refilled m s1) outs h' (refilled m s')"
    using k clear_round.prems(1) unfolding same by (intro clear_round.IH) simp_all
  from clear_run.clear_round [OF _ clear_round.hyps(2) _ round_refilled [OF clear_round.prems(1) c clear_round.hyps(3,4)] this]
  show ?case using clear_round.hyps(1,3) by simp
qed (rule clear_run.clear_here)

lemma connect_stream_clear:
  assumes "connect_stream V cfg sshid msgs = Ok (hello, s)"
  shows "\<exists>sent. announced V cfg hello sent \<and> clear_session V cfg sent s \<and> cl_receiver s = msgs"
  using assms
  by (auto simp: connect_stream_def cl_begin_rekey_def client_session_new_def client_common_new_def client_kexinit_def
      write_kex_def packet_def client_kex_new_def exchange_new_def outcome_simps Let_def clear_session_def first_machine_def
      announced_def flush_into_def send_ssh_id_def sshbuffer_new_def split_beta)

lemma connect_stream_refilled:
  assumes "connect_stream V cfg sshid msgs = Ok (hello, s)"
  shows "connect_stream V cfg sshid msgs' = Ok (hello, refilled msgs' s)"
proof -
  have n: "client_session_new n C msgs' = refilled msgs' (client_session_new n C msgs)" for n C
    by (simp add: client_session_new_def)
  show ?thesis
    using assms unfolding connect_stream_def n cl_begin_rekey_refilled
    by (cases "cl_begin_rekey V (client_session_new (cc_window_size cfg) (client_common_new cfg sshid) msgs)")
      (auto simp: split_beta refilled_out)
qed

end
