(* ===== verification/Requests.thy ===== *)
theory Requests
  imports ClientLoop ServerHandler
begin

text \<open>
  Where the two roles meet: a request that the client's application makes on a channel, as the server's
  application receives it.
\<close>

section \<open>The requests\<close>

text \<open>What goes into a request: its name, whether an answer is wanted, the fields behind.\<close>

fun request_name :: "channel_msg \<Rightarrow> string" where
  "request_name (CmRequestPty _ _ _ _ _ _ _) = ''pty-req''"
| "request_name (CmRequestX11 _ _ _ _ _) = ''x11-req''"
| "request_name (CmSetEnv _ _ _) = ''env''"
| "request_name (CmRequestShell _) = ''shell''"
| "request_name (CmExec _ _) = ''exec''"
| "request_name (CmSignal _) = ''signal''"
| "request_name (CmRequestSubsystem _ _) = ''subsystem''"
| "request_name (CmWindowChange _ _ _ _) = ''window-change''"
| "request_name (CmAgentForward _) = ''auth-agent-req@openssh.com''"
| "request_name _ = []"

fun request_wants :: "channel_msg \<Rightarrow> bool" where
  "request_wants (CmRequestPty w _ _ _ _ _ _) = w"
| "request_wants (CmRequestX11 w _ _ _ _) = w"
| "request_wants (CmSetEnv w _ _) = w"
| "request_wants (CmRequestShell w) = w"
| "request_wants (CmExec w _) = w"
| "request_wants (CmRequestSubsystem w _) = w"
| "request_wants (CmAgentForward w) = w"
| "request_wants _ = False"

fun request_fields :: "wire \<Rightarrow> channel_msg \<Rightarrow> bytes rs list" where
  "request_fields W (CmRequestPty _ term cw rh pw ph ms) =
     [w_str W term, w_u32 W cw, w_u32 W rh, w_u32 W pw, w_u32 W ph] @ pty_mode_fields W ms"
| "request_fields W (CmRequestX11 _ single protocol cookie n) =
     [w_u8 W (bool_u8 single), w_str W protocol, w_str W cookie, w_u32 W n]"
| "request_fields W (CmSetEnv _ name val) = [w_str W name, w_str W val]"
| "request_fields W (CmExec _ command) = [w_bytes W command]"
| "request_fields W (CmSignal g) = [w_str W (sig_name g)]"
| "request_fields W (CmRequestSubsystem _ name) = [w_str W name]"
| "request_fields W (CmWindowChange cw rh pw ph) = [w_u32 W cw, w_u32 W rh, w_u32 W pw, w_u32 W ph]"
| "request_fields W _ = []"

text \<open>The requests that can be written down: texts of the encoding's size, modes that fit into the
  server's table and do not name the end marker, a signal that is not a standard one under another guise.\<close>

fun sendable_request :: "channel_msg \<Rightarrow> bool" where
  "sendable_request (CmRequestPty _ term _ _ _ _ ms) \<longleftrightarrow>
     short_text term \<and> length ms \<le> 130 \<and> TTY_OP_END \<notin> fst ` set ms"
| "sendable_request (CmRequestX11 _ _ protocol cookie _) \<longleftrightarrow> short_text protocol \<and> short_text cookie"
| "sendable_request (CmSetEnv _ name val) \<longleftrightarrow> short_text name \<and> short_text val"
| "sendable_request (CmRequestShell _) \<longleftrightarrow> True"
| "sendable_request (CmExec _ command) \<longleftrightarrow> length command < 2 ^ 32"
| "sendable_request (CmSignal g) \<longleftrightarrow> short_text (sig_name g) \<and> sig_from_name (sig_name g) = g"
| "sendable_request (CmRequestSubsystem _ name) \<longleftrightarrow> short_text name"
| "sendable_request (CmWindowChange _ _ _ _) \<longleftrightarrow> True"
| "sendable_request (CmAgentForward _) \<longleftrightarrow> True"
| "sendable_request _ \<longleftrightarrow> False"

text \<open>What the server's channel hears: always that an answer is wanted, and the modes in the full table.\<close>

fun heard :: "channel_msg \<Rightarrow> channel_msg" where
  "heard (CmRequestPty _ term cw rh pw ph ms) =
     CmRequestPty True term cw rh pw ph (ms @ replicate (130 - length ms) (TTY_OP_END, 0))"
| "heard (CmRequestX11 _ single protocol cookie n) = CmRequestX11 True single protocol cookie n"
| "heard (CmSetEnv _ name val) = CmSetEnv True name val"
| "heard (CmRequestShell _) = CmRequestShell True"
| "heard (CmExec _ command) = CmExec True command"
| "heard (CmRequestSubsystem _ name) = CmRequestSubsystem True name"
| "heard (CmAgentForward _) = CmAgentForward True"
| "heard m = m"

text \<open>Which callback of the application serves a request.\<close>

fun serve_request ::
    "wire \<Rightarrow> ('h, 'pub, 'cert, 'st, 'z, 'key) handler \<Rightarrow> channel_id \<Rightarrow> channel_msg \<Rightarrow> 'h \<Rightarrow> ('st, 'z, 'key) server_session
      \<Rightarrow> ('h, ('st, 'z, 'key) server_session) handled" where
  "serve_request W H c (CmRequestPty _ term cw rh pw ph ms) h s = h_pty_request H h c term cw rh pw ph ms s"
| "serve_request W H c (CmRequestX11 _ single protocol cookie n) h s = h_x11_request H h c single protocol cookie n s"
| "serve_request W H c (CmSetEnv _ name val) h s = h_env_request H h c name val s"
| "serve_request W H c (CmRequestShell _) h s = h_shell_request H h c s"
| "serve_request W H c (CmExec _ command) h s = h_exec_request H h c command s"
| "serve_request W H c (CmSignal g) h s = h_signal H h c g s"
| "serve_request W H c (CmRequestSubsystem _ name) h s = h_subsystem_request H h c name s"
| "serve_request W H c (CmWindowChange cw rh pw ph) h s = h_window_change_request H h c cw rh pw ph s"
| "serve_request W H c (CmAgentForward _) h s =
     and_then (h_agent_request H h c s) (\<lambda>(response, h, s).
     and_then (if response then request_success W s else request_failure W s) (\<lambda>s. Ok (h, s)))"
| "serve_request W H c _ h s = Ok (h, s)"

text \<open>That an answer is wanted is noted in the channel's parameters.\<close>

definition note_reply :: "channel_id \<Rightarrow> bool \<Rightarrow> ('st, 'z, 'key) server_session \<Rightarrow> ('st, 'z, 'key) server_session" where
  "note_reply c wants s =
     (case ss_encrypted s of
        None \<Rightarrow> s
      | Some enc \<Rightarrow>
          ss_set_encrypted
            (case channels enc c of
               Some ch \<Rightarrow> enc\<lparr>channels := (channels enc)(c \<mapsto> ch\<lparr>chan_wants_reply := wants\<rparr>)\<rparr>
             | None \<Rightarrow> enc) s)"

section \<open>The modes of a terminal\<close>

definition mode_bytes :: "wire \<Rightarrow> (pty \<times> u32) list \<Rightarrow> bytes" where
  "mode_bytes W ms = concat (map (\<lambda>(code, val). pty_code code # be_put W val) ms) @ [0]"

lemma pty_code_zero: "pty_code p = 0 \<longleftrightarrow> p = TTY_OP_END"
  by (cases p) simp_all

context ssh_wire
begin

lemma length_mode_bytes: "length (mode_bytes W ms) = 5 * length ms + 1"
  by (induction ms) (auto simp: mode_bytes_def be_put_length)

lemma mode_bytes_Cons: "mode_bytes W ((code, val) # ms) = (pty_code code # be_put W val) @ mode_bytes W ms"
  by (simp add: mode_bytes_def)

lemma drop_mode_bytes: "i \<le> length ms \<Longrightarrow> drop (5 * i) (mode_bytes W ms) = mode_bytes W (drop i ms)"
proof (induction ms arbitrary: i)
  case (Cons m ms)
  show ?case
  proof (cases i)
    case (Suc j)
    then have "drop (5 * i) (mode_bytes W (m # ms)) = drop (5 * j) (mode_bytes W ms)"
      by (cases m) (simp add: mode_bytes_Cons be_put_length numeral_eq_Suc)
    then show ?thesis using Cons Suc by simp
  qed simp
qed simp

lemma puts_modes:
  "TTY_OP_END \<notin> fst ` set ms
    \<Longrightarrow> puts (concat (map (\<lambda>(code, val). if code = TTY_OP_END then [] else [w_u8 W (pty_code code), w_u32 W val]) ms)
          @ [w_u8 W (pty_code TTY_OP_END)]) b = Ok (b @ mode_bytes W ms)"
  by (induction ms arbitrary: b) (auto simp: mode_bytes_def put_u8 put_u32)

lemma puts_pty_mode_fields:
  assumes "TTY_OP_END \<notin> fst ` set ms"
  shows "puts (pty_mode_fields W ms) b = Ok (b @ be_put W (as_u32 (length (mode_bytes W ms))) @ mode_bytes W ms)"
  using puts_modes [OF assms, of "b @ be_put W (as_u32 (length (mode_bytes W ms)))"]
  by (simp add: pty_mode_fields_def put_u32 length_mode_bytes add.commute)

lemma pty_modes_read:
  assumes "TTY_OP_END \<notin> fst ` set ms" "length ms \<le> 130" "length ini = 130" "i \<le> length ms"
  shows "pty_modes W (mode_bytes W ms) i (take i ms @ drop i ini) = Ok (length ms, ms @ drop (length ms) ini)"
  using assms(4)
proof (induction "length ms - i" arbitrary: i)
  case 0
  then have "i = length ms" by simp
  then have "mode_bytes W ms ! (5 * i) = 0"
    using drop_mode_bytes [of i ms] length_mode_bytes [of ms]
    by (simp add: mode_bytes_def flip: hd_drop_conv_nth)
  then show ?case
    using \<open>i = length ms\<close> by (subst pty_modes.simps) (simp add: length_mode_bytes Let_def)
next
  case (Suc n)
  then have i: "i < length ms" by simp
  obtain code val where m: "ms ! i = (code, val)" by fastforce
  then have nz: "code \<noteq> TTY_OP_END" using assms(1) i nth_mem [OF i] by force
  have d: "drop (5 * i) (mode_bytes W ms) = pty_code code # be_put W val @ mode_bytes W (drop (Suc i) ms)"
    using drop_mode_bytes [of i ms] i m by (simp add: Cons_nth_drop_Suc [symmetric] mode_bytes_def)
  have "mode_bytes W ms ! (5 * i) = pty_code code"
    using d i length_mode_bytes [of ms] by (simp flip: hd_drop_conv_nth)
  moreover have "drop (5 * i + 1) (mode_bytes W ms) = be_put W val @ mode_bytes W (drop (Suc i) ms)"
    using d by (metis drop_drop drop_Suc_Cons drop0 add.commute One_nat_def)
  moreover have "(take i ms @ drop i ini)[i := (code, val)] = take (i + 1) ms @ drop (i + 1) ini"
    using i m assms(2,3) by (simp add: list_update_append take_Suc_conv_app_nth Cons_nth_drop_Suc [symmetric])
  moreover have "pty_modes W (mode_bytes W ms) (i + 1) (take (i + 1) ms @ drop (i + 1) ini)
      = Ok (length ms, ms @ drop (length ms) ini)"
    using Suc by simp
  ultimately show ?case
    using i nz assms(2) length_mode_bytes [of ms]
    by (subst pty_modes.simps) (simp add: Let_def slice_from_def be_read_put pty_code_zero pty_from_u8_code)
qed

end

section \<open>Requests arrive\<close>

lemma client_channel_message_request:
  "sendable_request m \<Longrightarrow> client_channel_message W c m
    = cl_with_enc (cl_channel_request W c (request_name m) (request_wants m) (request_fields W m))"
  by (cases m) (auto simp: cl_request_pty_def cl_request_x11_def cl_set_env_def cl_request_shell_def cl_exec_def
      cl_signal_def cl_request_subsystem_def cl_window_change_def cl_agent_forward_def)

definition serve_named ::
    "wire \<Rightarrow> ('h, 'pub, 'cert, 'st, 'z, 'key) handler \<Rightarrow> channel_id \<Rightarrow> string \<Rightarrow> bytes \<Rightarrow> 'h
      \<Rightarrow> ('st, 'z, 'key) server_session \<Rightarrow> ('h, ('st, 'z, 'key) server_session) handled" where
  "serve_named W H c name r h s =
     (if name = ''pty-req'' then srv_pty_request W H c r h s
      else if name = ''x11-req'' then srv_x11_request W H c r h s
      else if name = ''env'' then srv_env_request W H c r h s
      else if name = ''shell'' then h_shell_request H h c (to_channel c (CmRequestShell True) s)
      else if name = ''auth-agent-req@openssh.com'' then srv_agent_request W H c r h s
      else if name = ''exec'' then srv_exec_request W H c r h s
      else if name = ''subsystem'' then srv_subsystem_request W H c r h s
      else if name = ''window-change'' then srv_window_change_request W H c r h s
      else if name = ''signal'' then srv_signal_request W H c r h s
      else and_then (channel_failure W c s) (\<lambda>s. Ok (h, s)))"

lemma bool_u8_nonzero [simp]: "bool_u8 w \<noteq> 0 \<longleftrightarrow> w"
  by (simp add: bool_u8_def)

lemma note_reply_eq:
  "with_enc (\<lambda>enc. Ok (case channels enc c of
       Some ch \<Rightarrow> enc\<lparr>channels := (channels enc)(c \<mapsto> ch\<lparr>chan_wants_reply := (bool_u8 w \<noteq> 0)\<rparr>)\<rparr>
     | None \<Rightarrow> enc)) s = Ok (note_reply c w s)"
  by (cases "ss_encrypted s") (simp_all add: note_reply_def with_enc_def split: option.splits)

lemma puts_tail: "puts es [] = Ok q \<Longrightarrow> puts es b = Ok (b @ q)"
  using puts_from_empty [of es b] by simp

definition request_bytes :: "wire \<Rightarrow> u32 \<Rightarrow> string \<Rightarrow> bool \<Rightarrow> bytes \<Rightarrow> bytes" where
  "request_bytes W n name w q = be_put W n @ (be_put W (as_u32 (length name)) @ as_bytes name) @ bool_u8 w # q"

lemma request_put:
  assumes W: "ssh_wire W" and "short_text name" "puts es [] = Ok q"
  shows "puts ([w_u8 W CHANNEL_REQUEST, w_u32 W n, w_str W name, w_u8 W (bool_u8 w)] @ es) []
    = Ok (CHANNEL_REQUEST # request_bytes W n name w q)"
  using puts_tail [OF assms(3)]
  by (simp add: request_bytes_def puts_append put_text [OF W assms(2)] ssh_wire.put_u8 [OF W] ssh_wire.put_u32 [OF W])

lemma request_read:
  assumes W: "ssh_wire W" and "short_text name"
  shows "srv_channel_request W H (request_bytes W n name w q) h s
    = serve_named W H (ChannelId n) name q h (note_reply (ChannelId n) w s)"
  by (simp add: srv_channel_request_def serve_named_def [symmetric] decode_channel_id_def note_reply_eq request_bytes_def
      get_text [OF W assms(2)] ssh_wire.get_u32 [OF W] ssh_wire.get_u8 [OF W])

text \<open>The fields behind the head, request by request.\<close>

fun field_bytes :: "wire \<Rightarrow> channel_msg \<Rightarrow> bytes" where
  "field_bytes W (CmRequestPty _ term cw rh pw ph ms) =
     be_put W (as_u32 (length term)) @ as_bytes term @ be_put W cw @ be_put W rh @ be_put W pw @ be_put W ph
       @ be_put W (as_u32 (length (mode_bytes W ms))) @ mode_bytes W ms"
| "field_bytes W m = (case puts (request_fields W m) [] of Ok q \<Rightarrow> q | _ \<Rightarrow> [])"

lemma put_pty:
  assumes W: "ssh_wire W" and "sendable_request (CmRequestPty w term cw rh pw ph ms)" (is "sendable_request ?m")
  shows "puts (request_fields W ?m) [] = Ok (field_bytes W ?m)"
  using assms(2) by (simp add: put_text [OF W] ssh_wire.put_u32 [OF W] ssh_wire.puts_pty_mode_fields [OF W])

lemma serve_pty:
  assumes W: "ssh_wire W" and "sendable_request (CmRequestPty w term cw rh pw ph ms)" (is "sendable_request ?m")
  shows "serve_named W H c (request_name ?m) (field_bytes W ?m) h s = serve_request W H c ?m h (to_channel c (heard ?m) s)"
proof -
  have m: "TTY_OP_END \<notin> fst ` set ms" "length ms \<le> 130" and t: "short_text term" using assms(2) by simp_all
  let ?s = "mode_bytes W ms"
  have l: "length ?s < 2 ^ 32" using m(2) by (simp add: ssh_wire.length_mode_bytes [OF W])
  have "r_bytes W (be_put W (as_u32 (length ?s)) @ ?s) = Ok (?s, [])"
    using ssh_wire.get_bytes [OF W l, of "[]"] by simp
  moreover have "pty_modes W ?s 0 (replicate 130 (TTY_OP_END, 0)) = Ok (length ms, ms @ replicate (130 - length ms) (TTY_OP_END, 0))"
    using ssh_wire.pty_modes_read [OF W m, of "replicate 130 (TTY_OP_END, 0)" 0] by simp
  ultimately show ?thesis
    by (simp add: serve_named_def srv_pty_request_def get_text [OF W t] ssh_wire.get_u32 [OF W] slice_def Let_def m(2))
qed

lemma put_fields:
  assumes W: "ssh_wire W" and "sendable_request m"
  shows "puts (request_fields W m) [] = Ok (field_bytes W m)"
  using assms(2) put_pty [OF W]
  by (cases m) (simp_all add: put_text [OF W] ssh_wire.put_u32 [OF W] ssh_wire.put_u8 [OF W] ssh_wire.put_bytes [OF W]
      del: field_bytes.simps(1) sendable_request.simps(1))

lemma serve_fields:
  assumes W: "ssh_wire W" and "sendable_request m"
  shows "serve_named W H c (request_name m) (field_bytes W m) h s = serve_request W H c m h (to_channel c (heard m) s)"
proof (cases m)
  case (CmRequestPty w tm cw rh pw ph ms)
  with serve_pty [OF W] assms(2) show ?thesis by simp
next
  case (CmRequestX11 w single protocol cookie n)
  with assms(2) show ?thesis
    using get_text [OF W, of cookie "be_put W n"] ssh_wire.get_u32 [OF W, of n "[]"]
    by (simp add: serve_named_def srv_x11_request_def put_text [OF W] get_text [OF W] ssh_wire.put_u32 [OF W]
        ssh_wire.put_u8 [OF W] ssh_wire.get_u8 [OF W] ssh_wire.get_u32 [OF W])
next
  case (CmSetEnv w name val)
  with assms(2) show ?thesis
    using get_text [OF W, of val "[]"]
    by (simp add: serve_named_def srv_env_request_def put_text [OF W] get_text [OF W])
next
  case (CmExec w command)
  with assms(2) show ?thesis
    using ssh_wire.get_bytes [OF W, of command "[]"]
    by (simp add: serve_named_def srv_exec_request_def ssh_wire.put_bytes [OF W])
next
  case (CmSignal g)
  with assms(2) show ?thesis
    using get_text [OF W, of "sig_name g" "[]"]
    by (simp add: serve_named_def srv_signal_request_def put_text [OF W] Let_def)
next
  case (CmRequestSubsystem w name)
  with assms(2) show ?thesis
    using get_text [OF W, of name "[]"]
    by (simp add: serve_named_def srv_subsystem_request_def put_text [OF W])
next
  case (CmWindowChange cw rh pw ph)
  then show ?thesis
    using ssh_wire.get_u32 [OF W, of ph "[]"]
    by (simp add: serve_named_def srv_window_change_request_def ssh_wire.put_u32 [OF W] ssh_wire.get_u32 [OF W])
qed (use assms(2) in \<open>simp_all add: serve_named_def srv_agent_request_def\<close>)

lemma request_name_short: "sendable_request m \<Longrightarrow> short_text (request_name m)"
  by (cases m) (simp_all add: short_text_def ascii_def)

text \<open>The payload of a request for the channel that the server numbers \<open>n\<close>.\<close>

definition request_payload :: "wire \<Rightarrow> u32 \<Rightarrow> channel_msg \<Rightarrow> bytes" where
  "request_payload W n m = request_bytes W n (request_name m) (request_wants m) (field_bytes W m)"

lemma request_sent:
  assumes W: "ssh_wire W" and m: "sendable_request m" and s: "cl_encrypted s = Some enc" "channels enc c = Some ch"
  shows "client_channel_message W c m s
    = Ok (cl_set_encrypted (enc\<lparr>enc_write := enc_write enc
            @ frame W (CHANNEL_REQUEST # request_payload W (recipient_channel ch) m)\<rparr>) s)"
  using s ssh_wire.push_packet_frame [OF W request_put [OF W request_name_short [OF m] put_fields [OF W m]]]
  by (simp add: client_channel_message_request [OF m] cl_with_enc_def cl_channel_request_def enc_push_def request_payload_def)

lemma request_served:
  assumes "ssh_wire W" "sendable_request m"
  shows "srv_channel_request W H (request_payload W n m) h t
    = serve_request W H (ChannelId n) m h (to_channel (ChannelId n) (heard m) (note_reply (ChannelId n) (request_wants m) t))"
  by (simp add: request_payload_def request_read [OF assms(1) request_name_short [OF assms(2)]] serve_fields [OF assms])

end
