(* ===== verification/Login.thy ===== *)
theory Login
  imports ClientLoop ServerLoop
begin

text \<open>
  The two roles of an authentication by key, message by message: what the client writes is what the
  server reads, and the data that the one signs is the data against which the other checks.
\<close>

section \<open>Messages\<close>

definition text_field :: "wire \<Rightarrow> string \<Rightarrow> bytes" where
  "text_field W s = be_put W (as_u32 (length s)) @ as_bytes s"

definition blob_field :: "wire \<Rightarrow> bytes \<Rightarrow> bytes" where
  "blob_field W b = be_put W (as_u32 (length b)) @ b"

text \<open>The request for a key with blob \<open>b\<close>; \<open>flag\<close> tells a probe from a signed request.\<close>

definition key_fields :: "wire \<Rightarrow> u8 \<Rightarrow> string \<Rightarrow> bytes \<Rightarrow> bytes" where
  "key_fields W flag alg b = flag # text_field W alg @ blob_field W b"

definition key_request :: "wire \<Rightarrow> string \<Rightarrow> u8 \<Rightarrow> string \<Rightarrow> bytes \<Rightarrow> bytes" where
  "key_request W user flag alg b =
     text_field W user @ text_field W ''ssh-connection'' @ text_field W ''publickey'' @ key_fields W flag alg b"

definition cl_wrote ::
    "wire \<Rightarrow> bytes \<Rightarrow> ('st, 'z, 'key, 'cert, 'pub) client_session \<Rightarrow> ('st, 'z, 'key, 'cert, 'pub) client_session \<Rightarrow> bool" where
  "cl_wrote W p s s' \<longleftrightarrow> (\<exists>e e'. cl_encrypted s = Some e \<and> cl_encrypted s' = Some e' \<and> enc_write e' = enc_write e @ frame W p)"

definition ss_wrote :: "wire \<Rightarrow> bytes \<Rightarrow> ('st, 'z, 'key) server_session \<Rightarrow> ('st, 'z, 'key) server_session \<Rightarrow> bool" where
  "ss_wrote W p s s' \<longleftrightarrow> (\<exists>e e'. ss_encrypted s = Some e \<and> ss_encrypted s' = Some e' \<and> enc_write e' = enc_write e @ frame W p)"

context ssh_wire
begin

lemma put_text_field: "short_text t \<Longrightarrow> w_str W t = Ok (text_field W t)"
  using put_text [OF ssh_wire_axioms] by (simp add: text_field_def)

lemma get_text_field: "short_text t \<Longrightarrow> r_str W (text_field W t @ r) = Ok (t, r)"
  using get_text [OF ssh_wire_axioms] by (simp add: text_field_def)

lemma put_blob_field: "length b < 2 ^ 32 \<Longrightarrow> w_bytes W b = Ok (blob_field W b)"
  by (simp add: blob_field_def put_bytes)

lemma get_blob_field: "length b < 2 ^ 32 \<Longrightarrow> r_bytes W (blob_field W b @ r) = Ok (b, r)"
  by (simp add: blob_field_def get_bytes)

lemma get_last_blob: "length b < 2 ^ 32 \<Longrightarrow> r_bytes W (blob_field W b) = Ok (b, [])"
  using get_blob_field [of b "[]"] by simp

lemma service_names_short:
  "short_text ''ssh-connection''" "short_text ''publickey''"
  by (simp_all add: short_text_def ascii_def)

end

lemma auth_state_of_simps [simp]:
  "at_enc (auth_state_of now h enc s) = enc" "at_user (auth_state_of now h enc s) = auth_user (ss_common s)"
  "at_handler (auth_state_of now h enc s) = h" "at_clock (auth_state_of now h enc s) = now"
  by (simp_all add: auth_state_of_def)

section \<open>A key that both sides understand\<close>

text \<open>The client's key, whose signatures the crate verifies; and the server's crate reads the blob of the
  public key under the name of its algorithm as that key.\<close>

locale login_key = ssh_wire W for W :: wire +
  fixes S :: "('key, 'pub, 'sig) ssh_keys" and Q :: "('pub, 'cert) client_key_crates"
    and K :: "('pub, 'cert) cert_crates" and key :: "'key key_with_hash"
  assumes same_algorithm: "pub_algorithm Q (public_of S (kh_key key)) = key_algorithm S (kh_key key)"
    and algorithm_text: "short_text (alg_str S (key_with_hash_algorithm S key))"
    and blob_read: "\<exists>b h. pub_to_bytes S (public_of S (kh_key key)) = Ok b \<and> length b < 2 ^ 32
      \<and> pk_or_cert_decode K (alg_str S (key_with_hash_algorithm S key)) b = Inr (PlainKey (public_of S (kh_key key)) h)"
    and signature_verifies: "\<exists>sg signature. sign_with_hash_alg S key data = Ok sg \<and> length sg < 2 ^ 32
      \<and> sig_decode S sg = Ok signature \<and> verify S (public_of S (kh_key key)) data signature"
begin

abbreviation "key_pub \<equiv> public_of S (kh_key key)"
abbreviation "key_alg \<equiv> alg_str S (key_with_hash_algorithm S key)"
abbreviation "key_blob \<equiv> (case pub_to_bytes S key_pub of Ok b \<Rightarrow> b | _ \<Rightarrow> [])"

lemma blob_ok: "pub_to_bytes S key_pub = Ok key_blob" "length key_blob < 2 ^ 32"
    "\<exists>h. pk_or_cert_decode K key_alg key_blob = Inr (PlainKey key_pub h)"
  using blob_read by auto

lemma put_key_blob: "and_then (pub_to_bytes S key_pub) (w_bytes W) = Ok (blob_field W key_blob)"
  using blob_read by (auto simp: put_blob_field)

lemma offered_algorithm: "with_hash_alg (pub_algorithm Q key_pub) (kh_hash_alg key) = key_with_hash_algorithm S key"
  by (simp add: key_with_hash_algorithm_def same_algorithm)

lemma probe_written:
  assumes "short_text user"
  shows "write_auth_request W S Q user (MethodPublicKey key) enc
    = Ok (enc\<lparr>enc_write := enc_write enc @ frame W (USERAUTH_REQUEST # key_request W user 0 key_alg key_blob)\<rparr>)"
proof -
  have "puts (push USERAUTH_REQUEST # auth_request_fields W S Q user (MethodPublicKey key)) []
      = Ok (USERAUTH_REQUEST # key_request W user 0 key_alg key_blob)"
    using assms by (simp add: put_text_field service_names_short algorithm_text put_key_blob key_request_def key_fields_def)
  from push_packet_frame [OF this] show ?thesis by (simp add: write_auth_request_def enc_push_def)
qed

lemma to_sign:
  assumes "short_text user" "length sid < 2 ^ 32"
  shows "client_make_to_sign W S Q sid user (offer_of_key S key)
    = Ok (blob_field W sid @ USERAUTH_REQUEST # key_request W user 1 key_alg key_blob, length (blob_field W sid))"
  using assms
  by (simp add: client_make_to_sign_def offer_of_key_def offered_algorithm put_text_field service_names_short algorithm_text
      put_blob_field put_key_blob put_u8 key_request_def key_fields_def)

text \<open>The signed request, with the signature that the crate makes.\<close>

lemma signature_written:
  assumes "short_text user" "length (enc_session_id enc) < 2 ^ 32"
  obtains sg signature where
    "client_send_signature W S Q user (MethodPublicKey key) buf enc
      = Ok (blob_field W (enc_session_id enc) @ USERAUTH_REQUEST # key_request W user 1 key_alg key_blob @ blob_field W sg,
            enc\<lparr>enc_write := enc_write enc @ frame W (USERAUTH_REQUEST # key_request W user 1 key_alg key_blob @ blob_field W sg)\<rparr>)"
    "length sg < 2 ^ 32" "sig_decode S sg = Ok signature"
    "verify S key_pub (blob_field W (enc_session_id enc) @ USERAUTH_REQUEST # key_request W user 1 key_alg key_blob) signature"
proof -
  let ?D = "blob_field W (enc_session_id enc) @ USERAUTH_REQUEST # key_request W user 1 key_alg key_blob"
  from signature_verifies obtain sg signature where sg: "sign_with_hash_alg S key ?D = Ok sg" "length sg < 2 ^ 32"
    "sig_decode S sg = Ok signature" "verify S key_pub ?D signature" by blast
  let ?p = "USERAUTH_REQUEST # key_request W user 1 key_alg key_blob @ blob_field W sg"
  have "slice_from (length (blob_field W (enc_session_id enc))) (?D @ blob_field W sg) = Ok ?p"
    by (simp add: slice_from_def)
  moreover have "push_packet W [put_raw ?p] (enc_write enc) = Ok (enc_write enc @ frame W ?p)"
    by (rule push_packet_frame) simp
  ultimately have "send_signed W ?D (length (blob_field W (enc_session_id enc))) (Ok sg) enc
      = Ok (?D @ blob_field W sg, enc\<lparr>enc_write := enc_write enc @ frame W ?p\<rparr>)"
    by (simp add: send_signed_def put_blob_field [OF sg(2)] enc_push_def)
  then show ?thesis
    using that [of sg signature] sg by (simp add: to_sign [OF assms])
qed

text \<open>What the server makes of them.\<close>

lemma key_request_read:
  fixes V :: "('st, 'z, 'skey, 'pub, 'sig) env"
  assumes "env_wire V = W" "short_text user"
  shows "server_read_auth_request V K H now until iu original (key_request W user flag key_alg key_blob @ r) t
    = server_read_auth_request_pk V K H now until original user (key_fields W flag key_alg key_blob @ r) t"
  using assms by (simp add: server_read_auth_request_def key_request_def get_text_field service_names_short)

lemma key_fields_read:
  fixes V :: "('st, 'z, 'skey, 'pub, 'sig) env"
  assumes "env_wire V = W" "waiting_request t = Ok a"
  obtains h where
    "\<And>r. server_read_auth_request_pk V K H now until original user (key_fields W 1 key_alg key_blob @ r) t
      = publickey_signed V H until original user (PlainKey key_pub h) key_pub r t"
    "\<And>r. server_read_auth_request_pk V K H now until original user (key_fields W 0 key_alg key_blob @ r) t
      = publickey_offered W H until user key_alg key_blob key_pub t"
proof -
  from blob_ok(3) obtain h where "pk_or_cert_decode K key_alg key_blob = Inr (PlainKey key_pub h)" by blast
  then show ?thesis
    using that [of h] assms blob_ok(2) algorithm_text
    by (simp add: server_read_auth_request_pk_def key_fields_def get_u8 get_text_field get_blob_field usable_key_def)
qed

text \<open>The server accepts the offer of the key, and then the signed request.\<close>

lemma probe_answered:
  fixes V :: "('st, 'z, 'skey, 'pub, 'sig) env" and t :: "('st, 'z, 'skey) server_session"
  assumes V: "env_wire V = W" and t: "ss_encrypted t = Some senc" "enc_state senc = WaitingAuthRequest a"
    and user: "short_text user" and app: "auth_publickey_offered H h user key_pub = Ok (Accept, h1, d1)"
  shows "\<exists>t1 a1 w. process_packet V K H now wall (USERAUTH_REQUEST # key_request W user 0 key_alg key_blob) h t = Ok (h1, t1)
    \<and> ss_encrypted t1 = Some (senc\<lparr>enc_write := w, enc_state := WaitingAuthRequest a1\<rparr>)
    \<and> w = enc_write senc @ frame W (USERAUTH_PK_OK # text_field W key_alg @ blob_field W key_blob)
    \<and> sent_pk_ok (current a1) \<and> auth_user (ss_common t1) = user"
proof -
  let ?H = "auth_handler.truncate H" and ?t = "auth_state_of now h senc t"
  let ?buf = "USERAUTH_REQUEST # key_request W user 0 key_alg key_blob"
  have a: "waiting_request ?t = Ok a" using t(2) by (simp add: waiting_request_Ok)
  have o: "auth_publickey_offered ?H h user key_pub = Ok (Accept, h1, d1)"
    using app by (simp add: auth_handler.truncate_def)
  have "push_packet W [push USERAUTH_PK_OK, w_str W key_alg, w_bytes W key_blob] b
      = Ok (b @ frame W (USERAUTH_PK_OK # text_field W key_alg @ blob_field W key_blob))" for b
    by (rule push_packet_frame) (simp add: put_text_field algorithm_text put_blob_field [OF blob_ok(2)])
  then have p: "publickey_offered W ?H until user key_alg key_blob key_pub ?t
      = Ok (at_request (a\<lparr>current := Some (CurrentPublicKey key_blob (as_bytes key_alg) True)\<rparr>)
          (at_write (enc_write senc @ frame W (USERAUTH_PK_OK # text_field W key_alg @ blob_field W key_blob))
            (?t\<lparr>at_user := user, at_handler := h1, at_clock := now + d1\<rparr>)))" for until
    using a o by (simp add: publickey_offered_def ask_def)
  obtain g where "\<And>r. server_read_auth_request_pk V K ?H wall (now + sc_auth_rejection_time (ss_config t)) ?buf user
        (key_fields W 0 key_alg key_blob @ r) ?t
      = publickey_offered W ?H (now + sc_auth_rejection_time (ss_config t)) user key_alg key_blob key_pub ?t"
    using key_fields_read [OF V a] by metis
  from this [of "[]"] have "server_read_auth_request V K ?H wall (now + sc_auth_rejection_time (ss_config t))
        (none_rejection_until (ss_config t) (auth_attempts (ss_common t)) now) ?buf (key_request W user 0 key_alg key_blob) ?t
      = publickey_offered W ?H (now + sc_auth_rejection_time (ss_config t)) user key_alg key_blob key_pub ?t"
    by (simp add: key_request_read [OF V user, where r = "[]", simplified])
  then show ?thesis
    using t by (simp add: process_packet_def process_auth_request_def p put_auth_state_def Let_def)
      (rule exI, rule conjI, rule refl, simp)
qed

lemma signature_accepted:
  fixes V :: "('st, 'z, 'skey, 'pub, 'sig) env" and t :: "('st, 'z, 'skey) server_session"
  assumes V: "env_wire V = W" "ssh_of V = S'" and t: "ss_encrypted t = Some senc" "enc_state senc = WaitingAuthRequest a"
    and probed: "sent_pk_ok (current a)" "auth_user (ss_common t) = user"
    and user: "short_text user" "length (enc_session_id senc) < 2 ^ 32" "length sg < 2 ^ 32"
    and sg: "sig_decode S' sg = Ok signature"
      "verify S' key_pub (blob_field W (enc_session_id senc) @ USERAUTH_REQUEST # key_request W user 1 key_alg key_blob) signature"
    and app: "auth_publickey H h user key_pub = Ok (Accept, h1, d1)"
  shows "\<exists>t1. process_packet V K H now wall (USERAUTH_REQUEST # key_request W user 1 key_alg key_blob @ blob_field W sg) h t
      = auth_success V H h1 t1
    \<and> ss_encrypted t1 = Some (senc\<lparr>enc_write := enc_write senc @ frame W [USERAUTH_SUCCESS], enc_state := InitCompression\<rparr>)
    \<and> auth_user (ss_common t1) = user"
proof -
  let ?H = "auth_handler.truncate H" and ?t = "auth_state_of now h senc t"
  let ?p = "USERAUTH_REQUEST # key_request W user 1 key_alg key_blob" and ?r = "blob_field W sg"
  let ?until = "now + sc_auth_rejection_time (ss_config t)"
  have a: "waiting_request ?t = Ok a" using t(2) by (simp add: waiting_request_Ok)
  have o: "auth_publickey ?H h user key_pub = Ok (Accept, h1, d1)" using app by (simp add: auth_handler.truncate_def)
  have "push_packet W [push USERAUTH_SUCCESS] b = Ok (b @ frame W [USERAUTH_SUCCESS])" for b
    by (rule push_packet_frame) simp
  then have e: "signed_request_ends V ?H ?until user (PlainKey key_pub g) a ?t
      = Ok (?t\<lparr>at_handler := h1, at_clock := now + d1, at_enc := senc\<lparr>enc_write := enc_write senc @ frame W [USERAUTH_SUCCESS],
          enc_state := InitCompression\<rparr>\<rparr>)" for g
    using o V by (simp add: signed_request_ends_def ask_key_def ask_def authenticate_def server_auth_request_success_def)
  have "slice 0 (length (?p @ ?r) - length ?r) (?p @ ?r) = Ok ?p" by (simp add: slice_def)
  moreover have "auth_signed_data W (enc_session_id senc) ?p = Ok (blob_field W (enc_session_id senc) @ ?p)"
    by (simp add: auth_signed_data_def put_blob_field [OF user(2)])
  moreover have "may_try ?H a user key_pub ?t = Ok (True, ?t)"
    using probed by (simp add: may_try_def)
  moreover have "at_enc ?t = senc" by simp
  ultimately have s: "publickey_signed V ?H ?until (?p @ ?r) user (PlainKey key_pub g) key_pub ?r ?t
      = signed_request_ends V ?H ?until user (PlainKey key_pub g) a ?t" for g
    using a sg V by (simp add: publickey_signed_def get_last_blob [OF user(3)] Let_def del: append.simps append_Cons)
  obtain g where "\<And>r. server_read_auth_request_pk V K ?H wall ?until (?p @ ?r) user (key_fields W 1 key_alg key_blob @ r) ?t
      = publickey_signed V ?H ?until (?p @ ?r) user (PlainKey key_pub g) key_pub r ?t"
    using key_fields_read [OF V(1) a] by metis
  with s have "server_read_auth_request V K ?H wall ?until
        (none_rejection_until (ss_config t) (auth_attempts (ss_common t)) now) (?p @ ?r) (key_request W user 1 key_alg key_blob @ ?r) ?t
      = signed_request_ends V ?H ?until user (PlainKey key_pub g) a ?t"
    by (simp add: key_request_read [OF V(1) user(1)])
  then show ?thesis
    using t probed(2) by (simp add: process_packet_def process_auth_request_def e put_auth_state_def Let_def)
      (rule exI, rule conjI, rule refl, simp)
qed

text \<open>The client's part: the probe goes out when the service is there, and the signature when the server
  would take the key.\<close>

lemma authenticate_probes:
  fixes V :: "('st, 'z, 'key, 'pub, 'sig) env" and s :: "('st, 'z, 'key, 'cert, 'pub) client_session"
  assumes V: "env_wire V = W" "ssh_of V = S" and user: "short_text user"
    and s: "cl_encrypted s = Some enc" "enc_state enc = WaitingAuthServiceRequest True True \<or> (\<exists>a. enc_state enc = WaitingAuthRequest a)"
  shows "\<exists>s1. handle_msg V Q now (MsgAuthenticate user (MethodPublicKey key)) s = Ok s1
    \<and> cl_encrypted s1 = Some (enc\<lparr>enc_write := enc_write enc @ frame W (USERAUTH_REQUEST # key_request W user 0 key_alg key_blob),
         enc_state := WaitingAuthRequest (auth_request_new (MethodPublicKey key))\<rparr>)
    \<and> auth_user (cl_common s1) = user \<and> auth_method (cl_common s1) = Some (MethodPublicKey key)
    \<and> cl_handle_listens s1 = cl_handle_listens s"
  using s(2) probe_written [OF user, of enc] V s(1)
  by (elim disjE exE) (simp_all add: write_auth_request_if_needed_def ask_for_service_def Let_def)

lemma pk_ok_signs:
  fixes V :: "('st, 'z, 'key, 'pub, 'sig) env" and s :: "('st, 'z, 'key, 'cert, 'pub) client_session"
  assumes V: "env_wire V = W" "ssh_of V = S" and user: "short_text user" "length (enc_session_id enc) < 2 ^ 32"
    and s: "cl_encrypted s = Some enc" "enc_state enc = WaitingAuthRequest a" "current a = None"
      "auth_user (cl_common s) = user" "auth_method (cl_common s) = Some (MethodPublicKey key)"
  obtains s1 sg signature where
    "\<And>h. client_process_packet V Q A (USERAUTH_PK_OK # r) h s = Ok (h, s1)"
    "cl_encrypted s1 = Some (enc\<lparr>enc_write := enc_write enc
       @ frame W (USERAUTH_REQUEST # key_request W user 1 key_alg key_blob @ blob_field W sg)\<rparr>)"
    "cl_handle_listens s1 = cl_handle_listens s" "length sg < 2 ^ 32" "sig_decode S sg = Ok signature"
    "verify S key_pub (blob_field W (enc_session_id enc) @ USERAUTH_REQUEST # key_request W user 1 key_alg key_blob) signature"
proof -
  obtain sg signature where sg: "client_send_signature W S Q user (MethodPublicKey key) [] enc
      = Ok (blob_field W (enc_session_id enc) @ USERAUTH_REQUEST # key_request W user 1 key_alg key_blob @ blob_field W sg,
            enc\<lparr>enc_write := enc_write enc @ frame W (USERAUTH_REQUEST # key_request W user 1 key_alg key_blob @ blob_field W sg)\<rparr>)"
    "length sg < 2 ^ 32" "sig_decode S sg = Ok signature"
    "verify S key_pub (blob_field W (enc_session_id enc) @ USERAUTH_REQUEST # key_request W user 1 key_alg key_blob) signature"
    by (rule signature_written [OF user])
  have "\<exists>s1. client_pk_ok V Q enc s = Ok s1
    \<and> cl_encrypted s1 = Some (enc\<lparr>enc_write := enc_write enc
       @ frame W (USERAUTH_REQUEST # key_request W user 1 key_alg key_blob @ blob_field W sg)\<rparr>)
    \<and> cl_handle_listens s1 = cl_handle_listens s"
    using s V sg(1) by (simp add: client_pk_ok_def Let_def cl_set_encrypted_def del: client_send_signature.simps)
  then obtain s1 where s1: "client_pk_ok V Q enc s = Ok s1" "cl_encrypted s1 = Some (enc\<lparr>enc_write := enc_write enc
       @ frame W (USERAUTH_REQUEST # key_request W user 1 key_alg key_blob @ blob_field W sg)\<rparr>)"
    "cl_handle_listens s1 = cl_handle_listens s" by blast
  have "client_process_packet V Q A (USERAUTH_PK_OK # r) h s = Ok (h, s1)" for h
    using s s1(1) by (simp add: client_process_packet_def client_waiting_auth_def client_info_or_pk_ok_def Let_def)
  from that [OF this s1(2,3) sg(2-4)] show ?thesis .
qed

end

lemma success_logs_in:
  assumes "cl_encrypted s = Some enc" "enc_state enc = WaitingAuthRequest a" "cl_handle_listens s"
  shows "\<exists>s1 e. client_process_packet V Q A (USERAUTH_SUCCESS # r) h s = Ok (h, s1)
    \<and> cl_encrypted s1 = Some e \<and> enc_state e = InitCompression \<and> cl_replies s1 = cl_replies s @ [RepAuthSuccess]"
  using assms by (simp add: client_process_packet_def client_waiting_auth_def client_userauth_success_def cl_reply_def
      Let_def cl_set_encrypted_def)

end
