(* ===== verification/ClientProperties.thy ===== *)
theory ClientProperties
  imports ClientSafety Requests Login ServerProperties
begin

text \<open>
  The properties of the client, alone and together with the server, over the lemmas of \<open>ClientSafety\<close>,
  \<open>Requests\<close> and \<open>Login\<close>; and the example on which their witnesses rest: an application that trusts one key, a
  session of the client, and a user's key that client and server read alike.
\<close>

section \<open>An example\<close>

definition sample_app :: "(nat, unit, unit, unit, unit, bytes) app" where
  "sample_app = \<lparr>
     c_auth_banner = (\<lambda>h t s. Ok (h, s)),
     c_check_server_key = (\<lambda>h k. Ok (k = [11], h)),
     c_kex_done = (\<lambda>h x n s. Ok (h + 1, s)),
     c_channel_open_confirmation = (\<lambda>h c m w s. Ok (h, s)),
     c_channel_success = (\<lambda>h c s. Ok (h, s)),
     c_channel_failure = (\<lambda>h c s. Ok (h, s)),
     c_channel_close = (\<lambda>h c s. Ok (h, s)),
     c_channel_eof = (\<lambda>h c s. Ok (h, s)),
     c_channel_open_failure = (\<lambda>h c f d l s. Ok (h, s)),
     c_open_session = (\<lambda>h c s. Ok (h, s)),
     c_open_direct_tcpip = (\<lambda>h c i s. Ok (h, s)),
     c_open_direct_streamlocal = (\<lambda>h c p s. Ok (h, s)),
     c_open_x11 = (\<lambda>h c a p s. Ok (h, s)),
     c_open_forwarded_tcpip = (\<lambda>h c i s. Ok (h, s)),
     c_open_forwarded_streamlocal = (\<lambda>h c p s. Ok (h, s)),
     c_open_agent_forward = (\<lambda>h c s. Ok (h, s)),
     c_should_accept_unknown = (\<lambda>h c t. (False, h)),
     c_open_unknown = (\<lambda>h c s. Ok (h, s)),
     c_data = (\<lambda>h c d s. Ok (h, s)),
     c_extended_data = (\<lambda>h c x d s. Ok (h, s)),
     c_xon_xoff = (\<lambda>h c b s. Ok (h, s)),
     c_exit_status = (\<lambda>h c n s. Ok (h, s)),
     c_exit_signal = (\<lambda>h c g b e l s. Ok (h, s)),
     c_window_adjusted = (\<lambda>h c n s. Ok (h, s)),
     c_adjust_window = (\<lambda>h c n. (n, h)),
     c_host_keys_announced = (\<lambda>h k s. Ok (h, s)),
     c_disconnected = (\<lambda>h x. Ok h)\<rparr>"

definition sample_client_keys :: "(bytes, unit) client_key_crates" where
  "sample_client_keys = \<lparr>pub_algorithm = (\<lambda>p. Ed25519), cert_type = (\<lambda>c. []), cert_to_bytes = (\<lambda>c. Ok []),
     algorithm_from_str = (\<lambda>t. None)\<rparr>"

text \<open>The server's crate knows the one algorithm.\<close>

definition login_certs :: "(bytes, unit) cert_crates" where
  "login_certs = sample_certs\<lparr>algorithm_new := (\<lambda>a. Inr Ed25519)\<rparr>"

definition sample_key :: "unit key_with_hash" where
  "sample_key = \<lparr>kh_key = (), kh_hash_alg = None\<rparr>"

text \<open>A server's application that lets the user in with the key.\<close>

definition key_application :: "(unit, bytes, unit, unit, unit, unit) handler" where
  "key_application = sample_application\<lparr>auth_publickey_offered := (\<lambda>h user key. Ok (Accept, h, 1)),
     auth_publickey := (\<lambda>h user key. Ok (Accept, h, 2))\<rparr>"

definition user_session :: "encrypted_state \<Rightarrow> (unit, unit, unit, unit, bytes) client_session" where
  "user_session st = client_session_new 100 ((client_common_new sample_client_config [2])\<lparr>cs_encrypted := Some
      ((sample_encrypted (sample_channel 0))\<lparr>enc_state := st\<rparr>)\<rparr>) []"

lemma sample_alg_short: "short_text ''ssh-ed25519''"
  by (simp add: short_text_def ascii_def)

interpretation sample_login: login_key W0 sample_ssh sample_client_keys login_certs sample_key
proof unfold_locales
  show "\<exists>b h. pub_to_bytes sample_ssh (public_of sample_ssh (kh_key sample_key)) = Ok b \<and> length b < 2 ^ 32
      \<and> pk_or_cert_decode login_certs (alg_str sample_ssh (key_with_hash_algorithm sample_ssh sample_key)) b
        = Inr (PlainKey (public_of sample_ssh (kh_key sample_key)) h)"
    by (simp add: sample_ssh_def login_certs_def sample_certs_def pk_or_cert_decode_def certificate_algorithm_def
        key_with_hash_algorithm_def sample_key_def)
qed (simp_all add: sample_ssh_def sample_client_keys_def sample_key_def key_with_hash_algorithm_def sample_alg_short
    sign_with_hash_alg_def)

text \<open>The start of the client, and the first exchange in three rounds.\<close>

definition early :: "('st, 'pub) client_kex \<Rightarrow> ('st, 'z, 'key, 'cert, 'pub) client_session \<Rightarrow> bool" where
  "early k s \<longleftrightarrow> cl_encrypted s = None \<and> cl_kex s = KexInProgress k \<and> \<not> strict_kex (cl_common s) \<and> \<not> disconnected (cl_common s)
     \<and> pw_cipher (packet_writer (cl_common s)) = ClearKey \<and> pw_compress (packet_writer (cl_common s)) = CompressNone
     \<and> cl_config s = ck_config k"

abbreviation sent_so_far where "sent_so_far s \<equiv> sent_bytes (write_buffer (packet_writer (cl_common s)))"

lemma flush_into_parts:
  "pw_cipher (snd (flush_into w)) = pw_cipher w" "pw_compress (snd (flush_into w)) = pw_compress w"
  "sent_bytes (write_buffer (snd (flush_into w))) = sent_bytes (write_buffer w)"
  by (simp_all add: flush_into_def)

lemma sample_start:
  "\<exists>hello s. connect_stream sample_env sample_client_config [2] msgs = Ok (hello, s) \<and> early sample_client_kex s
    \<and> sent_so_far s \<le> 1000"
proof -
  have p: "pw_cipher packet_writer_clear = ClearKey" "pw_compress packet_writer_clear = CompressNone"
    "sent_bytes (write_buffer packet_writer_clear) = 0"
    by (simp_all add: packet_writer_clear_def packet_writer_new_def sshbuffer_new_def)
  have i: "puts (kexinit_fields W0 sample_alg_str (replicate 16 3) sample_pref None) [] = Ok (sample_init None)"
    by (rule sample_init_sent) simp
  have "length (sample_init None) \<le> 1000" "sample_init None \<noteq> []"
    by (simp_all add: sample_init_def nl_def rfc.be_put_length kex_names_to_send_def sample_pref_def as_encoded_string_def
        key_names_to_send_def kex_names cipher_names mac_names kex_extensions)
  from sample_clear [OF p(1,2) i this(2,1)] obtain w where
    w: "packet (crates_of sample_env) (kexinit_fields W0 sample_alg_str (replicate 16 3) sample_pref None) packet_writer_clear
      = Ok (sample_init None, w)" "pw_cipher w = ClearKey" "pw_compress w = CompressNone" "sent_bytes (write_buffer w) \<le> 1000"
    unfolding p(3) by (simp only: add_0) blast
  have c: "cookie_of sample_env = replicate 16 3" "alg_str sample_ssh = sample_alg_str" "cc_preferred sample_client_config = sample_pref"
    by (simp_all add: sample_env_def sample_ssh_def sample_client_config_def)
  have k: "(client_kex_new sample_client_config (cc_client_id sample_client_config) [2] Initial)
      \<lparr>ck_exchange := (ck_exchange (client_kex_new sample_client_config (cc_client_id sample_client_config) [2] Initial))
         \<lparr>client_kex_init := sample_init None\<rparr>\<rparr> = sample_client_kex"
    by (simp add: client_kex_new_def sample_client_kex_def sample_exchange_def exchange_new_def sample_client_config_def) (simp add: as_bytes_def)
  have "client_kexinit sample_env (client_kex_new sample_client_config (cc_client_id sample_client_config) [2] Initial) packet_writer_clear
      = Ok (sample_client_kex, w)"
    using w(1) c k by (simp add: client_kexinit_def write_kex_def client_kex_new_def)
  then show ?thesis
    using w(2-4) by (simp add: connect_stream_def cl_begin_rekey_def client_session_new_def client_common_new_def split_beta early_def
        flush_into_parts sample_client_kex_def)
qed

lemma early_round:
  assumes s: "early k s" and b: "buffer b = [0, 0, 0, 0, 0] @ p" "first p = Some m" "is_kex_msg m"
    and st: "client_step V k (Some \<lparr>in_buffer = p, in_seqn = seqn b\<rparr>) (packet_writer (cl_common s)) = Ok (NeedsReply k' r, w)"
      "pw_cipher w = ClearKey" "pw_compress w = CompressNone" "sent_bytes (write_buffer w) \<le> sent_so_far s + 1000"
    and k: "ck_config k' = ck_config k"
  shows "\<exists>out n s'. client_round V Q H order now (CePacket b) h s = Ok (Some (out, h, s', n, None)) \<and> early k' s'
    \<and> sent_so_far s' \<le> sent_so_far s + 1000"
proof -
  have "\<not> is_kex_msg DISCONNECT" "\<not> is_kex_msg IGNORE" "\<not> is_kex_msg UNIMPLEMENTED" "\<not> is_kex_msg DEBUG" by code_simp+
  with b(3) have m: "m \<noteq> DISCONNECT" "m \<noteq> IGNORE" "m \<noteq> UNIMPLEMENTED" "m \<noteq> DEBUG" by blast+
  show ?thesis
    using s st m b k
    by (cases r; cases p) (simp_all add: client_round_def client_take_event_def client_loop_packet_def client_maybe_decompress_def
        slice_from_def early_def client_on_packet_def client_strict_message_ok_def client_reply_kex_def cl_flush_clear Let_def
        client_start_compression_def split_beta flush_into_parts common_reset_seqn_def pw_reset_seqn_def)
qed

lemma idle_cl_flush:
  assumes "cl_encrypted s = Some enc" "enc_write enc = []" "write_cursor enc = 0" "\<not> rekey_wanted enc"
    and "sent_so_far s < rekey_write_limit (cc_limits (cl_config s))" "now - last_rekey enc < rekey_time_limit (cc_limits (cl_config s))"
  shows "cl_flush V now s = Ok s"
  using assms by (cases "skip_exchange (enc_kex enc)") (simp_all add: cl_flush_def enc_flush_def flush_loop.simps Let_def)

lemma last_round:
  assumes s: "early k s" and b: "buffer b = [0, 0, 0, 0, 0, NEWKEYS]"
    and k: "ck_state k = CWaitingForNewKeys [11] nk" "ck_config k = sample_client_config"
    and sent: "sent_so_far s \<le> 5000"
  shows "\<exists>out n s' enc. client_round V Q sample_app order 0 (CePacket b) h s = Ok (Some (out, h + 1, s', n, None))
    \<and> cl_encrypted s' = Some enc \<and> enc_session_id enc = nk_session_id nk"
proof -
  have m: "is_kex_msg NEWKEYS" by code_simp
  let ?s = "s\<lparr>cl_common := (cl_common s)\<lparr>received_data := True\<rparr>, cl_kex := KexTaken\<rparr>"
  let ?t = "?s\<lparr>cl_common := set_encrypted (initial_encrypted_state ?s) nk 0
      ((cl_common ?s)\<lparr>strict_kex := strict_kex (cl_common ?s) \<or> n_strict_kex (nk_names nk)\<rparr>), cl_kex := KexIdle\<rparr>"
  have f: "cl_flush V 0 ?t = Ok ?t"
    by (rule idle_cl_flush) (use s k(2) sent in \<open>auto simp: set_encrypted_def early_def set_cipher_def sample_client_config_def
        client_config_default_def limits_default_def\<close>)
  have a: "c_kex_done sample_app h x names s = Ok (h + 1, s)" "c_check_server_key sample_app h [11] = Ok (True, h)" for h x names s
    by (simp_all add: sample_app_def)
  have r: "client_reply_kex V Q sample_app order 0 k \<lparr>in_buffer = [NEWKEYS], in_seqn = seqn b\<rparr> h ?s
      = Ok (h + 1, ?t, if strict_kex (cl_common ?t) then 0 else seqn b)"
    using s f by (simp add: client_reply_kex_def k(1) expect_def client_kex_done_def a client_finish_first_kex_def Let_def early_def
        initial_encrypted_state_def cong: if_cong split del: if_split)
  define t where "t = ?t"
  obtain n where ev: "client_take_event V Q sample_app order 0 (CePacket b) h (s\<lparr>cl_common := (cl_common s)\<lparr>received_data := False\<rparr>\<rparr>)
      = Ok (Some (h + 1, t, Some n, None))"
    using s b m r unfolding t_def by (simp add: client_take_event_def client_loop_packet_def client_maybe_decompress_def slice_from_def
        early_def client_on_packet_def client_strict_message_ok_def)
  obtain enc where e: "cl_encrypted t = Some enc" "enc_state enc \<noteq> InitCompression" "enc_session_id enc = nk_session_id nk"
    unfolding t_def by (simp add: set_encrypted_def initial_encrypted_state_def)
  show ?thesis
    using e f unfolding t_def [symmetric] by (simp add: client_round_def ev split_beta client_start_compression_def Let_def)
qed


abbreviation clear_packet :: "bytes \<Rightarrow> u32 \<Rightarrow> sshbuffer" where
  "clear_packet p n \<equiv> \<lparr>buffer = [0, 0, 0, 0, 0] @ p, next_len = 0, sent_bytes = 0, seqn = n\<rparr>"

definition first_packets :: "((unit, unit, unit, bytes, bytes) env \<times> nat \<times> (unit, unit, bytes) client_event) list" where
  "first_packets = map (\<lambda>b. (sample_env, 0, CePacket b))
     [clear_packet (sample_init (Some [Ed25519])) 1, clear_packet sample_reply 2, clear_packet [NEWKEYS] 3]"

lemma sample_connects:
  "\<exists>hello s outs s'. connect_stream sample_env sample_client_config [2] msgs = Ok (hello, s)
    \<and> clear_run sample_env sample_client_keys sample_app order first_packets 0 s outs 1 s' \<and> cl_encrypted s' \<noteq> None"
proof -
  let ?k1 = "sample_client_kex\<lparr>ck_exchange := sample_both\<lparr>client_ephemeral := sample_point\<rparr>,
    ck_state := CWaitingForDhReply sample_agreed (Curve25519Kex \<lparr>ck_local = Some [1], ck_shared = None\<rparr>)\<rparr>"
  have c: "ck_config sample_client_kex = sample_client_config" by (simp add: sample_client_kex_def)
  obtain hello s where s: "connect_stream sample_env sample_client_config [2] msgs = Ok (hello, s)" "early sample_client_kex s"
    "sent_so_far s \<le> 1000" using sample_start by blast
  have "is_kex_msg KEXINIT" "is_kex_msg KEX_ECDH_REPLY" by code_simp+
  note m = this
  have w0: "pw_cipher (packet_writer (cl_common s)) = ClearKey" "pw_compress (packet_writer (cl_common s)) = CompressNone"
    using s(2) by (simp_all add: early_def)
  obtain w1 where w1: "client_step sample_env sample_client_kex (Some \<lparr>in_buffer = sample_init (Some [Ed25519]), in_seqn = 1\<rparr>)
        (packet_writer (cl_common s)) = Ok (NeedsReply ?k1 False, w1)"
      "pw_cipher w1 = ClearKey" "pw_compress w1 = CompressNone" "sent_bytes (write_buffer w1) \<le> sent_so_far s + 1000"
    by (rule sample_client_first [OF w0])
  have "\<exists>out n s1. client_round sample_env sample_client_keys sample_app order 0
      (CePacket (clear_packet (sample_init (Some [Ed25519])) 1)) 0 s = Ok (Some (out, 0, s1, n, None)) \<and> early ?k1 s1
      \<and> sent_so_far s1 \<le> sent_so_far s + 1000"
    by (rule early_round [OF s(2) _ _ m(1) _ w1(2-4)]) (use w1(1) in \<open>simp_all add: sample_init_def\<close>)
  then obtain out1 n1 s1 where r1: "client_round sample_env sample_client_keys sample_app order 0
      (CePacket (clear_packet (sample_init (Some [Ed25519])) 1)) 0 s = Ok (Some (out1, 0, s1, n1, None))" "early ?k1 s1"
      "sent_so_far s1 \<le> sent_so_far s + 1000" by blast
  have c1: "pw_cipher (packet_writer (cl_common s1)) = ClearKey" "pw_compress (packet_writer (cl_common s1)) = CompressNone"
    using r1(2) by (simp_all add: early_def)
  let ?k2 = "\<lambda>nk. ?k1\<lparr>ck_exchange := sample_final, ck_state := CWaitingForNewKeys [11] nk\<rparr>"
  obtain nk w2 where w2: "client_step sample_env ?k1 (Some \<lparr>in_buffer = sample_reply, in_seqn = 2\<rparr>) (packet_writer (cl_common s1))
      = Ok (NeedsReply (?k2 nk) True, w2)"
      "pw_cipher w2 = ClearKey" "pw_compress w2 = CompressNone" "sent_bytes (write_buffer w2) \<le> sent_so_far s1 + 1000"
    by (rule sample_client_second [OF c1, of ?k1]) (simp_all add: sample_client_kex_def)
  have "\<exists>out n s2. client_round sample_env sample_client_keys sample_app order 0
      (CePacket (clear_packet sample_reply 2)) 0 s1 = Ok (Some (out, 0, s2, n, None)) \<and> early (?k2 nk) s2
      \<and> sent_so_far s2 \<le> sent_so_far s1 + 1000"
    by (rule early_round [OF r1(2) _ _ m(2) _ w2(2-4)]) (use w2(1) in \<open>simp_all add: sample_reply_def\<close>)
  then obtain out2 n2 s2 where r2: "client_round sample_env sample_client_keys sample_app order 0
      (CePacket (clear_packet sample_reply 2)) 0 s1 = Ok (Some (out2, 0, s2, n2, None))" "early (?k2 nk) s2"
      "sent_so_far s2 \<le> sent_so_far s1 + 1000" by blast
  have "\<exists>out n s3 enc. client_round sample_env sample_client_keys sample_app order 0 (CePacket (clear_packet [NEWKEYS] 3)) 0 s2
      = Ok (Some (out, 0 + 1, s3, n, None)) \<and> cl_encrypted s3 = Some enc \<and> enc_session_id enc = nk_session_id nk"
    by (rule last_round [OF r2(2)]) (use s(3) r1(3) r2(3) c in simp_all)
  then obtain out3 n3 s3 enc where r3: "client_round sample_env sample_client_keys sample_app order 0 (CePacket (clear_packet [NEWKEYS] 3)) 0 s2
      = Ok (Some (out3, 1, s3, n3, None))" "cl_encrypted s3 = Some enc" by auto
  have en: "client_event_enabled (CePacket b) x" "cl_encrypted x = None" if "early k x" for b k x
    using that by (simp_all add: early_def client_event_enabled_def)
  have "clear_run sample_env sample_client_keys sample_app order first_packets 0 s (out1 @ out2 @ out3 @ []) 1 s3"
    unfolding first_packets_def list.map
    by (rule clear_round [OF en(2) [OF s(2)] redrawn_refl en(1) [OF s(2)] r1(1)],
        rule clear_round [OF en(2) [OF r1(2)] redrawn_refl en(1) [OF r1(2)] r2(1)],
        rule clear_round [OF en(2) [OF r2(2)] redrawn_refl en(1) [OF r2(2)] r3(1)], rule clear_here)
  with s(1) r3(2) show ?thesis by auto
qed


lemma sample_app_quiet: "quiet_kex_done sample_app"
  unfolding quiet_kex_done_def by (rule exI [of _ "\<lambda>h x names. Ok (h + 1)"]) (simp add: sample_app_def)

section \<open>Before the server is trusted\<close>

text \<open>Property C3: from the start of a session to its first exchange of keys, in whatever order packets and timers
  come, with new random values in every round, the messages of the application wait (if its \<open>kex_done\<close> leaves
  the session alone). There is one KEXINIT, \<open>sent\<close>, in the first bytes that the client writes. The client's
  session stays unencrypted, with its own first exchange, begun with \<open>sent\<close>, under way, until that exchange is
  done; and then its session identifier, the key with which it opens packets, and the key with which it seals
  them, advanced by the packets sealed since, come from an exchange about \<open>sent\<close> and a KEXINIT of the server, whose
  hash was signed with a host key that the application has accepted (or whose negotiated method is \<open>none\<close>).\<close>

theorem client_trusts_checked_key:
  assumes "connect_stream V cfg sshid msgs = Ok (hello, s)" "clear_run V Q H order es h s outs h' s'" "quiet_kex_done H"
  shows "\<exists>sent. announced V cfg hello sent \<and> cl_receiver s' = msgs \<and> (case cl_encrypted s' of
        None \<Rightarrow> \<exists>k. cl_kex s' = KexInProgress k \<and> first_machine V cfg sent k
      | Some enc \<Rightarrow> \<exists>nk. enc_session_id enc = nk_session_id nk
          \<and> cs_remote_to_local (cl_common s') = remote_to_local (nk_cipher nk)
          \<and> seals_on (env_wire V) (crypto_of (crates_of V)) (local_to_remote (nk_cipher nk)) (pw_cipher (packet_writer (cl_common s')))
          \<and> trusted_keys V H cfg sent nk)"
proof -
  from connect_stream_clear [OF assms(1)] obtain sent where
    c: "announced V cfg hello sent" "clear_session V cfg sent s" "cl_receiver s = msgs" by blast
  from clear_run_keeps [OF assms(2,3) disjI1 [OF c(2)]] c(1,3) show ?thesis
    by (intro exI [of _ sent]) (auto simp: clear_session_def trusting_def keyed_by_def)
qed

theorem client_trusts_checked_key_witness:
  "\<exists>hello s outs s' sent enc nk. connect_stream sample_env sample_client_config [2] [MsgRekey] = Ok (hello, s)
    \<and> clear_run sample_env sample_client_keys sample_app (\<lambda>m. []) first_packets 0 s outs 1 s'
    \<and> announced sample_env sample_client_config hello sent
    \<and> cl_receiver s' = [MsgRekey] \<and> cl_encrypted s' = Some enc \<and> enc_session_id enc = nk_session_id nk
    \<and> cs_remote_to_local (cl_common s') = remote_to_local (nk_cipher nk)
    \<and> trusted_keys sample_env sample_app sample_client_config sent nk"
proof -
  obtain hello s outs s' where r: "connect_stream sample_env sample_client_config [2] [MsgRekey] = Ok (hello, s)"
    "clear_run sample_env sample_client_keys sample_app (\<lambda>m. []) first_packets 0 s outs 1 s'" "cl_encrypted s' \<noteq> None"
    using sample_connects by blast
  from client_trusts_checked_key [OF r(1,2) sample_app_quiet] r(3) obtain sent enc nk where
    "announced sample_env sample_client_config hello sent" "cl_receiver s' = [MsgRekey]"
    "cl_encrypted s' = Some enc" "enc_session_id enc = nk_session_id nk"
    "cs_remote_to_local (cl_common s') = remote_to_local (nk_cipher nk)"
    "trusted_keys sample_env sample_app sample_client_config sent nk"
    by auto
  with r(1,2) show ?thesis by blast
qed

text \<open>Property C9: until then nothing that the application asks for, a password above all, has any influence:
  whatever messages wait, the client's bytes, its handler and the rest of its state are the same.\<close>

theorem credentials_held_back:
  assumes "connect_stream V cfg sshid msgs = Ok (hello, s)" "clear_run V Q H order es h s outs h' s'" "quiet_kex_done H"
  shows "\<exists>t t'. connect_stream V cfg sshid msgs' = Ok (hello, t) \<and> clear_run V Q H order es h t outs h' t'
    \<and> t' = s'\<lparr>cl_receiver := msgs'\<rparr>"
  using clear_run_refilled [OF assms(2,3)] connect_stream_clear [OF assms(1)] connect_stream_refilled [OF assms(1)] by blast

theorem credentials_held_back_witness:
  "\<exists>hello s outs s'. connect_stream sample_env sample_client_config [2] [MsgAuthenticate ''a'' (MethodPassword ''b'')] = Ok (hello, s)
    \<and> clear_run sample_env sample_client_keys sample_app (\<lambda>m. []) first_packets 0 s outs 1 s' \<and> cl_encrypted s' \<noteq> None"
proof -
  obtain hello s outs s' where r: "connect_stream sample_env sample_client_config [2] [] = Ok (hello, s)"
    "clear_run sample_env sample_client_keys sample_app (\<lambda>m. []) first_packets 0 s outs 1 s'" "cl_encrypted s' \<noteq> None"
    using sample_connects by blast
  from credentials_held_back [OF r(1,2) sample_app_quiet] r(3) show ?thesis by fastforce
qed

section \<open>The client and the server\<close>

text \<open>Property C8: a client whose user is to be logged in with a key of which the server's application approves
  gets in, whatever has been written before: what the client writes, the server reads; the probe is
  answered with PK_OK, to that the client signs, the server finds the signature good over its own
  session id, and its answer makes the client tell its application.\<close>

theorem publickey_login:
  fixes V :: "('st, 'z, 'key, 'pub, 'sig) env" and V' :: "('st, 'z, 'skey, 'pub, 'sig) env"
    and s :: "('st, 'z, 'key, 'cert, 'pub) client_session" and t :: "('st, 'z, 'skey) server_session"
  assumes "login_key W (ssh_of V) Q K key"
    and crates: "env_wire V = W" "env_wire V' = W" "sig_decode (ssh_of V') = sig_decode (ssh_of V)"
      "verify (ssh_of V') = verify (ssh_of V)"
    and s: "cl_encrypted s = Some enc" "enc_state enc = WaitingAuthServiceRequest True True" "cl_handle_listens s"
    and t: "ss_encrypted t = Some senc" "enc_state senc = WaitingAuthRequest a"
    and sid: "enc_session_id senc = enc_session_id enc" "length (enc_session_id enc) < 2 ^ 32"
    and user: "short_text user"
    and app: "auth_publickey_offered H h user (public_of (ssh_of V) (kh_key key)) = Ok (Accept, h1, d1)"
      "auth_publickey H h1 user (public_of (ssh_of V) (kh_key key)) = Ok (Accept, h2, d2)"
  shows "\<exists>probe pk_ok request s1 s2 s3 t1 t2.
      handle_msg V Q now (MsgAuthenticate user (MethodPublicKey key)) s = Ok s1 \<and> cl_wrote W probe s s1
    \<and> process_packet V' K H snow wall probe h t = Ok (h1, t1) \<and> ss_wrote W pk_ok t t1
    \<and> client_process_packet V Q A pk_ok g s1 = Ok (g, s2) \<and> cl_wrote W request s1 s2
    \<and> process_packet V' K H snow' wall' request h1 t1 = auth_success V' H h2 t2 \<and> ss_wrote W [USERAUTH_SUCCESS] t1 t2
    \<and> logged_in t2 \<and> auth_user (ss_common t2) = user
    \<and> client_process_packet V Q A [USERAUTH_SUCCESS] g s2 = Ok (g, s3) \<and> RepAuthSuccess \<in> set (cl_replies s3)
    \<and> (\<exists>e. cl_encrypted s3 = Some e \<and> may_open (enc_state e))"
proof -
  let ?pub = "public_of (ssh_of V) (kh_key key)" and ?alg = "alg_str (ssh_of V) (key_with_hash_algorithm (ssh_of V) key)"
  let ?blob = "case pub_to_bytes (ssh_of V) ?pub of Ok b \<Rightarrow> b | _ \<Rightarrow> []"
  let ?probe = "USERAUTH_REQUEST # key_request W user 0 ?alg ?blob" and ?signed = "USERAUTH_REQUEST # key_request W user 1 ?alg ?blob"
  let ?m = "MethodPublicKey key :: ('key, 'cert, 'pub) auth_method"
  let ?ok = "USERAUTH_PK_OK # text_field W ?alg @ blob_field W ?blob"
  obtain s1 where s1: "handle_msg V Q now (MsgAuthenticate user ?m) s = Ok s1"
    "cl_encrypted s1 = Some (enc\<lparr>enc_write := enc_write enc @ frame W ?probe,
       enc_state := WaitingAuthRequest (auth_request_new ?m)\<rparr>)"
    "auth_user (cl_common s1) = user" "auth_method (cl_common s1) = Some ?m" "cl_handle_listens s1"
    using login_key.authenticate_probes [OF assms(1) crates(1) refl user s(1)] s(2,3) by blast
  obtain t1 a1 where t1: "process_packet V' K H snow wall ?probe h t = Ok (h1, t1)"
    "ss_encrypted t1 = Some (senc\<lparr>enc_write := enc_write senc @ frame W ?ok, enc_state := WaitingAuthRequest a1\<rparr>)"
    "sent_pk_ok (current a1)" "auth_user (ss_common t1) = user"
    using login_key.probe_answered [OF assms(1) crates(2) t user app(1)] by blast
  let ?enc1 = "enc\<lparr>enc_write := enc_write enc @ frame W ?probe, enc_state := WaitingAuthRequest (auth_request_new ?m)\<rparr>"
  have e1: "length (enc_session_id ?enc1) < 2 ^ 32" "enc_state ?enc1 = WaitingAuthRequest (auth_request_new ?m)"
    "current (auth_request_new ?m) = None" using sid(2) by simp_all
  obtain s2 sg signature where s2: "\<And>h. client_process_packet V Q A ?ok h s1 = Ok (h, s2)"
    "cl_encrypted s2 = Some (?enc1\<lparr>enc_write := enc_write ?enc1 @ frame W (?signed @ blob_field W sg)\<rparr>)"
    "cl_handle_listens s2 = cl_handle_listens s1" "length sg < 2 ^ 32" "sig_decode (ssh_of V) sg = Ok signature"
    "verify (ssh_of V) ?pub (blob_field W (enc_session_id ?enc1) @ ?signed) signature"
    using login_key.pk_ok_signs [OF assms(1) crates(1) refl user e1(1) s1(2) e1(2,3) s1(3,4)] by (simp only: append_Cons) blast
  have "\<exists>t2. process_packet V' K H snow' wall' (?signed @ blob_field W sg) h1 t1 = auth_success V' H h2 t2
    \<and> ss_encrypted t2 = Some (senc\<lparr>enc_write := (enc_write senc @ frame W ?ok) @ frame W [USERAUTH_SUCCESS], enc_state := InitCompression\<rparr>)
    \<and> auth_user (ss_common t2) = user"
    using login_key.signature_accepted [OF assms(1) crates(2) refl t1(2) _ t1(3,4) user _ s2(4) _ _ app(2)] s2(5,6) sid
    by (simp add: crates(3,4))
  then obtain t2 where t2: "process_packet V' K H snow' wall' (?signed @ blob_field W sg) h1 t1 = auth_success V' H h2 t2"
    "ss_encrypted t2 = Some (senc\<lparr>enc_write := (enc_write senc @ frame W ?ok) @ frame W [USERAUTH_SUCCESS], enc_state := InitCompression\<rparr>)"
    "auth_user (ss_common t2) = user" by blast
  have "enc_state (?enc1\<lparr>enc_write := enc_write ?enc1 @ frame W (?signed @ blob_field W sg)\<rparr>) = WaitingAuthRequest (auth_request_new ?m)"
    "cl_handle_listens s2" using s2(3) s1(5) by simp_all
  note in3 = success_logs_in [OF s2(2) this]
  obtain s3 e where s3: "client_process_packet V Q A [USERAUTH_SUCCESS] g s2 = Ok (g, s3)" "cl_encrypted s3 = Some e"
    "enc_state e = InitCompression" "cl_replies s3 = cl_replies s2 @ [RepAuthSuccess]"
    using in3 [where V = V and Q = Q and A = A and r = "[]" and h = g] by blast
  show ?thesis
    by (rule exI [of _ ?probe], rule exI [of _ ?ok], rule exI [of _ "?signed @ blob_field W sg"], rule exI [of _ s1],
        rule exI [of _ s2], rule exI [of _ s3], rule exI [of _ t1], rule exI [of _ t2])
      (use s1 t1 s2(1-3) t2 s3 s t in \<open>simp add: cl_wrote_def ss_wrote_def logged_in_def stage_def\<close>)
qed

theorem publickey_login_witness:
  "\<exists>probe pk_ok request s1 s2 s3 t1 t2.
      handle_msg sample_env sample_client_keys 0 (MsgAuthenticate ''a'' (MethodPublicKey sample_key))
        (user_session (WaitingAuthServiceRequest True True)) = Ok s1
    \<and> process_packet sample_env login_certs key_application 0 0 probe () sample_guest = Ok ((), t1)
    \<and> client_process_packet sample_env sample_client_keys sample_app pk_ok 0 s1 = Ok (0, s2) \<and> cl_wrote W0 request s1 s2
    \<and> process_packet sample_env login_certs key_application 5 0 request () t1 = auth_success sample_env key_application () t2
    \<and> logged_in t2 \<and> auth_user (ss_common t2) = ''a''
    \<and> client_process_packet sample_env sample_client_keys sample_app [USERAUTH_SUCCESS] 0 s2 = Ok (0, s3)
    \<and> RepAuthSuccess \<in> set (cl_replies s3)"
proof -
  let ?E = "sample_encrypted (sample_channel 0)"
  have L: "login_key W0 (ssh_of sample_env) sample_client_keys login_certs sample_key"
    using sample_login.login_key_axioms by simp
  have s: "cl_encrypted (user_session (WaitingAuthServiceRequest True True))
      = Some (?E\<lparr>enc_state := WaitingAuthServiceRequest True True\<rparr>)" "cl_handle_listens (user_session (WaitingAuthServiceRequest True True))"
    by (simp_all add: user_session_def client_session_new_def)
  have t: "ss_encrypted sample_guest = Some sample_enc" by (simp add: sample_guest_def)
  have u: "short_text ''a''" by (simp add: short_text_def ascii_def)
  have app: "auth_publickey_offered key_application () ''a'' k = Ok (Accept, (), 1)"
    "auth_publickey key_application () ''a'' k = Ok (Accept, (), 2)" for k
    by (simp_all add: key_application_def)
  have sid: "enc_session_id sample_enc = enc_session_id (?E\<lparr>enc_state := WaitingAuthServiceRequest True True\<rparr>)"
    "length (enc_session_id (?E\<lparr>enc_state := WaitingAuthServiceRequest True True\<rparr>)) < 2 ^ 32"
    "enc_state (?E\<lparr>enc_state := WaitingAuthServiceRequest True True\<rparr>) = WaitingAuthServiceRequest True True"
    "enc_state sample_enc = WaitingAuthRequest sample_request"
    by (simp_all add: sample_encrypted_def)
  show ?thesis
    using publickey_login [OF L _ _ refl refl s(1) sid(3) s(2) t sid(4) sid(1,2) u app, of 0 0 0 sample_app 0 5 0] by simp blast
qed

text \<open>Property C10: a request on a channel (a terminal, a shell, a command, ...) that the client's application makes
  is written as one message; the server reads from it the same request, tells the channel's reader, and
  calls the one callback of its application for it, with the same arguments.\<close>

theorem requests_arrive:
  fixes V :: "('st, 'z, 'key, 'pub, 'sig) env" and V' :: "('st, 'z, 'skey, 'pub, 'sig) env"
    and s :: "('st, 'z, 'key, 'cert, 'pub) client_session" and t :: "('st, 'z, 'skey) server_session"
  assumes "ssh_wire W" "env_wire V = W" "env_wire V' = W" and "sendable_request m"
    and s: "cl_encrypted s = Some enc" "channels enc c = Some ch"
    and t: "ss_encrypted t = Some senc" "enc_state senc = Authenticated"
  shows "\<exists>p s'. handle_msg V Q now (MsgChannel c m) s = Ok s' \<and> cl_wrote W p s s'
    \<and> (let n = ChannelId (recipient_channel ch) in
       process_packet V' K H snow wall p h t
         = serve_request W H n m h (to_channel n (heard m) (note_reply n (request_wants m) t)))"
proof -
  let ?p = "CHANNEL_REQUEST # request_payload W (recipient_channel ch) m"
  have "handle_msg V Q now (MsgChannel c m) s = Ok (cl_set_encrypted (enc\<lparr>enc_write := enc_write enc @ frame W ?p\<rparr>) s)"
    using request_sent [OF assms(1,4) s] assms(2) by simp
  moreover have "process_packet V' K H snow wall ?p h t = srv_channel_request W H (request_payload W (recipient_channel ch) m) h t"
    using t assms(3) by (simp add: process_packet_def server_read_authenticated_def)
  ultimately show ?thesis
    using request_served [OF assms(1,4)] s(1) unfolding Let_def
    by (intro exI [of _ ?p]) (simp add: cl_wrote_def cl_set_encrypted_def)
qed

definition sample_served :: "(unit, unit, unit) server_session" where
  "sample_served = ss_set_encrypted (sample_enc\<lparr>enc_state := Authenticated\<rparr>) sample_guest"

theorem requests_arrive_witness:
  "\<exists>p s'. handle_msg sample_env sample_client_keys 0 (MsgChannel (ChannelId 2) (CmExec True [104, 105])) (user_session Authenticated) = Ok s'
    \<and> cl_wrote W0 p (user_session Authenticated) s'
    \<and> process_packet sample_env login_certs key_application 0 0 p () sample_served
        = h_exec_request key_application () (ChannelId 5) [104, 105]
            (to_channel (ChannelId 5) (CmExec True [104, 105]) (note_reply (ChannelId 5) True sample_served))"
proof -
  have m: "sendable_request (CmExec True [104, 105])" by simp
  have s: "cl_encrypted (user_session Authenticated) = Some ((sample_encrypted (sample_channel 0))\<lparr>enc_state := Authenticated\<rparr>)"
    "channels ((sample_encrypted (sample_channel 0))\<lparr>enc_state := Authenticated\<rparr>) (ChannelId 2) = Some (sample_channel 0)"
    by (simp_all add: user_session_def client_session_new_def)
  have t: "ss_encrypted sample_served = Some (sample_enc\<lparr>enc_state := Authenticated\<rparr>)"
    "enc_state (sample_enc\<lparr>enc_state := Authenticated\<rparr>) = Authenticated"
    by (simp_all add: sample_served_def ss_set_encrypted_def)
  show ?thesis
    using requests_arrive [OF rfc.ssh_wire_axioms _ _ m s t, of sample_env sample_env sample_client_keys 0 login_certs key_application 0 0 "()"]
    by (simp add: Let_def)
qed

end
