(* ===== verification/KnownHosts.thy ===== *)
theory KnownHosts
  imports KeyFiles
begin

text \<open>
  The file of known hosts (\<open>keys/known_hosts.rs\<close>): the keys recorded for a host, the check of a server's key
  against them, and the record of a new one. A file is its text, or \<open>None\<close> where it cannot be opened.
\<close>

section \<open>The file\<close>

text \<open>\<open>BufRead::read_line\<close>, again and again: each line with its line feed, if it has one.\<close>

function file_lines :: "string \<Rightarrow> string list" where
  "file_lines s =
     (if s = [] then []
      else
        (case dropWhile (\<lambda>c. c \<noteq> LF) s of
           [] \<Rightarrow> [s]
         | _ # r \<Rightarrow> (takeWhile (\<lambda>c. c \<noteq> LF) s @ [LF]) # file_lines r))"
  by pat_completeness auto
termination
proof (relation "measure length")
  fix s x r
  assume "dropWhile (\<lambda>c. c \<noteq> LF) s = x # r"
  then have "length (x # r) \<le> length s" by (metis length_dropWhile_le)
  then show "(r, s) \<in> measure length" by simp
qed simp

declare file_lines.simps [simp del]

text \<open>\<open>hmac_sha1 salt host hash\<close>: whether \<open>Hmac::<Sha1>\<close> with that key verifies \<open>hash\<close> over the host.\<close>

record 'pub host_crates = "'pub base64_crates" +
  hmac_sha1 :: "bytes \<Rightarrow> bytes \<Rightarrow> bytes \<Rightarrow> bool"
  algorithm_of :: "'pub \<Rightarrow> algorithm"
  to_openssh :: "'pub \<Rightarrow> string rs"

definition hashed_entry_matches :: "('pub, 'm) host_crates_scheme \<Rightarrow> string \<Rightarrow> string \<Rightarrow> bool" where
  "hashed_entry_matches B host entry =
     (case drop 2 (split_at_char (CHR ''|'') entry) of
        salt # hash # _ \<Rightarrow>
          (case (b64_decode (base64_crates.truncate B) salt, b64_decode (base64_crates.truncate B) hash) of
             (Ok salt, Ok hash) \<Rightarrow> hmac_sha1 B salt (as_bytes host) hash
           | _ \<Rightarrow> False)
      | _ \<Rightarrow> False)"

definition match_hostname :: "('pub, 'm) host_crates_scheme \<Rightarrow> string \<Rightarrow> string \<Rightarrow> bool" where
  "match_hostname B host pattern =
     list_ex (\<lambda>entry. if starts_with entry ''|1|'' then hashed_entry_matches B host entry else host = entry)
       (split_at_char (CHR '','') pattern)"

text \<open>A port in decimal.\<close>

fun decimal :: "nat \<Rightarrow> string" where
  "decimal n = (if n < 10 then [char_of (48 + n)] else decimal (n div 10) @ [char_of (48 + n mod 10)])"

declare decimal.simps [simp del]

definition host_name :: "string \<Rightarrow> u16 \<Rightarrow> string" where
  "host_name host port = (if port = 22 then host else ''['' @ host @ '']:'' @ decimal (unat port))"

text \<open>The loop over the lines, from line number \<open>n\<close>. A comment does not count as a line.\<close>

fun host_keys ::
    "('key, 'pub, 'sig) ssh_keys \<Rightarrow> ('pub, 'm) host_crates_scheme \<Rightarrow> string \<Rightarrow> nat \<Rightarrow> string list \<Rightarrow> (nat \<times> 'pub) list rs" where
  "host_keys S B host n [] = Ok []"
| "host_keys S B host n (l # ls) =
     (if \<not> valid_utf8 (as_bytes l) then Err IO
      else if first l = Some (CHR ''#'') then host_keys S B host n ls
      else
        (case split_at_char (CHR '' '') l of
           h # _ # k # _ \<Rightarrow>
             if match_hostname B host h then
               and_then (parse_public_key_base64 S (base64_crates.truncate B) k) (\<lambda>key.
               and_then (host_keys S B host (n + 1) ls) (\<lambda>ks. Ok ((n, key) # ks)))
             else host_keys S B host (n + 1) ls
         | _ \<Rightarrow> host_keys S B host (n + 1) ls))"

definition known_host_keys_path ::
    "('key, 'pub, 'sig) ssh_keys \<Rightarrow> ('pub, 'm) host_crates_scheme \<Rightarrow> string \<Rightarrow> u16 \<Rightarrow> string option \<Rightarrow> (nat \<times> 'pub) list rs" where
  "known_host_keys_path S B host port file =
     (case file of None \<Rightarrow> Ok [] | Some t \<Rightarrow> host_keys S B (host_name host port) 1 (file_lines t))"

section \<open>The check\<close>

fun judge_keys :: "('pub, 'm) host_crates_scheme \<Rightarrow> 'pub \<Rightarrow> (nat \<times> 'pub) list \<Rightarrow> bool list rs" where
  "judge_keys B pubkey [] = Ok []"
| "judge_keys B pubkey ((line, recorded) # ks) =
     and_then
       (if algorithm_of B pubkey = algorithm_of B recorded then
          (if pubkey = recorded then Ok True else Err (KeyChanged line))
        else Ok False)
       (\<lambda>b. and_then (judge_keys B pubkey ks) (\<lambda>bs. Ok (b # bs)))"

definition check_known_hosts_path ::
    "('key, 'pub, 'sig) ssh_keys \<Rightarrow> ('pub, 'm) host_crates_scheme \<Rightarrow> string \<Rightarrow> u16 \<Rightarrow> 'pub \<Rightarrow> string option \<Rightarrow> bool rs" where
  "check_known_hosts_path S B host port pubkey file =
     and_then (known_host_keys_path S B host port file) (\<lambda>ks.
     and_then (judge_keys B pubkey ks) (\<lambda>bs. Ok (list_ex (\<lambda>b. b) bs)))"

section \<open>A new key\<close>

text \<open>The text appended to the file and the outcome; the directories and the file are made where they are
  missing, and what the system may refuse is left out. Where the key cannot be written the beginning of
  the line has been.\<close>

definition learn_known_hosts_path ::
    "('pub, 'm) host_crates_scheme \<Rightarrow> string \<Rightarrow> u16 \<Rightarrow> 'pub \<Rightarrow> string option \<Rightarrow> string \<times> unit rs" where
  "learn_known_hosts_path B host port pubkey file =
     (let t = (case file of None \<Rightarrow> [] | Some t \<Rightarrow> t);
          ends_in_newline = (t \<noteq> [] \<and> last t = LF);
          t = t @ (if ends_in_newline then [] else [LF]);
          t = t @ (if port \<noteq> 22 then ''['' @ host @ '']:'' @ decimal (unat port) @ '' '' else host @ '' '') in
      case to_openssh B pubkey of
        Ok k \<Rightarrow> (t @ k @ [LF], Ok ())
      | Err e \<Rightarrow> (t, Err e)
      | Panic \<Rightarrow> (t, Panic) | Diverges \<Rightarrow> (t, Diverges))"

section \<open>Lines\<close>

lemma file_lines_Nil [simp]: "file_lines [] = []"
  by (simp add: file_lines.simps)

lemma file_lines_line: "LF \<notin> set l \<Longrightarrow> file_lines (l @ LF # s) = (l @ [LF]) # file_lines s"
proof -
  assume l: "LF \<notin> set l"
  then have "takeWhile (\<lambda>c. c \<noteq> LF) (l @ LF # s) = l" "dropWhile (\<lambda>c. c \<noteq> LF) (l @ LF # s) = LF # s"
    by (subst takeWhile_append2 dropWhile_append2; auto)+
  then show ?thesis by (subst file_lines.simps) (simp del: LF_def)
qed

lemma file_lines_open: "LF \<notin> set l \<Longrightarrow> l \<noteq> [] \<Longrightarrow> file_lines l = [l]"
proof -
  assume l: "LF \<notin> set l" "l \<noteq> []"
  then have d: "dropWhile (\<lambda>c. c \<noteq> LF) l = []" by (auto simp del: LF_def)
  show ?thesis by (subst file_lines.simps) (simp only: d l(2) if_False list.case)
qed

text \<open>The last line, and what a text behind it changes.\<close>

lemma file_lines_append:
  "t = [] \<or> last t = LF \<Longrightarrow> file_lines (t @ s) = file_lines t @ file_lines s"
  "t \<noteq> [] \<Longrightarrow> last t \<noteq> LF \<Longrightarrow> \<exists>ls l. file_lines t = ls @ [l] \<and> LF \<notin> set l \<and> l \<noteq> []
    \<and> file_lines (t @ LF # s) = ls @ (l @ [LF]) # file_lines s"
proof (induction t rule: length_induct)
  case (1 t)
  show "t = [] \<or> last t = LF \<Longrightarrow> file_lines (t @ s) = file_lines t @ file_lines s"
    and "t \<noteq> [] \<Longrightarrow> last t \<noteq> LF \<Longrightarrow> \<exists>ls l. file_lines t = ls @ [l] \<and> LF \<notin> set l \<and> l \<noteq> []
      \<and> file_lines (t @ LF # s) = ls @ (l @ [LF]) # file_lines s"
  proof -
    have split: "\<exists>l r. t = l @ LF # r \<and> LF \<notin> set l" if "LF \<in> set t" using split_list_first [OF that] by blast
    show "file_lines (t @ s) = file_lines t @ file_lines s" if "t = [] \<or> last t = LF"
    proof (cases "t = []")
      case False
      with that have "LF \<in> set t" using last_in_set by metis
      then obtain l r where t: "t = l @ LF # r" "LF \<notin> set l" using split by blast
      then have "r = [] \<or> last r = LF" using that by (auto split: if_splits)
      with 1 t have "file_lines (r @ s) = file_lines r @ file_lines s" by auto
      with t show ?thesis by (simp add: file_lines_line del: LF_def)
    qed simp
    show "\<exists>ls l. file_lines t = ls @ [l] \<and> LF \<notin> set l \<and> l \<noteq> [] \<and> file_lines (t @ LF # s) = ls @ (l @ [LF]) # file_lines s"
      if n: "t \<noteq> []" "last t \<noteq> LF"
    proof (cases "LF \<in> set t")
      case True
      then obtain l r where t: "t = l @ LF # r" "LF \<notin> set l" using split by blast
      then have "r \<noteq> []" "last r \<noteq> LF" using n by (auto split: if_splits)
      moreover have "length r < length t" using t by simp
      ultimately have "\<exists>ls m. file_lines r = ls @ [m] \<and> LF \<notin> set m \<and> m \<noteq> [] \<and> file_lines (r @ LF # s) = ls @ (m @ [LF]) # file_lines s"
        using 1 by blast
      then obtain ls m where "file_lines r = ls @ [m]" "LF \<notin> set m" "m \<noteq> []" "file_lines (r @ LF # s) = ls @ (m @ [LF]) # file_lines s"
        by blast
      with t show ?thesis
        by (intro exI [of _ "(l @ [LF]) # ls"] exI [of _ m]) (simp add: file_lines_line del: LF_def)
    next
      case False
      with n show ?thesis
        by (intro exI [of _ "[]"] exI [of _ t]) (simp add: file_lines_line file_lines_open del: LF_def)
    qed
  qed
qed

text \<open>The line feed behind the last line makes no difference, where base64 ignores it.\<close>

lemma split_at_char_snoc: "c \<noteq> d \<Longrightarrow> split_at_char d (s @ [c]) = butlast (split_at_char d s) @ [last (split_at_char d s) @ [c]]"
  by (induction s) (auto split: list.splits)

definition counted_lines :: "string list \<Rightarrow> nat" where
  "counted_lines ls = length (filter (\<lambda>l. first l \<noteq> Some (CHR ''#'')) ls)"

lemma host_keys_append:
  "host_keys S B h n (ls @ ms) = and_then (host_keys S B h n ls) (\<lambda>ks.
     and_then (host_keys S B h (n + counted_lines ls) ms) (\<lambda>ks'. Ok (ks @ ks')))"
proof (induction ls arbitrary: n)
  case (Cons l ls)
  show ?case
    by (simp add: Cons.IH counted_lines_def and_then_assoc split: list.split)
qed (simp add: counted_lines_def)

lemma host_keys_line_feed:
  assumes "\<And>k. b64_decode (base64_crates.truncate B) (k @ [LF]) = b64_decode (base64_crates.truncate B) k"
    and "l \<noteq> []" "host_keys S B h n [l] = Ok ks"
  shows "host_keys S B h n [l @ [LF]] = Ok ks"
proof -
  have p: "parse_public_key_base64 S (base64_crates.truncate B) (k @ [LF]) = parse_public_key_base64 S (base64_crates.truncate B) k" for k
    by (simp only: parse_public_key_base64_def assms(1))
  have v: "valid_utf8 (as_bytes l)" using assms(3) by (simp split: if_splits)
  have "valid_utf8 (as_bytes [LF])" by (simp add: as_bytes_def)
  with v have v': "valid_utf8 (as_bytes (l @ [LF]))" using valid_utf8_append [OF v] by (simp only: as_bytes_append)
  have f: "first (l @ [LF]) = first l" using assms(2) by (cases l) simp_all
  have sp: "split_at_char (CHR '' '') (l @ [LF]) = butlast (split_at_char (CHR '' '') l) @ [last (split_at_char (CHR '' '') l) @ [LF]]"
    by (rule split_at_char_snoc) simp
  obtain a as where a: "split_at_char (CHR '' '') l = a # as" by (cases "split_at_char (CHR '' '') l") auto
  show ?thesis
  proof (cases as)
    case (Cons b bs)
    then show ?thesis
      using assms(3) v v' f sp a p by (cases bs; cases "tl bs") (auto split: if_splits)
  qed (use assms(3) v v' f sp a in \<open>auto split: if_splits\<close>)
qed

section \<open>What the file says\<close>

text \<open>A line that records a key for the host.\<close>

definition records :: "('key, 'pub, 'sig) ssh_keys \<Rightarrow> ('pub, 'm) host_crates_scheme \<Rightarrow> string \<Rightarrow> string \<Rightarrow> 'pub \<Rightarrow> bool" where
  "records S B host l key \<longleftrightarrow> (\<exists>h a k rest. split_at_char (CHR '' '') l = h # a # k # rest \<and> match_hostname B host h
     \<and> parse_public_key_base64 S (base64_crates.truncate B) k = Ok key)"

abbreviation not_comment :: "string \<Rightarrow> bool" where
  "not_comment l \<equiv> first l \<noteq> Some (CHR ''#'')"

lemma host_keys_entries:
  assumes "host_keys S B h n ls = Ok ks" "(m, r) \<in> set ks"
  shows "n \<le> m \<and> m - n < counted_lines ls \<and> records S B h (filter not_comment ls ! (m - n)) r"
  using assms
proof (induction ls arbitrary: n ks)
  case (Cons l ls)
  have v: "valid_utf8 (as_bytes l)" using Cons.prems(1) by (simp split: if_splits)
  show ?case
  proof (cases "not_comment l")
    case False
    then show ?thesis using Cons.IH [of n ks] Cons.prems v by (simp add: counted_lines_def)
  next
    case True
    have next_line: ?thesis if "host_keys S B h (n + 1) ls = Ok ks'" "(m, r) \<in> set ks'" for ks'
    proof -
      from Cons.IH [OF that] have "n + 1 \<le> m" "m - (n + 1) < counted_lines ls" "records S B h (filter not_comment ls ! (m - (n + 1))) r" by auto
      moreover from this(1) obtain d where "m = n + 1 + d" by (metis le_Suc_ex)
      ultimately show ?thesis using True by (simp add: counted_lines_def)
    qed
    show ?thesis
    proof (cases "\<exists>p a k rest. split_at_char (CHR '' '') l = p # a # k # rest \<and> match_hostname B h p")
      case True
      then obtain p a k rest where sp: "split_at_char (CHR '' '') l = p # a # k # rest" "match_hostname B h p" by blast
      with Cons.prems(1) v \<open>not_comment l\<close> obtain key ks' where
        k: "parse_public_key_base64 S (base64_crates.truncate B) k = Ok key" "host_keys S B h (n + 1) ls = Ok ks'" "ks = (n, key) # ks'"
        by (auto simp: outcome_simps)
      show ?thesis
      proof (cases "(m, r) = (n, key)")
        case True
        with k sp \<open>not_comment l\<close> show ?thesis by (auto simp: counted_lines_def records_def)
      qed (use Cons.prems(2) k next_line in auto)
    next
      case False
      with Cons.prems v True have "host_keys S B h (n + 1) ls = Ok ks" by (auto split: list.splits if_splits)
      from next_line [OF this Cons.prems(2)] show ?thesis .
    qed
  qed
qed simp

definition conflict :: "('pub, 'm) host_crates_scheme \<Rightarrow> 'pub \<Rightarrow> (nat \<times> 'pub) list \<Rightarrow> (nat \<times> 'pub) option" where
  "conflict B key ks = find (\<lambda>(n, r). algorithm_of B key = algorithm_of B r \<and> key \<noteq> r) ks"

lemma judge_keys_eq:
  "judge_keys B key ks = (case conflict B key ks of Some (n, _) \<Rightarrow> Err (KeyChanged n) | None \<Rightarrow> Ok (map (\<lambda>(n, r). key = r) ks))"
proof (induction ks)
  case (Cons x ks)
  then show ?case
    by (cases x; cases "conflict B key ks"; cases "algorithm_of B key = algorithm_of B (snd x)"; cases "key = snd x")
      (auto simp: conflict_def outcome_simps)
qed (simp add: conflict_def)

lemma check_eq:
  "check_known_hosts_path S B host port key file = and_then (known_host_keys_path S B host port file) (\<lambda>ks.
     case conflict B key ks of Some (n, _) \<Rightarrow> Err (KeyChanged n) | None \<Rightarrow> Ok (key \<in> snd ` set ks))"
  unfolding check_known_hosts_path_def
  by (rule and_then_cong [OF refl]) (force simp: judge_keys_eq list_ex_iff split: option.splits)

lemma conflict_append: "conflict B key (ks @ ms) = (case conflict B key ks of None \<Rightarrow> conflict B key ms | Some x \<Rightarrow> Some x)"
  by (induction ks) (auto simp: conflict_def)

section \<open>Names of hosts\<close>

definition plain_host :: "string \<Rightarrow> bool" where
  "plain_host host \<longleftrightarrow> ascii host \<and> host \<noteq> [] \<and> hd host \<notin> {CHR ''#'', CHR ''|''} \<and> set host \<inter> {CHR '' '', CHR '','', LF} = {}"

lemma decimal_digits: "c \<in> set (decimal n) \<Longrightarrow> 48 \<le> (of_char c :: nat) \<and> of_char c \<le> (57 :: nat)"
proof (induction n rule: decimal.induct)
  case (1 n)
  have d: "(of_char (char_of (48 + k) :: char) :: nat) = 48 + k" if "k < 10" for k :: nat
    using that by (simp add: of_char_of)
  show ?case
  proof (cases "n < 10")
    case True
    with 1 d [of n] show ?thesis by (subst (asm) decimal.simps) auto
  next
    case False
    with 1 d [of "n mod 10"] show ?thesis by (subst (asm) decimal.simps) auto
  qed
qed

lemma plain_host_name: "plain_host host \<Longrightarrow> plain_host (host_name host port)"
proof -
  assume h: "plain_host host"
  have n: "c \<notin> set (decimal (unat port))" if "c \<in> {CHR '' '', CHR '','', LF}" for c
    using that decimal_digits [of c "unat port"] by auto
  have "ascii (decimal (unat port))" using decimal_digits by (force simp: ascii_def)
  with h n show ?thesis by (auto simp: plain_host_def host_name_def ascii_def)
qed

lemma plain_host_matches: "plain_host host \<Longrightarrow> match_hostname B host host"
  by (cases host) (auto simp: plain_host_def match_hostname_def split_at_char_none)

text \<open>The text of a key, as \<open>to_openssh\<close> gives it: the name of its algorithm, its base64, and perhaps a comment.\<close>

definition key_text :: "('key, 'pub, 'sig) ssh_keys \<Rightarrow> ('pub, 'm) host_crates_scheme \<Rightarrow> 'pub \<Rightarrow> string \<Rightarrow> bool" where
  "key_text S B key t \<longleftrightarrow> ascii t \<and> LF \<notin> set t \<and> (\<exists>a k comment. t = a @ CHR '' '' # k @ comment
     \<and> CHR '' '' \<notin> set a \<and> CHR '' '' \<notin> set k \<and> (comment = [] \<or> hd comment = CHR '' '')
     \<and> parse_public_key_base64 S (base64_crates.truncate B) k = Ok key)"

lemma ascii_valid: "ascii s \<Longrightarrow> valid_utf8 (as_bytes s)"
  using ascii_bytes(1) [of s] by (intro valid_utf8_ascii) (simp add: list_all_iff)

lemma learned_line:
  assumes "plain_host host" "key_text S B key t"
    and feed: "\<And>k. b64_decode (base64_crates.truncate B) (k @ [LF]) = b64_decode (base64_crates.truncate B) k"
  shows "host_keys S B host n [host @ CHR '' '' # t @ [LF]] = Ok [(n, key)]"
proof -
  let ?l = "host @ CHR '' '' # t @ [LF]"
  from assms(2) obtain a k comment where t: "t = a @ CHR '' '' # k @ comment" "CHR '' '' \<notin> set a" "CHR '' '' \<notin> set k"
    "comment = [] \<or> hd comment = CHR '' ''" "parse_public_key_base64 S (base64_crates.truncate B) k = Ok key" "ascii t"
    unfolding key_text_def by blast
  have host: "CHR '' '' \<notin> set host" "first ?l \<noteq> Some (CHR ''#'')" "ascii host"
    using assms(1) by (auto simp: plain_host_def neq_Nil_conv)
  have v: "valid_utf8 (as_bytes ?l)" using host(3) t(6) by (intro ascii_valid) (auto simp: ascii_def)
  have "\<exists>k' rest. split_at_char (CHR '' '') ?l = host # a # k' # rest \<and> parse_public_key_base64 S (base64_crates.truncate B) k' = Ok key"
  proof (cases comment)
    case Nil
    have "CHR '' '' \<notin> set (k @ [LF])" using t(3) by simp
    then show ?thesis
      using t(5) feed by (intro exI [of _ "k @ [LF]"] exI [of _ "[]"])
        (simp add: t(1,2) host(1) Nil split_at_char_append split_at_char_none parse_public_key_base64_def del: LF_def)
  next
    case (Cons c cs)
    then show ?thesis
      using t(3-5) by (intro exI [of _ k] exI [of _ "split_at_char (CHR '' '') (cs @ [LF])"])
        (simp add: t(1,2) host(1) split_at_char_append del: LF_def)
  qed
  then obtain k' rest where "split_at_char (CHR '' '') ?l = host # a # k' # rest" "parse_public_key_base64 S (base64_crates.truncate B) k' = Ok key"
    by blast
  with v host(2) plain_host_matches [OF assms(1)] show ?thesis by (simp del: LF_def)
qed


lemma host_keys_complete:
  assumes "host_keys S B h n ls = Ok ks" "d < counted_lines ls" "records S B h (filter not_comment ls ! d) r"
  shows "(n + d, r) \<in> set ks"
  using assms
proof (induction ls arbitrary: n ks d)
  case (Cons l ls)
  have v: "valid_utf8 (as_bytes l)" using Cons.prems(1) by (simp split: if_splits)
  show ?case
  proof (cases "not_comment l")
    case False
    then show ?thesis using Cons.IH [of n ks d] Cons.prems v by (simp add: counted_lines_def)
  next
    case True
    show ?thesis
    proof (cases d)
      case 0
      with Cons.prems(3) True obtain p a k rest where
        "split_at_char (CHR '' '') l = p # a # k # rest" "match_hostname B h p"
        "parse_public_key_base64 S (base64_crates.truncate B) k = Ok r"
        by (auto simp: records_def)
      with 0 Cons.prems(1) v True show ?thesis by (auto simp: outcome_simps)
    next
      case (Suc e)
      have "\<exists>ks'. host_keys S B h (n + 1) ls = Ok ks' \<and> set ks' \<subseteq> set ks"
        using Cons.prems(1) v True by (auto simp: outcome_simps split: list.splits if_splits)
      then obtain ks' where ks': "host_keys S B h (n + 1) ls = Ok ks'" "set ks' \<subseteq> set ks" by blast
      have "(n + 1 + e, r) \<in> set ks'"
        by (rule Cons.IH [OF ks'(1)]) (use Suc True Cons.prems in \<open>simp_all add: counted_lines_def\<close>)
      with ks'(2) Suc show ?thesis by auto
    qed
  qed
qed (simp add: counted_lines_def)

lemma known_keys_iff:
  assumes "known_host_keys_path S B host port (Some t) = Ok ks"
  shows "(n, r) \<in> set ks \<longleftrightarrow> 1 \<le> n \<and> n \<le> counted_lines (file_lines t)
    \<and> records S B (host_name host port) (filter not_comment (file_lines t) ! (n - 1)) r"
proof -
  have k: "host_keys S B (host_name host port) 1 (file_lines t) = Ok ks" using assms by (simp add: known_host_keys_path_def)
  have "(n, r) \<in> set ks" if "1 \<le> n" "n \<le> counted_lines (file_lines t)"
    "records S B (host_name host port) (filter not_comment (file_lines t) ! (n - 1)) r"
    using host_keys_complete [OF k, of "n - 1" r] that by simp
  then show ?thesis using host_keys_entries [OF k, of n r] by auto
qed

section \<open>A host that was learned\<close>

lemma learned_keys:
  assumes "plain_host host" "to_openssh B key = Ok t" "key_text S B key t"
    and feed: "\<And>k. b64_decode (base64_crates.truncate B) (k @ [LF]) = b64_decode (base64_crates.truncate B) k"
    and known: "known_host_keys_path S B host port file = Ok ks"
  shows "\<exists>s m. learn_known_hosts_path B host port key file = (s, Ok ()) \<and> known_host_keys_path S B host port (Some s) = Ok (ks @ [(m, key)])"
proof -
  define h where "h = host_name host port"
  define l where "l = h @ CHR '' '' # t @ [LF]"
  define s where "s = (case file of None \<Rightarrow> [] | Some s \<Rightarrow> s)"
  have h: "plain_host h" unfolding h_def using assms(1) by (rule plain_host_name)
  have new: "host_keys S B h n [l] = Ok [(n, key)]" for n unfolding l_def by (rule learned_line [OF h assms(3) feed])
  have "LF \<notin> set (h @ CHR '' '' # t)" using h assms(3) by (auto simp: plain_host_def key_text_def)
  from file_lines_line [OF this, of "[]"] have line: "file_lines l = [l]" by (simp add: l_def)
  have old: "host_keys S B h 1 (file_lines s) = Ok ks"
    using known by (cases "file") (simp_all add: known_host_keys_path_def s_def h_def)
  have out: "learn_known_hosts_path B host port key file = (s @ (if s \<noteq> [] \<and> last s = LF then [] else [LF]) @ l, Ok ())"
    using assms(2) by (simp add: learn_known_hosts_path_def Let_def s_def l_def h_def host_name_def del: LF_def)
  have "\<exists>m. host_keys S B h 1 (file_lines (s @ (if s \<noteq> [] \<and> last s = LF then [] else [LF]) @ l)) = Ok (ks @ [(m, key)])"
  proof (cases "s = []")
    case True
    have "file_lines (LF # l) = [LF] # [l]" using file_lines_line [of "[]" l] line by simp
    moreover have "host_keys S B h 1 [[LF], l] = host_keys S B h (1 + 1) [l]"
    proof -
      have "valid_utf8 (as_bytes [LF])" by (rule ascii_valid) (simp add: ascii_def)
      moreover have "first [LF] \<noteq> Some (CHR ''#'')" "split_at_char (CHR '' '') [LF] = [[LF]]" by simp_all
      ultimately show ?thesis by (subst host_keys.simps(2)) (simp del: LF_def host_keys.simps split_at_char.simps)
    qed
    ultimately show ?thesis using True old new [of "1 + 1"] by (simp del: LF_def host_keys.simps(2))
  next
    case s: False
    show ?thesis
    proof (cases "last s = LF")
      case True
      then show ?thesis
        using s old new file_lines_append(1) [of s l] by (simp add: line host_keys_append del: LF_def host_keys.simps(2))
    next
      case False
      obtain ls m where m: "file_lines s = ls @ [m]" "m \<noteq> []" "file_lines (s @ LF # l) = ls @ (m @ [LF]) # file_lines l"
        using file_lines_append(2) [OF s False] by metis
      obtain k1 k2 where k: "host_keys S B h 1 ls = Ok k1" "host_keys S B h (1 + counted_lines ls) [m] = Ok k2" "ks = k1 @ k2"
        using old unfolding m(1) host_keys_append by (auto simp: outcome_simps simp del: host_keys.simps)
      have "host_keys S B h (1 + counted_lines ls) [m @ [LF]] = Ok k2" by (rule host_keys_line_feed [OF feed m(2) k(2)])
      then have "host_keys S B h 1 (ls @ [m @ [LF]] @ [l]) = Ok (ks @ [(1 + counted_lines ls + counted_lines [m @ [LF]], key)])"
        using k(1,3) new by (simp only: host_keys_append) (simp del: host_keys.simps)
      then show ?thesis using s False m(3) line by (auto simp del: LF_def host_keys.simps)
    qed
  qed
  with out show ?thesis by (auto simp: known_host_keys_path_def h_def simp del: LF_def)
qed

section \<open>An example\<close>

definition sample_hosts :: "bytes host_crates" where
  "sample_hosts = base64_crates.extend sample_base64
     \<lparr>hmac_sha1 = (\<lambda>salt m mac. mac = salt @ m), algorithm_of = (\<lambda>k. Ed25519), to_openssh = (\<lambda>k. Ok (''ssh-ed25519 '' @ concat (map byte_letters k)))\<rparr>"

definition sample_host_keys :: "(bytes, bytes, bytes) ssh_keys" where
  "sample_host_keys = \<lparr>key_algorithm = (\<lambda>k. Ed25519), public_of = (\<lambda>k. k), pub_to_bytes = Ok, pub_decode = Ok, try_sign = (\<lambda>k m. Ok m),
     try_sign_rsa = (\<lambda>k h m. Ok m), sig_decode = Ok, verify = (\<lambda>k m s. m = s), alg_str = (\<lambda>a. ''ssh-ed25519''),
     r_mpint = (\<lambda>b. Ok ([], b))\<rparr>"

definition sample_hosts_file :: string where
  "sample_hosts_file = ''# keys'' @ [LF] @ ''a.org,b.org ssh-ed25519 af'' @ [LF] @ ''[b.org]:23 ssh-ed25519 ag'' @ [LF]"

section \<open>Properties\<close>

text \<open>Property C31: the check against the file of known hosts. Where its lines can be read, a key is refused
  with the number of the first record of the host that has its algorithm and is another key, and
  otherwise it is known just where it is among the records. These are exactly the lines whose list of
  hosts names the host, each with its number; the numbers leave comments out.\<close>

theorem known_hosts_verdict:
  assumes "known_host_keys_path S B host port (Some t) = Ok ks"
  shows "check_known_hosts_path S B host port key (Some t) =
      (case conflict B key ks of Some (n, _) \<Rightarrow> Err (KeyChanged n) | None \<Rightarrow> Ok (key \<in> snd ` set ks))
    \<and> ((n, r) \<in> set ks \<longleftrightarrow> 1 \<le> n \<and> n \<le> counted_lines (file_lines t)
         \<and> records S B (host_name host port) (filter not_comment (file_lines t) ! (n - 1)) r)"
  unfolding check_eq using assms known_keys_iff [OF assms] by simp

lemma sample_hosts_known:
  "known_host_keys_path sample_host_keys sample_hosts ''b.org'' 22 (Some sample_hosts_file) = Ok [(1, [5])]"
  by code_simp

theorem known_hosts_verdict_witness:
  "check_known_hosts_path sample_host_keys sample_hosts ''b.org'' 22 [5] (Some sample_hosts_file) = Ok True
    \<and> check_known_hosts_path sample_host_keys sample_hosts ''b.org'' 22 [6] (Some sample_hosts_file) = Err (KeyChanged 1)"
proof -
  have "algorithm_of sample_hosts k = Ed25519" for k by (simp add: sample_hosts_def base64_crates.defs)
  then show ?thesis using known_hosts_verdict [OF sample_hosts_known, THEN conjunct1] by (simp add: conflict_def)
qed

text \<open>Property C32: a host that was learned is known. After a check that found no conflict the key's line is
  appended behind the last line, complete or not; the next check of the key succeeds, and that of another
  key of the same algorithm fails as changed.\<close>

theorem learned_host_known:
  assumes "plain_host host" "to_openssh B key = Ok text_of_key" "key_text S B key text_of_key"
    and "\<And>k. b64_decode (base64_crates.truncate B) (k @ [LF]) = b64_decode (base64_crates.truncate B) k"
    and "check_known_hosts_path S B host port key file = Ok known"
  shows "\<exists>t. learn_known_hosts_path B host port key file = (t, Ok ())
    \<and> check_known_hosts_path S B host port key (Some t) = Ok True
    \<and> (\<forall>key'. algorithm_of B key' = algorithm_of B key \<and> key' \<noteq> key
         \<longrightarrow> (\<exists>n. check_known_hosts_path S B host port key' (Some t) = Err (KeyChanged n)))"
proof -
  obtain ks where ks: "known_host_keys_path S B host port file = Ok ks" and
    c: "(case conflict B key ks of Some (n, _) \<Rightarrow> Err (KeyChanged n) | None \<Rightarrow> Ok (key \<in> snd ` set ks)) = Ok known"
    using assms(5) unfolding check_eq and_then_eq_Ok by blast
  from c have none: "conflict B key ks = None" by (cases "conflict B key ks") auto
  obtain t m where t: "learn_known_hosts_path B host port key file = (t, Ok ())"
    "known_host_keys_path S B host port (Some t) = Ok (ks @ [(m, key)])"
    using learned_keys [OF assms(1-4) ks] by blast
  have "check_known_hosts_path S B host port key (Some t) = Ok True"
    using none unfolding check_eq t(2) by (simp add: conflict_append) (simp add: conflict_def)
  moreover have "\<exists>n. check_known_hosts_path S B host port key' (Some t) = Err (KeyChanged n)"
    if "algorithm_of B key' = algorithm_of B key" "key' \<noteq> key" for key'
  proof -
    have "conflict B key' [(m, key)] \<noteq> None" using that by (simp add: conflict_def)
    then have "conflict B key' (ks @ [(m, key)]) \<noteq> None" by (simp add: conflict_append split: option.split)
    then show ?thesis unfolding check_eq t(2) by auto
  qed
  ultimately show ?thesis using t(1) by blast
qed

theorem learned_host_known_witness:
  "\<exists>t. learn_known_hosts_path sample_hosts ''c.org'' 23 [5] (Some ''# open'') = (t, Ok ())
    \<and> check_known_hosts_path sample_host_keys sample_hosts ''c.org'' 23 [5] (Some t) = Ok True"
proof -
  have k: "to_openssh sample_hosts [5] = Ok ''ssh-ed25519 af''" by code_simp
  have p: "parse_public_key_base64 sample_host_keys (base64_crates.truncate sample_hosts) ''af'' = Ok [5]" by code_simp
  have t: "key_text sample_host_keys sample_hosts [5] ''ssh-ed25519 af''"
    unfolding key_text_def
    by (intro conjI exI [of _ "''ssh-ed25519''"] exI [of _ "''af''"] exI [of _ "[]"]) (simp_all add: p ascii_def)
  have f: "b64_decode (base64_crates.truncate sample_hosts) (s @ [LF]) = b64_decode (base64_crates.truncate sample_hosts) s" for s
    by (simp add: sample_hosts_def base64_crates.defs sample_base64_def base64_char_plain del: LF_def)
  have c: "check_known_hosts_path sample_host_keys sample_hosts ''c.org'' 23 [5] (Some ''# open'') = Ok False" by code_simp
  show ?thesis
    using learned_host_known [OF _ k t f c] by (auto simp: plain_host_def ascii_def)
qed

end
