(* ===== verification/AgentServer.thy ===== *)
theory AgentServer
  imports Config
begin

text \<open>
  The agent that keeps keys and signs with them (\<open>keys/agent/server.rs\<close>, \<open>keys/agent/msg.rs\<close>). All connections
  share the keys and the lock. A connection looks at the lock when a request has arrived, then asks the
  application, which may take its time, and then answers; a run interleaves these steps of all connections
  and the expiry of keys. The locks of the standard library are never poisoned, for nothing panics under one.
\<close>

section \<open>Messages\<close>

definition FAILURE :: u8 where "FAILURE = 5"
definition SUCCESS :: u8 where "SUCCESS = 6"
definition IDENTITIES_ANSWER :: u8 where "IDENTITIES_ANSWER = 12"
definition SIGN_RESPONSE :: u8 where "SIGN_RESPONSE = 14"
definition REQUEST_IDENTITIES :: u8 where "REQUEST_IDENTITIES = 11"
definition SIGN_REQUEST :: u8 where "SIGN_REQUEST = 13"
definition ADD_IDENTITY :: u8 where "ADD_IDENTITY = 17"
definition REMOVE_IDENTITY :: u8 where "REMOVE_IDENTITY = 18"
definition REMOVE_ALL_IDENTITIES :: u8 where "REMOVE_ALL_IDENTITIES = 19"
definition ADD_ID_CONSTRAINED :: u8 where "ADD_ID_CONSTRAINED = 25"
definition ADD_SMARTCARD_KEY :: u8 where "ADD_SMARTCARD_KEY = 20"
definition REMOVE_SMARTCARD_KEY :: u8 where "REMOVE_SMARTCARD_KEY = 21"
definition LOCK :: u8 where "LOCK = 22"
definition UNLOCK :: u8 where "UNLOCK = 23"
definition ADD_SMARTCARD_KEY_CONSTRAINED :: u8 where "ADD_SMARTCARD_KEY_CONSTRAINED = 26"
definition EXTENSION :: u8 where "EXTENSION = 27"
definition CONSTRAIN_LIFETIME :: u8 where "CONSTRAIN_LIFETIME = 1"
definition CONSTRAIN_CONFIRM :: u8 where "CONSTRAIN_CONFIRM = 2"
definition CONSTRAIN_EXTENSION :: u8 where "CONSTRAIN_EXTENSION = 255"

lemmas agent_numbers = FAILURE_def SUCCESS_def IDENTITIES_ANSWER_def SIGN_RESPONSE_def REQUEST_IDENTITIES_def
  SIGN_REQUEST_def ADD_IDENTITY_def REMOVE_IDENTITY_def REMOVE_ALL_IDENTITIES_def ADD_ID_CONSTRAINED_def
  ADD_SMARTCARD_KEY_def REMOVE_SMARTCARD_KEY_def LOCK_def UNLOCK_def ADD_SMARTCARD_KEY_CONSTRAINED_def EXTENSION_def
  CONSTRAIN_LIFETIME_def CONSTRAIN_CONFIRM_def CONSTRAIN_EXTENSION_def

datatype constraint = KeyLifetime u32 | Confirm | Extensions bytes bytes

datatype message_type = RequestKeys | AddKeys | RemoveKeys | RemoveAllKeys | Sign | Lock | Unlock

section \<open>State\<close>

text \<open>The keys by their public blob, each with the time at which it was added; the pass phrase, empty where
  the agent is not locked; and the tasks that wait to drop a key: its blob, the time at which it was added, the
  seconds to wait.\<close>

record 'key agent_store =
  store_keys :: "bytes \<rightharpoonup> 'key \<times> nat \<times> constraint list"
  store_lock :: bytes
  store_timers :: "(bytes \<times> nat \<times> u32) list"

definition new_store :: "'key agent_store" where
  "new_store = \<lparr>store_keys = Map.empty, store_lock = [], store_timers = []\<rparr>"

text \<open>What of the crate \<open>ssh_key\<close> the agent and its client use besides \<open>ssh_keys\<close>.\<close>

record ('key, 'pub) agent_crates =
  keypair_decode :: "bytes \<Rightarrow> ('key \<times> bytes) rs" \<comment> \<open>\<open>KeypairData::decode\<close> and \<open>PrivateKey::new\<close>\<close>
  keypair_encode :: "'key \<Rightarrow> bytes rs" \<comment> \<open>\<open>key.key_data().encode\<close>\<close>
  pub_blob :: "'pub \<Rightarrow> bytes rs" \<comment> \<open>\<open>key.key_data().encoded()\<close>\<close>
  with_comment :: "'pub \<Rightarrow> string \<Rightarrow> 'pub" \<comment> \<open>\<open>set_comment\<close>\<close>

text \<open>The application: \<open>confirm_request\<close>, from a state of its own. The order in which the standard library
  walks the map is the function \<open>iter\<close> of its keys.\<close>

record 'a agent_app =
  confirm_request :: "message_type \<Rightarrow> 'a \<Rightarrow> bool \<times> 'a"

definition unit_agent :: "unit agent_app" where
  "unit_agent = \<lparr>confirm_request = (\<lambda>m a. (True, a))\<rparr>"

section \<open>Operations\<close>

definition lock :: "wire \<Rightarrow> bytes \<Rightarrow> 'key agent_store \<Rightarrow> 'key agent_store rs" where
  "lock W r st = and_then (r_bytes W r) (\<lambda>(password, r). Ok (st\<lparr>store_lock := store_lock st @ password\<rparr>))"

definition unlock :: "wire \<Rightarrow> bytes \<Rightarrow> 'key agent_store \<Rightarrow> (bool \<times> 'key agent_store) rs" where
  "unlock W r st = and_then (r_bytes W r) (\<lambda>(password, r).
     if store_lock st = password then Ok (True, st\<lparr>store_lock := []\<rparr>) else Ok (False, st))"

definition remove_identity :: "wire \<Rightarrow> bytes \<Rightarrow> 'key agent_store \<Rightarrow> (bool \<times> 'key agent_store) rs" where
  "remove_identity W r st = and_then (r_bytes W r) (\<lambda>(blob, r).
     Ok (store_keys st blob \<noteq> None, st\<lparr>store_keys := (store_keys st)(blob := None)\<rparr>))"

text \<open>The loop over the constraints: the lifetimes read, for which tasks have been started whatever follows,
  and the constraints, \<open>None\<close> where one is not known. A reader gets shorter with each number.\<close>

function read_constraints ::
    "wire \<Rightarrow> constraint list \<Rightarrow> u32 list \<Rightarrow> bytes \<Rightarrow> u32 list \<times> constraint list option rs" where
  "read_constraints W c ts r =
     (case r_u8 W r of
        Ok (t, r') \<Rightarrow>
          if length r \<le> length r' then (ts, Diverges)
          else if t = CONSTRAIN_LIFETIME then
            (case r_u32 W r' of
               Ok (seconds, r'') \<Rightarrow>
                 if length r' < length r'' then (ts, Diverges)
                 else read_constraints W (c @ [KeyLifetime seconds]) (ts @ [seconds]) r''
             | e \<Rightarrow> (ts, and_then e (\<lambda>_. Ok None)))
          else if t = CONSTRAIN_CONFIRM then read_constraints W (c @ [Confirm]) ts r'
          else (ts, Ok None)
      | Err e \<Rightarrow> (ts, Ok (Some c))
      | e \<Rightarrow> (ts, and_then e (\<lambda>_. Ok None)))"
  by pat_completeness auto
termination by (relation "measure (\<lambda>(W, c, ts, r). length r)") auto

declare read_constraints.simps [simp del]

text \<open>\<open>SUCCESS\<close> is written as soon as the key is read.\<close>

definition add_key ::
    "wire \<Rightarrow> ('key, 'pub, 'sig) ssh_keys \<Rightarrow> ('key, 'pub) agent_crates \<Rightarrow> nat \<Rightarrow> bool \<Rightarrow> bytes \<Rightarrow> bytes \<Rightarrow> 'key agent_store
      \<Rightarrow> bytes \<times> 'key agent_store \<times> bool rs" where
  "add_key W S G now constrained r writebuf st =
     (case and_then (keypair_decode G r) (\<lambda>(private_key, r).
           and_then (r_str W r) (\<lambda>(comment, r).
           and_then (pub_blob G (public_of S private_key)) (\<lambda>blob. Ok (blob, private_key, r)))) of
        Ok (blob, key_pair, r) \<Rightarrow>
          let writebuf = writebuf @ [SUCCESS] in
          if constrained then
            (case read_constraints W [] [] r of
               (ts, c) \<Rightarrow>
                 let st = st\<lparr>store_timers := store_timers st @ map (\<lambda>seconds. (blob, now, seconds)) ts\<rparr> in
                 (case c of
                    Ok (Some c) \<Rightarrow> (writebuf, st\<lparr>store_keys := (store_keys st)(blob \<mapsto> (key_pair, now, c))\<rparr>, Ok True)
                  | Ok None \<Rightarrow> (writebuf, st, Ok False)
                  | e \<Rightarrow> (writebuf, st, and_then e (\<lambda>_. Ok False))))
          else (writebuf, st\<lparr>store_keys := (store_keys st)(blob \<mapsto> (key_pair, now, []))\<rparr>, Ok True)
      | e \<Rightarrow> (writebuf, st, and_then e (\<lambda>_. Ok False)))"

text \<open>A task whose time has come.\<close>

definition key_expires :: "bytes \<times> nat \<times> u32 \<Rightarrow> 'key agent_store \<Rightarrow> 'key agent_store" where
  "key_expires timer st =
     (case timer of
        (blob, now, seconds) \<Rightarrow>
          let st = st\<lparr>store_timers := remove1 timer (store_timers st)\<rparr> in
          (case store_keys st blob of
             Some (_, time, _) \<Rightarrow> if time = now then st\<lparr>store_keys := (store_keys st)(blob := None)\<rparr> else st
           | None \<Rightarrow> st))"

definition set_length :: "wire \<Rightarrow> bytes \<Rightarrow> bytes" where
  "set_length W w = be_put W (as_u32 (length w - 4)) @ drop 4 w"

text \<open>The answer to a request to sign, \<open>None\<close> where there is no such key. That a key wants to be confirmed
  is found out, but nobody is asked.\<close>

definition try_sign_request ::
    "wire \<Rightarrow> ('key, 'pub, 'sig) ssh_keys \<Rightarrow> bytes \<Rightarrow> bytes \<Rightarrow> 'key agent_store \<Rightarrow> bytes option rs" where
  "try_sign_request W S r writebuf st =
     and_then (r_bytes W r) (\<lambda>(blob, r).
       case store_keys st blob of
         None \<Rightarrow> Ok None
       | Some (key, _, constraints) \<Rightarrow>
           let needs_confirm = Confirm \<in> set constraints in
           let ok = (if needs_confirm then True else True) in
           if \<not> ok then Ok None
           else
             and_then (r_bytes W r) (\<lambda>(data, r).
             and_then (sign_with_hash_alg S (key_with_hash_new S key None) data) (\<lambda>signature.
             and_then (w_bytes W signature) (\<lambda>s.
               Ok (Some (set_length W (writebuf @ [SIGN_RESPONSE] @ s)))))))"

definition list_keys :: "wire \<Rightarrow> (bytes set \<Rightarrow> bytes list) \<Rightarrow> bytes \<Rightarrow> 'key agent_store \<Rightarrow> bytes rs" where
  "list_keys W iter writebuf st =
     (let ks = iter (dom (store_keys st)) in
      puts ([w_u8 W IDENTITIES_ANSWER, w_u32 W (as_u32 (length ks))]
        @ concat (map (\<lambda>k. [w_bytes W k, w_str W []]) ks)) writebuf)"

definition success_or_failure :: "(bool \<times> 'key agent_store) rs \<Rightarrow> bytes \<Rightarrow> 'key agent_store \<Rightarrow> (bytes \<times> 'key agent_store) rs" where
  "success_or_failure res writebuf st =
     (case res of
        Ok (True, st) \<Rightarrow> Ok (writebuf @ [SUCCESS], st)
      | Ok (False, st) \<Rightarrow> Ok (writebuf @ [FAILURE], st)
      | Err e \<Rightarrow> Ok (writebuf @ [FAILURE], st)
      | e \<Rightarrow> and_then e (\<lambda>_. Err (Keys AgentFailure)))"

text \<open>The guards of the arms of \<open>respond\<close>.\<close>

definition request_type :: "bool \<Rightarrow> u8 \<Rightarrow> message_type option" where
  "request_type is_locked t =
     (if t = 11 \<and> \<not> is_locked then Some RequestKeys
      else if t = 13 \<and> \<not> is_locked then Some Sign
      else if t = 17 \<and> \<not> is_locked then Some AddKeys
      else if t = 18 \<and> \<not> is_locked then Some RemoveKeys
      else if t = 19 \<and> \<not> is_locked then Some RemoveAllKeys
      else if t = 22 \<and> \<not> is_locked then Some Lock
      else if t = 23 \<and> is_locked then Some Unlock
      else if t = 25 \<and> \<not> is_locked then Some AddKeys
      else None)"

text \<open>The arms but that of a request to sign, which sets the length itself and returns: the bytes of the
  answer before the length is set.\<close>

definition answer_request ::
    "wire \<Rightarrow> ('key, 'pub, 'sig) ssh_keys \<Rightarrow> ('key, 'pub) agent_crates \<Rightarrow> (bytes set \<Rightarrow> bytes list) \<Rightarrow> nat \<Rightarrow> u8 \<Rightarrow> bytes
      \<Rightarrow> message_type \<Rightarrow> bytes \<Rightarrow> 'key agent_store \<Rightarrow> (bytes \<times> 'key agent_store) rs" where
  "answer_request W S G iter now t r m writebuf st =
     (case m of
        RequestKeys \<Rightarrow> and_then (list_keys W iter writebuf st) (\<lambda>w. Ok (w, st))
      | AddKeys \<Rightarrow>
          (case add_key W S G now (t = 25) r writebuf st of
             (w, st, Ok True) \<Rightarrow> Ok (w, st)
           | (w, st, Ok False) \<Rightarrow> Ok (w @ [FAILURE], st)
           | (w, st, Err e) \<Rightarrow> Ok (w @ [FAILURE], st)
           | (w, st, e) \<Rightarrow> and_then e (\<lambda>_. Err (Keys AgentFailure)))
      | RemoveKeys \<Rightarrow> success_or_failure (remove_identity W r st) writebuf st
      | RemoveAllKeys \<Rightarrow> Ok (writebuf @ [SUCCESS], st\<lparr>store_keys := Map.empty\<rparr>)
      | Lock \<Rightarrow> success_or_failure (and_then (lock W r st) (\<lambda>st. Ok (True, st))) writebuf st
      | Unlock \<Rightarrow> success_or_failure (unlock W r st) writebuf st
      | Sign \<Rightarrow> Ok (writebuf, st))"

text \<open>\<open>respond\<close>, for what the lock was when the request arrived: the answer, the application, the store.\<close>

definition respond ::
    "wire \<Rightarrow> ('key, 'pub, 'sig) ssh_keys \<Rightarrow> ('key, 'pub) agent_crates \<Rightarrow> 'a agent_app \<Rightarrow> (bytes set \<Rightarrow> bytes list) \<Rightarrow> nat
      \<Rightarrow> bool \<Rightarrow> bytes \<Rightarrow> 'a \<Rightarrow> 'key agent_store \<Rightarrow> (bytes \<times> 'a \<times> 'key agent_store) rs" where
  "respond W S G A iter now is_locked buf a st =
     (let writebuf = [0, 0, 0, 0]; refusal = set_length W (writebuf @ [FAILURE]) in
      case buf of
        [] \<Rightarrow> Ok (refusal, a, st)
      | t # r \<Rightarrow>
          (case request_type is_locked t of
             None \<Rightarrow> Ok (refusal, a, st)
           | Some m \<Rightarrow>
               (case confirm_request A m a of
                  (False, a) \<Rightarrow> Ok (refusal, a, st)
                | (True, a) \<Rightarrow>
                    if m = Sign then
                      and_then (try_sign_request W S r writebuf st) (\<lambda>signed.
                        case signed of
                          Some w \<Rightarrow> Ok (w, a, st)
                        | None \<Rightarrow> Ok (refusal, a, st))
                    else
                      and_then (answer_request W S G iter now t r m writebuf st) (\<lambda>(w, st).
                        Ok (set_length W w, a, st)))))"

definition is_locked :: "'key agent_store \<Rightarrow> bool" where
  "is_locked st \<longleftrightarrow> store_lock st \<noteq> []"

text \<open>What one round of \<open>run\<close> reads, \<open>None\<close> while it has not all come.\<close>

definition agent_read :: "wire \<Rightarrow> bytes \<Rightarrow> (bytes \<times> bytes) option" where
  "agent_read W s =
     (let len = unat (be_get W (take 4 s)) in
      if length s < 4 + len then None else Some (take len (drop 4 s), drop (4 + len) s))"

text \<open>The rounds of \<open>run\<close> of one connection that come about without waiting, when the application answers at
  once: what is written, and what stays unread.\<close>

function agent_run ::
    "wire \<Rightarrow> ('key, 'pub, 'sig) ssh_keys \<Rightarrow> ('key, 'pub) agent_crates \<Rightarrow> 'a agent_app \<Rightarrow> (bytes set \<Rightarrow> bytes list) \<Rightarrow> nat
      \<Rightarrow> bytes \<Rightarrow> 'a \<Rightarrow> 'key agent_store \<Rightarrow> (bytes \<times> bytes \<times> 'a \<times> 'key agent_store) rs" where
  "agent_run W S G A iter now s a st =
     (case agent_read W s of
        None \<Rightarrow> Ok ([], s, a, st)
      | Some (buf, s) \<Rightarrow>
          and_then (respond W S G A iter now (is_locked st) buf a st) (\<lambda>(w, a, st).
          and_then (agent_run W S G A iter now s a st) (\<lambda>(w', s, a, st).
            Ok (w @ w', s, a, st))))"
  by pat_completeness auto
termination
  by (relation "measure (\<lambda>(W, S, G, A, iter, now, s, a, st). length s)") (auto simp: agent_read_def Let_def split: if_splits)

declare agent_run.simps [simp del]

end
