(* ===== verification/AgentClient.thy ===== *)
theory AgentClient
  imports AgentServer KnownHosts
begin

text \<open>
  The client of an agent (\<open>keys/agent/client.rs\<close>): each operation writes a request into the buffer, sends it and
  reads the answer into the buffer. The stream to the agent is a parameter; how a client connects to one
  (sockets, pipes, the environment) is left out.
\<close>

section \<open>The stream\<close>

text \<open>\<open>write_all\<close> with \<open>flush\<close>, and \<open>read_exact\<close>: a read that waits for ever \<open>Diverges\<close>.\<close>

record 's agent_stream =
  stream_write :: "bytes \<Rightarrow> 's \<Rightarrow> 's rs"
  stream_read :: "nat \<Rightarrow> 's \<Rightarrow> (bytes \<times> 's) rs"

record 's agent_client =
  ac_stream :: 's
  ac_buf :: bytes

definition agent_connect :: "'s \<Rightarrow> 's agent_client" where
  "agent_connect s = \<lparr>ac_stream = s, ac_buf = []\<rparr>"

definition read_response :: "wire \<Rightarrow> 's agent_stream \<Rightarrow> 's agent_client \<Rightarrow> 's agent_client rs" where
  "read_response W T c =
     and_then (stream_write T (ac_buf c) (ac_stream c)) (\<lambda>s.
     and_then (stream_read T 4 s) (\<lambda>(b, s).
     and_then (be_read_u32 W b) (\<lambda>len.
     and_then (stream_read T (unat len) s) (\<lambda>(b, s).
       Ok \<lparr>ac_stream = s, ac_buf = b\<rparr>))))"

definition read_success :: "wire \<Rightarrow> 's agent_stream \<Rightarrow> 's agent_client \<Rightarrow> 's agent_client rs" where
  "read_success W T c =
     and_then (read_response W T c) (\<lambda>c.
       if first (ac_buf c) = Some SUCCESS then Ok c else Err (Keys AgentFailure))"

text \<open>\<open>buf.clear()\<close>, \<open>buf.resize(4)\<close>, the writes, and the length of them over the four zeros.\<close>

definition agent_request :: "wire \<Rightarrow> bytes rs list \<Rightarrow> bytes rs" where
  "agent_request W es = and_then (puts es [0, 0, 0, 0]) (\<lambda>b. Ok (set_length W b))"

section \<open>Keys\<close>

fun encode_constraint :: "wire \<Rightarrow> constraint \<Rightarrow> bytes rs list" where
  "encode_constraint W (KeyLifetime seconds) = [w_u8 W CONSTRAIN_LIFETIME, w_u32 W seconds]"
| "encode_constraint W Confirm = [push CONSTRAIN_CONFIRM]"
| "encode_constraint W (Extensions name details) = [w_u8 W CONSTRAIN_EXTENSION, w_bytes W name, w_bytes W details]"

definition client_add_identity ::
    "wire \<Rightarrow> ('key, 'pub) agent_crates \<Rightarrow> 's agent_stream \<Rightarrow> 'key \<Rightarrow> constraint list \<Rightarrow> 's agent_client \<Rightarrow> 's agent_client rs" where
  "client_add_identity W G T key constraints c =
     and_then
       (agent_request W
         ([push (if constraints = [] then ADD_IDENTITY else ADD_ID_CONSTRAINED), keypair_encode G key, w_str W []]
          @ concat (map (encode_constraint W) constraints)))
       (\<lambda>b. read_success W T (c\<lparr>ac_buf := b\<rparr>))"

definition client_add_smartcard_key ::
    "wire \<Rightarrow> 's agent_stream \<Rightarrow> string \<Rightarrow> bytes \<Rightarrow> constraint list \<Rightarrow> 's agent_client \<Rightarrow> 's agent_client rs" where
  "client_add_smartcard_key W T ident pin constraints c =
     and_then
       (agent_request W
         ([push (if constraints = [] then ADD_SMARTCARD_KEY else ADD_SMARTCARD_KEY_CONSTRAINED), w_str W ident, w_bytes W pin]
          @ (if constraints = [] then []
             else w_u32 W (as_u32 (length constraints)) # concat (map (encode_constraint W) constraints))))
       (\<lambda>b. read_response W T (c\<lparr>ac_buf := b\<rparr>))"

definition client_lock :: "wire \<Rightarrow> 's agent_stream \<Rightarrow> bytes \<Rightarrow> 's agent_client \<Rightarrow> 's agent_client rs" where
  "client_lock W T passphrase c =
     and_then (agent_request W [push LOCK, w_bytes W passphrase]) (\<lambda>b. read_response W T (c\<lparr>ac_buf := b\<rparr>))"

definition client_unlock :: "wire \<Rightarrow> 's agent_stream \<Rightarrow> bytes \<Rightarrow> 's agent_client \<Rightarrow> 's agent_client rs" where
  "client_unlock W T passphrase c =
     and_then (agent_request W [w_u8 W UNLOCK, w_bytes W passphrase]) (\<lambda>b. read_response W T (c\<lparr>ac_buf := b\<rparr>))"

fun read_identities ::
    "wire \<Rightarrow> ('key, 'pub, 'sig) ssh_keys \<Rightarrow> ('key, 'pub) agent_crates \<Rightarrow> nat \<Rightarrow> bytes \<Rightarrow> 'pub list rs" where
  "read_identities W S G 0 r = Ok []"
| "read_identities W S G (Suc n) r =
     and_then (r_bytes W r) (\<lambda>(key_blob, r).
     and_then (r_str W r) (\<lambda>(comment, r).
     and_then (parse_public_key S key_blob) (\<lambda>key.
     and_then (read_identities W S G n r) (\<lambda>keys. Ok (with_comment G key comment # keys)))))"

text \<open>The operations that give a result return it beside the client.\<close>

definition client_request_identities ::
    "wire \<Rightarrow> ('key, 'pub, 'sig) ssh_keys \<Rightarrow> ('key, 'pub) agent_crates \<Rightarrow> 's agent_stream \<Rightarrow> 's agent_client
      \<Rightarrow> ('pub list \<times> 's agent_client) rs" where
  "client_request_identities W S G T c =
     and_then (agent_request W [w_u8 W REQUEST_IDENTITIES]) (\<lambda>b.
     and_then (read_response W T (c\<lparr>ac_buf := b\<rparr>)) (\<lambda>c.
       case ac_buf c of
         t # r \<Rightarrow>
           if t = IDENTITIES_ANSWER then
             and_then (r_u32 W r) (\<lambda>(n, r). and_then (read_identities W S G (unat n) r) (\<lambda>keys. Ok (keys, c)))
           else Ok ([], c)
       | [] \<Rightarrow> Ok ([], c)))"

section \<open>Signatures\<close>

definition hash_flag :: "algorithm \<Rightarrow> hash_alg option \<Rightarrow> u32" where
  "hash_flag algo h =
     (if is_rsa algo then (case h of Some HashSha256 \<Rightarrow> 2 | Some HashSha512 \<Rightarrow> 4 | _ \<Rightarrow> 0) else 0)"

text \<open>The request in the buffer, and the flag.\<close>

definition prepare_sign_request ::
    "wire \<Rightarrow> ('pub \<Rightarrow> algorithm) \<Rightarrow> ('key, 'pub) agent_crates \<Rightarrow> 'pub \<Rightarrow> hash_alg option \<Rightarrow> bytes \<Rightarrow> 's agent_client
      \<Rightarrow> (u32 \<times> 's agent_client) rs" where
  "prepare_sign_request W alg G public h data c =
     (let flag = hash_flag (alg public) h in
      and_then
        (agent_request W [w_u8 W SIGN_REQUEST, and_then (pub_blob G public) (w_bytes W), w_bytes W data, w_u32 W flag])
        (\<lambda>b. Ok (flag, c\<lparr>ac_buf := b\<rparr>)))"

definition write_signature :: "wire \<Rightarrow> bytes \<Rightarrow> u32 \<Rightarrow> bytes \<Rightarrow> bytes rs" where
  "write_signature W r flag data =
     and_then (r_bytes W r) (\<lambda>(resp, r).
     and_then (r_str W resp) (\<lambda>(t, resp).
       if flag = 2 \<and> t = ''rsa-sha2-256'' \<or> flag = 4 \<and> t = ''rsa-sha2-512'' \<or> flag = 0 then
         and_then (r_bytes W resp) (\<lambda>(sig, resp).
           puts [w_usize W (length t + length sig + 8), w_str W t, w_bytes W sig] data)
       else Err (Keys AgentProtocolError)))"

definition client_sign_request ::
    "wire \<Rightarrow> ('pub \<Rightarrow> algorithm) \<Rightarrow> ('key, 'pub) agent_crates \<Rightarrow> 's agent_stream \<Rightarrow> 'pub \<Rightarrow> hash_alg option \<Rightarrow> bytes
      \<Rightarrow> 's agent_client \<Rightarrow> (bytes \<times> 's agent_client) rs" where
  "client_sign_request W alg G T public h data c =
     and_then (prepare_sign_request W alg G public h data c) (\<lambda>(flag, c).
     and_then (read_response W T c) (\<lambda>c.
       case ac_buf c of
         t # r \<Rightarrow>
           if t = SIGN_RESPONSE then and_then (write_signature W r flag data) (\<lambda>data. Ok (data, c))
           else if t = FAILURE then Err (Keys AgentFailure)
           else Err (Keys AgentProtocolError)
       | [] \<Rightarrow> Err (Keys AgentProtocolError)))"

text \<open>The client is given back with the outcome; where it fails it is not modelled further. \<open>base64_nopad\<close> is the
  encoding of \<open>BASE64_NOPAD\<close>.\<close>

definition client_sign_request_base64 ::
    "wire \<Rightarrow> ('pub \<Rightarrow> algorithm) \<Rightarrow> ('key, 'pub) agent_crates \<Rightarrow> (bytes \<Rightarrow> string) \<Rightarrow> 's agent_stream \<Rightarrow> 'pub \<Rightarrow> hash_alg option
      \<Rightarrow> bytes \<Rightarrow> 's agent_client \<Rightarrow> (string \<times> 's agent_client) rs" where
  "client_sign_request_base64 W alg G base64_nopad T public h data c =
     and_then (prepare_sign_request W alg G public h data c) (\<lambda>(flag, c).
     and_then (read_response W T c) (\<lambda>c.
       if ac_buf c \<noteq> [] \<and> hd (ac_buf c) = SIGN_RESPONSE then Ok (base64_nopad (drop 1 (ac_buf c)), c)
       else Ok ([], c)))"

definition client_sign_request_signature ::
    "wire \<Rightarrow> ('key, 'pub, 'sig) ssh_keys \<Rightarrow> ('pub \<Rightarrow> algorithm) \<Rightarrow> ('key, 'pub) agent_crates \<Rightarrow> 's agent_stream \<Rightarrow> 'pub
      \<Rightarrow> hash_alg option \<Rightarrow> bytes \<Rightarrow> 's agent_client \<Rightarrow> ('sig \<times> 's agent_client) rs" where
  "client_sign_request_signature W S alg G T public h data c =
     and_then (prepare_sign_request W alg G public h data c) (\<lambda>(flag, c).
     and_then (read_response W T c) (\<lambda>c.
       case ac_buf c of
         t # r \<Rightarrow>
           if t = SIGN_RESPONSE then
             and_then (r_bytes W r) (\<lambda>(resp, r). and_then (sig_decode S resp) (\<lambda>sig. Ok (sig, c)))
           else Err (Keys AgentProtocolError)
       | [] \<Rightarrow> Err (Keys AgentProtocolError)))"

section \<open>Removal and extensions\<close>

definition client_remove_identity ::
    "wire \<Rightarrow> ('key, 'pub) agent_crates \<Rightarrow> 's agent_stream \<Rightarrow> 'pub \<Rightarrow> 's agent_client \<Rightarrow> 's agent_client rs" where
  "client_remove_identity W G T public c =
     and_then (agent_request W [push REMOVE_IDENTITY, and_then (pub_blob G public) (w_bytes W)]) (\<lambda>b.
       read_response W T (c\<lparr>ac_buf := b\<rparr>))"

definition client_remove_smartcard_key ::
    "wire \<Rightarrow> 's agent_stream \<Rightarrow> string \<Rightarrow> bytes \<Rightarrow> 's agent_client \<Rightarrow> 's agent_client rs" where
  "client_remove_smartcard_key W T ident pin c =
     and_then (agent_request W [w_u8 W REMOVE_SMARTCARD_KEY, w_str W ident, w_bytes W pin]) (\<lambda>b.
       read_response W T (c\<lparr>ac_buf := b\<rparr>))"

text \<open>Here the four bytes of the length stay zero.\<close>

definition client_remove_all_identities :: "wire \<Rightarrow> 's agent_stream \<Rightarrow> 's agent_client \<Rightarrow> 's agent_client rs" where
  "client_remove_all_identities W T c =
     and_then (puts [w_u8 W REMOVE_ALL_IDENTITIES, w_u32 W 1] [0, 0, 0, 0]) (\<lambda>b. read_success W T (c\<lparr>ac_buf := b\<rparr>))"

text \<open>And here they do, and the length is written behind the request.\<close>

definition length_behind :: "wire \<Rightarrow> bytes \<Rightarrow> bytes rs" where
  "length_behind W b = puts [w_u32 W (as_u32 (length b - 4))] b"

definition client_extension :: "wire \<Rightarrow> 's agent_stream \<Rightarrow> bytes \<Rightarrow> bytes \<Rightarrow> 's agent_client \<Rightarrow> 's agent_client rs" where
  "client_extension W T typ ext c =
     and_then (puts [w_u8 W EXTENSION, w_bytes W typ, w_bytes W ext] [0, 0, 0, 0]) (\<lambda>b.
     and_then (length_behind W b) (\<lambda>b. read_response W T (c\<lparr>ac_buf := b\<rparr>)))"

text \<open>What was read is given back as the extended \<open>ext\<close>, which in the source is dropped at the end.\<close>

definition client_query_extension ::
    "wire \<Rightarrow> 's agent_stream \<Rightarrow> bytes \<Rightarrow> bytes \<Rightarrow> 's agent_client \<Rightarrow> (bool \<times> bytes \<times> 's agent_client) rs" where
  "client_query_extension W T typ ext c =
     and_then (puts [w_u8 W EXTENSION, w_bytes W typ] [0, 0, 0, 0]) (\<lambda>b.
     and_then (length_behind W b) (\<lambda>b.
     and_then (read_response W T (c\<lparr>ac_buf := b\<rparr>)) (\<lambda>c.
       case ac_buf c of
         t # r \<Rightarrow>
           if t = SUCCESS then and_then (r_bytes W r) (\<lambda>(s, r). Ok (True, ext @ s, c)) else Ok (False, ext, c)
       | [] \<Rightarrow> Ok (False, ext, c))))"

end
