(* ===== verification/AgentSafety.thy ===== *)
theory AgentSafety
  imports AgentServer KnownHosts
begin

text \<open>
  Runs of an agent with many connections, and what holds in all of them: what the kept keys are like, and that
  a locked agent does nothing but wait for its pass phrase.
\<close>

section \<open>Runs\<close>

text \<open>The connections by number: the clone of the application that each has, and the request that waits for
  its answer, with what the lock was when it came.\<close>

record ('a, 'key) agent_system =
  sys_store :: "'key agent_store"
  sys_agents :: "nat \<Rightarrow> 'a"
  sys_waiting :: "nat \<rightharpoonup> bytes \<times> bool"

datatype agent_event = Arrives nat bytes | Answered nat bytes bytes | Broken nat | Expired "bytes \<times> nat \<times> u32"

inductive agent_step ::
    "wire \<Rightarrow> ('key, 'pub, 'sig) ssh_keys \<Rightarrow> ('key, 'pub) agent_crates \<Rightarrow> 'a agent_app \<Rightarrow> (bytes set \<Rightarrow> bytes list)
      \<Rightarrow> ('a, 'key) agent_system \<Rightarrow> agent_event \<Rightarrow> ('a, 'key) agent_system \<Rightarrow> bool"
  for W S G A iter where
  arrives: "sys_waiting s c = None
    \<Longrightarrow> agent_step W S G A iter s (Arrives c buf) (s\<lparr>sys_waiting := (sys_waiting s)(c \<mapsto> (buf, is_locked (sys_store s)))\<rparr>)"
| answered: "\<lbrakk>sys_waiting s c = Some (buf, locked);
      respond W S G A iter now locked buf (sys_agents s c) (sys_store s) = Ok (w, a, st)\<rbrakk>
    \<Longrightarrow> agent_step W S G A iter s (Answered c buf w)
          (s\<lparr>sys_store := st, sys_agents := (sys_agents s)(c := a), sys_waiting := (sys_waiting s)(c := None)\<rparr>)"
| broken: "\<lbrakk>sys_waiting s c = Some (buf, locked);
      \<not> is_ok (respond W S G A iter now locked buf (sys_agents s c) (sys_store s))\<rbrakk>
    \<Longrightarrow> agent_step W S G A iter s (Broken c) (s\<lparr>sys_waiting := (sys_waiting s)(c := None)\<rparr>)"
| expired: "t \<in> set (store_timers (sys_store s))
    \<Longrightarrow> agent_step W S G A iter s (Expired t) (s\<lparr>sys_store := key_expires t (sys_store s)\<rparr>)"

inductive agent_runs ::
    "wire \<Rightarrow> ('key, 'pub, 'sig) ssh_keys \<Rightarrow> ('key, 'pub) agent_crates \<Rightarrow> 'a agent_app \<Rightarrow> (bytes set \<Rightarrow> bytes list)
      \<Rightarrow> ('a, 'key) agent_system \<Rightarrow> agent_event list \<Rightarrow> ('a, 'key) agent_system \<Rightarrow> bool"
  for W S G A iter where
  runs_start: "agent_runs W S G A iter s [] s"
| runs_step: "\<lbrakk>agent_runs W S G A iter s es s'; agent_step W S G A iter s' e s''\<rbrakk> \<Longrightarrow> agent_runs W S G A iter s (es @ [e]) s''"

definition new_system :: "(nat \<Rightarrow> 'a) \<Rightarrow> ('a, 'key) agent_system" where
  "new_system agents = \<lparr>sys_store = new_store, sys_agents = agents, sys_waiting = Map.empty\<rparr>"

section \<open>What an operation may change\<close>

lemma read_constraints_lifetimes:
  assumes "read_constraints W c ts r = (ts', Ok (Some c'))" "\<forall>n. KeyLifetime n \<in> set c \<longrightarrow> n \<in> set ts" "\<forall>n d. Extensions n d \<notin> set c"
  shows "(\<forall>n. KeyLifetime n \<in> set c' \<longrightarrow> n \<in> set ts') \<and> (\<forall>n d. Extensions n d \<notin> set c')"
  using assms
proof (induction W c ts r rule: read_constraints.induct)
  case (1 W c ts r)
  show ?case
  proof (cases "r_u8 W r")
    case (Ok x)
    obtain t r' where x: "x = (t, r')" by (cases x)
    show ?thesis
    proof (cases "length r \<le> length r'")
      case False
      show ?thesis
      proof (cases "t = CONSTRAIN_LIFETIME")
        case t: True
        with "1.prems"(1) Ok x False obtain seconds r'' where u: "r_u32 W r' = Ok (seconds, r'')" "\<not> length r' < length r''"
          "read_constraints W (c @ [KeyLifetime seconds]) (ts @ [seconds]) r'' = (ts', Ok (Some c'))"
          by (subst (asm) read_constraints.simps) (auto split: rs.splits if_splits simp: outcome_simps)
        show ?thesis
          by (rule "1.IH"(1) [OF Ok x [symmetric] False t u(1) refl u(2,3)]) (use "1.prems"(2,3) in auto)
      next
        case t: False
        show ?thesis
        proof (cases "t = CONSTRAIN_CONFIRM")
          case confirm: True
          with "1.prems"(1) Ok x False t have u: "read_constraints W (c @ [Confirm]) ts r' = (ts', Ok (Some c'))"
            by (subst (asm) read_constraints.simps) auto
          show ?thesis
            by (rule "1.IH"(2) [OF Ok x [symmetric] False t confirm u]) (use "1.prems"(2,3) in auto)
        qed (use "1.prems"(1) Ok x False t in \<open>subst (asm) read_constraints.simps, auto\<close>)
      qed
    qed (use "1.prems"(1) Ok x in \<open>subst (asm) read_constraints.simps, auto\<close>)
  qed (use "1.prems" in \<open>subst (asm) read_constraints.simps, auto simp: outcome_simps split: rs.splits\<close>)+
qed

text \<open>What the kept keys are like: each stands under its own public blob, its constraints are known ones, and
  for each lifetime of it a task waits.\<close>

definition store_typed :: "('key, 'pub, 'sig) ssh_keys \<Rightarrow> ('key, 'pub) agent_crates \<Rightarrow> 'key agent_store \<Rightarrow> bool" where
  "store_typed S G st \<longleftrightarrow> finite (dom (store_keys st)) \<and>
     (\<forall>blob key time c. store_keys st blob = Some (key, time, c)
        \<longrightarrow> pub_blob G (public_of S key) = Ok blob
          \<and> (\<forall>name details. Extensions name details \<notin> set c)
          \<and> (\<forall>seconds. KeyLifetime seconds \<in> set c \<longrightarrow> (blob, time, seconds) \<in> set (store_timers st)))"

lemma store_typed_subset:
  assumes "store_typed S G st" "store_keys st' \<subseteq>\<^sub>m store_keys st" "store_timers st' = store_timers st"
  shows "store_typed S G st'"
proof -
  have "store_keys st blob = Some x" if "store_keys st' blob = Some x" for blob x
    using assms(2) that unfolding map_le_def by (metis domI)
  moreover have "dom (store_keys st') \<subseteq> dom (store_keys st)" using assms(2) by (rule map_le_implies_dom_le)
  ultimately show ?thesis
    using assms(1,3) finite_subset unfolding store_typed_def by metis
qed

lemma store_typed_insert:
  assumes "store_typed S G st" "pub_blob G (public_of S key) = Ok blob"
    and "\<forall>name details. Extensions name details \<notin> set c" "\<forall>seconds. KeyLifetime seconds \<in> set c \<longrightarrow> seconds \<in> set ts"
  shows "store_typed S G (st\<lparr>store_timers := store_timers st @ map (\<lambda>seconds. (blob, now, seconds)) ts,
    store_keys := (store_keys st)(blob \<mapsto> (key, now, c))\<rparr>)"
  using assms unfolding store_typed_def by (auto simp: image_iff split: if_splits)

lemma store_typed_timers:
  "store_typed S G st \<Longrightarrow> store_typed S G (st\<lparr>store_timers := store_timers st @ ts\<rparr>)"
  unfolding store_typed_def by simp

lemma add_key_typed:
  assumes "add_key W S G now constrained r w st = (w', st', res)" "store_typed S G st"
  shows "store_typed S G st'"
proof (cases "and_then (keypair_decode G r) (\<lambda>(private_key, r). and_then (r_str W r) (\<lambda>(comment, r).
    and_then (pub_blob G (public_of S private_key)) (\<lambda>blob. Ok (blob, private_key, r))))")
  case (Ok x)
  obtain blob key r' where x: "x = (blob, key, r')" by (cases x)
  from Ok x have b: "pub_blob G (public_of S key) = Ok blob" by (auto simp: outcome_simps)
  show ?thesis
  proof (cases constrained)
    case True
    obtain ts c where rc: "read_constraints W [] [] r' = (ts, c)" by fastforce
    show ?thesis
    proof (cases "\<exists>c'. c = Ok (Some c')")
      case c': True
      then obtain c' where c': "c = Ok (Some c')" by blast
      from read_constraints_lifetimes [OF rc [unfolded c']]
      have "(\<forall>n. KeyLifetime n \<in> set c' \<longrightarrow> n \<in> set ts) \<and> (\<forall>n d. Extensions n d \<notin> set c')" by simp
      with store_typed_insert [OF assms(2) b] have
        "store_typed S G (st\<lparr>store_timers := store_timers st @ map (\<lambda>seconds. (blob, now, seconds)) ts,
          store_keys := (store_keys st)(blob \<mapsto> (key, now, c'))\<rparr>)" by blast
      with assms(1) show ?thesis unfolding add_key_def Ok x by (auto simp: True rc c' Let_def)
    next
      case False
      with assms(1) have "st' = st\<lparr>store_timers := store_timers st @ map (\<lambda>seconds. (blob, now, seconds)) ts\<rparr>"
        unfolding add_key_def Ok x by (auto simp: True rc Let_def split: rs.splits option.splits)
      with store_typed_timers [OF assms(2)] show ?thesis by simp
    qed
  next
    case False
    have "store_typed S G (st\<lparr>store_timers := store_timers st @ map (\<lambda>seconds. (blob, now, seconds)) [],
      store_keys := (store_keys st)(blob \<mapsto> (key, now, []))\<rparr>)"
      by (rule store_typed_insert [OF assms(2) b]) simp_all
    with assms(1) show ?thesis unfolding add_key_def Ok x by (auto simp: False Let_def)
  qed
qed (use assms in \<open>auto simp: add_key_def\<close>)

lemma key_expires_typed: "store_typed S G st \<Longrightarrow> store_typed S G (key_expires t st)"
proof -
  assume st: "store_typed S G st"
  obtain blob now seconds where t: "t = (blob, now, seconds)" by (cases t)
  have keep: "x \<in> set (remove1 t xs)" if "x \<in> set xs" "x \<noteq> t" for x and xs :: "(bytes \<times> nat \<times> u32) list" using that by simp
  show ?thesis
  proof (cases "store_keys st blob")
    case None
    then have "store_keys st b = Some y \<Longrightarrow> b \<noteq> blob" for b y by auto
    with None st keep show ?thesis unfolding store_typed_def key_expires_def t by (auto simp: Let_def)
  next
    case (Some y)
    obtain key time c where y: "y = (key, time, c)" by (cases y)
    have "store_keys (key_expires t st) b = Some (key', time', c') \<Longrightarrow>
        store_keys st b = Some (key', time', c') \<and> (b, time') \<noteq> (blob, now)" for b key' time' c'
      using Some y by (auto simp: key_expires_def t Let_def split: if_splits)
    moreover have "store_timers (key_expires t st) = remove1 t (store_timers st)"
      using Some y by (auto simp: key_expires_def t Let_def)
    moreover have "dom (store_keys (key_expires t st)) \<subseteq> dom (store_keys st)"
      using Some y by (auto simp: key_expires_def t Let_def split: if_splits)
    ultimately show ?thesis
      using st keep t finite_subset unfolding store_typed_def by (metis prod.inject)
  qed
qed

lemma success_or_failure_store:
  "success_or_failure res w st = Ok (w', st') \<Longrightarrow> st' = st \<or> (\<exists>b. res = Ok (b, st'))"
  by (auto simp: success_or_failure_def outcome_simps split: rs.splits bool.splits prod.splits)

lemma respond_typed:
  assumes "respond W S G A iter now l buf a st = Ok (w, a', st')" "store_typed S G st"
  shows "store_typed S G st'"
proof -
  have "st' = st \<or> (\<exists>t r m w0 w1. answer_request W S G iter now t r m w0 st = Ok (w1, st'))"
    using assms(1) unfolding respond_def Let_def
    by (auto simp: outcome_simps split: list.splits option.splits prod.splits bool.splits if_splits)
  then show ?thesis
  proof (elim disjE exE)
    fix t r m w0 w1
    assume a: "answer_request W S G iter now t r m w0 st = Ok (w1, st')"
    show ?thesis
    proof (cases m)
      case AddKeys
      obtain w2 st2 res where k: "add_key W S G now (t = 25) r w0 st = (w2, st2, res)" using prod_cases3 by blast
      with a AddKeys have "st' = st2" by (cases res) (auto simp: answer_request_def split: bool.splits)
      with add_key_typed [OF k assms(2)] show ?thesis by simp
    next
      case RemoveKeys
      with a success_or_failure_store have "st' = st \<or> (\<exists>b. remove_identity W r st = Ok (b, st'))"
        by (simp add: answer_request_def)
      then show ?thesis
        using assms(2) by (auto simp: remove_identity_def outcome_simps map_le_def intro!: store_typed_subset [OF assms(2)])
    next
      case Lock
      with a success_or_failure_store have "st' = st \<or> (\<exists>b. and_then (lock W r st) (\<lambda>st. Ok (True, st)) = Ok (b, st'))"
        by (simp add: answer_request_def)
      then show ?thesis
        using assms(2) by (auto simp: lock_def outcome_simps intro!: store_typed_subset [OF assms(2)])
    next
      case Unlock
      with a success_or_failure_store have "st' = st \<or> (\<exists>b. unlock W r st = Ok (b, st'))"
        by (simp add: answer_request_def)
      then show ?thesis
        using assms(2) by (auto simp: unlock_def outcome_simps split: if_splits intro!: store_typed_subset [OF assms(2)])
    qed (use a assms(2) in \<open>auto simp: answer_request_def outcome_simps map_le_def intro!: store_typed_subset [OF assms(2)]\<close>)
  qed (use assms(2) in simp)
qed


section \<open>A locked agent\<close>

definition refusal :: "wire \<Rightarrow> bytes" where
  "refusal W = set_length W [0, 0, 0, 0, FAILURE]"

text \<open>A request that unlocks an agent locked with \<open>password\<close>.\<close>

definition unlocks :: "wire \<Rightarrow> bytes \<Rightarrow> bytes \<Rightarrow> bool" where
  "unlocks W password buf \<longleftrightarrow> (\<exists>r r'. buf = UNLOCK # r \<and> r_bytes W r = Ok (password, r'))"

lemma respond_locked:
  assumes "respond W S G A iter now True buf a st = Ok (w, a', st')" "\<not> unlocks W (store_lock st) buf"
  shows "w = refusal W \<and> st' = st"
proof (cases buf)
  case (Cons t r)
  have u: "success_or_failure (unlock W r st) w0 st = Ok x \<Longrightarrow> t = 23 \<Longrightarrow> x = (w0 @ [FAILURE], st)" for w0 x
    using assms(2) Cons by (auto simp: success_or_failure_def unlock_def unlocks_def UNLOCK_def outcome_simps split: rs.splits bool.splits if_splits)
  show ?thesis
  proof (cases "t = 23")
    case True
    then show ?thesis
      using assms(1) Cons
      by (auto simp: respond_def request_type_def answer_request_def refusal_def outcome_simps Let_def dest!: u
          split: prod.splits bool.splits)
  next
    case False
    then show ?thesis using assms(1) Cons by (auto simp: respond_def request_type_def refusal_def Let_def)
  qed
qed (use assms in \<open>simp add: respond_def refusal_def Let_def\<close>)

lemma key_expires_parts:
  "store_keys (key_expires t st) \<subseteq>\<^sub>m store_keys st" "store_lock (key_expires t st) = store_lock st"
  by (auto simp: key_expires_def map_le_def Let_def split: prod.splits option.splits if_splits)

text \<open>Every waiting request came while the agent was locked, and does not unlock it.\<close>

definition shut :: "wire \<Rightarrow> bytes \<Rightarrow> ('a, 'key) agent_system \<Rightarrow> bool" where
  "shut W password s \<longleftrightarrow> store_lock (sys_store s) = password \<and> password \<noteq> []
     \<and> (\<forall>c buf l. sys_waiting s c = Some (buf, l) \<longrightarrow> l \<and> \<not> unlocks W password buf)"

lemma agent_step_shut:
  assumes "agent_step W S G A iter s e s'" "shut W password s" "\<forall>c buf. e = Arrives c buf \<longrightarrow> \<not> unlocks W password buf"
  shows "shut W password s' \<and> store_keys (sys_store s') \<subseteq>\<^sub>m store_keys (sys_store s) \<and> (\<forall>c buf w. e = Answered c buf w \<longrightarrow> w = refusal W)"
  using assms
proof cases
  case (answered c buf locked now w a st)
  from answered(3) assms(2) have "locked" "\<not> unlocks W (store_lock (sys_store s)) buf" by (auto simp: shut_def)
  with answered(4) respond_locked have "w = refusal W \<and> st = sys_store s" by (metis (full_types))
  with answered assms(2) show ?thesis by (auto simp: shut_def)
next
  case (expired t)
  with assms(2) key_expires_parts [of t "sys_store s"] show ?thesis by (auto simp: shut_def)
qed (auto simp: shut_def is_locked_def)

lemma agent_runs_shut:
  assumes "agent_runs W S G A iter s es s'" "shut W password s" "\<forall>c buf. Arrives c buf \<in> set es \<longrightarrow> \<not> unlocks W password buf"
  shows "shut W password s' \<and> store_keys (sys_store s') \<subseteq>\<^sub>m store_keys (sys_store s) \<and> (\<forall>c buf w. Answered c buf w \<in> set es \<longrightarrow> w = refusal W)"
  using assms
proof induction
  case (runs_step s es s' e s'')
  from runs_step.IH runs_step.prems have ih: "shut W password s'" "store_keys (sys_store s') \<subseteq>\<^sub>m store_keys (sys_store s)"
    "\<forall>c buf w. Answered c buf w \<in> set es \<longrightarrow> w = refusal W" by auto
  from agent_step_shut [OF runs_step.hyps(2) ih(1)] runs_step.prems(2) have
    "shut W password s''" "store_keys (sys_store s'') \<subseteq>\<^sub>m store_keys (sys_store s')" "\<forall>c buf w. e = Answered c buf w \<longrightarrow> w = refusal W" by auto
  with ih show ?case using map_le_trans by auto
qed simp

section \<open>An example\<close>

definition sample_agent_crates :: "(bytes, bytes) agent_crates" where
  "sample_agent_crates = \<lparr>keypair_decode = r_bytes rfc4251_wire,
     keypair_encode = (\<lambda>k. if length k < 2 ^ 32 then w_bytes rfc4251_wire k else Err SshKey), pub_blob = Ok, with_comment = (\<lambda>k c. k)\<rparr>"

definition sample_add :: bytes where
  "sample_add = ADD_IDENTITY # rfc_put 1 @ [7] @ rfc_put 0"

definition sample_agent_start :: "bytes \<Rightarrow> (unit, bytes) agent_system" where
  "sample_agent_start password = \<lparr>sys_store = new_store\<lparr>store_lock := password\<rparr>, sys_agents = (\<lambda>c. ()), sys_waiting = Map.empty\<rparr>"

definition sample_agent_end :: "bytes \<Rightarrow> (unit, bytes) agent_system" where
  "sample_agent_end password =
     \<lparr>sys_store = \<lparr>store_keys = (if password = [] then [[7] \<mapsto> ([7], 5, [])] else Map.empty), store_lock = password, store_timers = []\<rparr>,
      sys_agents = (\<lambda>c. ()), sys_waiting = Map.empty\<rparr>"

definition sample_answer :: "bytes \<Rightarrow> bytes" where
  "sample_answer password = (if password = [] then rfc_put 1 @ [SUCCESS] else refusal rfc4251_wire)"

lemma sample_respond:
  "respond rfc4251_wire sample_host_keys sample_agent_crates unit_agent iter 5 (password \<noteq> []) sample_add () (new_store\<lparr>store_lock := password\<rparr>)
    = Ok (sample_answer password, (), sys_store (sample_agent_end password))"
proof -
  have k: "keypair_decode sample_agent_crates (rfc_put 1 @ [7] @ r) = Ok ([7], r)" for r
    using rfc.get_bytes [of "[7]" r] by (simp add: sample_agent_crates_def rfc4251_wire_def)
  have c: "r_str rfc4251_wire (rfc_put 0) = Ok ([], [])"
    using rfc.get_str [of "[]" "[]"] by (simp add: ascii_def as_bytes_def) (simp add: rfc4251_wire_def)
  define r where "r = rfc_put 1 @ [7] @ rfc_put 0"
  have add: "add_key rfc4251_wire sample_host_keys sample_agent_crates 5 False r [0, 0, 0, 0] new_store
      = ([0, 0, 0, 0, SUCCESS], sys_store (sample_agent_end []), Ok True)"
  proof -
    have "pub_blob sample_agent_crates (public_of sample_host_keys [7]) = Ok [7]"
      by (simp add: sample_agent_crates_def sample_host_keys_def)
    then show ?thesis using k [of "rfc_put 0"] c by (simp add: add_key_def r_def sample_agent_end_def new_store_def)
  qed
  have s: "sample_add = 17 # r" "set_length rfc4251_wire [0, 0, 0, 0, SUCCESS] = rfc_put 1 @ [SUCCESS]"
    by (simp_all add: sample_add_def r_def ADD_IDENTITY_def set_length_def rfc4251_wire_def)
  show ?thesis
  proof (cases "password = []")
    case True
    have n: "new_store\<lparr>store_lock := []\<rparr> = new_store" by (simp add: new_store_def)
    show ?thesis
      unfolding True n
      by (simp add: respond_def s request_type_def unit_agent_def answer_request_def add sample_answer_def)
  next
    case False
    then show ?thesis
      by (simp add: respond_def s request_type_def sample_answer_def refusal_def sample_agent_end_def new_store_def)
  qed
qed

lemma sample_agent_run:
  "agent_runs rfc4251_wire sample_host_keys sample_agent_crates unit_agent iter (sample_agent_start password)
    [Arrives 0 sample_add, Answered 0 sample_add (sample_answer password)] (sample_agent_end password)"
proof -
  let ?runs = "agent_runs rfc4251_wire sample_host_keys sample_agent_crates unit_agent iter"
    and ?step = "agent_step rfc4251_wire sample_host_keys sample_agent_crates unit_agent iter"
  let ?s = "sample_agent_start password"
  let ?t = "?s\<lparr>sys_waiting := (sys_waiting ?s)(0 \<mapsto> (sample_add, is_locked (sys_store ?s)))\<rparr>"
  have "?step ?s (Arrives 0 sample_add) ?t" by (rule arrives) (simp add: sample_agent_start_def)
  then have "?runs ?s ([] @ [Arrives 0 sample_add]) ?t" by (rule runs_step [OF runs_start])
  moreover have "?step ?t (Answered 0 sample_add (sample_answer password))
      (?t\<lparr>sys_store := sys_store (sample_agent_end password), sys_agents := (sys_agents ?t)(0 := ()), sys_waiting := (sys_waiting ?t)(0 := None)\<rparr>)"
    by (rule answered [where now = 5 and locked = "password \<noteq> []"])
      (use sample_respond in \<open>simp_all add: sample_agent_start_def is_locked_def new_store_def\<close>)
  moreover have "?t\<lparr>sys_store := sys_store (sample_agent_end password), sys_agents := (sys_agents ?t)(0 := ()), sys_waiting := (sys_waiting ?t)(0 := None)\<rparr>
      = sample_agent_end password"
    by (simp add: sample_agent_start_def sample_agent_end_def fun_eq_iff)
  ultimately show ?thesis using runs_step by fastforce
qed

section \<open>Properties\<close>

text \<open>Property C28: the kept keys are well typed in every run of an agent, whatever its connections send, in
  whatever order they are answered and keys expire: each key is found under its own public blob, no key has a
  constraint that the agent does not know, and a key with a lifetime always has a task waiting that will drop
  it.\<close>

theorem agent_store_typed:
  assumes "agent_runs W S G A iter (new_system agents) es s"
  shows "store_typed S G (sys_store s)"
proof -
  have "store_typed S G (sys_store s')" if "agent_runs W S G A iter s0 es s'" "store_typed S G (sys_store s0)" for s0 s' es
    using that
  proof induction
    case (runs_step s es s' e s'')
    from runs_step.hyps(2) runs_step.IH runs_step.prems show ?case
      by cases (auto dest: respond_typed intro: key_expires_typed)
  qed
  moreover have "store_typed S G (sys_store (new_system agents))" by (simp add: store_typed_def new_system_def new_store_def)
  ultimately show ?thesis using assms by blast
qed

theorem agent_store_typed_witness:
  "\<exists>es s. agent_runs rfc4251_wire sample_host_keys sample_agent_crates unit_agent (\<lambda>D. []) (new_system (\<lambda>c. ())) es s
    \<and> store_keys (sys_store s) [7] = Some ([7], 5, []) \<and> store_typed sample_host_keys sample_agent_crates (sys_store s)"
proof -
  have start: "sample_agent_start [] = new_system (\<lambda>c. ())" by (simp add: sample_agent_start_def new_system_def new_store_def)
  note run = sample_agent_run [of "\<lambda>D. []" "[]", unfolded start]
  with agent_store_typed [OF run] show ?thesis by (intro exI conjI) (assumption | simp add: sample_agent_end_def)+
qed

text \<open>Property C29: a locked agent refuses. From the moment when it is locked, and no request waits that came
  before, every answer of every connection is a failure, and keys go only because their time has come,
  until a request brings the pass phrase.\<close>

theorem locked_agent_refuses:
  assumes "agent_runs W S G A iter s es s'" "store_lock (sys_store s) = password" "password \<noteq> []"
    and "\<forall>c buf l. sys_waiting s c = Some (buf, l) \<longrightarrow> l \<and> \<not> unlocks W password buf"
    and "\<forall>c buf. Arrives c buf \<in> set es \<longrightarrow> \<not> unlocks W password buf"
  shows "(\<forall>c buf w. Answered c buf w \<in> set es \<longrightarrow> w = refusal W)
    \<and> store_keys (sys_store s') \<subseteq>\<^sub>m store_keys (sys_store s) \<and> store_lock (sys_store s') = password"
  using agent_runs_shut [OF assms(1), of password] assms by (auto simp: shut_def)


theorem locked_agent_refuses_witness:
  "\<exists>w s. agent_runs rfc4251_wire sample_host_keys sample_agent_crates unit_agent (\<lambda>D. []) (sample_agent_start [1])
      [Arrives 0 sample_add, Answered 0 sample_add w] s
    \<and> store_lock (sys_store (sample_agent_start [1])) = [1] \<and> w = refusal rfc4251_wire
    \<and> store_keys (sys_store s) \<subseteq>\<^sub>m store_keys (sys_store (sample_agent_start [1])) \<and> store_lock (sys_store s) = [1]"
proof -
  note run = sample_agent_run [of "\<lambda>D. []" "[1]"]
  have "store_lock (sys_store (sample_agent_start [1])) = [1]" by (simp add: sample_agent_start_def)
  with locked_agent_refuses [OF run this] run show ?thesis
    by (intro exI conjI) (assumption | force simp: sample_agent_start_def unlocks_def sample_add_def agent_numbers)+
qed

end
