(* ===== verification/AgentLink.thy ===== *)
theory AgentLink
  imports AgentClient AgentSafety "HOL-Library.List_Lexorder"
begin

text \<open>
  A client of an agent and the agent, over one stream: what is written to the agent it reads and answers at
  once; the client reads the answers in order.
\<close>

section \<open>The stream\<close>

record ('a, 'key) agent_link =
  lk_agent :: 'a
  lk_store :: "'key agent_store"
  lk_in :: bytes \<comment> \<open>written to the agent, and not yet read by it\<close>
  lk_out :: bytes

definition link_stream ::
    "wire \<Rightarrow> ('key, 'pub, 'sig) ssh_keys \<Rightarrow> ('key, 'pub) agent_crates \<Rightarrow> 'a agent_app \<Rightarrow> (bytes set \<Rightarrow> bytes list) \<Rightarrow> nat
      \<Rightarrow> ('a, 'key) agent_link agent_stream" where
  "link_stream W S G A iter now = \<lparr>
     stream_write = (\<lambda>b l.
       and_then (agent_run W S G A iter now (lk_in l @ b) (lk_agent l) (lk_store l)) (\<lambda>(w, s, a, st).
         Ok \<lparr>lk_agent = a, lk_store = st, lk_in = s, lk_out = lk_out l @ w\<rparr>)),
     stream_read = (\<lambda>n l. if length (lk_out l) < n then Diverges
       else Ok (take n (lk_out l), l\<lparr>lk_out := drop n (lk_out l)\<rparr>))\<rparr>"

definition idle :: "('a, 'key) agent_link \<Rightarrow> bool" where
  "idle l \<longleftrightarrow> lk_in l = [] \<and> lk_out l = []"

section \<open>One exchange\<close>

context ssh_wire
begin

lemma set_length_frame: "set_length W (z # z' # z'' # z''' # p) = frame W p"
  by (simp add: set_length_def frame_def)

lemma agent_read_frame: "length p < 2 ^ 32 \<Longrightarrow> agent_read W (frame W p @ s) = Some (p, s)"
  by (simp add: agent_read_def frame_def be_put_length be_get_put)

lemma agent_run_frame:
  assumes "length p < 2 ^ 32" "respond W S G A iter now (is_locked st) p a st = Ok (w, a', st')"
  shows "agent_run W S G A iter now (frame W p) a st = Ok (w, [], a', st')"
proof -
  have "agent_run W S G A iter now [] a' st' = Ok ([], [], a', st')"
    by (subst agent_run.simps) (simp add: agent_read_def Let_def)
  then show ?thesis
    using agent_read_frame [OF assms(1), of "[]"] assms(2) by (subst agent_run.simps) simp
qed

text \<open>A request of one frame is read, answered by one frame, and the answer is in the client's buffer.\<close>

lemma exchange:
  assumes "idle l" "length p < 2 ^ 32" "length q < 2 ^ 32"
    and "respond W S G A iter now (is_locked (lk_store l)) p (lk_agent l) (lk_store l) = Ok (frame W q, a', st')"
  shows "read_response W (link_stream W S G A iter now) \<lparr>ac_stream = l, ac_buf = frame W p\<rparr>
    = Ok \<lparr>ac_stream = l\<lparr>lk_agent := a', lk_store := st'\<rparr>, ac_buf = q\<rparr>"
proof -
  have "be_read_u32 W (be_put W (as_u32 (length q))) = Ok (as_u32 (length q))" using be_read_put [of _ "[]"] by simp
  then show ?thesis
    using assms agent_run_frame [OF assms(2,4)]
    by (cases l) (simp add: read_response_def link_stream_def idle_def frame_def be_put_length)
qed

lemma agent_request_frame: "puts es [] = Ok p \<Longrightarrow> agent_request W es = Ok (frame W p)"
  using puts_from_empty [of es "[0, 0, 0, 0]"] set_length_frame by (simp add: agent_request_def)

end

section \<open>Keys that travel\<close>

text \<open>An application that says yes.\<close>

definition asked :: "'a agent_app \<Rightarrow> bool" where
  "asked A \<longleftrightarrow> (\<forall>m a. confirm_request A m a = (True, a))"

text \<open>What the crate \<open>ssh_key\<close> promises: a key that was encoded is decoded, and so is the public blob, to a key
  of the same blob, whatever its comment.\<close>

locale agent_keys = ssh_wire W for W +
  fixes S :: "('key, 'pub, 'sig) ssh_keys" and G :: "('key, 'pub) agent_crates"
  assumes keypair_back: "keypair_encode G key = Ok e \<Longrightarrow> keypair_decode G (e @ r) = Ok (key, r)"
    and blob_back: "pub_blob G p = Ok b \<Longrightarrow> \<exists>q. pub_decode S b = Ok q \<and> (\<forall>c. pub_blob G (with_comment G q c) = Ok b)"
begin

lemma read_constraints_end: "read_constraints W c ts [] = (ts, Ok (Some c))"
  by (subst read_constraints.simps) (simp add: laws)

lemma read_constraints_back:
  assumes "puts (concat (map (encode_constraint W) cs)) [] = Ok p" "\<forall>n d. Extensions n d \<notin> set cs"
  shows "\<exists>ts'. read_constraints W c ts p = (ts', Ok (Some (c @ cs)))"
  using assms
proof (induction cs arbitrary: c ts p)
  case Nil
  then show ?case by (simp add: read_constraints_end)
next
  case (Cons x cs)
  show ?case
  proof (cases x)
    case (KeyLifetime seconds)
    with Cons.prems(1) obtain p' where p': "puts (concat (map (encode_constraint W) cs)) [] = Ok p'"
      "p = CONSTRAIN_LIFETIME # be_put W seconds @ p'"
      using puts_from_empty [of "concat (map (encode_constraint W) cs)" "CONSTRAIN_LIFETIME # be_put W seconds"]
      by (auto simp: laws outcome_simps)
    from Cons.IH [OF p'(1), of "c @ [KeyLifetime seconds]" "ts @ [seconds]"] Cons.prems(2) show ?thesis
      by (subst read_constraints.simps) (auto simp: p'(2) KeyLifetime laws agent_numbers)
  next
    case Confirm
    with Cons.prems(1) obtain p' where p': "puts (concat (map (encode_constraint W) cs)) [] = Ok p'" "p = CONSTRAIN_CONFIRM # p'"
      using puts_from_empty [of "concat (map (encode_constraint W) cs)" "[CONSTRAIN_CONFIRM]"] by (auto simp: outcome_simps)
    from Cons.IH [OF p'(1), of "c @ [Confirm]" ts] Cons.prems(2) show ?thesis
      by (subst read_constraints.simps) (auto simp: p'(2) Confirm laws agent_numbers)
  next
    case Extensions
    with Cons.prems(2) show ?thesis by auto
  qed
qed

lemma constraints_put:
  "\<forall>n d. Extensions n d \<notin> set cs \<Longrightarrow>
    \<exists>p. puts (concat (map (encode_constraint W) cs)) [] = Ok p \<and> length p \<le> 5 * length cs \<and> (cs = [] \<longrightarrow> p = [])"
proof (induction cs)
  case (Cons x cs)
  then obtain p where p: "puts (concat (map (encode_constraint W) cs)) [] = Ok p" "length p \<le> 5 * length cs" by auto
  have "puts (concat (map (encode_constraint W) cs)) b = Ok (b @ p)" for b
    by (subst puts_from_empty) (simp add: p(1))
  with p(2) Cons.prems show ?case by (cases x) (auto simp: laws be_put_length)
qed simp

lemma add_identity:
  assumes "idle l" "\<not> is_locked (lk_store l)" "asked A"
    and "keypair_encode G key = Ok e" "pub_blob G (public_of S key) = Ok blob" "\<forall>n d. Extensions n d \<notin> set cs"
    and "length e + 5 * length cs + 5 < 2 ^ 32"
  shows "\<exists>st'. client_add_identity W G (link_stream W S G A iter now) key cs \<lparr>ac_stream = l, ac_buf = b\<rparr>
      = Ok \<lparr>ac_stream = l\<lparr>lk_store := st'\<rparr>, ac_buf = [SUCCESS]\<rparr>
    \<and> store_keys st' = (store_keys (lk_store l))(blob \<mapsto> (key, now, cs)) \<and> store_lock st' = store_lock (lk_store l)
    \<and> (store_typed S G (lk_store l) \<longrightarrow> store_typed S G st')"
proof -
  define st where "st = lk_store l"
  define t where "t = (if cs = [] then ADD_IDENTITY else ADD_ID_CONSTRAINED)"
  obtain p where p: "puts (concat (map (encode_constraint W) cs)) [] = Ok p" "length p \<le> 5 * length cs" "cs = [] \<Longrightarrow> p = []"
    using constraints_put [OF assms(6)] by auto
  define r where "r = e @ be_put W 0 @ p"
  have req: "puts ([push t, keypair_encode G key, w_str W []] @ concat (map (encode_constraint W) cs)) [] = Ok (t # r)"
    using puts_from_empty [of "concat (map (encode_constraint W) cs)"] p(1) by (simp add: assms(4) laws r_def as_bytes_def)
  have len: "length (t # r) < 2 ^ 32" using p(2) assms(7) by (simp add: r_def be_put_length)
  have str: "r_str W (be_put W 0 @ p) = Ok ([], p)" using get_str [of "[]" p] by (simp add: ascii_def as_bytes_def)
  obtain ts where ts: "read_constraints W [] [] p = (ts, Ok (Some cs))" using read_constraints_back [OF p(1) assms(6), of "[]" "[]"] by auto
  define st' where "st' = (if cs = [] then st\<lparr>store_keys := (store_keys st)(blob \<mapsto> (key, now, []))\<rparr>
    else st\<lparr>store_timers := store_timers st @ map (\<lambda>seconds. (blob, now, seconds)) ts, store_keys := (store_keys st)(blob \<mapsto> (key, now, cs))\<rparr>)"
  have k: "add_key W S G now (t = 25) r w st = (w @ [SUCCESS], st', Ok True)" for w
    using keypair_back [OF assms(4), of "be_put W 0 @ p"] str assms(5) ts
    by (simp add: add_key_def r_def st'_def t_def agent_numbers Let_def)
  have "respond W S G A iter now False (t # r) (lk_agent l) st = Ok (frame W [SUCCESS], lk_agent l, st')"
    using k [of "[0, 0, 0, 0]"] set_length_frame
    by (cases "cs = []") (simp_all add: respond_def request_type_def t_def assms(3) [unfolded asked_def] answer_request_def agent_numbers Let_def)
  with exchange [OF assms(1) len, of "[SUCCESS]" S G A iter now "lk_agent l" st'] assms(2) have
    "read_response W (link_stream W S G A iter now) \<lparr>ac_stream = l, ac_buf = frame W (t # r)\<rparr>
      = Ok \<lparr>ac_stream = l\<lparr>lk_store := st'\<rparr>, ac_buf = [SUCCESS]\<rparr>"
    by (cases l) (simp add: st_def)
  moreover have "agent_request W ([push t, keypair_encode G key, w_str W []] @ concat (map (encode_constraint W) cs)) = Ok (frame W (t # r))"
    by (rule agent_request_frame [OF req])
  ultimately have "client_add_identity W G (link_stream W S G A iter now) key cs \<lparr>ac_stream = l, ac_buf = b\<rparr>
      = Ok \<lparr>ac_stream = l\<lparr>lk_store := st'\<rparr>, ac_buf = [SUCCESS]\<rparr>"
    by (simp add: client_add_identity_def read_success_def t_def [symmetric])
  moreover have "store_keys st' = (store_keys st)(blob \<mapsto> (key, now, cs))" "store_lock st' = store_lock st" by (auto simp: st'_def)
  moreover have "store_typed S G st \<longrightarrow> store_typed S G st'" using add_key_typed [OF k] by blast
  ultimately show ?thesis unfolding st_def by blast
qed

text \<open>The list of the keys.\<close>

definition listing :: "bytes list \<Rightarrow> bytes" where
  "listing ks = concat (map (\<lambda>k. be_put W (as_u32 (length k)) @ k @ be_put W 0) ks)"

lemma list_puts:
  "\<forall>k \<in> set ks. length k < 2 ^ 32 \<Longrightarrow> puts (concat (map (\<lambda>k. [w_bytes W k, w_str W []]) ks)) b = Ok (b @ listing ks)"
  by (induction ks arbitrary: b) (simp_all add: listing_def laws as_bytes_def)

lemma listing_length: "length (listing ks) = sum_list (map (\<lambda>k. length k + 8) ks)"
  by (induction ks) (simp_all add: listing_def be_put_length)

lemma read_identities_back:
  "\<forall>k \<in> set ks. length k < 2 ^ 32 \<and> (\<exists>p. pub_blob G p = Ok k) \<Longrightarrow>
    \<exists>keys. read_identities W S G (length ks) (listing ks) = Ok keys \<and> map (pub_blob G) keys = map Ok ks"
proof (induction ks)
  case (Cons k ks)
  then obtain keys p where keys: "read_identities W S G (length ks) (listing ks) = Ok keys" "map (pub_blob G) keys = map Ok ks" "pub_blob G p = Ok k" by auto
  obtain q where q: "pub_decode S k = Ok q" "\<forall>c. pub_blob G (with_comment G q c) = Ok k" using blob_back [OF keys(3)] by blast
  have "r_str W (be_put W 0 @ listing ks) = Ok ([], listing ks)" using get_str [of "[]" "listing ks"] by (simp add: ascii_def as_bytes_def)
  moreover have "r_bytes W (be_put W (as_u32 (length k)) @ k @ be_put W 0 @ listing ks) = Ok (k, be_put W 0 @ listing ks)"
    using Cons.prems by (intro get_bytes) simp
  moreover have "listing (k # ks) = be_put W (as_u32 (length k)) @ k @ be_put W 0 @ listing ks" by (simp add: listing_def)
  ultimately show ?case using keys q by (simp add: parse_public_key_def)
qed simp

lemma request_identities:
  assumes "idle l" "\<not> is_locked (lk_store l)" "asked A" "store_typed S G (lk_store l)"
    and ks: "ks = iter (dom (store_keys (lk_store l)))" "set ks = dom (store_keys (lk_store l))" "5 + sum_list (map (\<lambda>k. length k + 8) ks) < 2 ^ 32"
  shows "\<exists>keys c. client_request_identities W S G (link_stream W S G A iter now) \<lparr>ac_stream = l, ac_buf = b\<rparr>
      = Ok (keys, \<lparr>ac_stream = l, ac_buf = c\<rparr>) \<and> map (pub_blob G) keys = map Ok ks"
proof -
  have size: "k \<in> set ks \<Longrightarrow> length k < 2 ^ 32" for k
    using member_le_sum_list [of "length k + 8" "map (\<lambda>k. length k + 8) ks"] ks(3) by auto
  have n: "8 * length ks \<le> sum_list (map (\<lambda>k. length k + 8) ks)" by (induction ks) auto
  define q where "q = IDENTITIES_ANSWER # be_put W (as_u32 (length ks)) @ listing ks"
  have q: "length q < 2 ^ 32" using ks(3) by (simp add: q_def be_put_length listing_length)
  have "list_keys W iter [0, 0, 0, 0] (lk_store l) = Ok ([0, 0, 0, 0] @ q)"
    using list_puts [of ks "[0, 0, 0, 0] @ IDENTITIES_ANSWER # be_put W (as_u32 (length ks))"] size
    by (simp add: list_keys_def ks(1) [symmetric] laws q_def Let_def)
  then have "respond W S G A iter now False [REQUEST_IDENTITIES] (lk_agent l) (lk_store l) = Ok (frame W q, lk_agent l, lk_store l)"
    using set_length_frame by (simp add: respond_def request_type_def assms(3) [unfolded asked_def] answer_request_def agent_numbers)
  with exchange [OF assms(1) _ q, of "[REQUEST_IDENTITIES]" S G A iter now "lk_agent l" "lk_store l"] assms(2) have
    r: "read_response W (link_stream W S G A iter now) \<lparr>ac_stream = l, ac_buf = frame W [REQUEST_IDENTITIES]\<rparr> = Ok \<lparr>ac_stream = l, ac_buf = q\<rparr>"
    by (cases l) simp
  have "\<exists>p. pub_blob G p = Ok k" if "k \<in> set ks" for k
  proof -
    from that ks(2) obtain key time c where "store_keys (lk_store l) k = Some (key, time, c)" by auto
    with assms(4) have "pub_blob G (public_of S key) = Ok k" unfolding store_typed_def by blast
    then show ?thesis ..
  qed
  with size read_identities_back [of ks] obtain keys where
    keys: "read_identities W S G (length ks) (listing ks) = Ok keys" "map (pub_blob G) keys = map Ok ks" by blast
  have "unat (as_u32 (length ks)) = length ks" using n ks(3) by (intro unat_as_u32) simp
  with r keys have "client_request_identities W S G (link_stream W S G A iter now) \<lparr>ac_stream = l, ac_buf = b\<rparr>
      = Ok (keys, \<lparr>ac_stream = l, ac_buf = q\<rparr>)"
    using agent_request_frame [of "[w_u8 W REQUEST_IDENTITIES]"]
    by (simp add: client_request_identities_def laws q_def)
  with keys(2) show ?thesis by blast
qed

text \<open>The signature.\<close>

lemma sign_request_signature:
  assumes "idle l" "\<not> is_locked (lk_store l)" "asked A"
    and key: "store_keys (lk_store l) blob = Some (key, time, cs)" "pub_blob G p = Ok blob"
    and sig: "sign_with_hash_alg S (key_with_hash_new S key None) data = Ok sg" "sig_decode S sg = Ok sig"
    and size: "length blob + length data + 13 < 2 ^ 32" "length sg + 5 < 2 ^ 32"
  shows "\<exists>c. client_sign_request_signature W S alg G (link_stream W S G A iter now) p h data \<lparr>ac_stream = l, ac_buf = b\<rparr>
    = Ok (sig, \<lparr>ac_stream = l, ac_buf = c\<rparr>)"
proof -
  define r where "r = be_put W (as_u32 (length blob)) @ blob @ be_put W (as_u32 (length data)) @ data @ be_put W (hash_flag (alg p) h)"
  define q where "q = SIGN_RESPONSE # be_put W (as_u32 (length sg)) @ sg"
  have req: "puts [w_u8 W SIGN_REQUEST, and_then (pub_blob G p) (w_bytes W), w_bytes W data, w_u32 W (hash_flag (alg p) h)] [] = Ok (SIGN_REQUEST # r)"
    using size(1) by (simp add: key(2) laws r_def)
  have len: "length (SIGN_REQUEST # r) < 2 ^ 32" "length q < 2 ^ 32" using size by (simp_all add: r_def q_def be_put_length)
  have "try_sign_request W S r [0, 0, 0, 0] (lk_store l) = Ok (Some (frame W q))"
    using size set_length_frame by (simp add: try_sign_request_def r_def laws key sig q_def)
  then have "respond W S G A iter now False (SIGN_REQUEST # r) (lk_agent l) (lk_store l) = Ok (frame W q, lk_agent l, lk_store l)"
    by (simp add: respond_def request_type_def assms(3) [unfolded asked_def] agent_numbers)
  with exchange [OF assms(1) len, of S G A iter now "lk_agent l" "lk_store l"] assms(2) have
    "read_response W (link_stream W S G A iter now) \<lparr>ac_stream = l, ac_buf = frame W (SIGN_REQUEST # r)\<rparr> = Ok \<lparr>ac_stream = l, ac_buf = q\<rparr>"
    by (cases l) simp
  with agent_request_frame [OF req] show ?thesis
    using get_bytes [of sg "[]"] size(2) sig(2)
    by (simp add: client_sign_request_signature_def prepare_sign_request_def q_def Let_def)
qed

lemma remove_identity_done:
  assumes "idle l" "\<not> is_locked (lk_store l)" "asked A"
    and "store_keys (lk_store l) blob \<noteq> None" "pub_blob G p = Ok blob" "length blob + 5 < 2 ^ 32"
  shows "client_remove_identity W G (link_stream W S G A iter now) p \<lparr>ac_stream = l, ac_buf = b\<rparr>
    = Ok \<lparr>ac_stream = l\<lparr>lk_store := (lk_store l)\<lparr>store_keys := (store_keys (lk_store l))(blob := None)\<rparr>\<rparr>, ac_buf = [SUCCESS]\<rparr>"
proof -
  define st where "st = lk_store l"
  define r where "r = be_put W (as_u32 (length blob)) @ blob"
  have req: "puts [push REMOVE_IDENTITY, and_then (pub_blob G p) (w_bytes W)] [] = Ok (REMOVE_IDENTITY # r)"
    using assms(6) by (simp add: assms(5) laws r_def)
  have len: "length (REMOVE_IDENTITY # r) < 2 ^ 32" using assms(6) by (simp add: r_def be_put_length)
  have "remove_identity W r st = Ok (True, st\<lparr>store_keys := (store_keys st)(blob := None)\<rparr>)"
    using get_bytes [of blob "[]"] assms(4,6) by (simp add: remove_identity_def r_def st_def)
  then have "respond W S G A iter now False (REMOVE_IDENTITY # r) (lk_agent l) st
      = Ok (frame W [SUCCESS], lk_agent l, st\<lparr>store_keys := (store_keys st)(blob := None)\<rparr>)"
    using set_length_frame
    by (simp add: respond_def request_type_def assms(3) [unfolded asked_def] answer_request_def success_or_failure_def agent_numbers)
  with exchange [OF assms(1) len, of "[SUCCESS]" S G A iter now "lk_agent l"] assms(2) have
    "read_response W (link_stream W S G A iter now) \<lparr>ac_stream = l, ac_buf = frame W (REMOVE_IDENTITY # r)\<rparr>
      = Ok \<lparr>ac_stream = l\<lparr>lk_store := st\<lparr>store_keys := (store_keys st)(blob := None)\<rparr>\<rparr>, ac_buf = [SUCCESS]\<rparr>"
    by (cases l) (simp add: st_def)
  with agent_request_frame [OF req] show ?thesis by (simp add: client_remove_identity_def st_def)
qed

lemma extension_constraint:
  assumes "idle l" "\<not> is_locked (lk_store l)" "asked A"
    and "keypair_encode G key = Ok e" "pub_blob G (public_of S key) = Ok blob"
    and "length e + length name + length details + 14 < 2 ^ 32"
  shows "client_add_identity W G (link_stream W S G A iter now) key [Extensions name details] \<lparr>ac_stream = l, ac_buf = b\<rparr>
    = Ok \<lparr>ac_stream = l, ac_buf = [SUCCESS, FAILURE]\<rparr>"
proof -
  define p where "p = CONSTRAIN_EXTENSION # be_put W (as_u32 (length name)) @ name @ be_put W (as_u32 (length details)) @ details"
  define r where "r = e @ be_put W 0 @ p"
  have req: "puts [push ADD_ID_CONSTRAINED, keypair_encode G key, w_str W [], w_u8 W CONSTRAIN_EXTENSION, w_bytes W name, w_bytes W details] []
      = Ok (ADD_ID_CONSTRAINED # r)"
    using assms(6) by (simp add: assms(4) laws r_def p_def as_bytes_def)
  have len: "length (ADD_ID_CONSTRAINED # r) < 2 ^ 32" using assms(6) by (simp add: r_def p_def be_put_length)
  have str: "r_str W (be_put W 0 @ p) = Ok ([], p)" using get_str [of "[]" p] by (simp add: ascii_def as_bytes_def)
  have "read_constraints W [] [] p = ([], Ok None)"
    by (subst read_constraints.simps) (simp add: p_def laws agent_numbers)
  then have "add_key W S G now True r w (lk_store l) = (w @ [SUCCESS], lk_store l, Ok False)" for w
    using keypair_back [OF assms(4), of "be_put W 0 @ p"] str assms(5) by (simp add: add_key_def r_def Let_def)
  then have "respond W S G A iter now False (ADD_ID_CONSTRAINED # r) (lk_agent l) (lk_store l)
      = Ok (frame W [SUCCESS, FAILURE], lk_agent l, lk_store l)"
    using set_length_frame by (simp add: respond_def request_type_def assms(3) [unfolded asked_def] answer_request_def agent_numbers)
  with exchange [OF assms(1) len, of "[SUCCESS, FAILURE]" S G A iter now "lk_agent l" "lk_store l"] assms(2) have
    "read_response W (link_stream W S G A iter now) \<lparr>ac_stream = l, ac_buf = frame W (ADD_ID_CONSTRAINED # r)\<rparr>
      = Ok \<lparr>ac_stream = l, ac_buf = [SUCCESS, FAILURE]\<rparr>"
    by (cases l) simp
  with agent_request_frame [OF req] show ?thesis by (simp add: client_add_identity_def read_success_def)
qed

lemma key_comes_and_goes:
  assumes l: "idle l" "\<not> is_locked (lk_store l)" "asked A" "store_typed S G (lk_store l)"
    and iter: "\<forall>D. finite D \<longrightarrow> set (iter D) = D"
    and key: "keypair_encode G key = Ok e" "pub_blob G (public_of S key) = Ok blob" "\<forall>name details. Extensions name details \<notin> set cs"
    and sig: "sign_with_hash_alg S (key_with_hash_new S key None) data = Ok sg" "sig_decode S sg = Ok sig"
    and size: "length e + 5 * length cs + 5 < 2 ^ 32" "length blob + length data + 13 < 2 ^ 32" "length sg + 5 < 2 ^ 32"
      "5 + sum_list (map (\<lambda>k. length k + 8) (iter (insert blob (dom (store_keys (lk_store l)))))) < 2 ^ 32"
    and T_def: "T = link_stream W S G A iter now"
  shows "and_then (client_add_identity W G T key cs (agent_connect l)) (\<lambda>c.
    and_then (client_request_identities W S G T c) (\<lambda>(keys, c).
    and_then (client_sign_request_signature W S alg G T (public_of S key) h data c) (\<lambda>(signature, c).
    and_then (client_remove_identity W G T (public_of S key) c) (\<lambda>c.
      Ok (map (pub_blob G) keys, signature, store_keys (lk_store (ac_stream c))))))) =
    Ok (map Ok (iter (insert blob (dom (store_keys (lk_store l))))), sig, (store_keys (lk_store l))(blob := None))"
proof -
  obtain st where st: "client_add_identity W G T key cs (agent_connect l) = Ok \<lparr>ac_stream = l\<lparr>lk_store := st\<rparr>, ac_buf = [SUCCESS]\<rparr>"
    "store_keys st = (store_keys (lk_store l))(blob \<mapsto> (key, now, cs))" "store_lock st = store_lock (lk_store l)" "store_typed S G st"
    using add_identity [OF l(1-3) key size(1), of iter now "[]"] l(4) unfolding T_def agent_connect_def by blast
  define l' where "l' = l\<lparr>lk_store := st\<rparr>"
  have l': "idle l'" "\<not> is_locked (lk_store l')" "store_typed S G (lk_store l')" "store_keys (lk_store l') blob = Some (key, now, cs)"
    using l(1,2) st(2-4) by (simp_all add: l'_def idle_def is_locked_def)
  have d: "dom (store_keys (lk_store l')) = insert blob (dom (store_keys (lk_store l)))" using st(2) by (simp add: l'_def)
  have "finite (dom (store_keys (lk_store l')))" using l'(3) by (simp add: store_typed_def)
  with iter have ks: "set (iter (dom (store_keys (lk_store l')))) = dom (store_keys (lk_store l'))" by blast
  obtain keys c where keys: "client_request_identities W S G T \<lparr>ac_stream = l', ac_buf = [SUCCESS]\<rparr> = Ok (keys, \<lparr>ac_stream = l', ac_buf = c\<rparr>)"
    "map (pub_blob G) keys = map Ok (iter (dom (store_keys (lk_store l'))))"
    using request_identities [where iter = iter and now = now, OF l'(1,2) l(3) l'(3) refl ks, of "[SUCCESS]"] size(4)
    unfolding T_def d by blast
  obtain c' where sg: "client_sign_request_signature W S alg G T (public_of S key) h data \<lparr>ac_stream = l', ac_buf = c\<rparr>
      = Ok (sig, \<lparr>ac_stream = l', ac_buf = c'\<rparr>)"
    using sign_request_signature [OF l'(1,2) l(3) l'(4) key(2) sig size(2,3)] unfolding T_def by blast
  have "store_keys (lk_store l') blob \<noteq> None" "length blob + 5 < 2 ^ 32" using l'(4) size(2) by simp_all
  note gone = remove_identity_done [OF l'(1,2) l(3) this(1) key(2) this(2), of iter now c', folded T_def]
  show ?thesis unfolding st(1) l'_def [symmetric] and_then.simps keys(1) prod.case sg gone using keys(2) d st(2) by (simp add: l'_def)
qed

end

section \<open>An example\<close>

interpretation sample_agent: agent_keys rfc4251_wire sample_host_keys sample_agent_crates
proof unfold_locales
  show "keypair_decode sample_agent_crates (e @ r) = Ok (key, r)" if "keypair_encode sample_agent_crates key = Ok e" for key e r
    using that rfc.get_bytes [of key r] by (auto simp: sample_agent_crates_def rfc.put_bytes split: if_splits)
qed (simp add: sample_agent_crates_def sample_host_keys_def)


definition sample_link :: "(unit, bytes) agent_link" where
  "sample_link = \<lparr>lk_agent = (), lk_store = new_store, lk_in = [], lk_out = []\<rparr>"

text \<open>The standard library's order of a map is not known; here it is the order of the keys.\<close>

definition sample_stream :: "(unit, bytes) agent_link agent_stream" where
  "sample_stream = link_stream rfc4251_wire sample_host_keys sample_agent_crates unit_agent sorted_list_of_set 5"

lemma sample_link_ready:
  "idle sample_link" "\<not> is_locked (lk_store sample_link)" "asked unit_agent"
  "store_typed sample_host_keys sample_agent_crates (lk_store sample_link)"
  by (simp_all add: sample_link_def idle_def is_locked_def new_store_def asked_def unit_agent_def store_typed_def)

section \<open>Properties\<close>

text \<open>Property C30: a key comes, serves and goes. A client that adds a key to an agent that is not locked then
  finds it in the list, which has exactly the keys of before and this one; data is signed with it; once removed
  it is gone, and the others are still there.\<close>

theorem agent_serves_key:
  assumes "agent_keys W S G" "idle l" "\<not> is_locked (lk_store l)" "asked A" "store_typed S G (lk_store l)"
    and "\<forall>D. finite D \<longrightarrow> set (iter D) = D"
    and "keypair_encode G key = Ok e" "pub_blob G (public_of S key) = Ok blob" "\<forall>name details. Extensions name details \<notin> set cs"
    and "sign_with_hash_alg S (key_with_hash_new S key None) data = Ok sg" "sig_decode S sg = Ok sig"
    and "length e + 5 * length cs + 5 < 2 ^ 32" "length blob + length data + 13 < 2 ^ 32" "length sg + 5 < 2 ^ 32"
      "5 + sum_list (map (\<lambda>k. length k + 8) (iter (insert blob (dom (store_keys (lk_store l)))))) < 2 ^ 32"
    and T: "T = link_stream W S G A iter now"
  shows "and_then (client_add_identity W G T key cs (agent_connect l)) (\<lambda>c.
    and_then (client_request_identities W S G T c) (\<lambda>(keys, c).
    and_then (client_sign_request_signature W S alg G T (public_of S key) h data c) (\<lambda>(signature, c).
    and_then (client_remove_identity W G T (public_of S key) c) (\<lambda>c.
      Ok (map (pub_blob G) keys, signature, store_keys (lk_store (ac_stream c))))))) =
    Ok (map Ok (iter (insert blob (dom (store_keys (lk_store l))))), sig, (store_keys (lk_store l))(blob := None))"
  by (rule agent_keys.key_comes_and_goes [OF assms(1-15) T])

theorem agent_serves_key_witness:
  "and_then (client_add_identity rfc4251_wire sample_agent_crates sample_stream [7] [Confirm, KeyLifetime 60] (agent_connect sample_link)) (\<lambda>c.
    and_then (client_request_identities rfc4251_wire sample_host_keys sample_agent_crates sample_stream c) (\<lambda>(keys, c).
    and_then (client_sign_request_signature rfc4251_wire sample_host_keys (\<lambda>p. Ed25519) sample_agent_crates sample_stream [7] None [1, 2] c) (\<lambda>(signature, c).
    and_then (client_remove_identity rfc4251_wire sample_agent_crates sample_stream [7] c) (\<lambda>c.
      Ok (map (pub_blob sample_agent_crates) keys, signature, store_keys (lk_store (ac_stream c))))))) = Ok ([Ok [7]], [1, 2], Map.empty)"
proof -
  have k: "public_of sample_host_keys [7] = [7]" by (simp add: sample_host_keys_def)
  have one: "sorted_list_of_set (insert [7] (dom (store_keys (lk_store sample_link)))) = [[7 :: u8]]"
    by (simp add: sample_link_def new_store_def)
  show ?thesis
    using agent_serves_key [OF sample_agent.agent_keys_axioms sample_link_ready, where key = "[7]" and e = "rfc_put 1 @ [7]" and blob = "[7]"
        and cs = "[Confirm, KeyLifetime 60]" and data = "[1, 2]" and sg = "[1, 2]" and sig = "[1, 2]" and T = sample_stream and iter = sorted_list_of_set
        and now = 5 and alg = "\<lambda>p. Ed25519" and h = None, unfolded one k]
    by (simp add: sample_stream_def sample_agent_crates_def sample_host_keys_def rfc.put_bytes rfc4251_wire_def rfc_write_bytes_def
        sign_with_hash_alg_def key_with_hash_new_def sample_link_def new_store_def)
qed

text \<open>A constraint that the agent does not know is taken for success by the client. The agent has
  written \<open>SUCCESS\<close> before it finds that it cannot add the key, and writes \<open>FAILURE\<close> behind it; the client looks at
  the first byte.\<close>

theorem unknown_constraint_succeeds:
  assumes "agent_keys W S G" "idle l" "\<not> is_locked (lk_store l)" "asked A"
    and "keypair_encode G key = Ok e" "pub_blob G (public_of S key) = Ok blob"
    and "length e + length name + length details + 14 < 2 ^ 32"
  shows "client_add_identity W G (link_stream W S G A iter now) key [Extensions name details] (agent_connect l)
    = Ok \<lparr>ac_stream = l, ac_buf = [SUCCESS, FAILURE]\<rparr>"
  unfolding agent_connect_def by (rule agent_keys.extension_constraint [OF assms])

theorem unknown_constraint_succeeds_witness:
  "client_add_identity rfc4251_wire sample_agent_crates sample_stream
      [7] [Extensions [1] []] (agent_connect sample_link) = Ok \<lparr>ac_stream = sample_link, ac_buf = [SUCCESS, FAILURE]\<rparr>"
  unfolding sample_stream_def
  by (rule unknown_constraint_succeeds [OF sample_agent.agent_keys_axioms sample_link_ready(1-3), where e = "rfc_put 1 @ [7]" and blob = "[7]"])
    (simp_all add: sample_agent_crates_def sample_host_keys_def rfc.put_bytes rfc4251_wire_def rfc_write_bytes_def)

text \<open>All keys cannot be removed. The client leaves the length of this request zero, so the agent
  answers an empty request with a failure, keeps its keys, and takes the request for the length of the next
  one: whatever is written then is not answered, up to 318767103 bytes.\<close>

theorem remove_all_fails:
  assumes "idle l" and T: "T = link_stream rfc4251_wire S G A iter now"
  shows "client_remove_all_identities rfc4251_wire T (agent_connect l) = Err (Keys AgentFailure)
    \<and> (\<exists>l'. stream_write T ([0, 0, 0, 0] @ [REMOVE_ALL_IDENTITIES] @ rfc_put 1) l = Ok l' \<and> lk_store l' = lk_store l
         \<and> (\<forall>b. length b < 318767103 \<longrightarrow> (\<exists>l''. stream_write T b l' = Ok l'' \<and> lk_out l'' = lk_out l' \<and> lk_store l'' = lk_store l)))"
proof -
  define w where "w = refusal rfc4251_wire"
  define s where "s = REMOVE_ALL_IDENTITIES # rfc_put 1"
  have w: "w = rfc_put 1 @ [FAILURE]" by (simp add: w_def refusal_def set_length_def rfc4251_wire_def)
  have waits: "agent_run rfc4251_wire S G A iter now (s @ b) a st = Ok ([], s @ b, a, st)" if "length b < 318767103" for b a st
  proof -
    have "agent_read rfc4251_wire (s @ b) = None"
      using that by (simp add: agent_read_def s_def rfc4251_wire_def rfc_put_def REMOVE_ALL_IDENTITIES_def)
    then show ?thesis by (subst agent_run.simps) simp
  qed
  have "agent_read rfc4251_wire ([0, 0, 0, 0] @ s) = Some ([], s)"
    by (simp add: agent_read_def rfc4251_wire_def)
  then have run: "agent_run rfc4251_wire S G A iter now ([0, 0, 0, 0] @ s) a st = Ok (w, s, a, st)" for a st
    using waits [of "[]" a st] by (subst agent_run.simps) (simp add: respond_def w_def refusal_def Let_def)
  define l' where "l' = l\<lparr>lk_in := s, lk_out := w\<rparr>"
  have l': "stream_write T ([0, 0, 0, 0] @ s) l = Ok l'"
    using assms(1) run by (cases l) (simp add: T link_stream_def idle_def l'_def del: append_Cons)
  have len: "length w = 5" "be_read_u32 rfc4251_wire (take 4 w) = Ok 1" "drop 4 w = [FAILURE]"
    using rfc.be_read_put [of 1 "[]"] by (simp_all add: w rfc4251_wire_def)
  have "read_response rfc4251_wire T \<lparr>ac_stream = l, ac_buf = [0, 0, 0, 0] @ s\<rparr>
      = Ok \<lparr>ac_stream = l'\<lparr>lk_out := []\<rparr>, ac_buf = [FAILURE]\<rparr>"
    using l' len by (simp add: read_response_def T link_stream_def l'_def del: append_Cons)
  then have "client_remove_all_identities rfc4251_wire T (agent_connect l) = Err (Keys AgentFailure)"
    by (simp add: client_remove_all_identities_def agent_connect_def read_success_def rfc.laws agent_numbers s_def)
      (simp add: rfc4251_wire_def)
  moreover have "\<exists>l''. stream_write T b l' = Ok l'' \<and> lk_out l'' = lk_out l' \<and> lk_store l'' = lk_store l" if "length b < 318767103" for b
    using waits [OF that] by (simp add: T link_stream_def l'_def)
  ultimately show ?thesis using l' by (auto simp: s_def l'_def)
qed

theorem remove_all_fails_witness:
  "client_remove_all_identities rfc4251_wire sample_stream
      (agent_connect sample_link) = Err (Keys AgentFailure)"
  using remove_all_fails [OF sample_link_ready(1) sample_stream_def] by blast

end
