(* ===== verification/Defaults.thy ===== *)
theory Defaults
  imports ServerProperties ClientProperties
begin

text \<open>
  The callbacks that an application does not write itself: the default methods of the traits \<open>Handler\<close> of
  \<open>server/mod.rs\<close> and \<open>client/mod.rs\<close>, one definition per method, and the two handlers made of nothing else. They
  take no time.
\<close>

section \<open>The server's\<close>

definition server_default_auth_none :: "'h \<Rightarrow> string \<Rightarrow> 'h answer" where
  "server_default_auth_none h user = Ok (auth_reject, h, 0)"

definition server_default_auth_password :: "'h \<Rightarrow> string \<Rightarrow> string \<Rightarrow> 'h answer" where
  "server_default_auth_password h user password = Ok (auth_reject, h, 0)"

definition server_default_auth_publickey_offered :: "'h \<Rightarrow> string \<Rightarrow> 'pub \<Rightarrow> 'h answer" where
  "server_default_auth_publickey_offered h user key = Ok (Accept, h, 0)"

definition server_default_auth_publickey :: "'h \<Rightarrow> string \<Rightarrow> 'pub \<Rightarrow> 'h answer" where
  "server_default_auth_publickey h user key = Ok (auth_reject, h, 0)"

definition server_default_auth_openssh_certificate :: "'h \<Rightarrow> string \<Rightarrow> 'cert \<Rightarrow> 'h answer" where
  "server_default_auth_openssh_certificate h user certificate = Ok (auth_reject, h, 0)"

definition server_default_auth_keyboard_interactive ::
    "'h \<Rightarrow> string \<Rightarrow> string \<Rightarrow> bytes option list option \<Rightarrow> 'h answer" where
  "server_default_auth_keyboard_interactive h user submethods response = Ok (auth_reject, h, 0)"

definition server_default_authentication_banner :: "'h \<Rightarrow> (string option \<times> 'h) rs" where
  "server_default_authentication_banner h = Ok (None, h)"

definition server_default_auth_succeeded :: "'h \<Rightarrow> 's \<Rightarrow> ('h, 's) handled" where
  "server_default_auth_succeeded h session = Ok (h, session)"

definition server_default_channel_close :: "'h \<Rightarrow> channel_id \<Rightarrow> 's \<Rightarrow> ('h, 's) handled" where
  "server_default_channel_close h channel session = Ok (h, session)"

definition server_default_channel_eof :: "'h \<Rightarrow> channel_id \<Rightarrow> 's \<Rightarrow> ('h, 's) handled" where
  "server_default_channel_eof h channel session = Ok (h, session)"

definition server_default_channel_open_session ::
    "'h \<Rightarrow> channel \<Rightarrow> 's \<Rightarrow> (bool \<times> 'h \<times> 's) rs" where
  "server_default_channel_open_session h channel session = Ok (False, h, session)"

definition server_default_channel_open_x11 ::
    "'h \<Rightarrow> channel \<Rightarrow> string \<Rightarrow> u32 \<Rightarrow> 's \<Rightarrow> (bool \<times> 'h \<times> 's) rs" where
  "server_default_channel_open_x11 h channel originator oport session = Ok (False, h, session)"

definition server_default_channel_open_direct_tcpip ::
    "'h \<Rightarrow> channel \<Rightarrow> tcp_channel_info \<Rightarrow> 's \<Rightarrow> (bool \<times> 'h \<times> 's) rs" where
  "server_default_channel_open_direct_tcpip h channel info session = Ok (False, h, session)"

definition server_default_channel_open_forwarded_tcpip ::
    "'h \<Rightarrow> channel \<Rightarrow> tcp_channel_info \<Rightarrow> 's \<Rightarrow> (bool \<times> 'h \<times> 's) rs" where
  "server_default_channel_open_forwarded_tcpip h channel info session = Ok (False, h, session)"

definition server_default_channel_open_direct_streamlocal ::
    "'h \<Rightarrow> channel \<Rightarrow> string \<Rightarrow> 's \<Rightarrow> (bool \<times> 'h \<times> 's) rs" where
  "server_default_channel_open_direct_streamlocal h channel socket_path session = Ok (False, h, session)"

definition server_default_channel_open_confirmation ::
    "'h \<Rightarrow> channel_id \<Rightarrow> u32 \<Rightarrow> u32 \<Rightarrow> 's \<Rightarrow> ('h, 's) handled" where
  "server_default_channel_open_confirmation h channel max_packet_size window_size session = Ok (h, session)"

definition server_default_data ::
    "'h \<Rightarrow> channel_id \<Rightarrow> bytes \<Rightarrow> 's \<Rightarrow> ('h, 's) handled" where
  "server_default_data h channel data session = Ok (h, session)"

definition server_default_extended_data ::
    "'h \<Rightarrow> channel_id \<Rightarrow> u32 \<Rightarrow> bytes \<Rightarrow> 's \<Rightarrow> ('h, 's) handled" where
  "server_default_extended_data h channel code data session = Ok (h, session)"

definition server_default_window_adjusted ::
    "'h \<Rightarrow> channel_id \<Rightarrow> u32 \<Rightarrow> 's \<Rightarrow> ('h, 's) handled" where
  "server_default_window_adjusted h channel new_size session = Ok (h, session)"

definition server_default_adjust_window :: "'h \<Rightarrow> channel_id \<Rightarrow> u32 \<Rightarrow> u32 \<times> 'h" where
  "server_default_adjust_window h channel window = (window, h)"

definition server_default_pty_request ::
    "'h \<Rightarrow> channel_id \<Rightarrow> string \<Rightarrow> u32 \<Rightarrow> u32 \<Rightarrow> u32 \<Rightarrow> u32 \<Rightarrow> (pty \<times> u32) list \<Rightarrow> 's \<Rightarrow> ('h, 's) handled" where
  "server_default_pty_request h channel term col_width row_height pix_width pix_height modes session = Ok (h, session)"

definition server_default_x11_request ::
    "'h \<Rightarrow> channel_id \<Rightarrow> bool \<Rightarrow> string \<Rightarrow> string \<Rightarrow> u32 \<Rightarrow> 's \<Rightarrow> ('h, 's) handled" where
  "server_default_x11_request h channel single_connection protocol cookie screen_number session = Ok (h, session)"

definition server_default_env_request ::
    "'h \<Rightarrow> channel_id \<Rightarrow> string \<Rightarrow> string \<Rightarrow> 's \<Rightarrow> ('h, 's) handled" where
  "server_default_env_request h channel variable_name variable_value session = Ok (h, session)"

definition server_default_shell_request :: "'h \<Rightarrow> channel_id \<Rightarrow> 's \<Rightarrow> ('h, 's) handled" where
  "server_default_shell_request h channel session = Ok (h, session)"

definition server_default_exec_request ::
    "'h \<Rightarrow> channel_id \<Rightarrow> bytes \<Rightarrow> 's \<Rightarrow> ('h, 's) handled" where
  "server_default_exec_request h channel data session = Ok (h, session)"

definition server_default_subsystem_request ::
    "'h \<Rightarrow> channel_id \<Rightarrow> string \<Rightarrow> 's \<Rightarrow> ('h, 's) handled" where
  "server_default_subsystem_request h channel name session = Ok (h, session)"

definition server_default_window_change_request ::
    "'h \<Rightarrow> channel_id \<Rightarrow> u32 \<Rightarrow> u32 \<Rightarrow> u32 \<Rightarrow> u32 \<Rightarrow> 's \<Rightarrow> ('h, 's) handled" where
  "server_default_window_change_request h channel col_width row_height pix_width pix_height session = Ok (h, session)"

definition server_default_agent_request ::
    "'h \<Rightarrow> channel_id \<Rightarrow> 's \<Rightarrow> (bool \<times> 'h \<times> 's) rs" where
  "server_default_agent_request h channel session = Ok (False, h, session)"

definition server_default_signal ::
    "'h \<Rightarrow> channel_id \<Rightarrow> sig \<Rightarrow> 's \<Rightarrow> ('h, 's) handled" where
  "server_default_signal h channel signal session = Ok (h, session)"

definition server_default_tcpip_forward ::
    "'h \<Rightarrow> string \<Rightarrow> u32 \<Rightarrow> 's \<Rightarrow> (bool \<times> u32 \<times> 'h \<times> 's) rs" where
  "server_default_tcpip_forward h address port session = Ok (False, port, h, session)"

definition server_default_cancel_tcpip_forward ::
    "'h \<Rightarrow> string \<Rightarrow> u32 \<Rightarrow> 's \<Rightarrow> (bool \<times> 'h \<times> 's) rs" where
  "server_default_cancel_tcpip_forward h address port session = Ok (False, h, session)"

definition server_default_streamlocal_forward ::
    "'h \<Rightarrow> string \<Rightarrow> 's \<Rightarrow> (bool \<times> 'h \<times> 's) rs" where
  "server_default_streamlocal_forward h socket_path session = Ok (False, h, session)"

definition server_default_cancel_streamlocal_forward ::
    "'h \<Rightarrow> string \<Rightarrow> 's \<Rightarrow> (bool \<times> 'h \<times> 's) rs" where
  "server_default_cancel_streamlocal_forward h socket_path session = Ok (False, h, session)"

definition server_default_lookup_dh_gex_group :: "'h \<Rightarrow> gex_params \<Rightarrow> dh_group option rs" where
  "server_default_lookup_dh_gex_group h gex_params = Ok (lookup_dh_gex_group gex_params)"

text \<open>The whole handler.\<close>

definition server_default_handler :: "('h, 'pub, 'cert, 's) server_handler" where
  "server_default_handler = \<lparr>
     auth_none = server_default_auth_none,
     auth_password = server_default_auth_password,
     auth_publickey_offered = server_default_auth_publickey_offered,
     auth_publickey = server_default_auth_publickey,
     auth_openssh_certificate = server_default_auth_openssh_certificate,
     auth_keyboard_interactive = server_default_auth_keyboard_interactive,
     authentication_banner = server_default_authentication_banner,
     h_auth_succeeded = server_default_auth_succeeded,
     h_channel_close = server_default_channel_close,
     h_channel_eof = server_default_channel_eof,
     h_channel_open_session = server_default_channel_open_session,
     h_channel_open_x11 = server_default_channel_open_x11,
     h_channel_open_direct_tcpip = server_default_channel_open_direct_tcpip,
     h_channel_open_forwarded_tcpip = server_default_channel_open_forwarded_tcpip,
     h_channel_open_direct_streamlocal = server_default_channel_open_direct_streamlocal,
     h_channel_open_confirmation = server_default_channel_open_confirmation,
     h_data = server_default_data,
     h_extended_data = server_default_extended_data,
     h_window_adjusted = server_default_window_adjusted,
     h_adjust_window = server_default_adjust_window,
     h_pty_request = server_default_pty_request,
     h_x11_request = server_default_x11_request,
     h_env_request = server_default_env_request,
     h_shell_request = server_default_shell_request,
     h_exec_request = server_default_exec_request,
     h_subsystem_request = server_default_subsystem_request,
     h_window_change_request = server_default_window_change_request,
     h_agent_request = server_default_agent_request,
     h_signal = server_default_signal,
     h_tcpip_forward = server_default_tcpip_forward,
     h_cancel_tcpip_forward = server_default_cancel_tcpip_forward,
     h_streamlocal_forward = server_default_streamlocal_forward,
     h_cancel_streamlocal_forward = server_default_cancel_streamlocal_forward,
     h_lookup_dh_gex_group = server_default_lookup_dh_gex_group\<rparr>"

section \<open>The client's\<close>

definition client_default_auth_banner :: "'h \<Rightarrow> string \<Rightarrow> 's \<Rightarrow> ('h, 's) handled" where
  "client_default_auth_banner h banner session = Ok (h, session)"

definition client_default_check_server_key :: "'h \<Rightarrow> 'pub \<Rightarrow> (bool \<times> 'h) rs" where
  "client_default_check_server_key h server_public_key = Ok (False, h)"

definition client_default_kex_done ::
    "'h \<Rightarrow> bytes option \<Rightarrow> negotiated \<Rightarrow> 's \<Rightarrow> ('h, 's) handled" where
  "client_default_kex_done h shared_secret names session = Ok (h, session)"

definition client_default_channel_open_confirmation ::
    "'h \<Rightarrow> channel_id \<Rightarrow> u32 \<Rightarrow> u32 \<Rightarrow> 's \<Rightarrow> ('h, 's) handled" where
  "client_default_channel_open_confirmation h channel max_packet_size window_size session = Ok (h, session)"

definition client_default_channel_success :: "'h \<Rightarrow> channel_id \<Rightarrow> 's \<Rightarrow> ('h, 's) handled" where
  "client_default_channel_success h channel session = Ok (h, session)"

definition client_default_channel_failure :: "'h \<Rightarrow> channel_id \<Rightarrow> 's \<Rightarrow> ('h, 's) handled" where
  "client_default_channel_failure h channel session = Ok (h, session)"

definition client_default_channel_close :: "'h \<Rightarrow> channel_id \<Rightarrow> 's \<Rightarrow> ('h, 's) handled" where
  "client_default_channel_close h channel session = Ok (h, session)"

definition client_default_channel_eof :: "'h \<Rightarrow> channel_id \<Rightarrow> 's \<Rightarrow> ('h, 's) handled" where
  "client_default_channel_eof h channel session = Ok (h, session)"

definition client_default_channel_open_failure ::
    "'h \<Rightarrow> channel_id \<Rightarrow> channel_open_failure \<Rightarrow> string \<Rightarrow> string \<Rightarrow> 's \<Rightarrow> ('h, 's) handled" where
  "client_default_channel_open_failure h channel reason description language session = Ok (h, session)"

definition client_default_server_channel_open_session ::
    "'h \<Rightarrow> channel \<Rightarrow> 's \<Rightarrow> ('h, 's) handled" where
  "client_default_server_channel_open_session h channel session = Ok (h, session)"

definition client_default_server_channel_open_direct_tcpip ::
    "'h \<Rightarrow> channel \<Rightarrow> tcp_channel_info \<Rightarrow> 's \<Rightarrow> ('h, 's) handled" where
  "client_default_server_channel_open_direct_tcpip h channel info session = Ok (h, session)"

definition client_default_server_channel_open_direct_streamlocal ::
    "'h \<Rightarrow> channel \<Rightarrow> string \<Rightarrow> 's \<Rightarrow> ('h, 's) handled" where
  "client_default_server_channel_open_direct_streamlocal h channel socket_path session = Ok (h, session)"

definition client_default_server_channel_open_x11 ::
    "'h \<Rightarrow> channel \<Rightarrow> string \<Rightarrow> u32 \<Rightarrow> 's \<Rightarrow> ('h, 's) handled" where
  "client_default_server_channel_open_x11 h channel originator oport session = Ok (h, session)"

definition client_default_server_channel_open_forwarded_tcpip ::
    "'h \<Rightarrow> channel \<Rightarrow> tcp_channel_info \<Rightarrow> 's \<Rightarrow> ('h, 's) handled" where
  "client_default_server_channel_open_forwarded_tcpip h channel info session = Ok (h, session)"

definition client_default_server_channel_open_forwarded_streamlocal ::
    "'h \<Rightarrow> channel \<Rightarrow> string \<Rightarrow> 's \<Rightarrow> ('h, 's) handled" where
  "client_default_server_channel_open_forwarded_streamlocal h channel socket_path session = Ok (h, session)"

definition client_default_server_channel_open_agent_forward ::
    "'h \<Rightarrow> channel \<Rightarrow> 's \<Rightarrow> ('h, 's) handled" where
  "client_default_server_channel_open_agent_forward h channel session = Ok (h, session)"

definition client_default_should_accept_unknown_server_channel ::
    "'h \<Rightarrow> channel_id \<Rightarrow> string \<Rightarrow> bool \<times> 'h" where
  "client_default_should_accept_unknown_server_channel h channel channel_type = (False, h)"

definition client_default_server_channel_open_unknown ::
    "'h \<Rightarrow> channel \<Rightarrow> 's \<Rightarrow> ('h, 's) handled" where
  "client_default_server_channel_open_unknown h channel session = Ok (h, session)"

definition client_default_data ::
    "'h \<Rightarrow> channel_id \<Rightarrow> bytes \<Rightarrow> 's \<Rightarrow> ('h, 's) handled" where
  "client_default_data h channel data session = Ok (h, session)"

definition client_default_extended_data ::
    "'h \<Rightarrow> channel_id \<Rightarrow> u32 \<Rightarrow> bytes \<Rightarrow> 's \<Rightarrow> ('h, 's) handled" where
  "client_default_extended_data h channel ext data session = Ok (h, session)"

definition client_default_xon_xoff ::
    "'h \<Rightarrow> channel_id \<Rightarrow> bool \<Rightarrow> 's \<Rightarrow> ('h, 's) handled" where
  "client_default_xon_xoff h channel client_can_do session = Ok (h, session)"

definition client_default_exit_status ::
    "'h \<Rightarrow> channel_id \<Rightarrow> u32 \<Rightarrow> 's \<Rightarrow> ('h, 's) handled" where
  "client_default_exit_status h channel exit_status session = Ok (h, session)"

definition client_default_exit_signal ::
    "'h \<Rightarrow> channel_id \<Rightarrow> sig \<Rightarrow> bool \<Rightarrow> string \<Rightarrow> string \<Rightarrow> 's \<Rightarrow> ('h, 's) handled" where
  "client_default_exit_signal h channel signal_name core_dumped error_message lang_tag session = Ok (h, session)"

definition client_default_window_adjusted ::
    "'h \<Rightarrow> channel_id \<Rightarrow> u32 \<Rightarrow> 's \<Rightarrow> ('h, 's) handled" where
  "client_default_window_adjusted h channel new_size session = Ok (h, session)"

definition client_default_adjust_window :: "'h \<Rightarrow> channel_id \<Rightarrow> u32 \<Rightarrow> u32 \<times> 'h" where
  "client_default_adjust_window h channel window = (window, h)"

definition client_default_openssh_ext_host_keys_announced ::
    "'h \<Rightarrow> 'pub list \<Rightarrow> 's \<Rightarrow> ('h, 's) handled" where
  "client_default_openssh_ext_host_keys_announced h keys session = Ok (h, session)"

text \<open>An error is handed on.\<close>

definition client_default_disconnected :: "'h \<Rightarrow> disconnect_cause \<Rightarrow> 'h rs" where
  "client_default_disconnected h reason =
     (case reason of ReceivedDisconnect _ _ _ \<Rightarrow> Ok h | DisconnectedByError e \<Rightarrow> Err e)"

text \<open>The whole handler.\<close>

definition client_default_handler :: "('h, 'pub, 's) client_handler" where
  "client_default_handler = \<lparr>
     c_auth_banner = client_default_auth_banner,
     c_check_server_key = client_default_check_server_key,
     c_kex_done = client_default_kex_done,
     c_channel_open_confirmation = client_default_channel_open_confirmation,
     c_channel_success = client_default_channel_success,
     c_channel_failure = client_default_channel_failure,
     c_channel_close = client_default_channel_close,
     c_channel_eof = client_default_channel_eof,
     c_channel_open_failure = client_default_channel_open_failure,
     c_open_session = client_default_server_channel_open_session,
     c_open_direct_tcpip = client_default_server_channel_open_direct_tcpip,
     c_open_direct_streamlocal = client_default_server_channel_open_direct_streamlocal,
     c_open_x11 = client_default_server_channel_open_x11,
     c_open_forwarded_tcpip = client_default_server_channel_open_forwarded_tcpip,
     c_open_forwarded_streamlocal = client_default_server_channel_open_forwarded_streamlocal,
     c_open_agent_forward = client_default_server_channel_open_agent_forward,
     c_should_accept_unknown = client_default_should_accept_unknown_server_channel,
     c_open_unknown = client_default_server_channel_open_unknown,
     c_data = client_default_data,
     c_extended_data = client_default_extended_data,
     c_xon_xoff = client_default_xon_xoff,
     c_exit_status = client_default_exit_status,
     c_exit_signal = client_default_exit_signal,
     c_window_adjusted = client_default_window_adjusted,
     c_adjust_window = client_default_adjust_window,
     c_host_keys_announced = client_default_openssh_ext_host_keys_announced,
     c_disconnected = client_default_disconnected\<rparr>"

section \<open>Nobody gets in, nobody is trusted\<close>

lemma default_grants_nothing: "\<not> grants_event V K server_default_handler wall e h s"
  by (simp add: grants_event_def packet_grants_def granted_def key_granted_def auth_handler.truncate_def server_default_handler_def
      server_default_auth_none_def server_default_auth_password_def server_default_auth_publickey_def
      server_default_auth_openssh_certificate_def server_default_auth_keyboard_interactive_def auth_reject_def split: pk_or_cert.splits)

lemma default_quiet: "quiet_kex_done client_default_handler"
  unfolding quiet_kex_done_def
  by (rule exI [of _ "\<lambda>h x names. Ok h"]) (simp add: client_default_handler_def client_default_kex_done_def)

lemma default_trusts_nobody: "trusted_keys V client_default_handler cfg sent nk \<Longrightarrow> n_kex (nk_names nk) = NONE_NAME"
  by (auto simp: trusted_keys_def client_default_handler_def client_default_check_server_key_def)

lemma default_trusting:
  assumes "trusting V H cfg sent s" "H = client_default_handler"
  shows "\<exists>names ex i. n_kex names = NONE_NAME \<and> client_bound V cfg Initial sent i names ex"
proof -
  obtain nk where k: "trusted_keys V H cfg sent nk" using assms(1) by (auto simp: trusting_def)
  then obtain i where "client_bound V cfg Initial sent i (nk_names nk) (nk_exchange nk)" by (auto simp: trusted_keys_def)
  with default_trusts_nobody [OF k [unfolded assms(2)]] show ?thesis by blast
qed

lemma ignored_round:
  "\<exists>out s' n. loop_round sample_env sample_certs H order 0 0 (LePacket ignore_packet) () sample_guest = Ok (Some (out, (), s', n))"
proof -
  have d: "maybe_decompress sample_env ignore_packet sample_guest = Ok (\<lparr>in_buffer = [IGNORE], in_seqn = 4\<rparr>, sample_guest)"
    by (simp add: maybe_decompress_def none_packet_eq sample_guest_def sample_encrypted_def slice_from_def ss_set_encrypted_def)
  have u: "sample_guest\<lparr>ss_common := (ss_common sample_guest)\<lparr>received_data := False\<rparr>\<rparr> = sample_guest"
    by (simp add: sample_guest_def server_common_new_def)
  have "strict_message_ok sample_marked \<lparr>in_buffer = [IGNORE], in_seqn = 4\<rparr> = Ok ()"
    by (simp add: strict_message_ok_def sample_guest_def server_common_new_def)
  with d have l: "loop_packet sample_env sample_certs H order 0 0 ignore_packet () sample_guest = Ok (Some ((), sample_marked, 4))"
    by (simp add: loop_packet_def reply_def)
  obtain out w where "flush_into (packet_writer (ss_common sample_marked)) = (out, w)"
    by (cases "flush_into (packet_writer (ss_common sample_marked))")
  then show ?thesis using sample_idle_flush by (simp add: loop_round_def u l [simplified])
qed

section \<open>Properties\<close>

text \<open>Property C39: a server that overrides nothing lets nobody in. Whatever a client sends, in whatever order, with
  whatever keys and signatures, the session stays a guest's; and every session begins as one.\<close>

theorem default_server_lets_nobody_in:
  assumes "session_run V K server_default_handler order h0 s0 es h s" "guest s0"
  shows "guest s \<and> \<not> logged_in s \<and> (\<forall>cfg sshid now out s1. session_start V cfg sshid now = Ok (out, s1) \<longrightarrow> guest s1)"
proof -
  from run_first_grant [OF assms(1)] have "ungranted_run V K server_default_handler order h0 s0 es h s"
    using default_grants_nothing by metis
  then have "guest s" using assms(2) by (rule ungranted_guest)
  moreover from this have "\<not> logged_in s" by (simp add: guest_def)
  ultimately show ?thesis by (blast intro: session_start_guest)
qed

theorem default_server_lets_nobody_in_witness:
  "\<exists>s. session_run sample_env sample_certs server_default_handler (\<lambda>m. []) () sample_guest [(sample_env, 0, 0, LePacket ignore_packet)] () s
    \<and> \<not> logged_in s"
proof -
  obtain out s n where r: "loop_round sample_env sample_certs server_default_handler (\<lambda>m. []) 0 0 (LePacket ignore_packet) () sample_guest
      = Ok (Some (out, (), s, n))" using ignored_round by blast
  have e: "event_enabled (LePacket ignore_packet) sample_guest"
    by (simp add: sample_guest_def server_common_new_def event_enabled_def)
  have run: "session_run sample_env sample_certs server_default_handler (\<lambda>m. []) () sample_guest ([] @ [(sample_env, 0, 0, LePacket ignore_packet)]) () s"
    by (rule run_round [OF run_start redrawn_refl e r])
  from default_server_lets_nobody_in [OF run sample_guest_is_guest(1)] run show ?thesis by auto
qed

text \<open>Property C40: a client that overrides nothing trusts nobody. From its start on, in whatever order packets and
  timers come, the session does not become encrypted, unless the client's own preferences admit the exchange
  \<open>none\<close>, which has no host key to judge.\<close>

theorem default_client_trusts_nobody:
  assumes "connect_stream V cfg sshid msgs = Ok (hello, s)" "clear_run V Q client_default_handler order es h s outs h' s'"
  shows "\<exists>sent. announced V cfg hello sent
    \<and> (cl_encrypted s' = None \<or> (\<exists>names ex i. n_kex names = NONE_NAME \<and> client_bound V cfg Initial sent i names ex))"
proof -
  from connect_stream_clear [OF assms(1)] obtain sent where
    c: "announced V cfg hello sent" "clear_session V cfg sent s" by blast
  from clear_run_keeps [OF assms(2) default_quiet disjI1 [OF c(2)]] c(1) show ?thesis
    by (intro exI [of _ sent]) (auto simp: clear_session_def dest!: default_trusting [OF _ refl])
qed

theorem default_client_trusts_nobody_witness:
  "\<exists>hello (s :: (unit, unit, unit, unit, bytes) client_session) outs s' sent.
      connect_stream sample_env sample_client_config [2] [MsgRekey] = Ok (hello, s)
    \<and> clear_run sample_env sample_client_keys client_default_handler (\<lambda>m. [])
        [(sample_env, 0, CePacket (clear_packet (sample_init (Some [Ed25519])) 1))] () s outs () s'
    \<and> announced sample_env sample_client_config hello sent
    \<and> (cl_encrypted s' = None \<or> (\<exists>names ex i. n_kex names = NONE_NAME
        \<and> client_bound sample_env sample_client_config Initial sent i names ex))"
proof -
  obtain hello and s :: "(unit, unit, unit, unit, bytes) client_session"
    where s: "connect_stream sample_env sample_client_config [2] [MsgRekey] = Ok (hello, s)" "early sample_client_kex s"
    using sample_start by blast
  then have w0: "pw_cipher (packet_writer (cl_common s)) = ClearKey" "pw_compress (packet_writer (cl_common s)) = CompressNone"
    by (simp_all add: early_def)
  have m: "is_kex_msg KEXINIT" by code_simp
  obtain k w where w: "client_step sample_env sample_client_kex (Some \<lparr>in_buffer = sample_init (Some [Ed25519]), in_seqn = 1\<rparr>)
        (packet_writer (cl_common s)) = Ok (NeedsReply k False, w)"
      "pw_cipher w = ClearKey" "pw_compress w = CompressNone" "sent_bytes (write_buffer w) \<le> sent_so_far s + 1000"
      "ck_config k = ck_config sample_client_kex"
    by (rule sample_client_first [OF w0]) auto
  have "\<exists>out n s'. client_round sample_env sample_client_keys client_default_handler (\<lambda>m. []) 0
      (CePacket (clear_packet (sample_init (Some [Ed25519])) 1)) () s = Ok (Some (out, (), s', n, None)) \<and> early k s'
      \<and> sent_so_far s' \<le> sent_so_far s + 1000"
    by (rule early_round [OF s(2) _ _ m _ w(2-5)]) (use w(1) in \<open>simp_all add: sample_init_def\<close>)
  then obtain out n s' where r: "client_round sample_env sample_client_keys client_default_handler (\<lambda>m. []) 0
      (CePacket (clear_packet (sample_init (Some [Ed25519])) 1)) () s = Ok (Some (out, (), s', n, None))" by blast
  have "client_event_enabled (CePacket (clear_packet (sample_init (Some [Ed25519])) 1)) s" "cl_encrypted s = None"
    using s(2) by (simp_all add: early_def client_event_enabled_def)
  then have run: "clear_run sample_env sample_client_keys client_default_handler (\<lambda>m. [])
      [(sample_env, 0, CePacket (clear_packet (sample_init (Some [Ed25519])) 1))] () s (out @ []) () s'"
    by (intro clear_round [OF _ redrawn_refl _ r clear_here])
  from default_client_trusts_nobody [OF s(1) run] s(1) run show ?thesis by blast
qed

end
