(* ===== verification/ChannelHandle.thy ===== *)
theory ChannelHandle
  imports Channels
begin

text \<open>
  The channel in the hands of the application (\<open>channels/mod.rs\<close>): its writing half sends messages to the
  session, its reading half waits for those of the session, and both can be used as byte streams. Each call
  returns its result beside the state it leaves, since the channel outlives an error. The lemmas show what a
  call adds to the messages of the session, and that \<open>data\<close> puts exactly its bytes into them.
\<close>

section \<open>Sending to the session\<close>

text \<open>The sender of a bounded \<open>mpsc\<close> queue: what was sent, in order, and how many more messages the queue takes
  until its receiver is gone. A send that waits for room is one that comes later.\<close>

record 'm sender =
  snd_sent :: "'m list"
  snd_room :: nat

definition mpsc_send :: "'m \<Rightarrow> 'm sender \<Rightarrow> bool \<times> 'm sender" where
  "mpsc_send m q =
     (if snd_room q = 0 then (False, q) else (True, \<lparr>snd_sent = snd_sent q @ [m], snd_room = snd_room q - 1\<rparr>))"

text \<open>\<open>.map_err(|_| Error::SendError)\<close>.\<close>

definition sent_or_error :: "bool \<times> 'q \<Rightarrow> unit rs \<times> 'q" where
  "sent_or_error r = (case r of (ok, q) \<Rightarrow> (if ok then Ok () else Err SendError, q))"

section \<open>\<open>ChannelWriteHalf\<close>\<close>

text \<open>The number of the channel is the half's \<open>id\<close>; \<open>into\<close> is the trait \<open>From<(ChannelId, ChannelMsg)>\<close> of the session's
  messages. Strings and commands are taken after their conversion.\<close>

definition channel_id_of :: "channel \<Rightarrow> channel_id" where
  "channel_id_of w = ch_id w"

definition send_msg ::
    "(channel_id \<Rightarrow> channel_msg \<Rightarrow> 'm) \<Rightarrow> channel \<Rightarrow> channel_msg \<Rightarrow> 'm sender \<Rightarrow> unit rs \<times> 'm sender" where
  "send_msg into w m q = sent_or_error (mpsc_send (into (ch_id w) m) q)"

definition ch_request_pty ::
    "(channel_id \<Rightarrow> channel_msg \<Rightarrow> 'm) \<Rightarrow> channel \<Rightarrow> bool \<Rightarrow> string \<Rightarrow> u32 \<Rightarrow> u32 \<Rightarrow> u32 \<Rightarrow> u32 \<Rightarrow> (pty \<times> u32) list
      \<Rightarrow> 'm sender \<Rightarrow> unit rs \<times> 'm sender" where
  "ch_request_pty into w want_reply term col_width row_height pix_width pix_height terminal_modes q =
     send_msg into w (CmRequestPty want_reply term col_width row_height pix_width pix_height terminal_modes) q"

definition ch_request_shell ::
    "(channel_id \<Rightarrow> channel_msg \<Rightarrow> 'm) \<Rightarrow> channel \<Rightarrow> bool \<Rightarrow> 'm sender \<Rightarrow> unit rs \<times> 'm sender" where
  "ch_request_shell into w want_reply q = send_msg into w (CmRequestShell want_reply) q"

definition ch_exec ::
    "(channel_id \<Rightarrow> channel_msg \<Rightarrow> 'm) \<Rightarrow> channel \<Rightarrow> bool \<Rightarrow> bytes \<Rightarrow> 'm sender \<Rightarrow> unit rs \<times> 'm sender" where
  "ch_exec into w want_reply command q = send_msg into w (CmExec want_reply command) q"

definition ch_signal ::
    "(channel_id \<Rightarrow> channel_msg \<Rightarrow> 'm) \<Rightarrow> channel \<Rightarrow> sig \<Rightarrow> 'm sender \<Rightarrow> unit rs \<times> 'm sender" where
  "ch_signal into w signal q = send_msg into w (CmSignal signal) q"

definition ch_request_subsystem ::
    "(channel_id \<Rightarrow> channel_msg \<Rightarrow> 'm) \<Rightarrow> channel \<Rightarrow> bool \<Rightarrow> string \<Rightarrow> 'm sender \<Rightarrow> unit rs \<times> 'm sender" where
  "ch_request_subsystem into w want_reply name q = send_msg into w (CmRequestSubsystem want_reply name) q"

definition ch_request_x11 ::
    "(channel_id \<Rightarrow> channel_msg \<Rightarrow> 'm) \<Rightarrow> channel \<Rightarrow> bool \<Rightarrow> bool \<Rightarrow> string \<Rightarrow> string \<Rightarrow> u32
      \<Rightarrow> 'm sender \<Rightarrow> unit rs \<times> 'm sender" where
  "ch_request_x11 into w want_reply single_connection protocol cookie screen_number q =
     send_msg into w (CmRequestX11 want_reply single_connection protocol cookie screen_number) q"

definition ch_set_env ::
    "(channel_id \<Rightarrow> channel_msg \<Rightarrow> 'm) \<Rightarrow> channel \<Rightarrow> bool \<Rightarrow> string \<Rightarrow> string \<Rightarrow> 'm sender \<Rightarrow> unit rs \<times> 'm sender" where
  "ch_set_env into w want_reply variable_name variable_value q =
     send_msg into w (CmSetEnv want_reply variable_name variable_value) q"

definition ch_window_change ::
    "(channel_id \<Rightarrow> channel_msg \<Rightarrow> 'm) \<Rightarrow> channel \<Rightarrow> u32 \<Rightarrow> u32 \<Rightarrow> u32 \<Rightarrow> u32 \<Rightarrow> 'm sender \<Rightarrow> unit rs \<times> 'm sender" where
  "ch_window_change into w col_width row_height pix_width pix_height q =
     send_msg into w (CmWindowChange col_width row_height pix_width pix_height) q"

definition ch_agent_forward ::
    "(channel_id \<Rightarrow> channel_msg \<Rightarrow> 'm) \<Rightarrow> channel \<Rightarrow> bool \<Rightarrow> 'm sender \<Rightarrow> unit rs \<times> 'm sender" where
  "ch_agent_forward into w want_reply q = send_msg into w (CmAgentForward want_reply) q"

definition ch_eof :: "(channel_id \<Rightarrow> channel_msg \<Rightarrow> 'm) \<Rightarrow> channel \<Rightarrow> 'm sender \<Rightarrow> unit rs \<times> 'm sender" where
  "ch_eof into w q = send_msg into w CmEof q"

definition ch_exit_status ::
    "(channel_id \<Rightarrow> channel_msg \<Rightarrow> 'm) \<Rightarrow> channel \<Rightarrow> u32 \<Rightarrow> 'm sender \<Rightarrow> unit rs \<times> 'm sender" where
  "ch_exit_status into w exit_status q = send_msg into w (CmExitStatus exit_status) q"

definition ch_close :: "(channel_id \<Rightarrow> channel_msg \<Rightarrow> 'm) \<Rightarrow> channel \<Rightarrow> 'm sender \<Rightarrow> unit rs \<times> 'm sender" where
  "ch_close into w q = send_msg into w CmClose q"

text \<open>\<open>make_writer_ext\<close>: the writer starts with the window as it is now; what it sends goes to the session.\<close>

definition make_writer_ext :: "u32 option \<Rightarrow> channel \<Rightarrow> u32 \<Rightarrow> channel_tx" where
  "make_writer_ext ext w window =
     \<lparr>tx_id = ch_id w, tx_window = window, tx_max_packet_size = ch_max_packet_size w, tx_ext = ext, tx_send_fut = None,
      tx_sent = []\<rparr>"

definition make_writer :: "channel \<Rightarrow> u32 \<Rightarrow> channel_tx" where
  "make_writer w window = make_writer_ext None w window"

section \<open>\<open>ChannelReadHalf\<close>\<close>

text \<open>\<open>wait\<close>: the next message, or \<open>Ready None\<close> when the session has dropped the channel.\<close>

definition ch_wait :: "channel_rx \<Rightarrow> channel_msg option poll \<times> channel_rx" where
  "ch_wait r = poll_recv r"

text \<open>\<open>make_reader_ext\<close> on a receiver with the messages \<open>q\<close>, to which more can come if \<open>live\<close>.\<close>

definition make_reader_ext :: "u32 option \<Rightarrow> channel_msg list \<Rightarrow> bool \<Rightarrow> channel_rx" where
  "make_reader_ext ext q live = \<lparr>rx_queue = q, rx_open = live, rx_buffer = None, rx_ext = ext\<rparr>"

definition make_reader :: "channel_msg list \<Rightarrow> bool \<Rightarrow> channel_rx" where
  "make_reader q live = make_reader_ext None q live"

text \<open>\<open>into_stream\<close>: both ends, for plain data.\<close>

definition into_stream :: "channel \<Rightarrow> u32 \<Rightarrow> channel_msg list \<Rightarrow> bool \<Rightarrow> channel_tx \<times> channel_rx" where
  "into_stream w window q live = (make_writer_ext None w window, make_reader_ext None q live)"

text \<open>\<open>ChannelCloseOnDrop\<close>: the drop of the reading end of such a stream sends \<open>Close\<close>, if the session still takes it.\<close>

definition close_on_drop :: "(channel_id \<Rightarrow> channel_msg \<Rightarrow> 'm) \<Rightarrow> channel \<Rightarrow> 'm sender \<Rightarrow> 'm sender" where
  "close_on_drop into w q = snd (mpsc_send (into (ch_id w) CmClose) q)"

section \<open>Sending data\<close>

text \<open>What happens while \<open>tokio::io::copy\<close> runs: a poll of the writer with the next \<open>k + 1\<close> bytes at most, where the future
  for a place gives \<open>place\<close>, or an update of the window by the session. The copy's buffer holds 8 KiB.\<close>

datatype copy_event = CopyPoll nat "bool poll" | CopyWindow u32

definition copy_buffer :: "nat \<Rightarrow> nat" where
  "copy_buffer k = min (Suc k) 8192"

text \<open>The copy: the bytes still to be written. It is done when there are none, and ends on the writer's error.\<close>

fun copy_data :: "copy_event list \<Rightarrow> bytes \<Rightarrow> channel_tx \<Rightarrow> write_error option \<times> bytes \<times> channel_tx" where
  "copy_data [] data t = (None, data, t)"
| "copy_data (CopyWindow w # es) data t = copy_data es data (t\<lparr>tx_window := w\<rparr>)"
| "copy_data (CopyPoll k place # es) data t =
     (if data = [] then (None, data, t)
      else
        (case tx_poll_write place (take (copy_buffer k) data) t of
           (Pending, t) \<Rightarrow> copy_data es data t
         | (Ready (Inl e), t) \<Rightarrow> (Some e, data, t)
         | (Ready (Inr n), t) \<Rightarrow> copy_data es (drop n data) t))"

text \<open>\<open>send_data\<close>: \<open>Pending\<close> while not all has been written. The messages sent are the writer's \<open>tx_sent\<close>.\<close>

definition send_data ::
    "u32 option \<Rightarrow> channel \<Rightarrow> u32 \<Rightarrow> copy_event list \<Rightarrow> bytes \<Rightarrow> unit rs poll \<times> (channel_id \<times> channel_msg) list \<times> u32" where
  "send_data ext w window es data =
     (case copy_data es data (make_writer_ext ext w window) of
        (e, rest, t) \<Rightarrow>
          (case e of Some _ \<Rightarrow> Ready (Err IO) | None \<Rightarrow> if rest = [] then Ready (Ok ()) else Pending, tx_sent t, tx_window t))"

definition ch_data ::
    "channel \<Rightarrow> u32 \<Rightarrow> copy_event list \<Rightarrow> bytes \<Rightarrow> unit rs poll \<times> (channel_id \<times> channel_msg) list \<times> u32" where
  "ch_data w window es data = send_data None w window es data"

definition ch_extended_data ::
    "channel \<Rightarrow> u32 \<Rightarrow> u32 \<Rightarrow> copy_event list \<Rightarrow> bytes \<Rightarrow> unit rs poll \<times> (channel_id \<times> channel_msg) list \<times> u32" where
  "ch_extended_data w window ext es data = send_data (Some ext) w window es data"

section \<open>Waiting for a channel\<close>

text \<open>\<open>wait_channel_confirmation\<close>, the same on both sides, over the messages to come, of which an end is the drop of
  the sender: the channel with the window to store, and the messages that remain.\<close>

fun wait_confirmation :: "channel_msg list \<Rightarrow> (channel \<times> u32) rs \<times> channel_msg list" where
  "wait_confirmation [] = (Err DisconnectError, [])"
| "wait_confirmation (CmOpen c max_packet_size window_size # q) =
     (Ok (\<lparr>ch_id = c, ch_max_packet_size = max_packet_size\<rparr>, window_size), q)"
| "wait_confirmation (CmOpenFailure reason # q) = (Err (ChannelOpenFailure reason), q)"
| "wait_confirmation (_ # q) = wait_confirmation q"

text \<open>The reference that the channel shares with the session, once the application has seen the confirmation.\<close>

definition take_confirmation :: "channel_ref \<Rightarrow> channel rs \<times> channel_ref" where
  "take_confirmation ref =
     (case wait_confirmation (cr_queue ref) of
        (Ok (ch, window_size), q) \<Rightarrow> (Ok ch, window_update window_size (ref\<lparr>cr_queue := q\<rparr>))
      | (Err e, q) \<Rightarrow> (Err e, ref\<lparr>cr_queue := q\<rparr>)
      | (Panic, q) \<Rightarrow> (Panic, ref\<lparr>cr_queue := q\<rparr>)
      | (Diverges, q) \<Rightarrow> (Diverges, ref\<lparr>cr_queue := q\<rparr>))"

section \<open>What data becomes\<close>

text \<open>What holds between the polls: a message that waits for room carries the first of the bytes still to be written.\<close>

definition tx_holds :: "bytes \<Rightarrow> channel_tx \<Rightarrow> bool" where
  "tx_holds data t \<longleftrightarrow>
     (case tx_send_fut t of
        Some (m, n) \<Rightarrow> stream_data (tx_ext t) m = Some (take n data) \<and> 0 < n \<and> n \<le> length data \<and> n \<le> unat (tx_max_packet_size t)
      | None \<Rightarrow> True)"

definition carries :: "channel_tx \<Rightarrow> bytes \<Rightarrow> channel_id \<times> channel_msg \<Rightarrow> bool" where
  "carries t d e \<longleftrightarrow> fst e = tx_id t \<and> stream_data (tx_ext t) (snd e) = Some d \<and> d \<noteq> [] \<and> length d \<le> unat (tx_max_packet_size t)"

abbreviation same_writer :: "channel_tx \<Rightarrow> channel_tx \<Rightarrow> bool" where
  "same_writer t' t \<equiv> tx_id t' = tx_id t \<and> tx_ext t' = tx_ext t \<and> tx_max_packet_size t' = tx_max_packet_size t"

lemma copy_buffer_size [simp]: "0 < copy_buffer k" "copy_buffer k \<noteq> 0" "copy_buffer k < 2 ^ 32"
  by (simp_all add: copy_buffer_def)

lemma copy_poll:
  assumes "tx_holds data t" "data \<noteq> []" "tx_poll_write place (take (copy_buffer k) data) t = (p, t')"
  shows "same_writer t' t \<and>
    (case p of
       Ready (Inr n) \<Rightarrow> n \<le> length data \<and> tx_send_fut t' = None
         \<and> (\<exists>e. tx_sent t' = tx_sent t @ [e] \<and> carries t (take n data) e)
     | Ready (Inl e) \<Rightarrow> tx_sent t' = tx_sent t
     | Pending \<Rightarrow> tx_sent t' = tx_sent t \<and> tx_holds data t')"
proof (cases "tx_send_fut t")
  case (Some f)
  then show ?thesis
    using assms
    by (cases f; cases place)
      (auto simp: tx_poll_write_def handle_write_result_def Let_def tx_holds_def carries_def split: if_splits)
next
  case None
  let ?buf = "take (copy_buffer k) data"
  obtain q t1 where w: "poll_writable (length ?buf) t = (q, t1)" by (cases "poll_writable (length ?buf) t")
  show ?thesis
  proof (cases q)
    case Pending
    then have "t1 = t" using w by (auto simp: poll_writable_def Let_def split: if_splits)
    then show ?thesis
      using assms None w Pending by (auto simp: tx_poll_write_def poll_mk_msg_def tx_holds_def)
  next
    case (Ready n)
    have r: "0 < n" "n \<le> min (length data) (copy_buffer k)" "n \<le> unat (tx_max_packet_size t)"
      "t1 = t\<lparr>tx_window := tx_window t - as_u32 n\<rparr>"
      using poll_writable_Ready [OF w [unfolded Ready]] copy_buffer_size [of k] by auto
    have t: "take n ?buf = take n data" using r(2) by (simp add: min_absorb1)
    then show ?thesis
      using assms None w Ready r copy_buffer_size(1) [of k]
      by (cases place; cases "tx_ext t")
        (auto simp: t tx_poll_write_def poll_mk_msg_def handle_write_result_def Let_def tx_holds_def carries_def split: if_splits)
  qed
qed

lemma copy_data_writes:
  "copy_data es data t = (e, rest, t') \<Longrightarrow> tx_holds data t \<Longrightarrow>
    \<exists>ds es'. data = concat ds @ rest \<and> tx_sent t' = tx_sent t @ es' \<and> list_all2 (carries t) ds es' \<and> same_writer t' t"
proof (induction es data t arbitrary: rest rule: copy_data.induct)
  case (2 w es data t)
  let ?t = "t\<lparr>tx_window := w\<rparr>"
  have c: "carries ?t = carries t" by (simp add: carries_def fun_eq_iff)
  have "tx_holds data ?t" using "2.prems"(2) by (auto simp: tx_holds_def split: option.splits)
  then show ?case using "2.IH" [where rest = rest] "2.prems"(1) by (simp add: c)
next
  case (3 k place es data t)
  show ?case
  proof (cases "data = []")
    case True
    then show ?thesis using 3 by auto
  next
    case False
    obtain p t1 where p: "tx_poll_write place (take (copy_buffer k) data) t = (p, t1)"
      by (cases "tx_poll_write place (take (copy_buffer k) data) t")
    note step = copy_poll [OF "3.prems"(2) False p]
    show ?thesis
    proof (cases p)
      case Pending
      then have "\<exists>ds es'. data = concat ds @ rest \<and> tx_sent t' = tx_sent t1 @ es' \<and> list_all2 (carries t1) ds es' \<and> same_writer t' t1"
        using "3.IH"(2) [OF False p [symmetric] Pending, where rest = rest] step "3.prems"(1) False p Pending by simp
      moreover have "carries t1 = carries t" using step by (simp add: carries_def fun_eq_iff)
      ultimately show ?thesis using step Pending by simp
    next
      case (Ready r)
      show ?thesis
      proof (cases r)
        case (Inl x)
        then show ?thesis using Ready p False "3.prems"(1) step by auto
      next
        case (Inr n)
        obtain e1 where e1: "tx_sent t1 = tx_sent t @ [e1]" "carries t (take n data) e1" "tx_send_fut t1 = None" "n \<le> length data"
          using step Ready Inr by auto
        then have "tx_holds (drop n data) t1" by (simp add: tx_holds_def)
        then obtain ds es' where d: "drop n data = concat ds @ rest" "tx_sent t' = tx_sent t1 @ es'"
            "list_all2 (carries t1) ds es'" "same_writer t' t1"
          using "3.IH"(1) [OF False p [symmetric] Ready Inr, where rest = rest] "3.prems"(1) False p Ready Inr by auto
        have "carries t1 = carries t" using step by (simp add: carries_def fun_eq_iff)
        then have "list_all2 (carries t) (take n data # ds) (e1 # es')" using d(3) e1(2) by simp
        moreover have "data = concat (take n data # ds) @ rest" using d(1) by (metis append.assoc append_take_drop_id concat.simps(2))
        moreover have "tx_sent t' = tx_sent t @ e1 # es'" using d(2) e1(1) by simp
        ultimately show ?thesis using d(4) step by metis
      qed
    qed
  qed
qed auto

text \<open>Each round in which the session grants some window and has a place writes at least a byte.\<close>

lemma granted_poll:
  assumes "tx_send_fut t = None" "data \<noteq> []" "tx_window t \<noteq> 0" "tx_max_packet_size t \<noteq> 0"
  shows "\<exists>n t'. tx_poll_write (Ready True) (take (copy_buffer k) data) t = (Ready (Inr n), t') \<and> 0 < n
    \<and> tx_send_fut t' = None \<and> same_writer t' t"
proof -
  let ?l = "length (take (copy_buffer k) data)"
  have "?l \<noteq> 0" "?l < 2 ^ 32" using assms(2) copy_buffer_size(3) [of k] by auto
  then have "as_u32 ?l \<noteq> 0" by (metis unat_as_u32 unat_0)
  then have w: "min (min (tx_max_packet_size t) (tx_window t)) (as_u32 ?l) \<noteq> 0" using assms(3,4) by (simp add: min_def)
  let ?n = "unat (min (min (tx_max_packet_size t) (tx_window t)) (as_u32 ?l))"
  have "0 < ?n" using w by (simp add: unat_gt_0)
  then show ?thesis
    using assms w
    by (cases "tx_ext t") (auto simp: tx_poll_write_def poll_mk_msg_def poll_writable_def handle_write_result_def Let_def)
qed

lemma copy_data_finishes:
  assumes "tx_send_fut t = None" "w \<noteq> 0" "tx_max_packet_size t \<noteq> 0" "length data \<le> n"
  shows "\<exists>t'. copy_data (concat (replicate n [CopyWindow w, CopyPoll k (Ready True)])) data t = (None, [], t')"
  using assms
proof (induction n arbitrary: data t)
  case (Suc n)
  let ?t = "t\<lparr>tx_window := w\<rparr>"
  show ?case
  proof (cases "data = []")
    case False
    obtain m t' where m: "tx_poll_write (Ready True) (take (copy_buffer k) data) ?t = (Ready (Inr m), t')" "0 < m"
        "tx_send_fut t' = None" "same_writer t' ?t"
      using granted_poll [of ?t data k] Suc.prems False by auto
    have "length (drop m data) \<le> n" using Suc.prems(4) m(2) by simp
    with Suc.IH [of t' "drop m data"] Suc.prems m show ?thesis using False by simp
  qed (simp add: Let_def)
qed simp

section \<open>Properties\<close>

text \<open>Property C35: \<open>data\<close> and \<open>extended_data\<close> of a channel put the bytes that they are given, each once and in order,
  into messages of the channel, none empty and none above the peer's packet size, however often the copy is polled,
  a place in the session's queue must be waited for or the window is changed; a reader of these messages is given
  the bytes that were sent, which are all when the call returns \<open>Ok\<close>; and it does return if the session goes on to
  grant a window and to take messages.\<close>

theorem channel_data_written:
  assumes "send_data ext ch window es data = (r, sent, window')"
  shows "(\<exists>ds rest. data = concat ds @ rest \<and> list_all2 (carries (make_writer_ext ext ch window)) ds sent
      \<and> rx_stream (make_reader_ext ext (map snd sent) live) = concat ds \<and> rx_inv (make_reader_ext ext (map snd sent) live)
      \<and> (r = Ready (Ok ()) \<longrightarrow> rest = []))
    \<and> (w \<noteq> 0 \<and> ch_max_packet_size ch \<noteq> 0 \<longrightarrow>
        fst (send_data ext ch window (concat (replicate (length data) [CopyWindow w, CopyPoll k (Ready True)])) data)
          = Ready (Ok ()))"
proof -
  let ?t = "make_writer_ext ext ch window"
  obtain e rest t' where c: "copy_data es data ?t = (e, rest, t')" by (cases "copy_data es data ?t")
  have t: "tx_holds data ?t" "tx_sent ?t = []" "tx_ext ?t = ext" "tx_send_fut ?t = None"
    "tx_max_packet_size ?t = ch_max_packet_size ch"
    by (simp_all add: tx_holds_def make_writer_ext_def)
  obtain ds where d: "data = concat ds @ rest" "list_all2 (carries ?t) ds sent"
    using copy_data_writes [OF c t(1)] t(2) c assms by (auto simp: send_data_def)
  have "queue_stream ext (map snd sent) = concat ds \<and> (\<forall>m \<in> set (map snd sent). stream_data ext m \<noteq> Some [])"
    using d(2) by induction (auto simp: carries_def t(3))
  then have "rx_stream (make_reader_ext ext (map snd sent) live) = concat ds"
    "rx_inv (make_reader_ext ext (map snd sent) live)"
    by (simp_all add: rx_stream_def rx_inv_def make_reader_ext_def)
  moreover have "r = Ready (Ok ()) \<longrightarrow> rest = []" using assms c by (auto simp: send_data_def split: option.splits if_splits)
  moreover have "fst (send_data ext ch window (concat (replicate (length data) [CopyWindow w, CopyPoll k (Ready True)])) data)
      = Ready (Ok ())" if "w \<noteq> 0" "ch_max_packet_size ch \<noteq> 0"
    using copy_data_finishes [of ?t w data "length data" k] t that by (auto simp: send_data_def)
  ultimately show ?thesis using d by blast
qed

theorem channel_data_written_witness:
  "send_data None \<lparr>ch_id = ChannelId 4, ch_max_packet_size = 2\<rparr> 3
      [CopyPoll 9 (Ready True), CopyPoll 9 Pending, CopyPoll 9 (Ready True), CopyPoll 9 Pending, CopyWindow 5, CopyPoll 0 (Ready True),
       CopyPoll 9 (Ready True)] [1, 2, 3, 4, 5]
    = (Ready (Ok ()), [(ChannelId 4, CmData [1, 2]), (ChannelId 4, CmData [3]), (ChannelId 4, CmData [4]), (ChannelId 4, CmData [5])], 3)
   \<and> rx_stream (make_reader_ext None [CmData [1, 2], CmData [3], CmData [4], CmData [5]] True) = [1, 2, 3, 4, 5]"
proof -
  have s: "send_data None \<lparr>ch_id = ChannelId 4, ch_max_packet_size = 2\<rparr> 3
      [CopyPoll 9 (Ready True), CopyPoll 9 Pending, CopyPoll 9 (Ready True), CopyPoll 9 Pending, CopyWindow 5, CopyPoll 0 (Ready True),
       CopyPoll 9 (Ready True)] [1, 2, 3, 4, 5]
    = (Ready (Ok ()), [(ChannelId 4, CmData [1, 2]), (ChannelId 4, CmData [3]), (ChannelId 4, CmData [4]), (ChannelId 4, CmData [5])], 3)"
    by code_simp
  from channel_data_written [OF s, where live = True and w = 1 and k = 0] s show ?thesis by auto
qed

end
