(* ===== verification/ClientHandle.thy ===== *)
theory ClientHandle
  imports ClientProperties ChannelHandle
begin

text \<open>
  The client's handle (\<open>Handle\<close> of \<open>client/mod.rs\<close>): each method sends a message to the session's task and waits for
  what it answers. The replies (\<open>Reply\<close>) that are still to come are a list whose end is the drop of the session;
  what a \<open>oneshot\<close> receiver is to give is an argument, \<open>None\<close> for a sender that was dropped; its number is one too. A
  method leaves the handle beside its result, since the application keeps it after an error.
\<close>

section \<open>The handle\<close>

record ('key, 'cert, 'pub) client_handle =
  hd_sender :: "('key, 'cert, 'pub) client_msg sender"
  hd_receiver :: "'pub client_reply list"
  hd_channel_buffer_size :: nat

text \<open>\<open>self.sender.send(..).await.map_err(|_| SendError)?\<close>, and what follows it.\<close>

definition hd_call ::
    "('key, 'cert, 'pub) client_msg \<Rightarrow> (('key, 'cert, 'pub) client_handle \<Rightarrow> 'a rs \<times> ('key, 'cert, 'pub) client_handle)
      \<Rightarrow> ('key, 'cert, 'pub) client_handle \<Rightarrow> 'a rs \<times> ('key, 'cert, 'pub) client_handle" where
  "hd_call m f h =
     (case mpsc_send m (hd_sender h) of
        (True, q) \<Rightarrow> f (h\<lparr>hd_sender := q\<rparr>)
      | (False, _) \<Rightarrow> (Err SendError, h))"

definition hd_is_closed :: "('key, 'cert, 'pub) client_handle \<Rightarrow> bool" where
  "hd_is_closed h \<longleftrightarrow> snd_room (hd_sender h) = 0"

section \<open>Authentication\<close>

datatype interactive_response =
    InteractiveSuccess
  | InteractiveFailure method_set bool
  | InteractiveInfoRequest string string "(string \<times> bool) list"

fun wait_reply :: "'pub client_reply list \<Rightarrow> auth_result \<times> 'pub client_reply list" where
  "wait_reply [] = (AuthFailure [] False, [])"
| "wait_reply (RepAuthSuccess # rs) = (AuthSuccess, rs)"
| "wait_reply (RepAuthFailure remaining_methods partial # rs) = (AuthFailure remaining_methods partial, rs)"
| "wait_reply (_ # rs) = wait_reply rs"

fun wait_interactive :: "'pub client_reply list \<Rightarrow> interactive_response rs \<times> 'pub client_reply list" where
  "wait_interactive [] = (Err RecvError, [])"
| "wait_interactive (RepAuthSuccess # rs) = (Ok InteractiveSuccess, rs)"
| "wait_interactive (RepAuthFailure remaining_methods partial # rs) =
     (Ok (InteractiveFailure remaining_methods partial), rs)"
| "wait_interactive (RepAuthInfoRequest name instructions prompts # rs) =
     (Ok (InteractiveInfoRequest name instructions prompts), rs)"
| "wait_interactive (_ # rs) = wait_interactive rs"

definition wait_recv_reply ::
    "('key, 'cert, 'pub) client_handle \<Rightarrow> auth_result rs \<times> ('key, 'cert, 'pub) client_handle" where
  "wait_recv_reply h = (case wait_reply (hd_receiver h) of (x, rs) \<Rightarrow> (Ok x, h\<lparr>hd_receiver := rs\<rparr>))"

definition wait_recv_keyboard_interactive_reply ::
    "('key, 'cert, 'pub) client_handle \<Rightarrow> interactive_response rs \<times> ('key, 'cert, 'pub) client_handle" where
  "wait_recv_keyboard_interactive_reply h =
     (case wait_interactive (hd_receiver h) of (x, rs) \<Rightarrow> (x, h\<lparr>hd_receiver := rs\<rparr>))"

definition authenticate_none ::
    "string \<Rightarrow> ('key, 'cert, 'pub) client_handle \<Rightarrow> auth_result rs \<times> ('key, 'cert, 'pub) client_handle" where
  "authenticate_none user = hd_call (MsgAuthenticate user MethodNone) wait_recv_reply"

definition authenticate_password ::
    "string \<Rightarrow> string \<Rightarrow> ('key, 'cert, 'pub) client_handle \<Rightarrow> auth_result rs \<times> ('key, 'cert, 'pub) client_handle" where
  "authenticate_password user password = hd_call (MsgAuthenticate user (MethodPassword password)) wait_recv_reply"

definition authenticate_keyboard_interactive_start ::
    "string \<Rightarrow> string option \<Rightarrow> ('key, 'cert, 'pub) client_handle
      \<Rightarrow> interactive_response rs \<times> ('key, 'cert, 'pub) client_handle" where
  "authenticate_keyboard_interactive_start user submethods =
     hd_call (MsgAuthenticate user (MethodKeyboardInteractive (case submethods of Some m \<Rightarrow> m | None \<Rightarrow> [])))
       wait_recv_keyboard_interactive_reply"

definition authenticate_keyboard_interactive_respond ::
    "string list \<Rightarrow> ('key, 'cert, 'pub) client_handle \<Rightarrow> interactive_response rs \<times> ('key, 'cert, 'pub) client_handle" where
  "authenticate_keyboard_interactive_respond responses =
     hd_call (MsgAuthInfoResponse responses) wait_recv_keyboard_interactive_reply"

definition authenticate_publickey ::
    "string \<Rightarrow> 'key key_with_hash \<Rightarrow> ('key, 'cert, 'pub) client_handle \<Rightarrow> auth_result rs \<times> ('key, 'cert, 'pub) client_handle" where
  "authenticate_publickey user key = hd_call (MsgAuthenticate user (MethodPublicKey key)) wait_recv_reply"

definition authenticate_openssh_cert ::
    "string \<Rightarrow> 'key \<Rightarrow> 'cert \<Rightarrow> ('key, 'cert, 'pub) client_handle \<Rightarrow> auth_result rs \<times> ('key, 'cert, 'pub) client_handle" where
  "authenticate_openssh_cert user key cert = hd_call (MsgAuthenticate user (MethodOpenSshCertificate key cert)) wait_recv_reply"

text \<open>The loop of \<open>authenticate_publickey_with\<close>. A \<open>Signer\<close> is a function on a state of its own; its errors are those
  of the crate.\<close>

type_synonym ('w, 'pub) signer = "'w \<Rightarrow> 'pub \<Rightarrow> hash_alg option \<Rightarrow> bytes \<Rightarrow> bytes rs \<times> 'w"

fun signing_loop ::
    "('w, 'pub) signer \<Rightarrow> hash_alg option \<Rightarrow> 'pub client_reply list \<Rightarrow> ('key, 'cert, 'pub) client_msg sender \<Rightarrow> 'w
      \<Rightarrow> auth_result rs \<times> 'pub client_reply list \<times> ('key, 'cert, 'pub) client_msg sender \<times> 'w" where
  "signing_loop sign hash_alg [] q w = (Ok (AuthFailure [] False), [], q, w)"
| "signing_loop sign hash_alg (RepAuthSuccess # rs) q w = (Ok AuthSuccess, rs, q, w)"
| "signing_loop sign hash_alg (RepAuthFailure remaining_methods partial # rs) q w =
     (Ok (AuthFailure remaining_methods partial), rs, q, w)"
| "signing_loop sign hash_alg (RepSignRequest key data # rs) q w =
     (case sign w key hash_alg data of
        (Ok data, w) \<Rightarrow>
          (case mpsc_send (MsgSigned data) q of
             (True, q) \<Rightarrow> signing_loop sign hash_alg rs q w
           | (False, q) \<Rightarrow> (Err SendError, rs, q, w))
      | (Err e, w) \<Rightarrow> (Err e, rs, q, w)
      | (Panic, w) \<Rightarrow> (Panic, rs, q, w)
      | (Diverges, w) \<Rightarrow> (Diverges, rs, q, w))"
| "signing_loop sign hash_alg (_ # rs) q w = signing_loop sign hash_alg rs q w"

definition authenticate_publickey_with ::
    "('w, 'pub) signer \<Rightarrow> string \<Rightarrow> 'pub \<Rightarrow> hash_alg option \<Rightarrow> 'w \<Rightarrow> ('key, 'cert, 'pub) client_handle
      \<Rightarrow> auth_result rs \<times> 'w \<times> ('key, 'cert, 'pub) client_handle" where
  "authenticate_publickey_with sign user key hash_alg w h =
     (case mpsc_send (MsgAuthenticate user (MethodFuturePublicKey key hash_alg)) (hd_sender h) of
        (False, _) \<Rightarrow> (Err SendError, w, h)
      | (True, q) \<Rightarrow>
          (case signing_loop sign hash_alg (hd_receiver h) q w of
             (x, rs, q, w) \<Rightarrow> (x, w, h\<lparr>hd_sender := q, hd_receiver := rs\<rparr>)))"

section \<open>The hash for RSA keys\<close>

text \<open>\<open>await_extension_info\<close> with the answer of a timer that runs out after a second, which is not looked at.\<close>

definition await_extension_info ::
    "string \<Rightarrow> nat \<Rightarrow> ('key, 'cert, 'pub) client_handle \<Rightarrow> unit rs \<times> ('key, 'cert, 'pub) client_handle" where
  "await_extension_info extension_name reply_channel =
     hd_call (MsgAwaitExtensionInfo extension_name reply_channel) (\<lambda>h. (Ok (), h))"

definition possible_algs :: "hash_alg option list" where
  "possible_algs = [Some HashSha512, Some HashSha256, None]"

text \<open>\<open>answer\<close> is what the session gives for \<open>GetServerSigAlgs\<close>. The two methods are written out for a platform that
  is not WebAssembly.\<close>

definition best_supported_rsa_hash ::
    "nat \<Rightarrow> nat \<Rightarrow> algorithm list option option \<Rightarrow> ('key, 'cert, 'pub) client_handle
      \<Rightarrow> hash_alg option option rs \<times> ('key, 'cert, 'pub) client_handle" where
  "best_supported_rsa_hash n1 n2 answer h =
     (case await_extension_info ''server-sig-algs'' n1 h of
        (Ok _, h) \<Rightarrow>
          hd_call (MsgGetServerSigAlgs n2)
            (\<lambda>h. (case answer of
                    None \<Rightarrow> Err Inconsistent
                  | Some ssa \<Rightarrow>
                      Ok (case ssa of None \<Rightarrow> None | Some algs \<Rightarrow> find (\<lambda>alg. Rsa alg \<in> set algs) possible_algs), h)) h
      | (Err e, h) \<Rightarrow> (Err e, h)
      | (Panic, h) \<Rightarrow> (Panic, h)
      | (Diverges, h) \<Rightarrow> (Diverges, h))"

section \<open>Channels\<close>

text \<open>The messages that the session is going to send to the new channel are \<open>ms\<close>.\<close>

definition hd_open_channel ::
    "(channel_ref \<Rightarrow> ('key, 'cert, 'pub) client_msg) \<Rightarrow> channel_msg list \<Rightarrow> ('key, 'cert, 'pub) client_handle
      \<Rightarrow> (channel \<times> u32 \<times> channel_msg list) rs \<times> ('key, 'cert, 'pub) client_handle" where
  "hd_open_channel m ms h =
     hd_call (m (channel_ref_new (hd_channel_buffer_size h)))
       (\<lambda>h. (case wait_confirmation ms of (r, q) \<Rightarrow> and_then r (\<lambda>(ch, window). Ok (ch, window, q)), h)) h"

definition handle_channel_open_session where
  "handle_channel_open_session = hd_open_channel MsgChannelOpenSession"

definition handle_channel_open_x11 where
  "handle_channel_open_x11 originator oport = hd_open_channel (MsgChannelOpenX11 originator oport)"

definition handle_channel_open_direct_tcpip where
  "handle_channel_open_direct_tcpip host port originator oport = hd_open_channel (MsgChannelOpenDirectTcpIp host port originator oport)"

definition handle_channel_open_direct_streamlocal where
  "handle_channel_open_direct_streamlocal socket_path = hd_open_channel (MsgChannelOpenDirectStreamLocal socket_path)"

section \<open>Forwarding\<close>

definition handle_tcpip_forward ::
    "nat \<Rightarrow> string \<Rightarrow> u32 \<Rightarrow> u32 option option \<Rightarrow> ('key, 'cert, 'pub) client_handle
      \<Rightarrow> u32 rs \<times> ('key, 'cert, 'pub) client_handle" where
  "handle_tcpip_forward n address port answer =
     hd_call (MsgTcpIpForward (Some n) address port)
       (\<lambda>h. (case answer of Some (Some port) \<Rightarrow> Ok port | Some None \<Rightarrow> Err RequestDenied | None \<Rightarrow> Err DisconnectError, h))"

fun granted_answer :: "bool option \<Rightarrow> unit rs" where
  "granted_answer (Some True) = Ok ()"
| "granted_answer (Some False) = Err RequestDenied"
| "granted_answer None = Err DisconnectError"

definition handle_cancel_tcpip_forward ::
    "nat \<Rightarrow> string \<Rightarrow> u32 \<Rightarrow> bool option \<Rightarrow> ('key, 'cert, 'pub) client_handle \<Rightarrow> unit rs \<times> ('key, 'cert, 'pub) client_handle" where
  "handle_cancel_tcpip_forward n address port answer =
     hd_call (MsgCancelTcpIpForward (Some n) address port) (\<lambda>h. (granted_answer answer, h))"

definition handle_streamlocal_forward ::
    "nat \<Rightarrow> string \<Rightarrow> bool option \<Rightarrow> ('key, 'cert, 'pub) client_handle \<Rightarrow> unit rs \<times> ('key, 'cert, 'pub) client_handle" where
  "handle_streamlocal_forward n socket_path answer =
     hd_call (MsgStreamLocalForward (Some n) socket_path) (\<lambda>h. (granted_answer answer, h))"

definition handle_cancel_streamlocal_forward ::
    "nat \<Rightarrow> string \<Rightarrow> bool option \<Rightarrow> ('key, 'cert, 'pub) client_handle \<Rightarrow> unit rs \<times> ('key, 'cert, 'pub) client_handle" where
  "handle_cancel_streamlocal_forward n socket_path answer =
     hd_call (MsgCancelStreamLocalForward (Some n) socket_path) (\<lambda>h. (granted_answer answer, h))"

section \<open>The rest\<close>

abbreviation hd_tell ::
    "('key, 'cert, 'pub) client_msg \<Rightarrow> ('key, 'cert, 'pub) client_handle \<Rightarrow> unit rs \<times> ('key, 'cert, 'pub) client_handle" where
  "hd_tell m \<equiv> hd_call m (\<lambda>h. (Ok (), h))"

definition handle_disconnect ::
    "disconnect_reason \<Rightarrow> string \<Rightarrow> string \<Rightarrow> ('key, 'cert, 'pub) client_handle \<Rightarrow> unit rs \<times> ('key, 'cert, 'pub) client_handle" where
  "handle_disconnect reason description language_tag = hd_tell (MsgDisconnect reason description language_tag)"

text \<open>\<open>data\<close> gives the data back when the session is gone.\<close>

definition handle_data ::
    "channel_id \<Rightarrow> bytes \<Rightarrow> ('key, 'cert, 'pub) client_handle \<Rightarrow> (bytes + unit) \<times> ('key, 'cert, 'pub) client_handle" where
  "handle_data c data h =
     (case mpsc_send (MsgChannel c (CmData data)) (hd_sender h) of
        (ok, q) \<Rightarrow> (if ok then Inr () else Inl data, h\<lparr>hd_sender := q\<rparr>))"

definition rekey_soon :: "('key, 'cert, 'pub) client_handle \<Rightarrow> unit rs \<times> ('key, 'cert, 'pub) client_handle" where
  "rekey_soon = hd_tell MsgRekey"

definition handle_send_keepalive ::
    "bool \<Rightarrow> ('key, 'cert, 'pub) client_handle \<Rightarrow> unit rs \<times> ('key, 'cert, 'pub) client_handle" where
  "handle_send_keepalive want_reply = hd_tell (MsgKeepalive want_reply)"

text \<open>A ping waits for the pong or for the end of the session, and succeeds in both.\<close>

definition handle_send_ping ::
    "nat \<Rightarrow> ('key, 'cert, 'pub) client_handle \<Rightarrow> unit rs \<times> ('key, 'cert, 'pub) client_handle" where
  "handle_send_ping n = hd_tell (MsgPing n)"

definition handle_no_more_sessions ::
    "bool \<Rightarrow> ('key, 'cert, 'pub) client_handle \<Rightarrow> unit rs \<times> ('key, 'cert, 'pub) client_handle" where
  "handle_no_more_sessions want_reply = hd_tell (MsgNoMoreSessions want_reply)"

end
