(* ===== verification/Opening.thy ===== *)
theory Opening
  imports ClientHandle Defaults
begin

text \<open>
  A channel from the application of the client to that of the server and back: the handle's message, the packet that
  the session makes of it, the server's answer, and what the waiting handle is given. Then what can go wrong between
  the session and an application that is late, or that stops halfway.
\<close>

section \<open>What the client writes\<close>

text \<open>The channels that a client's handle opens, the fields behind the window in the message, and the callback that a
  server asks.\<close>

fun opening_message :: "channel_type \<Rightarrow> channel_ref \<Rightarrow> ('key, 'cert, 'pub) client_msg option" where
  "opening_message CT_Session ref = Some (MsgChannelOpenSession ref)"
| "opening_message (CT_X11 a p) ref = Some (MsgChannelOpenX11 a p ref)"
| "opening_message (CT_DirectTcpip i) ref =
     Some (MsgChannelOpenDirectTcpIp (host_to_connect i) (port_to_connect i) (originator_address i) (originator_port i) ref)"
| "opening_message (CT_DirectStreamLocal path) ref = Some (MsgChannelOpenDirectStreamLocal path ref)"
| "opening_message _ ref = None"

fun client_type_fields :: "wire \<Rightarrow> channel_type \<Rightarrow> bytes rs list" where
  "client_type_fields W (CT_X11 a p) = [w_str W a, w_u32 W p]"
| "client_type_fields W (CT_DirectTcpip i) = tcp_fields W i"
| "client_type_fields W (CT_DirectStreamLocal path) = [w_str W path, w_str W [], w_u32 W 0]"
| "client_type_fields W _ = []"

fun asked_callback ::
    "('h, 'pub, 'cert, 'st, 'z, 'key) handler \<Rightarrow> channel_type \<Rightarrow> 'h \<Rightarrow> channel \<Rightarrow> ('st, 'z, 'key) server_session
      \<Rightarrow> (bool \<times> 'h \<times> ('st, 'z, 'key) server_session) rs" where
  "asked_callback H CT_Session h ch s = h_channel_open_session H h ch s"
| "asked_callback H (CT_X11 a p) h ch s = h_channel_open_x11 H h ch a p s"
| "asked_callback H (CT_DirectTcpip i) h ch s = h_channel_open_direct_tcpip H h ch i s"
| "asked_callback H (CT_DirectStreamLocal path) h ch s = h_channel_open_direct_streamlocal H h ch path s"
| "asked_callback H _ h ch s = Err Inconsistent"

fun handle_opens ::
    "channel_type \<Rightarrow> channel_msg list \<Rightarrow> ('key, 'cert, 'pub) client_handle
      \<Rightarrow> (channel \<times> u32 \<times> channel_msg list) rs \<times> ('key, 'cert, 'pub) client_handle" where
  "handle_opens CT_Session ms g = handle_channel_open_session ms g"
| "handle_opens (CT_X11 a p) ms g = handle_channel_open_x11 a p ms g"
| "handle_opens (CT_DirectTcpip i) ms g =
     handle_channel_open_direct_tcpip (host_to_connect i) (port_to_connect i) (originator_address i) (originator_port i) ms g"
| "handle_opens (CT_DirectStreamLocal path) ms g = handle_channel_open_direct_streamlocal path ms g"
| "handle_opens _ ms g = (Err Inconsistent, g)"

lemma handle_opens_eq:
  "opening_message ty ref = Some m \<Longrightarrow> handle_opens ty ms g = hd_open_channel (\<lambda>ref. the (opening_message ty ref)) ms g"
  by (cases ty) (simp_all add: handle_channel_open_session_def handle_channel_open_x11_def handle_channel_open_direct_tcpip_def
      handle_channel_open_direct_streamlocal_def)

lemma opening_handled:
  "opening_message ty ref = Some m \<Longrightarrow>
    handle_msg V Q now m s
      = cl_keep_ref ref (cl_channel_open_generic (env_wire V) (channel_type_name ty) (client_type_fields (env_wire V) ty) s)"
  by (cases ty) (auto simp: cl_channel_open_session_def cl_channel_open_x11_def cl_channel_open_direct_tcpip_def tcp_fields_def
      cl_channel_open_direct_streamlocal_def)

lemma client_fields_put:
  assumes W: "ssh_wire W" and "sendable_type ty" "opening_message ty ref = Some m"
  shows "\<exists>p rest. puts (client_type_fields W ty) [] = Ok p \<and> parse_channel_type W (channel_type_name ty) p = Ok (ty, rest)"
proof (cases ty)
  case (CT_DirectStreamLocal path)
  let ?e = "be_put W 0 @ be_put W 0"
  have "short_text []" by (simp add: short_text_def)
  then have e: "w_str W [] = Ok (be_put W 0)" using put_text [OF W, of "[]"] by (simp add: as_bytes_def)
  have s: "short_text path" using assms(2) CT_DirectStreamLocal by simp
  then show ?thesis
    using CT_DirectStreamLocal put_text [OF W s] get_text [OF W s, of ?e] e
    by (simp add: parse_channel_type_eqs ssh_wire.put_u32 [OF W])
next
  case (CT_DirectTcpip i)
  then show ?thesis using parse_channel_type_sent [OF assms(1,2), of "[]"] by (auto simp del: puts.simps)
next
  case (CT_X11 a p)
  then show ?thesis using parse_channel_type_sent [OF assms(1,2), of "[]"] by (auto simp del: puts.simps)
qed (use assms parse_channel_type_sent [OF assms(1,2), of "[]"] in \<open>auto simp del: puts.simps\<close>)

definition new_params :: "client_config \<Rightarrow> channel_id \<Rightarrow> channel_params" where
  "new_params cfg c = \<lparr>recipient_channel = 0, sender_channel = c, recipient_window_size = 0,
     sender_window_size = cc_window_size cfg, recipient_maximum_packet_size = 0,
     sender_maximum_packet_size = cc_maximum_packet_size cfg, confirmed = False, chan_wants_reply = False,
     pending_data = [], pending_eof = False, pending_close = False\<rparr>"

lemma opening_written:
  assumes W: "ssh_wire W" and ty: "sendable_type ty" "opening_message ty ref = Some (m :: ('key, 'cert, 'pub) client_msg)"
    and s: "cl_encrypted (s :: ('st, 'z, 'key, 'cert, 'pub) client_session) = Some enc" "enc_state enc = Authenticated"
      "channels enc c0 = None"
  obtains c p rest enc' where
    "cl_channel_open_generic W (channel_type_name ty) (client_type_fields W ty) s = Ok (c, cl_set_encrypted enc' s)"
    "channels enc c = None" "channels enc' = (channels enc)(c \<mapsto> new_params (cl_config s) c)"
    "enc_write enc' = enc_write enc @ frame W (CHANNEL_OPEN # p)" "enc_state enc' = Authenticated"
    "parse_open_channel W p = Ok (\<lparr>oc_typ = ty, oc_recipient_channel = channel_num c,
        oc_recipient_window_size = cc_window_size (cl_config s),
        oc_recipient_maximum_packet_size = cc_maximum_packet_size (cl_config s)\<rparr>, rest)"
proof -
  let ?win = "cc_window_size (cl_config s)" and ?max = "cc_maximum_packet_size (cl_config s)"
  obtain n where n: "free_id (channels enc) (last_channel_id enc + 1) = Some n"
    using free_id_iff [of "channels enc" "last_channel_id enc + 1"] s(3)
    by (cases "free_id (channels enc) (last_channel_id enc + 1)") (blast, simp)
  let ?c = "ChannelId n"
  let ?e1 = "enc\<lparr>last_channel_id := n, channels := (channels enc)(?c \<mapsto> new_params (cl_config s) ?c)\<rparr>"
  have new: "new_channel ?win ?max enc = Ok (?c, ?e1)" by (simp add: new_channel_def n Let_def new_params_def)
  obtain p rest where p: "puts (client_type_fields W ty) [] = Ok p" "parse_channel_type W (channel_type_name ty) p = Ok (ty, rest)"
    using client_fields_put [OF W ty] by blast
  note t = type_name_short [OF ty(1)]
  let ?h = "be_put W (as_u32 (length (channel_type_name ty))) @ as_bytes (channel_type_name ty) @ be_put W n @ be_put W ?win @ be_put W ?max"
  have t': "w_bytes W (as_bytes (channel_type_name ty))
      = Ok (be_put W (as_u32 (length (channel_type_name ty))) @ as_bytes (channel_type_name ty))"
    using t by (simp add: short_text_def ssh_wire.put_bytes [OF W])
  have "puts ([w_u8 W CHANNEL_OPEN, w_bytes W (as_bytes (channel_type_name ty)), encode_channel_id W ?c, w_u32 W ?win, w_u32 W ?max]
      @ client_type_fields W ty) [] = puts (client_type_fields W ty) (CHANNEL_OPEN # ?h)"
    by (simp add: puts_append t' encode_channel_id_def ssh_wire.put_u32 [OF W] ssh_wire.put_u8 [OF W])
  then have put: "puts ([w_u8 W CHANNEL_OPEN, w_bytes W (as_bytes (channel_type_name ty)), encode_channel_id W ?c, w_u32 W ?win, w_u32 W ?max]
      @ client_type_fields W ty) [] = Ok (CHANNEL_OPEN # ?h @ p)"
    using p(1) puts_from_empty [of "client_type_fields W ty" "CHANNEL_OPEN # ?h"] by simp
  let ?enc' = "?e1\<lparr>enc_write := enc_write enc @ frame W (CHANNEL_OPEN # ?h @ p)\<rparr>"
  have "cl_channel_open_generic W (channel_type_name ty) (client_type_fields W ty) s = Ok (?c, cl_set_encrypted ?enc' s)"
    using s new ssh_wire.push_packet_frame [OF W put, of "enc_write ?e1"]
    by (simp add: cl_channel_open_generic_def enc_push_def del: puts.simps)
  moreover have "parse_open_channel W (?h @ p) = Ok (\<lparr>oc_typ = ty, oc_recipient_channel = channel_num ?c,
      oc_recipient_window_size = ?win, oc_recipient_maximum_packet_size = ?max\<rparr>, rest)"
    using p(2) by (simp add: parse_open_channel_def get_text [OF W t] ssh_wire.get_u32 [OF W])
  ultimately show ?thesis
    using that [of ?c ?enc' "?h @ p" rest] free_id_free [OF n] s(2) by simp
qed

section \<open>What the server answers\<close>

lemma opening_answered:
  assumes W: "ssh_wire W" "env_wire V = W" and t: "ss_encrypted (t :: ('st, 'z, 'skey) server_session) = Some senc"
      "enc_state senc = Authenticated" "channels senc d0 = None"
    and p: "parse_open_channel W p = Ok (m, rest)" "opening_message (oc_typ m) ref = Some x"
    and H: "\<And>ch u. asked_callback H (oc_typ m) h ch u = Ok (True, h, u)"
  shows "\<exists>d q sref senc' t1. process_packet V K H now wall (CHANNEL_OPEN # p) h t = Ok (h, t1)
    \<and> t1 = ss_set_encrypted senc' (t\<lparr>ss_channels := (ss_channels t)(d \<mapsto> sref)\<rparr>)
    \<and> enc_write senc' = enc_write senc @ frame W (CHANNEL_OPEN_CONFIRMATION # q)
    \<and> channels senc d = None \<and> channels senc' = (channels senc)(d \<mapsto> opened_params (ss_config t) m d)
    \<and> cr_window sref = oc_recipient_window_size m
    \<and> decode_open_confirmation W q = Ok (\<lparr>coc_recipient_channel = oc_recipient_channel m,
        coc_sender_channel = channel_num d, coc_initial_window_size = sc_window_size (ss_config t),
        coc_maximum_packet_size = sc_maximum_packet_size (ss_config t)\<rparr>, [])"
proof -
  obtain n where n: "free_id (channels senc) (last_channel_id senc + 1) = Some n"
    using free_id_iff [of "channels senc" "last_channel_id senc + 1"] t(3)
    by (cases "free_id (channels senc) (last_channel_id senc + 1)") (blast, simp)
  let ?d = "ChannelId n"
  let ?ch = "opened_params (ss_config t) m ?d"
  let ?e1 = "senc\<lparr>last_channel_id := n\<rparr>"
  obtain chan sref where c: "channel_new ?d (recipient_maximum_packet_size ?ch) (recipient_window_size ?ch)
      (sc_channel_buffer_size (ss_config t)) = (chan, sref)"
    by (cases "channel_new ?d (recipient_maximum_packet_size ?ch) (recipient_window_size ?ch) (sc_channel_buffer_size (ss_config t))")
  obtain q where q: "open_confirm W m n (sc_window_size (ss_config t)) (sc_maximum_packet_size (ss_config t)) (enc_write senc)
        = Ok (enc_write senc @ frame W (CHANNEL_OPEN_CONFIRMATION # q))"
      "decode_open_confirmation W q = Ok (\<lparr>coc_recipient_channel = oc_recipient_channel m,
        coc_sender_channel = n, coc_initial_window_size = sc_window_size (ss_config t),
        coc_maximum_packet_size = sc_maximum_packet_size (ss_config t)\<rparr>, [])"
    using open_confirmation_read [OF W(1), of m n "sc_window_size (ss_config t)" "sc_maximum_packet_size (ss_config t)"
        "enc_write senc" "[]"] by auto
  let ?t = "ss_set_encrypted ?e1 t"
  let ?s = "?t\<lparr>ss_channels := (ss_channels ?t)(?d \<mapsto> sref)\<rparr>"
  let ?senc = "?e1\<lparr>enc_write := enc_write senc @ frame W (CHANNEL_OPEN_CONFIRMATION # q), channels := (channels senc)(?d \<mapsto> ?ch)\<rparr>"
  have ch: "sender_channel ?ch = ?d" "sender_window_size ?ch = sc_window_size (ss_config t)"
    "sender_maximum_packet_size ?ch = sc_maximum_packet_size (ss_config t)"
    by (simp_all add: opened_params_def)
  have "finalize_channel_open W m ?ch True ?s = Ok (ss_set_encrypted ?senc ?s)"
    by (simp add: finalize_channel_open_def with_enc_def q(1) ch ss_set_encrypted_def)
  then have dec: "decide_channel_open W m ?ch sref (asked_callback H (oc_typ m) h chan ?t) = Ok (True, h, ss_set_encrypted ?senc ?s)"
    by (simp add: H decide_channel_open_def ch)
  have "server_handle_channel_open W H p h t = decide_channel_open W m ?ch sref (asked_callback H (oc_typ m) h chan ?t)"
  proof -
    have "ss_config ?t = ss_config t" by (simp add: ss_set_encrypted_def)
    then show ?thesis
      using p t c n by (cases "oc_typ m") (simp_all add: server_handle_channel_open_def new_channel_id_def Let_def)
  qed
  then have "process_packet V K H now wall (CHANNEL_OPEN # p) h t = Ok (h, ss_set_encrypted ?senc ?s)"
    using t W(2) dec by (simp add: process_packet_def server_read_authenticated_def)
  moreover have "ss_set_encrypted ?senc ?s = ss_set_encrypted ?senc (t\<lparr>ss_channels := (ss_channels t)(?d \<mapsto> sref)\<rparr>)"
    by (simp add: ss_set_encrypted_def)
  moreover have "cr_window sref = oc_recipient_window_size m"
    using c by (auto simp: channel_new_def opened_params_def)
  ultimately show ?thesis
    using q(2) free_id_free [OF n] by (intro exI [of _ ?d] exI [of _ q] exI [of _ sref] exI [of _ ?senc]) simp
qed

section \<open>What the handle is given\<close>

lemma confirmation_taken:
  assumes dec: "decode_open_confirmation W q = Ok (m, rest)" and c: "coc_recipient_channel m = channel_num c"
    and s: "cl_encrypted s = Some enc" "channels enc c = Some ch" "cl_channels s c = Some (channel_ref_new n)"
  shows "clt_open_confirmation W H q h s
    = c_channel_open_confirmation H h c (coc_maximum_packet_size m) (coc_initial_window_size m)
        ((cl_set_encrypted (enc\<lparr>channels := (channels enc)(c \<mapsto> confirm_channel m ch)\<rparr>) s)
          \<lparr>cl_channels := (cl_channels s)(c \<mapsto>
             (channel_ref_new n)\<lparr>cr_queue := [CmOpen c (coc_maximum_packet_size m) (coc_initial_window_size m)]\<rparr>)\<rparr>)"
proof -
  have "ChannelId (coc_recipient_channel m) = c" using c by (cases c) simp
  then show ?thesis
    using dec s by (simp add: clt_open_confirmation_def Let_def cl_to_channel_def cl_set_encrypted_def send_ignoring_def chan_send_def
        channel_ref_new_def)
qed

lemma handle_opens_result:
  assumes "opening_message ty (channel_ref_new (hd_channel_buffer_size g)) = Some m" "snd_room (hd_sender g) \<noteq> 0"
  shows "handle_opens ty [CmOpen c maxp win] g
    = (Ok (\<lparr>ch_id = c, ch_max_packet_size = maxp\<rparr>, win, []),
       g\<lparr>hd_sender := \<lparr>snd_sent = snd_sent (hd_sender g) @ [m], snd_room = snd_room (hd_sender g) - 1\<rparr>\<rparr>)"
  using assms by (simp add: handle_opens_eq [OF assms(1)] hd_open_channel_def hd_call_def mpsc_send_def)

text \<open>The two ends of one channel: each knows the other's number, and the windows and packet sizes of each are those that
  the other has announced.\<close>

definition paired :: "channel_params \<Rightarrow> channel_params \<Rightarrow> bool" where
  "paired ch sch \<longleftrightarrow> confirmed ch \<and> confirmed sch
     \<and> recipient_channel ch = channel_num (sender_channel sch) \<and> recipient_channel sch = channel_num (sender_channel ch)
     \<and> recipient_window_size ch = sender_window_size sch \<and> recipient_window_size sch = sender_window_size ch
     \<and> recipient_maximum_packet_size ch = sender_maximum_packet_size sch
     \<and> recipient_maximum_packet_size sch = sender_maximum_packet_size ch
     \<and> pending_data ch = [] \<and> pending_data sch = []"

section \<open>Properties\<close>

text \<open>Property C34: a channel opens from end to end. What the client's handle sends becomes a message that the server reads
  as the request for a channel of the same type; if the server's application accepts, its answer lets the client confirm the
  channel, and the handle is given a channel with the server's packet size and window. Both sessions then have the channel
  under a number that was free, and the two ends fit each other.\<close>

theorem channel_opens:
  fixes V :: "('st, 'z, 'key, 'pub, 'sig) env" and V' :: "('st, 'z, 'skey, 'pub, 'sig) env"
    and s :: "('st, 'z, 'key, 'cert, 'pub) client_session" and t :: "('st, 'z, 'skey) server_session"
    and g :: "('key, 'cert, 'pub) client_handle"
  assumes "ssh_wire W" "env_wire V = W" "env_wire V' = W" and "sendable_type ty"
    and m: "opening_message ty (channel_ref_new (hd_channel_buffer_size g)) = Some m" "snd_room (hd_sender g) \<noteq> 0"
    and s: "cl_encrypted s = Some enc" "enc_state enc = Authenticated" "channels enc c0 = None"
    and t: "ss_encrypted t = Some senc" "enc_state senc = Authenticated" "channels senc d0 = None"
    and H: "\<And>ch u. asked_callback H ty h ch u = Ok (True, h, u)"
    and C: "\<And>c maxp win u. c_channel_open_confirmation C hc c maxp win u = Ok (hc, u)"
  shows "\<exists>c d p q s1 t1 s2 ref enc2 ch senc1 sch.
      handle_msg V Q now m s = Ok s1 \<and> cl_wrote W p s s1
    \<and> process_packet V' K H snow wall p h t = Ok (h, t1) \<and> ss_wrote W q t t1
    \<and> client_process_packet V Q C q hc s1 = Ok (hc, s2)
    \<and> cl_channels s2 c = Some ref
    \<and> handle_opens ty (cr_queue ref) g
        = (Ok (\<lparr>ch_id = c, ch_max_packet_size = sc_maximum_packet_size (ss_config t)\<rparr>, sc_window_size (ss_config t), []),
           g\<lparr>hd_sender := \<lparr>snd_sent = snd_sent (hd_sender g) @ [m], snd_room = snd_room (hd_sender g) - 1\<rparr>\<rparr>)
    \<and> channels enc c = None \<and> cl_encrypted s2 = Some enc2 \<and> channels enc2 = (channels enc)(c \<mapsto> ch) \<and> sender_channel ch = c
    \<and> channels senc d = None \<and> ss_encrypted t1 = Some senc1 \<and> channels senc1 = (channels senc)(d \<mapsto> sch) \<and> sender_channel sch = d
    \<and> paired ch sch"
proof -
  let ?n = "hd_channel_buffer_size g"
  obtain c p rest enc' where o: "cl_channel_open_generic W (channel_type_name ty) (client_type_fields W ty) s = Ok (c, cl_set_encrypted enc' s)"
    "channels enc c = None" "channels enc' = (channels enc)(c \<mapsto> new_params (cl_config s) c)"
    "enc_write enc' = enc_write enc @ frame W (CHANNEL_OPEN # p)" "enc_state enc' = Authenticated"
    "parse_open_channel W p = Ok (\<lparr>oc_typ = ty, oc_recipient_channel = channel_num c,
        oc_recipient_window_size = cc_window_size (cl_config s),
        oc_recipient_maximum_packet_size = cc_maximum_packet_size (cl_config s)\<rparr>, rest)" (is "_ = Ok (?m, _)")
    by (rule opening_written [OF assms(1,4) m(1) s])
  let ?s1 = "(cl_set_encrypted enc' s)\<lparr>cl_channels := (cl_channels s)(c \<mapsto> channel_ref_new ?n)\<rparr>"
  have 1: "handle_msg V Q now m s = Ok ?s1"
    using o(1) assms(2) by (simp add: opening_handled [OF m(1)] cl_keep_ref_def cl_set_encrypted_def)
  have ty: "opening_message (oc_typ ?m) (channel_ref_new ?n) = Some m" "\<And>ch u. asked_callback H (oc_typ ?m) h ch u = Ok (True, h, u)"
    using m(1) H by simp_all
  from opening_answered [OF assms(1,3) t o(6) ty] obtain d q sref senc' t1 where
    a: "process_packet V' K H snow wall (CHANNEL_OPEN # p) h t = Ok (h, t1)"
      "t1 = ss_set_encrypted senc' (t\<lparr>ss_channels := (ss_channels t)(d \<mapsto> sref)\<rparr>)"
      "enc_write senc' = enc_write senc @ frame W (CHANNEL_OPEN_CONFIRMATION # q)"
      "channels senc d = None" "channels senc' = (channels senc)(d \<mapsto> opened_params (ss_config t) ?m d)"
      "decode_open_confirmation W q = Ok (\<lparr>coc_recipient_channel = oc_recipient_channel ?m,
        coc_sender_channel = channel_num d, coc_initial_window_size = sc_window_size (ss_config t),
        coc_maximum_packet_size = sc_maximum_packet_size (ss_config t)\<rparr>, [])" (is "_ = Ok (?q, _)")
    by blast
  have u: "cl_encrypted ?s1 = Some enc'" "channels enc' c = Some (new_params (cl_config s) c)"
    "cl_channels ?s1 c = Some (channel_ref_new ?n)"
    using o(3) by (simp_all add: cl_set_encrypted_def)
  let ?ch = "confirm_channel ?q (new_params (cl_config s) c)"
  let ?ref = "(channel_ref_new ?n)\<lparr>cr_queue := [CmOpen c (coc_maximum_packet_size ?q) (coc_initial_window_size ?q)]\<rparr>"
  let ?s2 = "(cl_set_encrypted (enc'\<lparr>channels := (channels enc')(c \<mapsto> ?ch)\<rparr>) ?s1)\<lparr>cl_channels := (cl_channels ?s1)(c \<mapsto> ?ref)\<rparr>"
  have "clt_open_confirmation W C q hc ?s1 = Ok (hc, ?s2)"
    unfolding confirmation_taken [OF a(6) _ u, simplified] C by simp
  then have 3: "client_process_packet V Q C (CHANNEL_OPEN_CONFIRMATION # q) hc ?s1 = Ok (hc, ?s2)"
    using u(1) o(5) assms(2) by (simp add: client_process_packet_def client_read_authenticated_def)
  have 4: "paired ?ch (opened_params (ss_config t) ?m d)"
    by (simp add: paired_def confirm_channel_def new_params_def opened_params_def)
  show ?thesis
  proof (intro exI conjI)
    show "cl_wrote W (CHANNEL_OPEN # p) s ?s1" using s(1) o(4) by (simp add: cl_wrote_def cl_set_encrypted_def)
    show "ss_wrote W (CHANNEL_OPEN_CONFIRMATION # q) t t1" using t(1) a(2,3) by (simp add: ss_wrote_def ss_set_encrypted_def)
    show "handle_opens ty (cr_queue ?ref) g
        = (Ok (\<lparr>ch_id = c, ch_max_packet_size = sc_maximum_packet_size (ss_config t)\<rparr>, sc_window_size (ss_config t), []),
           g\<lparr>hd_sender := \<lparr>snd_sent = snd_sent (hd_sender g) @ [m], snd_room = snd_room (hd_sender g) - 1\<rparr>\<rparr>)"
      using handle_opens_result [OF m] by simp
    show "ss_encrypted t1 = Some senc'" using a(2) by (simp add: ss_set_encrypted_def)
    show "cl_encrypted ?s2 = Some (enc'\<lparr>channels := (channels enc')(c \<mapsto> ?ch)\<rparr>)" by (simp add: cl_set_encrypted_def)
    show "sender_channel ?ch = c" by (simp add: confirm_channel_def new_params_def)
    show "sender_channel (opened_params (ss_config t) ?m d) = d" by (simp add: opened_params_def)
    show "channels (enc'\<lparr>channels := (channels enc')(c \<mapsto> ?ch)\<rparr>) = (channels enc)(c \<mapsto> ?ch)" using o(3) by simp
    show "cl_channels ?s2 c = Some ?ref" by simp
  qed (fact 1 3 4 a(1,4,5) o(2))+
qed

definition accepting_handler :: "(unit, bytes, unit, unit, unit, unit) handler" where
  "accepting_handler = server_default_handler\<lparr>h_channel_open_session := \<lambda>h ch s. Ok (True, h, s)\<rparr>"

theorem channel_opens_witness:
  "\<exists>c s1 p h t1 s2 ref q.
      handle_msg sample_env sample_client_keys 0 (MsgChannelOpenSession (channel_ref_new 10)) (user_session Authenticated) = Ok s1
    \<and> process_packet sample_env login_certs accepting_handler 0 0 p h sample_served = Ok (h, t1)
    \<and> client_process_packet sample_env sample_client_keys client_default_handler q () s1 = Ok ((), s2) \<and> cl_channels s2 c = Some ref
    \<and> handle_channel_open_session (cr_queue ref)
        (\<lparr>hd_sender = \<lparr>snd_sent = [], snd_room = 1\<rparr>, hd_receiver = [], hd_channel_buffer_size = 10\<rparr>
          :: (unit, unit, bytes) client_handle)
      = (Ok (\<lparr>ch_id = c, ch_max_packet_size = sc_maximum_packet_size (ss_config sample_served)\<rparr>, sc_window_size (ss_config sample_served), []),
         \<lparr>hd_sender = \<lparr>snd_sent = [MsgChannelOpenSession (channel_ref_new 10)], snd_room = 0\<rparr>, hd_receiver = [],
          hd_channel_buffer_size = 10\<rparr>)"
proof -
  let ?g = "\<lparr>hd_sender = \<lparr>snd_sent = [], snd_room = 1\<rparr>, hd_receiver = [], hd_channel_buffer_size = 10\<rparr>
    :: (unit, unit, bytes) client_handle"
  let ?enc = "(sample_encrypted (sample_channel 0))\<lparr>enc_state := Authenticated\<rparr>"
  have m: "opening_message CT_Session (channel_ref_new (hd_channel_buffer_size ?g)) = Some (MsgChannelOpenSession (channel_ref_new 10))"
    "snd_room (hd_sender ?g) \<noteq> 0" by simp_all
  have s: "cl_encrypted (user_session Authenticated) = Some ?enc" "enc_state ?enc = Authenticated" "channels ?enc (ChannelId 7) = None"
    by (simp_all add: user_session_def client_session_new_def sample_encrypted_def)
  have t: "ss_encrypted sample_served = Some (sample_enc\<lparr>enc_state := Authenticated\<rparr>)"
    "enc_state (sample_enc\<lparr>enc_state := Authenticated\<rparr>) = Authenticated"
    "channels (sample_enc\<lparr>enc_state := Authenticated\<rparr>) (ChannelId 7) = None"
    by (simp_all add: sample_served_def ss_set_encrypted_def sample_encrypted_def)
  have H: "asked_callback accepting_handler CT_Session () ch u = Ok (True, (), u)" for ch u
    by (simp add: accepting_handler_def)
  have C: "c_channel_open_confirmation client_default_handler () c maxp win u = Ok ((), u)" for c maxp win u
    by (simp add: client_default_handler_def client_default_channel_open_confirmation_def)
  have e: "sendable_type CT_Session" "env_wire sample_env = W0" by simp_all
  from channel_opens [OF rfc.ssh_wire_axioms e(2) e(2) e(1) m s t H C, of sample_client_keys 0 login_certs 0 0] obtain c p q s1 t1 s2 ref where
    x: "handle_msg sample_env sample_client_keys 0 (MsgChannelOpenSession (channel_ref_new 10)) (user_session Authenticated) = Ok s1"
      "process_packet sample_env login_certs accepting_handler 0 0 p () sample_served = Ok ((), t1)"
      "client_process_packet sample_env sample_client_keys client_default_handler q () s1 = Ok ((), s2)" "cl_channels s2 c = Some ref"
      "handle_opens CT_Session (cr_queue ref) ?g
        = (Ok (\<lparr>ch_id = c, ch_max_packet_size = sc_maximum_packet_size (ss_config sample_served)\<rparr>, sc_window_size (ss_config sample_served), []),
           ?g\<lparr>hd_sender := \<lparr>snd_sent = snd_sent (hd_sender ?g) @ [MsgChannelOpenSession (channel_ref_new 10)], snd_room = snd_room (hd_sender ?g) - 1\<rparr>\<rparr>)"
    by (elim exE conjE) (rule that)
  show ?thesis
    by (intro exI conjI) (rule x(1), rule x(2), rule x(3), rule x(4), use x(5) in simp)
qed

end
