(* ===== verification/ServerHandle.thy ===== *)
theory ServerHandle
  imports ServerProperties ChannelHandle
begin

text \<open>
  The server's handle (\<open>Handle\<close> of \<open>server/session.rs\<close>), by which an application speaks to a client outside of its
  callbacks. It is a sender of messages to the session, shared by its clones, with the size of the buffers of channels;
  an error says only that there was one, or gives the data back. What a \<open>oneshot\<close> receiver is to give is an argument,
  \<open>None\<close> for a sender that was dropped, and so are the messages that a new channel is going to get.
\<close>

record server_handle =
  sh_sender :: "server_msg sender"
  sh_channel_buffer_size :: nat

definition sh_send :: "server_msg \<Rightarrow> server_handle \<Rightarrow> bool \<times> server_handle" where
  "sh_send m h = (case mpsc_send m (sh_sender h) of (ok, q) \<Rightarrow> (ok, h\<lparr>sh_sender := q\<rparr>))"

text \<open>\<open>.map_err(|_| ())\<close>, and an error that gives \<open>x\<close> back.\<close>

definition sh_tell :: "'e \<Rightarrow> server_msg \<Rightarrow> server_handle \<Rightarrow> ('e + unit) \<times> server_handle" where
  "sh_tell e m h = (case sh_send m h of (ok, h) \<Rightarrow> (if ok then Inr () else Inl e, h))"

section \<open>Messages of a channel\<close>

definition sh_data :: "channel_id \<Rightarrow> bytes \<Rightarrow> server_handle \<Rightarrow> (bytes + unit) \<times> server_handle" where
  "sh_data c data = sh_tell data (SmChannel c (CmData data))"

definition sh_extended_data :: "channel_id \<Rightarrow> u32 \<Rightarrow> bytes \<Rightarrow> server_handle \<Rightarrow> (bytes + unit) \<times> server_handle" where
  "sh_extended_data c ext data = sh_tell data (SmChannel c (CmExtendedData data ext))"

definition sh_eof :: "channel_id \<Rightarrow> server_handle \<Rightarrow> (unit + unit) \<times> server_handle" where
  "sh_eof c = sh_tell () (SmChannel c CmEof)"

definition sh_channel_success :: "channel_id \<Rightarrow> server_handle \<Rightarrow> (unit + unit) \<times> server_handle" where
  "sh_channel_success c = sh_tell () (SmChannel c CmSuccess)"

definition sh_channel_failure :: "channel_id \<Rightarrow> server_handle \<Rightarrow> (unit + unit) \<times> server_handle" where
  "sh_channel_failure c = sh_tell () (SmChannel c CmFailure)"

definition sh_close :: "channel_id \<Rightarrow> server_handle \<Rightarrow> (unit + unit) \<times> server_handle" where
  "sh_close c = sh_tell () (SmChannel c CmClose)"

definition sh_xon_xoff_request :: "channel_id \<Rightarrow> bool \<Rightarrow> server_handle \<Rightarrow> (unit + unit) \<times> server_handle" where
  "sh_xon_xoff_request c client_can_do = sh_tell () (SmChannel c (CmXonXoff client_can_do))"

definition sh_exit_status_request :: "channel_id \<Rightarrow> u32 \<Rightarrow> server_handle \<Rightarrow> (unit + unit) \<times> server_handle" where
  "sh_exit_status_request c exit_status = sh_tell () (SmChannel c (CmExitStatus exit_status))"

definition sh_exit_signal_request ::
    "channel_id \<Rightarrow> sig \<Rightarrow> bool \<Rightarrow> string \<Rightarrow> string \<Rightarrow> server_handle \<Rightarrow> (unit + unit) \<times> server_handle" where
  "sh_exit_signal_request c signal_name core_dumped error_message lang_tag =
     sh_tell () (SmChannel c (CmExitSignal signal_name core_dumped error_message lang_tag))"

section \<open>Forwarding\<close>

definition sh_forward_tcpip ::
    "nat \<Rightarrow> string \<Rightarrow> u32 \<Rightarrow> u32 option option \<Rightarrow> server_handle \<Rightarrow> (unit + u32) \<times> server_handle" where
  "sh_forward_tcpip n address port answer h =
     (case sh_send (SmTcpIpForward (Some n) address port) h of
        (False, h) \<Rightarrow> (Inl (), h)
      | (True, h) \<Rightarrow> (case answer of Some (Some port) \<Rightarrow> Inr port | _ \<Rightarrow> Inl (), h))"

definition sh_cancel_forward_tcpip ::
    "nat \<Rightarrow> string \<Rightarrow> u32 \<Rightarrow> bool option \<Rightarrow> server_handle \<Rightarrow> (unit + unit) \<times> server_handle" where
  "sh_cancel_forward_tcpip n address port answer h =
     (case sh_send (SmCancelTcpIpForward (Some n) address port) h of
        (False, h) \<Rightarrow> (Inl (), h)
      | (True, h) \<Rightarrow> (if answer = Some True then Inr () else Inl (), h))"

section \<open>Channels\<close>

definition sh_wait_channel_confirmation :: "channel_msg list \<Rightarrow> (channel \<times> u32 \<times> channel_msg list) rs" where
  "sh_wait_channel_confirmation ms = (case wait_confirmation ms of (r, q) \<Rightarrow> and_then r (\<lambda>(ch, window). Ok (ch, window, q)))"

definition sh_open_channel ::
    "(channel_ref \<Rightarrow> server_msg) \<Rightarrow> channel_msg list \<Rightarrow> server_handle
      \<Rightarrow> (channel \<times> u32 \<times> channel_msg list) rs \<times> server_handle" where
  "sh_open_channel m ms h =
     (case sh_send (m (channel_ref_new (sh_channel_buffer_size h))) h of
        (False, h) \<Rightarrow> (Err SendError, h)
      | (True, h) \<Rightarrow> (sh_wait_channel_confirmation ms, h))"

definition sh_channel_open_agent where
  "sh_channel_open_agent = sh_open_channel SmChannelOpenAgent"

definition sh_channel_open_session where
  "sh_channel_open_session = sh_open_channel SmChannelOpenSession"

definition sh_channel_open_direct_tcpip where
  "sh_channel_open_direct_tcpip host port originator oport =
     sh_open_channel (SmChannelOpenDirectTcpIp
       \<lparr>host_to_connect = host, port_to_connect = port, originator_address = originator, originator_port = oport\<rparr>)"

definition sh_channel_open_direct_streamlocal where
  "sh_channel_open_direct_streamlocal socket_path = sh_open_channel (SmChannelOpenDirectStreamLocal socket_path)"

definition sh_channel_open_forwarded_tcpip where
  "sh_channel_open_forwarded_tcpip connected cport originator oport =
     sh_open_channel (SmChannelOpenForwardedTcpIp
       \<lparr>host_to_connect = connected, port_to_connect = cport, originator_address = originator, originator_port = oport\<rparr>)"

definition sh_channel_open_forwarded_streamlocal where
  "sh_channel_open_forwarded_streamlocal server_socket_path =
     sh_open_channel (SmChannelOpenForwardedStreamLocal server_socket_path)"

definition sh_channel_open_x11 where
  "sh_channel_open_x11 originator oport = sh_open_channel (SmChannelOpenX11 originator oport)"

section \<open>The end\<close>

definition sh_disconnect :: "disconnect_reason \<Rightarrow> string \<Rightarrow> string \<Rightarrow> server_handle \<Rightarrow> unit rs \<times> server_handle" where
  "sh_disconnect reason description language_tag h =
     (case sh_send (SmDisconnect reason description language_tag) h of (ok, h) \<Rightarrow> (if ok then Ok () else Err SendError, h))"

end
