(* ===== verification/Handles.thy ===== *)
theory Handles
  imports Opening ServerHandle
begin

text \<open>
  What an application may expect of its handle, and what it may not: a signature that it makes itself, the hash it should
  use with an RSA key, the order of the calls on its channels, a window that changes before it looks, and calls that the
  other role does not serve.
\<close>

section \<open>Calls on channels\<close>

text \<open>What a handle's messages say of channels.\<close>

locale channel_messages =
  fixes into :: "channel_id \<Rightarrow> channel_msg \<Rightarrow> 'm" and channel_part :: "'m \<Rightarrow> (channel_id \<times> channel_msg) option"
  assumes channel_part_into: "channel_part (into c m) = Some (c, m)"
begin

text \<open>Calls on any channels of the session: they arrive in order, as many as the session takes.\<close>

lemma calls_in_order:
  "List.map_filter channel_part (snd_sent (fold (\<lambda>(w, m) q. snd (send_msg into w m q)) todo q))
    = List.map_filter channel_part (snd_sent q) @ take (snd_room q) (map (\<lambda>(w, m). (ch_id w, m)) todo)"
proof (induction todo arbitrary: q)
  case (Cons x todo)
  obtain w m where x: "x = (w, m)" by (cases x)
  show ?case
    using Cons.IH [of "snd (send_msg into w m q)"]
    by (cases "snd_room q") (simp_all add: x send_msg_def sent_or_error_def mpsc_send_def map_filter_def channel_part_into)
qed simp

end

fun client_channel_part :: "('key, 'cert, 'pub) client_msg \<Rightarrow> (channel_id \<times> channel_msg) option" where
  "client_channel_part (MsgChannel c m) = Some (c, m)"
| "client_channel_part _ = None"

fun server_channel_part :: "server_msg \<Rightarrow> (channel_id \<times> channel_msg) option" where
  "server_channel_part (SmChannel c m) = Some (c, m)"
| "server_channel_part _ = None"

interpretation client_calls: channel_messages MsgChannel client_channel_part
  by unfold_locales simp

interpretation server_calls: channel_messages SmChannel server_channel_part
  by unfold_locales simp

lemma client_calls_in_order:
  "List.map_filter client_channel_part (snd_sent (fold (\<lambda>(w, m) q. snd (send_msg MsgChannel w m q)) todo q))
    = List.map_filter client_channel_part (snd_sent q) @ take (snd_room q) (map (\<lambda>(w, m). (ch_id w, m)) todo)"
  by (rule client_calls.calls_in_order)

lemma server_calls_in_order:
  "List.map_filter server_channel_part (snd_sent (fold (\<lambda>(w, m) q. snd (send_msg SmChannel w m q)) todo q))
    = List.map_filter server_channel_part (snd_sent q) @ take (snd_room q) (map (\<lambda>(w, m). (ch_id w, m)) todo)"
  by (rule server_calls.calls_in_order)

section \<open>A signer\<close>

lemma signing_loop_unsigned:
  "(\<And>key data. RepSignRequest key data \<notin> set rs) \<Longrightarrow>
    signing_loop sign hash_alg rs q w = (case wait_reply rs of (x, rs) \<Rightarrow> (Ok x, rs, q, w))"
proof (induction rs)
  case (Cons r rs)
  then have "(\<And>key data. RepSignRequest key data \<notin> set rs)" by auto
  with Cons show ?case by (cases r) auto
qed simp

lemma await_unsigned: "(\<And>data. MsgSigned data \<notin> set ms) \<Longrightarrow> await_message signed_data ms = Err RecvError"
proof (induction ms)
  case (Cons m ms)
  then have "await_message signed_data ms = Err RecvError" by auto
  moreover have "signed_data m = None" using Cons.prems by (cases m) auto
  ultimately show ?case by simp
qed simp

text \<open>What the session does at the server's \<open>USERAUTH_PK_OK\<close> once the messages of the application are known.\<close>

lemma future_key_awaits:
  assumes "env_wire V = W" "auth_method (cl_common s) = Some (MethodFuturePublicKey key hash_alg)" "cl_handle_listens s"
    "client_make_to_sign W (ssh_of V) Q (enc_session_id enc) (auth_user (cl_common s)) (OfferKey key hash_alg) = Ok (buf, i)"
  shows "(\<And>data. MsgSigned data \<notin> set ms) \<Longrightarrow> client_pk_ok V Q enc (s\<lparr>cl_receiver := ms\<rparr>) = Err RecvError"
    and "length data \<noteq> length buf \<Longrightarrow> i \<le> length data \<Longrightarrow> ssh_wire W \<Longrightarrow>
      \<exists>s'. client_pk_ok V Q enc (s\<lparr>cl_receiver := MsgSigned data # ms\<rparr>) = Ok s' \<and> cl_receiver s' = ms
        \<and> cl_replies s' = cl_replies s @ [RepSignRequest key buf]
        \<and> cl_encrypted s' = Some (enc\<lparr>enc_write := enc_write enc @ frame W (drop i data)\<rparr>)"
proof -
  show "client_pk_ok V Q enc (s\<lparr>cl_receiver := ms\<rparr>) = Err RecvError" if "\<And>data. MsgSigned data \<notin> set ms"
    using assms await_unsigned [OF that] by (simp add: client_pk_ok_def Let_def cl_reply_def cl_set_encrypted_def await_client_def)
  assume d: "length data \<noteq> length buf" "i \<le> length data" and W: "ssh_wire W"
  have "slice_from i data = Ok (drop i data)" using d(2) by (simp add: slice_from_def)
  moreover have "push_packet W [put_raw (drop i data)] (enc_write enc) = Ok (enc_write enc @ frame W (drop i data))"
    by (rule ssh_wire.push_packet_frame [OF W]) simp
  ultimately show "\<exists>s'. client_pk_ok V Q enc (s\<lparr>cl_receiver := MsgSigned data # ms\<rparr>) = Ok s' \<and> cl_receiver s' = ms
        \<and> cl_replies s' = cl_replies s @ [RepSignRequest key buf]
        \<and> cl_encrypted s' = Some (enc\<lparr>enc_write := enc_write enc @ frame W (drop i data)\<rparr>)"
    using assms d by (simp add: client_pk_ok_def Let_def cl_reply_def cl_set_encrypted_def await_client_def enc_push_def)
qed

section \<open>Hashes\<close>

definition chosen_hash :: "algorithm set \<Rightarrow> hash_alg option option" where
  "chosen_hash A =
     (if Rsa (Some HashSha512) \<in> A then Some (Some HashSha512)
      else if Rsa (Some HashSha256) \<in> A then Some (Some HashSha256)
      else if Rsa None \<in> A then Some None else None)"

lemma find_possible: "find (\<lambda>alg. Rsa alg \<in> A) possible_algs = chosen_hash A"
  by (simp add: possible_algs_def chosen_hash_def)

lemma chosen_hash_iff:
  "chosen_hash A = Some alg \<longleftrightarrow> Rsa alg \<in> A
    \<and> (alg = Some HashSha512 \<or> Rsa (Some HashSha512) \<notin> A \<and> (alg = Some HashSha256 \<or> Rsa (Some HashSha256) \<notin> A))"
  by (cases alg rule: option.exhaust; (cases "the alg" rule: hash_alg.exhaust)?) (auto simp: chosen_hash_def)

lemma chosen_hash_none: "chosen_hash A = None \<longleftrightarrow> (\<forall>alg. Rsa alg \<notin> A)"
  unfolding chosen_hash_def by (metis hash_alg.exhaust option.exhaust option.distinct(1))

section \<open>Properties\<close>

text \<open>Property C37: an application that signs itself (\<open>authenticate_publickey_with\<close>). With a signature, the data that it
  gives back, less the session id, is what the session sends, and the call reports the next outcome of the authentication.
  Without one the call returns the signer's error after a single message, the session goes on to wait for the signature, and
  throws away whatever else the application sends, another attempt to authenticate included, until the handle is dropped.\<close>

theorem signer_decides:
  fixes s :: "('st, 'z, 'key, 'cert, 'pub) client_session" and g :: "('key, 'cert, 'pub) client_handle"
  assumes "ssh_wire W" "env_wire V = W" "auth_method (cl_common s) = Some (MethodFuturePublicKey key hash_alg)"
    "cl_handle_listens s"
    "client_make_to_sign W (ssh_of V) Q (enc_session_id enc) (auth_user (cl_common s)) (OfferKey key hash_alg) = Ok (buf, i)"
    and g: "hd_receiver g = RepSignRequest key buf # rs" "\<And>key data. RepSignRequest key data \<notin> set rs" "2 \<le> snd_room (hd_sender g)"
  shows "case sign w key hash_alg buf of
      (Ok data, w') \<Rightarrow> length data \<noteq> length buf \<and> i \<le> length data \<longrightarrow>
        (\<exists>g'. authenticate_publickey_with sign user key hash_alg w g = (Ok (fst (wait_reply rs)), w', g')
            \<and> snd_sent (hd_sender g') = snd_sent (hd_sender g)
                @ [MsgAuthenticate user (MethodFuturePublicKey key hash_alg), MsgSigned data])
        \<and> (\<exists>s'. client_pk_ok V Q enc (s\<lparr>cl_receiver := MsgSigned data # ms\<rparr>) = Ok s' \<and> cl_receiver s' = ms
            \<and> cl_encrypted s' = Some (enc\<lparr>enc_write := enc_write enc @ frame W (drop i data)\<rparr>))
    | (Err e, w') \<Rightarrow>
        (\<exists>g'. authenticate_publickey_with sign user key hash_alg w g = (Err e, w', g')
            \<and> snd_sent (hd_sender g') = snd_sent (hd_sender g) @ [MsgAuthenticate user (MethodFuturePublicKey key hash_alg)])
        \<and> ((\<forall>data. MsgSigned data \<notin> set ms) \<longrightarrow> client_pk_ok V Q enc (s\<lparr>cl_receiver := ms\<rparr>) = Err RecvError)
    | _ \<Rightarrow> True"
proof -
  obtain r w' where r: "sign w key hash_alg buf = (r, w')" by (cases "sign w key hash_alg buf")
  obtain k where k: "snd_room (hd_sender g) = Suc (Suc k)" using g(3) that [of "snd_room (hd_sender g) - 2"] by simp
  obtain x rs' where x: "wait_reply rs = (x, rs')" by (cases "wait_reply rs")
  note send = authenticate_publickey_with_def mpsc_send_def g(1) r k x
  show ?thesis
  proof (cases r)
    case (Ok data)
    have "\<exists>g'. authenticate_publickey_with sign user key hash_alg w g = (Ok (fst (wait_reply rs)), w', g')
        \<and> snd_sent (hd_sender g') = snd_sent (hd_sender g) @ [MsgAuthenticate user (MethodFuturePublicKey key hash_alg), MsgSigned data]"
      using Ok by (simp add: send signing_loop_unsigned [OF g(2)])
    then show ?thesis using r Ok future_key_awaits(2) [OF assms(2-5), of data ms] assms(1) by auto
  next
    case (Err e)
    then show ?thesis using r future_key_awaits(1) [OF assms(2-5), of ms] by (simp add: send)
  qed (use r in simp_all)
qed

definition signing_session :: "(unit, unit, unit, unit, bytes) client_session" where
  "signing_session = (user_session Authenticated)\<lparr>cl_common :=
     (cl_common (user_session Authenticated))\<lparr>auth_method := Some (MethodFuturePublicKey [11] None), auth_user := ''a''\<rparr>\<rparr>"

theorem signer_decides_witness:
  "\<exists>buf i g'.
      client_make_to_sign W0 sample_ssh sample_client_keys [] ''a'' (OfferKey [11] None) = Ok (buf, i)
    \<and> authenticate_publickey_with (\<lambda>w key hash_alg data. (Err SignatureError, w)) ''a'' [11] None ()
        (\<lparr>hd_sender = \<lparr>snd_sent = [], snd_room = 9\<rparr>, hd_receiver = [RepSignRequest [11] buf], hd_channel_buffer_size = 10\<rparr>
          :: (unit, unit, bytes) client_handle)
      = (Err SignatureError, (), g')
    \<and> client_pk_ok sample_env sample_client_keys ((sample_encrypted (sample_channel 0))\<lparr>enc_session_id := []\<rparr>)
        (signing_session\<lparr>cl_receiver := [MsgAuthenticate ''a'' (MethodPassword ''b''), MsgRekey]\<rparr>) = Err RecvError"
proof -
  let ?sign = "\<lambda>w (key :: bytes) (hash_alg :: hash_alg option) (data :: bytes). (Err SignatureError :: bytes rs, w :: unit)"
  let ?ms = "[MsgAuthenticate ''a'' (MethodPassword ''b''), MsgRekey] :: (unit, unit, bytes) client_msg list"
  let ?enc = "(sample_encrypted (sample_channel 0))\<lparr>enc_session_id := []\<rparr>"
  obtain buf i where b: "client_make_to_sign W0 sample_ssh sample_client_keys [] ''a'' (OfferKey [11] None) = Ok (buf, i)"
    using sample_login.to_sign [of "''a''" "[]"] by (simp add: offer_of_key_def sample_key_def sample_ssh_def short_text_def ascii_def)
  let ?g = "\<lparr>hd_sender = \<lparr>snd_sent = [], snd_room = 9\<rparr>, hd_receiver = [RepSignRequest [11] buf], hd_channel_buffer_size = 10\<rparr>
    :: (unit, unit, bytes) client_handle"
  have e: "env_wire sample_env = W0" "auth_method (cl_common signing_session) = Some (MethodFuturePublicKey [11] None)"
      "cl_handle_listens signing_session"
      "client_make_to_sign W0 (ssh_of sample_env) sample_client_keys (enc_session_id ?enc) (auth_user (cl_common signing_session))
        (OfferKey [11] None) = Ok (buf, i)"
    using b by (simp_all add: signing_session_def user_session_def client_session_new_def sample_env_def)
  have g: "hd_receiver ?g = RepSignRequest [11] buf # []" "RepSignRequest key data \<notin> set []" "2 \<le> snd_room (hd_sender ?g)" for key data
    by simp_all
  have "(\<exists>g'. authenticate_publickey_with ?sign ''a'' [11] None () ?g = (Err SignatureError, (), g'))
      \<and> client_pk_ok sample_env sample_client_keys ?enc (signing_session\<lparr>cl_receiver := ?ms\<rparr>) = Err RecvError"
    using signer_decides [OF rfc.ssh_wire_axioms e g, where sign = ?sign and w = "()" and user = "''a''" and ms = ?ms] by auto
  with b show ?thesis by blast
qed

text \<open>\<open>best_supported_rsa_hash\<close> returns, of what the server announced, the first of SHA-512, SHA-256 and the
  plain \<open>ssh-rsa\<close> (\<open>Some None\<close>), and nothing when none of them is announced: a server that announces its algorithms
  without any for RSA looks like one that does not announce them. If the session goes away meanwhile it is an error.\<close>

theorem rsa_hash_chosen:
  fixes s :: "('st, 'z, 'key, 'cert, 'pub) client_session" and g :: "('key, 'cert, 'pub) client_handle"
  assumes "handle_msg V Q now (MsgGetServerSigAlgs n2) s = Ok s1" "2 \<le> snd_room (hd_sender g)"
  shows "\<exists>answer g'. cl_sig_algs_sent s1 = cl_sig_algs_sent s @ [(n2, answer)]
    \<and> snd_sent (hd_sender g') = snd_sent (hd_sender g) @ [MsgAwaitExtensionInfo ''server-sig-algs'' n1, MsgGetServerSigAlgs n2]
    \<and> (\<exists>r. best_supported_rsa_hash n1 n2 (Some answer) g = (Ok r, g')
        \<and> (\<forall>alg. r = Some alg \<longleftrightarrow> (\<exists>algs. answer = Some algs \<and> Rsa alg \<in> set algs
             \<and> (alg = Some HashSha512 \<or> Rsa (Some HashSha512) \<notin> set algs \<and> (alg = Some HashSha256 \<or> Rsa (Some HashSha256) \<notin> set algs))))
        \<and> (r = None \<longleftrightarrow> (\<forall>algs. answer = Some algs \<longrightarrow> (\<forall>alg. Rsa alg \<notin> set algs))))
    \<and> best_supported_rsa_hash n1 n2 None g = (Err Inconsistent, g')"
proof -
  obtain k where k: "snd_room (hd_sender g) = Suc (Suc k)" using assms(2) that [of "snd_room (hd_sender g) - 2"] by simp
  let ?answer = "cl_server_sig_algs s"
  let ?g = "g\<lparr>hd_sender := \<lparr>snd_sent = snd_sent (hd_sender g) @ [MsgAwaitExtensionInfo ''server-sig-algs'' n1, MsgGetServerSigAlgs n2],
    snd_room = k\<rparr>\<rparr>"
  let ?r = "case ?answer of None \<Rightarrow> None | Some algs \<Rightarrow> chosen_hash (set algs)"
  have b: "best_supported_rsa_hash n1 n2 (Some ?answer) g = (Ok ?r, ?g)" "best_supported_rsa_hash n1 n2 None g = (Err Inconsistent, ?g)"
    by (simp_all add: best_supported_rsa_hash_def await_extension_info_def hd_call_def mpsc_send_def k find_possible split: option.split)
  have r: "?r = Some alg \<longleftrightarrow> (\<exists>algs. ?answer = Some algs \<and> Rsa alg \<in> set algs
      \<and> (alg = Some HashSha512 \<or> Rsa (Some HashSha512) \<notin> set algs \<and> (alg = Some HashSha256 \<or> Rsa (Some HashSha256) \<notin> set algs)))"
    "?r = None \<longleftrightarrow> (\<forall>algs. ?answer = Some algs \<longrightarrow> (\<forall>alg. Rsa alg \<notin> set algs))" for alg
    by (cases ?answer; simp add: chosen_hash_iff) (cases ?answer; simp add: chosen_hash_none)
  have "cl_sig_algs_sent s1 = cl_sig_algs_sent s @ [(n2, ?answer)]" using assms(1) by auto
  with b r show ?thesis
    by (intro exI [of _ ?answer] exI [of _ ?g] conjI exI [of _ ?r] allI) (assumption | simp)+
qed

theorem rsa_hash_chosen_witness:
  "fst (best_supported_rsa_hash 0 1 (Some (Some [Ed25519, Rsa None, Rsa (Some HashSha256)]))
     (\<lparr>hd_sender = \<lparr>snd_sent = [], snd_room = 2\<rparr>, hd_receiver = [], hd_channel_buffer_size = 10\<rparr> :: (unit, unit, bytes) client_handle))
   = Ok (Some (Some HashSha256))"
proof -
  let ?g = "\<lparr>hd_sender = \<lparr>snd_sent = [], snd_room = 2\<rparr>, hd_receiver = [], hd_channel_buffer_size = 10\<rparr> :: (unit, unit, bytes) client_handle"
  let ?s = "(user_session Authenticated)\<lparr>cl_server_sig_algs := Some [Ed25519, Rsa None, Rsa (Some HashSha256)]\<rparr>"
  let ?s1 = "?s\<lparr>cl_sig_algs_sent := cl_sig_algs_sent ?s @ [(1, cl_server_sig_algs ?s)]\<rparr>"
  have h: "handle_msg sample_env sample_client_keys 0 (MsgGetServerSigAlgs 1) ?s = Ok ?s1" by simp
  from rsa_hash_chosen [OF h, of ?g 0] obtain g' r where
    "best_supported_rsa_hash 0 1 (Some (Some [Ed25519, Rsa None, Rsa (Some HashSha256)])) ?g = (Ok r, g')"
    "r = Some (Some HashSha256)"
    by auto
  then show ?thesis by simp
qed

text \<open>Property C38: an application that looks late at the confirmation of its channel loses the window granted since. The
  session confirms a channel with a window of nothing and then receives a grant: the client's session has it, and so has the window
  that the channel shares; but the waiting handle stores the window of the confirmation over it, after which a writer of
  the channel waits, whatever it is asked to write.\<close>

theorem late_application_loses_window:
  fixes s :: "('st, 'z, 'key, 'cert, 'pub) client_session" and h :: 'h
  assumes W: "ssh_wire W" and m: "decode_open_confirmation W q = Ok (m, rest)" "coc_recipient_channel m = channel_num c"
      "coc_initial_window_size m = 0"
    and s: "cl_encrypted s = Some enc" "channels enc c = Some ch" "cl_channels s c = Some (channel_ref_new n)"
      "pending_data ch = []" "\<not> pending_eof ch" "\<not> pending_close ch"
  shows "\<exists>s2 s3 enc3 ch3 ref ref' chan.
      clt_open_confirmation W client_default_handler q h s = Ok (h, s2)
    \<and> clt_window_adjust W client_default_handler (be_put W (channel_num c) @ be_put W amount) h s2 = Ok (h, s3)
    \<and> cl_encrypted s3 = Some enc3 \<and> channels enc3 c = Some ch3 \<and> recipient_window_size ch3 = amount
    \<and> cl_channels s3 c = Some ref \<and> cr_window ref = amount
    \<and> take_confirmation ref = (Ok chan, ref') \<and> cr_window ref' = 0
    \<and> (\<forall>place b bs ext. fst (tx_poll_write place (b # bs) (make_writer_ext ext chan (cr_window ref'))) = Pending)"
proof -
  let ?ch = "confirm_channel m ch"
  let ?enc = "enc\<lparr>channels := (channels enc)(c \<mapsto> ?ch)\<rparr>"
  let ?ref = "(channel_ref_new n)\<lparr>cr_queue := [CmOpen c (coc_maximum_packet_size m) 0]\<rparr>"
  let ?s2 = "(cl_set_encrypted ?enc s)\<lparr>cl_channels := (cl_channels s)(c \<mapsto> ?ref)\<rparr>"
  have 2: "clt_open_confirmation W client_default_handler q h s = Ok (h, ?s2)"
    by (simp add: confirmation_taken [OF m(1,2) s(1-3)] m(3) client_default_handler_def client_default_channel_open_confirmation_def)
  let ?ch3 = "?ch\<lparr>recipient_window_size := amount, pending_data := []\<rparr>"
  let ?enc3 = "enc\<lparr>channels := (channels enc)(c \<mapsto> ?ch3)\<rparr>"
  have "unat amount < 2 ^ LENGTH(32)" by (rule unsigned_less)
  then have u: "unat amount < 4294967296" by simp
  have "client_window_adjust W c amount ?enc = Ok (Some amount, ?enc3)"
    using s(4-6) m(3) u
    by (simp add: client_window_adjust_def confirm_channel_def saturating_add_u32_def flush_pending_def flush_channel_def
        flush_complete_def Let_def)
  moreover have "decode_channel_id W (be_put W (channel_num c) @ be_put W amount) = Ok (c, be_put W amount)"
    using ssh_wire.get_u32 [OF W, of "channel_num c" "be_put W amount"] by (cases c) (simp add: decode_channel_id_def)
  moreover have "r_u32 W (be_put W amount) = Ok (amount, [])" using ssh_wire.get_u32 [OF W, of amount "[]"] by simp
  ultimately obtain ref where 3: "clt_window_adjust W client_default_handler (be_put W (channel_num c) @ be_put W amount) h ?s2
      = Ok (h, (cl_set_encrypted ?enc3 s)\<lparr>cl_channels := (cl_channels s)(c \<mapsto> ref)\<rparr>)"
    "cr_window ref = amount" "\<exists>r. cr_queue ref = CmOpen c (coc_maximum_packet_size m) 0 # r"
    by (auto simp: clt_window_adjust_def client_default_handler_def client_default_window_adjusted_def cl_set_encrypted_def
        window_update_def chan_try_send_def channel_ref_new_def Let_def split: if_splits)
  let ?chan = "\<lparr>ch_id = c, ch_max_packet_size = coc_maximum_packet_size m\<rparr>"
  obtain ref' where r: "take_confirmation ref = (Ok ?chan, ref')" "cr_window ref' = 0"
    using 3(3) by (auto simp: take_confirmation_def window_update_def)
  have "fst (tx_poll_write place (b # bs) (make_writer_ext ext ?chan 0)) = Pending" for place b bs ext
    by (simp add: tx_poll_write_def poll_mk_msg_def poll_writable_def make_writer_ext_def Let_def)
  with 2 3 r show ?thesis
    by (intro exI [of _ ?s2] exI [of _ "(cl_set_encrypted ?enc3 s)\<lparr>cl_channels := (cl_channels s)(c \<mapsto> ref)\<rparr>"]
        exI [of _ ?enc3] exI [of _ ?ch3] exI [of _ ref] exI [of _ ref'] exI [of _ ?chan]) (simp add: cl_set_encrypted_def)
qed

theorem late_application_loses_window_witness:
  "\<exists>s2 s3 ref ref' chan.
      clt_open_confirmation W0 client_default_handler (be_put W0 2 @ be_put W0 5 @ be_put W0 0 @ be_put W0 100) ()
        ((user_session Authenticated)\<lparr>cl_channels := [ChannelId 2 \<mapsto> channel_ref_new 10]\<rparr>) = Ok ((), s2)
    \<and> clt_window_adjust W0 client_default_handler (be_put W0 2 @ be_put W0 7) () s2 = Ok ((), s3)
    \<and> cl_channels s3 (ChannelId 2) = Some ref \<and> cr_window ref = 7
    \<and> take_confirmation ref = (Ok chan, ref')
    \<and> fst (tx_poll_write (Ready True) [1, 2] (make_writer_ext None chan (cr_window ref'))) = Pending"
proof -
  let ?s = "(user_session Authenticated)\<lparr>cl_channels := [ChannelId 2 \<mapsto> channel_ref_new 10]\<rparr>"
  let ?q = "be_put W0 2 @ be_put W0 5 @ be_put W0 0 @ be_put W0 100"
  let ?m = "\<lparr>coc_recipient_channel = 2, coc_sender_channel = 5, coc_initial_window_size = 0, coc_maximum_packet_size = 100\<rparr>"
  have m: "decode_open_confirmation W0 ?q = Ok (?m, [])" "coc_recipient_channel ?m = channel_num (ChannelId 2)"
    "coc_initial_window_size ?m = 0"
    by (simp_all add: decode_open_confirmation_def ssh_wire.get_u32 [OF rfc.ssh_wire_axioms]
        ssh_wire.get_u32 [OF rfc.ssh_wire_axioms, of _ "[]", simplified])
  have s: "cl_encrypted ?s = Some ((sample_encrypted (sample_channel 0))\<lparr>enc_state := Authenticated\<rparr>)"
    "channels ((sample_encrypted (sample_channel 0))\<lparr>enc_state := Authenticated\<rparr>) (ChannelId 2) = Some (sample_channel 0)"
    "cl_channels ?s (ChannelId 2) = Some (channel_ref_new 10)" "pending_data (sample_channel 0) = []"
    "\<not> pending_eof (sample_channel 0)" "\<not> pending_close (sample_channel 0)"
    by (simp_all add: user_session_def client_session_new_def)
  from late_application_loses_window [OF rfc.ssh_wire_axioms m s, of "()" 7] obtain s2 s3 ref ref' chan where
    x: "clt_open_confirmation W0 client_default_handler ?q () ?s = Ok ((), s2)"
      "clt_window_adjust W0 client_default_handler (be_put W0 (channel_num (ChannelId 2)) @ be_put W0 7) () s2 = Ok ((), s3)"
      "cl_channels s3 (ChannelId 2) = Some ref" "cr_window ref = 7" "take_confirmation ref = (Ok chan, ref')"
      "\<forall>place b bs ext. fst (tx_poll_write place (b # bs) (make_writer_ext ext chan (cr_window ref'))) = Pending"
    by blast
  show ?thesis
    by (intro exI conjI) (rule x(1), use x(2) in simp, rule x(3), rule x(4), rule x(5), use x(6) in blast)
qed

text \<open>Some methods that every channel has end the session. A client that reports an exit status, or a server
  that requests a terminal, a shell, a command, ..., on a channel is told that the message was sent, and the session that takes
  it panics.\<close>

definition sends_panic ::
    "(channel_id \<Rightarrow> channel_msg \<Rightarrow> 'm) \<Rightarrow> ('m \<Rightarrow> 's rs) \<Rightarrow> ('m sender \<Rightarrow> unit rs \<times> 'm sender) \<Rightarrow> 'm sender \<Rightarrow> bool" where
  "sends_panic into serve call q \<longleftrightarrow>
     fst (call q) = Ok () \<and> snd_sent (snd (call q)) \<noteq> [] \<and> serve (last (snd_sent (snd (call q)))) = Panic"

theorem misplaced_calls_panic:
  assumes "snd_room q \<noteq> 0" "snd_room r \<noteq> 0"
  shows "sends_panic MsgChannel (\<lambda>m. handle_msg V Q now m s) (ch_exit_status MsgChannel w status) q
    \<and> list_all (\<lambda>call. sends_panic SmChannel (\<lambda>m. application_message W m t) (call w) r)
        [\<lambda>w. ch_request_pty SmChannel w want_reply term cols rows pw ph modes, \<lambda>w. ch_request_shell SmChannel w want_reply,
         \<lambda>w. ch_exec SmChannel w want_reply command, \<lambda>w. ch_signal SmChannel w signal, \<lambda>w. ch_request_subsystem SmChannel w want_reply name,
         \<lambda>w. ch_request_x11 SmChannel w want_reply single protocol cookie screen, \<lambda>w. ch_set_env SmChannel w want_reply name val,
         \<lambda>w. ch_window_change SmChannel w cols rows pw ph, \<lambda>w. ch_agent_forward SmChannel w want_reply]"
  using assms
  by (simp add: sends_panic_def send_msg_def sent_or_error_def mpsc_send_def ch_exit_status_def ch_request_pty_def
      ch_request_shell_def ch_exec_def ch_signal_def ch_request_subsystem_def ch_request_x11_def ch_set_env_def
      ch_window_change_def ch_agent_forward_def)

theorem misplaced_calls_panic_witness:
  "sends_panic MsgChannel (\<lambda>m. handle_msg sample_env sample_client_keys 0 m (user_session Authenticated))
     (ch_exit_status MsgChannel \<lparr>ch_id = ChannelId 2, ch_max_packet_size = 9\<rparr> 0) \<lparr>snd_sent = [], snd_room = 1\<rparr>
   \<and> sends_panic SmChannel (\<lambda>m. application_message W0 m sample_served)
     (ch_request_shell SmChannel \<lparr>ch_id = ChannelId 2, ch_max_packet_size = 9\<rparr> True) \<lparr>snd_sent = [], snd_room = 1\<rparr>"
  using misplaced_calls_panic [of "\<lparr>snd_sent = [], snd_room = 1\<rparr> :: (unit, unit, bytes) client_msg sender"
      "\<lparr>snd_sent = [], snd_room = 1\<rparr> :: server_msg sender" sample_env sample_client_keys 0 "user_session Authenticated"
      "\<lparr>ch_id = ChannelId 2, ch_max_packet_size = 9\<rparr>" 0 W0 sample_served True]
  by (simp del: handle_msg.simps application_message.simps)

end
