(* ===== verification/AgentSigner.thy ===== *)
theory AgentSigner
  imports AgentLink Handles
begin

text \<open>
  An agent as the signer of a client (\<open>auth.rs\<close>): the trait \<open>Signer\<close> implemented by the agent's client. The lemmas follow
  a signature from the agent to the packet that the client's session sends.
\<close>

text \<open>After an error the client is the one it was.\<close>

definition agent_auth_publickey_sign ::
    "wire \<Rightarrow> ('pub \<Rightarrow> algorithm) \<Rightarrow> ('key, 'pub) agent_crates \<Rightarrow> 's agent_stream \<Rightarrow> ('s agent_client, 'pub) signer" where
  "agent_auth_publickey_sign W alg G T c key hash_alg to_sign =
     (case client_sign_request W alg G T key hash_alg to_sign c of
        Ok (data, c) \<Rightarrow> (Ok data, c)
      | Err e \<Rightarrow> (Err e, c)
      | Panic \<Rightarrow> (Panic, c)
      | Diverges \<Rightarrow> (Diverges, c))"

section \<open>The agent's signature\<close>

context agent_keys
begin

text \<open>The agent signs with the key alone, whatever hash the request's flags ask for: a signature that is not of the
  kind asked for is refused by the agent's client.\<close>

lemma sign_request_data:
  assumes "idle l" "\<not> is_locked (lk_store l)" "asked A"
    and key: "store_keys (lk_store l) blob = Some (key, time, cs)" "pub_blob G p = Ok blob"
    and sig: "sign_with_hash_alg S (key_with_hash_new S key None) data = Ok sg" "sg = text_field W t @ blob_field W s" "short_text t"
    and size: "length blob + length data + 13 < 2 ^ 32" "length sg + 5 < 2 ^ 32"
  shows "hash_flag (alg p) h = 0 \<Longrightarrow>
      \<exists>c. client_sign_request W alg G (link_stream W S G A iter now) p h data \<lparr>ac_stream = l, ac_buf = b\<rparr>
        = Ok (data @ blob_field W sg, \<lparr>ac_stream = l, ac_buf = c\<rparr>)"
    and "hash_flag (alg p) h \<noteq> 0 \<Longrightarrow> t \<noteq> ''rsa-sha2-256'' \<Longrightarrow> t \<noteq> ''rsa-sha2-512'' \<Longrightarrow>
      client_sign_request W alg G (link_stream W S G A iter now) p h data \<lparr>ac_stream = l, ac_buf = b\<rparr> = Err (Keys AgentProtocolError)"
proof -
  define f where "f = hash_flag (alg p) h"
  define r where "r = be_put W (as_u32 (length blob)) @ blob @ be_put W (as_u32 (length data)) @ data @ be_put W f"
  define q where "q = SIGN_RESPONSE # be_put W (as_u32 (length sg)) @ sg"
  have req: "puts [w_u8 W SIGN_REQUEST, and_then (pub_blob G p) (w_bytes W), w_bytes W data, w_u32 W f] [] = Ok (SIGN_REQUEST # r)"
    using size(1) by (simp add: key(2) laws r_def)
  have len: "length (SIGN_REQUEST # r) < 2 ^ 32" "length q < 2 ^ 32" using size by (simp_all add: r_def q_def be_put_length)
  have "try_sign_request W S r [0, 0, 0, 0] (lk_store l) = Ok (Some (frame W q))"
    using size set_length_frame by (simp add: try_sign_request_def r_def laws key sig(1) q_def)
  then have "respond W S G A iter now False (SIGN_REQUEST # r) (lk_agent l) (lk_store l) = Ok (frame W q, lk_agent l, lk_store l)"
    by (simp add: respond_def request_type_def assms(3) [unfolded asked_def] agent_numbers)
  with exchange [OF assms(1) len, of S G A iter now "lk_agent l" "lk_store l"] assms(2) have
    ex: "read_response W (link_stream W S G A iter now) \<lparr>ac_stream = l, ac_buf = frame W (SIGN_REQUEST # r)\<rparr> = Ok \<lparr>ac_stream = l, ac_buf = q\<rparr>"
    by (cases l) simp
  have l: "length s < 2 ^ 32" "length sg = length t + length s + 8"
    using size(2) sig(2) by (simp_all add: text_field_def blob_field_def be_put_length)
  have b: "blob_field W sg = be_put W (as_u32 (length sg)) @ text_field W t @ blob_field W s"
    unfolding sig(2) [symmetric] by (simp add: blob_field_def)
  have "w_usize W (length t + length s + 8) = Ok (be_put W (as_u32 (length sg)))"
    using put_usize [of "length sg"] size(2) by (simp only: l(2))
  moreover have "r_bytes W (drop 1 q) = Ok (sg, [])" using get_bytes [of sg "[]"] size(2) by (simp add: q_def)
  moreover have "r_str W sg = Ok (t, blob_field W s)" unfolding sig(2) by (rule get_text_field [OF sig(3)])
  ultimately have sig: "f = 0 \<Longrightarrow> write_signature W (drop 1 q) f data = Ok (data @ blob_field W sg)"
    "f \<noteq> 0 \<Longrightarrow> t \<noteq> ''rsa-sha2-256'' \<Longrightarrow> t \<noteq> ''rsa-sha2-512'' \<Longrightarrow> write_signature W (drop 1 q) f data = Err (Keys AgentProtocolError)"
    using get_last_blob [OF l(1)] put_text_field [OF sig(3)] put_blob_field [OF l(1)]
    by (simp_all add: write_signature_def b)
  note request = agent_request_frame [OF req] ex
  show "\<exists>c. client_sign_request W alg G (link_stream W S G A iter now) p h data \<lparr>ac_stream = l, ac_buf = b\<rparr>
      = Ok (data @ blob_field W sg, \<lparr>ac_stream = l, ac_buf = c\<rparr>)" if "hash_flag (alg p) h = 0"
    using request sig(1) that by (simp add: client_sign_request_def prepare_sign_request_def f_def [symmetric] q_def Let_def)
  show "client_sign_request W alg G (link_stream W S G A iter now) p h data \<lparr>ac_stream = l, ac_buf = b\<rparr> = Err (Keys AgentProtocolError)"
    if "hash_flag (alg p) h \<noteq> 0" "t \<noteq> ''rsa-sha2-256''" "t \<noteq> ''rsa-sha2-512''"
    using request sig(2) that by (simp add: client_sign_request_def prepare_sign_request_def f_def [symmetric] q_def Let_def)
qed

end

lemma to_sign_length: "client_make_to_sign W S Q sid user k = Ok (buf, i) \<Longrightarrow> i \<le> length buf"
  unfolding client_make_to_sign_def and_then_eq_Ok
  by (elim exE conjE) (subst (asm) (2) puts_from_empty, auto simp: outcome_simps)

text \<open>Where the flag is zero, the hash has no part in what the client itself signs.\<close>

lemma no_flag_no_hash:
  assumes "hash_flag (key_algorithm S key) h = 0"
  shows "h = None \<or> \<not> is_rsa (key_algorithm S key)"
  using assms by (cases h) (auto simp: hash_flag_def split: hash_alg.splits if_splits)

lemma with_hash_alg_plain: "\<not> is_rsa a \<Longrightarrow> with_hash_alg a h = a"
  by (cases a) auto

lemma key_with_hash_plain:
  assumes "h = None \<or> \<not> is_rsa (key_algorithm S key)"
  shows "sign_with_hash_alg S (key_with_hash_new S key h) data = sign_with_hash_alg S (key_with_hash_new S key None) data"
    and "pub_algorithm Q (public_of S key) = key_algorithm S key \<Longrightarrow>
      client_make_to_sign W S Q sid user (offer_of_key S (key_with_hash_new S key h))
        = client_make_to_sign W S Q sid user (OfferKey (public_of S key) h)"
  using assms
  by (auto simp: sign_with_hash_alg_reachable client_make_to_sign_def offer_of_key_def key_with_hash_new_def with_hash_alg_plain)

text \<open>What the session sends for a signature that comes through the handle, and for one that it makes itself.\<close>

lemma signed_through_handle:
  assumes "ssh_wire W" "env_wire V = W" "ssh_of V = S" "cl_handle_listens s"
    and "client_make_to_sign W S Q (enc_session_id enc) (auth_user (cl_common s)) (OfferKey p h) = Ok (buf, i)"
  shows "\<exists>s1. client_pk_ok V Q enc (s\<lparr>cl_common := (cl_common s)\<lparr>auth_method := Some (MethodFuturePublicKey p h)\<rparr>,
        cl_receiver := MsgSigned (buf @ blob_field W sg) # ms\<rparr>) = Ok s1
    \<and> cl_encrypted s1 = Some (enc\<lparr>enc_write := enc_write enc @ frame W (drop i (buf @ blob_field W sg))\<rparr>)"
proof -
  let ?s = "s\<lparr>cl_common := (cl_common s)\<lparr>auth_method := Some (MethodFuturePublicKey p h)\<rparr>\<rparr>" and ?data = "buf @ blob_field W sg"
  have i: "i \<le> length ?data" using to_sign_length [OF assms(5)] by simp
  have d: "length ?data \<noteq> length buf" by (simp add: blob_field_def ssh_wire.be_put_length [OF assms(1)])
  have "client_make_to_sign W (ssh_of V) Q (enc_session_id enc) (auth_user (cl_common ?s)) (OfferKey p h) = Ok (buf, i)"
    using assms(3,5) by simp
  from future_key_awaits(2) [OF assms(2) _ _ this d i assms(1), of ms] assms(4) show ?thesis by auto
qed

lemma signed_with_key:
  assumes "ssh_wire W" "env_wire V = W" "ssh_of V = S" "pub_algorithm Q (public_of S key) = key_algorithm S key"
    and "h = None \<or> \<not> is_rsa (key_algorithm S key)"
    and "client_make_to_sign W S Q (enc_session_id enc) (auth_user (cl_common s)) (OfferKey (public_of S key) h) = Ok (buf, i)"
    and "sign_with_hash_alg S (key_with_hash_new S key None) buf = Ok sg" "length sg < 2 ^ 32"
  shows "\<exists>s2. client_pk_ok V Q enc (s\<lparr>cl_common := (cl_common s)\<lparr>auth_method := Some (MethodPublicKey (key_with_hash_new S key h))\<rparr>\<rparr>) = Ok s2
    \<and> cl_encrypted s2 = Some (enc\<lparr>enc_write := enc_write enc @ frame W (drop i (buf @ blob_field W sg))\<rparr>)"
proof -
  let ?kh = "key_with_hash_new S key h" and ?data = "buf @ blob_field W sg"
  have "push_packet W [put_raw (drop i ?data)] (enc_write enc) = Ok (enc_write enc @ frame W (drop i ?data))"
    by (rule ssh_wire.push_packet_frame [OF assms(1)]) simp
  moreover have "slice_from i ?data = Ok (drop i ?data)" using to_sign_length [OF assms(6)] by (simp add: slice_from_def)
  moreover have "w_bytes W sg = Ok (blob_field W sg)" by (rule ssh_wire.put_blob_field [OF assms(1,8)])
  ultimately have "client_send_signature W S Q (auth_user (cl_common s)) (MethodPublicKey ?kh) [] enc
      = Ok (?data, enc\<lparr>enc_write := enc_write enc @ frame W (drop i ?data)\<rparr>)"
    using assms(6,7) key_with_hash_plain(1) [OF assms(5)] key_with_hash_plain(2) [OF assms(5,4)] by (simp add: send_signed_def enc_push_def)
  then show ?thesis
    using assms(2,3) by (simp add: client_pk_ok_def Let_def cl_set_encrypted_def)
qed

section \<open>Properties\<close>

text \<open>Property C36: signing through an agent, this library's own agent on the other end of its client. Where the request
  asks for no hash of RSA (every key but RSA, whatever hash was named, and RSA without one), a client that authenticates
  with an agent which has the key sends the very packet that it sends when it is given the private key, provided that both
  signatures are the same function of the key and the data; the agent is left as it was and the call reports the
  outcome of the authentication. Where the request asks for SHA-256 or SHA-512 with an RSA key, the agent signs without
  regard to that, the client refuses the answer, and the call ends with \<open>AgentProtocolError\<close>, nothing signed having been sent.\<close>

theorem agent_signs_as_key:
  fixes s :: "('st, 'z, 'key, 'cert, 'pub) client_session" and g :: "('key, 'cert, 'pub) client_handle"
  assumes "agent_keys W S G" "env_wire V = W" "ssh_of V = S" "pub_algorithm Q (public_of S key) = key_algorithm S key"
    and l: "idle l" "\<not> is_locked (lk_store l)" "asked A" "store_keys (lk_store l) blob = Some (key, time, cs)"
      "pub_blob G (public_of S key) = Ok blob"
    and s: "cl_handle_listens s"
      "client_make_to_sign W S Q (enc_session_id enc) (auth_user (cl_common s)) (OfferKey (public_of S key) h) = Ok (buf, i)"
    and sig: "sign_with_hash_alg S (key_with_hash_new S key None) buf = Ok sg" "sg = text_field W t @ blob_field W x" "short_text t"
      "t \<noteq> ''rsa-sha2-256''" "t \<noteq> ''rsa-sha2-512''"
    and size: "length blob + length buf + 13 < 2 ^ 32" "length sg + 5 < 2 ^ 32"
    and g: "hd_receiver g = RepSignRequest (public_of S key) buf # rs" "\<And>key data. RepSignRequest key data \<notin> set rs"
      "2 \<le> snd_room (hd_sender g)"
  shows "if hash_flag (key_algorithm S key) h = 0
    then \<exists>data c g' s1 s2.
        authenticate_publickey_with (agent_auth_publickey_sign W (pub_algorithm Q) G (link_stream W S G A iter now)) user
          (public_of S key) h (agent_connect l) g = (Ok (fst (wait_reply rs)), c, g') \<and> ac_stream c = l
      \<and> snd_sent (hd_sender g') = snd_sent (hd_sender g)
          @ [MsgAuthenticate user (MethodFuturePublicKey (public_of S key) h), MsgSigned data]
      \<and> client_pk_ok V Q enc (s\<lparr>cl_common := (cl_common s)\<lparr>auth_method := Some (MethodFuturePublicKey (public_of S key) h)\<rparr>,
          cl_receiver := MsgSigned data # ms\<rparr>) = Ok s1
      \<and> client_pk_ok V Q enc (s\<lparr>cl_common := (cl_common s)\<lparr>auth_method := Some (MethodPublicKey (key_with_hash_new S key h))\<rparr>\<rparr>) = Ok s2
      \<and> cl_encrypted s1 = Some (enc\<lparr>enc_write := enc_write enc @ frame W (drop i (buf @ blob_field W sg))\<rparr>)
      \<and> cl_encrypted s2 = cl_encrypted s1
    else \<exists>c g'.
        authenticate_publickey_with (agent_auth_publickey_sign W (pub_algorithm Q) G (link_stream W S G A iter now)) user
          (public_of S key) h (agent_connect l) g = (Err (Keys AgentProtocolError), c, g')
      \<and> snd_sent (hd_sender g') = snd_sent (hd_sender g) @ [MsgAuthenticate user (MethodFuturePublicKey (public_of S key) h)]"
proof -
  note W = agent_keys.axioms(1) [OF assms(1)]
  let ?p = "public_of S key" and ?data = "buf @ blob_field W sg" and ?flag = "hash_flag (key_algorithm S key) h"
  let ?sign = "agent_auth_publickey_sign W (pub_algorithm Q) G (link_stream W S G A iter now)"
  let ?m = "MethodFuturePublicKey ?p h :: ('key, 'cert, 'pub) auth_method"
  let ?s = "s\<lparr>cl_common := (cl_common s)\<lparr>auth_method := Some ?m\<rparr>\<rparr>"
  obtain k where k: "snd_room (hd_sender g) = Suc (Suc k)" using g(3) that [of "snd_room (hd_sender g) - 2"] by simp
  note signs = agent_keys.sign_request_data [OF assms(1) l sig(1-3) size, of "pub_algorithm Q" h iter now "[]",
      folded agent_connect_def, unfolded assms(4)]
  show ?thesis
  proof (cases "?flag = 0")
    case False
    then have "client_sign_request W (pub_algorithm Q) G (link_stream W S G A iter now) ?p h buf (agent_connect l) = Err (Keys AgentProtocolError)"
      using signs(2) sig(4,5) by simp
    then have "?sign (agent_connect l) ?p h buf = (Err (Keys AgentProtocolError), agent_connect l)"
      by (simp add: agent_auth_publickey_sign_def)
    with False show ?thesis by (simp add: authenticate_publickey_with_def mpsc_send_def g(1) k)
  next
    case True
    obtain c where c: "client_sign_request W (pub_algorithm Q) G (link_stream W S G A iter now) ?p h buf (agent_connect l)
        = Ok (?data, \<lparr>ac_stream = l, ac_buf = c\<rparr>)"
      using signs(1) True by blast
    have sg: "?sign (agent_connect l) ?p h buf = (Ok ?data, \<lparr>ac_stream = l, ac_buf = c\<rparr>)"
      by (simp add: agent_auth_publickey_sign_def c)
    obtain y rs' where y: "wait_reply rs = (y, rs')" by (cases "wait_reply rs")
    have "\<exists>g'. authenticate_publickey_with ?sign user ?p h (agent_connect l) g = (Ok (fst (wait_reply rs)), \<lparr>ac_stream = l, ac_buf = c\<rparr>, g')
        \<and> snd_sent (hd_sender g') = snd_sent (hd_sender g) @ [MsgAuthenticate user ?m, MsgSigned ?data]"
      by (simp add: authenticate_publickey_with_def mpsc_send_def g(1) k y sg signing_loop_unsigned [OF g(2)])
    then obtain g' where 1: "authenticate_publickey_with ?sign user ?p h (agent_connect l) g
        = (Ok (fst (wait_reply rs)), \<lparr>ac_stream = l, ac_buf = c\<rparr>, g')"
      "snd_sent (hd_sender g') = snd_sent (hd_sender g) @ [MsgAuthenticate user ?m, MsgSigned ?data]" by blast
    obtain s1 where 2: "client_pk_ok V Q enc (?s\<lparr>cl_receiver := MsgSigned ?data # ms\<rparr>) = Ok s1"
      "cl_encrypted s1 = Some (enc\<lparr>enc_write := enc_write enc @ frame W (drop i ?data)\<rparr>)"
      using signed_through_handle [OF W assms(2,3) s] by blast
    obtain s2 where 3: "client_pk_ok V Q enc (s\<lparr>cl_common := (cl_common s)\<lparr>auth_method := Some (MethodPublicKey (key_with_hash_new S key h))\<rparr>\<rparr>) = Ok s2"
      "cl_encrypted s2 = Some (enc\<lparr>enc_write := enc_write enc @ frame W (drop i ?data)\<rparr>)"
      using signed_with_key [OF W assms(2-4) no_flag_no_hash [OF True] s(2) sig(1)] size(2) by auto
    have "ac_stream \<lparr>ac_stream = l, ac_buf = c\<rparr> = l" by simp
    with 1 2 3 True show ?thesis by simp
  qed
qed

text \<open>A key whose signatures have the format that the agent's client takes apart.\<close>

definition signer_keys :: "(unit, bytes, bytes) ssh_keys" where
  "signer_keys = sample_ssh\<lparr>try_sign := \<lambda>k d. Ok (text_field W0 ''x'' @ blob_field W0 [7])\<rparr>"

definition signer_agent :: "(unit, bytes) agent_crates" where
  "signer_agent = \<lparr>keypair_decode = (\<lambda>r. case r of [] \<Rightarrow> Err SshKey | _ # r \<Rightarrow> Ok ((), r)), keypair_encode = (\<lambda>k. Ok [1]), pub_blob = Ok,
     with_comment = (\<lambda>k c. k)\<rparr>"

interpretation signer_agent: agent_keys rfc4251_wire signer_keys signer_agent
  by unfold_locales (auto simp: signer_keys_def sample_ssh_def signer_agent_def)

definition signer_link :: "(unit, unit) agent_link" where
  "signer_link = \<lparr>lk_agent = (), lk_store = new_store\<lparr>store_keys := [[11] \<mapsto> ((), 0, [])]\<rparr>, lk_in = [], lk_out = []\<rparr>"

text \<open>An RSA key in its place.\<close>

definition rsa_keys :: "(unit, bytes, bytes) ssh_keys" where
  "rsa_keys = signer_keys\<lparr>key_algorithm := \<lambda>k. Rsa None, try_sign_rsa := \<lambda>k h d. Ok (text_field W0 ''ssh-rsa'' @ blob_field W0 [7])\<rparr>"

definition rsa_client_keys :: "(bytes, unit) client_key_crates" where
  "rsa_client_keys = sample_client_keys\<lparr>pub_algorithm := \<lambda>p. Rsa None\<rparr>"

interpretation rsa_agent: agent_keys rfc4251_wire rsa_keys signer_agent
  by unfold_locales (auto simp: rsa_keys_def signer_keys_def sample_ssh_def signer_agent_def)

lemma sample_to_sign:
  assumes "short_text (alg_str S (with_hash_alg (pub_algorithm Q [11]) h))" "length (alg_str S (with_hash_alg (pub_algorithm Q [11]) h)) < 50"
    and "pub_to_bytes S [11] = Ok [11]"
  obtains buf i where "client_make_to_sign W0 S Q [] ''a'' (OfferKey [11] h) = Ok (buf, i)" "length buf < 200"
proof -
  have u: "short_text ''a''" "short_text ''ssh-connection''" "short_text ''publickey''" by (simp_all add: short_text_def ascii_def)
  note fields = u rfc.put_text_field rfc.put_blob_field [of "[11]"] rfc.put_blob_field [of "[]"] rfc.put_u8
  obtain buf i where b: "client_make_to_sign W0 S Q [] ''a'' (OfferKey [11] h) = Ok (buf, i)"
    using assms fields by (simp add: client_make_to_sign_def)
  then have "length buf < 200"
    using assms fields by (auto simp: client_make_to_sign_def text_field_def blob_field_def rfc.be_put_length)
  with b show thesis by (rule that)
qed

abbreviation asked_to_sign :: "bytes \<Rightarrow> (unit, unit, bytes) client_handle" where
  "asked_to_sign buf \<equiv> \<lparr>hd_sender = \<lparr>snd_sent = [], snd_room = 9\<rparr>, hd_receiver = [RepSignRequest [11] buf, RepAuthSuccess], hd_channel_buffer_size = 10\<rparr>"

theorem agent_signs_as_key_witness:
  "(\<exists>buf i data c g' s1 s2.
      client_make_to_sign W0 signer_keys sample_client_keys [] ''a'' (OfferKey [11] (Some HashSha512)) = Ok (buf, i)
    \<and> authenticate_publickey_with (agent_auth_publickey_sign W0 (pub_algorithm sample_client_keys) signer_agent
          (link_stream W0 signer_keys signer_agent unit_agent (\<lambda>D. []) 0)) ''a'' [11] (Some HashSha512) (agent_connect signer_link)
        (asked_to_sign buf) = (Ok AuthSuccess, c, g')
    \<and> client_pk_ok (sample_env\<lparr>ssh_of := signer_keys\<rparr>) sample_client_keys ((sample_encrypted (sample_channel 0))\<lparr>enc_session_id := []\<rparr>)
        (signing_session\<lparr>cl_common := (cl_common signing_session)\<lparr>auth_method := Some (MethodFuturePublicKey [11] (Some HashSha512))\<rparr>,
           cl_receiver := [MsgSigned data]\<rparr>) = Ok s1
    \<and> client_pk_ok (sample_env\<lparr>ssh_of := signer_keys\<rparr>) sample_client_keys ((sample_encrypted (sample_channel 0))\<lparr>enc_session_id := []\<rparr>)
        (signing_session\<lparr>cl_common := (cl_common signing_session)\<lparr>auth_method := Some (MethodPublicKey sample_key)\<rparr>\<rparr>) = Ok s2
    \<and> cl_encrypted s2 = cl_encrypted s1)
   \<and> (\<exists>buf i c g'. client_make_to_sign W0 rsa_keys rsa_client_keys [] ''a'' (OfferKey [11] (Some HashSha512)) = Ok (buf, i)
    \<and> authenticate_publickey_with (agent_auth_publickey_sign W0 (pub_algorithm rsa_client_keys) signer_agent
          (link_stream W0 rsa_keys signer_agent unit_agent (\<lambda>D. []) 0)) ''a'' [11] (Some HashSha512) (agent_connect signer_link)
        (asked_to_sign buf) = (Err (Keys AgentProtocolError), c, g'))"
proof
  let ?enc = "(sample_encrypted (sample_channel 0))\<lparr>enc_session_id := []\<rparr>" and ?h = "Some HashSha512"
  have u: "short_text ''x''" "short_text ''ssh-rsa''" "short_text ''ssh-ed25519''" "short_text ''rsa-sha2-512''"
    by (simp_all add: short_text_def ascii_def)
  have g: "RepSignRequest key data \<notin> set [RepAuthSuccess]" "2 \<le> snd_room (hd_sender (asked_to_sign buf))" for key data buf
    by simp_all
  have k: "public_of signer_keys () = [11]" "key_algorithm signer_keys () = Ed25519" "pub_algorithm sample_client_keys [11] = Ed25519"
    "public_of rsa_keys () = [11]" "key_algorithm rsa_keys () = Rsa None" "pub_algorithm rsa_client_keys [11] = Rsa None"
    by (simp_all add: rsa_keys_def signer_keys_def sample_ssh_def rsa_client_keys_def sample_client_keys_def)
  have l: "idle signer_link" "\<not> is_locked (lk_store signer_link)" "asked unit_agent"
    "store_keys (lk_store signer_link) [11] = Some ((), 0, [])" "pub_blob signer_agent [11] = Ok [11]"
    by (simp_all add: signer_link_def idle_def is_locked_def new_store_def asked_def unit_agent_def signer_agent_def)
  have session: "cl_handle_listens signing_session" "auth_user (cl_common signing_session) = ''a''" "enc_session_id ?enc = []"
    by (simp_all add: signing_session_def user_session_def client_session_new_def)
  show "\<exists>buf i data c g' s1 s2.
      client_make_to_sign W0 signer_keys sample_client_keys [] ''a'' (OfferKey [11] ?h) = Ok (buf, i)
    \<and> authenticate_publickey_with (agent_auth_publickey_sign W0 (pub_algorithm sample_client_keys) signer_agent
          (link_stream W0 signer_keys signer_agent unit_agent (\<lambda>D. []) 0)) ''a'' [11] ?h (agent_connect signer_link)
        (asked_to_sign buf) = (Ok AuthSuccess, c, g')
    \<and> client_pk_ok (sample_env\<lparr>ssh_of := signer_keys\<rparr>) sample_client_keys ?enc
        (signing_session\<lparr>cl_common := (cl_common signing_session)\<lparr>auth_method := Some (MethodFuturePublicKey [11] ?h)\<rparr>,
           cl_receiver := [MsgSigned data]\<rparr>) = Ok s1
    \<and> client_pk_ok (sample_env\<lparr>ssh_of := signer_keys\<rparr>) sample_client_keys ?enc
        (signing_session\<lparr>cl_common := (cl_common signing_session)\<lparr>auth_method := Some (MethodPublicKey sample_key)\<rparr>\<rparr>) = Ok s2
    \<and> cl_encrypted s2 = cl_encrypted s1"
  proof -
    let ?sg = "text_field W0 ''x'' @ blob_field W0 [7]"
    obtain buf i where b: "client_make_to_sign W0 signer_keys sample_client_keys [] ''a'' (OfferKey [11] ?h) = Ok (buf, i)" "length buf < 200"
      by (rule sample_to_sign [of signer_keys sample_client_keys ?h]) (simp_all add: k u signer_keys_def sample_ssh_def)
    have sg: "sign_with_hash_alg signer_keys (key_with_hash_new signer_keys () None) buf = Ok ?sg"
      by (simp add: sign_with_hash_alg_def key_with_hash_new_def signer_keys_def sample_ssh_def)
    have size: "length [11 :: u8] + length buf + 13 < 2 ^ 32" "length ?sg + 5 < 2 ^ 32"
      using b(2) by (simp_all add: text_field_def blob_field_def rfc.be_put_length)
    have m: "key_with_hash_new signer_keys () ?h = sample_key" by (simp add: key_with_hash_new_def sample_key_def k)
    have f: "hash_flag Ed25519 ?h = 0" by (simp add: hash_flag_def)
    have v: "env_wire (sample_env\<lparr>ssh_of := signer_keys\<rparr>) = W0" "ssh_of (sample_env\<lparr>ssh_of := signer_keys\<rparr>) = signer_keys"
      by (simp_all add: sample_env_def)
    from agent_signs_as_key [where V = "sample_env\<lparr>ssh_of := signer_keys\<rparr>" and S = signer_keys and key = "()" and h = ?h
        and s = signing_session and enc = ?enc and g = "asked_to_sign buf" and rs = "[RepAuthSuccess]" and ms = "[]" and user = "''a''"
        and iter = "\<lambda>D. []" and now = 0 and Q = sample_client_keys and G = signer_agent,
        unfolded k session m f, OF signer_agent.agent_keys_axioms v _ l session(1) b(1) sg refl u(1) _ _ size _ g]
    show ?thesis using b(1) by (simp add: k) blast
  qed
  show "\<exists>buf i c g'. client_make_to_sign W0 rsa_keys rsa_client_keys [] ''a'' (OfferKey [11] ?h) = Ok (buf, i)
    \<and> authenticate_publickey_with (agent_auth_publickey_sign W0 (pub_algorithm rsa_client_keys) signer_agent
          (link_stream W0 rsa_keys signer_agent unit_agent (\<lambda>D. []) 0)) ''a'' [11] ?h (agent_connect signer_link)
        (asked_to_sign buf) = (Err (Keys AgentProtocolError), c, g')"
  proof -
    let ?sg = "text_field W0 ''ssh-rsa'' @ blob_field W0 [7]"
    obtain buf i where b: "client_make_to_sign W0 rsa_keys rsa_client_keys [] ''a'' (OfferKey [11] ?h) = Ok (buf, i)" "length buf < 200"
      by (rule sample_to_sign [of rsa_keys rsa_client_keys ?h]) (simp_all add: k u rsa_keys_def signer_keys_def sample_ssh_def)
    have sg: "sign_with_hash_alg rsa_keys (key_with_hash_new rsa_keys () None) buf = Ok ?sg"
      by (simp add: sign_with_hash_alg_reachable k) (simp add: rsa_keys_def)
    have size: "length [11 :: u8] + length buf + 13 < 2 ^ 32" "length ?sg + 5 < 2 ^ 32"
      using b(2) by (simp_all add: text_field_def blob_field_def rfc.be_put_length)
    have f: "hash_flag (Rsa None) ?h = 4" by (simp add: hash_flag_def)
    have v: "env_wire (sample_env\<lparr>ssh_of := rsa_keys\<rparr>) = W0" "ssh_of (sample_env\<lparr>ssh_of := rsa_keys\<rparr>) = rsa_keys"
      by (simp_all add: sample_env_def)
    from agent_signs_as_key [where V = "sample_env\<lparr>ssh_of := rsa_keys\<rparr>" and S = rsa_keys and key = "()" and h = ?h
        and s = signing_session and enc = ?enc and g = "asked_to_sign buf" and rs = "[RepAuthSuccess]" and ms = "[]" and user = "''a''"
        and iter = "\<lambda>D. []" and now = 0 and Q = rsa_client_keys and G = signer_agent,
        unfolded k session f, OF rsa_agent.agent_keys_axioms v _ l session(1) b(1) sg refl u(2) _ _ size _ g]
    show ?thesis using b(1) by (simp add: k) blast
  qed
qed

end
