(* ===== verification/Spec2Isabelle.thy ===== *)
theory Spec2Isabelle
  imports Pty CryptoVec KexAgreement Parsing Session FlowControl SessionFlow SshRead Channels ServerProperties ClientProperties
    KnownHosts AgentLink Defaults Handles AgentSigner
begin

text \<open>
  A model of edgessh's SSH library (the crates \<open>russh\<close> and \<open>russh-cryptovec\<close> under \<open>src/crates\<close>) and the
  theorems that make it correct. Paths below are relative to \<open>src/crates/russh/russh/src\<close>.

  The program. A session, of a client or a server, exchanges identification strings, negotiates
  algorithms (\<open>negotiation.rs\<close>), runs a key exchange (\<open>client/kex.rs\<close>, \<open>server/kex.rs\<close>, with the methods of
  \<open>kex/\<close>), derives keys (\<open>kex/mod.rs\<close>) and from then on seals each outgoing and opens each incoming packet
  (\<open>cipher/\<close>, \<open>mac/\<close>, \<open>compression.rs\<close>, \<open>sshbuffer.rs\<close>). Above the packets lie authentication and the channels,
  whose state and flow control both roles share (\<open>session.rs\<close>). A server (\<open>server/\<close>) and a client (\<open>client/\<close>) each
  run an event loop over packets, timers and the messages of their application, and call the application's
  handler; an application reads and writes a channel through a stream (\<open>channels/\<close>).

  Conventions. An operation that can fail returns \<open>'a rs\<close> (\<open>Prelude\<close>): \<open>Ok\<close>, \<open>Err\<close> with the error of
  \<open>lib_inner.rs\<close>, \<open>Panic\<close> where the Rust code panics, \<open>Diverges\<close> where a loop does not end. State is passed
  and returned; on an error the changed state is dropped, for the callers end the session then. Machine
  integers are words (\<open>u8\<close>, \<open>u32\<close>, \<open>u64\<close>) and wrap as in a release build; \<open>usize\<close> is a natural number.
  A hash map is a map; where the code iterates over one, the order is an argument. Logging is left out.

  Parameters. What comes from crates outside the repository is a record of functions that every
  definition using it takes as an argument, with what the crates document as laws: the encoding
  (\<open>wire\<close>, locale \<open>ssh_wire\<close>, in \<open>Wire\<close>), the ciphers and codes (\<open>crypto\<close>, \<open>crypto_laws\<close>), deflate (\<open>flate\<close>), big
  integers, curves and hashes of the key exchange (\<open>kex_laws\<close>), host keys and signatures (\<open>ssh_keys\<close>). Each
  has a concrete instance in the development, on which the witnesses rest.

  Theories.
  \<^item> \<open>Prelude\<close>, \<open>Wire\<close>, \<open>Lib\<close> (\<open>lib_inner.rs\<close>), \<open>Msg\<close> (\<open>msg.rs\<close>), \<open>Pty\<close> (\<open>pty.rs\<close>), \<open>CryptoVec\<close>: shared types, the data
    representation and its framing, constants and tables.
  \<^item> \<open>Compression\<close>, \<open>Cipher\<close>, \<open>PacketCipher\<close>, \<open>SshBuffer\<close>: packets. \<open>packet_cipher\<close> is the interface of a cipher,
    a locale in which the round trip of a stream of packets is proved once; it is interpreted for the
    clear, the block and stream, the GCM and the ChaCha20 cipher, and for all of them together.
  \<^item> \<open>Auth\<close> (\<open>auth.rs\<close>, \<open>helpers.rs\<close>), \<open>Algorithms\<close> (tables, \<open>compute_keys\<close>), \<open>Negotiation\<close>, \<open>DhGroups\<close>, \<open>KexAlgorithms\<close>:
    names, choice of algorithms, the exchange methods and the derivation of keys.
  \<^item> \<open>Config\<close>, \<open>Kex\<close>, \<open>KexRuns\<close>, \<open>KexAgreement\<close>: the two state machines of the key exchange, their runs as
    inductive relations with invariants, and what a finished exchange guarantees to either side. \<open>KexRuns\<close> fixes the
    packets of each method, in their order, and \<open>redrawn\<close>, an environment with other random values; the agreement in
    \<open>KexAgreement\<close> goes through the bytes that both sides write and read until both machines are done.
  \<^item> \<open>Parsing\<close> (\<open>parsing.rs\<close>), \<open>Session\<close> (\<open>session.rs\<close>), \<open>FlowControl\<close>, \<open>SessionFlow\<close>: channels. \<open>FlowControl\<close> states
    the abstract view of a channel, a queue of bytes and a credit, and shows that the code implements
    it; \<open>SessionFlow\<close> takes the messages on through the packet writer to the peer, and balances the two
    ends' accounts of a window.
  \<^item> \<open>Channels\<close> (\<open>channels/\<close>): the messages of a channel, and the two ends of a byte stream over them.
  \<^item> \<open>ServerAuth\<close> (\<open>server/encrypted.rs\<close>, \<open>cert.rs\<close>), \<open>ServerSession\<close> (\<open>server/session.rs\<close>), \<open>ServerHandler\<close> (one
    definition per message of a client that is logged in), \<open>ServerLoop\<close> (\<open>process_packet\<close>, \<open>reply\<close>, a round of the
    loop): the server. The application's handler is a record of callbacks that may change the session; the
    clock is an argument. \<open>ServerSafety\<close> has the stages of a session and the invariants over all rounds,
    \<open>ServerProperties\<close> the properties: how a session gets logged in, that the other callbacks are out of reach
    before, the time that rejections keep, and ways in which a client is locked out or the server panics.
  \<^item> \<open>ClientSession\<close> (\<open>client/session.rs\<close>, the state of \<open>client/mod.rs\<close>), \<open>ClientAuth\<close> and \<open>ClientHandler\<close>
    (\<open>client/encrypted.rs\<close>), \<open>ClientLoop\<close> (\<open>process_packet\<close>, \<open>handle_msg\<close>, \<open>reply\<close>, a round of \<open>run_inner\<close>, start and end):
    the client. \<open>ClientSafety\<close> has the runs up to the end of the first key exchange, with the invariants that
    the application's messages wait until then and that the exchange is about the KEXINIT which the client wrote.
    In these runs, as in those of the server, every round has random values of its own.
  \<^item> \<open>Login\<close>, \<open>Requests\<close>, \<open>ClientProperties\<close>: both roles together. \<open>login_key\<close> is the interface of a user's key, a
    locale under which what the client writes and signs is what the server reads and checks; a channel
    request of the client's application arrives in the server's application as the same request.

  \<^item> \<open>SshRead\<close> (\<open>ssh_read.rs\<close>): the reader that takes the identification string off the start of a connection,
    over a stream in chunks, and what is read behind it.
  \<^item> \<open>KeyFiles\<close> (\<open>keys/mod.rs\<close>, \<open>keys/format/\<close>), \<open>KnownHosts\<close> (\<open>keys/known_hosts.rs\<close>): keys as texts, and the file
    of known hosts as a text that is checked and extended.
  \<^item> \<open>AgentServer\<close>, \<open>AgentClient\<close>, \<open>AgentSafety\<close>, \<open>AgentLink\<close> (\<open>keys/agent/\<close>): the agent, its client, the agent's runs with
    many connections as a step relation, and a client over a stream to an agent. \<open>agent_keys\<close> is the locale of
    what \<open>ssh_key\<close> promises about keys that travel.
  \<^item> \<open>Defaults\<close>: the default methods of the traits \<open>Handler\<close> (\<open>server/mod.rs\<close>, \<open>client/mod.rs\<close>), and what a server or
    client made of nothing else lets happen.
  \<^item> \<open>ChannelHandle\<close> (the halves of a channel, \<open>channels/mod.rs\<close>), \<open>ClientHandle\<close> (\<open>Handle\<close> of \<open>client/mod.rs\<close>),
    \<open>ServerHandle\<close> (\<open>Handle\<close> of \<open>server/session.rs\<close>): how an application reaches its session. The queue of messages
    to the session is a record \<open>sender\<close>; what comes back is an argument. \<open>Opening\<close> follows a channel from a client's handle
    to the server's application and back; \<open>Handles\<close> has what can go wrong between an application and its session, and the
    interface \<open>channel_messages\<close>, a locale interpreted on the messages of both roles; \<open>AgentSigner\<close> has an agent sign for a
    client (\<open>auth.rs\<close>).

  Bounds. No fuel is used: loops are structural recursion, \<open>function\<close> with a measure (\<open>flush_loop\<close>), or
  \<open>partial_function (option)\<close>, where \<open>None\<close> is not returning, with a theorem that says when this happens
  (\<open>send_chunks\<close>, \<open>free_id\<close>). A loop over a reader that would not shorten it is \<open>Diverges\<close>. The lemmas on flow control bound a buffer by 2 GiB and a window by \<open>2 ^ 31\<close>; a
  property shows what happens beyond.

  Not modelled: the methods of \<open>Channel\<close> that only call those of its halves; sockets, timers and runtime shims, memory
  locking; what format crates do inside a key file, and the legacy parser of \<open>keys/format\<close>, which is off by
  default; how a client finds its agent's socket; and the TypeScript front ends with their glue.
\<close>

end
